(* ===== verification/Prelude.thy ===== *)
theory Prelude
  imports Main "HOL-Library.Word"
begin

text \<open>
  What every component theory shares: the phases of a simulated cycle and the guard that makes
  a state change happen in the commit phase only (sim/kernel.h, sim/object.h), the results and
  the errors of a process, machine integer types, the notifications a storage sends to the
  process that is sensitive on it, and generic lemmas on lists, words and chains threaded through a table.
\<close>

unbundle bit_operations_syntax

named_theorems sim_defs \<open>definitions of simulator operations, unfolded by the component proofs\<close>

section \<open>Machine integers\<close>

type_synonym u8 = "8 word"
type_synonym u16 = "16 word"
type_synonym u32 = "32 word"
type_synonym u64 = "64 word"

section \<open>Phases, results and errors\<close>

text \<open>\<open>CyclePhase\<close> of sim/kernel.h.\<close>

datatype CyclePhase = PHASE_ACQUIRE | PHASE_CHECK | PHASE_COMMIT

text \<open>\<open>Result\<close> of sim/process.h, as a process delegate returns it.\<close>

datatype Result = SUCCESS | DELAYED | FAILED

text \<open>
  An assertion of the source, an exception it throws, or an execution the C++ standard leaves
  undefined, is the left value of a sum; a normal return is the right value.
\<close>

datatype sim_error =
    AssertionFailure
  | UndefinedBehaviour
  | SimulationException
  | InvalidArgumentException
  | IllegalInstruction
  | DomainError
  | OutOfRange
  | LogicError

type_synonym 'a res = "sim_error + 'a"

definition assert_that :: "bool \<Rightarrow> 'a res \<Rightarrow> 'a res" where
  "assert_that b r = (if b then r else Inl AssertionFailure)"

definition res_bind :: "'a res \<Rightarrow> ('a \<Rightarrow> 'b res) \<Rightarrow> 'b res" where
  "res_bind m f = (case m of Inl e \<Rightarrow> Inl e | Inr a \<Rightarrow> f a)"

text \<open>The macro \<open>COMMIT\<close> of sim/object.h: its block runs in the commit phase only.\<close>

definition COMMIT :: "CyclePhase \<Rightarrow> ('s \<Rightarrow> 's) \<Rightarrow> 's \<Rightarrow> 's" where
  "COMMIT ph f s = (if ph = PHASE_COMMIT then f s else s)"

lemma assert_that_simps [simp]:
  "assert_that True r = r"
  "assert_that False r = Inl AssertionFailure"
  by (simp_all add: assert_that_def)

lemma assert_that_Inr [simp]: "assert_that b r = Inr x \<longleftrightarrow> b \<and> r = Inr x"
  by (simp add: assert_that_def)

lemma res_bind_simps [simp]:
  "res_bind (Inl e) f = Inl e"
  "res_bind (Inr a) f = f a"
  by (simp_all add: res_bind_def)

lemma res_bind_Inr: "res_bind m f = Inr y \<longleftrightarrow> (\<exists>x. m = Inr x \<and> f x = Inr y)"
  by (cases m) simp_all

lemma COMMIT_simps [simp]:
  "COMMIT PHASE_COMMIT f s = f s"
  "COMMIT PHASE_ACQUIRE f s = s"
  "COMMIT PHASE_CHECK f s = s"
  by (simp_all add: COMMIT_def)

lemma COMMIT_idle: "ph \<noteq> PHASE_COMMIT \<Longrightarrow> COMMIT ph f s = s"
  by (simp add: COMMIT_def)

section \<open>Notifications of a sensitive storage\<close>

text \<open>
  \<open>SensitiveStorage::Notify\<close> adds one activation to the sensitive process and \<open>Unnotify\<close>
  removes one (sim/storage.h); an update returns the notifications it sent, in order.
\<close>

datatype notification = Notify | Unnotify

fun activations :: "notification list \<Rightarrow> int" where
  "activations [] = 0"
| "activations (Notify # ns) = 1 + activations ns"
| "activations (Unnotify # ns) = activations ns - 1"

lemma activations_append [simp]: "activations (xs @ ys) = activations xs + activations ys"
  by (induction xs rule: activations.induct) auto

section \<open>Lists\<close>

text \<open>The position of the first occurrence, the length of the list when there is none:
  \<open>std::find(begin, end, x) - begin\<close>.\<close>

fun find_index :: "('a \<Rightarrow> bool) \<Rightarrow> 'a list \<Rightarrow> nat" where
  "find_index P [] = 0"
| "find_index P (x # xs) = (if P x then 0 else Suc (find_index P xs))"

lemma find_index_le [simp]: "find_index P xs \<le> length xs"
  by (induction xs) auto

lemma find_index_less: "find_index P xs < length xs \<longleftrightarrow> (\<exists>x\<in>set xs. P x)"
  by (induction xs) auto

lemma find_index_nth: "find_index P xs < length xs \<Longrightarrow> P (xs ! find_index P xs)"
  by (induction xs) auto

lemma find_index_before: "i < find_index P xs \<Longrightarrow> \<not> P (xs ! i)"
proof (induction xs arbitrary: i)
  case (Cons x xs)
  then show ?case by (cases i) (auto split: if_splits)
qed simp

lemma find_index_first:
  "i < length xs \<Longrightarrow> P (xs ! i) \<Longrightarrow> (\<And>j. j < i \<Longrightarrow> \<not> P (xs ! j)) \<Longrightarrow> find_index P xs = i"
  by (metis find_index_before find_index_less find_index_nth nat_neq_iff nth_mem)

lemma find_index_distinct:
  "distinct xs \<Longrightarrow> i < length xs \<Longrightarrow> find_index (\<lambda>y. y = xs ! i) xs = i"
  by (rule find_index_first) (auto simp: nth_eq_iff_index_eq)

lemma find_index_eq_nth: "x \<in> set xs \<Longrightarrow> xs ! find_index (\<lambda>y. y = x) xs = x"
  using find_index_nth [of "\<lambda>y. y = x" xs] find_index_less [of "\<lambda>y. y = x" xs] by auto

lemma count_list_update:
  "i < length xs \<Longrightarrow>
   length (filter P (xs[i := x])) + of_bool (P (xs ! i)) = length (filter P xs) + of_bool (P x)"
proof (induction xs arbitrary: i)
  case (Cons y ys)
  then show ?case by (cases i) auto
qed simp

text \<open>A loop over a list whose body may fail.\<close>

fun res_fold :: "('a \<Rightarrow> 's \<Rightarrow> 's res) \<Rightarrow> 'a list \<Rightarrow> 's \<Rightarrow> 's res" where
  "res_fold f [] s = Inr s"
| "res_fold f (x # xs) s = res_bind (f x s) (res_fold f xs)"

lemma res_fold_invariant:
  assumes "res_fold f xs s = Inr s'" and "P s"
    and "\<And>x s s'. x \<in> set xs \<Longrightarrow> P s \<Longrightarrow> f x s = Inr s' \<Longrightarrow> P s'"
  shows "P s'"
  using assms
proof (induction xs arbitrary: s)
  case (Cons x xs)
  then obtain s1 where "f x s = Inr s1" "res_fold f xs s1 = Inr s'" by (auto simp: res_bind_Inr)
  with Cons show ?case by (meson list.set_intros)
qed simp

lemma res_fold_cong: "(\<And>x s. x \<in> set xs \<Longrightarrow> f x s = g x s) \<Longrightarrow> res_fold f xs s = res_fold g xs s"
proof (induction xs arbitrary: s)
  case (Cons x xs)
  have "res_fold f xs = res_fold g xs" using Cons by auto
  with Cons.prems show ?case by simp
qed simp

section \<open>Chains in a table\<close>

text \<open>\<open>tbl ! i\<close> is the field \<open>N\<close> of the element \<open>i\<close> of the table.\<close>

fun linked :: "nat list \<Rightarrow> nat list \<Rightarrow> bool" where
  "linked tbl [] = True"
| "linked tbl [x] = (x < length tbl)"
| "linked tbl (x # y # zs) = (x < length tbl \<and> tbl ! x = y \<and> linked tbl (y # zs))"

lemma linked_Cons: "linked tbl (x # xs) \<longleftrightarrow>
    x < length tbl \<and> (xs \<noteq> [] \<longrightarrow> tbl ! x = hd xs) \<and> linked tbl xs"
  by (cases xs) auto

lemma linked_bound: "linked tbl xs \<Longrightarrow> x \<in> set xs \<Longrightarrow> x < length tbl"
  by (induction tbl xs rule: linked.induct) auto

lemma linked_tl: "linked tbl xs \<Longrightarrow> linked tbl (tl xs)"
  by (cases xs) (simp_all add: linked_Cons)

lemma linked_append: "linked tbl (xs @ ys) \<longleftrightarrow>
    linked tbl xs \<and> linked tbl ys \<and> (xs \<noteq> [] \<and> ys \<noteq> [] \<longrightarrow> tbl ! last xs = hd ys)"
  by (induction xs) (auto simp: linked_Cons)

lemma linked_update: "i \<notin> set (butlast xs) \<Longrightarrow> linked (tbl[i := v]) xs \<longleftrightarrow> linked tbl xs"
proof (induction xs)
  case (Cons x xs)
  then show ?case by (cases "xs = []") (auto simp: linked_Cons nth_list_update)
qed simp

lemma last_notin_butlast: "distinct xs \<Longrightarrow> xs \<noteq> [] \<Longrightarrow> last xs \<notin> set (butlast xs)"
  by (metis append_butlast_last_id distinct_append disjoint_iff list.set_intros(1))

lemma distinct_bounded_length: "distinct xs \<Longrightarrow> (\<And>x. x \<in> set xs \<Longrightarrow> x < n) \<Longrightarrow> length xs \<le> n"
  by (metis card_lessThan card_mono distinct_card finite_lessThan lessThan_iff subsetI)

text \<open>Linking two disjoint chains by one write to the last element of the first.\<close>

lemma linked_join:
  assumes "linked tbl xs" "linked tbl ys" "distinct (xs @ ys)" "xs \<noteq> []" "ys \<noteq> []"
  shows "linked (tbl[last xs := hd ys]) (xs @ ys)"
proof -
  have "last xs \<notin> set (butlast xs)" using assms by (simp add: last_notin_butlast)
  moreover have "last xs \<notin> set (butlast ys)"
    using assms by (meson disjoint_iff distinct_append in_set_butlastD last_in_set)
  moreover have "last xs < length tbl" using assms linked_bound by (meson last_in_set)
  ultimately show ?thesis using assms by (simp add: linked_append linked_update)
qed

end
