(* ===== verification/Simulation_Kernel.thy ===== *)
theory Simulation_Kernel
  imports Prelude
begin

text \<open>
  The simulation kernel (sim/kernel.h, sim/kernel.cpp) with its clocks (sim/clock.h,
  sim/clock.hpp), the activation of processes, storages and arbitrators (sim/process.hpp,
  sim/storage.hpp, sim/arbitrator.hpp), and the main loop \<open>Kernel::Step\<close>.

  Clocks, processes, storages and arbitrators are numbers into the lists of the kernel, where
  the code has pointers; the chains of active objects are lists, in chain order. The state of
  the simulated components is the extension of the kernel record, and what the kernel calls
  through virtual functions and delegates, the handlers of the components, is the argument
  \<open>callbacks\<close>. Cycle counters are natural numbers: they are 64 bits wide in the code, enough
  for 146 years at 4 GHz by the comment in sim/clock.h. \<open>next_tick_u64\<close> is the code's calculation
  of a tick at that width; it is \<open>next_tick\<close> as long as the tick fits the 64 bits, and wraps otherwise.
  Frequencies and periods are words.
\<close>

section \<open>State\<close>

datatype RunState = STATE_IDLE | STATE_ACTIVE | STATE_RUNNING | STATE_DEADLOCK | STATE_ABORTED

definition INFINITE_CYCLES :: nat where
  "INFINITE_CYCLES = 2 ^ 64 - 1"

record clock =
  c_frequency :: u64
  c_period :: u64
  c_cycle :: nat
  c_processes :: "nat list"
  c_storages :: "nat list"
  c_arbitrators :: "nat list"
  c_activated :: bool

record process =
  pr_state :: RunState
  pr_activations :: u32
  pr_stalls :: u64

text \<open>The kernel's view of a storage or an arbitrator: its clock and its activation mark.\<close>

record sleeper =
  sl_clock :: nat
  sl_activated :: bool

record kernel =
  k_lastsuspend :: nat
  k_cycle :: nat
  k_master_freq :: u64
  k_clock :: "nat option"
  k_process :: "nat option"
  k_clocks :: "clock list"
  k_activeClocks :: "nat list"
  k_phase :: CyclePhase
  k_aborted :: bool
  k_suspended :: bool
  k_processes :: "process list"
  k_storages :: "sleeper list"
  k_arbitrators :: "sleeper list"

definition clock_new :: "u64 \<Rightarrow> u64 \<Rightarrow> clock" where
  "clock_new frequency period = \<lparr>c_frequency = frequency, c_period = period, c_cycle = 0,
     c_processes = [], c_storages = [], c_arbitrators = [], c_activated = False\<rparr>"

definition process_new :: process where
  "process_new = \<lparr>pr_state = STATE_IDLE, pr_activations = 0, pr_stalls = 0\<rparr>"

definition kernel_new :: kernel where
  "kernel_new = \<lparr>k_lastsuspend = 2 ^ 64 - 1, k_cycle = 0, k_master_freq = 0, k_clock = None,
     k_process = None, k_clocks = [], k_activeClocks = [], k_phase = PHASE_COMMIT,
     k_aborted = False, k_suspended = False, k_processes = [], k_storages = [],
     k_arbitrators = []\<rparr>"

definition Abort :: "'z kernel_scheme \<Rightarrow> 'z kernel_scheme" where
  "Abort k = k\<lparr>k_aborted := True\<rparr>"

definition Stop :: "'z kernel_scheme \<Rightarrow> 'z kernel_scheme" where
  "Stop k = k\<lparr>k_suspended := True\<rparr>"

section \<open>Clock frequencies\<close>

function gcd_loop :: "u64 \<Rightarrow> u64 \<Rightarrow> u64" where
  "gcd_loop a b = (if b \<noteq> 0 then gcd_loop b (a mod b) else a)"
  by auto
termination
proof (relation "measure (\<lambda>(a, b). unat b)")
  fix a b :: u64
  assume "b \<noteq> 0"
  then have "0 < unat b" by (simp add: unat_gt_0)
  then show "((b, a mod b), (a, b)) \<in> measure (\<lambda>(a, b). unat b)"
    by (simp add: unat_mod)
qed simp

declare gcd_loop.simps [simp del]

definition lcm_u64 :: "u64 \<Rightarrow> u64 \<Rightarrow> u64" where
  "lcm_u64 a b = a * b div gcd_loop a b"

text \<open>The loop of \<open>CreateClock\<close>: the clock of this frequency, or the new master frequency.\<close>

fun find_clock :: "u64 \<Rightarrow> clock list \<Rightarrow> nat \<Rightarrow> u64 \<Rightarrow> nat + u64" where
  "find_clock f [] i m = Inr m"
| "find_clock f (c # cs) i m =
     (if c_frequency c = f then Inl i else find_clock f cs (Suc i) (lcm_u64 m (c_frequency c)))"

definition set_periods :: "u64 \<Rightarrow> clock list \<Rightarrow> clock list" where
  "set_periods m cs = map (\<lambda>c. c\<lparr>c_period := m div c_frequency c\<rparr>) cs"

definition CreateClock :: "u64 \<Rightarrow> 'z kernel_scheme \<Rightarrow> (nat \<times> 'z kernel_scheme) res" where
  "CreateClock frequency k = assert_that (k_cycle k = 0) (assert_that (0 < frequency)
     (let f = max 1 frequency in
      case find_clock f (k_clocks k) 0 1 of
        Inl i \<Rightarrow> Inr (i, k)
      | Inr m \<Rightarrow>
          (let m = lcm_u64 m f in
           if k_master_freq k \<noteq> m \<and> (\<exists>c\<in>set (k_clocks k). m mod c_frequency c \<noteq> 0)
           then Inl AssertionFailure
           else let cs = (if k_master_freq k \<noteq> m then set_periods m (k_clocks k) else k_clocks k)
                in assert_that (m mod f = 0)
                     (Inr (length cs, k\<lparr>k_master_freq := m,
                        k_clocks := cs @ [clock_new f (m div f)]\<rparr>)))))"

section \<open>Activation\<close>

text \<open>Insertion into the chain of active clocks, the earliest in front.\<close>

fun insert_clock :: "clock list \<Rightarrow> nat \<Rightarrow> nat \<Rightarrow> nat list \<Rightarrow> nat list" where
  "insert_clock cs i cyc [] = [i]"
| "insert_clock cs i cyc (j # js) =
     (if c_cycle (cs ! j) < cyc then j # insert_clock cs i cyc js else i # j # js)"

definition next_tick :: "nat \<Rightarrow> u64 \<Rightarrow> nat" where
  "next_tick now period = now div unat period * unat period + unat period"

text \<open>The same calculation in the 64 bits of \<open>CycleNo\<close>, where it can wrap.\<close>

definition next_tick_u64 :: "u64 \<Rightarrow> u64 \<Rightarrow> u64" where
  "next_tick_u64 now period = now div period * period + period"

definition ActivateClock :: "nat \<Rightarrow> 'z kernel_scheme \<Rightarrow> 'z kernel_scheme" where
  "ActivateClock i k =
     (let c = k_clocks k ! i in
      if \<not> c_activated c
      then let cyc = next_tick (k_cycle k) (c_period c)
           in k\<lparr>k_activeClocks := insert_clock (k_clocks k) i cyc (k_activeClocks k),
                k_clocks := (k_clocks k)[i := c\<lparr>c_cycle := cyc, c_activated := True\<rparr>]\<rparr>
      else k)"

definition modify_clock :: "nat \<Rightarrow> (clock \<Rightarrow> clock) \<Rightarrow> 'z kernel_scheme \<Rightarrow> 'z kernel_scheme" where
  "modify_clock i f k = k\<lparr>k_clocks := (k_clocks k)[i := f (k_clocks k ! i)]\<rparr>"

definition modify_process :: "nat \<Rightarrow> (process \<Rightarrow> process) \<Rightarrow> 'z kernel_scheme \<Rightarrow> 'z kernel_scheme" where
  "modify_process p f k = k\<lparr>k_processes := (k_processes k)[p := f (k_processes k ! p)]\<rparr>"

definition ActivateStorage :: "nat \<Rightarrow> nat \<Rightarrow> 'z kernel_scheme \<Rightarrow> 'z kernel_scheme" where
  "ActivateStorage c s k =
     ActivateClock c (modify_clock c (\<lambda>c. c\<lparr>c_storages := s # c_storages c\<rparr>) k)"

definition ActivateArbitrator :: "nat \<Rightarrow> nat \<Rightarrow> 'z kernel_scheme \<Rightarrow> 'z kernel_scheme" where
  "ActivateArbitrator c a k =
     ActivateClock c (modify_clock c (\<lambda>c. c\<lparr>c_arbitrators := a # c_arbitrators c\<rparr>) k)"

definition ActivateProcess :: "nat \<Rightarrow> nat \<Rightarrow> 'z kernel_scheme \<Rightarrow> 'z kernel_scheme" where
  "ActivateProcess c p k =
     (let k1 = modify_process p (\<lambda>p. p\<lparr>pr_activations := pr_activations p + 1\<rparr>) k in
      if pr_activations (k_processes k1 ! p) = 1
      then ActivateClock c (modify_process p (\<lambda>p. p\<lparr>pr_state := STATE_ACTIVE\<rparr>)
             (modify_clock c (\<lambda>c. c\<lparr>c_processes := p # c_processes c\<rparr>) k1))
      else k1)"

text \<open>The process unlinks itself from the chain it is in, whichever clock's it is.\<close>

definition Deactivate :: "nat \<Rightarrow> 'z kernel_scheme \<Rightarrow> 'z kernel_scheme" where
  "Deactivate p k =
     (let k1 = modify_process p (\<lambda>p. p\<lparr>pr_activations := pr_activations p - 1\<rparr>) k in
      if pr_activations (k_processes k1 ! p) = 0
      then modify_process p (\<lambda>p. p\<lparr>pr_state := STATE_IDLE\<rparr>)
             (k1\<lparr>k_clocks := map (\<lambda>c. c\<lparr>c_processes := remove1 p (c_processes c)\<rparr>) (k_clocks k1)\<rparr>)
      else k1)"

definition RegisterUpdate :: "nat \<Rightarrow> 'z kernel_scheme \<Rightarrow> 'z kernel_scheme" where
  "RegisterUpdate s k =
     (let st = k_storages k ! s in
      if \<not> sl_activated st
      then (ActivateStorage (sl_clock st) s k)\<lparr>k_storages := (k_storages k)[s := st\<lparr>sl_activated := True\<rparr>]\<rparr>
      else k)"

definition RequestArbitration :: "nat \<Rightarrow> 'z kernel_scheme \<Rightarrow> 'z kernel_scheme" where
  "RequestArbitration a k =
     (let ar = k_arbitrators k ! a in
      if \<not> sl_activated ar
      then (ActivateArbitrator (sl_clock ar) a k)\<lparr>k_arbitrators :=
              (k_arbitrators k)[a := ar\<lparr>sl_activated := True\<rparr>]\<rparr>
      else k)"

text \<open>What the update of a storage sends to the process that is sensitive on it.\<close>

fun deliver :: "nat \<Rightarrow> nat \<Rightarrow> notification list \<Rightarrow> 'z kernel_scheme \<Rightarrow> 'z kernel_scheme" where
  "deliver c p [] k = k"
| "deliver c p (Notify # ns) k = deliver c p ns (ActivateProcess c p k)"
| "deliver c p (Unnotify # ns) k = deliver c p ns (Deactivate p k)"

section \<open>The main loop\<close>

text \<open>
  The handlers: \<open>m_delegate\<close> of a process, \<open>OnArbitrate\<close> of an arbitrator and \<open>Update\<close> of a
  storage. The trace checks of \<open>OnBeginCycle\<close> and \<open>OnEndCycle\<close> only write to the error stream.
\<close>

record 'k callbacks =
  cb_delegate :: "nat \<Rightarrow> 'k \<Rightarrow> (Result \<times> 'k) res"
  cb_arbitrate :: "nat \<Rightarrow> 'k \<Rightarrow> 'k res"
  cb_update :: "nat \<Rightarrow> 'k \<Rightarrow> 'k res"

text \<open>The loops over the active clocks run while \<open>m_cycle == clock->m_cycle\<close>. The handlers only
  add clocks of later cycles, behind these, so the clocks of a loop are those at its start.\<close>

definition now_clocks :: "'z kernel_scheme \<Rightarrow> nat list" where
  "now_clocks k = takeWhile (\<lambda>i. c_cycle (k_clocks k ! i) = k_cycle k) (k_activeClocks k)"

definition acquire_process ::
  "'z kernel_scheme callbacks \<Rightarrow> nat \<Rightarrow> 'z kernel_scheme \<Rightarrow> 'z kernel_scheme res" where
  "acquire_process cb p k =
     res_bind (cb_delegate cb p (k\<lparr>k_process := Some p\<rparr>)) (\<lambda>(result, k).
       if result = SUCCESS
       then Inr (modify_process p (\<lambda>p. p\<lparr>pr_state := STATE_RUNNING\<rparr>) k)
       else assert_that (result = FAILED)
         (Inr (modify_process p (\<lambda>p. p\<lparr>pr_state := STATE_DEADLOCK, pr_stalls := pr_stalls p + 1\<rparr>) k)))"

definition acquire_phase ::
  "'z kernel_scheme callbacks \<Rightarrow> 'z kernel_scheme \<Rightarrow> 'z kernel_scheme res" where
  "acquire_phase cb k =
     res_fold (\<lambda>c k. res_fold (acquire_process cb) (c_processes (k_clocks k ! c)) (k\<lparr>k_clock := Some c\<rparr>))
       (now_clocks k) (k\<lparr>k_phase := PHASE_ACQUIRE\<rparr>)"

definition arbitrate_one ::
  "'z kernel_scheme callbacks \<Rightarrow> nat \<Rightarrow> 'z kernel_scheme \<Rightarrow> 'z kernel_scheme res" where
  "arbitrate_one cb a k = res_bind (cb_arbitrate cb a k) (\<lambda>k.
     Inr (k\<lparr>k_arbitrators := (k_arbitrators k)[a := (k_arbitrators k ! a)\<lparr>sl_activated := False\<rparr>]\<rparr>))"

definition arbitrate_phase ::
  "'z kernel_scheme callbacks \<Rightarrow> 'z kernel_scheme \<Rightarrow> 'z kernel_scheme res" where
  "arbitrate_phase cb k =
     res_fold (\<lambda>c k. res_bind
         (res_fold (arbitrate_one cb) (c_arbitrators (k_clocks k ! c)) (k\<lparr>k_clock := Some c\<rparr>))
         (\<lambda>k. Inr (modify_clock c (\<lambda>c. c\<lparr>c_arbitrators := []\<rparr>) k)))
       (now_clocks k) k"

text \<open>The check call of a process and, when it succeeds, its commit call; \<open>idle\<close> is threaded.\<close>

definition commit_process ::
  "'z kernel_scheme callbacks \<Rightarrow> nat \<Rightarrow> bool \<times> 'z kernel_scheme \<Rightarrow> (bool \<times> 'z kernel_scheme) res" where
  "commit_process cb p = (\<lambda>(idle, k).
     if pr_state (k_processes k ! p) \<noteq> STATE_DEADLOCK
     then res_bind (cb_delegate cb p (k\<lparr>k_process := Some p, k_phase := PHASE_CHECK\<rparr>)) (\<lambda>(result, k).
            if result = SUCCESS
            then res_bind (cb_delegate cb p (k\<lparr>k_phase := PHASE_COMMIT\<rparr>)) (\<lambda>(result, k).
                   assert_that (result = SUCCESS)
                     (Inr (False, modify_process p (\<lambda>p. p\<lparr>pr_state := STATE_RUNNING\<rparr>) k)))
            else assert_that (result = FAILED)
                   (Inr (idle, modify_process p (\<lambda>p. p\<lparr>pr_state := STATE_DEADLOCK\<rparr>) k)))
     else Inr (idle, k))"

definition commit_phase ::
  "'z kernel_scheme callbacks \<Rightarrow> bool \<times> 'z kernel_scheme \<Rightarrow> (bool \<times> 'z kernel_scheme) res" where
  "commit_phase cb ik =
     res_fold (\<lambda>c (idle, k). res_fold (commit_process cb) (c_processes (k_clocks k ! c))
         (idle, k\<lparr>k_clock := Some c\<rparr>))
       (now_clocks (snd ik)) ik"

definition update_one ::
  "'z kernel_scheme callbacks \<Rightarrow> nat \<Rightarrow> bool \<times> 'z kernel_scheme \<Rightarrow> (bool \<times> 'z kernel_scheme) res" where
  "update_one cb s = (\<lambda>(updated, k). res_bind (cb_update cb s k) (\<lambda>k.
     Inr (True, k\<lparr>k_storages := (k_storages k)[s := (k_storages k ! s)\<lparr>sl_activated := False\<rparr>]\<rparr>)))"

definition UpdateStorages ::
  "'z kernel_scheme callbacks \<Rightarrow> 'z kernel_scheme \<Rightarrow> (bool \<times> 'z kernel_scheme) res" where
  "UpdateStorages cb k =
     res_fold (\<lambda>c (updated, k). res_bind
         (res_fold (update_one cb) (c_storages (k_clocks k ! c)) (updated, k))
         (\<lambda>(updated, k). Inr (updated, modify_clock c (\<lambda>c. c\<lparr>c_storages := []\<rparr>) k)))
       (now_clocks k) (False, k)"

text \<open>A clock that ran leaves the chain, whose head it is, and is scheduled again when it still
  has active components.\<close>

definition retire_clock :: "nat \<Rightarrow> 'z kernel_scheme \<Rightarrow> 'z kernel_scheme res" where
  "retire_clock c k =
     (let k1 = modify_clock c (\<lambda>c. c\<lparr>c_activated := False\<rparr>) (k\<lparr>k_activeClocks := tl (k_activeClocks k)\<rparr>);
          cl = k_clocks k1 ! c
      in assert_that (c_arbitrators cl = [])
           (Inr (if c_processes cl \<noteq> [] \<or> c_storages cl \<noteq> [] then ActivateClock c k1 else k1)))"

definition advance_time :: "'z kernel_scheme \<Rightarrow> 'z kernel_scheme res" where
  "advance_time k = res_bind (res_fold retire_clock (now_clocks k) k) (\<lambda>k.
     case k_activeClocks k of
       [] \<Rightarrow> Inr k
     | c # _ \<Rightarrow> assert_that (k_cycle k < c_cycle (k_clocks k ! c))
                 (Inr (k\<lparr>k_cycle := c_cycle (k_clocks k ! c)\<rparr>)))"

text \<open>One iteration of the loop of \<open>Step\<close>; the result is the new value of \<open>idle\<close>.\<close>

definition run_cycle ::
  "'z kernel_scheme callbacks \<Rightarrow> 'z kernel_scheme \<Rightarrow> (bool \<times> 'z kernel_scheme) res" where
  "run_cycle cb k =
     res_bind (acquire_phase cb k) (\<lambda>k.
     res_bind (arbitrate_phase cb k) (\<lambda>k.
     res_bind (commit_phase cb (True, k)) (\<lambda>(idle, k).
     res_bind (UpdateStorages cb k) (\<lambda>(updated, k).
       let idle = (idle \<and> \<not> updated
                   \<and> \<not> (\<exists>c\<in>set (k_activeClocks k). k_cycle k < c_cycle (k_clocks k ! c)))
       in if idle then Inr (True, k)
          else res_bind (advance_time k) (\<lambda>k. Inr (False, k))))))"

definition loop_condition :: "nat \<Rightarrow> bool \<Rightarrow> 'z kernel_scheme \<Rightarrow> bool" where
  "loop_condition endcycle idle k \<longleftrightarrow>
     \<not> k_aborted k \<and> (\<not> k_suspended k \<or> k_lastsuspend k = k_cycle k) \<and> \<not> idle
     \<and> (endcycle = INFINITE_CYCLES \<or> k_cycle k < endcycle)"

fun step_loop :: "nat \<Rightarrow> 'z kernel_scheme callbacks \<Rightarrow> nat \<Rightarrow> bool \<times> 'z kernel_scheme
    \<Rightarrow> (bool \<times> 'z kernel_scheme) res option" where
  "step_loop fuel cb endcycle (idle, k) =
     (if loop_condition endcycle idle k
      then case fuel of 0 \<Rightarrow> None
        | Suc fuel' \<Rightarrow> (case run_cycle cb k of
              Inl e \<Rightarrow> Some (Inl e)
            | Inr ik \<Rightarrow> step_loop fuel' cb endcycle ik)
      else Some (Inr (idle, k)))"

declare step_loop.simps [simp del]

definition step_begin ::
  "'z kernel_scheme callbacks \<Rightarrow> 'z kernel_scheme \<Rightarrow> 'z kernel_scheme res" where
  "step_begin cb k =
     res_bind (if k_cycle k = 0 then map_sum id snd (UpdateStorages cb k) else Inr k) (\<lambda>k.
     res_bind (case k_activeClocks k of
                 [] \<Rightarrow> Inr k
               | c # _ \<Rightarrow> assert_that (k_cycle k \<le> c_cycle (k_clocks k ! c))
                   (Inr (k\<lparr>k_cycle := c_cycle (k_clocks k ! c)\<rparr>))) (\<lambda>k.
     Inr (k\<lparr>k_aborted := False, k_suspended := False\<rparr>)))"

definition step_finish :: "nat \<Rightarrow> bool \<times> 'z kernel_scheme \<Rightarrow> RunState \<times> 'z kernel_scheme" where
  "step_finish endcycle = (\<lambda>(idle, k).
     let k = k\<lparr>k_cycle := min (k_cycle k) endcycle\<rparr> in
     if k_suspended k then (STATE_ABORTED, k\<lparr>k_lastsuspend := k_cycle k\<rparr>)
     else (if idle then STATE_IDLE else STATE_RUNNING, k))"

definition Step :: "nat \<Rightarrow> 'z kernel_scheme callbacks \<Rightarrow> nat \<Rightarrow> 'z kernel_scheme
    \<Rightarrow> (RunState \<times> 'z kernel_scheme) res option" where
  "Step fuel cb cycles k =
     (let endcycle = (if cycles = INFINITE_CYCLES then cycles else k_cycle k + cycles) in
      case step_begin cb k of
        Inl e \<Rightarrow> Some (Inl e)
      | Inr k \<Rightarrow> map_option (map_sum id (step_finish endcycle)) (step_loop fuel cb endcycle (False, k)))"

section \<open>The invariant of the clock queue\<close>

definition has_work :: "clock \<Rightarrow> bool" where
  "has_work c \<longleftrightarrow> c_processes c \<noteq> [] \<or> c_storages c \<noteq> [] \<or> c_arbitrators c \<noteq> []"

text \<open>The chain holds the activated clocks, each once, by time, none of them in the past.\<close>

definition clock_queue :: "'z kernel_scheme \<Rightarrow> bool" where
  "clock_queue k \<longleftrightarrow>
     distinct (k_activeClocks k)
     \<and> (\<forall>i\<in>set (k_activeClocks k). i < length (k_clocks k) \<and> k_cycle k \<le> c_cycle (k_clocks k ! i))
     \<and> (\<forall>i<length (k_clocks k). c_activated (k_clocks k ! i) \<longleftrightarrow> i \<in> set (k_activeClocks k))
     \<and> sorted (map (\<lambda>i. c_cycle (k_clocks k ! i)) (k_activeClocks k))
     \<and> (\<forall>i<length (k_clocks k). 0 < c_period (k_clocks k ! i))"

text \<open>No lost wakeup: a clock that has something to run is scheduled.\<close>

definition kernel_wf :: "'z kernel_scheme \<Rightarrow> bool" where
  "kernel_wf k \<longleftrightarrow> clock_queue k
     \<and> (\<forall>i<length (k_clocks k). has_work (k_clocks k ! i) \<longrightarrow> c_activated (k_clocks k ! i))"

lemma insert_clock_set [simp]: "set (insert_clock cs i cyc js) = insert i (set js)"
  by (induction js) auto

lemma insert_clock_distinct [simp]:
  "distinct (insert_clock cs i cyc js) \<longleftrightarrow> i \<notin> set js \<and> distinct js"
  by (induction js) auto

lemma insert_clock_sorted:
  assumes "sorted (map (\<lambda>j. c_cycle (cs ! j)) js)" and "i \<notin> set js"
    and "\<And>j. j \<in> set js \<Longrightarrow> c_cycle (cs' ! j) = c_cycle (cs ! j)" and "c_cycle (cs' ! i) = cyc"
  shows "sorted (map (\<lambda>j. c_cycle (cs' ! j)) (insert_clock cs i cyc js))"
  using assms(1-3)
proof (induction js)
  case Nil
  then show ?case by simp
next
  case (Cons j js)
  show ?case
  proof (cases "c_cycle (cs ! j) < cyc")
    case True
    then show ?thesis using Cons assms(4) by auto
  next
    case False
    have eq: "map (\<lambda>j. c_cycle (cs' ! j)) (j # js) = map (\<lambda>j. c_cycle (cs ! j)) (j # js)"
      by (rule map_cong [OF refl]) (rule Cons.prems(3))
    have "c_cycle (cs' ! i) \<le> c_cycle (cs' ! j)" using False assms(4) Cons.prems(3) [of j] by simp
    then have "sorted (map (\<lambda>j. c_cycle (cs' ! j)) (i # j # js))"
      using Cons.prems(1) eq by (metis list.simps(9) sorted2)
    then show ?thesis using False by simp
  qed
qed

lemma next_tick_greater: "0 < period \<Longrightarrow> now < next_tick now period"
proof -
  assume "0 < period"
  then have "0 < unat period" by (simp add: unat_gt_0 word_gt_0)
  then have "now mod unat period < unat period" by simp
  then show ?thesis unfolding next_tick_def using div_mult_mod_eq [of now "unat period"] by linarith
qed

lemma next_tick_dvd: "unat period dvd next_tick now period"
  by (simp add: next_tick_def)

text \<open>The two calculations agree when the tick fits; a tick that does not fit wraps.\<close>

lemma next_tick_u64_fits:
  assumes "next_tick now period < 2 ^ 64" and "0 < period"
  shows "unat (next_tick_u64 (of_nat now) period) = next_tick now period"
proof -
  let ?n = "of_nat now :: u64" and ?p = "unat period"
  have le: "now div ?p * ?p + ?p < 2 ^ 64" using assms by (simp add: next_tick_def)
  have now: "unat ?n = now"
  proof -
    have "0 < ?p" using assms(2) by (simp add: unat_gt_0 word_gt_0)
    then have "now < now div ?p * ?p + ?p"
      using div_mult_mod_eq [of now ?p] mod_less_divisor [of ?p now] by linarith
    then show ?thesis using le by (simp add: unsigned_of_nat take_bit_nat_eq_self)
  qed
  have q: "unat (?n div period) = now div ?p" by (simp add: unat_div now)
  have "unat (?n div period * period) = now div ?p * ?p"
    using le q by (simp add: unat_mult_lem [THEN iffD1])
  then show ?thesis
    using le unat_add_lem [of "?n div period * period" period]
    by (simp add: next_tick_u64_def next_tick_def)
qed

lemma next_tick_u64_wraps: "next_tick_u64 (2 ^ 63 + 1) (2 ^ 63) = 0"
  by (simp add: next_tick_u64_def)

lemma insert_clock_now:
  assumes "cyc \<noteq> now" and "\<And>j. j \<in> set js \<Longrightarrow> now \<le> c_cycle (cs ! j)"
    and "\<And>j. j \<in> set js \<Longrightarrow> c_cycle (cs' ! j) = c_cycle (cs ! j)" and "c_cycle (cs' ! i) = cyc"
    and "now < cyc" and "sorted (map (\<lambda>j. c_cycle (cs ! j)) js)"
  shows "takeWhile (\<lambda>j. c_cycle (cs' ! j) = now) (insert_clock cs i cyc js)
       = takeWhile (\<lambda>j. c_cycle (cs ! j) = now) js"
  using assms(2,3,6)
proof (induction js)
  case Nil
  then show ?case using assms(1,4) by simp
next
  case (Cons j js)
  then show ?case using assms(1,4,5) by auto
qed

text \<open>What an activation leaves as it was.\<close>

definition kernel_le :: "'z kernel_scheme \<Rightarrow> 'z kernel_scheme \<Rightarrow> bool" where
  "kernel_le k k' \<longleftrightarrow> k_cycle k' = k_cycle k \<and> now_clocks k' = now_clocks k
     \<and> length (k_clocks k') = length (k_clocks k)"

lemma kernel_le_refl [simp]: "kernel_le k k"
  by (simp add: kernel_le_def)

lemma kernel_le_trans: "kernel_le k k1 \<Longrightarrow> kernel_le k1 k2 \<Longrightarrow> kernel_le k k2"
  by (simp add: kernel_le_def)

lemma ActivateClock_kernel:
  assumes q: "clock_queue k" and i: "i < length (k_clocks k)"
    and work: "\<And>j. j < length (k_clocks k) \<Longrightarrow> j \<noteq> i \<Longrightarrow> has_work (k_clocks k ! j) \<Longrightarrow>
      c_activated (k_clocks k ! j)"
  shows "kernel_wf (ActivateClock i k) \<and> kernel_le k (ActivateClock i k)
    \<and> (\<not> c_activated (k_clocks k ! i) \<longrightarrow>
         c_cycle (k_clocks (ActivateClock i k) ! i) = next_tick (k_cycle k) (c_period (k_clocks k ! i)))"
proof (cases "c_activated (k_clocks k ! i)")
  case True
  then have "ActivateClock i k = k" by (simp add: ActivateClock_def Let_def)
  then show ?thesis using q work True by (auto simp: kernel_wf_def)
next
  case False
  let ?cyc = "next_tick (k_cycle k) (c_period (k_clocks k ! i))"
  let ?cs = "(k_clocks k)[i := (k_clocks k ! i)\<lparr>c_cycle := ?cyc, c_activated := True\<rparr>]"
  let ?act = "insert_clock (k_clocks k) i ?cyc (k_activeClocks k)"
  have eq: "ActivateClock i k = k\<lparr>k_activeClocks := ?act, k_clocks := ?cs\<rparr>"
    using False by (simp add: ActivateClock_def Let_def)
  have gt: "k_cycle k < ?cyc" using q i by (intro next_tick_greater) (simp add: clock_queue_def)
  have notin: "i \<notin> set (k_activeClocks k)" using q i False by (simp add: clock_queue_def)
  then have other: "c_cycle (?cs ! j) = c_cycle (k_clocks k ! j)" if "j \<in> set (k_activeClocks k)" for j
    using that by (metis nth_list_update_neq)
  have srt: "sorted (map (\<lambda>j. c_cycle (?cs ! j)) ?act)"
    by (rule insert_clock_sorted [OF _ notin other]) (use q i in \<open>simp_all add: clock_queue_def\<close>)
  have now: "takeWhile (\<lambda>j. c_cycle (?cs ! j) = k_cycle k) ?act
      = takeWhile (\<lambda>j. c_cycle (k_clocks k ! j) = k_cycle k) (k_activeClocks k)"
    by (rule insert_clock_now [OF _ _ other]) (use q i gt in \<open>auto simp: clock_queue_def\<close>)
  have idx: "j < length (k_clocks k)" if "j \<in> set (k_activeClocks k)" for j
    using q that by (simp add: clock_queue_def)
  have "clock_queue (k\<lparr>k_activeClocks := ?act, k_clocks := ?cs\<rparr>)"
    using q i gt notin srt other by (auto simp: clock_queue_def nth_list_update)
  moreover have "has_work (?cs ! j) \<longrightarrow> c_activated (?cs ! j)" if "j < length (k_clocks k)" for j
    using work that i by (cases "j = i") (auto simp: nth_list_update)
  ultimately have "kernel_wf (k\<lparr>k_activeClocks := ?act, k_clocks := ?cs\<rparr>)"
    by (simp add: kernel_wf_def)
  moreover have "kernel_le k (k\<lparr>k_activeClocks := ?act, k_clocks := ?cs\<rparr>)"
    using now by (simp add: kernel_le_def now_clocks_def)
  ultimately show ?thesis unfolding eq using i by simp
qed

lemma kernel_wf_cong:
  "k_clocks k' = k_clocks k \<Longrightarrow> k_activeClocks k' = k_activeClocks k \<Longrightarrow> k_cycle k' = k_cycle k \<Longrightarrow>
   kernel_wf k' = kernel_wf k \<and> kernel_le k k'"
  by (simp add: kernel_wf_def clock_queue_def kernel_le_def now_clocks_def)

text \<open>Changes of a clock that keep its schedule.\<close>

lemma modify_clock_queue:
  assumes q: "clock_queue k" and f: "\<And>c. c_cycle (f c) = c_cycle c \<and> c_period (f c) = c_period c
      \<and> c_activated (f c) = c_activated c"
  shows "clock_queue (modify_clock i f k) \<and> kernel_le k (modify_clock i f k)"
proof -
  have nth: "c_cycle ((k_clocks k)[i := f (k_clocks k ! i)] ! j) = c_cycle (k_clocks k ! j)"
    "c_period ((k_clocks k)[i := f (k_clocks k ! i)] ! j) = c_period (k_clocks k ! j)"
    "c_activated ((k_clocks k)[i := f (k_clocks k ! i)] ! j) = c_activated (k_clocks k ! j)" for j
    using f by (cases "j = i \<and> i < length (k_clocks k)"; force simp: nth_list_update list_update_beyond)+
  show ?thesis using q
    by (simp add: modify_clock_def clock_queue_def kernel_le_def now_clocks_def nth)
qed

lemma modify_clock_wf:
  assumes "kernel_wf k" and "\<And>c. c_cycle (f c) = c_cycle c \<and> c_period (f c) = c_period c
      \<and> c_activated (f c) = c_activated c" and "\<And>c. has_work (f c) \<Longrightarrow> has_work c"
  shows "kernel_wf (modify_clock i f k) \<and> kernel_le k (modify_clock i f k)"
proof -
  have "clock_queue k" using assms(1) by (simp add: kernel_wf_def)
  note q = modify_clock_queue [where f = f and i = i, OF this assms(2)]
  have "has_work ((k_clocks k)[i := f (k_clocks k ! i)] ! j) \<longrightarrow>
      c_activated ((k_clocks k)[i := f (k_clocks k ! i)] ! j)" if "j < length (k_clocks k)" for j
    using assms that by (cases "j = i") (auto simp: kernel_wf_def)
  then show ?thesis using q by (simp add: kernel_wf_def modify_clock_def)
qed

lemma modify_activate_wf:
  assumes wf: "kernel_wf k" and i: "i < length (k_clocks k)"
    and f: "\<And>c. c_cycle (f c) = c_cycle c \<and> c_period (f c) = c_period c \<and> c_activated (f c) = c_activated c"
  shows "kernel_wf (ActivateClock i (modify_clock i f k)) \<and> kernel_le k (ActivateClock i (modify_clock i f k))"
proof -
  have "clock_queue k" using wf by (simp add: kernel_wf_def)
  note q = modify_clock_queue [where f = f and i = i, OF this f]
  have "kernel_wf (ActivateClock i (modify_clock i f k))
      \<and> kernel_le (modify_clock i f k) (ActivateClock i (modify_clock i f k))"
    using ActivateClock_kernel [of "modify_clock i f k" i] q wf i
    by (auto simp: modify_clock_def kernel_wf_def)
  with q show ?thesis using kernel_le_trans by blast
qed

section \<open>The operations keep the invariant\<close>

definition keeps :: "('z kernel_scheme \<Rightarrow> 'z kernel_scheme) \<Rightarrow> 'z kernel_scheme \<Rightarrow> bool" where
  "keeps f k \<longleftrightarrow> kernel_wf (f k) \<and> kernel_le k (f k)"

lemma modify_process_clocks [simp]:
  "k_clocks (modify_process p f k) = k_clocks k"
  "k_activeClocks (modify_process p f k) = k_activeClocks k"
  "k_cycle (modify_process p f k) = k_cycle k"
  by (simp_all add: modify_process_def)

lemma modify_process_keeps: "kernel_wf k \<Longrightarrow> keeps (modify_process p f) k"
  unfolding keeps_def using kernel_wf_cong [of "modify_process p f k" k] by simp

lemma ActivateStorage_keeps:
  "kernel_wf k \<Longrightarrow> c < length (k_clocks k) \<Longrightarrow> keeps (ActivateStorage c s) k"
  unfolding keeps_def ActivateStorage_def by (rule modify_activate_wf) simp_all

lemma ActivateArbitrator_keeps:
  "kernel_wf k \<Longrightarrow> c < length (k_clocks k) \<Longrightarrow> keeps (ActivateArbitrator c s) k"
  unfolding keeps_def ActivateArbitrator_def by (rule modify_activate_wf) simp_all

lemma RegisterUpdate_keeps:
  assumes "kernel_wf k" and "sl_clock (k_storages k ! s) < length (k_clocks k)"
  shows "keeps (RegisterUpdate s) k"
proof -
  let ?k1 = "ActivateStorage (sl_clock (k_storages k ! s)) s k"
  have "kernel_wf ?k1" "kernel_le k ?k1" using ActivateStorage_keeps [OF assms] by (simp_all add: keeps_def)
  then show ?thesis
    using kernel_wf_cong [of "?k1\<lparr>k_storages := (k_storages k)[s := (k_storages k ! s)\<lparr>sl_activated := True\<rparr>]\<rparr>" ?k1]
      assms(1) kernel_le_trans by (auto simp: keeps_def RegisterUpdate_def Let_def)
qed

lemma RequestArbitration_keeps:
  assumes "kernel_wf k" and "sl_clock (k_arbitrators k ! a) < length (k_clocks k)"
  shows "keeps (RequestArbitration a) k"
proof -
  let ?k1 = "ActivateArbitrator (sl_clock (k_arbitrators k ! a)) a k"
  have "kernel_wf ?k1" "kernel_le k ?k1" using ActivateArbitrator_keeps [OF assms] by (simp_all add: keeps_def)
  then show ?thesis
    using kernel_wf_cong [of "?k1\<lparr>k_arbitrators := (k_arbitrators k)[a := (k_arbitrators k ! a)\<lparr>sl_activated := True\<rparr>]\<rparr>" ?k1]
      assms(1) kernel_le_trans by (auto simp: keeps_def RequestArbitration_def Let_def)
qed

lemma ActivateProcess_keeps:
  assumes wf: "kernel_wf k" and c: "c < length (k_clocks k)"
  shows "keeps (ActivateProcess c p) k"
proof -
  define k1 where "k1 = modify_process p (\<lambda>p. p\<lparr>pr_activations := pr_activations p + 1\<rparr>) k"
  have k1: "kernel_wf k1" "kernel_le k k1"
    using modify_process_keeps [OF wf] by (simp_all add: k1_def keeps_def)
  define k2 where "k2 = modify_process p (\<lambda>p. p\<lparr>pr_state := STATE_ACTIVE\<rparr>) k1"
  have k2: "kernel_wf k2" "kernel_le k1 k2" "k_clocks k2 = k_clocks k1"
    using modify_process_keeps [OF k1(1)] by (simp_all add: k2_def keeps_def)
  have comm: "modify_process p (\<lambda>p. p\<lparr>pr_state := STATE_ACTIVE\<rparr>)
      (modify_clock c (\<lambda>c. c\<lparr>c_processes := p # c_processes c\<rparr>) k1)
      = modify_clock c (\<lambda>c. c\<lparr>c_processes := p # c_processes c\<rparr>) k2"
    by (simp add: modify_process_def modify_clock_def k2_def)
  let ?f = "\<lambda>c. c\<lparr>c_processes := p # c_processes c\<rparr>"
  have "c < length (k_clocks k2)" using c k1(2) k2(3) by (simp add: kernel_le_def)
  then have "kernel_wf (ActivateClock c (modify_clock c ?f k2))
      \<and> kernel_le k2 (ActivateClock c (modify_clock c ?f k2))"
    by (intro modify_activate_wf k2(1)) simp_all
  then show ?thesis
    using k1 k2 comm kernel_le_trans
    by (simp add: keeps_def ActivateProcess_def Let_def k1_def [symmetric]) blast
qed

lemma Deactivate_keeps:
  assumes wf: "kernel_wf k"
  shows "keeps (Deactivate p) k"
proof -
  define k1 where "k1 = modify_process p (\<lambda>p. p\<lparr>pr_activations := pr_activations p - 1\<rparr>) k"
  define k2 where "k2 = k1\<lparr>k_clocks := map (\<lambda>c. c\<lparr>c_processes := remove1 p (c_processes c)\<rparr>) (k_clocks k1)\<rparr>"
  have k1: "kernel_wf k1" "kernel_le k k1" "k_activeClocks k1 = k_activeClocks k" "k_clocks k1 = k_clocks k"
      "k_cycle k1 = k_cycle k"
    using modify_process_keeps [OF wf] by (simp_all add: k1_def keeps_def)
  have nth: "k_clocks k2 ! i = (k_clocks k ! i)\<lparr>c_processes := remove1 p (c_processes (k_clocks k ! i))\<rparr>"
    if "i < length (k_clocks k)" for i using that k1(4) by (simp add: k2_def)
  have act: "i < length (k_clocks k)" if "i \<in> set (k_activeClocks k)" for i
    using wf that by (simp add: kernel_wf_def clock_queue_def)
  have cyc: "map (\<lambda>i. c_cycle (k_clocks k2 ! i)) (k_activeClocks k)
      = map (\<lambda>i. c_cycle (k_clocks k ! i)) (k_activeClocks k)"
    using nth act by (intro map_cong [OF refl]) simp
  have now: "takeWhile (\<lambda>i. c_cycle (k_clocks k2 ! i) = k_cycle k) (k_activeClocks k)
      = takeWhile (\<lambda>i. c_cycle (k_clocks k ! i) = k_cycle k) (k_activeClocks k)"
    using nth act by (intro takeWhile_cong) simp_all
  have len: "length (k_clocks k2) = length (k_clocks k)" "k_activeClocks k2 = k_activeClocks k"
      "k_cycle k2 = k_cycle k" using k1 by (simp_all add: k2_def)
  have "sorted (map (\<lambda>i. c_cycle (k_clocks k2 ! i)) (k_activeClocks k))"
    using wf unfolding cyc by (simp add: kernel_wf_def clock_queue_def)
  then have "clock_queue k2"
    using wf nth act unfolding kernel_wf_def clock_queue_def len by simp
  moreover have "has_work (k_clocks k2 ! i) \<longrightarrow> c_activated (k_clocks k2 ! i)" if "i < length (k_clocks k)" for i
    using wf nth [OF that] that by (auto simp: kernel_wf_def has_work_def)
  ultimately have "kernel_wf k2" using len by (simp add: kernel_wf_def)
  moreover have "kernel_le k k2" using now len by (simp add: kernel_le_def now_clocks_def)
  ultimately show ?thesis
    using k1 modify_process_keeps [of k2 p "\<lambda>p. p\<lparr>pr_state := STATE_IDLE\<rparr>"] kernel_le_trans
    unfolding keeps_def Deactivate_def Let_def k1_def [symmetric] k2_def [symmetric] by auto
qed

lemma deliver_keeps:
  "kernel_wf k \<Longrightarrow> c < length (k_clocks k) \<Longrightarrow> keeps (deliver c p ns) k"
proof (induction c p ns k rule: deliver.induct)
  case (2 c p ns k)
  then have "keeps (ActivateProcess c p) k" by (simp add: ActivateProcess_keeps)
  with 2 show ?case by (auto simp: keeps_def kernel_le_def)
next
  case (3 c p ns k)
  then have "keeps (Deactivate p) k" by (simp add: Deactivate_keeps)
  with 3 show ?case by (auto simp: keeps_def kernel_le_def)
qed (simp add: keeps_def)

section \<open>The handlers\<close>

text \<open>
  What the kernel relies on: a handler changes the kernel only through the operations above,
  which all have this effect. The handlers themselves are the simulated components.
\<close>

definition handlers_keep :: "'z kernel_scheme callbacks \<Rightarrow> bool" where
  "handlers_keep cb \<longleftrightarrow>
     (\<forall>p k r k'. kernel_wf k \<longrightarrow> cb_delegate cb p k = Inr (r, k') \<longrightarrow> kernel_wf k' \<and> kernel_le k k')
     \<and> (\<forall>a k k'. kernel_wf k \<longrightarrow> cb_arbitrate cb a k = Inr k' \<longrightarrow> kernel_wf k' \<and> kernel_le k k')
     \<and> (\<forall>s k k'. kernel_wf k \<longrightarrow> cb_update cb s k = Inr k' \<longrightarrow> kernel_wf k' \<and> kernel_le k k')"

definition later :: "'z kernel_scheme \<Rightarrow> 'z kernel_scheme \<Rightarrow> bool" where
  "later k0 k \<longleftrightarrow> kernel_wf k \<and> kernel_le k0 k"

lemma later_refl: "kernel_wf k \<Longrightarrow> later k k"
  by (simp add: later_def)

lemma later_trans: "later k0 k1 \<Longrightarrow> later k1 k2 \<Longrightarrow> later k0 k2"
  using kernel_le_trans by (auto simp: later_def)

lemma later_keeps: "later k0 k \<Longrightarrow> keeps f k \<Longrightarrow> later k0 (f k)"
  using kernel_le_trans by (auto simp: later_def keeps_def)

lemma later_cong:
  assumes "later k0 k" and "k_clocks k' = k_clocks k" and "k_activeClocks k' = k_activeClocks k"
    and "k_cycle k' = k_cycle k"
  shows "later k0 k'"
  using assms(1) kernel_wf_cong [OF assms(2-4)] kernel_le_trans by (auto simp: later_def)

lemma later_delegate:
  "handlers_keep cb \<Longrightarrow> later k0 k \<Longrightarrow> cb_delegate cb p k = Inr (r, k') \<Longrightarrow> later k0 k'"
  unfolding later_def handlers_keep_def using kernel_le_trans by blast

lemma later_arbitrate:
  "handlers_keep cb \<Longrightarrow> later k0 k \<Longrightarrow> cb_arbitrate cb a k = Inr k' \<Longrightarrow> later k0 k'"
  unfolding later_def handlers_keep_def using kernel_le_trans by blast

lemma later_update:
  "handlers_keep cb \<Longrightarrow> later k0 k \<Longrightarrow> cb_update cb a k = Inr k' \<Longrightarrow> later k0 k'"
  unfolding later_def handlers_keep_def using kernel_le_trans by blast

lemma later_modify_process: "later k0 k \<Longrightarrow> later k0 (modify_process p f k)"
  using later_keeps modify_process_keeps unfolding later_def by blast

lemma later_modify_clock:
  assumes "later k0 k" and "\<And>c. c_cycle (f c) = c_cycle c \<and> c_period (f c) = c_period c
      \<and> c_activated (f c) = c_activated c" and "\<And>c. has_work (f c) \<Longrightarrow> has_work c"
  shows "later k0 (modify_clock i f k)"
proof -
  have "kernel_wf k" using assms(1) by (simp add: later_def)
  from modify_clock_wf [where f = f, OF this assms(2,3)] show ?thesis
    using assms(1) kernel_le_trans by (auto simp: later_def)
qed

lemma acquire_process_later:
  assumes h: "handlers_keep cb" and l: "later k0 k" and r: "acquire_process cb p k = Inr k'"
  shows "later k0 k'"
proof -
  have "later k0 (k\<lparr>k_process := Some p\<rparr>)" by (rule later_cong [OF l]) simp_all
  then show ?thesis using r later_delegate [OF h]
    by (auto simp: acquire_process_def res_bind_Inr intro: later_modify_process split: if_splits)
qed

lemma commit_process_later:
  assumes h: "handlers_keep cb" and l: "later k0 k" and r: "commit_process cb p (i, k) = Inr (i', k')"
  shows "later k0 k'"
proof (cases "pr_state (k_processes k ! p) \<noteq> STATE_DEADLOCK")
  case True
  have "later k0 (k\<lparr>k_process := Some p, k_phase := PHASE_CHECK\<rparr>)" by (rule later_cong [OF l]) simp_all
  moreover obtain r1 k1 where k1: "cb_delegate cb p (k\<lparr>k_process := Some p, k_phase := PHASE_CHECK\<rparr>) = Inr (r1, k1)"
    using r True by (auto simp: commit_process_def res_bind_Inr)
  ultimately have l1: "later k0 k1" using later_delegate [OF h] by blast
  then have "later k0 (k1\<lparr>k_phase := PHASE_COMMIT\<rparr>)" by (rule later_cong) simp_all
  then show ?thesis using r True k1 l1 later_delegate [OF h]
    by (auto simp: commit_process_def res_bind_Inr intro: later_modify_process split: if_splits)
next
  case False
  then show ?thesis using r l by (simp add: commit_process_def)
qed

text \<open>Each phase of a cycle keeps the invariant and the clocks that run now.\<close>

lemma acquire_phase_later:
  assumes h: "handlers_keep cb" and wf: "kernel_wf k" and r: "acquire_phase cb k = Inr k'"
  shows "later k k'"
proof -
  have start: "later k (k\<lparr>k_phase := PHASE_ACQUIRE\<rparr>)"
    by (rule later_cong [OF later_refl [OF wf]]) simp_all
  show ?thesis
  proof (rule res_fold_invariant [where P = "later k", OF r [unfolded acquire_phase_def] start])
    fix c k1 k2
    assume l: "later k k1"
      and f: "res_fold (acquire_process cb) (c_processes (k_clocks k1 ! c)) (k1\<lparr>k_clock := Some c\<rparr>) = Inr k2"
    have "later k (k1\<lparr>k_clock := Some c\<rparr>)" by (rule later_cong [OF l]) simp_all
    from res_fold_invariant [where P = "later k", OF f this] show "later k k2" using acquire_process_later [OF h] by blast
  qed
qed

lemma arbitrate_one_later:
  assumes h: "handlers_keep cb" and l: "later k0 k" and r: "arbitrate_one cb a k = Inr k'"
  shows "later k0 k'"
proof -
  obtain k1 where k1: "cb_arbitrate cb a k = Inr k1"
    and k': "k' = k1\<lparr>k_arbitrators := (k_arbitrators k1)[a := (k_arbitrators k1 ! a)\<lparr>sl_activated := False\<rparr>]\<rparr>"
    using r by (auto simp: arbitrate_one_def res_bind_Inr)
  show ?thesis unfolding k' by (rule later_cong [OF later_arbitrate [OF h l k1]]) simp_all
qed

lemma arbitrate_phase_later:
  assumes h: "handlers_keep cb" and wf: "kernel_wf k" and r: "arbitrate_phase cb k = Inr k'"
  shows "later k k'"
proof (rule res_fold_invariant [where P = "later k", OF r [unfolded arbitrate_phase_def] later_refl [OF wf]])
  fix c k1 k2
  assume l: "later k k1" and f: "res_bind (res_fold (arbitrate_one cb) (c_arbitrators (k_clocks k1 ! c))
      (k1\<lparr>k_clock := Some c\<rparr>)) (\<lambda>k. Inr (modify_clock c (\<lambda>c. c\<lparr>c_arbitrators := []\<rparr>) k)) = Inr k2"
  then obtain k3 where k3: "res_fold (arbitrate_one cb) (c_arbitrators (k_clocks k1 ! c))
      (k1\<lparr>k_clock := Some c\<rparr>) = Inr k3" and k2: "k2 = modify_clock c (\<lambda>c. c\<lparr>c_arbitrators := []\<rparr>) k3"
    by (auto simp: res_bind_Inr)
  have "later k (k1\<lparr>k_clock := Some c\<rparr>)" by (rule later_cong [OF l]) simp_all
  then have "later k k3" using res_fold_invariant [where P = "later k", OF k3] arbitrate_one_later [OF h] by blast
  then show "later k k2" unfolding k2 by (rule later_modify_clock) (auto simp: has_work_def)
qed

lemma commit_phase_later:
  assumes h: "handlers_keep cb" and wf: "kernel_wf k" and r: "commit_phase cb (i, k) = Inr (i', k')"
  shows "later k k'"
proof -
  have "later k (snd (i', k'))"
  proof (rule res_fold_invariant [where P = "\<lambda>s. later k (snd s)", OF r [unfolded commit_phase_def]])
    show "later k (snd (i, k))" by (simp add: later_refl wf)
    fix c s1 s2
    assume l: "later k (snd s1)" and f: "(case s1 of (idle, k) \<Rightarrow> res_fold (commit_process cb)
        (c_processes (k_clocks k ! c)) (idle, k\<lparr>k_clock := Some c\<rparr>)) = Inr s2"
    obtain i1 k1 where s1: "s1 = (i1, k1)" by (cases s1)
    have "later k k1" using l s1 by simp
    then have "later k (k1\<lparr>k_clock := Some c\<rparr>)" by (rule later_cong) simp_all
    then have st: "later k (snd (i1, k1\<lparr>k_clock := Some c\<rparr>))" by simp
    show "later k (snd s2)"
    proof (rule res_fold_invariant [where P = "\<lambda>s. later k (snd s)", OF f [unfolded s1 prod.case] st])
      fix p t1 t2
      assume "later k (snd t1)" "commit_process cb p t1 = Inr t2"
      then show "later k (snd t2)"
        using commit_process_later [OF h, of k "snd t1" p "fst t1" "fst t2" "snd t2"] by simp
    qed
  qed
  then show ?thesis by simp
qed

lemma update_one_later:
  assumes h: "handlers_keep cb" and l: "later k0 k" and r: "update_one cb s (u, k) = Inr (u', k')"
  shows "later k0 k'"
proof -
  obtain k1 where k1: "cb_update cb s k = Inr k1"
    and k': "k' = k1\<lparr>k_storages := (k_storages k1)[s := (k_storages k1 ! s)\<lparr>sl_activated := False\<rparr>]\<rparr>"
    using r by (auto simp: update_one_def res_bind_Inr)
  show ?thesis unfolding k' by (rule later_cong [OF later_update [OF h l k1]]) simp_all
qed

lemma UpdateStorages_later:
  assumes h: "handlers_keep cb" and wf: "kernel_wf k" and r: "UpdateStorages cb k = Inr (u', k')"
  shows "later k k'"
proof -
  have "later k (snd (u', k'))"
  proof (rule res_fold_invariant [where P = "\<lambda>s. later k (snd s)", OF r [unfolded UpdateStorages_def]])
    show "later k (snd (False, k))" by (simp add: later_refl wf)
    fix c s1 s2
    assume l: "later k (snd s1)" and f: "(case s1 of (updated, k) \<Rightarrow> res_bind
        (res_fold (update_one cb) (c_storages (k_clocks k ! c)) (updated, k))
        (\<lambda>(updated, k). Inr (updated, modify_clock c (\<lambda>c. c\<lparr>c_storages := []\<rparr>) k))) = Inr s2"
    obtain u1 k1 where s1: "s1 = (u1, k1)" by (cases s1)
    obtain u2 k2 where 2: "res_fold (update_one cb) (c_storages (k_clocks k1 ! c)) (u1, k1) = Inr (u2, k2)"
      and s2: "s2 = (u2, modify_clock c (\<lambda>c. c\<lparr>c_storages := []\<rparr>) k2)"
      using f s1 by (auto simp: res_bind_Inr)
    have "later k (snd (u2, k2))"
    proof (rule res_fold_invariant [where P = "\<lambda>s. later k (snd s)", OF 2])
      show "later k (snd (u1, k1))" using l s1 by simp
      fix p t1 t2
      assume "later k (snd t1)" "update_one cb p t1 = Inr t2"
      then show "later k (snd t2)"
        using update_one_later [OF h, of k "snd t1" p "fst t1" "fst t2" "snd t2"] by simp
    qed
    then show "later k (snd s2)"
      unfolding s2 snd_conv by (rule later_modify_clock) (auto simp: has_work_def)
  qed
  then show ?thesis by simp
qed

section \<open>Advancing the time\<close>

lemma retire_clock_wf:
  assumes wf: "kernel_wf k" and now: "now_clocks k = c # ns" and r: "retire_clock c k = Inr k'"
  shows "kernel_wf k' \<and> now_clocks k' = ns \<and> k_cycle k' = k_cycle k
    \<and> length (k_clocks k') = length (k_clocks k)"
proof -
  define k1 where "k1 = modify_clock c (\<lambda>c. c\<lparr>c_activated := False\<rparr>)
      (k\<lparr>k_activeClocks := tl (k_activeClocks k)\<rparr>)"
  obtain rest where act: "k_activeClocks k = c # rest" and cnow: "c_cycle (k_clocks k ! c) = k_cycle k"
    and ns: "takeWhile (\<lambda>i. c_cycle (k_clocks k ! i) = k_cycle k) rest = ns"
    using now by (cases "k_activeClocks k") (auto simp: now_clocks_def split: if_splits)
  have q: "clock_queue k" using wf by (simp add: kernel_wf_def)
  have c: "c < length (k_clocks k)" "c \<notin> set rest" using q act by (auto simp: clock_queue_def)
  have fields: "k_cycle k1 = k_cycle k" "k_activeClocks k1 = rest"
      "k_clocks k1 = (k_clocks k)[c := (k_clocks k ! c)\<lparr>c_activated := False\<rparr>]"
    using act by (simp_all add: k1_def modify_clock_def)
  have cyc: "c_cycle (k_clocks k1 ! i) = c_cycle (k_clocks k ! i)"
      "c_period (k_clocks k1 ! i) = c_period (k_clocks k ! i)" for i
    using c(1) unfolding fields by (cases "i = c"; simp)+
  have "clock_queue k1"
    unfolding clock_queue_def cyc fields(1,2) using q act c fields(3)
    by (auto simp: clock_queue_def nth_list_update)
  have nowk1: "now_clocks k1 = ns" unfolding now_clocks_def cyc fields(1,2) by (rule ns)
  have work: "has_work (k_clocks k1 ! j) \<longrightarrow> c_activated (k_clocks k1 ! j)"
    if "j < length (k_clocks k)" "j \<noteq> c" for j
    using wf that fields(3) by (simp add: kernel_wf_def)
  have k': "k' = (if c_processes (k_clocks k1 ! c) \<noteq> [] \<or> c_storages (k_clocks k1 ! c) \<noteq> []
      then ActivateClock c k1 else k1)" and arb: "c_arbitrators (k_clocks k1 ! c) = []"
    using r by (simp_all add: retire_clock_def Let_def k1_def [symmetric])
  show ?thesis
  proof (cases "c_processes (k_clocks k1 ! c) \<noteq> [] \<or> c_storages (k_clocks k1 ! c) \<noteq> []")
    case True
    have "kernel_wf (ActivateClock c k1) \<and> kernel_le k1 (ActivateClock c k1)"
      using ActivateClock_kernel [OF \<open>clock_queue k1\<close>, of c] c work fields(3) by simp
    then show ?thesis using True k' nowk1 fields by (simp add: kernel_le_def)
  next
    case False
    then have "\<not> has_work (k_clocks k1 ! c)" using arb by (simp add: has_work_def)
    then have "has_work (k_clocks k1 ! j) \<longrightarrow> c_activated (k_clocks k1 ! j)" if "j < length (k_clocks k)" for j
      using work that by (cases "j = c") auto
    then have "kernel_wf k1" using \<open>clock_queue k1\<close> fields(3) by (simp add: kernel_wf_def)
    then show ?thesis using False k' nowk1 fields by simp
  qed
qed

lemma retire_all_wf:
  "kernel_wf k \<Longrightarrow> now_clocks k = ns \<Longrightarrow> res_fold retire_clock ns k = Inr k' \<Longrightarrow>
   kernel_wf k' \<and> now_clocks k' = [] \<and> k_cycle k' = k_cycle k \<and> length (k_clocks k') = length (k_clocks k)"
proof (induction ns arbitrary: k)
  case (Cons c ns)
  then obtain k1 where k1: "retire_clock c k = Inr k1" "res_fold retire_clock ns k1 = Inr k'"
    by (auto simp: res_bind_Inr)
  from retire_clock_wf [OF Cons.prems(1,2) k1(1)] Cons.IH [of k1] k1(2) show ?case by auto
qed simp

lemma advance_time_wf:
  assumes wf: "kernel_wf k" and r: "advance_time k = Inr k'"
  shows "kernel_wf k' \<and> length (k_clocks k') = length (k_clocks k)
    \<and> (if k_activeClocks k' = [] then k_cycle k' = k_cycle k else k_cycle k < k_cycle k')"
proof -
  obtain k1 where k1: "res_fold retire_clock (now_clocks k) k = Inr k1"
    and k': "(case k_activeClocks k1 of [] \<Rightarrow> Inr k1
      | c # _ \<Rightarrow> assert_that (k_cycle k1 < c_cycle (k_clocks k1 ! c))
          (Inr (k1\<lparr>k_cycle := c_cycle (k_clocks k1 ! c)\<rparr>))) = Inr k'"
    using r unfolding advance_time_def by (auto simp: res_bind_Inr)
  note w = retire_all_wf [OF wf refl k1]
  show ?thesis
  proof (cases "k_activeClocks k1")
    case Nil
    then show ?thesis using k' w by simp
  next
    case (Cons c cs)
    then have k'': "k' = k1\<lparr>k_cycle := c_cycle (k_clocks k1 ! c)\<rparr>" and lt: "k_cycle k1 < c_cycle (k_clocks k1 ! c)"
      using k' by simp_all
    have "kernel_wf k'"
      unfolding k'' using w Cons by (auto simp: kernel_wf_def clock_queue_def)
    then show ?thesis using k'' lt w Cons by simp
  qed
qed

text \<open>Its assertion on the time never fails.\<close>

lemma advance_time_assertion:
  assumes wf: "kernel_wf k" and r: "res_fold retire_clock (now_clocks k) k = Inr k1"
  shows "\<exists>k'. advance_time k = Inr k'"
proof (cases "k_activeClocks k1")
  case Nil
  then show ?thesis using r by (simp add: advance_time_def)
next
  case (Cons c cs)
  note w = retire_all_wf [OF wf refl r]
  have "k_cycle k1 \<le> c_cycle (k_clocks k1 ! c)" "c_cycle (k_clocks k1 ! c) \<noteq> k_cycle k1"
    using w Cons by (auto simp: kernel_wf_def clock_queue_def now_clocks_def split: if_splits)
  then show ?thesis using r Cons by (simp add: advance_time_def)
qed

lemma run_cycle_idle:
  assumes "k_activeClocks k = []"
  shows "run_cycle cb k = Inr (True, k\<lparr>k_phase := PHASE_ACQUIRE\<rparr>)"
  using assms by (simp add: run_cycle_def acquire_phase_def arbitrate_phase_def commit_phase_def
    UpdateStorages_def now_clocks_def)

lemma run_cycle_wf:
  assumes h: "handlers_keep cb" and wf: "kernel_wf k" and r: "run_cycle cb k = Inr (idle, k')"
  shows "kernel_wf k' \<and> (if idle \<or> k_activeClocks k' = [] then k_cycle k' = k_cycle k else k_cycle k < k_cycle k')"
proof -
  obtain k1 k2 i3 k3 u4 k4 where
    1: "acquire_phase cb k = Inr k1" and 2: "arbitrate_phase cb k1 = Inr k2"
    and 3: "commit_phase cb (True, k2) = Inr (i3, k3)" and 4: "UpdateStorages cb k3 = Inr (u4, k4)"
    and 5: "(let idle = (i3 \<and> \<not> u4 \<and> \<not> (\<exists>c\<in>set (k_activeClocks k4). k_cycle k4 < c_cycle (k_clocks k4 ! c)))
       in if idle then Inr (True, k4) else res_bind (advance_time k4) (\<lambda>k. Inr (False, k))) = Inr (idle, k')"
    using r unfolding run_cycle_def by (auto simp: res_bind_Inr)
  have l1: "later k k1" by (rule acquire_phase_later [OF h wf 1])
  then have w1: "kernel_wf k1" by (simp add: later_def)
  have l2: "later k1 k2" by (rule arbitrate_phase_later [OF h w1 2])
  then have w2: "kernel_wf k2" by (simp add: later_def)
  have l3: "later k2 k3" by (rule commit_phase_later [OF h w2 3])
  then have w3: "kernel_wf k3" by (simp add: later_def)
  have l4: "later k3 k4" by (rule UpdateStorages_later [OF h w3 4])
  have l: "later k k4" using l1 l2 l3 l4 later_trans by blast
  show ?thesis
  proof (cases idle)
    case True
    then have "k' = k4" using 5 by (auto simp: Let_def res_bind_Inr split: if_splits)
    then show ?thesis using l True by (simp add: later_def kernel_le_def)
  next
    case False
    then have "advance_time k4 = Inr k'" using 5 by (auto simp: Let_def res_bind_Inr split: if_splits)
    moreover have w4: "kernel_wf k4" "k_cycle k4 = k_cycle k"
      using l by (simp_all add: later_def kernel_le_def)
    ultimately have "kernel_wf k'"
      "if k_activeClocks k' = [] then k_cycle k' = k_cycle k4 else k_cycle k4 < k_cycle k'"
      using advance_time_wf [OF w4(1)] by blast+
    then show ?thesis using False w4 by (cases "k_activeClocks k' = []") simp_all
  qed
qed

lemma step_loop_returns:
  assumes h: "handlers_keep cb" and fin: "endcycle \<noteq> INFINITE_CYCLES"
  shows "kernel_wf k \<Longrightarrow> (\<not> idle \<longrightarrow> 2 * (endcycle - k_cycle k) + of_bool (k_activeClocks k \<noteq> []) < fuel) \<Longrightarrow>
    \<exists>r. step_loop fuel cb endcycle (idle, k) = Some r
      \<and> (\<forall>i k'. r = Inr (i, k') \<longrightarrow> kernel_wf k' \<and> k_cycle k \<le> k_cycle k')"
proof (induction fuel arbitrary: idle k)
  case 0
  then show ?case
    by (cases idle) (simp_all add: step_loop.simps loop_condition_def)
next
  case (Suc fuel)
  show ?case
  proof (cases "loop_condition endcycle idle k")
    case False
    then show ?thesis using Suc.prems by (simp add: step_loop.simps)
  next
    case True
    then have ni: "\<not> idle" and lt: "k_cycle k < endcycle" using fin by (simp_all add: loop_condition_def)
    show ?thesis
    proof (cases "run_cycle cb k")
      case (Inl e)
      then show ?thesis using True by (subst step_loop.simps) simp
    next
      case (Inr ik)
      obtain i1 k1 where ik: "ik = (i1, k1)" by (cases ik)
      have w: "kernel_wf k1" "if i1 \<or> k_activeClocks k1 = [] then k_cycle k1 = k_cycle k else k_cycle k < k_cycle k1"
        using run_cycle_wf [OF h Suc.prems(1)] Inr ik by simp_all
      have "i1" if "k_activeClocks k = []" using run_cycle_idle [OF that, of cb] Inr ik by simp
      then have "\<not> i1 \<longrightarrow> 2 * (endcycle - k_cycle k1) + of_bool (k_activeClocks k1 \<noteq> []) < fuel"
        using w(2) Suc.prems(2) ni lt
        by (cases "k_activeClocks k1 = []"; cases "k_activeClocks k = []") auto
      from Suc.IH [OF w(1) this] obtain r where r: "step_loop fuel cb endcycle (i1, k1) = Some r"
        "\<forall>i k'. r = Inr (i, k') \<longrightarrow> kernel_wf k' \<and> k_cycle k1 \<le> k_cycle k'" by blast
      moreover have "k_cycle k \<le> k_cycle k1" using w(2) by (auto split: if_splits)
      ultimately show ?thesis
        using True Inr ik by (subst step_loop.simps) (auto intro: order_trans)
    qed
  qed
qed

lemma step_begin_wf:
  assumes h: "handlers_keep cb" and wf: "kernel_wf k" and r: "step_begin cb k = Inr k'"
  shows "kernel_wf k' \<and> k_cycle k \<le> k_cycle k'"
proof -
  obtain k1 where k1: "(if k_cycle k = 0 then map_sum id snd (UpdateStorages cb k) else Inr k) = Inr k1"
    and r2: "res_bind (case k_activeClocks k1 of [] \<Rightarrow> Inr k1
               | c # _ \<Rightarrow> assert_that (k_cycle k1 \<le> c_cycle (k_clocks k1 ! c))
                   (Inr (k1\<lparr>k_cycle := c_cycle (k_clocks k1 ! c)\<rparr>))) (\<lambda>k.
     Inr (k\<lparr>k_aborted := False, k_suspended := False\<rparr>)) = Inr k'"
    using r unfolding step_begin_def by (auto simp: res_bind_Inr)
  have l: "later k k1"
    using k1 UpdateStorages_later [OF h wf] later_refl [OF wf]
    by (cases "UpdateStorages cb k") (auto split: if_splits)
  show ?thesis
  proof (cases "k_activeClocks k1")
    case Nil
    then have "k' = k1\<lparr>k_aborted := False, k_suspended := False\<rparr>" using r2 by simp
    moreover have "later k (k1\<lparr>k_aborted := False, k_suspended := False\<rparr>)"
      by (rule later_cong [OF l]) simp_all
    ultimately show ?thesis by (simp add: later_def kernel_le_def)
  next
    case (Cons c cs)
    then have k': "k' = k1\<lparr>k_cycle := c_cycle (k_clocks k1 ! c), k_aborted := False, k_suspended := False\<rparr>"
      and le: "k_cycle k1 \<le> c_cycle (k_clocks k1 ! c)"
      using r2 by (auto simp: res_bind_Inr)
    have "kernel_wf k'"
      unfolding k' using l Cons by (auto simp: later_def kernel_wf_def clock_queue_def)
    then show ?thesis using k' l le by (simp add: later_def kernel_le_def)
  qed
qed

lemma step_finish_wf:
  assumes "kernel_wf k" and "step_finish endcycle (i, k) = (st, k')"
  shows "kernel_wf k' \<and> k_cycle k' = min (k_cycle k) endcycle"
proof -
  define k1 where "k1 = k\<lparr>k_cycle := min (k_cycle k) endcycle\<rparr>"
  have "kernel_wf k1"
    using assms(1) unfolding k1_def kernel_wf_def clock_queue_def by (auto simp: min.coboundedI1)
  moreover have "k_clocks k' = k_clocks k1" "k_activeClocks k' = k_activeClocks k1" "k_cycle k' = k_cycle k1"
    using assms(2) by (auto simp: step_finish_def Let_def k1_def split: if_splits)
  ultimately show ?thesis using kernel_wf_cong [of k' k1] by (simp add: k1_def)
qed

section \<open>Frequencies\<close>

lemma gcd_loop_gcd: "unat (gcd_loop a b) = gcd (unat a) (unat b)"
proof (induction a b rule: gcd_loop.induct)
  case (1 a b)
  show ?case
  proof (cases "b = 0")
    case False
    then have "unat (gcd_loop b (a mod b)) = gcd (unat b) (unat (a mod b))" by (rule 1)
    also have "\<dots> = gcd (unat a) (unat b)"
      by (metis gcd.commute gcd_red_nat unat_mod)
    finally show ?thesis using False by (simp add: gcd_loop.simps [of a b])
  qed (simp add: gcd_loop.simps [of a 0])
qed

lemma lcm_u64_lcm:
  assumes "unat a * unat b < 2 ^ 64"
  shows "unat (lcm_u64 a b) = lcm (unat a) (unat b)"
proof -
  have "unat (a * b) = unat a * unat b" using assms by (simp add: unat_mult_lem [THEN iffD1])
  then show ?thesis by (simp add: lcm_u64_def unat_div gcd_loop_gcd lcm_nat_def)
qed

text \<open>The frequencies are distinct and their product fits a machine word.\<close>

definition frequency_product :: "clock list \<Rightarrow> nat" where
  "frequency_product cs = prod_list (map (\<lambda>c. unat (c_frequency c)) cs)"

definition clocks_in_step :: "'z kernel_scheme \<Rightarrow> bool" where
  "clocks_in_step k \<longleftrightarrow>
     (\<forall>c\<in>set (k_clocks k). 0 < c_frequency c
        \<and> unat (c_period c) * unat (c_frequency c) = unat (k_master_freq k))
     \<and> distinct (map c_frequency (k_clocks k))"

lemma lcm_le_mult: "lcm a b \<le> a * (b::nat)"
  by (metis dvd_imp_le gcd_0_left_nat le_zero_eq lcm_0_iff_nat lcm_least dvd_triv_left dvd_triv_right
    mult_eq_0_iff neq0_conv not_gr_zero)

lemma find_clock_master:
  assumes "find_clock f cs i m = Inr m'" and "unat m * frequency_product cs < 2 ^ 64"
    and "\<forall>c\<in>set cs. 0 < c_frequency c"
  shows "f \<notin> c_frequency ` set cs \<and> unat m' \<le> unat m * frequency_product cs
    \<and> unat m dvd unat m' \<and> (\<forall>c\<in>set cs. unat (c_frequency c) dvd unat m') \<and> (0 < m \<longrightarrow> 0 < m')"
  using assms
proof (induction cs arbitrary: i m)
  case Nil
  then show ?case by (simp add: frequency_product_def)
next
  case (Cons c cs)
  let ?l = "lcm_u64 m (c_frequency c)"
  have pos: "0 < frequency_product cs"
    using Cons.prems(3) by (induction cs) (auto simp: frequency_product_def word_gt_0 unat_gt_0)
  have prod: "frequency_product (c # cs) = unat (c_frequency c) * frequency_product cs"
    by (simp add: frequency_product_def)
  have "unat m * unat (c_frequency c) \<le> unat m * frequency_product (c # cs)"
    unfolding prod using pos by simp
  then have l: "unat ?l = lcm (unat m) (unat (c_frequency c))"
    using Cons.prems(2) by (intro lcm_u64_lcm) (rule order.strict_trans1)
  have le: "unat ?l * frequency_product cs \<le> unat m * frequency_product (c # cs)"
    unfolding prod l using lcm_le_mult [of "unat m" "unat (c_frequency c)"]
    by (metis mult.assoc mult_le_mono1)
  have ne: "c_frequency c \<noteq> f" and f: "find_clock f cs (Suc i) ?l = Inr m'"
    using Cons.prems(1) by (simp_all split: if_splits)
  note ih = Cons.IH [OF f]
  have "unat ?l * frequency_product cs < 2 ^ 64" using le Cons.prems(2) by simp
  with ih have ih': "f \<notin> c_frequency ` set cs \<and> unat m' \<le> unat ?l * frequency_product cs
    \<and> unat ?l dvd unat m' \<and> (\<forall>c\<in>set cs. unat (c_frequency c) dvd unat m') \<and> (0 < ?l \<longrightarrow> 0 < m')"
    using Cons.prems(3) by simp
  have lpos: "0 < ?l" if "0 < m"
  proof -
    have "0 < lcm (unat m) (unat (c_frequency c))"
      using that Cons.prems(3) by (auto simp: lcm_pos_nat unat_gt_0 word_gt_0)
    then show ?thesis using l by (metis unat_gt_0 word_gt_0)
  qed
  show ?case
    using ih' ne le lpos l by (auto intro: dvd_trans [OF dvd_lcm1] dvd_trans [OF dvd_lcm2])
qed

lemma find_clock_found: "find_clock f cs i m = Inl j \<Longrightarrow> i \<le> j \<and> j - i < length cs \<and> c_frequency (cs ! (j - i)) = f"
proof (induction cs arbitrary: i m)
  case (Cons c cs)
  show ?case
  proof (cases "c_frequency c = f")
    case False
    then have "Suc i \<le> j \<and> j - Suc i < length cs \<and> c_frequency (cs ! (j - Suc i)) = f"
      using Cons by simp
    then show ?thesis by (auto simp: Suc_diff_Suc nth_Cons')
  qed (use Cons.prems in simp)
qed simp

section \<open>The process queues\<close>

text \<open>How often a process is in the queues of the clocks.\<close>

definition queued :: "'z kernel_scheme \<Rightarrow> nat \<Rightarrow> nat" where
  "queued k p = (\<Sum>c\<leftarrow>k_clocks k. count_list (c_processes c) p)"

lemma queued_update:
  assumes "i < length cs"
  shows "(\<Sum>c\<leftarrow>cs[i := c']. count_list (c_processes c) p) + count_list (c_processes (cs ! i)) p
    = (\<Sum>c\<leftarrow>cs. count_list (c_processes c) p) + count_list (c_processes c') p"
  using assms
proof (induction cs arbitrary: i)
  case (Cons c cs)
  then show ?case by (cases i) (auto simp: add.commute add.left_commute)
qed simp

lemma queued_alt: "queued k p = (\<Sum>xs\<leftarrow>map c_processes (k_clocks k). count_list xs p)"
  by (simp add: queued_def comp_def)

lemma queued_ActivateClock: "queued (ActivateClock i k) p = queued k p"
proof -
  have "(map c_processes (k_clocks k))[i := c_processes (k_clocks k ! i)] = map c_processes (k_clocks k)"
    by (cases "i < length (k_clocks k)") (metis list_update_id nth_map, simp add: list_update_beyond)
  then show ?thesis by (simp add: queued_alt ActivateClock_def Let_def map_update del: map_map)
qed

lemma ActivateClock_length [simp]: "length (k_clocks (ActivateClock i k)) = length (k_clocks k)"
  by (simp add: ActivateClock_def Let_def)

lemma ActivateClock_processes [simp]: "k_processes (ActivateClock i k) = k_processes k"
  by (simp add: ActivateClock_def Let_def)

lemma queued_ActivateProcess:
  assumes "c < length (k_clocks k)" and "p < length (k_processes k)"
  shows "queued (ActivateProcess c p k) q
      = queued k q + of_bool (q = p \<and> pr_activations (k_processes k ! p) = 0)
    \<and> pr_activations (k_processes (ActivateProcess c p k) ! p) = pr_activations (k_processes k ! p) + 1
    \<and> length (k_clocks (ActivateProcess c p k)) = length (k_clocks k)
    \<and> length (k_processes (ActivateProcess c p k)) = length (k_processes k)"
proof -
  let ?a = "pr_activations (k_processes k ! p)"
  let ?k1 = "modify_process p (\<lambda>p. p\<lparr>pr_activations := pr_activations p + 1\<rparr>) k"
  let ?f = "\<lambda>c. c\<lparr>c_processes := p # c_processes c\<rparr>"
  have a1: "pr_activations (k_processes ?k1 ! p) = ?a + 1"
    using assms(2) by (simp add: modify_process_def)
  have eq: "?a + 1 = 1 \<longleftrightarrow> ?a = 0" by simp
  show ?thesis
  proof (cases "?a = 0")
    case True
    let ?k2 = "modify_process p (\<lambda>p. p\<lparr>pr_state := STATE_ACTIVE\<rparr>) (modify_clock c ?f ?k1)"
    have D: "ActivateProcess c p k = ActivateClock c ?k2"
      unfolding ActivateProcess_def Let_def a1 using True by simp
    have "queued ?k2 q = (\<Sum>c\<leftarrow>(k_clocks k)[c := ?f (k_clocks k ! c)]. count_list (c_processes c) q)"
      by (simp add: queued_def modify_clock_def modify_process_def)
    also have "\<dots> = queued k q + of_bool (q = p)"
      using queued_update [OF assms(1), where c' = "?f (k_clocks k ! c)" and p = q]
      by (simp add: queued_def split: if_splits)
    finally show ?thesis
      unfolding D queued_ActivateClock
      using True assms by (simp add: modify_process_def modify_clock_def)
  next
    case False
    then have D: "ActivateProcess c p k = ?k1" unfolding ActivateProcess_def Let_def a1 eq by simp
    show ?thesis unfolding D using False a1 by (simp add: queued_def modify_process_def)
  qed
qed

lemma count_remove1: "count_list (remove1 p xs) q = count_list xs q - of_bool (q = p)"
  by (induction xs) auto

lemma sum_remove1_other:
  "q \<noteq> p \<Longrightarrow> (\<Sum>c\<leftarrow>map (\<lambda>c. c\<lparr>c_processes := remove1 p (c_processes c)\<rparr>) cs. count_list (c_processes c) q)
    = (\<Sum>c\<leftarrow>cs. count_list (c_processes c) q)"
  by (induction cs) (simp_all add: count_remove1)

lemma sum_remove1_same:
  "(\<Sum>c\<leftarrow>cs. count_list (c_processes c) p) \<le> 1 \<Longrightarrow>
   (\<Sum>c\<leftarrow>map (\<lambda>c. c\<lparr>c_processes := remove1 p (c_processes c)\<rparr>) cs. count_list (c_processes c) p) = 0"
proof (induction cs)
  case (Cons c cs)
  then have "count_list (c_processes c) p \<le> 1" "(\<Sum>c\<leftarrow>cs. count_list (c_processes c) p) \<le> 1"
    by simp_all
  with Cons.IH show ?case by (simp add: count_remove1)
qed simp

lemma queued_Deactivate:
  assumes "p < length (k_processes k)" and "queued k p \<le> 1"
  shows "queued (Deactivate p k) q
      = (if q = p \<and> pr_activations (k_processes k ! p) = 1 then 0 else queued k q)
    \<and> pr_activations (k_processes (Deactivate p k) ! p) = pr_activations (k_processes k ! p) - 1
    \<and> length (k_clocks (Deactivate p k)) = length (k_clocks k)
    \<and> length (k_processes (Deactivate p k)) = length (k_processes k)"
proof -
  let ?a = "pr_activations (k_processes k ! p)"
  let ?k1 = "modify_process p (\<lambda>p. p\<lparr>pr_activations := pr_activations p - 1\<rparr>) k"
  let ?cs = "map (\<lambda>c. c\<lparr>c_processes := remove1 p (c_processes c)\<rparr>) (k_clocks k)"
  have a1: "pr_activations (k_processes ?k1 ! p) = ?a - 1"
    using assms(1) by (simp add: modify_process_def)
  have eq: "?a - 1 = 0 \<longleftrightarrow> ?a = 1" by (rule right_minus_eq)
  show ?thesis
  proof (cases "?a = 1")
    case True
    have D: "Deactivate p k = modify_process p (\<lambda>p. p\<lparr>pr_state := STATE_IDLE\<rparr>) (?k1\<lparr>k_clocks := ?cs\<rparr>)"
      unfolding Deactivate_def Let_def a1 using True by simp
    have "queued (Deactivate p k) q = (\<Sum>c\<leftarrow>?cs. count_list (c_processes c) q)"
      unfolding D queued_def by (simp add: modify_process_def)
    also have "\<dots> = (if q = p then 0 else queued k q)"
      using sum_remove1_other [where cs = "k_clocks k"] sum_remove1_same [where cs = "k_clocks k" and p = p] assms(2)
      unfolding queued_def by (cases "q = p") simp_all
    finally show ?thesis
      using True assms(1) unfolding D by (simp add: modify_process_def)
  next
    case False
    then have D: "Deactivate p k = ?k1" unfolding Deactivate_def Let_def a1 eq by simp
    show ?thesis unfolding D using False a1 by (simp add: queued_def modify_process_def)
  qed
qed

lemma deliver_step:
  assumes "c < length (k_clocks k)" and "p < length (k_processes k)"
    and "queued k p = of_bool (pr_activations (k_processes k ! p) \<noteq> 0)"
    and "0 \<le> uint (pr_activations (k_processes k ! p)) + activations [n]"
    and "uint (pr_activations (k_processes k ! p)) + activations [n] < 2 ^ 32"
  defines "k' \<equiv> deliver c p [n] k"
  shows "uint (pr_activations (k_processes k' ! p)) = uint (pr_activations (k_processes k ! p)) + activations [n]
    \<and> queued k' p = of_bool (pr_activations (k_processes k' ! p) \<noteq> 0)
    \<and> c < length (k_clocks k') \<and> p < length (k_processes k')"
proof (cases n)
  case Notify
  let ?a = "pr_activations (k_processes k ! p)"
  have "uint (?a + 1) = uint ?a + 1"
    using assms(5) Notify by (simp add: uint_word_ariths take_bit_int_eq_self)
  moreover have "0 \<le> uint ?a" by simp
  ultimately have "uint (?a + 1) \<noteq> 0" by linarith
  then have "?a + 1 \<noteq> 0" by auto
  then show ?thesis
    using assms(1-3) queued_ActivateProcess [OF assms(1,2), of p] \<open>uint (?a + 1) = uint ?a + 1\<close> Notify
    by (simp add: k'_def)
next
  case Unnotify
  let ?a = "pr_activations (k_processes k ! p)"
  have "uint (?a - 1) = uint ?a - 1"
    using assms(4) Unnotify uint_lt2p [of ?a] by (simp add: uint_word_ariths take_bit_int_eq_self)
  moreover have "?a \<noteq> 0" using assms(4) Unnotify by auto
  moreover have "?a - 1 = 0 \<longleftrightarrow> ?a = 1" by (rule right_minus_eq)
  moreover have "queued k p \<le> 1" using assms(3) by simp
  ultimately show ?thesis
    using assms(1-3) queued_Deactivate [OF assms(2), of p] Unnotify by (simp add: k'_def)
qed

section \<open>Properties\<close>

text \<open>
  C13. The main loop returns: called for a finite number of cycles with handlers that change the
  kernel only by activations, \<open>Step\<close> leaves its loop within \<open>2 * cycles + 1\<close> iterations. When it
  succeeds the time has not gone back and has not passed the requested end, and the queue of
  clocks is in order: sorted by time, nothing in the past, and every clock with something to run
  is in it.
\<close>

theorem Step_returns:
  assumes h: "handlers_keep cb" and wf: "kernel_wf k" and fin: "cycles < INFINITE_CYCLES"
    and room: "k_cycle k + cycles < INFINITE_CYCLES" and fuel: "2 * cycles + 2 \<le> fuel"
  shows "\<exists>r. Step fuel cb cycles k = Some r
    \<and> (\<forall>st k'. r = Inr (st, k') \<longrightarrow>
         kernel_wf k' \<and> k_cycle k \<le> k_cycle k' \<and> k_cycle k' \<le> k_cycle k + cycles)"
proof -
  let ?stop = "k_cycle k + cycles"
  have e: "(if cycles = INFINITE_CYCLES then cycles else ?stop) = ?stop" "?stop \<noteq> INFINITE_CYCLES"
    using fin room by simp_all
  show ?thesis
  proof (cases "step_begin cb k")
    case (Inl er)
    then show ?thesis by (simp add: Step_def Let_def)
  next
    case (Inr k1)
    note b = step_begin_wf [OF h wf Inr]
    have "2 * (?stop - k_cycle k1) + of_bool (k_activeClocks k1 \<noteq> []) < fuel"
    proof -
      have "of_bool (k_activeClocks k1 \<noteq> []) \<le> (1::nat)" by simp
      moreover have "?stop - k_cycle k1 \<le> cycles" using b by linarith
      ultimately show ?thesis using fuel by linarith
    qed
    then obtain r where r: "step_loop fuel cb ?stop (False, k1) = Some r"
      "\<forall>i k'. r = Inr (i, k') \<longrightarrow> kernel_wf k' \<and> k_cycle k1 \<le> k_cycle k'"
      using step_loop_returns [OF h e(2), of k1 False fuel] b by blast
    have S: "Step fuel cb cycles k = Some (map_sum id (step_finish ?stop) r)"
      unfolding Step_def Let_def e(1) Inr using r(1) by simp
    have "kernel_wf k' \<and> k_cycle k \<le> k_cycle k' \<and> k_cycle k' \<le> ?stop"
      if "map_sum id (step_finish ?stop) r = Inr (st, k')" for st k'
    proof -
      obtain i k2 where k2: "r = Inr (i, k2)" "step_finish ?stop (i, k2) = (st, k')"
        using \<open>map_sum id (step_finish ?stop) r = Inr (st, k')\<close> by (cases r) auto
      from step_finish_wf [OF _ k2(2)] r(2) k2(1) b show ?thesis by auto
    qed
    then show ?thesis using S by blast
  qed
qed

text \<open>Two clocks, the first with a process whose handler registers storage 0 for an update.\<close>

definition example_handlers :: "kernel callbacks" where
  "example_handlers = \<lparr>cb_delegate = (\<lambda>p k. Inr (SUCCESS, k)),
     cb_arbitrate = (\<lambda>a k. Inr k), cb_update = (\<lambda>s k. Inr k)\<rparr>"

definition example_kernel :: kernel where
  "example_kernel = kernel_new\<lparr>k_master_freq := 12,
     k_clocks := [(clock_new 4 3)\<lparr>c_processes := [0], c_cycle := 3, c_activated := True\<rparr>,
                  clock_new 6 2],
     k_activeClocks := [0],
     k_processes := [process_new\<lparr>pr_state := STATE_ACTIVE, pr_activations := 1\<rparr>],
     k_storages := [\<lparr>sl_clock = 1, sl_activated = False\<rparr>]\<rparr>"

lemma example_kernel_wf: "kernel_wf example_kernel" "handlers_keep example_handlers"
  by (auto simp: kernel_wf_def clock_queue_def example_kernel_def kernel_new_def clock_new_def
    has_work_def handlers_keep_def example_handlers_def less_Suc_eq)

theorem Step_returns_witness:
  "\<exists>r. Step 12 example_handlers 5 example_kernel = Some r"
  using Step_returns [OF example_kernel_wf(2,1), of 5 12]
  by (auto simp: INFINITE_CYCLES_def example_kernel_def kernel_new_def)

text \<open>
  C14. A clock whose next tick fits the 64 bits of a cycle number is activated for that tick: the
  least multiple of its period after the current cycle, exactly once in the queue, which stays
  sorted; the clocks that are to run now, and those already scheduled, are not affected. The time
  stored is the one that the 64-bit calculation of the code gives. (A tick that does not fit wraps
  to a time that is already past; \<open>next_tick_u64_wraps\<close>.)
\<close>

theorem ActivateClock_schedules:
  assumes q: "clock_queue k" and i: "i < length (k_clocks k)"
    and fits: "next_tick (k_cycle k) (c_period (k_clocks k ! i)) < 2 ^ 64"
  shows "clock_queue (ActivateClock i k) \<and> i \<in> set (k_activeClocks (ActivateClock i k))
    \<and> now_clocks (ActivateClock i k) = now_clocks k
    \<and> (\<forall>j\<in>set (k_activeClocks k). k_clocks (ActivateClock i k) ! j = k_clocks k ! j)
    \<and> (i \<notin> set (k_activeClocks k) \<longrightarrow>
         (let t = c_cycle (k_clocks (ActivateClock i k) ! i); period = unat (c_period (k_clocks k ! i))
          in period dvd t \<and> k_cycle k < t \<and> (\<forall>t'. period dvd t' \<and> k_cycle k < t' \<longrightarrow> t \<le> t')
           \<and> t = unat (next_tick_u64 (of_nat (k_cycle k)) (c_period (k_clocks k ! i)))))"
proof -
  let ?k = "k\<lparr>k_clocks := map (\<lambda>c. c\<lparr>c_processes := [], c_storages := [], c_arbitrators := []\<rparr>) (k_clocks k)\<rparr>"
  have act: "c_activated (k_clocks k ! j) \<longleftrightarrow> j \<in> set (k_activeClocks k)" if "j < length (k_clocks k)" for j
    using q that by (simp add: clock_queue_def)
  have pos: "0 < c_period (k_clocks k ! i)" using q i by (simp add: clock_queue_def)
  show ?thesis
  proof (cases "i \<in> set (k_activeClocks k)")
    case True
    then have "ActivateClock i k = k" using act [OF i] by (simp add: ActivateClock_def Let_def)
    then show ?thesis using q True by simp
  next
    case False
    let ?cyc = "next_tick (k_cycle k) (c_period (k_clocks k ! i))"
    let ?cs = "(k_clocks k)[i := (k_clocks k ! i)\<lparr>c_cycle := ?cyc, c_activated := True\<rparr>]"
    have eq: "ActivateClock i k = k\<lparr>k_activeClocks := insert_clock (k_clocks k) i ?cyc (k_activeClocks k),
        k_clocks := ?cs\<rparr>"
      using False act [OF i] by (simp add: ActivateClock_def Let_def)
    have gt: "k_cycle k < ?cyc" by (rule next_tick_greater [OF pos])
    have other: "?cs ! j = k_clocks k ! j" if "j \<in> set (k_activeClocks k)" for j
      using that False by (metis nth_list_update_neq)
    then have ocyc: "c_cycle (?cs ! j) = c_cycle (k_clocks k ! j)" if "j \<in> set (k_activeClocks k)" for j
      using that by simp
    have srt: "sorted (map (\<lambda>j. c_cycle (?cs ! j)) (insert_clock (k_clocks k) i ?cyc (k_activeClocks k)))"
      by (rule insert_clock_sorted [OF _ False ocyc]) (use q i in \<open>simp_all add: clock_queue_def\<close>)
    have now: "takeWhile (\<lambda>j. c_cycle (?cs ! j) = k_cycle k) (insert_clock (k_clocks k) i ?cyc (k_activeClocks k))
        = takeWhile (\<lambda>j. c_cycle (k_clocks k ! j) = k_cycle k) (k_activeClocks k)"
      by (rule insert_clock_now [OF _ _ ocyc]) (use q i gt in \<open>auto simp: clock_queue_def\<close>)
    have "clock_queue (ActivateClock i k)"
      unfolding eq using q i gt False srt other by (auto simp: clock_queue_def nth_list_update)
    moreover have "?cyc \<le> t'" if "unat (c_period (k_clocks k ! i)) dvd t'" "k_cycle k < t'" for t'
    proof -
      let ?p = "unat (c_period (k_clocks k ! i))"
      from that(1) obtain m where m: "t' = ?p * m" by (elim dvdE)
      have "k_cycle k div ?p < m"
        using that(2) m pos by (metis div_less_iff_less_mult mult.commute unat_gt_0 word_gt_0)
      then have "(k_cycle k div ?p + 1) * ?p \<le> m * ?p" by (intro mult_le_mono1) simp
      then show ?thesis by (simp add: next_tick_def m mult.commute)
    qed
    ultimately show ?thesis
      using other now gt i False next_tick_dvd next_tick_u64_fits [OF fits pos]
      by (simp add: eq now_clocks_def Let_def)
  qed
qed

theorem ActivateClock_schedules_witness:
  "c_cycle (k_clocks (ActivateClock 1 example_kernel) ! 1) = 2 \<and> next_tick_u64 0 2 = 2
   \<and> now_clocks (ActivateClock 1 example_kernel) = now_clocks example_kernel"
proof -
  have "clock_queue example_kernel" "1 < length (k_clocks example_kernel)"
    using example_kernel_wf(1) by (simp_all add: kernel_wf_def) (simp add: example_kernel_def)
  moreover have "next_tick (k_cycle example_kernel) (c_period (k_clocks example_kernel ! 1)) < 2 ^ 64"
    by (simp add: next_tick_def example_kernel_def kernel_new_def clock_new_def)
  ultimately have h: "clock_queue example_kernel" "1 < length (k_clocks example_kernel)"
    "next_tick (k_cycle example_kernel) (c_period (k_clocks example_kernel ! 1)) < 2 ^ 64" by simp_all
  from ActivateClock_schedules [OF h] show ?thesis
    by (auto simp: ActivateClock_def Let_def example_kernel_def kernel_new_def clock_new_def next_tick_def
      next_tick_u64_def)
qed

text \<open>
  Clocks of different frequencies stay in step: after \<open>CreateClock\<close> every clock's period
  times its frequency is the master frequency, no frequency occurs twice, and the clock returned
  has the frequency asked for, as long as the product of the frequencies fits 64 bits.
\<close>

theorem CreateClock_in_step:
  assumes s: "clocks_in_step k" and c0: "k_cycle k = 0" and f: "0 < f"
    and fits: "frequency_product (k_clocks k) * unat f < 2 ^ 64"
  shows "\<exists>i k'. CreateClock f k = Inr (i, k') \<and> clocks_in_step k' \<and> i < length (k_clocks k')
    \<and> c_frequency (k_clocks k' ! i) = f"
proof -
  let ?cs = "k_clocks k"
  have maxf: "max 1 f = f" using f by (simp add: max_def word_le_nat_alt) (metis Suc_leI unat_1 unat_gt_0 word_gt_0 One_nat_def)
  have fpos: "0 < unat f" using f by (simp add: unat_gt_0 word_gt_0)
  have pos: "\<forall>c\<in>set ?cs. 0 < c_frequency c" using s by (simp add: clocks_in_step_def)
  show ?thesis
  proof (cases "find_clock f ?cs 0 1")
    case (Inl i)
    then show ?thesis
      using find_clock_found [OF Inl] s c0 f by (simp add: CreateClock_def maxf)
  next
    case (Inr m)
    let ?m = "lcm_u64 m f"
    have fp: "unat (1::u64) * frequency_product ?cs < 2 ^ 64"
      using fits fpos by (metis le_less_trans mult.right_neutral mult_le_mono2 nat_mult_1 Suc_leI One_nat_def unat_1)
    from find_clock_master [OF Inr fp pos] have m: "f \<notin> c_frequency ` set ?cs"
      "unat m \<le> frequency_product ?cs" "\<forall>c\<in>set ?cs. unat (c_frequency c) dvd unat m" "0 < m"
      by simp_all
    have "unat m * unat f < 2 ^ 64" using m(2) fits by (meson le_less_trans mult_le_mono1)
    then have l: "unat ?m = lcm (unat m) (unat f)" by (rule lcm_u64_lcm)
    have div: "unat (?m div g) * unat g = unat ?m" "?m mod g = 0" if "unat g dvd unat ?m" for g
    proof -
      show "unat (?m div g) * unat g = unat ?m" using that by (simp add: unat_div)
      have "unat (?m mod g) = 0" using that by (simp add: unat_mod)
      then show "?m mod g = 0" by (simp add: unat_eq_0)
    qed
    have dv: "unat (c_frequency c) dvd unat ?m" if "c \<in> set ?cs" for c
      using m(3) that l by (metis dvd_lcm1 dvd_trans)
    have dvf: "unat f dvd unat ?m" using l by simp
    define cs where "cs = (if k_master_freq k \<noteq> ?m then set_periods ?m ?cs else ?cs)"
    have noassert: "\<not> (k_master_freq k \<noteq> ?m \<and> (\<exists>c\<in>set ?cs. ?m mod c_frequency c \<noteq> 0))"
      using div(2) dv by blast
    have C: "CreateClock f k = Inr (length cs, k\<lparr>k_master_freq := ?m, k_clocks := cs @ [clock_new f (?m div f)]\<rparr>)"
      unfolding CreateClock_def maxf Let_def Inr sum.case if_not_P [OF noassert] cs_def [symmetric]
      using c0 f div(2) [OF dvf] by simp
    have freqs: "map c_frequency cs = map c_frequency ?cs" by (simp add: cs_def set_periods_def)
    have per: "unat (c_period c) * unat (c_frequency c) = unat ?m" if cin: "c \<in> set cs" for c
    proof (cases "k_master_freq k \<noteq> ?m")
      case True
      then obtain c0 where "c0 \<in> set ?cs" "c = c0\<lparr>c_period := ?m div c_frequency c0\<rparr>"
        using cin by (auto simp: cs_def set_periods_def)
      then show ?thesis using div(1) [OF dv] by simp
    next
      case False
      then show ?thesis using cin s by (simp add: cs_def clocks_in_step_def)
    qed
    have fr: "c_frequency ` set cs = c_frequency ` set ?cs" using freqs by (metis set_map)
    have cpos: "0 < c_frequency c" if "c \<in> set cs" for c
    proof -
      have "c_frequency c \<in> c_frequency ` set ?cs" using that fr by blast
      then show ?thesis using pos by auto
    qed
    have "f \<notin> c_frequency ` set cs" "distinct (map c_frequency cs)"
      using m(1) fr freqs s by (simp_all add: clocks_in_step_def)
    then have "clocks_in_step (k\<lparr>k_master_freq := ?m, k_clocks := cs @ [clock_new f (?m div f)]\<rparr>)"
      using per cpos f div(1) [OF dvf] by (simp add: clocks_in_step_def clock_new_def)
    then show ?thesis unfolding C by (simp add: clock_new_def)
  qed
qed

theorem CreateClock_in_step_witness:
  "\<exists>i k'. CreateClock 400 (kernel_new\<lparr>k_master_freq := 300, k_clocks := [clock_new 300 1]\<rparr>) = Inr (i, k')
     \<and> clocks_in_step k'"
  using CreateClock_in_step [of "kernel_new\<lparr>k_master_freq := 300, k_clocks := [clock_new 300 1]\<rparr>" 400]
  by (auto simp: clocks_in_step_def clock_new_def kernel_new_def frequency_product_def)

text \<open>
  C15. A process is queued exactly while it is activated: if it is in one queue of the clocks, once,
  when its reference count is not zero and in none when it is zero, then so it is after any
  notifications that never take the count below zero or beyond 32 bits (the count after every prefix
  of the sequence is in this range), and the count has followed them.
\<close>

theorem process_queued_while_activated:
  assumes "c < length (k_clocks k)" and "p < length (k_processes k)"
    and "queued k p = of_bool (pr_activations (k_processes k ! p) \<noteq> 0)"
    and "\<And>n. n \<le> length ns \<Longrightarrow> 0 \<le> uint (pr_activations (k_processes k ! p)) + activations (take n ns)
           \<and> uint (pr_activations (k_processes k ! p)) + activations (take n ns) < 2 ^ 32"
  shows "uint (pr_activations (k_processes (deliver c p ns k) ! p))
      = uint (pr_activations (k_processes k ! p)) + activations ns
    \<and> queued (deliver c p ns k) p = of_bool (pr_activations (k_processes (deliver c p ns k) ! p) \<noteq> 0)"
  using assms
proof (induction ns arbitrary: k)
  case (Cons n ns)
  let ?k = "deliver c p [n] k"
  have d: "deliver c p (n # ns) k = deliver c p ns ?k" by (cases n) simp_all
  have a: "activations (n # xs) = activations [n] + activations xs" for xs by (cases n) simp_all
  have "0 \<le> uint (pr_activations (k_processes k ! p)) + activations [n]
      \<and> uint (pr_activations (k_processes k ! p)) + activations [n] < 2 ^ 32"
    using Cons.prems(4) [of 1] by simp
  with deliver_step [OF Cons.prems(1-3), of n] have
    1: "uint (pr_activations (k_processes ?k ! p)) = uint (pr_activations (k_processes k ! p)) + activations [n]"
    "queued ?k p = of_bool (pr_activations (k_processes ?k ! p) \<noteq> 0)"
    "c < length (k_clocks ?k)" "p < length (k_processes ?k)" by simp_all
  have "0 \<le> uint (pr_activations (k_processes ?k ! p)) + activations (take m ns)
      \<and> uint (pr_activations (k_processes ?k ! p)) + activations (take m ns) < 2 ^ 32"
    if "m \<le> length ns" for m
    using Cons.prems(4) [of "Suc m"] that 1(1) a [of "take m ns"] by simp
  from Cons.IH [OF 1(3,4,2) this] 1(1) a [of ns] show ?case by (simp add: d)
qed simp

theorem process_queued_while_activated_witness:
  "queued (deliver 0 0 [Unnotify, Notify, Notify] example_kernel) 0 = 1"
proof -
  have n: "n = 0 \<or> n = 1 \<or> n = 2 \<or> n = 3" if "n \<le> length [Unnotify, Notify, Notify]" for n
    using that by auto
  show ?thesis
    using process_queued_while_activated [of 0 example_kernel 0 "[Unnotify, Notify, Notify]"] n
    by (force simp: example_kernel_def kernel_new_def clock_new_def process_new_def queued_def
      numeral_2_eq_2 numeral_3_eq_3)
qed

text \<open>A clock activated before the master frequency changed keeps the time computed from its old
  period, which need not be a tick of the new one.\<close>

lemma CreateClock_misaligned:
  "CreateClock 400 (ActivateClock 0 (kernel_new\<lparr>k_master_freq := 300, k_clocks := [clock_new 300 1]\<rparr>))
     = Inr (i, k') \<Longrightarrow> \<not> unat (c_period (k_clocks k' ! 0)) dvd c_cycle (k_clocks k' ! 0)"
proof -
  have "lcm_u64 (lcm_u64 1 300) 400 = 1200"
    by (simp add: lcm_u64_def gcd_loop.simps)
  then show "CreateClock 400 (ActivateClock 0 (kernel_new\<lparr>k_master_freq := 300, k_clocks := [clock_new 300 1]\<rparr>))
     = Inr (i, k') \<Longrightarrow> \<not> unat (c_period (k_clocks k' ! 0)) dvd c_cycle (k_clocks k' ! 0)"
    by (auto simp: CreateClock_def kernel_new_def clock_new_def ActivateClock_def next_tick_def
      set_periods_def Let_def max_def)
qed

text \<open>The update round at the start of the first \<open>Step\<close> finds no clock to update, because no
  clock is scheduled for cycle 0.\<close>

lemma first_update_round_empty:
  assumes "\<forall>i\<in>set (k_activeClocks k). k_cycle k < c_cycle (k_clocks k ! i)"
  shows "UpdateStorages cb k = Inr (False, k)"
proof -
  have "now_clocks k = []"
    using assms by (cases "k_activeClocks k") (auto simp: now_clocks_def)
  then show ?thesis by (simp add: UpdateStorages_def)
qed

end
