(* ===== verification/Log2.thy ===== *)
theory Log2
  imports Prelude
begin

text \<open>
  \<open>IsPowerOfTwo\<close> and \<open>ilog2\<close> (sim/log2.h), at any word width. The loop of \<open>ilog2\<close> doubles a word
  and would not end above the largest power of two, so it is a partial function.
\<close>

definition IsPowerOfTwo :: "'a::len word \<Rightarrow> bool" where
  "IsPowerOfTwo x \<longleftrightarrow> x AND (x - 1) = 0"

partial_function (option) ilog2_loop :: "'a::len word \<Rightarrow> nat \<Rightarrow> 'a word \<Rightarrow> nat option" where
  "ilog2_loop r l n = (if r < n then ilog2_loop (r * 2) (l + 1) n else Some l)"

definition ilog2 :: "'a::len word \<Rightarrow> nat option" where
  "ilog2 n = ilog2_loop 1 0 n"

text \<open>Powers of two, on natural numbers.\<close>

lemma nat_and_div2: "(m AND n) div 2 = (m div 2) AND (n div (2::nat))"
  using drop_bit_and [of 1 m n] by (simp add: drop_bit_eq_div)

lemma nat_and_pred_0:
  assumes "n AND (n - 1) = 0" and "0 < (n::nat)"
  shows "\<exists>k. n = 2 ^ k"
  using assms
proof (induction n rule: less_induct)
  case (less n)
  show ?case
  proof (cases "even n")
    case True
    then obtain m where m: "n = 2 * m" by (elim evenE)
    then have pos: "0 < m" using less.prems(2) by simp
    have "(n AND (n - 1)) div 2 = (n div 2) AND ((n - 1) div 2)" by (rule nat_and_div2)
    moreover have "(n - 1) div 2 = m - 1" using m pos by (cases m) simp_all
    ultimately have "m AND (m - 1) = 0" using less.prems(1) m by simp
    then obtain k where "m = 2 ^ k" using less.IH [of m] m pos by auto
    then have "n = 2 ^ Suc k" using m by simp
    then show ?thesis by blast
  next
    case False
    then obtain m where m: "n = 2 * m + 1" by (elim oddE)
    have "m = 0"
    proof (rule ccontr)
      assume "m \<noteq> 0"
      have "(n AND (n - 1)) div 2 = (n div 2) AND ((n - 1) div 2)" by (rule nat_and_div2)
      then have "m AND m = 0" using less.prems(1) m by simp
      then show False using \<open>m \<noteq> 0\<close> by simp
    qed
    then have "n = 2 ^ 0" using m by simp
    then show ?thesis by blast
  qed
qed

lemma unat_power_of_two: "k < LENGTH('a) \<Longrightarrow> unat (2 ^ k :: 'a::len word) = 2 ^ k"
proof -
  assume lt: "k < LENGTH('a)"
  then have "(2::nat) ^ k < 2 ^ LENGTH('a)" by simp
  then have "unat (of_nat (2 ^ k) :: 'a word) = 2 ^ k" by (simp only: unat_of_nat mod_less)
  then show ?thesis by simp
qed

lemma IsPowerOfTwo_exp:
  assumes "IsPowerOfTwo (x :: 'a::len word)" and "0 < x"
  shows "\<exists>k < LENGTH('a). x = 2 ^ k"
proof -
  have pos: "0 < unat x" using assms(2) by (simp add: unat_gt_0 word_gt_0)
  have "unat (x - 1) = unat x - 1" using assms(2) by (intro unat_minus_one) auto
  moreover have "unat (x AND (x - 1)) = unat x AND unat (x - 1)" by (simp add: unsigned_and_eq)
  ultimately have "unat x AND (unat x - 1) = 0" using assms(1) by (simp add: IsPowerOfTwo_def)
  then obtain k where k: "unat x = 2 ^ k" using nat_and_pred_0 pos by blast
  then have "(2::nat) ^ k < 2 ^ LENGTH('a)" by (metis unsigned_less)
  then have lt: "k < LENGTH('a)" by simp
  have "unat (2 ^ k :: 'a word) = 2 ^ k" using lt by (rule unat_power_of_two)
  then have "x = 2 ^ k" using k by (metis word_unat_eq_iff)
  with lt show ?thesis by blast
qed

lemma ilog2_loop_exp:
  "j \<le> k \<Longrightarrow> k < LENGTH('a) \<Longrightarrow> ilog2_loop (2 ^ j) j (2 ^ k :: 'a::len word) = Some k"
proof (induction "k - j" arbitrary: j)
  case 0
  then have "j = k" by simp
  then show ?case by (subst ilog2_loop.simps) simp
next
  case (Suc d)
  then have lt: "j < k" by simp
  have "unat (2 ^ j :: 'a word) < unat (2 ^ k :: 'a word)" 
    using lt Suc.prems by (simp add: unat_power_of_two)
  then have "(2 ^ j :: 'a word) < 2 ^ k" by (simp add: word_less_nat_alt)
  moreover have "ilog2_loop (2 ^ Suc j) (Suc j) (2 ^ k :: 'a word) = Some k"
    using Suc lt by (intro Suc.hyps) simp_all
  ultimately show ?case by (subst ilog2_loop.simps) (simp add: mult.commute)
qed

lemma ilog2_exp: "k < LENGTH('a) \<Longrightarrow> ilog2 (2 ^ k :: 'a::len word) = Some k"
  using ilog2_loop_exp [of 0 k] by (simp add: ilog2_def)

end
