(* ===== verification/Address.thy ===== *)
theory Address
  imports Log2
begin

text \<open>
  Addresses with a width (arch/Address.h, arch/Address.cpp), for the Alpha: the value is of type
  \<open>Addr\<close>, 64 bits, and the width of type \<open>AddrWidth\<close>, 8 bits. The exception
  \<open>std::invalid_argument\<close> is the error \<open>InvalidArgumentException\<close>; a shift by 64 or more is
  undefined.
\<close>

record RAddr =
  m_value :: u64
  m_width :: u8

definition addr_shl :: "u64 \<Rightarrow> nat \<Rightarrow> u64 res" where
  "addr_shl a n = (if n < 64 then Inr (push_bit n a) else Inl UndefinedBehaviour)"

definition addr_shr :: "u64 \<Rightarrow> nat \<Rightarrow> u64 res" where
  "addr_shr a n = (if n < 64 then Inr (drop_bit n a) else Inl UndefinedBehaviour)"

definition RAddr_isValid :: "u64 \<Rightarrow> u8 \<Rightarrow> bool res" where
  "RAddr_isValid a w =
     (if unat w \<le> 64 then Inr True
      else res_bind (addr_shr a (unat w)) (\<lambda>r. Inr (r = 0)))"

definition RAddr_valid :: "RAddr \<Rightarrow> bool res" where
  "RAddr_valid r = RAddr_isValid (m_value r) (m_width r)"

definition invalid_unless :: "bool \<Rightarrow> 'a res \<Rightarrow> 'a res" where
  "invalid_unless b r = (if b then r else Inl InvalidArgumentException)"

definition RAddr_new :: "u64 \<Rightarrow> u8 \<Rightarrow> RAddr res" where
  "RAddr_new v w = res_bind (RAddr_isValid v w) (\<lambda>ok.
     invalid_unless ok (Inr \<lparr>m_value = v, m_width = w\<rparr>))"

definition RAddr_truncateLsb :: "u64 \<Rightarrow> u8 \<Rightarrow> u8 \<Rightarrow> RAddr res" where
  "RAddr_truncateLsb a oldW n = res_bind (addr_shr a (unat n)) (\<lambda>v. RAddr_new v (oldW - n))"

definition RAddr_truncateMsb :: "u64 \<Rightarrow> u8 \<Rightarrow> RAddr res" where
  "RAddr_truncateMsb a newW = res_bind (addr_shl (NOT 0) (unat newW)) (\<lambda>msk. RAddr_new (a AND NOT msk) newW)"

definition truncateLsb :: "RAddr \<Rightarrow> u8 \<Rightarrow> RAddr res" where
  "truncateLsb r n = RAddr_truncateLsb (m_value r) (m_width r) n"

definition truncateMsb :: "RAddr \<Rightarrow> u8 \<Rightarrow> RAddr res" where
  "truncateMsb r newW = RAddr_truncateMsb (m_value r) newW"

definition RAddr_alwaysExpect :: "u64 \<Rightarrow> u8 \<Rightarrow> unit res" where
  "RAddr_alwaysExpect a w = res_bind (RAddr_isValid a w) (\<lambda>ok. invalid_unless ok (Inr ()))"

definition RAddr_strictExpect :: "u64 \<Rightarrow> u8 \<Rightarrow> unit res" where
  "RAddr_strictExpect a w = RAddr_alwaysExpect a w"

definition alwaysExpect :: "RAddr \<Rightarrow> u8 \<Rightarrow> unit res" where
  "alwaysExpect r w = invalid_unless (m_width r = w)
     (res_bind (RAddr_valid r) (\<lambda>ok. invalid_unless ok (Inr ())))"

definition strictExpect :: "RAddr \<Rightarrow> u8 \<Rightarrow> unit res" where
  "strictExpect r w = alwaysExpect r w"

definition RAddr_eq :: "RAddr \<Rightarrow> RAddr \<Rightarrow> bool" where
  "RAddr_eq a b \<longleftrightarrow> m_value a = m_value b"

definition RAddr_assign :: "RAddr \<Rightarrow> u64 \<Rightarrow> RAddr res" where
  "RAddr_assign r a = res_bind (RAddr_strictExpect a (m_width r)) (\<lambda>_. Inr (r\<lparr>m_value := a\<rparr>))"

definition RAddr_shl :: "RAddr \<Rightarrow> nat \<Rightarrow> RAddr res" where
  "RAddr_shl r n = res_bind (addr_shl (m_value r) n) (\<lambda>v. RAddr_new v (m_width r + of_nat n))"

definition RAddr_shr :: "RAddr \<Rightarrow> nat \<Rightarrow> RAddr res" where
  "RAddr_shr r n = res_bind (addr_shr (m_value r) n) (\<lambda>v. RAddr_new v (m_width r - of_nat n))"

definition RAddr_or :: "RAddr \<Rightarrow> RAddr \<Rightarrow> RAddr res" where
  "RAddr_or a b = RAddr_new (m_value a OR m_value b) (max (m_width a) (m_width b))"

definition RAddr_and :: "RAddr \<Rightarrow> RAddr \<Rightarrow> RAddr res" where
  "RAddr_and a b = RAddr_new (m_value a AND m_value b) (max (m_width a) (m_width b))"

text \<open>The assigning operators do not check their result.\<close>

definition RAddr_shl_assign :: "RAddr \<Rightarrow> nat \<Rightarrow> RAddr res" where
  "RAddr_shl_assign r n = res_bind (addr_shl (m_value r) n)
     (\<lambda>v. Inr (r\<lparr>m_value := v, m_width := m_width r + of_nat n\<rparr>))"

definition RAddr_shr_assign :: "RAddr \<Rightarrow> nat \<Rightarrow> RAddr res" where
  "RAddr_shr_assign r n = res_bind (addr_shr (m_value r) n)
     (\<lambda>v. Inr (r\<lparr>m_value := v, m_width := m_width r - of_nat n\<rparr>))"

definition RAddr_or_assign :: "RAddr \<Rightarrow> RAddr \<Rightarrow> RAddr" where
  "RAddr_or_assign a b = a\<lparr>m_value := m_value a OR m_value b, m_width := max (m_width a) (m_width b)\<rparr>"

definition RAddr_and_assign :: "RAddr \<Rightarrow> RAddr \<Rightarrow> RAddr" where
  "RAddr_and_assign a b = a\<lparr>m_value := m_value a AND m_value b, m_width := max (m_width a) (m_width b)\<rparr>"

text \<open>The bits from \<open>i\<close> to \<open>j\<close>, both included.\<close>

definition RAddr_bits :: "RAddr \<Rightarrow> nat \<Rightarrow> nat \<Rightarrow> RAddr res" where
  "RAddr_bits r i j = res_bind (addr_shr (m_value r) i) (\<lambda>v. RAddr_truncateMsb v (of_nat (j - i + 1)))"

lemma invalid_unless_simps [simp]:
  "invalid_unless True r = r" "invalid_unless False r = Inl InvalidArgumentException"
  by (simp_all add: invalid_unless_def)

text \<open>The comparison in \<open>isValid\<close> is the wrong way around: up to 64 bits every value is valid.\<close>

lemma isValid_vacuous: "unat w \<le> 64 \<Longrightarrow> RAddr_isValid a w = Inr True"
  by (simp add: RAddr_isValid_def)

lemma isValid_accepts_wide: "RAddr_new 0xFFFF 4 = Inr \<lparr>m_value = 0xFFFF, m_width = 4\<rparr>"
  by (simp add: RAddr_new_def isValid_vacuous)

lemma RAddr_new_ok: "unat w \<le> 64 \<Longrightarrow> RAddr_new v w = Inr \<lparr>m_value = v, m_width = w\<rparr>"
  by (simp add: RAddr_new_def isValid_vacuous)

lemma strictExpect_ok: "m_width r = w \<Longrightarrow> unat w \<le> 64 \<Longrightarrow> strictExpect r w = Inr ()"
  by (simp add: strictExpect_def alwaysExpect_def RAddr_valid_def isValid_vacuous)

lemma truncateLsb_ok:
  "unat n < 64 \<Longrightarrow> unat (m_width r - n) \<le> 64 \<Longrightarrow>
   truncateLsb r n = Inr \<lparr>m_value = drop_bit (unat n) (m_value r), m_width = m_width r - n\<rparr>"
  by (simp add: truncateLsb_def RAddr_truncateLsb_def addr_shr_def RAddr_new_ok)

lemma truncateMsb_take_bit:
  assumes "unat w < 64"
  shows "truncateMsb r w = Inr \<lparr>m_value = take_bit (unat w) (m_value r), m_width = w\<rparr>"
proof -
  have "NOT (push_bit (unat w) (NOT 0)) = (Bit_Operations.mask (unat w) :: u64)"
    by (rule bit_word_eqI) (auto simp: bit_simps)
  then show ?thesis using assms
    by (simp add: truncateMsb_def RAddr_truncateMsb_def addr_shl_def RAddr_new_ok take_bit_eq_mask)
qed

lemma RAddr_bits_take_bit:
  assumes "i \<le> j" "j < 63"
  shows "RAddr_bits r i j = Inr \<lparr>m_value = take_bit (j - i + 1) (drop_bit i (m_value r)), m_width = of_nat (j - i + 1)\<rparr>"
proof -
  have "unat (of_nat (j - i + 1) :: u8) = j - i + 1" using assms by (simp add: unat_of_nat del: of_nat_Suc of_nat_add)
  then show ?thesis
    using assms truncateMsb_take_bit [of "of_nat (j - i + 1)" "\<lparr>m_value = drop_bit i (m_value r), m_width = 0\<rparr>"]
    by (simp add: RAddr_bits_def addr_shr_def truncateMsb_def)
qed

end
