(* ===== verification/MMU_Table.thy ===== *)
theory MMU_Table
  imports Address
begin

text \<open>
  A table of the translation look-aside buffer (arch/drisc/mmu/Table.h, Table.cpp). A line is free,
  pending (locked, waiting for a refill), present or present and locked, by two bits. For the strategy LRU
  the lines are linked in both directions from the one used last to the one used
  least recently; a pointer to a line is its index, and following a null pointer is
  undefined. The widths of the MMU are arguments of the constructor and the width of contexts is kept.
\<close>

datatype EvictionStrategy = PSEUDO_RANDOM | ACCESSED | LRU

datatype LineTag = TAG_FREE | TAG_PENDING | TAG_NORMAL | TAG_N_LOCKED | TAG_INDEXABLE | TAG_PRESENT | TAG_LOCKED

fun linetag_code :: "LineTag \<Rightarrow> nat" where
  "linetag_code TAG_FREE = 1"
| "linetag_code TAG_PENDING = 2"
| "linetag_code TAG_NORMAL = 4"
| "linetag_code TAG_N_LOCKED = 8"
| "linetag_code TAG_INDEXABLE = 2 + 4 + 8"
| "linetag_code TAG_PRESENT = 4 + 8"
| "linetag_code TAG_LOCKED = 2 + 8"

record Line =
  ln_present :: bool
  ln_locked :: bool
  ln_accessed :: bool
  ln_previous :: "nat option"
  ln_next :: "nat option"
  ln_contextId :: RAddr
  ln_vAddr :: RAddr
  ln_pAddr :: RAddr
  ln_dlineRef :: u32
  ln_read :: bool
  ln_write :: bool

definition Line_new :: "u8 \<Rightarrow> u8 \<Rightarrow> u8 \<Rightarrow> Line res" where
  "Line_new procWidth vWidth pWidth =
     res_bind (RAddr_new 0 procWidth) (\<lambda>c. res_bind (RAddr_new 0 vWidth) (\<lambda>v. res_bind (RAddr_new 0 pWidth) (\<lambda>p.
       Inr \<lparr>ln_present = False, ln_locked = False, ln_accessed = False, ln_previous = None, ln_next = None,
         ln_contextId = c, ln_vAddr = v, ln_pAddr = p, ln_dlineRef = 0, ln_read = False, ln_write = False\<rparr>)))"

text \<open>The two bits select a bit of the tag.\<close>

definition Line_is :: "LineTag \<Rightarrow> Line \<Rightarrow> bool" where
  "Line_is cmp l = bit (linetag_code cmp) (2 * of_bool (ln_present l) + of_bool (ln_locked l))"

definition Line_matches :: "RAddr option \<Rightarrow> RAddr option \<Rightarrow> LineTag \<Rightarrow> Line \<Rightarrow> bool" where
  "Line_matches ctx va cmp l \<longleftrightarrow> Line_is cmp l
     \<and> (case ctx of None \<Rightarrow> True | Some c \<Rightarrow> RAddr_eq c (ln_contextId l))
     \<and> (case va of None \<Rightarrow> True | Some v \<Rightarrow> RAddr_eq v (ln_vAddr l))"

record Table =
  tb_offsetWidth :: u8
  tb_vWidth :: u8
  tb_pWidth :: u8
  tb_contextWidth :: u8
  tb_evictionStrategy :: EvictionStrategy
  tb_lines :: "Line list"
  tb_head :: "nat option"
  tb_tail :: "nat option"
  tb_indexWidth :: u8

definition getEvictionStrategy :: "string \<Rightarrow> EvictionStrategy res" where
  "getEvictionStrategy name =
     (if name = ''PSEUDO_RANDOM'' \<or> name = ''RANDOM'' \<or> name = ''R'' then Inr PSEUDO_RANDOM
      else if name = ''ACCESSED'' \<or> name = ''A'' then Inr ACCESSED
      else if name = ''LRU'' then Inr LRU
      else Inl SimulationException)"

definition modify_line :: "nat \<Rightarrow> (Line \<Rightarrow> Line) \<Rightarrow> Table \<Rightarrow> Table" where
  "modify_line i f t = t\<lparr>tb_lines := (tb_lines t)[i := f (tb_lines t ! i)]\<rparr>"

text \<open>The loop of \<open>initStrategy\<close> over the lines \<open>i\<close>.\<close>

definition link_lines :: "nat \<Rightarrow> Table \<Rightarrow> Table" where
  "link_lines i t = modify_line i (\<lambda>l. l\<lparr>ln_previous := Some (i - 1)\<rparr>)
     (modify_line (i - 1) (\<lambda>l. l\<lparr>ln_next := Some i\<rparr>) t)"

definition initStrategy :: "Table \<Rightarrow> Table res" where
  "initStrategy t =
     (let n = length (tb_lines t)
      in if tb_evictionStrategy t = LRU
         then Inr (fold link_lines [1..<n]
           (modify_line 0 (\<lambda>l. l\<lparr>ln_previous := None\<rparr>)
             (modify_line (n - 1) (\<lambda>l. l\<lparr>ln_next := None\<rparr>)
               (t\<lparr>tb_head := Some 0, tb_tail := Some (n - 1)\<rparr>))))
         else if (of_nat n :: u64) AND (of_nat n - 1) \<noteq> 0 then Inl InvalidArgumentException
         else Inr t)"

text \<open>
  The constructor with the widths of the MMU and the settings of the table. The index width does not
  exist when \<open>ilog2\<close> does not end, on more than \<open>2\<^sup>6\<^sup>3\<close> lines.
\<close>

definition Table_new :: "u8 \<Rightarrow> u8 \<Rightarrow> u8 \<Rightarrow> u64 \<Rightarrow> nat \<Rightarrow> string \<Rightarrow> Table res option" where
  "Table_new vAW pAW contextAW offset n strategy =
     (let off = ucast offset :: u8 in
      case getEvictionStrategy strategy of Inl e \<Rightarrow> Some (Inl e)
      | Inr s \<Rightarrow> (case Line_new contextAW (vAW - off) (pAW - off) of Inl e \<Rightarrow> Some (Inl e)
        | Inr l \<Rightarrow> map_option (\<lambda>indexWidth.
            if n = 0 then Inl InvalidArgumentException
            else initStrategy \<lparr>tb_offsetWidth = off, tb_vWidth = vAW - off, tb_pWidth = pAW - off,
              tb_contextWidth = contextAW, tb_evictionStrategy = s, tb_lines = replicate n l, tb_head = None,
              tb_tail = None, tb_indexWidth = of_nat indexWidth\<rparr>)
            (ilog2 (of_nat n :: u64))))"

section \<open>Finding lines\<close>

definition Table_find :: "(Line \<Rightarrow> bool) \<Rightarrow> Table \<Rightarrow> nat option" where
  "Table_find p t = (let i = find_index p (tb_lines t) in if i = length (tb_lines t) then None else Some i)"

definition Table_find_tag :: "LineTag \<Rightarrow> Table \<Rightarrow> nat option" where
  "Table_find_tag type t = Table_find (Line_is type) t"

definition Table_find_address :: "RAddr \<Rightarrow> RAddr \<Rightarrow> LineTag \<Rightarrow> Table \<Rightarrow> nat option res" where
  "Table_find_address contextId va type t =
     res_bind (strictExpect contextId (tb_contextWidth t)) (\<lambda>_. res_bind (strictExpect va (tb_vWidth t)) (\<lambda>_.
       Inr (Table_find (Line_matches (Some contextId) (Some va) type) t)))"

text \<open>Writing a field of the line that a pointer refers to.\<close>

definition write_line :: "nat option \<Rightarrow> (Line \<Rightarrow> Line) \<Rightarrow> Table \<Rightarrow> Table res" where
  "write_line p f t =
     (case p of None \<Rightarrow> Inl UndefinedBehaviour
      | Some i \<Rightarrow> if i < length (tb_lines t) then Inr (modify_line i f t) else Inl UndefinedBehaviour)"

definition unlink_line :: "nat \<Rightarrow> Table \<Rightarrow> Table res" where
  "unlink_line i t =
     (let line = tb_lines t ! i in
      if Some i = tb_tail t
      then write_line (ln_previous line) (\<lambda>l. l\<lparr>ln_next := None\<rparr>) (t\<lparr>tb_tail := ln_previous line\<rparr>)
      else res_bind (write_line (ln_previous line) (\<lambda>l. l\<lparr>ln_next := ln_next line\<rparr>) t)
             (write_line (ln_next line) (\<lambda>l. l\<lparr>ln_previous := ln_previous line\<rparr>)))"

definition push_front :: "nat \<Rightarrow> Table \<Rightarrow> Table res" where
  "push_front i t =
     res_bind (write_line (tb_head t) (\<lambda>l. l\<lparr>ln_previous := Some i\<rparr>)
        (modify_line i (\<lambda>l. l\<lparr>ln_previous := None, ln_next := tb_head t\<rparr>) t))
       (\<lambda>t. Inr (t\<lparr>tb_head := Some i\<rparr>))"

definition setPrioHigh :: "nat \<Rightarrow> Table \<Rightarrow> Table res" where
  "setPrioHigh i t =
     (case tb_evictionStrategy t of
        ACCESSED \<Rightarrow> Inr (modify_line i (\<lambda>l. l\<lparr>ln_accessed := True\<rparr>) t)
      | LRU \<Rightarrow> if Some i \<noteq> tb_head t then res_bind (unlink_line i t) (push_front i) else Inr t
      | PSEUDO_RANDOM \<Rightarrow> Inr t)"

definition Table_lookup :: "RAddr \<Rightarrow> RAddr \<Rightarrow> LineTag \<Rightarrow> Table \<Rightarrow> (nat option \<times> Table) res" where
  "Table_lookup contextId va type t =
     res_bind (strictExpect contextId (tb_contextWidth t)) (\<lambda>_. res_bind (strictExpect va (tb_vWidth t)) (\<lambda>_.
     res_bind (Table_find_address contextId va type t) (\<lambda>line.
       case line of None \<Rightarrow> Inr (None, t)
       | Some i \<Rightarrow> res_bind (setPrioHigh i t) (\<lambda>t. Inr (Some i, t)))))"

section \<open>Eviction\<close>

definition random_index :: "Table \<Rightarrow> u64" where
  "random_index t =
     (let msk = of_nat (length (tb_lines t)) - 1
      in fold (\<lambda>l index. index XOR (m_value (ln_vAddr l) AND msk)) (tb_lines t) 0)"

definition pickVictim_random :: "Table \<Rightarrow> nat res" where
  "pickVictim_random t =
     (let i = unat (random_index t) in if i < length (tb_lines t) then Inr i else Inl OutOfRange)"

definition pickVictim_accessed :: "Table \<Rightarrow> nat res" where
  "pickVictim_accessed t =
     (case Table_find (\<lambda>l. Line_is TAG_NORMAL l \<and> \<not> ln_accessed l) t of
        None \<Rightarrow> pickVictim_random t | Some i \<Rightarrow> Inr i)"

definition pickVictim_lru :: "Table \<Rightarrow> nat res" where
  "pickVictim_lru t = (case tb_tail t of None \<Rightarrow> Inl UndefinedBehaviour | Some i \<Rightarrow> Inr i)"

definition pickDestination :: "Table \<Rightarrow> nat res" where
  "pickDestination t =
     (case Table_find_tag TAG_FREE t of Some i \<Rightarrow> Inr i
      | None \<Rightarrow> (case tb_evictionStrategy t of PSEUDO_RANDOM \<Rightarrow> pickVictim_random t
          | ACCESSED \<Rightarrow> pickVictim_accessed t | LRU \<Rightarrow> pickVictim_lru t))"

definition freeLine :: "CyclePhase \<Rightarrow> nat \<Rightarrow> Table \<Rightarrow> Table res" where
  "freeLine ph i t =
     (if ln_locked (tb_lines t ! i) then Inl DomainError
      else Inr (COMMIT ph (modify_line i (\<lambda>l. l\<lparr>ln_present := False\<rparr>)) t))"

definition freeLines :: "CyclePhase \<Rightarrow> Table \<Rightarrow> Table res" where
  "freeLines ph t = res_fold (freeLine ph) [0..<length (tb_lines t)] t"

definition freeLines_of :: "CyclePhase \<Rightarrow> RAddr \<Rightarrow> RAddr option \<Rightarrow> Table \<Rightarrow> Table res" where
  "freeLines_of ph contextId va t =
     res_fold (\<lambda>i t. if Line_matches (Some contextId) va TAG_INDEXABLE (tb_lines t ! i) then freeLine ph i t else Inr t)
       [0..<length (tb_lines t)] t"

section \<open>Pending and present lines\<close>

text \<open>The reference into the data cache is assigned to the argument \<open>d\<close>, which keeps its width.\<close>

definition getPending :: "RAddr \<Rightarrow> RAddr \<Rightarrow> Table \<Rightarrow> (RAddr \<times> RAddr \<times> RAddr) option res" where
  "getPending tableLineId d t =
     res_bind (strictExpect tableLineId (tb_indexWidth t)) (\<lambda>_.
       let i = unat (m_value tableLineId) in
       if \<not> i < length (tb_lines t) then Inl OutOfRange
       else let line = tb_lines t ! i in
         if \<not> Line_is TAG_PENDING line then Inr None
         else res_bind (RAddr_assign d (ucast (ln_dlineRef line))) (\<lambda>d.
           Inr (Some (ln_contextId line, ln_vAddr line, d))))"

definition releasePending :: "CyclePhase \<Rightarrow> RAddr \<Rightarrow> Table \<Rightarrow> Table res" where
  "releasePending ph tableLineId t =
     res_bind (strictExpect tableLineId (tb_indexWidth t)) (\<lambda>_.
       let i = unat (m_value tableLineId) in
       if \<not> i < length (tb_lines t) then Inl OutOfRange
       else assert_that (Line_is TAG_PENDING (tb_lines t ! i))
         (Inr (COMMIT ph (modify_line i (\<lambda>l. l\<lparr>ln_locked := False\<rparr>)) t)))"

definition storeNormal ::
  "CyclePhase \<Rightarrow> RAddr \<Rightarrow> RAddr \<Rightarrow> RAddr \<Rightarrow> bool \<Rightarrow> bool \<Rightarrow> Table \<Rightarrow> (nat option \<times> Table) res" where
  "storeNormal ph contextId va pa rd wr t =
     res_bind (strictExpect va (tb_vWidth t)) (\<lambda>_. res_bind (strictExpect pa (tb_pWidth t)) (\<lambda>_.
     res_bind (strictExpect contextId (tb_contextWidth t)) (\<lambda>_. res_bind (pickDestination t) (\<lambda>i.
       if ln_locked (tb_lines t ! i) then Inr (None, t)
       else res_bind (freeLine ph i t) (\<lambda>t.
         Inr (Some i, COMMIT ph (modify_line i (\<lambda>l. l\<lparr>ln_present := True, ln_locked := True,
           ln_contextId := contextId, ln_vAddr := va, ln_pAddr := pa, ln_read := rd, ln_write := wr\<rparr>)) t))))))"

text \<open>A line is found in the vector without a check of the index here.\<close>

definition fillPending ::
  "CyclePhase \<Rightarrow> RAddr \<Rightarrow> bool \<Rightarrow> bool \<Rightarrow> RAddr \<Rightarrow> RAddr \<Rightarrow> Table \<Rightarrow> (nat \<times> RAddr \<times> Table) res" where
  "fillPending ph tableLineId rd wr pa d t =
     res_bind (strictExpect pa (tb_pWidth t)) (\<lambda>_. res_bind (strictExpect tableLineId (tb_indexWidth t)) (\<lambda>_.
       let i = unat (m_value tableLineId) in
       if \<not> i < length (tb_lines t) then Inl UndefinedBehaviour
       else assert_that (Line_is TAG_PENDING (tb_lines t ! i))
         (res_bind (RAddr_assign d (ucast (ln_dlineRef (tb_lines t ! i)))) (\<lambda>d. Inr (i, d,
           COMMIT ph (modify_line i (\<lambda>l. l\<lparr>ln_present := True, ln_read := rd, ln_write := wr, ln_pAddr := pa\<rparr>)) t)))))"

definition storePending :: "CyclePhase \<Rightarrow> RAddr \<Rightarrow> RAddr \<Rightarrow> Table \<Rightarrow> (nat option \<times> Table) res" where
  "storePending ph contextId va t =
     res_bind (strictExpect contextId (tb_contextWidth t)) (\<lambda>_. res_bind (strictExpect va (tb_vWidth t)) (\<lambda>_.
     res_bind (pickDestination t) (\<lambda>i.
       if ln_locked (tb_lines t ! i) then Inr (None, t)
       else Inr (Some i, COMMIT ph (modify_line i (\<lambda>l. l\<lparr>ln_present := False, ln_locked := True,
         ln_contextId := contextId, ln_vAddr := va\<rparr>)) t))))"

end
