(* ===== verification/MMU_LRU.thy ===== *)
theory MMU_LRU
  imports MMU_Table "HOL-Library.Sublist"
begin

text \<open>
  The replacement of lines of a translation table with the strategy LRU: the two chains of pointers
  are a list of all lines, a hit moves a line to its front, and the victim is the last one.
\<close>

section \<open>The list of lines of a table with the strategy LRU\<close>

text \<open>The pointers \<open>f\<close> lead from \<open>p\<close> along the lines \<open>xs\<close> to \<open>q\<close>.\<close>

fun path :: "(nat \<Rightarrow> nat option) \<Rightarrow> nat option \<Rightarrow> nat list \<Rightarrow> nat option \<Rightarrow> bool" where
  "path f p [] q = (p = q)"
| "path f p (x # xs) q = (p = Some x \<and> path f (f x) xs q)"

lemma path_append: "path f p (xs @ ys) q \<longleftrightarrow> (\<exists>r. path f p xs r \<and> path f r ys q)"
  by (induction xs arbitrary: p) auto

lemma path_other: "(\<And>x. x \<in> set xs \<Longrightarrow> g x = f x) \<Longrightarrow> path g p xs q \<longleftrightarrow> path f p xs q"
  by (induction xs arbitrary: p) auto

definition next_of :: "Table \<Rightarrow> nat \<Rightarrow> nat option" where
  "next_of t i = ln_next (tb_lines t ! i)"

definition previous_of :: "Table \<Rightarrow> nat \<Rightarrow> nat option" where
  "previous_of t i = ln_previous (tb_lines t ! i)"

definition lru_list :: "Table \<Rightarrow> nat list \<Rightarrow> bool" where
  "lru_list t xs \<longleftrightarrow> tb_evictionStrategy t = LRU \<and> distinct xs \<and> set xs = {..<length (tb_lines t)} \<and> xs \<noteq> []
     \<and> path (next_of t) (tb_head t) xs None \<and> path (previous_of t) (tb_tail t) (rev xs) None"

lemma modify_line_length [simp]: "length (tb_lines (modify_line i f t)) = length (tb_lines t)"
  by (simp add: modify_line_def)

lemma modify_line_nth:
  "i < length (tb_lines t) \<Longrightarrow> tb_lines (modify_line i f t) ! j = (if j = i then f (tb_lines t ! i) else tb_lines t ! j)"
  by (simp add: modify_line_def nth_list_update)

lemma modify_line_frame [simp]:
  "tb_head (modify_line i f t) = tb_head t" "tb_tail (modify_line i f t) = tb_tail t"
  "tb_evictionStrategy (modify_line i f t) = tb_evictionStrategy t"
  by (simp_all add: modify_line_def)

lemma next_of_modify:
  "i < length (tb_lines t) \<Longrightarrow> next_of (modify_line i f t) = (next_of t)(i := ln_next (f (tb_lines t ! i)))"
  by (auto simp: next_of_def fun_eq_iff modify_line_nth)

lemma previous_of_modify:
  "i < length (tb_lines t) \<Longrightarrow> previous_of (modify_line i f t) = (previous_of t)(i := ln_previous (f (tb_lines t ! i)))"
  by (auto simp: previous_of_def fun_eq_iff modify_line_nth)

text \<open>What a line says about addresses, apart from its place in the list.\<close>

definition line_data :: "Line \<Rightarrow> Line" where
  "line_data l = l\<lparr>ln_accessed := False, ln_previous := None, ln_next := None\<rparr>"

definition same_data :: "Table \<Rightarrow> Table \<Rightarrow> bool" where
  "same_data t t' \<longleftrightarrow> map line_data (tb_lines t') = map line_data (tb_lines t)
     \<and> t'\<lparr>tb_lines := [], tb_head := None, tb_tail := None\<rparr> = t\<lparr>tb_lines := [], tb_head := None, tb_tail := None\<rparr>"

lemma same_data_refl [simp]: "same_data t t"
  by (simp add: same_data_def)

lemma same_data_trans: "same_data t t' \<Longrightarrow> same_data t' t'' \<Longrightarrow> same_data t t''"
  by (simp add: same_data_def)

lemma same_data_modify:
  assumes "i < length (tb_lines t)" "line_data (f (tb_lines t ! i)) = line_data (tb_lines t ! i)"
  shows "same_data t (modify_line i f t)"
proof -
  have "map line_data ((tb_lines t)[i := f (tb_lines t ! i)]) = map line_data ((tb_lines t)[i := tb_lines t ! i])"
    unfolding map_update assms(2) ..
  then have "map line_data ((tb_lines t)[i := f (tb_lines t ! i)]) = map line_data (tb_lines t)"
    unfolding list_update_id .
  then show ?thesis by (simp add: same_data_def modify_line_def)
qed

lemma same_data_head [simp]: "same_data t (t'\<lparr>tb_head := h\<rparr>) = same_data t t'"
  by (simp add: same_data_def)

lemma same_data_tail [simp]: "same_data t (t'\<lparr>tb_tail := h\<rparr>) = same_data t t'"
  by (simp add: same_data_def)

lemma same_data_length: "same_data t t' \<Longrightarrow> length (tb_lines t') = length (tb_lines t)"
  unfolding same_data_def by (metis length_map)

lemma same_data_strategy: "same_data t t' \<Longrightarrow> tb_evictionStrategy t' = tb_evictionStrategy t"
  unfolding same_data_def by (cases t, cases t') simp

lemma same_data_widths:
  "same_data t t' \<Longrightarrow> tb_vWidth t' = tb_vWidth t \<and> tb_contextWidth t' = tb_contextWidth t
    \<and> tb_pWidth t' = tb_pWidth t \<and> tb_indexWidth t' = tb_indexWidth t \<and> tb_offsetWidth t' = tb_offsetWidth t"
  unfolding same_data_def by (cases t, cases t') simp

text \<open>Taking an element out of a chain, and adding one at its end.\<close>

lemma path_remove:
  assumes "path f p (xs @ i # ys) q" "distinct (xs @ i # ys)" "xs \<noteq> []"
  shows "path (f(last xs := f i)) p (xs @ ys) q"
proof -
  obtain zs a where xs: "xs = zs @ [a]" using assms(3) by (cases xs rule: rev_cases) auto
  from assms(1) obtain r where r: "path f p zs r" "r = Some a" "f a = Some i" "path f (f i) ys q"
    by (auto simp: path_append xs)
  have "path (f(a := f i)) p zs r" "path (f(a := f i)) (f i) ys q"
    using r assms(2) xs by (subst path_other [of _ _ f]; auto)+
  then show ?thesis using r xs by (auto simp: path_append)
qed

lemma path_remove_first: "path f p (i # ys) q \<Longrightarrow> path f (f i) ys q"
  by simp

lemma path_add_last:
  assumes "path g p (zs @ [h]) None" "distinct (zs @ [h, i])"
  shows "path (g(i := None, h := Some i)) p (zs @ [h, i]) None"
proof -
  from assms(1) obtain r where r: "path g p zs r" "r = Some h" by (auto simp: path_append)
  have "path (g(i := None, h := Some i)) p zs r"
    using r assms(2) by (subst path_other [of _ _ g]) auto
  then show ?thesis using r assms(2) by (auto simp: path_append)
qed

lemma path_first: "path f p (x # xs) q \<Longrightarrow> p = Some x"
  by simp

lemma unlink_line_last:
  assumes "lru_list t (xs @ [i])" "xs \<noteq> []"
  shows "\<exists>t'. unlink_line i t = Inr t' \<and> same_data t t' \<and> tb_head t' = tb_head t
    \<and> path (next_of t') (tb_head t) xs None \<and> path (previous_of t') (tb_tail t') (rev xs) None"
proof -
  obtain zs a where xs: "xs = zs @ [a]" using assms(2) by (cases xs rule: rev_cases) auto
  have l: "path (next_of t) (tb_head t) (xs @ [i]) None" "path (previous_of t) (tb_tail t) (i # rev xs) None"
    "distinct (xs @ [i])" "a < length (tb_lines t)" "i < length (tb_lines t)"
    using assms(1) by (auto simp: lru_list_def xs)
  have tail: "tb_tail t = Some i" "previous_of t i = Some a" using l(2) by (simp_all add: xs)
  have nx: "next_of t i = None" using l(1) by (auto simp: path_append)
  let ?t = "modify_line a (\<lambda>l. l\<lparr>ln_next := None\<rparr>) (t\<lparr>tb_tail := Some a\<rparr>)"
  have "unlink_line i t = Inr ?t"
    using tail l by (simp add: unlink_line_def Let_def write_line_def previous_of_def)
  moreover have "next_of ?t = (next_of t)(a := None)"
    using l(4) by (subst next_of_modify) (auto simp: next_of_def fun_eq_iff)
  moreover have "previous_of ?t = previous_of t"
    using l(4) by (subst previous_of_modify) (auto simp: previous_of_def fun_eq_iff)
  moreover have "path ((next_of t)(a := None)) (tb_head t) xs None"
    using path_remove [OF l(1,3) assms(2)] by (simp add: nx xs)
  moreover have "path (previous_of t) (Some a) (rev xs) None"
    using l(2) tail by simp
  moreover have "same_data t ?t"
    using same_data_modify [of a "t\<lparr>tb_tail := Some a\<rparr>" "\<lambda>l. l\<lparr>ln_next := None\<rparr>"] l(4)
    by (simp add: same_data_def line_data_def)
  ultimately show ?thesis by auto
qed

lemma unlink_line_middle:
  assumes "lru_list t (xs @ i # b # ys)" "xs \<noteq> []"
  shows "\<exists>t'. unlink_line i t = Inr t' \<and> same_data t t' \<and> tb_head t' = tb_head t
    \<and> path (next_of t') (tb_head t) (xs @ b # ys) None
    \<and> path (previous_of t') (tb_tail t') (rev (xs @ b # ys)) None"
proof -
  obtain zs a where xs: "xs = zs @ [a]" using assms(2) by (cases xs rule: rev_cases) auto
  have l: "path (next_of t) (tb_head t) (xs @ i # b # ys) None"
    "path (previous_of t) (tb_tail t) ((rev ys @ [b]) @ i # rev xs) None"
    "distinct (xs @ i # b # ys)" "a < length (tb_lines t)" "i < length (tb_lines t)" "b < length (tb_lines t)"
    using assms(1) by (auto simp: lru_list_def xs)
  have d: "distinct ((rev ys @ [b]) @ i # rev xs)" using l(3) by auto
  have tail: "tb_tail t \<noteq> Some i"
    using l(2,3) by (cases ys rule: rev_cases) auto
  have link: "next_of t i = Some b" "previous_of t i = Some a"
    using l(1,2) by (auto simp: path_append xs)
  let ?f = "\<lambda>l. l\<lparr>ln_next := Some b\<rparr>" and ?g = "\<lambda>l. l\<lparr>ln_previous := Some a\<rparr>"
  let ?t1 = "modify_line a ?f t"
  let ?t = "modify_line b ?g ?t1"
  have "unlink_line i t = Inr ?t"
    using tail l link by (simp add: unlink_line_def Let_def write_line_def previous_of_def next_of_def)
  moreover have "next_of ?t = (next_of t)(a := Some b)"
    using l(4,6) by (auto simp: next_of_modify) (auto simp: next_of_def fun_eq_iff modify_line_nth)
  moreover have "previous_of ?t = (previous_of t)(b := Some a)"
    using l(4,6) by (auto simp: previous_of_modify) (auto simp: previous_of_def fun_eq_iff modify_line_nth)
  moreover have "path ((next_of t)(a := Some b)) (tb_head t) (xs @ b # ys) None"
    using path_remove [OF l(1,3) assms(2)] by (simp add: link xs)
  moreover have "path ((previous_of t)(b := Some a)) (tb_tail t) (rev (xs @ b # ys)) None"
    using path_remove [OF l(2) d] by (simp add: link)
  moreover have "same_data t ?t1" "same_data ?t1 ?t"
    using l(4,6) by (intro same_data_modify; simp add: line_data_def)+
  ultimately show ?thesis using same_data_trans by fastforce
qed

lemma push_front_list:
  assumes "path (next_of t) (tb_head t) xs None" "path (previous_of t) (tb_tail t) (rev xs) None"
    and "xs \<noteq> []" "distinct (i # xs)" "set (i # xs) \<subseteq> {..<length (tb_lines t)}"
  shows "\<exists>t'. push_front i t = Inr t' \<and> same_data t t' \<and> tb_head t' = Some i \<and> tb_tail t' = tb_tail t
    \<and> path (next_of t') (Some i) (i # xs) None \<and> path (previous_of t') (tb_tail t') (rev (i # xs)) None"
proof -
  obtain h ys where xs: "xs = h # ys" using assms(3) by (cases xs) auto
  have head: "tb_head t = Some h" using assms(1) xs by simp
  have b: "i < length (tb_lines t)" "h < length (tb_lines t)" "h \<noteq> i" using assms(4,5) xs by auto
  let ?f = "\<lambda>l. l\<lparr>ln_previous := None, ln_next := Some h\<rparr>" and ?g = "\<lambda>l. l\<lparr>ln_previous := Some i\<rparr>"
  let ?t1 = "modify_line i ?f t"
  let ?t = "(modify_line h ?g ?t1)\<lparr>tb_head := Some i\<rparr>"
  have "push_front i t = Inr ?t" using head b by (simp add: push_front_def write_line_def)
  moreover have nx: "next_of ?t = (next_of t)(i := Some h)"
    using b by (auto simp: next_of_def fun_eq_iff modify_line_nth)
  moreover have pr: "previous_of ?t = (previous_of t)(i := None, h := Some i)"
    using b by (auto simp: previous_of_def fun_eq_iff modify_line_nth)
  moreover have "path ((next_of t)(i := Some h)) (Some i) (i # xs) None"
  proof -
    have "path ((next_of t)(i := Some h)) (Some h) xs None"
      using assms(1,4) head by (subst path_other [of _ _ "next_of t"]) auto
    then show ?thesis by simp
  qed
  moreover have "path ((previous_of t)(i := None, h := Some i)) (tb_tail t) (rev (i # xs)) None"
    using path_add_last [of "previous_of t" "tb_tail t" "rev ys" h i] assms(2,4) xs by auto
  moreover have "same_data t ?t1" "same_data ?t1 ?t"
    using b by (auto intro!: same_data_modify simp: line_data_def)
  ultimately show ?thesis using same_data_trans by fastforce
qed

definition move_to_front :: "nat \<Rightarrow> nat list \<Rightarrow> nat list" where
  "move_to_front i xs = i # remove1 i xs"

lemma setPrioHigh_LRU:
  assumes "lru_list t xs" "i < length (tb_lines t)"
  shows "\<exists>t'. setPrioHigh i t = Inr t' \<and> same_data t t' \<and> lru_list t' (move_to_front i xs)"
proof -
  have i: "i \<in> set xs" and lru: "tb_evictionStrategy t = LRU" and d: "distinct xs"
    and s: "set xs = {..<length (tb_lines t)}"
    using assms by (auto simp: lru_list_def)
  from i obtain ys zs where xs: "xs = ys @ i # zs" by (auto simp: in_set_conv_decomp)
  have rest: "remove1 i xs = ys @ zs" using d xs by (simp add: remove1_append)
  show ?thesis
  proof (cases "ys = []")
    case True
    then have "tb_head t = Some i" "move_to_front i xs = xs"
      using assms(1) xs by (auto simp: lru_list_def move_to_front_def)
    then show ?thesis using assms(1) lru by (simp add: setPrioHigh_def)
  next
    case False
    then have head: "Some i \<noteq> tb_head t" using assms(1) d xs by (cases ys) (auto simp: lru_list_def)
    have "\<exists>t1. unlink_line i t = Inr t1 \<and> same_data t t1 \<and> tb_head t1 = tb_head t
      \<and> path (next_of t1) (tb_head t) (ys @ zs) None \<and> path (previous_of t1) (tb_tail t1) (rev (ys @ zs)) None"
      using unlink_line_last [of t ys i] unlink_line_middle [of t ys i "hd zs" "tl zs"] assms(1) False xs
      by (cases "zs = []") simp_all
    then obtain t1 where t1: "unlink_line i t = Inr t1" "same_data t t1"
      "path (next_of t1) (tb_head t1) (ys @ zs) None" "path (previous_of t1) (tb_tail t1) (rev (ys @ zs)) None" by auto
    have len: "length (tb_lines t1) = length (tb_lines t)" by (rule same_data_length [OF t1(2)])
    have "ys @ zs \<noteq> []" "distinct (i # ys @ zs)" "set (i # ys @ zs) \<subseteq> {..<length (tb_lines t1)}"
      using False d s xs len by auto
    from push_front_list [OF t1(3,4) this] obtain t2 where t2: "push_front i t1 = Inr t2" "same_data t1 t2"
      "tb_head t2 = Some i" "path (next_of t2) (Some i) (i # ys @ zs) None"
      "path (previous_of t2) (tb_tail t2) (rev (i # ys @ zs)) None" by auto
    have same: "same_data t t2" using t1(2) t2(2) by (rule same_data_trans)
    have "lru_list t2 (i # ys @ zs)"
      using t2(3-5) d s xs lru same_data_length [OF same] same_data_strategy [OF same] by (auto simp: lru_list_def)
    moreover have "setPrioHigh i t = Inr t2" using head lru t1(1) t2(1) by (simp add: setPrioHigh_def)
    ultimately show ?thesis using same rest by (auto simp: move_to_front_def)
  qed
qed

lemma pickVictim_lru_last: "lru_list t xs \<Longrightarrow> pickVictim_lru t = Inr (last xs)"
  by (cases xs rule: rev_cases) (auto simp: lru_list_def pickVictim_lru_def)

lemma path_upt:
  assumes "\<And>j. a \<le> j \<Longrightarrow> j < b \<Longrightarrow> f j = (if Suc j < b then Some (Suc j) else None)" "a < b"
  shows "path f (Some a) [a..<b] None"
  using assms
proof (induction "b - a" arbitrary: a)
  case (Suc k)
  then show ?case
    by (cases "Suc a < b") (auto simp: upt_conv_Cons)
qed simp

lemma path_down:
  assumes "\<And>j. j < b \<Longrightarrow> f j = (if j = 0 then None else Some (j - 1))" "0 < b"
  shows "path f (Some (b - 1)) (rev [0..<b]) None"
  using assms
proof (induction b)
  case (Suc k)
  then show ?case by (cases "k = 0") auto
qed simp

lemma link_lines_frame [simp]:
  "tb_head (link_lines i t) = tb_head t" "tb_tail (link_lines i t) = tb_tail t"
  by (simp_all add: link_lines_def)

lemma link_lines_fold:
  assumes "k \<le> length (tb_lines t)"
  shows "same_data t (fold link_lines [1..<k] t) \<and> tb_head (fold link_lines [1..<k] t) = tb_head t
    \<and> tb_tail (fold link_lines [1..<k] t) = tb_tail t
    \<and> (\<forall>j. next_of (fold link_lines [1..<k] t) j = (if Suc j < k then Some (Suc j) else next_of t j))
    \<and> (\<forall>j. previous_of (fold link_lines [1..<k] t) j = (if 0 < j \<and> j < k then Some (j - 1) else previous_of t j))"
  using assms
proof (induction k)
  case (Suc k)
  show ?case
  proof (cases "k = 0")
    case False
    let ?t = "fold link_lines [1..<k] t"
    let ?f = "\<lambda>l. l\<lparr>ln_next := Some k\<rparr>" and ?g = "\<lambda>l. l\<lparr>ln_previous := Some (k - 1)\<rparr>"
    have IH: "same_data t ?t" "tb_head ?t = tb_head t" "tb_tail ?t = tb_tail t"
      "next_of ?t j = (if Suc j < k then Some (Suc j) else next_of t j)"
      "previous_of ?t j = (if 0 < j \<and> j < k then Some (j - 1) else previous_of t j)" for j
      using Suc by auto
    have len: "k < length (tb_lines ?t)" using same_data_length [OF IH(1)] Suc.prems by simp
    then have len': "k - 1 < length (tb_lines ?t)" by simp
    have "same_data ?t (modify_line (k - 1) ?f ?t)"
      "same_data (modify_line (k - 1) ?f ?t) (modify_line k ?g (modify_line (k - 1) ?f ?t))"
      using len by (auto intro!: same_data_modify simp: line_data_def)
    then have "same_data t (link_lines k ?t)" using IH(1) same_data_trans unfolding link_lines_def by blast
    moreover have "next_of (link_lines k ?t) j = (if Suc j < Suc k then Some (Suc j) else next_of t j)" for j
      using len len' IH(4) [of j] False unfolding link_lines_def
      by (auto simp: next_of_def modify_line_nth less_Suc_eq)
    moreover have "previous_of (link_lines k ?t) j = (if 0 < j \<and> j < Suc k then Some (j - 1) else previous_of t j)" for j
      using len len' IH(5) [of j] False unfolding link_lines_def
      by (auto simp: previous_of_def modify_line_nth less_Suc_eq)
    moreover have "tb_head (link_lines k ?t) = tb_head t" "tb_tail (link_lines k ?t) = tb_tail t"
      unfolding link_lines_frame by (rule IH)+
    moreover have "fold link_lines [1..<Suc k] t = link_lines k ?t" using False by simp
    ultimately show ?thesis by (simp only: if_True) blast
  qed simp
qed simp

lemma initStrategy_LRU:
  assumes "tb_evictionStrategy t = LRU" "tb_lines t \<noteq> []"
  shows "\<exists>t'. initStrategy t = Inr t' \<and> same_data t t' \<and> lru_list t' [0..<length (tb_lines t)]"
proof -
  let ?n = "length (tb_lines t)"
  let ?s = "t\<lparr>tb_head := Some 0, tb_tail := Some (?n - 1)\<rparr>"
  let ?s1 = "modify_line (?n - 1) (\<lambda>l. l\<lparr>ln_next := None\<rparr>) ?s"
  let ?s2 = "modify_line 0 (\<lambda>l. l\<lparr>ln_previous := None\<rparr>) ?s1"
  let ?t = "fold link_lines [1..<?n] ?s2"
  have n: "0 < ?n" using assms(2) by simp
  have s01: "same_data ?s ?s1" by (rule same_data_modify) (use n in \<open>simp_all add: line_data_def\<close>)
  have s12: "same_data ?s1 ?s2" by (rule same_data_modify) (use n in \<open>simp_all add: line_data_def\<close>)
  have "same_data t ?s" by simp
  then have s2: "same_data t ?s2" by (rule same_data_trans [OF same_data_trans [OF _ s01] s12])
  have ends: "next_of ?s2 (?n - 1) = None" "previous_of ?s2 0 = None"
    using n by (auto simp: next_of_def previous_of_def modify_line_nth)
  define u where "u = ?t"
  have f: "same_data ?s2 u" "tb_head u = Some 0" "tb_tail u = Some (?n - 1)"
    "next_of u j = (if Suc j < ?n then Some (Suc j) else next_of ?s2 j)"
    "previous_of u j = (if 0 < j \<and> j < ?n then Some (j - 1) else previous_of ?s2 j)" for j
    using link_lines_fold [of ?n ?s2] by (auto simp: u_def)
  have s: "same_data t u" using s2 f(1) by (rule same_data_trans)
  have "next_of u j = (if Suc j < ?n then Some (Suc j) else None)" if "j < ?n" for j
  proof (cases "Suc j = ?n")
    case True
    then have "?n - 1 = j" by simp
    then show ?thesis using f(4) [of j] ends(1) True by simp
  qed (use that f(4) [of j] in simp)
  then have "path (next_of u) (Some 0) [0..<?n] None" using n by (intro path_upt) simp_all
  moreover have "previous_of u j = (if j = 0 then None else Some (j - 1))" if "j < ?n" for j
    using that f(5) [of j] ends(2) by simp
  then have "path (previous_of u) (Some (?n - 1)) (rev [0..<?n]) None" using n by (intro path_down) simp_all
  ultimately have "lru_list u [0..<?n]"
    using n f(2,3) same_data_length [OF s] same_data_strategy [OF s] assms(1) by (auto simp: lru_list_def)
  moreover have "initStrategy t = Inr u" using assms(1) by (simp add: initStrategy_def Let_def u_def)
  ultimately show ?thesis using s by blast
qed

lemma lru_modify:
  assumes "lru_list t xs" "\<And>l. ln_next (f l) = ln_next l" "\<And>l. ln_previous (f l) = ln_previous l"
  shows "lru_list (modify_line i f t) xs"
proof (cases "i < length (tb_lines t)")
  case True
  then have "next_of (modify_line i f t) = next_of t" "previous_of (modify_line i f t) = previous_of t"
    using assms(2,3) by (auto simp: next_of_def previous_of_def fun_eq_iff modify_line_nth)
  then show ?thesis using assms(1) by (simp add: lru_list_def)
next
  case False
  then have "modify_line i f t = t" by (simp add: modify_line_def list_update_beyond not_less)
  then show ?thesis using assms(1) by simp
qed

definition lru_state :: "nat \<Rightarrow> Table \<Rightarrow> nat list \<Rightarrow> bool" where
  "lru_state n t xs \<longleftrightarrow> lru_list t xs \<and> length (tb_lines t) = n"

lemma lru_commit:
  assumes "lru_state n t xs" "\<And>l. ln_next (f l) = ln_next l" "\<And>l. ln_previous (f l) = ln_previous l"
  shows "lru_state n (COMMIT ph (modify_line i f) t) xs"
  using lru_modify [OF _ assms(2,3), of t xs i] assms(1) by (simp add: COMMIT_def lru_state_def)

lemma lru_freeLine: "freeLine ph i t = Inr t' \<Longrightarrow> lru_state n t xs \<Longrightarrow> lru_state n t' xs"
  by (auto simp: freeLine_def lru_commit split: if_splits)

section \<open>Runs of the operations of a table\<close>

datatype table_op =
    Lookup_op RAddr RAddr LineTag
  | StorePending_op RAddr RAddr
  | FillPending_op RAddr bool bool RAddr RAddr
  | ReleasePending_op RAddr
  | StoreNormal_op RAddr RAddr RAddr bool bool
  | FreeAll_op
  | Free_op RAddr "RAddr option"

text \<open>The lines that lookups found, in order, and the table after the operations.\<close>

fun table_step :: "CyclePhase \<times> table_op \<Rightarrow> Table \<Rightarrow> (nat list \<times> Table) res" where
  "table_step (ph, Lookup_op c v tag) t =
     res_bind (Table_lookup c v tag t) (\<lambda>(r, t). Inr (case r of None \<Rightarrow> [] | Some i \<Rightarrow> [i], t))"
| "table_step (ph, StorePending_op c v) t = res_bind (storePending ph c v t) (\<lambda>(_, t). Inr ([], t))"
| "table_step (ph, FillPending_op i rd wr pa d) t =
     res_bind (fillPending ph i rd wr pa d t) (\<lambda>(_, _, t). Inr ([], t))"
| "table_step (ph, ReleasePending_op i) t = res_bind (releasePending ph i t) (\<lambda>t. Inr ([], t))"
| "table_step (ph, StoreNormal_op c v pa rd wr) t =
     res_bind (storeNormal ph c v pa rd wr t) (\<lambda>(_, t). Inr ([], t))"
| "table_step (ph, FreeAll_op) t = res_bind (freeLines ph t) (\<lambda>t. Inr ([], t))"
| "table_step (ph, Free_op c v) t = res_bind (freeLines_of ph c v t) (\<lambda>t. Inr ([], t))"

fun table_run :: "(CyclePhase \<times> table_op) list \<Rightarrow> Table \<Rightarrow> (nat list \<times> Table) res" where
  "table_run [] t = Inr ([], t)"
| "table_run (p # ops) t = res_bind (table_step p t) (\<lambda>(h, t).
     res_bind (table_run ops t) (\<lambda>(hs, t). Inr (h @ hs, t)))"

lemma Table_find_Some: "Table_find p t = Some i \<Longrightarrow> i < length (tb_lines t) \<and> p (tb_lines t ! i)"
  using find_index_nth [of p "tb_lines t"] find_index_le [of p "tb_lines t"]
  by (auto simp: Table_find_def Let_def le_less split: if_splits)

lemma Table_lookup_lru:
  assumes "lru_state n t xs" "Table_lookup c v tag t = Inr (r, t')"
  shows "lru_state n t' (fold move_to_front (case r of None \<Rightarrow> [] | Some i \<Rightarrow> [i]) xs)
    \<and> (\<forall>i. r = Some i \<longrightarrow> i < n)"
proof (cases r)
  case None
  then show ?thesis using assms
    by (auto simp: Table_lookup_def res_bind_Inr split: option.splits)
next
  case (Some i)
  then obtain l where l: "Table_find_address c v tag t = Inr (Some i)" "setPrioHigh i t = Inr t'"
    using assms(2) by (auto simp: Table_lookup_def res_bind_Inr split: option.splits)
  then have "i < length (tb_lines t)" using Table_find_Some by (auto simp: Table_find_address_def res_bind_Inr)
  with setPrioHigh_LRU [of t xs i] same_data_length [of t t'] l(2) Some assms(1) show ?thesis
    by (auto simp: lru_state_def)
qed

lemma table_step_lru:
  assumes "lru_state n t xs" "table_step (ph, a) t = Inr (h, t')"
  shows "lru_state n t' (fold move_to_front h xs)"
  using assms
proof (cases a)
  case (Lookup_op c v tag)
  then show ?thesis using assms Table_lookup_lru by (auto simp: res_bind_Inr)
next
  case FreeAll_op
  then obtain u where u: "freeLines ph t = Inr u" "h = []" "t' = u" using assms by (auto simp: res_bind_Inr)
  have "lru_state n u xs"
    using u(1) assms(1) unfolding freeLines_def by (rule res_fold_invariant) (rule lru_freeLine)
  then show ?thesis using u by simp
next
  case (Free_op c v)
  then obtain u where u: "freeLines_of ph c v t = Inr u" "h = []" "t' = u" using assms by (auto simp: res_bind_Inr)
  have "lru_state n u xs"
    using u(1) assms(1) unfolding freeLines_of_def
    by (rule res_fold_invariant) (auto split: if_splits intro: lru_freeLine)
  then show ?thesis using u by simp
qed (auto simp: res_bind_Inr storePending_def fillPending_def releasePending_def storeNormal_def Let_def lru_commit
    split: if_splits intro: lru_freeLine lru_commit)

lemma table_run_lru:
  "lru_state n t xs \<Longrightarrow> table_run ops t = Inr (hs, t') \<Longrightarrow> lru_state n t' (fold move_to_front hs xs)"
proof (induction ops arbitrary: t xs hs)
  case (Cons p ops)
  then obtain h t1 hs1 where "table_step p t = Inr (h, t1)" "table_run ops t1 = Inr (hs1, t')" "hs = h @ hs1"
    by (auto simp: res_bind_Inr)
  then show ?case using Cons.IH [of t1 "fold move_to_front h xs" hs1] table_step_lru [of n t xs "fst p" "snd p" h t1] Cons.prems
    by simp
qed simp

section \<open>The victim\<close>

lemma distinct_move_to_front: "distinct xs \<Longrightarrow> distinct (move_to_front i xs)"
  by (simp add: move_to_front_def distinct_remove1)

lemma distinct_mru: "distinct xs \<Longrightarrow> distinct (fold move_to_front hs xs)"
  by (induction hs arbitrary: xs) (simp_all add: distinct_move_to_front)

lemma subseq_remove1: "distinct xs \<Longrightarrow> subseq (remove1 i xs) xs"
  by (simp add: distinct_remove1_removeAll removeAll_filter_not_eq)

text \<open>If \<open>i\<close> is in front of \<open>j\<close>, it was found after the last time that \<open>j\<close> was found.\<close>

lemma mru_order:
  assumes "distinct xs" "subseq [i, j] (fold move_to_front hs xs)" "j \<in> set hs"
  shows "\<exists>h1 h2. hs = h1 @ j # h2 \<and> j \<notin> set h2 \<and> i \<in> set h2"
  using assms
proof (induction hs rule: rev_induct)
  case (snoc h hs)
  let ?o = "fold move_to_front hs xs"
  have d: "distinct ?o" using snoc.prems(1) by (rule distinct_mru)
  have "fold move_to_front (hs @ [h]) xs = h # remove1 h ?o" by (simp add: move_to_front_def [of h ?o])
  then have sub: "subseq [i, j] (h # remove1 h ?o)" using snoc.prems(2) by metis
  have "j \<in> set (remove1 h ?o)"
  proof (cases "i = h")
    case True
    then show ?thesis using sub by (simp add: subseq_singleton_left)
  next
    case False
    then have "subseq [i, j] (remove1 h ?o)" using sub by simp
    then have "subseq [j] (remove1 h ?o)" by (rule subseq_Cons')
    then show ?thesis by (simp add: subseq_singleton_left)
  qed
  then have j: "j \<noteq> h" using d by auto
  then have hs: "j \<in> set hs" using snoc.prems(3) by simp
  show ?case
  proof (cases "i = h")
    case True
    from split_list_last [OF hs] obtain h1 h2 where "hs = h1 @ j # h2" "j \<notin> set h2" by auto
    then have "hs @ [h] = h1 @ j # (h2 @ [h])" "j \<notin> set (h2 @ [h])" "i \<in> set (h2 @ [h])" using True j by auto
    then show ?thesis by blast
  next
    case False
    then have "subseq [i, j] (remove1 h ?o)" using sub by simp
    then have "subseq [i, j] ?o" using subseq_remove1 [OF d] by (rule subseq_order.order_trans)
    then obtain h1 h2 where "hs = h1 @ j # h2" "j \<notin> set h2" "i \<in> set h2"
      using snoc.IH [OF snoc.prems(1) _ hs] by blast
    then have "hs @ [h] = h1 @ j # (h2 @ [h])" "j \<notin> set (h2 @ [h])" "i \<in> set (h2 @ [h])" using j by auto
    then show ?thesis by blast
  qed
qed simp

lemma mru_last:
  assumes "distinct xs" "xs \<noteq> []" "fold move_to_front hs xs = ys @ [v]" "i \<in> set ys" "v \<in> set hs"
  shows "\<exists>h1 h2. hs = h1 @ v # h2 \<and> v \<notin> set h2 \<and> i \<in> set h2"
proof (rule mru_order [OF assms(1) _ assms(5)])
  have "subseq ([i] @ [v]) (ys @ [v])" using assms(4) by (intro list_emb_append_mono) (simp_all add: subseq_singleton_left)
  then show "subseq [i, v] (fold move_to_front hs xs)" by (simp add: assms(3))
qed

lemma Table_new_LRU:
  assumes "Table_new vAW pAW contextAW off n ''LRU'' = Some (Inr t)"
  shows "lru_list t [0..<n] \<and> length (tb_lines t) = n \<and> tb_vWidth t = vAW - ucast off \<and> tb_contextWidth t = contextAW"
proof -
  obtain l w where n: "n \<noteq> 0" and init: "initStrategy \<lparr>tb_offsetWidth = ucast off, tb_vWidth = vAW - ucast off,
      tb_pWidth = pAW - ucast off, tb_contextWidth = contextAW, tb_evictionStrategy = LRU,
      tb_lines = replicate n l, tb_head = None, tb_tail = None, tb_indexWidth = of_nat w\<rparr> = Inr t"
    (is "initStrategy ?t = _")
    using assms by (auto simp: Table_new_def Let_def getEvictionStrategy_def split: sum.splits if_splits)
  have "tb_lines ?t \<noteq> []" using n by simp
  from initStrategy_LRU [OF _ this] init have t: "same_data ?t t" "lru_list t [0..<n]" by auto
  then show ?thesis using same_data_length [OF t(1)] same_data_widths [OF t(1)] by auto
qed

text \<open>
  C38. A translation table with the strategy LRU evicts the line used least recently. After any run
  of lookups, stores, refills and invalidations of a new table, in any phases of the cycle, the
  victim is a line that either no lookup found, or after whose last hit every other
  line was hit; a new address goes to the first free line, to the victim when there is none, and no
  lookup follows a null pointer.
\<close>

theorem LRU_evicts_least_recent:
  assumes "Table_new vAW pAW contextAW off n ''LRU'' = Some (Inr t0)"
    and "table_run ops t0 = Inr (hits, t)"
  shows "\<exists>v. pickVictim_lru t = Inr v \<and> v < n
    \<and> (\<forall>i<n. i \<noteq> v \<and> v \<in> set hits \<longrightarrow> (\<exists>h1 h2. hits = h1 @ v # h2 \<and> v \<notin> set h2 \<and> i \<in> set h2))
    \<and> pickDestination t = Inr (case Table_find_tag TAG_FREE t of Some i \<Rightarrow> i | None \<Rightarrow> v)
    \<and> (\<forall>i<n. \<exists>t'. setPrioHigh i t = Inr t')"
proof -
  have new: "lru_state n t0 [0..<n]" using Table_new_LRU [OF assms(1)] by (simp add: lru_state_def)
  have lru: "lru_state n t (fold move_to_front hits [0..<n])" using new assms(2) by (rule table_run_lru)
  have n: "[0..<n] \<noteq> []" using new by (simp add: lru_state_def lru_list_def)
  obtain ys v where ys: "fold move_to_front hits [0..<n] = ys @ [v]"
    using lru by (cases "fold move_to_front hits [0..<n]" rule: rev_cases) (auto simp: lru_state_def lru_list_def)
  have v: "pickVictim_lru t = Inr v" "tb_evictionStrategy t = LRU"
    using lru pickVictim_lru_last [of t "ys @ [v]"] by (auto simp: lru_state_def ys lru_list_def)
  have "set (ys @ [v]) = {..<n}" using lru unfolding ys lru_state_def lru_list_def by simp
  then have "v < n" and others: "\<And>i. i < n \<Longrightarrow> i \<noteq> v \<Longrightarrow> i \<in> set ys" by auto
  moreover have "\<exists>h1 h2. hits = h1 @ v # h2 \<and> v \<notin> set h2 \<and> i \<in> set h2" if "i < n" "i \<noteq> v" "v \<in> set hits" for i
    using mru_last [OF _ n ys others [OF that(1,2)] that(3)] by simp
  moreover have "\<exists>t'. setPrioHigh i t = Inr t'" if "i < n" for i
    using setPrioHigh_LRU [of t _ i] lru that unfolding lru_state_def by blast
  ultimately show ?thesis using v by (auto simp: pickDestination_def split: option.split)
qed

definition lru_example :: Table where
  "lru_example =
     (let line = (\<lambda>p n. \<lparr>ln_present = False, ln_locked = False, ln_accessed = False, ln_previous = p, ln_next = n,
        ln_contextId = \<lparr>m_value = 0, m_width = 8\<rparr>, ln_vAddr = \<lparr>m_value = 0, m_width = 20\<rparr>,
        ln_pAddr = \<lparr>m_value = 0, m_width = 28\<rparr>, ln_dlineRef = 0, ln_read = False, ln_write = False\<rparr>)
      in \<lparr>tb_offsetWidth = 12, tb_vWidth = 20, tb_pWidth = 28, tb_contextWidth = 8, tb_evictionStrategy = LRU,
        tb_lines = [line None (Some 1), line (Some 0) None], tb_head = Some 0, tb_tail = Some 1, tb_indexWidth = 1\<rparr>)"

definition lru_example_ops :: "(CyclePhase \<times> table_op) list" where
  "lru_example_ops =
     (let c = \<lparr>m_value = 3, m_width = 8\<rparr>; v = \<lparr>m_value = 5, m_width = 20\<rparr>; w = \<lparr>m_value = 9, m_width = 20\<rparr>;
          d = \<lparr>m_value = 0, m_width = 0\<rparr>; p = \<lparr>m_value = 7, m_width = 28\<rparr>
      in map (Pair PHASE_COMMIT)
        [StorePending_op c v, StorePending_op c w,
         FillPending_op \<lparr>m_value = 0, m_width = 1\<rparr> True False p d,
         FillPending_op \<lparr>m_value = 1, m_width = 1\<rparr> True True p d,
         Lookup_op c w TAG_INDEXABLE, Lookup_op c v TAG_INDEXABLE, Lookup_op c v TAG_INDEXABLE])"

lemma lru_example_new: "Table_new 32 40 8 12 2 ''LRU'' = Some (Inr lru_example)"
proof -
  have "ilog2 (2 :: u64) = Some 1" using ilog2_exp [of 1, where 'a = 64] by simp
  moreover have "replicate 2 l = [l, l]" for l :: Line by (simp add: numeral_2_eq_2)
  moreover have "[Suc 0..<2] = [1]" by (simp add: numeral_2_eq_2)
  ultimately show ?thesis
    by (simp add: Table_new_def Let_def getEvictionStrategy_def Line_new_def RAddr_new_ok initStrategy_def
        link_lines_def modify_line_def lru_example_def)
qed

lemma lru_example_run: "map_sum id fst (table_run lru_example_ops lru_example) = Inr [1, 0, 0]"
  by code_simp

theorem LRU_evicts_least_recent_witness:
  "\<exists>t. table_run lru_example_ops lru_example = Inr ([1, 0, 0], t) \<and> pickVictim_lru t = Inr 1"
proof -
  obtain t where t: "table_run lru_example_ops lru_example = Inr ([1, 0, 0], t)"
    using lru_example_run by (cases "table_run lru_example_ops lru_example") auto
  obtain v where v: "pickVictim_lru t = Inr v" "v < 2"
    "\<forall>i<2. i \<noteq> v \<and> v \<in> set [1, 0, 0] \<longrightarrow> (\<exists>h1 h2. [1, 0, 0] = h1 @ v # h2 \<and> v \<notin> set h2 \<and> i \<in> set h2)"
    using LRU_evicts_least_recent [OF lru_example_new t] by blast
  have "v \<noteq> 0"
  proof
    assume "v = 0"
    then obtain h1 h2 where h: "[1, 0, 0 :: nat] = h1 @ 0 # h2" "0 \<notin> set h2" "1 \<in> set h2"
      using v(3)[rule_format, of 1] by auto
    then show False by (cases h1; cases "tl h1"; cases "tl (tl h1)") auto
  qed
  then have "v = 1" using v(2) by simp
  then show ?thesis using t v(1) by blast
qed

end
