(* ===== verification/Storages.thy ===== *)
theory Storages
  imports Prelude
begin

text \<open>
  The two-phase storages of the simulator kernel: \<open>Buffer\<close> (sim/buffer.h, sim/buffer.hpp),
  \<open>Register\<close> (sim/register.h, sim/register.hpp) and \<open>Flag\<close> (sim/flag.h, sim/flag.hpp,
  sim/flag.cpp). A process reads the state of the previous cycle and stages its changes; the
  kernel calls \<open>Update\<close> between the cycles. The interface \<open>fifo_storage\<close> is the contract of a
  queue with such an update; \<open>Buffer\<close> provides it here, \<open>LinkedList\<close> in theory
  \<open>Linked_List\<close>.
\<close>

section \<open>The contract of a two-phase queue\<close>

text \<open>
  \<open>rep s xs st p\<close>: the contents visible in this cycle are \<open>xs\<close>, the items staged for the back
  are \<open>st\<close>, and \<open>p\<close> tells whether the front item is to be removed. \<open>ready s x\<close> says that
  \<open>s\<close> takes the item \<open>x\<close> in this cycle.
\<close>

locale fifo_storage =
  fixes rep :: "'s \<Rightarrow> 'a list \<Rightarrow> 'a list \<Rightarrow> bool \<Rightarrow> bool"
    and ready :: "'s \<Rightarrow> 'a \<Rightarrow> bool"
    and front :: "'s \<Rightarrow> 'a res"
    and push :: "'s \<Rightarrow> 'a \<Rightarrow> 's res"
    and pop :: "'s \<Rightarrow> 's res"
    and update :: "'s \<Rightarrow> (notification list \<times> 's) res"
  assumes front_law: "rep s (x # xs) st p \<Longrightarrow> front s = Inr x"
    and push_law: "rep s xs st p \<Longrightarrow> ready s x \<Longrightarrow> \<exists>s'. push s x = Inr s' \<and> rep s' xs (st @ [x]) p"
    and pop_law: "rep s (x # xs) st False \<Longrightarrow> \<exists>s'. pop s = Inr s' \<and> rep s' (x # xs) st True"
    and pop_ready: "pop s = Inr s' \<Longrightarrow> ready s x \<Longrightarrow> ready s' x"
    and update_law: "rep s xs st p \<Longrightarrow> p \<longrightarrow> xs \<noteq> [] \<Longrightarrow>
      \<exists>ev s'. update s = Inr (ev, s')
        \<and> rep s' ((if p then tl xs else xs) @ st) [] False
        \<and> activations ev = of_bool ((if p then tl xs else xs) @ st \<noteq> []) - of_bool (xs \<noteq> [])"
begin

text \<open>What is staged is invisible until the update.\<close>

lemma front_stable:
  assumes "rep s (x # xs) st False" and "ready s y"
  shows "\<exists>s1 s2. pop s = Inr s1 \<and> push s1 y = Inr s2 \<and> front s1 = Inr x \<and> front s2 = Inr x"
proof -
  obtain s1 where s1: "pop s = Inr s1" "rep s1 (x # xs) st True"
    using pop_law [OF assms(1)] by blast
  have "ready s1 y" using pop_ready [OF s1(1) assms(2)] .
  then obtain s2 where "push s1 y = Inr s2" "rep s2 (x # xs) (st @ [y]) True"
    using push_law [OF s1(2)] by blast
  with s1 show ?thesis using front_law by blast
qed

text \<open>A cycle that pops and pushes: the front leaves, the item is last, and the activations sent
  keep the process active exactly while the queue holds something.\<close>

lemma pop_push_cycle:
  assumes "rep s (x # xs) [] False" and "ready s y"
  shows "\<exists>s1 s2 ev s3. pop s = Inr s1 \<and> push s1 y = Inr s2 \<and> update s2 = Inr (ev, s3)
    \<and> rep s3 (xs @ [y]) [] False \<and> activations ev = 0"
proof -
  obtain s1 where s1: "pop s = Inr s1" "rep s1 (x # xs) [] True"
    using pop_law [OF assms(1)] by blast
  have "ready s1 y" using pop_ready [OF s1(1) assms(2)] .
  then obtain s2 where s2: "push s1 y = Inr s2" "rep s2 (x # xs) [y] True"
    using push_law [OF s1(2)] by force
  have "\<exists>ev s3. update s2 = Inr (ev, s3) \<and> rep s3 (xs @ [y]) [] False \<and> activations ev = 0"
    using update_law [OF s2(2)] by simp
  with s1 s2 show ?thesis by blast
qed

text \<open>
  The number of activations that reached the process: a run of updates, each from a represented
  state, sums up to one activation exactly when the last state is not empty.
\<close>

lemma update_activation:
  assumes "rep s xs st p" and "p \<longrightarrow> xs \<noteq> []" and "update s = Inr (ev, s')"
    and "acts = of_bool (xs \<noteq> [])"
  shows "rep s' ((if p then tl xs else xs) @ st) [] False
    \<and> acts + activations ev = of_bool ((if p then tl xs else xs) @ st \<noteq> [])"
  using update_law [OF assms(1,2)] assms(3,4) by auto

end

section \<open>Buffer\<close>

text \<open>
  \<open>m_new[0 .. m_pushes)\<close> is the list \<open>b_new\<close>, so \<open>m_pushes\<close> is its length. Sizes are the
  lengths of containers in memory and are natural numbers; the statistics wrap at 64 bits as
  \<open>uint64_t\<close> does. \<open>b_activated\<close> is \<open>Storage::m_activated\<close>.
\<close>

definition INFINITE :: nat where
  "INFINITE = 2 ^ 64 - 1"

definition MAX_PUSHES :: nat where
  "MAX_PUSHES = 4"

record 'a buffer =
  b_maxSize :: nat
  b_maxPushes :: nat
  b_data :: "'a list"
  b_new :: "'a list"
  b_popped :: bool
  b_activated :: bool
  b_stalls :: u64
  b_lastcycle :: u64
  b_totalsize :: u64
  b_maxeffsize :: nat
  b_cursize :: nat

definition buffer_init :: "nat \<Rightarrow> nat \<Rightarrow> 'a buffer res" where
  "buffer_init maxSize maxPushes = assert_that (maxPushes \<le> MAX_PUSHES)
     (Inr \<lparr>b_maxSize = maxSize, b_maxPushes = maxPushes, b_data = [], b_new = [],
           b_popped = False, b_activated = False, b_stalls = 0, b_lastcycle = 0,
           b_totalsize = 0, b_maxeffsize = 0, b_cursize = 0\<rparr>)"

definition buffer_Empty :: "'a buffer \<Rightarrow> bool" where
  "buffer_Empty b = (b_data b = [])"

definition buffer_Front :: "'a buffer \<Rightarrow> 'a res" where
  "buffer_Front b = (case b_data b of [] \<Rightarrow> Inl AssertionFailure | x # _ \<Rightarrow> Inr x)"

text \<open>\<open>clk\<close>: the active clock is the clock of the buffer (\<open>CheckClocks\<close>).\<close>

definition buffer_Pop :: "CyclePhase \<Rightarrow> bool \<Rightarrow> 'a buffer \<Rightarrow> 'a buffer res" where
  "buffer_Pop ph clk b = assert_that clk (assert_that (\<not> b_popped b)
     (Inr (COMMIT ph (\<lambda>b. b\<lparr>b_popped := True, b_activated := True\<rparr>) b)))"

definition buffer_Push :: "CyclePhase \<Rightarrow> bool \<Rightarrow> 'a \<Rightarrow> nat \<Rightarrow> 'a buffer \<Rightarrow> (bool \<times> 'a buffer) res" where
  "buffer_Push ph clk item min_space b =
     (if min_space < 1 then Inl AssertionFailure
      else if b_maxPushes b \<noteq> 1 \<and> \<not> clk then Inl AssertionFailure
      else if b_maxPushes b \<noteq> 1 \<and> \<not> length (b_new b) < b_maxPushes b then Inl AssertionFailure
      else if b_maxPushes b = 1 \<and> length (b_new b) = 1 then Inr (False, b)
      else if b_maxSize b = INFINITE
              \<or> length (b_data b) + length (b_new b) + min_space \<le> b_maxSize b
        then Inr (True, COMMIT ph (\<lambda>b. b\<lparr>b_new := b_new b @ [item],
               b_activated := (if b_new b = [] then True else b_activated b)\<rparr>) b)
      else if ph = PHASE_ACQUIRE then Inr (False, b\<lparr>b_stalls := b_stalls b + 1\<rparr>)
      else Inr (False, b))"

text \<open>Removing the front of an empty \<open>std::deque\<close> is undefined. \<open>cycle\<close> is the kernel's
  cycle counter.\<close>

definition buffer_Update :: "u64 \<Rightarrow> 'a buffer \<Rightarrow> (notification list \<times> 'a buffer) res" where
  "buffer_Update cycle b =
     (let n1 = (if b_new b \<noteq> [] \<and> b_data b = [] then [Notify] else []);
          data1 = b_data b @ b_new b
      in if b_popped b \<and> data1 = [] then Inl UndefinedBehaviour
         else let data2 = (if b_popped b then tl data1 else data1);
                  n2 = (if b_popped b \<and> data2 = [] then [Unnotify] else []);
                  elapsed = cycle - b_lastcycle b
              in Inr (n1 @ n2, b\<lparr>b_data := data2, b_new := [], b_popped := False,
                   b_lastcycle := cycle, b_cursize := length data2,
                   b_totalsize := b_totalsize b + of_nat (length data2) * elapsed,
                   b_maxeffsize := max (b_maxeffsize b) (length data2)\<rparr>))"

lemmas buffer_defs [sim_defs] = buffer_Empty_def buffer_Front_def buffer_Pop_def
  buffer_Push_def buffer_Update_def

text \<open>The invariant: staged changes fit and are registered for the update round.\<close>

definition buffer_inv :: "'a buffer \<Rightarrow> bool" where
  "buffer_inv b \<longleftrightarrow>
     1 \<le> b_maxPushes b \<and> b_maxPushes b \<le> MAX_PUSHES \<and> length (b_new b) \<le> b_maxPushes b
     \<and> (b_maxSize b \<noteq> INFINITE \<longrightarrow> length (b_data b) + length (b_new b) \<le> b_maxSize b)
     \<and> (b_new b \<noteq> [] \<or> b_popped b \<longrightarrow> b_activated b)"

definition buffer_rep :: "'a buffer \<Rightarrow> 'a list \<Rightarrow> 'a list \<Rightarrow> bool \<Rightarrow> bool" where
  "buffer_rep b xs st p \<longleftrightarrow>
     buffer_inv b \<and> b_data b = xs \<and> b_new b = st \<and> b_popped b = p"

definition buffer_ready :: "'a buffer \<Rightarrow> 'a \<Rightarrow> bool" where
  "buffer_ready b x \<longleftrightarrow> length (b_new b) < b_maxPushes b
     \<and> (b_maxSize b = INFINITE \<or> length (b_data b) + length (b_new b) + 1 \<le> b_maxSize b)"

lemma buffer_init_inv:
  "1 \<le> mp \<Longrightarrow> buffer_init ms mp = Inr b \<Longrightarrow> buffer_inv b"
  by (auto simp: buffer_init_def buffer_inv_def)

text \<open>What a push can do: nothing, count a stall, or stage the item.\<close>

lemma buffer_Push_cases:
  assumes "buffer_inv b" and "buffer_Push ph clk x n b = Inr (r, b')"
  obtains "b' = b" "\<not> (r \<and> ph = PHASE_COMMIT)"
  | "b' = b\<lparr>b_stalls := b_stalls b + 1\<rparr>" "\<not> (r \<and> ph = PHASE_COMMIT)"
  | "r" "ph = PHASE_COMMIT" "length (b_new b) < b_maxPushes b"
    "b_maxSize b = INFINITE \<or> length (b_data b) + length (b_new b) + 1 \<le> b_maxSize b"
    "b' = b\<lparr>b_new := b_new b @ [x],
        b_activated := (if b_new b = [] then True else b_activated b)\<rparr>"
proof -
  have len: "length (b_new b) < b_maxPushes b"
    if "b_maxPushes b \<noteq> 1 \<longrightarrow> length (b_new b) < b_maxPushes b"
      "\<not> (b_maxPushes b = 1 \<and> length (b_new b) = 1)"
    using that assms(1) unfolding buffer_inv_def by linarith
  show thesis
  proof (cases "n < 1 \<or> (b_maxPushes b \<noteq> 1 \<and> (\<not> clk \<or> \<not> length (b_new b) < b_maxPushes b))
      \<or> (b_maxPushes b = 1 \<and> length (b_new b) = 1)")
    case True
    then have "b' = b" "\<not> (r \<and> ph = PHASE_COMMIT)"
      using assms(2) by (auto simp: buffer_Push_def split: if_splits)
    then show thesis by (rule that(1))
  next
    case False
    then have lt: "length (b_new b) < b_maxPushes b" using len by blast
    have eq: "(if b_maxSize b = INFINITE
              \<or> length (b_data b) + length (b_new b) + n \<le> b_maxSize b
        then Inr (True, COMMIT ph (\<lambda>b. b\<lparr>b_new := b_new b @ [x],
               b_activated := (if b_new b = [] then True else b_activated b)\<rparr>) b)
      else if ph = PHASE_ACQUIRE then Inr (False, b\<lparr>b_stalls := b_stalls b + 1\<rparr>)
      else Inr (False, b)) = (Inr (r, b') :: (bool \<times> 'a buffer) res)"
    proof -
      have "\<not> n < 1" "\<not> (b_maxPushes b \<noteq> 1 \<and> \<not> clk)"
        "\<not> (b_maxPushes b \<noteq> 1 \<and> \<not> length (b_new b) < b_maxPushes b)"
        "\<not> (b_maxPushes b = 1 \<and> length (b_new b) = 1)"
        using False by blast+
      then show ?thesis using assms(2) unfolding buffer_Push_def by (simp only: if_False)
    qed
    show thesis
    proof (cases "b_maxSize b = INFINITE \<or> length (b_data b) + length (b_new b) + n \<le> b_maxSize b")
      case True
      then have fits: "b_maxSize b = INFINITE
          \<or> length (b_data b) + length (b_new b) + 1 \<le> b_maxSize b"
        using False by linarith
      from eq True have "r" and b': "b' = COMMIT ph (\<lambda>b. b\<lparr>b_new := b_new b @ [x],
               b_activated := (if b_new b = [] then True else b_activated b)\<rparr>) b"
        by simp_all
      then show thesis using that(1,3) lt fits by (cases ph) simp_all
    next
      case False
      then show thesis using eq that(1,2) by (simp split: if_splits)
    qed
  qed
qed

lemma buffer_Push_inv:
  assumes "buffer_inv b" and "buffer_Push ph clk x n b = Inr (r, b')"
  shows "buffer_inv b'"
  using assms by (cases rule: buffer_Push_cases) (use assms(1) in \<open>auto simp: buffer_inv_def\<close>)

lemma buffer_Pop_inv: "buffer_inv b \<Longrightarrow> buffer_Pop ph clk b = Inr b' \<Longrightarrow> buffer_inv b'"
  by (cases ph) (auto simp: buffer_Pop_def buffer_inv_def)

lemma buffer_Update_inv: "buffer_inv b \<Longrightarrow> buffer_Update c b = Inr (ev, b') \<Longrightarrow> buffer_inv b'"
  by (auto simp: buffer_Update_def buffer_inv_def Let_def split: if_splits)

text \<open>
  A run of the buffer in the simulator: handlers push in any phase, or read the front and pop
  it, and the kernel updates a buffer that is registered for the update round.
  \<open>buffer_run ms mp ins outs acts b\<close>: \<open>ins\<close> are the items whose push was committed, \<open>outs\<close> the
  items whose pop was committed and \<open>acts\<close> the activations the sensitive process holds.
\<close>

inductive buffer_run :: "nat \<Rightarrow> nat \<Rightarrow> 'a list \<Rightarrow> 'a list \<Rightarrow> int \<Rightarrow> 'a buffer \<Rightarrow> bool"
  for ms mp where
  start: "buffer_init ms mp = Inr b \<Longrightarrow> buffer_run ms mp [] [] 0 b"
| push: "buffer_run ms mp ins outs acts b \<Longrightarrow> buffer_Push ph clk x n b = Inr (r, b') \<Longrightarrow>
    buffer_run ms mp (if r \<and> ph = PHASE_COMMIT then ins @ [x] else ins) outs acts b'"
| pop: "buffer_run ms mp ins outs acts b \<Longrightarrow> buffer_Front b = Inr x \<Longrightarrow>
    buffer_Pop ph clk b = Inr b' \<Longrightarrow>
    buffer_run ms mp ins (if ph = PHASE_COMMIT then outs @ [x] else outs) acts b'"
| update: "buffer_run ms mp ins outs acts b \<Longrightarrow> b_activated b \<Longrightarrow>
    buffer_Update c b = Inr (ev, b') \<Longrightarrow>
    buffer_run ms mp ins outs (acts + activations ev) (b'\<lparr>b_activated := False\<rparr>)"

definition buffer_trace_ok :: "nat \<Rightarrow> 'a list \<Rightarrow> 'a list \<Rightarrow> int \<Rightarrow> 'a buffer \<Rightarrow> bool" where
  "buffer_trace_ok ms ins outs acts b \<longleftrightarrow> buffer_inv b \<and> b_maxSize b = ms
     \<and> (b_popped b \<longrightarrow> b_data b \<noteq> [])
     \<and> ins = outs @ (if b_popped b then tl (b_data b) else b_data b) @ b_new b
     \<and> acts = of_bool (b_data b \<noteq> [])"

lemma buffer_trace_push:
  assumes ok: "buffer_trace_ok ms ins outs acts b" and P: "buffer_Push ph clk x n b = Inr (r, b')"
  shows "buffer_trace_ok ms (if r \<and> ph = PHASE_COMMIT then ins @ [x] else ins) outs acts b'"
proof -
  have inv: "buffer_inv b" using ok by (simp add: buffer_trace_ok_def)
  have inv': "buffer_inv b'" by (rule buffer_Push_inv [OF inv P])
  from inv P show ?thesis
    by (cases rule: buffer_Push_cases) (use ok inv' in \<open>simp_all add: buffer_trace_ok_def\<close>)
qed

lemma buffer_trace_pop:
  assumes "buffer_trace_ok ms ins outs acts b" and "buffer_Front b = Inr x"
    and "buffer_Pop ph clk b = Inr b'"
  shows "buffer_trace_ok ms ins (if ph = PHASE_COMMIT then outs @ [x] else outs) acts b'"
  using assms by (cases ph; cases "b_data b")
    (auto simp: buffer_trace_ok_def buffer_inv_def buffer_Front_def buffer_Pop_def)

lemma buffer_trace_update:
  assumes ok: "buffer_trace_ok ms ins outs acts b" and U: "buffer_Update c b = Inr (ev, b')"
  shows "buffer_trace_ok ms ins outs (acts + activations ev) (b'\<lparr>b_activated := False\<rparr>)"
proof (cases "b_data b")
  case Nil
  with ok U show ?thesis
    by (auto simp: buffer_trace_ok_def buffer_inv_def buffer_Update_def Let_def)
next
  case (Cons x xs)
  with ok U show ?thesis
    by (auto simp: buffer_trace_ok_def buffer_inv_def buffer_Update_def Let_def)
qed

lemma buffer_run_ok:
  "buffer_run ms mp ins outs acts b \<Longrightarrow> 1 \<le> mp \<Longrightarrow> buffer_trace_ok ms ins outs acts b"
proof (induction rule: buffer_run.induct)
  case (start b)
  then show ?case by (auto simp: buffer_trace_ok_def buffer_init_def buffer_inv_def)
next
  case (push ins outs acts b ph clk x n r b')
  show ?case by (rule buffer_trace_push) (use push in auto)
next
  case (pop ins outs acts b x ph clk b')
  show ?case by (rule buffer_trace_pop) (use pop in auto)
next
  case (update ins outs acts b c ev b')
  show ?case by (rule buffer_trace_update) (use update in auto)
qed

text \<open>The buffer provides the queue contract; the item is pushed with the default \<open>min_space\<close>.\<close>

interpretation buf: fifo_storage buffer_rep buffer_ready buffer_Front
    "\<lambda>b x. map_sum id snd (buffer_Push PHASE_COMMIT True x 1 b)"
    "buffer_Pop PHASE_COMMIT True" "buffer_Update cycle" for cycle
proof unfold_locales
  fix s :: "'a buffer" and x xs st p
  assume "buffer_rep s (x # xs) st p"
  then show "buffer_Front s = Inr x"
    by (simp add: buffer_rep_def buffer_Front_def)
next
  fix s :: "'a buffer" and x xs st p
  assume "buffer_rep s xs st p" "buffer_ready s x"
  then show "\<exists>s'. map_sum id snd (buffer_Push PHASE_COMMIT True x 1 s) = Inr s'
      \<and> buffer_rep s' xs (st @ [x]) p"
    by (auto simp: buffer_rep_def buffer_ready_def buffer_Push_def buffer_inv_def)
next
  fix s :: "'a buffer" and x xs st
  assume "buffer_rep s (x # xs) st False"
  then show "\<exists>s'. buffer_Pop PHASE_COMMIT True s = Inr s' \<and> buffer_rep s' (x # xs) st True"
    by (auto simp: buffer_rep_def buffer_Pop_def buffer_inv_def)
next
  fix s s' :: "'a buffer" and x
  assume "buffer_Pop PHASE_COMMIT True s = Inr s'" "buffer_ready s x"
  then show "buffer_ready s' x"
    by (auto simp: buffer_ready_def buffer_Pop_def)
next
  fix s :: "'a buffer" and xs st p
  assume r: "buffer_rep s xs st p" and p: "p \<longrightarrow> xs \<noteq> []"
  show "\<exists>ev s'. buffer_Update cycle s = Inr (ev, s')
        \<and> buffer_rep s' ((if p then tl xs else xs) @ st) [] False
        \<and> activations ev = of_bool ((if p then tl xs else xs) @ st \<noteq> []) - of_bool (xs \<noteq> [])"
    using r p by (cases xs) (auto simp: buffer_rep_def buffer_inv_def buffer_Update_def Let_def)
qed

section \<open>Register\<close>

text \<open>\<open>m_cur\<close> and \<open>m_new\<close> start as \<open>T()\<close>, the argument of \<open>register_init\<close>.\<close>

record 'a register =
  r_cur :: 'a
  r_new :: 'a
  r_empty :: bool
  r_cleared :: bool
  r_assigned :: bool
  r_activated :: bool

definition register_init :: "'a \<Rightarrow> 'a register" where
  "register_init d = \<lparr>r_cur = d, r_new = d, r_empty = True, r_cleared = False,
     r_assigned = False, r_activated = False\<rparr>"

definition register_Empty :: "'a register \<Rightarrow> bool" where
  "register_Empty r = r_empty r"

definition register_Read :: "'a register \<Rightarrow> 'a res" where
  "register_Read r = assert_that (\<not> r_empty r) (Inr (r_cur r))"

definition register_Clear :: "CyclePhase \<Rightarrow> bool \<Rightarrow> 'a register \<Rightarrow> 'a register res" where
  "register_Clear ph clk r = assert_that clk (assert_that (\<not> r_cleared r) (assert_that (\<not> r_empty r)
     (Inr (COMMIT ph (\<lambda>r. r\<lparr>r_cleared := True, r_activated := True\<rparr>) r))))"

definition register_Write :: "CyclePhase \<Rightarrow> bool \<Rightarrow> 'a \<Rightarrow> 'a register \<Rightarrow> 'a register res" where
  "register_Write ph clk d r = assert_that clk (assert_that (\<not> r_assigned r)
     (Inr (COMMIT ph (\<lambda>r. r\<lparr>r_new := d, r_assigned := True, r_activated := True\<rparr>) r)))"

definition register_Update :: "'a register \<Rightarrow> (notification list \<times> 'a register) res" where
  "register_Update r =
     (if r_assigned r
      then Inr (if r_empty r then [Notify] else [],
                r\<lparr>r_empty := False, r_cur := r_new r, r_assigned := False, r_cleared := False\<rparr>)
      else assert_that (r_cleared r) (assert_that (\<not> r_empty r)
             (Inr ([Unnotify], r\<lparr>r_empty := True, r_cleared := False\<rparr>))))"

lemmas register_defs [sim_defs] = register_Empty_def register_Read_def register_Clear_def
  register_Write_def register_Update_def

definition register_view :: "'a register \<Rightarrow> 'a option" where
  "register_view r = (if r_empty r then None else Some (r_cur r))"

text \<open>\<open>register_run d old w acts r\<close>: at the start of this cycle the register held \<open>old\<close>, the
  value written since is \<open>w\<close>, and the sensitive process holds \<open>acts\<close> activations.\<close>

inductive register_run :: "'a \<Rightarrow> 'a option \<Rightarrow> 'a option \<Rightarrow> int \<Rightarrow> 'a register \<Rightarrow> bool" for d where
  start: "register_run d None None 0 (register_init d)"
| assign: "register_run d old w acts r \<Longrightarrow> register_Write ph clk x r = Inr r' \<Longrightarrow>
    register_run d old (if ph = PHASE_COMMIT then Some x else w) acts r'"
| clear: "register_run d old w acts r \<Longrightarrow> register_Clear ph clk r = Inr r' \<Longrightarrow>
    register_run d old w acts r'"
| update: "register_run d old w acts r \<Longrightarrow> r_activated r \<Longrightarrow>
    register_Update r = Inr (ev, r') \<Longrightarrow>
    register_run d w None (acts + activations ev) (r'\<lparr>r_activated := False\<rparr>)"

definition register_trace_ok :: "'a option \<Rightarrow> 'a option \<Rightarrow> int \<Rightarrow> 'a register \<Rightarrow> bool" where
  "register_trace_ok old w acts r \<longleftrightarrow> old = register_view r \<and> acts = of_bool (\<not> r_empty r)
     \<and> (r_assigned r \<longleftrightarrow> w \<noteq> None) \<and> (\<forall>x. w = Some x \<longrightarrow> r_new r = x)
     \<and> (r_cleared r \<longrightarrow> \<not> r_empty r) \<and> (r_activated r \<longleftrightarrow> r_assigned r \<or> r_cleared r)"

lemma register_run_ok: "register_run d old w acts r \<Longrightarrow> register_trace_ok old w acts r"
proof (induction rule: register_run.induct)
  case start
  show ?case by (simp add: register_trace_ok_def register_init_def register_view_def)
next
  case (assign old w acts r ph clk x r')
  then have r': "r' = COMMIT ph (\<lambda>r. r\<lparr>r_new := x, r_assigned := True, r_activated := True\<rparr>) r"
    by (simp add: register_Write_def)
  show ?case
    using assign.IH unfolding r' register_trace_ok_def register_view_def
    by (cases ph) simp_all
next
  case (clear old w acts r ph clk r')
  then have full: "\<not> r_empty r"
    and r': "r' = COMMIT ph (\<lambda>r. r\<lparr>r_cleared := True, r_activated := True\<rparr>) r"
    by (simp_all add: register_Clear_def)
  show ?case
    using clear.IH full unfolding r' register_trace_ok_def register_view_def
    by (cases ph) simp_all
next
  case (update old w acts r ev r')
  show ?case
  proof (cases "r_assigned r")
    case True
    with update.hyps(3) have ev: "ev = (if r_empty r then [Notify] else [])"
      and r': "r' = r\<lparr>r_empty := False, r_cur := r_new r, r_assigned := False, r_cleared := False\<rparr>"
      by (simp_all add: register_Update_def)
    show ?thesis
      using update.IH True unfolding r' ev register_trace_ok_def register_view_def
      by (cases "r_empty r") auto
  next
    case False
    with update.hyps(3) have ev: "ev = [Unnotify]" and full: "\<not> r_empty r"
      and r': "r' = r\<lparr>r_empty := True, r_cleared := False\<rparr>"
      by (simp_all add: register_Update_def)
    show ?thesis
      using update.IH False full unfolding r' ev register_trace_ok_def register_view_def
      by (cases w) simp_all
  qed
qed

section \<open>Flag\<close>

record flag =
  f_set :: bool
  f_updated :: bool
  f_new :: bool
  f_activated :: bool
  f_stalls :: u64
  f_lastcycle :: u64
  f_totalsize :: u64

definition flag_init :: "bool \<Rightarrow> flag" where
  "flag_init i = \<lparr>f_set = False, f_updated = False, f_new = i, f_activated = i,
     f_stalls = 0, f_lastcycle = 0, f_totalsize = 0\<rparr>"

definition flag_IsSet :: "flag \<Rightarrow> bool" where
  "flag_IsSet f = f_set f"

definition flag_Set :: "CyclePhase \<Rightarrow> flag \<Rightarrow> bool \<times> flag" where
  "flag_Set ph f =
     (if \<not> f_updated f
      then (True, COMMIT ph (\<lambda>f. f\<lparr>f_new := True, f_updated := True, f_activated := True\<rparr>) f)
      else if ph = PHASE_ACQUIRE then (False, f\<lparr>f_stalls := f_stalls f + 1\<rparr>)
      else (False, f))"

definition flag_Clear :: "CyclePhase \<Rightarrow> flag \<Rightarrow> bool \<times> flag" where
  "flag_Clear ph f =
     (if \<not> f_updated f
      then (True, COMMIT ph (\<lambda>f. f\<lparr>f_new := False, f_updated := True, f_activated := True\<rparr>) f)
      else if ph = PHASE_ACQUIRE then (False, f\<lparr>f_stalls := f_stalls f + 1\<rparr>)
      else (False, f))"

definition flag_Update :: "u64 \<Rightarrow> flag \<Rightarrow> notification list \<times> flag" where
  "flag_Update cycle f =
     (if f_new f \<and> \<not> f_set f then [Notify] else if f_set f \<and> \<not> f_new f then [Unnotify] else [],
      f\<lparr>f_set := f_new f, f_updated := False, f_lastcycle := cycle,
        f_totalsize := f_totalsize f + of_bool (f_new f) * (cycle - f_lastcycle f)\<rparr>)"

lemmas flag_defs [sim_defs] = flag_IsSet_def flag_Set_def flag_Clear_def flag_Update_def

text \<open>\<open>flag_run set w acts f\<close>: \<open>w\<close> is the value the next update is to make visible, the last
  one that a committed \<open>Set\<close> or \<open>Clear\<close> got accepted.\<close>

inductive flag_run :: "bool \<Rightarrow> bool \<Rightarrow> int \<Rightarrow> flag \<Rightarrow> bool" for i where
  start: "flag_run i i 0 (flag_init i)"
| set: "flag_run i w acts f \<Longrightarrow> flag_Set ph f = (r, f') \<Longrightarrow>
    flag_run i (if r \<and> ph = PHASE_COMMIT then True else w) acts f'"
| clear: "flag_run i w acts f \<Longrightarrow> flag_Clear ph f = (r, f') \<Longrightarrow>
    flag_run i (if r \<and> ph = PHASE_COMMIT then False else w) acts f'"
| update: "flag_run i w acts f \<Longrightarrow> f_activated f \<Longrightarrow> flag_Update c f = (ev, f') \<Longrightarrow>
    flag_run i w (acts + activations ev) (f'\<lparr>f_activated := False\<rparr>)"

lemma flag_run_ok:
  "flag_run i w acts f \<Longrightarrow>
   w = f_new f \<and> acts = of_bool (f_set f) \<and> (f_new f \<noteq> f_set f \<or> f_updated f \<longrightarrow> f_activated f)"
proof (induction rule: flag_run.induct)
  case start
  show ?case by (simp add: flag_init_def)
next
  case (set w acts f ph r f')
  then show ?case by (cases ph) (auto simp: flag_Set_def split: if_splits)
next
  case (clear w acts f ph r f')
  then show ?case by (cases ph) (auto simp: flag_Clear_def split: if_splits)
next
  case (update w acts f c ev f')
  then show ?case by (auto simp: flag_Update_def)
qed

section \<open>Properties\<close>

text \<open>
  C7. A buffer is a queue over any run of the simulator: whatever the pushes, the pops and the
  updates, in any phase, the items that were popped, then those it still holds, then those
  staged this cycle are exactly the items that were accepted, in order; it never exceeds its
  capacity; whatever is staged is registered for the next update; and the sensitive process is
  activated exactly while an item is visible.
\<close>

theorem buffer_run_fifo:
  assumes "buffer_run ms mp ins outs acts b" and "1 \<le> mp"
  shows "ins = outs @ (if b_popped b then tl (b_data b) else b_data b) @ b_new b
    \<and> (ms \<noteq> INFINITE \<longrightarrow> length (b_data b) + length (b_new b) \<le> ms)
    \<and> length (b_new b) \<le> MAX_PUSHES
    \<and> (b_new b \<noteq> [] \<or> b_popped b \<longrightarrow> b_activated b)
    \<and> acts = of_bool (b_data b \<noteq> [])"
proof -
  have ok: "buffer_trace_ok ms ins outs acts b" by (rule buffer_run_ok [OF assms])
  then have "length (b_new b) \<le> MAX_PUSHES"
    by (meson buffer_inv_def buffer_trace_ok_def order_trans)
  moreover have "ms \<noteq> INFINITE \<longrightarrow> length (b_data b) + length (b_new b) \<le> ms"
    using ok unfolding buffer_trace_ok_def buffer_inv_def by blast
  ultimately show ?thesis using ok unfolding buffer_trace_ok_def buffer_inv_def by simp
qed

text \<open>A run that accepts 7 and 8, makes them visible and pops 7.\<close>

definition buffer_example :: "nat buffer" where
  "buffer_example = \<lparr>b_maxSize = 2, b_maxPushes = 2, b_data = [7, 8], b_new = [],
     b_popped = True, b_activated = True, b_stalls = 0, b_lastcycle = 5,
     b_totalsize = 10, b_maxeffsize = 2, b_cursize = 2\<rparr>"

lemma buffer_example_run: "buffer_run 2 2 [7, 8] [7] 1 buffer_example"
proof -
  have 1: "buffer_run 2 2 [] [] 0 (\<lparr>b_maxSize = 2, b_maxPushes = 2, b_data = [], b_new = [],
     b_popped = False, b_activated = False, b_stalls = 0, b_lastcycle = 0,
     b_totalsize = 0, b_maxeffsize = 0, b_cursize = 0\<rparr> :: nat buffer)" (is "buffer_run _ _ _ _ _ ?b1")
    by (rule buffer_run.start) (simp add: buffer_init_def MAX_PUSHES_def)
  have 2: "buffer_run 2 2 [7] [] 0 (?b1\<lparr>b_new := [7], b_activated := True\<rparr>)"
    using buffer_run.push [OF 1, of PHASE_COMMIT True 7 1 True]
    by (simp add: buffer_Push_def INFINITE_def)
  have 3: "buffer_run 2 2 [7, 8] [] 0 (?b1\<lparr>b_new := [7, 8], b_activated := True\<rparr>)"
    using buffer_run.push [OF 2, of PHASE_COMMIT True 8 1 True]
    by (simp add: buffer_Push_def INFINITE_def)
  have 4: "buffer_run 2 2 [7, 8] [] 1 (?b1\<lparr>b_data := [7, 8], b_lastcycle := 5,
     b_totalsize := 10, b_maxeffsize := 2, b_cursize := 2\<rparr>)"
    using buffer_run.update [OF 3, of 5] by (simp add: buffer_Update_def numeral_2_eq_2)
  show ?thesis
    using buffer_run.pop [OF 4, of 7 PHASE_COMMIT True]
    by (simp add: buffer_Pop_def buffer_Front_def buffer_example_def)
qed

theorem buffer_run_fifo_witness:
  "buffer_run 2 2 [7, 8] [7] 1 buffer_example \<and> [7, 8] = [7] @ tl (b_data buffer_example)"
  using buffer_run_fifo [OF buffer_example_run] buffer_example_run
  by (simp add: buffer_example_def)

text \<open>
  C8. A register shows in a cycle exactly what the last cycle that changed it left: the value
  written, when one was written (a write wins over a clear in the same cycle), and nothing when
  it was only cleared. Its update never trips an assertion when the kernel calls it, and the
  sensitive process is activated exactly while the register is full.
\<close>

theorem register_run_update:
  assumes "register_run d old w acts r"
  shows "register_view r = old \<and> acts = of_bool (old \<noteq> None)
    \<and> (r_activated r \<longrightarrow> (\<exists>ev r'. register_Update r = Inr (ev, r') \<and> register_view r' = w
          \<and> acts + activations ev = of_bool (w \<noteq> None)))
    \<and> (\<not> r_activated r \<longrightarrow> w = None \<and> \<not> r_cleared r)"
proof (cases "r_assigned r")
  case True
  then show ?thesis
    using register_run_ok [OF assms]
    by (cases "r_empty r") (auto simp: register_trace_ok_def register_view_def register_Update_def)
next
  case False
  then show ?thesis
    using register_run_ok [OF assms]
    by (cases "r_empty r") (auto simp: register_trace_ok_def register_view_def register_Update_def)
qed

theorem register_run_update_witness:
  "register_run (0::nat) None (Some 5) 0
     \<lparr>r_cur = 0, r_new = 5, r_empty = True, r_cleared = False, r_assigned = True, r_activated = True\<rparr>
   \<and> (\<exists>ev r'. register_Update \<lparr>r_cur = 0, r_new = 5, r_empty = True, r_cleared = False,
        r_assigned = True, r_activated = True\<rparr> = Inr (ev, r') \<and> register_view r' = Some (5::nat))"
proof -
  have "register_run (0::nat) None (Some 5) 0
     \<lparr>r_cur = 0, r_new = 5, r_empty = True, r_cleared = False, r_assigned = True, r_activated = True\<rparr>"
    using register_run.assign [OF register_run.start, of PHASE_COMMIT True 5 "0::nat"]
    by (simp add: register_Write_def register_init_def)
  then show ?thesis using register_run_update by force
qed

text \<open>
  A flag is two-phase and takes one change a cycle: in any run the update publishes the last
  accepted \<open>Set\<close> or \<open>Clear\<close>, a change that is still invisible is always registered for the
  update, and the sensitive process is activated exactly while the flag is set.
\<close>

theorem flag_run_update:
  assumes "flag_run i w acts f"
  shows "(\<exists>ev f'. flag_Update c f = (ev, f') \<and> flag_IsSet f' = w
          \<and> acts + activations ev = of_bool w)
    \<and> acts = of_bool (flag_IsSet f)
    \<and> (\<not> f_activated f \<longrightarrow> flag_IsSet f = w \<and> fst (flag_Set ph f) \<and> fst (flag_Clear ph f))"
  using flag_run_ok [OF assms] by (auto simp: flag_defs)

theorem flag_run_update_witness:
  "flag_run False True 0 \<lparr>f_set = False, f_updated = True, f_new = True, f_activated = True,
     f_stalls = 0, f_lastcycle = 0, f_totalsize = 0\<rparr>
   \<and> (\<exists>ev f'. flag_Update 3 \<lparr>f_set = False, f_updated = True, f_new = True, f_activated = True,
     f_stalls = 0, f_lastcycle = 0, f_totalsize = 0\<rparr> = (ev, f') \<and> flag_IsSet f')"
proof -
  have "flag_run False True 0 \<lparr>f_set = False, f_updated = True, f_new = True, f_activated = True,
     f_stalls = 0, f_lastcycle = 0, f_totalsize = 0\<rparr>"
    using flag_run.set [OF flag_run.start, of PHASE_COMMIT False True]
    by (simp add: flag_Set_def flag_init_def)
  then show ?thesis using flag_run_update [where ph = PHASE_COMMIT] by fastforce
qed

end
