(* ===== verification/Context_Pool.thy ===== *)
theory Context_Pool
  imports Prelude
begin

text \<open>
  The contexts of a processor core: the family table and the thread table hand out entries from
  three pools, normal, reserved and exclusive (\<open>ContextType\<close> of arch/simtypes.h), and keep a
  counter per pool. The interface \<open>context_pool\<close> is what the allocator relies on; the theories
  \<open>Family_Table\<close> and \<open>Thread_Table\<close> provide it.
\<close>

datatype ContextType = CONTEXT_NORMAL | CONTEXT_RESERVED | CONTEXT_EXCLUSIVE

text \<open>The local family that no table has.\<close>

definition INVALID_LFID :: nat where
  "INVALID_LFID = 2 ^ 32 - 1"

lemma all_contexts: "(\<forall>c. P c) \<longleftrightarrow> P CONTEXT_NORMAL \<and> P CONTEXT_RESERVED \<and> P CONTEXT_EXCLUSIVE"
  by (metis ContextType.exhaust)

text \<open>
  \<open>used s\<close> are the entries handed out, \<open>free s c\<close> the counter of pool \<open>c\<close>; \<open>alloc\<close> returns no
  entry when the pool is empty, \<open>may_release s i c\<close> says that entry \<open>i\<close> may go back to pool \<open>c\<close>.
\<close>

locale context_pool =
  fixes wf :: "'s \<Rightarrow> bool"
    and free :: "'s \<Rightarrow> ContextType \<Rightarrow> nat"
    and used :: "'s \<Rightarrow> nat set"
    and capacity :: "'s \<Rightarrow> nat"
    and alloc :: "ContextType \<Rightarrow> 's \<Rightarrow> (nat option \<times> 's) res"
    and release :: "nat \<Rightarrow> ContextType \<Rightarrow> 's \<Rightarrow> 's res"
    and may_release :: "'s \<Rightarrow> nat \<Rightarrow> ContextType \<Rightarrow> bool"
  assumes account: "wf s \<Longrightarrow> used s \<subseteq> {..<capacity s}
      \<and> free s CONTEXT_NORMAL + free s CONTEXT_RESERVED + free s CONTEXT_EXCLUSIVE + card (used s)
        = capacity s"
    and alloc_some: "wf s \<Longrightarrow> 0 < free s c \<Longrightarrow>
      \<exists>i s'. alloc c s = Inr (Some i, s') \<and> wf s' \<and> capacity s' = capacity s
        \<and> i \<notin> used s \<and> used s' = insert i (used s) \<and> free s' = (free s)(c := free s c - 1)"
    and alloc_none: "wf s \<Longrightarrow> free s c = 0 \<Longrightarrow> alloc c s = Inr (None, s)"
    and release_law: "wf s \<Longrightarrow> i \<in> used s \<Longrightarrow> may_release s i c \<Longrightarrow>
      \<exists>s'. release i c s = Inr s' \<and> wf s' \<and> capacity s' = capacity s
        \<and> used s' = used s - {i} \<and> free s' = (free s)(c := free s c + 1)"
begin

text \<open>Giving back what was just taken restores the pool.\<close>

lemma alloc_release:
  assumes "wf s" and "alloc c s = Inr (Some i, s')" and "may_release s' i c"
  shows "\<exists>s''. release i c s' = Inr s'' \<and> wf s'' \<and> used s'' = used s \<and> free s'' = free s"
proof -
  have f: "0 < free s c" using alloc_none [OF assms(1)] assms(2) by (cases "free s c = 0") auto
  obtain j s1 where s1: "alloc c s = Inr (Some j, s1)" "wf s1" "j \<notin> used s"
      "used s1 = insert j (used s)" "free s1 = (free s)(c := free s c - 1)"
    using alloc_some [OF assms(1) f] by blast
  then have eq: "j = i" "s1 = s'" using assms(2) by simp_all
  obtain s2 where "release i c s' = Inr s2" "wf s2" "used s2 = used s' - {i}"
      "free s2 = (free s')(c := free s' c + 1)"
    using release_law [of s' i c] s1 eq assms(3) by blast
  then show ?thesis using s1 eq f by (auto simp: fun_eq_iff)
qed

text \<open>Taking up to \<open>n\<close> entries of one pool.\<close>

fun alloc_many :: "ContextType \<Rightarrow> nat \<Rightarrow> 's \<Rightarrow> (nat list \<times> 's) res" where
  "alloc_many c 0 s = Inr ([], s)"
| "alloc_many c (Suc n) s = res_bind (alloc c s) (\<lambda>(r, s').
     case r of None \<Rightarrow> Inr ([], s')
     | Some i \<Rightarrow> res_bind (alloc_many c n s') (\<lambda>(js, s''). Inr (i # js, s'')))"

lemma alloc_many_law:
  "wf s \<Longrightarrow> \<exists>js s'. alloc_many c n s = Inr (js, s') \<and> wf s' \<and> distinct js
     \<and> length js = min n (free s c) \<and> set js \<inter> used s = {} \<and> used s' = used s \<union> set js
     \<and> set js \<subseteq> {..<capacity s} \<and> free s' = (free s)(c := free s c - min n (free s c))"
proof (induction n arbitrary: s)
  case (Suc n)
  show ?case
  proof (cases "free s c = 0")
    case True
    then show ?thesis using alloc_none [OF Suc.prems True] Suc.prems
      by (auto simp: fun_eq_iff)
  next
    case False
    then obtain i s1 where s1: "alloc c s = Inr (Some i, s1)" "wf s1" "capacity s1 = capacity s"
        "i \<notin> used s" "used s1 = insert i (used s)" "free s1 = (free s)(c := free s c - 1)"
      using alloc_some [OF Suc.prems, of c] by auto
    obtain js s2 where s2: "alloc_many c n s1 = Inr (js, s2)" "wf s2" "distinct js"
        "length js = min n (free s1 c)" "set js \<inter> used s1 = {}" "used s2 = used s1 \<union> set js"
        "set js \<subseteq> {..<capacity s1}" "free s2 = (free s1)(c := free s1 c - min n (free s1 c))"
      using Suc.IH [OF s1(2)] by blast
    have "i < capacity s" using account [OF s1(2)] s1(3,5) by auto
    then have "alloc_many c (Suc n) s = Inr (i # js, s2)" "distinct (i # js)"
        "length (i # js) = min (Suc n) (free s c)" "set (i # js) \<inter> used s = {}"
        "used s2 = used s \<union> set (i # js)" "set (i # js) \<subseteq> {..<capacity s}"
        "free s2 = (free s)(c := free s c - min (Suc n) (free s c))"
      using s1 s2 False by (auto simp: fun_eq_iff)
    then show ?thesis using s2(2) by blast
  qed
qed simp

end

text \<open>The counters are machine words.\<close>

lemma unat_dec: "0 < x \<Longrightarrow> unat (x - 1 :: u32) = unat x - 1"
  by (rule unat_minus_one) auto

lemma unat_inc: "unat x < 2 ^ 32 - 1 \<Longrightarrow> unat (x + 1 :: u32) = unat x + 1"
  by (simp add: unat_plus_if_size word_size)

text \<open>The number of used entries of a table of states.\<close>

definition used_count :: "'a \<Rightarrow> 'a list \<Rightarrow> nat" where
  "used_count e xs = length (filter (\<lambda>x. x \<noteq> e) xs)"

definition used_set :: "'a \<Rightarrow> 'a list \<Rightarrow> nat set" where
  "used_set e xs = {i. i < length xs \<and> xs ! i \<noteq> e}"

lemma used_count_card: "used_count e xs = card (used_set e xs)"
  by (simp add: used_count_def used_set_def length_filter_conv_card)

lemma used_count_take:
  "i < length xs \<Longrightarrow> xs ! i = e \<Longrightarrow> x \<noteq> e \<Longrightarrow> used_count e (xs[i := x]) = used_count e xs + 1"
  using count_list_update [of i xs "\<lambda>x. x \<noteq> e" x] by (simp add: used_count_def)

lemma used_count_give:
  "i < length xs \<Longrightarrow> xs ! i \<noteq> e \<Longrightarrow> used_count e (xs[i := e]) + 1 = used_count e xs"
  using count_list_update [of i xs "\<lambda>x. x \<noteq> e" e] by (simp add: used_count_def)

lemma used_set_take: "i < length xs \<Longrightarrow> x \<noteq> e \<Longrightarrow> used_set e (xs[i := x]) = insert i (used_set e xs)"
  by (auto simp: used_set_def nth_list_update)

lemma used_set_give: "i < length xs \<Longrightarrow> used_set e (xs[i := e]) = used_set e xs - {i}"
  by (auto simp: used_set_def nth_list_update)

lemma used_count_le: "used_count e xs \<le> length xs"
  by (simp add: used_count_def)

lemma used_count_less: "used_count e xs < length xs \<longleftrightarrow> e \<in> set xs"
  unfolding used_count_def by (metis (mono_tags, lifting) length_filter_less length_filter_le
    filter_id_conv le_neq_implies_less nat_less_le)

end
