(* ===== verification/Thread_Table.thy ===== *)
theory Thread_Table
  imports Context_Pool
begin

text \<open>
  \<open>ThreadTable\<close> (arch/drisc/ThreadTable.h, arch/drisc/ThreadTable.cpp): the table of threads of a
  core. Its empty entries form a chain through the \<open>next\<close> fields that starts at \<open>m_empty\<close>; a
  thread can be moved between the normal and the reserved pool. Of a thread the table itself
  uses the state and the link. The table provides the contract \<open>context_pool\<close>.
\<close>

datatype ThreadState =
    TST_EMPTY | TST_WAITING | TST_READY | TST_ACTIVE | TST_RUNNING | TST_SUSPENDED | TST_UNUSED
  | TST_TERMINATED

definition INVALID_TID :: nat where
  "INVALID_TID = 2 ^ 32 - 1"

record thread_table =
  tt_empty :: nat
  tt_states :: "ThreadState list"
  tt_next :: "nat list"
  tt_free :: "ContextType \<Rightarrow> u32"
  tt_lastcycle :: u64
  tt_totalalloc :: u32
  tt_maxalloc :: u32
  tt_curalloc :: u32

definition tt_size :: "thread_table \<Rightarrow> nat" where
  "tt_size t = length (tt_states t)"

definition thread_table_init :: "nat \<Rightarrow> thread_table" where
  "thread_table_init n = \<lparr>tt_empty = 0, tt_states = replicate n TST_EMPTY,
     tt_next = (map Suc [0..<n])[n - 1 := INVALID_TID],
     tt_free = (\<lambda>c. case c of CONTEXT_NORMAL \<Rightarrow> of_nat n - 1 | CONTEXT_RESERVED \<Rightarrow> 0
                          | CONTEXT_EXCLUSIVE \<Rightarrow> 1),
     tt_lastcycle = 0, tt_totalalloc = 0, tt_maxalloc = 0, tt_curalloc = 0\<rparr>"

definition tt_IsEmpty :: "thread_table \<Rightarrow> bool" where
  "tt_IsEmpty t = (tt_free t CONTEXT_NORMAL + tt_free t CONTEXT_RESERVED + tt_free t CONTEXT_EXCLUSIVE
     = of_nat (tt_size t))"

definition tt_UpdateStats :: "u64 \<Rightarrow> thread_table \<Rightarrow> thread_table" where
  "tt_UpdateStats cycle t =
     (let elapsed = cycle - tt_lastcycle t;
          curalloc = of_nat (tt_size t) - tt_free t CONTEXT_RESERVED - tt_free t CONTEXT_EXCLUSIVE
                       - tt_free t CONTEXT_NORMAL
      in t\<lparr>tt_lastcycle := cycle, tt_curalloc := curalloc,
           tt_totalalloc := ucast (ucast (tt_totalalloc t) + ucast curalloc * elapsed :: u64),
           tt_maxalloc := max (tt_maxalloc t) curalloc\<rparr>)"

text \<open>The assertions of \<open>CheckStateSanity\<close>.\<close>

definition tt_sane :: "thread_table \<Rightarrow> bool" where
  "tt_sane t \<longleftrightarrow>
     unat (tt_free t CONTEXT_NORMAL) \<le> tt_size t \<and> unat (tt_free t CONTEXT_RESERVED) \<le> tt_size t
     \<and> tt_free t CONTEXT_EXCLUSIVE \<le> 1 \<and> used_count TST_EMPTY (tt_states t) \<le> tt_size t
     \<and> unat (tt_free t CONTEXT_NORMAL + tt_free t CONTEXT_RESERVED + tt_free t CONTEXT_EXCLUSIVE)
         + used_count TST_EMPTY (tt_states t) = tt_size t"

definition tt_count :: "ContextType \<Rightarrow> u32 \<Rightarrow> thread_table \<Rightarrow> thread_table" where
  "tt_count c d t = t\<lparr>tt_free := (tt_free t)(c := tt_free t c + d)\<rparr>"

definition GetNumFreeThreads :: "ContextType \<Rightarrow> thread_table \<Rightarrow> u32 res" where
  "GetNumFreeThreads c t = assert_that (tt_sane t) (Inr (tt_free t c))"

text \<open>The operations check the sanity of the table before and after; the result is bound to the
  second check.\<close>

definition tt_checked :: "thread_table \<Rightarrow> thread_table res" where
  "tt_checked t = assert_that (tt_sane t) (Inr t)"

definition ReserveThread :: "CyclePhase \<Rightarrow> u64 \<Rightarrow> thread_table \<Rightarrow> thread_table res" where
  "ReserveThread ph cycle t = res_bind (tt_checked t) (\<lambda>t. tt_checked
     (COMMIT ph (\<lambda>t. tt_count CONTEXT_RESERVED 1 (tt_count CONTEXT_NORMAL (-1)
        (tt_UpdateStats cycle t))) t))"

definition UnreserveThread :: "CyclePhase \<Rightarrow> u64 \<Rightarrow> thread_table \<Rightarrow> thread_table res" where
  "UnreserveThread ph cycle t = res_bind (tt_checked t) (\<lambda>t. tt_checked
     (COMMIT ph (\<lambda>t. tt_count CONTEXT_RESERVED (-1) (tt_count CONTEXT_NORMAL 1
        (tt_UpdateStats cycle t))) t))"

definition PopEmpty ::
  "CyclePhase \<Rightarrow> u64 \<Rightarrow> ContextType \<Rightarrow> thread_table \<Rightarrow> (nat option \<times> thread_table) res" where
  "PopEmpty ph cycle context t = res_bind (tt_checked t) (\<lambda>t.
     if 0 < tt_free t context
     then let tid = tt_empty t in
          assert_that (tid \<noteq> INVALID_TID)
            (if tid < tt_size t
             then assert_that (tt_states t ! tid = TST_EMPTY)
               (res_bind (tt_checked (COMMIT ph (\<lambda>t. tt_count context (-1)
                    ((tt_UpdateStats cycle t)\<lparr>tt_empty := tt_next t ! tid,
                       tt_states := (tt_states t)[tid := TST_WAITING]\<rparr>)) t))
                  (\<lambda>t. Inr (Some tid, t)))
             else Inl UndefinedBehaviour)
     else res_bind (tt_checked t) (\<lambda>t. Inr (None, t)))"

definition PushEmpty ::
  "CyclePhase \<Rightarrow> u64 \<Rightarrow> nat \<Rightarrow> ContextType \<Rightarrow> thread_table \<Rightarrow> thread_table res" where
  "PushEmpty ph cycle tid context t = res_bind (tt_checked t) (\<lambda>t.
     assert_that (tid \<noteq> INVALID_TID)
       (if tid < tt_size t \<or> ph \<noteq> PHASE_COMMIT
        then tt_checked (COMMIT ph (\<lambda>t. tt_count context 1
               ((tt_UpdateStats cycle t)\<lparr>tt_next := (tt_next t)[tid := tt_empty t],
                  tt_empty := tid, tt_states := (tt_states t)[tid := TST_EMPTY]\<rparr>)) t)
        else Inl UndefinedBehaviour))"

section \<open>The invariant\<close>

text \<open>The empty entries are exactly those of the chain from \<open>m_empty\<close> to \<open>INVALID_TID\<close>, each
  once, and the counters add up without wrap-around.\<close>

definition tt_chain :: "thread_table \<Rightarrow> nat list \<Rightarrow> bool" where
  "tt_chain t fs \<longleftrightarrow> distinct fs \<and> linked (tt_next t) fs
     \<and> set fs = {i. i < tt_size t \<and> tt_states t ! i = TST_EMPTY}
     \<and> tt_empty t = (if fs = [] then INVALID_TID else hd fs)
     \<and> (fs \<noteq> [] \<longrightarrow> tt_next t ! last fs = INVALID_TID)"

definition tt_counts :: "thread_table \<Rightarrow> bool" where
  "tt_counts t \<longleftrightarrow> tt_free t CONTEXT_EXCLUSIVE \<le> 1
     \<and> unat (tt_free t CONTEXT_NORMAL) + unat (tt_free t CONTEXT_RESERVED)
        + unat (tt_free t CONTEXT_EXCLUSIVE) + used_count TST_EMPTY (tt_states t) = tt_size t"

definition tt_wf :: "thread_table \<Rightarrow> bool" where
  "tt_wf t \<longleftrightarrow> length (tt_next t) = tt_size t \<and> tt_size t < INVALID_TID \<and> tt_counts t
     \<and> (\<exists>fs. tt_chain t fs)"

lemma tt_UpdateStats_simps [simp]:
  "tt_states (tt_UpdateStats c t) = tt_states t" "tt_free (tt_UpdateStats c t) = tt_free t"
  "tt_next (tt_UpdateStats c t) = tt_next t" "tt_empty (tt_UpdateStats c t) = tt_empty t"
  "tt_size (tt_UpdateStats c t) = tt_size t"
  by (simp_all add: tt_UpdateStats_def tt_size_def Let_def)

lemma tt_counts_sane:
  assumes "tt_counts t" and "tt_size t < INVALID_TID"
  shows "tt_sane t"
proof -
  have lt: "unat (tt_free t CONTEXT_NORMAL) + unat (tt_free t CONTEXT_RESERVED)
        + unat (tt_free t CONTEXT_EXCLUSIVE) < 2 ^ 32"
    using assms unfolding tt_counts_def INVALID_TID_def by linarith
  then have "unat (tt_free t CONTEXT_NORMAL + tt_free t CONTEXT_RESERVED)
      = unat (tt_free t CONTEXT_NORMAL) + unat (tt_free t CONTEXT_RESERVED)"
    by (simp add: unat_add_lem [THEN iffD1])
  then have "unat (tt_free t CONTEXT_NORMAL + tt_free t CONTEXT_RESERVED + tt_free t CONTEXT_EXCLUSIVE)
      = unat (tt_free t CONTEXT_NORMAL) + unat (tt_free t CONTEXT_RESERVED) + unat (tt_free t CONTEXT_EXCLUSIVE)"
    using lt by (simp add: unat_add_lem [THEN iffD1])
  then show ?thesis using assms used_count_le [of TST_EMPTY "tt_states t"]
    unfolding tt_counts_def tt_sane_def tt_size_def by linarith
qed

lemma tt_wf_sane: "tt_wf t \<Longrightarrow> tt_sane t"
  by (simp add: tt_wf_def tt_counts_sane)

lemma tt_wf_checked: "tt_wf t \<Longrightarrow> tt_checked t = Inr t"
  by (simp add: tt_checked_def tt_wf_sane)

lemma tt_checked_fail: "\<not> tt_sane t \<Longrightarrow> tt_checked t = Inl AssertionFailure"
  by (simp add: tt_checked_def)

lemma used_count_empty: "used_count e xs = length xs - card {i. i < length xs \<and> xs ! i = e}"
proof -
  have "card (used_set e xs) + card {i. i < length xs \<and> xs ! i = e}
      = card (used_set e xs \<union> {i. i < length xs \<and> xs ! i = e})"
    by (subst card_Un_disjoint) (auto simp: used_set_def)
  also have "used_set e xs \<union> {i. i < length xs \<and> xs ! i = e} = {..<length xs}"
    by (auto simp: used_set_def)
  finally show ?thesis by (simp add: used_count_card)
qed

text \<open>While a pool is not empty, neither is the chain.\<close>

lemma tt_chain_nonempty:
  assumes wf: "tt_wf t" and ch: "tt_chain t fs" and f: "0 < tt_free t c"
  shows "fs \<noteq> []"
proof
  assume "fs = []"
  then have "used_count TST_EMPTY (tt_states t) = tt_size t"
    using ch unfolding tt_chain_def used_count_empty tt_size_def by (metis card.empty diff_zero list.set(1))
  then have "unat (tt_free t c) = 0" using wf by (cases c) (simp_all add: tt_wf_def tt_counts_def)
  then show False using f by (simp add: unat_eq_0)
qed

lemma thread_table_init_wf:
  assumes "0 < n" and "n < INVALID_TID"
  shows "tt_wf (thread_table_init n)"
proof -
  let ?t = "thread_table_init n"
  have n: "unat (of_nat n :: u32) = n" using assms by (simp add: unat_of_nat INVALID_TID_def)
  then have "(0 :: u32) < of_nat n" using assms by (metis unat_gt_0 word_gt_0)
  then have "unat (of_nat n - 1 :: u32) = n - 1" using n by (simp add: unat_dec)
  then have counts: "tt_counts ?t" using assms
    by (simp add: tt_counts_def thread_table_init_def tt_size_def used_count_def)
  have len: "length (tt_next ?t) = n" "tt_size ?t = n" by (simp_all add: thread_table_init_def tt_size_def)
  have "linked (tt_next ?t) [i..<n]" if "i \<le> n" for i
    using that
  proof (induction "n - i" arbitrary: i)
    case (Suc d)
    then have lt: "i < n" and ih: "linked (tt_next ?t) [Suc i..<n]" by simp_all
    have "Suc i < n \<longrightarrow> tt_next ?t ! i = Suc i" using lt by (simp add: thread_table_init_def)
    then show ?case using lt ih len by (simp add: upt_conv_Cons linked_Cons)
  qed simp
  then have "tt_chain ?t [0..<n]"
    using assms(1) len by (auto simp: tt_chain_def thread_table_init_def tt_size_def)
  then show ?thesis using counts len assms(2) by (auto simp: tt_wf_def)
qed

section \<open>The operations keep it\<close>

lemma tt_counts_dec:
  assumes "tt_counts t" and "0 < tt_free t c" and "i < tt_size t" and "tt_states t ! i = TST_EMPTY"
    and "tt_states t' = (tt_states t)[i := TST_WAITING]" and "tt_free t' = (tt_free t)(c := tt_free t c - 1)"
  shows "tt_counts t'"
proof -
  have "used_count TST_EMPTY (tt_states t') = used_count TST_EMPTY (tt_states t) + 1"
    unfolding assms(5) using assms(3,4) by (intro used_count_take) (simp_all add: tt_size_def)
  moreover have "unat (tt_free t c - 1) = unat (tt_free t c) - 1" "0 < unat (tt_free t c)"
    using assms(2) by (simp_all add: unat_dec unat_gt_0 word_gt_0)
  moreover have "tt_free t CONTEXT_EXCLUSIVE - 1 \<le> 1" if "c = CONTEXT_EXCLUSIVE"
  proof -
    have "unat (tt_free t CONTEXT_EXCLUSIVE) \<le> 1"
      using assms(1) by (simp add: tt_counts_def word_le_nat_alt)
    then show ?thesis using that calculation(2) by (simp add: word_le_nat_alt)
  qed
  ultimately show ?thesis using assms(1,3,5,6)
    by (cases c) (auto simp: tt_counts_def tt_size_def)
qed

lemma tt_counts_inc:
  assumes "tt_counts t" and "tt_size t < INVALID_TID" and "i < tt_size t" and "tt_states t ! i \<noteq> TST_EMPTY"
    and "tt_states t' = (tt_states t)[i := TST_EMPTY]" and "tt_free t' = (tt_free t)(c := tt_free t c + 1)"
    and "c = CONTEXT_EXCLUSIVE \<Longrightarrow> tt_free t c = 0"
  shows "tt_counts t' \<and> unat (tt_free t c + 1) = unat (tt_free t c) + 1"
proof -
  have used: "used_count TST_EMPTY (tt_states t') + 1 = used_count TST_EMPTY (tt_states t)"
    unfolding assms(5) using assms(3,4) by (intro used_count_give) (simp_all add: tt_size_def)
  have "unat (tt_free t c) < 2 ^ 32 - 1"
    using assms(1,2) by (cases c) (auto simp: tt_counts_def INVALID_TID_def)
  note inc = unat_inc [OF this]
  then have "tt_counts t'" using assms(1,5-7) used
    by (cases c) (auto simp: tt_counts_def tt_size_def)
  with inc show ?thesis by simp
qed

lemma PopEmpty_some:
  assumes wf: "tt_wf t" and f: "0 < tt_free t c"
  shows "\<exists>i t'. PopEmpty PHASE_COMMIT cyc c t = Inr (Some i, t') \<and> tt_wf t' \<and> i < tt_size t
    \<and> tt_states t ! i = TST_EMPTY \<and> tt_states t' = (tt_states t)[i := TST_WAITING]
    \<and> tt_free t' = (tt_free t)(c := tt_free t c - 1)"
proof -
  obtain fs where ch: "tt_chain t fs" using wf by (auto simp: tt_wf_def)
  then obtain i fs' where fs: "fs = i # fs'" using tt_chain_nonempty [OF wf ch f] by (cases fs) auto
  have i: "tt_empty t = i" "i < tt_size t" "tt_states t ! i = TST_EMPTY"
    using ch fs by (auto simp: tt_chain_def)
  define t' where "t' = tt_count c (-1) ((tt_UpdateStats cyc t)\<lparr>tt_empty := tt_next t ! i,
      tt_states := (tt_states t)[i := TST_WAITING]\<rparr>)"
  have t': "tt_states t' = (tt_states t)[i := TST_WAITING]" "tt_free t' = (tt_free t)(c := tt_free t c - 1)"
    "tt_next t' = tt_next t" "tt_empty t' = tt_next t ! i" "tt_size t' = tt_size t"
    by (simp_all add: t'_def tt_count_def tt_size_def)
  have counts: "tt_counts t'"
    by (rule tt_counts_dec [OF _ f i(2,3) t'(1,2)]) (use wf in \<open>simp add: tt_wf_def\<close>)
  have c: "distinct (i # fs')" "linked (tt_next t) (i # fs')"
      "set (i # fs') = {i. i < tt_size t \<and> tt_states t ! i = TST_EMPTY}"
      "tt_next t ! last (i # fs') = INVALID_TID"
    using ch fs by (simp_all add: tt_chain_def)
  have "set fs' = set (i # fs') - {i}" using c(1) by auto
  also have "\<dots> = {j. j < tt_size t' \<and> tt_states t' ! j = TST_EMPTY}"
    unfolding c(3) t' using i(2) by (auto simp: nth_list_update tt_size_def)
  finally have "tt_chain t' fs'"
    using c(1,2,4) t'(3,4) by (cases fs') (simp_all add: tt_chain_def)
  then have wf': "tt_wf t'" using wf t' counts by (auto simp: tt_wf_def)
  have "i \<noteq> INVALID_TID" using i(2) wf by (simp add: tt_wf_def)
  then have "PopEmpty PHASE_COMMIT cyc c t = Inr (Some i, t')"
    using f i tt_wf_checked [OF wf] tt_wf_checked [OF wf']
    by (simp add: PopEmpty_def Let_def t'_def)
  then show ?thesis using wf' i t' by blast
qed

lemma PopEmpty_none:
  "tt_wf t \<Longrightarrow> tt_free t c = 0 \<Longrightarrow> PopEmpty ph cyc c t = Inr (None, t)"
  by (simp add: PopEmpty_def tt_wf_checked)

definition tt_may_push :: "thread_table \<Rightarrow> nat \<Rightarrow> ContextType \<Rightarrow> bool" where
  "tt_may_push t i c \<longleftrightarrow> (c = CONTEXT_EXCLUSIVE \<longrightarrow> tt_free t c = 0)"

lemma PushEmpty_ok:
  assumes wf: "tt_wf t" and i: "i < tt_size t" "tt_states t ! i \<noteq> TST_EMPTY" and may: "tt_may_push t i c"
  shows "\<exists>t'. PushEmpty PHASE_COMMIT cyc i c t = Inr t' \<and> tt_wf t'
    \<and> tt_states t' = (tt_states t)[i := TST_EMPTY] \<and> tt_free t' = (tt_free t)(c := tt_free t c + 1)
    \<and> unat (tt_free t c + 1) = unat (tt_free t c) + 1"
proof -
  obtain fs where ch: "tt_chain t fs" using wf by (auto simp: tt_wf_def)
  define t' where "t' = tt_count c 1 ((tt_UpdateStats cyc t)\<lparr>tt_next := (tt_next t)[i := tt_empty t],
      tt_empty := i, tt_states := (tt_states t)[i := TST_EMPTY]\<rparr>)"
  have t': "tt_states t' = (tt_states t)[i := TST_EMPTY]" "tt_free t' = (tt_free t)(c := tt_free t c + 1)"
    "tt_next t' = (tt_next t)[i := tt_empty t]" "tt_empty t' = i" "tt_size t' = tt_size t"
    by (simp_all add: t'_def tt_count_def tt_size_def)
  have counts: "tt_counts t' \<and> unat (tt_free t c + 1) = unat (tt_free t c) + 1"
    by (rule tt_counts_inc [OF _ _ i t'(1,2)]) (use wf may in \<open>simp_all add: tt_wf_def tt_may_push_def\<close>)
  have notin: "i \<notin> set fs" using ch i by (simp add: tt_chain_def)
  have len: "length (tt_next t) = tt_size t" using wf by (simp add: tt_wf_def)
  have "linked (tt_next t') fs"
    using ch notin unfolding t' tt_chain_def by (subst linked_update) (auto dest: in_set_butlastD)
  moreover have "fs \<noteq> [] \<longrightarrow> tt_next t' ! last fs = tt_next t ! last fs"
    using notin t'(3) last_in_set by (metis nth_list_update_neq)
  moreover have "tt_next t' ! i = tt_empty t" using i(1) len by (simp add: t')
  moreover have "set (i # fs) = {j. j < tt_size t' \<and> tt_states t' ! j = TST_EMPTY}"
    using ch i(1) unfolding t' tt_chain_def by (auto simp: nth_list_update tt_size_def)
  ultimately have "tt_chain t' (i # fs)"
    using ch notin i(1) len t' unfolding tt_chain_def by (auto simp: linked_Cons)
  then have wf': "tt_wf t'" using wf t' counts by (auto simp: tt_wf_def)
  have "i \<noteq> INVALID_TID" using i(1) wf by (simp add: tt_wf_def)
  then have "PushEmpty PHASE_COMMIT cyc i c t = Inr t'"
    using i tt_wf_checked [OF wf] tt_wf_checked [OF wf'] by (simp add: PushEmpty_def t'_def)
  then show ?thesis using wf' t' counts by blast
qed

lemma tt_move_wf:
  assumes wf: "tt_wf t" and f: "0 < tt_free t c" and cd: "c \<noteq> d" "c \<noteq> CONTEXT_EXCLUSIVE" "d \<noteq> CONTEXT_EXCLUSIVE"
    and t': "tt_states t' = tt_states t" "tt_next t' = tt_next t" "tt_empty t' = tt_empty t"
      "tt_free t' = (tt_free t)(c := tt_free t c - 1, d := tt_free t d + 1)"
  shows "tt_wf t'"
proof -
  have "unat (tt_free t c - 1) = unat (tt_free t c) - 1" "0 < unat (tt_free t c)"
    using f by (simp_all add: unat_dec unat_gt_0 word_gt_0)
  moreover have "unat (tt_free t d) < 2 ^ 32 - 1"
    using wf by (cases d) (auto simp: tt_wf_def tt_counts_def INVALID_TID_def)
  ultimately have "tt_counts t'"
    using wf cd t' by (cases c; cases d) (auto simp: tt_wf_def tt_counts_def tt_size_def unat_inc)
  then show ?thesis using wf t' by (auto simp: tt_wf_def tt_chain_def tt_size_def)
qed

section \<open>The thread table is a context pool\<close>

interpretation tt: context_pool tt_wf "\<lambda>t c. unat (tt_free t c)" "\<lambda>t. used_set TST_EMPTY (tt_states t)"
    tt_size "PopEmpty PHASE_COMMIT cyc" "PushEmpty PHASE_COMMIT cyc" tt_may_push for cyc
proof unfold_locales
  fix t
  assume "tt_wf t"
  then show "used_set TST_EMPTY (tt_states t) \<subseteq> {..<tt_size t}
      \<and> unat (tt_free t CONTEXT_NORMAL) + unat (tt_free t CONTEXT_RESERVED)
        + unat (tt_free t CONTEXT_EXCLUSIVE) + card (used_set TST_EMPTY (tt_states t)) = tt_size t"
    by (auto simp: tt_wf_def tt_counts_def used_count_card used_set_def tt_size_def)
next
  fix t c
  assume wf: "tt_wf t" and "0 < unat (tt_free t c)"
  then have pos: "0 < tt_free t c" by (simp add: unat_gt_0 word_gt_0)
  from PopEmpty_some [OF wf pos, of cyc] obtain i t' where
    a: "PopEmpty PHASE_COMMIT cyc c t = Inr (Some i, t')" "tt_wf t'" "i < tt_size t"
       "tt_states t' = (tt_states t)[i := TST_WAITING]" "tt_states t ! i = TST_EMPTY"
       "tt_free t' = (tt_free t)(c := tt_free t c - 1)" by blast
  have "(\<lambda>d. unat (tt_free t' d)) = (\<lambda>d. unat (tt_free t d))(c := unat (tt_free t c) - 1)"
    using a(6) unat_dec [OF pos] by auto
  moreover have "used_set TST_EMPTY (tt_states t') = insert i (used_set TST_EMPTY (tt_states t))"
    using a(3,4) by (simp add: used_set_take tt_size_def)
  moreover have "i \<notin> used_set TST_EMPTY (tt_states t)" using a(5) by (simp add: used_set_def)
  ultimately show "\<exists>i t'. PopEmpty PHASE_COMMIT cyc c t = Inr (Some i, t') \<and> tt_wf t'
      \<and> tt_size t' = tt_size t \<and> i \<notin> used_set TST_EMPTY (tt_states t)
      \<and> used_set TST_EMPTY (tt_states t') = insert i (used_set TST_EMPTY (tt_states t))
      \<and> (\<lambda>c. unat (tt_free t' c)) = (\<lambda>c. unat (tt_free t c))(c := unat (tt_free t c) - 1)"
    using a(1,2,4) by (intro exI conjI) (simp_all add: tt_size_def)
next
  fix t c
  assume "tt_wf t" "unat (tt_free t c) = 0"
  then show "PopEmpty PHASE_COMMIT cyc c t = Inr (None, t)"
    by (simp add: PopEmpty_none unat_eq_0)
next
  fix t i c
  assume wf: "tt_wf t" and i: "i \<in> used_set TST_EMPTY (tt_states t)" and may: "tt_may_push t i c"
  have lt: "i < tt_size t" "tt_states t ! i \<noteq> TST_EMPTY" using i by (simp_all add: used_set_def tt_size_def)
  from PushEmpty_ok [OF wf lt may, of cyc] obtain t' where
    a: "PushEmpty PHASE_COMMIT cyc i c t = Inr t'" "tt_wf t'" "tt_states t' = (tt_states t)[i := TST_EMPTY]"
      "tt_free t' = (tt_free t)(c := tt_free t c + 1)" "unat (tt_free t c + 1) = unat (tt_free t c) + 1"
    by blast
  then have "(\<lambda>c. unat (tt_free t' c)) = (\<lambda>c. unat (tt_free t c))(c := unat (tt_free t c) + 1)" by auto
  then show "\<exists>t'. PushEmpty PHASE_COMMIT cyc i c t = Inr t' \<and> tt_wf t' \<and> tt_size t' = tt_size t
      \<and> used_set TST_EMPTY (tt_states t') = used_set TST_EMPTY (tt_states t) - {i}
      \<and> (\<lambda>c. unat (tt_free t' c)) = (\<lambda>c. unat (tt_free t c))(c := unat (tt_free t c) + 1)"
    using a \<open>i < tt_size t\<close> by (intro exI [of _ t']) (simp add: tt_size_def used_set_give)
qed

section \<open>Properties\<close>

fun PopEmpty_many :: "u64 \<Rightarrow> ContextType \<Rightarrow> nat \<Rightarrow> thread_table \<Rightarrow> (nat list \<times> thread_table) res" where
  "PopEmpty_many cyc c 0 t = Inr ([], t)"
| "PopEmpty_many cyc c (Suc n) t = res_bind (PopEmpty PHASE_COMMIT cyc c t) (\<lambda>(r, t').
     case r of None \<Rightarrow> Inr ([], t')
     | Some i \<Rightarrow> res_bind (PopEmpty_many cyc c n t') (\<lambda>(js, t''). Inr (i # js, t'')))"

lemma PopEmpty_many_eq: "PopEmpty_many cyc c n t = tt.alloc_many cyc c n t"
  by (induction cyc c n t rule: PopEmpty_many.induct)
    (auto simp: res_bind_def split: sum.splits option.splits)

text \<open>
  C16. The thread table hands out each entry once and never trips an assertion: from any table
  whose chain and counters are in order, \<open>n\<close> allocations from a pool return as many entries as
  the pool's counter allows, all distinct, all empty before, and leave chain and counters in
  order; and pushing a used entry back makes it empty and counts it in the pool it goes to.
\<close>

theorem thread_table_pool:
  assumes "tt_wf t"
  shows "\<exists>tids t'. PopEmpty_many cyc c n t = Inr (tids, t') \<and> tt_wf t' \<and> distinct tids
    \<and> length tids = min n (unat (tt_free t c))
    \<and> (\<forall>i\<in>set tids. i < tt_size t \<and> tt_states t ! i = TST_EMPTY \<and> tt_states t' ! i \<noteq> TST_EMPTY)
    \<and> (\<forall>i d. i < tt_size t' \<and> tt_states t' ! i \<noteq> TST_EMPTY \<and> (d = CONTEXT_EXCLUSIVE \<longrightarrow> tt_free t' d = 0) \<longrightarrow>
         (\<exists>t''. PushEmpty PHASE_COMMIT cyc i d t' = Inr t'' \<and> tt_wf t'' \<and> tt_states t'' ! i = TST_EMPTY
            \<and> unat (tt_free t'' d) = unat (tt_free t' d) + 1))"
proof -
  obtain tids t' where a: "PopEmpty_many cyc c n t = Inr (tids, t')" "tt_wf t'" "distinct tids"
      "length tids = min n (unat (tt_free t c))" "set tids \<inter> used_set TST_EMPTY (tt_states t) = {}"
      "used_set TST_EMPTY (tt_states t') = used_set TST_EMPTY (tt_states t) \<union> set tids"
      "set tids \<subseteq> {..<tt_size t}"
    using tt.alloc_many_law [OF assms, of cyc c n] unfolding PopEmpty_many_eq by blast
  have "i < tt_size t \<and> tt_states t ! i = TST_EMPTY \<and> tt_states t' ! i \<noteq> TST_EMPTY" if "i \<in> set tids" for i
  proof -
    have "i \<notin> used_set TST_EMPTY (tt_states t)" "i \<in> used_set TST_EMPTY (tt_states t')" "i < tt_size t"
      using that a(5-7) by blast+
    then show ?thesis by (simp add: used_set_def tt_size_def)
  qed
  moreover have "\<exists>t''. PushEmpty PHASE_COMMIT cyc i d t' = Inr t'' \<and> tt_wf t'' \<and> tt_states t'' ! i = TST_EMPTY
      \<and> unat (tt_free t'' d) = unat (tt_free t' d) + 1"
    if "i < tt_size t'" "tt_states t' ! i \<noteq> TST_EMPTY" "d = CONTEXT_EXCLUSIVE \<longrightarrow> tt_free t' d = 0" for i d
    using PushEmpty_ok [OF a(2) that(1,2), of d cyc] that(1,3) by (auto simp: tt_may_push_def tt_size_def)
  ultimately show ?thesis using a(1-4) by blast
qed

theorem thread_table_pool_witness:
  "\<exists>tids t'. PopEmpty_many 7 CONTEXT_NORMAL 9 (thread_table_init 4) = Inr (tids, t') \<and> length tids = 3"
proof -
  have "tt_wf (thread_table_init 4)" by (rule thread_table_init_wf) (simp_all add: INVALID_TID_def)
  from thread_table_pool [OF this, of 7 CONTEXT_NORMAL 9]
  have "\<exists>tids t'. PopEmpty_many 7 CONTEXT_NORMAL 9 (thread_table_init 4) = Inr (tids, t')
      \<and> length tids = min 9 (unat (tt_free (thread_table_init 4) CONTEXT_NORMAL))" by blast
  then show ?thesis by (simp add: thread_table_init_def)
qed

text \<open>
  C17. Reserving moves one thread from the normal to the reserved pool and unreserving moves it
  back; with an empty source pool the counter wraps and the sanity check stops the simulation.
\<close>

theorem ReserveThread_moves:
  assumes "tt_wf t"
  shows "(tt_free t CONTEXT_NORMAL = 0 \<longrightarrow> ReserveThread PHASE_COMMIT cyc t = Inl AssertionFailure)
    \<and> (tt_free t CONTEXT_RESERVED = 0 \<longrightarrow> UnreserveThread PHASE_COMMIT cyc t = Inl AssertionFailure)
    \<and> (tt_free t CONTEXT_NORMAL \<noteq> 0 \<longrightarrow>
         (\<exists>t1 t2. ReserveThread PHASE_COMMIT cyc t = Inr t1 \<and> tt_wf t1
            \<and> tt_free t1 CONTEXT_NORMAL = tt_free t CONTEXT_NORMAL - 1
            \<and> tt_free t1 CONTEXT_RESERVED = tt_free t CONTEXT_RESERVED + 1
            \<and> UnreserveThread PHASE_COMMIT cyc t1 = Inr t2 \<and> tt_free t2 = tt_free t))"
proof (intro conjI impI)
  have lt: "tt_size t < 2 ^ 32 - 1" using assms by (simp add: tt_wf_def INVALID_TID_def)
  have m1: "unat (- 1 :: u32) = 2 ^ 32 - 1" by (simp add: unsigned_minus_1_eq_mask mask_eq_exp_minus_1)
  {
    assume "tt_free t CONTEXT_NORMAL = 0"
    then show "ReserveThread PHASE_COMMIT cyc t = Inl AssertionFailure"
      using tt_wf_checked [OF assms] lt m1
      by (simp add: ReserveThread_def tt_checked_fail tt_sane_def tt_count_def tt_size_def)
  next
    assume "tt_free t CONTEXT_RESERVED = 0"
    then show "UnreserveThread PHASE_COMMIT cyc t = Inl AssertionFailure"
      using tt_wf_checked [OF assms] lt m1
      by (simp add: UnreserveThread_def tt_checked_fail tt_sane_def tt_count_def tt_size_def)
  next
    assume n: "tt_free t CONTEXT_NORMAL \<noteq> 0"
    define t1 where "t1 = tt_count CONTEXT_RESERVED 1 (tt_count CONTEXT_NORMAL (-1) (tt_UpdateStats cyc t))"
    have w1: "tt_wf t1"
      by (rule tt_move_wf [OF assms, of CONTEXT_NORMAL CONTEXT_RESERVED])
        (use n in \<open>simp_all add: t1_def tt_count_def word_gt_0 tt_size_def\<close>)
    have f1: "tt_free t1 = (tt_free t)(CONTEXT_NORMAL := tt_free t CONTEXT_NORMAL - 1,
        CONTEXT_RESERVED := tt_free t CONTEXT_RESERVED + 1)"
      by (simp add: t1_def tt_count_def)
    define t2 where "t2 = tt_count CONTEXT_RESERVED (-1) (tt_count CONTEXT_NORMAL 1 (tt_UpdateStats cyc t1))"
    have "unat (tt_free t CONTEXT_RESERVED) < 2 ^ 32 - 1"
      using assms lt by (auto simp: tt_wf_def tt_counts_def)
    from unat_inc [OF this] have pos: "0 < tt_free t1 CONTEXT_RESERVED"
      by (simp add: f1) (metis unat_gt_0 word_gt_0 zero_less_Suc Suc_eq_plus1)
    have f2: "tt_free t2 = tt_free t" by (auto simp: t2_def tt_count_def f1)
    have w2: "tt_wf t2"
      by (rule tt_move_wf [OF w1 pos, of CONTEXT_NORMAL]) (auto simp: t2_def tt_count_def tt_size_def)
    have "ReserveThread PHASE_COMMIT cyc t = Inr t1" "UnreserveThread PHASE_COMMIT cyc t1 = Inr t2"
      using tt_wf_checked [OF assms] tt_wf_checked [OF w1] tt_wf_checked [OF w2]
      by (simp_all add: ReserveThread_def UnreserveThread_def t1_def [symmetric] t2_def [symmetric])
    then show "\<exists>t1 t2. ReserveThread PHASE_COMMIT cyc t = Inr t1 \<and> tt_wf t1
            \<and> tt_free t1 CONTEXT_NORMAL = tt_free t CONTEXT_NORMAL - 1
            \<and> tt_free t1 CONTEXT_RESERVED = tt_free t CONTEXT_RESERVED + 1
            \<and> UnreserveThread PHASE_COMMIT cyc t1 = Inr t2 \<and> tt_free t2 = tt_free t"
      using w1 f1 f2 by auto
  }
qed

theorem ReserveThread_moves_witness:
  "UnreserveThread PHASE_COMMIT 3 (thread_table_init 4) = Inl AssertionFailure
   \<and> (\<exists>t1. ReserveThread PHASE_COMMIT 3 (thread_table_init 4) = Inr t1 \<and> tt_free t1 CONTEXT_NORMAL = 2)"
proof -
  have "tt_wf (thread_table_init 4)" by (rule thread_table_init_wf) (simp_all add: INVALID_TID_def)
  from ReserveThread_moves [OF this, of 3] show ?thesis by (auto simp: thread_table_init_def)
qed

end
