(* ===== verification/Register_File.thy ===== *)
theory Register_File
  imports Thread_Table
begin

text \<open>
  \<open>RegisterFile\<close> (arch/drisc/RegisterFile.h, arch/drisc/RegisterFile.cpp): the registers with
  their state bits. Writes of a cycle are queued and applied by the update; a write of a full value
  over a register that threads wait on hands these threads to the allocator, which is a function
  argument of the model (it says whether the threads could be queued, and changes its own state).
\<close>

datatype RegType = RT_INTEGER | RT_FLOAT

datatype RegState = RST_INVALID | RST_EMPTY | RST_PENDING | RST_WAITING | RST_FULL

record RegAddr =
  ra_type :: RegType
  ra_index :: nat

record ThreadQueue =
  tq_head :: nat
  tq_tail :: nat

record MemoryRequest =
  mr_next :: RegAddr
  mr_fid :: nat
  mr_size :: nat
  mr_offset :: nat
  mr_sign_extend :: bool

text \<open>The value and the pair of wait queue and memory request share their storage in the source;
  the value is only used in the full state and the other two only in the other states.\<close>

record RegValue =
  rv_state :: RegState
  rv_value :: u64
  rv_waiting :: ThreadQueue
  rv_memory :: MemoryRequest

text \<open>\<open>MAKE_EMPTY_REG\<close> leaves the other members as they are; they are an argument here.\<close>

definition MAKE_EMPTY_REG :: "RegValue \<Rightarrow> RegValue" where
  "MAKE_EMPTY_REG junk = junk\<lparr>rv_state := RST_EMPTY,
     rv_waiting := (rv_waiting junk)\<lparr>tq_head := INVALID_TID\<rparr>,
     rv_memory := (rv_memory junk)\<lparr>mr_size := 0\<rparr>\<rparr>"

definition MAX_UPDATES :: nat where
  "MAX_UPDATES = 2"

record RegisterFile =
  rf_files :: "RegType \<Rightarrow> RegValue list"
  rf_updates :: "(RegAddr \<times> RegValue) list"
  rf_activated :: bool

definition RegisterFile_init :: "RegValue \<Rightarrow> (RegType \<Rightarrow> nat) \<Rightarrow> RegisterFile" where
  "RegisterFile_init junk sizes =
     \<lparr>rf_files = (\<lambda>t. replicate (sizes t) (MAKE_EMPTY_REG junk)), rf_updates = [], rf_activated = False\<rparr>"

definition rf_valid :: "RegisterFile \<Rightarrow> RegAddr \<Rightarrow> bool" where
  "rf_valid rf addr = (ra_index addr < length (rf_files rf (ra_type addr)))"

definition rf_reg :: "RegisterFile \<Rightarrow> RegAddr \<Rightarrow> RegValue" where
  "rf_reg rf addr = rf_files rf (ra_type addr) ! ra_index addr"

definition rf_set :: "RegAddr \<Rightarrow> RegValue \<Rightarrow> RegisterFile \<Rightarrow> RegisterFile" where
  "rf_set addr v rf = rf\<lparr>rf_files := (rf_files rf)(ra_type addr :=
     (rf_files rf (ra_type addr))[ra_index addr := v])\<rparr>"

definition ReadRegister :: "RegAddr \<Rightarrow> RegisterFile \<Rightarrow> RegValue res" where
  "ReadRegister addr rf = (if \<not> rf_valid rf addr then Inl SimulationException else Inr (rf_reg rf addr))"

definition AdminWriteRegister :: "RegAddr \<Rightarrow> RegValue \<Rightarrow> RegisterFile \<Rightarrow> bool \<times> RegisterFile" where
  "AdminWriteRegister addr v rf = (if rf_valid rf addr then (True, rf_set addr v rf) else (False, rf))"

text \<open>The sum of the bounds check is a 32-bit sum.\<close>

definition rf_Clear :: "CyclePhase \<Rightarrow> RegValue \<Rightarrow> RegAddr \<Rightarrow> nat \<Rightarrow> RegisterFile \<Rightarrow> RegisterFile res" where
  "rf_Clear ph junk addr n rf =
     (if length (rf_files rf (ra_type addr)) < (ra_index addr + n) mod 2 ^ 32
      then Inl SimulationException
      else if ph \<noteq> PHASE_COMMIT then Inr rf
      else if length (rf_files rf (ra_type addr)) < ra_index addr + n then Inl UndefinedBehaviour
      else Inr (fold (\<lambda>i. rf_set (addr\<lparr>ra_index := ra_index addr + i\<rparr>) (MAKE_EMPTY_REG junk)) [0..<n] rf))"

text \<open>The end of \<open>WriteRegister\<close>: the update is queued.\<close>

definition rf_queue :: "CyclePhase \<Rightarrow> RegAddr \<Rightarrow> RegValue \<Rightarrow> RegisterFile \<Rightarrow> RegisterFile res" where
  "rf_queue ph addr data rf =
     (if ph \<noteq> PHASE_COMMIT then Inr rf
      else assert_that (list_all (\<lambda>u. fst u \<noteq> addr) (rf_updates rf))
             (assert_that (length (rf_updates rf) < MAX_UPDATES)
                (Inr (rf\<lparr>rf_updates := rf_updates rf @ [(addr, data)],
                        rf_activated := rf_activated rf \<or> rf_updates rf = []\<rparr>))))"

text \<open>The checks of a write over a register that is not full, the wake-up and the queueing.\<close>

definition rf_refused :: "RegValue \<Rightarrow> RegValue \<Rightarrow> bool \<Rightarrow> bool" where
  "rf_refused old data from_memory =
     (rv_state old \<noteq> RST_FULL \<and>
      (rv_state old = RST_WAITING \<and> rv_state data = RST_EMPTY
       \<or> mr_size (rv_memory old) \<noteq> 0
         \<and> (rv_state data = RST_FULL \<or> rv_memory data \<noteq> rv_memory old) \<and> \<not> from_memory))"

definition rf_wakes :: "RegValue \<Rightarrow> RegValue \<Rightarrow> bool" where
  "rf_wakes old data = (rv_state data = RST_FULL \<and> rv_state old = RST_WAITING
     \<and> tq_head (rv_waiting old) \<noteq> INVALID_TID)"

definition rf_well_formed :: "RegValue \<Rightarrow> bool" where
  "rf_well_formed data = (rv_state data \<noteq> RST_INVALID
     \<and> (rv_state data = RST_EMPTY \<or> rv_state data = RST_PENDING \<longrightarrow> tq_head (rv_waiting data) = INVALID_TID))"

definition WriteRegister :: "CyclePhase \<Rightarrow> (ThreadQueue \<Rightarrow> 'a \<Rightarrow> (bool \<times> 'a) res) \<Rightarrow> RegAddr \<Rightarrow> RegValue \<Rightarrow> bool
    \<Rightarrow> RegisterFile \<times> 'a \<Rightarrow> (bool \<times> RegisterFile \<times> 'a) res" where
  "WriteRegister ph activate addr data from_memory s = (case s of (rf, a) \<Rightarrow>
     if \<not> rf_valid rf addr then Inl SimulationException
     else assert_that (rf_well_formed data)
       (let old = rf_reg rf addr in
        if rf_refused old data from_memory then Inl SimulationException
        else if rf_wakes old data
        then res_bind (activate (rv_waiting old) a) (\<lambda>(ok, a').
                if ok then res_bind (rf_queue ph addr data rf) (\<lambda>rf'. Inr (True, rf', a'))
                else Inr (False, rf, a'))
        else res_bind (rf_queue ph addr data rf) (\<lambda>rf'. Inr (True, rf', a))))"

definition rf_Update :: "RegisterFile \<Rightarrow> RegisterFile res" where
  "rf_Update rf = assert_that (rf_updates rf \<noteq> [])
     (res_bind (res_fold (\<lambda>(addr, v) rf. if rf_valid rf addr then Inr (rf_set addr v rf)
                                         else Inl UndefinedBehaviour) (rf_updates rf) rf)
       (\<lambda>rf'. Inr (rf'\<lparr>rf_updates := [], rf_activated := False\<rparr>)))"

text \<open>What the floating point unit asks; \<open>port\<close> is the answer of the write port.\<close>

definition CheckFPUOutputAvailability :: "bool \<Rightarrow> RegAddr \<Rightarrow> RegisterFile \<Rightarrow> bool res" where
  "CheckFPUOutputAvailability port addr rf =
     (if \<not> port then Inr False
      else res_bind (ReadRegister addr rf) (\<lambda>v.
        Inr (rv_state v = RST_PENDING \<or> rv_state v = RST_WAITING)))"

definition WriteFPUResult :: "CyclePhase \<Rightarrow> (ThreadQueue \<Rightarrow> 'a \<Rightarrow> (bool \<times> 'a) res) \<Rightarrow> RegAddr \<Rightarrow> RegValue
    \<Rightarrow> RegisterFile \<times> 'a \<Rightarrow> (bool \<times> RegisterFile \<times> 'a) res" where
  "WriteFPUResult ph activate addr v s = WriteRegister ph activate addr v False s"

section \<open>Cycles\<close>

text \<open>The writes that reach the register file in one commit phase, then the update of the storage,
  which the kernel calls when the storage is registered.\<close>

type_synonym reg_write = "RegAddr \<times> RegValue \<times> bool"

fun rf_writes :: "(ThreadQueue \<Rightarrow> 'a \<Rightarrow> bool \<times> 'a) \<Rightarrow> reg_write list
    \<Rightarrow> RegisterFile \<times> 'a \<Rightarrow> (RegisterFile \<times> 'a) res" where
  "rf_writes activate [] s = Inr s"
| "rf_writes activate ((addr, data, fm) # ws) s =
     res_bind (WriteRegister PHASE_COMMIT (\<lambda>q a. Inr (activate q a)) addr data fm s) (\<lambda>(ok, s'). rf_writes activate ws s')"

definition rf_cycle :: "(ThreadQueue \<Rightarrow> 'a \<Rightarrow> bool \<times> 'a) \<Rightarrow> reg_write list
    \<Rightarrow> RegisterFile \<times> 'a \<Rightarrow> (RegisterFile \<times> 'a) res" where
  "rf_cycle activate ws s = res_bind (rf_writes activate ws s) (\<lambda>(rf, a).
     if rf_activated rf then res_bind (rf_Update rf) (\<lambda>rf'. Inr (rf', a)) else Inr (rf, a))"

definition rf_may_write :: "RegisterFile \<Rightarrow> reg_write \<Rightarrow> bool" where
  "rf_may_write rf w = (case w of (addr, data, fm) \<Rightarrow>
     rf_valid rf addr \<and> rf_well_formed data \<and> \<not> rf_refused (rf_reg rf addr) data fm)"

text \<open>The queues of waiting threads that the writes wake up, in order.\<close>

definition rf_woken :: "RegisterFile \<Rightarrow> reg_write list \<Rightarrow> ThreadQueue list" where
  "rf_woken rf ws = map (\<lambda>(addr, _). rv_waiting (rf_reg rf addr))
     (filter (\<lambda>(addr, data, _). rf_wakes (rf_reg rf addr) data) ws)"

lemma rf_set_valid [simp]: "rf_valid (rf_set a v rf) b = rf_valid rf b"
  by (simp add: rf_valid_def rf_set_def)

lemma rf_set_reg: "rf_valid rf a \<Longrightarrow> rf_reg (rf_set a v rf) b = (if b = a then v else rf_reg rf b)"
  by (cases a; cases b) (auto simp: rf_valid_def rf_set_def rf_reg_def)

lemma rf_apply_all:
  assumes "\<forall>u\<in>set us. rf_valid rf (fst u)" and "distinct (map fst us)"
  shows "\<exists>rf'. res_fold (\<lambda>(addr, v) rf. if rf_valid rf addr then Inr (rf_set addr v rf)
      else Inl UndefinedBehaviour) us rf = Inr rf'
    \<and> (\<forall>b. rf_valid rf' b = rf_valid rf b)
    \<and> (\<forall>b. rf_reg rf' b = (case map_of us b of Some v \<Rightarrow> v | None \<Rightarrow> rf_reg rf b))"
  using assms
proof (induction us arbitrary: rf)
  case (Cons u us)
  obtain addr v where u: "u = (addr, v)" by (cases u)
  have va: "rf_valid rf addr" using Cons.prems(1) u by simp
  have none: "map_of us addr = None" using Cons.prems(2) u by (simp add: map_of_eq_None_iff)
  have "\<forall>u\<in>set us. rf_valid (rf_set addr v rf) (fst u)" "distinct (map fst us)"
    using Cons.prems by simp_all
  from Cons.IH [OF this] obtain rf' where
    rf': "res_fold (\<lambda>(addr, v) rf. if rf_valid rf addr then Inr (rf_set addr v rf)
      else Inl UndefinedBehaviour) us (rf_set addr v rf) = Inr rf'"
      "\<forall>b. rf_valid rf' b = rf_valid rf b"
      "\<forall>b. rf_reg rf' b = (case map_of us b of Some v \<Rightarrow> v | None \<Rightarrow> rf_reg (rf_set addr v rf) b)"
    by auto
  have "rf_reg rf' b = (case map_of (u # us) b of Some v \<Rightarrow> v | None \<Rightarrow> rf_reg rf b)" for b
    using rf'(3) none va u by (cases "b = addr") (auto simp: rf_set_reg split: option.splits)
  then show ?case using rf'(1,2) u va by simp
qed simp

lemma rf_Update_spec:
  assumes "rf_updates rf \<noteq> []" and "\<forall>u\<in>set (rf_updates rf). rf_valid rf (fst u)"
    and "distinct (map fst (rf_updates rf))"
  shows "\<exists>rf'. rf_Update rf = Inr rf' \<and> rf_updates rf' = [] \<and> \<not> rf_activated rf'
    \<and> (\<forall>b. rf_valid rf' b = rf_valid rf b)
    \<and> (\<forall>b. rf_reg rf' b = (case map_of (rf_updates rf) b of Some v \<Rightarrow> v | None \<Rightarrow> rf_reg rf b))"
  using rf_apply_all [OF assms(2,3)] assms(1)
  by (auto simp: rf_Update_def rf_valid_def rf_reg_def)

lemma rf_queue_reg [simp]:
  "rf_valid (rf\<lparr>rf_updates := us, rf_activated := b\<rparr>) addr = rf_valid rf addr"
  "rf_reg (rf\<lparr>rf_updates := us, rf_activated := b\<rparr>) addr = rf_reg rf addr"
  by (simp_all add: rf_valid_def rf_reg_def)

lemma rf_queue_updates: "rf_queue ph addr data rf = Inr rf' \<Longrightarrow>
    (\<forall>b. rf_valid rf' b = rf_valid rf b) \<and> (\<forall>b. rf_reg rf' b = rf_reg rf b)
    \<and> (rf' = rf \<or> rf_updates rf' = rf_updates rf @ [(addr, data)]
        \<and> rf_activated rf' = (rf_activated rf \<or> rf_updates rf = []) \<and> addr \<notin> fst ` set (rf_updates rf))"
  by (auto simp: rf_queue_def list_all_iff split: if_splits)

lemma rf_writes_spec:
  assumes "\<And>q a. fst (activate q a)" and "distinct (map fst (rf_updates rf) @ map fst ws)"
    and "length (rf_updates rf) + length ws \<le> MAX_UPDATES" and "\<forall>w\<in>set ws. rf_may_write rf w"
  shows "rf_writes activate ws (rf, a) = Inr
    (rf\<lparr>rf_updates := rf_updates rf @ map (\<lambda>(addr, data, _). (addr, data)) ws,
        rf_activated := rf_activated rf \<or> rf_updates rf = [] \<and> ws \<noteq> []\<rparr>,
     fold (\<lambda>q a. snd (activate q a)) (rf_woken rf ws) a)"
  using assms(2-)
proof (induction ws arbitrary: rf a)
  case (Cons w ws)
  obtain addr data fm where w: "w = (addr, data, fm)" by (cases w)
  let ?rf = "rf\<lparr>rf_updates := rf_updates rf @ [(addr, data)],
    rf_activated := rf_activated rf \<or> rf_updates rf = []\<rparr>"
  have may: "rf_valid rf addr" "rf_well_formed data" "\<not> rf_refused (rf_reg rf addr) data fm"
    using Cons.prems(3) w by (simp_all add: rf_may_write_def)
  have q: "rf_queue PHASE_COMMIT addr data rf = Inr ?rf"
    using Cons.prems(1,2) w by (auto simp: rf_queue_def list_all_iff)
  have one: "WriteRegister PHASE_COMMIT (\<lambda>q a. Inr (activate q a)) addr data fm (rf, a)
      = Inr (True, ?rf, fold (\<lambda>q a. snd (activate q a)) (rf_woken rf [w]) a)"
    using may q assms(1) [of "rv_waiting (rf_reg rf addr)" a] w
    by (cases "activate (rv_waiting (rf_reg rf addr)) a") (auto simp: WriteRegister_def rf_woken_def)
  have "rf_writes activate ws (?rf, fold (\<lambda>q a. snd (activate q a)) (rf_woken rf [w]) a) = Inr
    (?rf\<lparr>rf_updates := rf_updates ?rf @ map (\<lambda>(addr, data, _). (addr, data)) ws,
        rf_activated := rf_activated ?rf \<or> rf_updates ?rf = [] \<and> ws \<noteq> []\<rparr>,
     fold (\<lambda>q a. snd (activate q a)) (rf_woken ?rf ws)
       (fold (\<lambda>q a. snd (activate q a)) (rf_woken rf [w]) a))"
    using Cons.prems w by (intro Cons.IH) (auto simp: rf_may_write_def)
  moreover have "rf_woken ?rf ws = rf_woken rf ws" by (simp add: rf_woken_def)
  ultimately show ?case using one w by (auto simp: rf_woken_def)
qed (simp add: rf_woken_def)

text \<open>
  C23. The writes of a cycle to at most two different registers, each allowed by the state of its
  register, change no register before the update and trip no assertion; the update applies them
  together, and exactly the queues of threads that wait on a register that became full have been
  handed to the allocator, in order.
\<close>

theorem rf_cycle_applies_writes:
  assumes "\<And>q a. fst (activate q a)" and "rf_updates rf = []" and "\<not> rf_activated rf"
    and "distinct (map fst ws)" and "length ws \<le> MAX_UPDATES" and "\<forall>w\<in>set ws. rf_may_write rf w"
  shows "\<exists>rf1 rf2. rf_writes activate ws (rf, a)
        = Inr (rf1, fold (\<lambda>q a. snd (activate q a)) (rf_woken rf ws) a)
    \<and> (\<forall>b. ReadRegister b rf1 = ReadRegister b rf)
    \<and> rf_cycle activate ws (rf, a) = Inr (rf2, fold (\<lambda>q a. snd (activate q a)) (rf_woken rf ws) a)
    \<and> (\<forall>b. ReadRegister b rf2 = (case map_of ws b of Some (data, _) \<Rightarrow> Inr data | None \<Rightarrow> ReadRegister b rf))
    \<and> rf_updates rf2 = [] \<and> \<not> rf_activated rf2"
proof -
  let ?us = "map (\<lambda>(addr, data, _). (addr, data)) ws"
  let ?rf1 = "rf\<lparr>rf_updates := ?us, rf_activated := ws \<noteq> []\<rparr>"
  let ?a = "fold (\<lambda>q a. snd (activate q a)) (rf_woken rf ws) a"
  have w: "rf_writes activate ws (rf, a) = Inr (?rf1, ?a)"
    using rf_writes_spec [where activate = activate and rf = rf and ws = ws and a = a, OF assms(1)] assms(2-) by simp
  have same: "\<forall>b. ReadRegister b ?rf1 = ReadRegister b rf" by (simp add: ReadRegister_def)
  show ?thesis
  proof (cases "ws = []")
    case True
    then have "?rf1 = rf" using assms(2,3) by simp
    then show ?thesis using w same assms(2,3) True by (simp add: rf_cycle_def)
  next
    case False
    have fst_us: "map fst ?us = map fst ws" by (simp add: case_prod_beta comp_def)
    have "\<forall>u\<in>set ?us. rf_valid ?rf1 (fst u)" using assms(6) by (auto simp: rf_may_write_def)
    moreover have "distinct (map fst ?us)" using assms(4) by (simp only: fst_us)
    ultimately obtain rf2 where rf2: "rf_Update ?rf1 = Inr rf2" "rf_updates rf2 = []" "\<not> rf_activated rf2"
        "\<forall>b. rf_valid rf2 b = rf_valid ?rf1 b"
        "\<forall>b. rf_reg rf2 b = (case map_of ?us b of Some v \<Rightarrow> v | None \<Rightarrow> rf_reg ?rf1 b)"
      using rf_Update_spec [of ?rf1] False by (auto simp del: rf_queue_reg)
    have m: "map_of ?us b = map_option fst (map_of ws b)" for b by (induction ws) auto
    have valid: "map_of ws b \<noteq> None \<Longrightarrow> rf_valid rf b" for b
      using assms(6) by (auto simp: rf_may_write_def dest!: map_of_SomeD)
    have "ReadRegister b rf2 = (case map_of ws b of Some (data, _) \<Rightarrow> Inr data | None \<Rightarrow> ReadRegister b rf)" for b
      using rf2(4,5) m [of b] valid [of b]
      by (auto simp: ReadRegister_def split: option.splits prod.splits)
    then show ?thesis using w same rf2(1-3) False by (simp add: rf_cycle_def)
  qed
qed

definition rf_example :: "RegisterFile" where
  "rf_example = \<lparr>rf_files = (\<lambda>t. replicate 2 \<lparr>rv_state = RST_WAITING, rv_value = 0,
       rv_waiting = \<lparr>tq_head = 3, tq_tail = 4\<rparr>,
       rv_memory = \<lparr>mr_next = \<lparr>ra_type = RT_INTEGER, ra_index = 0\<rparr>, mr_fid = 0, mr_size = 0,
                     mr_offset = 0, mr_sign_extend = False\<rparr>\<rparr>),
     rf_updates = [], rf_activated = False\<rparr>"

theorem rf_cycle_applies_writes_witness:
  "\<exists>rf2. rf_cycle (\<lambda>q a. (True, a @ [q]))
      [(\<lparr>ra_type = RT_INTEGER, ra_index = 1\<rparr>,
        (rf_reg rf_example \<lparr>ra_type = RT_INTEGER, ra_index = 1\<rparr>)\<lparr>rv_state := RST_FULL, rv_value := 7\<rparr>, False)]
      (rf_example, []) = Inr (rf2, [\<lparr>tq_head = 3, tq_tail = 4\<rparr>])"
proof -
  let ?w = "(\<lparr>ra_type = RT_INTEGER, ra_index = 1\<rparr>,
        (rf_reg rf_example \<lparr>ra_type = RT_INTEGER, ra_index = 1\<rparr>)\<lparr>rv_state := RST_FULL, rv_value := 7\<rparr>, False)"
  have woken: "rf_woken rf_example [?w] = [\<lparr>tq_head = 3, tq_tail = 4\<rparr>]"
    by (simp add: rf_woken_def rf_wakes_def rf_reg_def rf_example_def INVALID_TID_def)
  have "rf_may_write rf_example ?w"
    by (simp add: rf_may_write_def rf_valid_def rf_well_formed_def rf_refused_def rf_reg_def
        rf_example_def)
  then have may: "\<forall>w\<in>set [?w]. rf_may_write rf_example w" by simp
  have idle: "rf_updates rf_example = []" "\<not> rf_activated rf_example" by (simp_all add: rf_example_def)
  have "distinct (map fst [?w])" "length [?w] \<le> MAX_UPDATES" by (simp_all add: MAX_UPDATES_def)
  from rf_cycle_applies_writes [where activate = "\<lambda>q a. (True, a @ [q])" and a = "[]",
      OF _ idle this may]
  have "\<exists>rf2. rf_cycle (\<lambda>q a. (True, a @ [q])) [?w] (rf_example, [])
      = Inr (rf2, fold (\<lambda>q a. a @ [q]) (rf_woken rf_example [?w]) [])" by auto
  then show ?thesis unfolding woken by simp
qed

section \<open>Pending loads\<close>

text \<open>A register that waits for the memory request \<open>m\<close>.\<close>

definition rv_pending_load :: "MemoryRequest \<Rightarrow> RegValue \<Rightarrow> bool" where
  "rv_pending_load m v \<longleftrightarrow> rv_state v \<noteq> RST_FULL \<and> rv_memory v = m \<and> mr_size m \<noteq> 0"

definition rf_pending_load :: "RegAddr \<Rightarrow> MemoryRequest \<Rightarrow> RegisterFile \<Rightarrow> bool" where
  "rf_pending_load addr m rf \<longleftrightarrow> rv_pending_load m (rf_reg rf addr)
     \<and> (\<forall>u\<in>set (rf_updates rf). fst u = addr \<longrightarrow> rv_pending_load m (snd u))
     \<and> (rf_activated rf \<longleftrightarrow> rf_updates rf \<noteq> [])"

lemma WriteRegister_queues:
  assumes "WriteRegister ph activate b data fm (rf, a) = Inr (ok, rf', a')"
  shows "(\<forall>b. rf_reg rf' b = rf_reg rf b) \<and> (rf' = rf \<or> \<not> rf_refused (rf_reg rf b) data fm
    \<and> rf_updates rf' = rf_updates rf @ [(b, data)] \<and> rf_activated rf' = (rf_activated rf \<or> rf_updates rf = []))"
  using assms
  by (auto simp: WriteRegister_def Let_def res_bind_Inr split: if_splits prod.splits
      dest!: rf_queue_updates)

lemma WriteRegister_pending:
  assumes "WriteRegister ph activate b data fm (rf, a) = Inr (ok, rf', a')"
    and "rf_pending_load addr m rf" and "b = addr \<Longrightarrow> \<not> fm"
  shows "rf_pending_load addr m rf'"
proof -
  have q: "rf_reg rf' addr = rf_reg rf addr" "rf' = rf \<or> \<not> rf_refused (rf_reg rf b) data fm
    \<and> rf_updates rf' = rf_updates rf @ [(b, data)] \<and> rf_activated rf' = (rf_activated rf \<or> rf_updates rf = [])"
    using WriteRegister_queues [OF assms(1)] by simp_all
  have "b = addr \<Longrightarrow> \<not> rf_refused (rf_reg rf b) data fm \<Longrightarrow> rv_pending_load m data"
    using assms(2,3) by (auto simp: rf_refused_def rf_pending_load_def rv_pending_load_def)
  then show ?thesis using q assms(2) unfolding rf_pending_load_def by fastforce
qed

lemma rf_writes_pending:
  "rf_writes activate ws (rf, a) = Inr (rf', a') \<Longrightarrow> rf_pending_load addr m rf \<Longrightarrow>
   (\<And>b d fm. (b, d, fm) \<in> set ws \<Longrightarrow> b = addr \<Longrightarrow> \<not> fm) \<Longrightarrow> rf_pending_load addr m rf'"
proof (induction ws arbitrary: rf a)
  case (Cons w ws)
  obtain b d fm where w: "w = (b, d, fm)" by (cases w)
  obtain ok rf1 a1 where 1: "WriteRegister PHASE_COMMIT (\<lambda>q a. Inr (activate q a)) b d fm (rf, a) = Inr (ok, rf1, a1)"
      "rf_writes activate ws (rf1, a1) = Inr (rf', a')"
    using Cons.prems(1) w by (auto simp: res_bind_Inr)
  have "rf_pending_load addr m rf1"
    using WriteRegister_pending [OF 1(1) Cons.prems(2)] Cons.prems(3) w by auto
  then show ?case using Cons.IH [OF 1(2)] Cons.prems(3) by auto
qed simp

lemma rf_Update_pending:
  assumes "rf_Update rf = Inr rf'" and "rf_pending_load addr m rf"
  shows "rf_pending_load addr m rf'"
proof -
  obtain rf1 where 1: "res_fold (\<lambda>(addr, v) rf. if rf_valid rf addr then Inr (rf_set addr v rf)
      else Inl UndefinedBehaviour) (rf_updates rf) rf = Inr rf1"
      "rf' = rf1\<lparr>rf_updates := [], rf_activated := False\<rparr>"
    using assms(1) by (auto simp: rf_Update_def res_bind_Inr)
  have "rv_pending_load m (rf_reg rf1 addr)"
  proof (rule res_fold_invariant [where P = "\<lambda>rf. rv_pending_load m (rf_reg rf addr)", OF 1(1)])
    show "rv_pending_load m (rf_reg rf addr)" using assms(2) by (simp add: rf_pending_load_def)
    fix u s s'
    assume u: "u \<in> set (rf_updates rf)" "rv_pending_load m (rf_reg s addr)"
      "(case u of (addr, v) \<Rightarrow> \<lambda>rf. if rf_valid rf addr then Inr (rf_set addr v rf)
          else Inl UndefinedBehaviour) s = Inr s'"
    then show "rv_pending_load m (rf_reg s' addr)"
      using assms(2) by (auto simp: rf_pending_load_def rf_set_reg split: if_splits prod.splits)
  qed
  then show ?thesis using 1(2) by (simp add: rf_pending_load_def rf_reg_def)
qed

lemma rf_cycle_pending:
  assumes "rf_cycle activate ws s = Inr s'" and "rf_pending_load addr m (fst s)"
    and "\<And>b d fm. (b, d, fm) \<in> set ws \<Longrightarrow> b = addr \<Longrightarrow> \<not> fm"
  shows "rf_pending_load addr m (fst s')"
proof -
  obtain rf a where s: "s = (rf, a)" by (cases s)
  obtain rf1 a1 where 1: "rf_writes activate ws (rf, a) = Inr (rf1, a1)"
      "(if rf_activated rf1 then res_bind (rf_Update rf1) (\<lambda>rf'. Inr (rf', a1)) else Inr (rf1, a1)) = Inr s'"
    using assms(1) s by (auto simp: rf_cycle_def res_bind_Inr)
  have "rf_pending_load addr m rf1" using rf_writes_pending [OF 1(1)] assms(2,3) s by auto
  then show ?thesis using 1(2) rf_Update_pending by (auto simp: res_bind_Inr split: if_splits)
qed

text \<open>
  C24. A register that waits for a load stays that way, with the same memory request, through any
  sequence of cycles in which the memory itself does not write it: every other write that would
  fill it or change the request is refused.
\<close>

theorem pending_load_protected:
  assumes "res_fold (rf_cycle activate) cycles (rf, a) = Inr (rf', a')"
    and "rv_pending_load m (rf_reg rf addr)" and "rf_updates rf = []" and "\<not> rf_activated rf"
    and "\<And>ws b d fm. ws \<in> set cycles \<Longrightarrow> (b, d, fm) \<in> set ws \<Longrightarrow> b = addr \<Longrightarrow> \<not> fm"
  shows "rv_pending_load m (rf_reg rf' addr)"
proof -
  have "rf_pending_load addr m (fst (rf', a'))"
  proof (rule res_fold_invariant [where P = "\<lambda>s. rf_pending_load addr m (fst s)", OF assms(1)])
    show "rf_pending_load addr m (fst (rf, a))" using assms(2-4) by (simp add: rf_pending_load_def)
  next
    fix ws s s'
    assume "ws \<in> set cycles" "rf_pending_load addr m (fst s)" "rf_cycle activate ws s = Inr s'"
    then show "rf_pending_load addr m (fst s')" using rf_cycle_pending assms(5) by metis
  qed
  then show ?thesis by (simp add: rf_pending_load_def)
qed

definition rf_load_example :: "RegisterFile" where
  "rf_load_example = \<lparr>rf_files = (\<lambda>t. replicate 2 \<lparr>rv_state = RST_PENDING, rv_value = 0,
       rv_waiting = \<lparr>tq_head = INVALID_TID, tq_tail = 0\<rparr>,
       rv_memory = \<lparr>mr_next = \<lparr>ra_type = RT_INTEGER, ra_index = 0\<rparr>, mr_fid = 0, mr_size = 8,
                     mr_offset = 0, mr_sign_extend = False\<rparr>\<rparr>),
     rf_updates = [], rf_activated = False\<rparr>"

theorem pending_load_protected_witness:
  "\<exists>rf' a'. res_fold (rf_cycle (\<lambda>q a. (True, a)))
       [[(\<lparr>ra_type = RT_INTEGER, ra_index = 1\<rparr>, (rf_reg rf_load_example \<lparr>ra_type = RT_INTEGER, ra_index = 1\<rparr>)
            \<lparr>rv_state := RST_WAITING, rv_waiting := \<lparr>tq_head = 5, tq_tail = 5\<rparr>\<rparr>, False)]]
       (rf_load_example, ()) = Inr (rf', a')
     \<and> rv_pending_load (rv_memory (rf_reg rf_load_example \<lparr>ra_type = RT_INTEGER, ra_index = 1\<rparr>))
         (rf_reg rf' \<lparr>ra_type = RT_INTEGER, ra_index = 1\<rparr>)"
proof -
  let ?addr = "\<lparr>ra_type = RT_INTEGER, ra_index = 1\<rparr>"
  let ?cs = "[[(?addr, (rf_reg rf_load_example ?addr)
            \<lparr>rv_state := RST_WAITING, rv_waiting := \<lparr>tq_head = 5, tq_tail = 5\<rparr>\<rparr>, False)]]"
  have "\<exists>s. res_fold (rf_cycle (\<lambda>q a. (True, a))) ?cs (rf_load_example, ()) = Inr s"
    by (simp add: rf_cycle_def WriteRegister_def rf_load_example_def rf_valid_def rf_reg_def
        rf_well_formed_def rf_refused_def rf_wakes_def rf_queue_def rf_Update_def MAX_UPDATES_def)
  then obtain rf' a' where run: "res_fold (rf_cycle (\<lambda>q a. (True, a))) ?cs (rf_load_example, ()) = Inr (rf', a')"
    by auto
  have "rv_pending_load (rv_memory (rf_reg rf_load_example ?addr)) (rf_reg rf' ?addr)"
    by (rule pending_load_protected [OF run])
      (auto simp: rv_pending_load_def rf_load_example_def rf_reg_def)
  with run show ?thesis by blast
qed

end
