(* ===== verification/Ordered_Map.thy ===== *)
theory Ordered_Map
  imports Prelude
begin

text \<open>
  \<open>std::map\<close> as a list of pairs in ascending order of the keys, so that an iterator is a suffix of
  the list: \<open>lower_bound\<close>, \<open>insert\<close> and \<open>erase\<close>.
\<close>

definition om_wf :: "('k::linorder \<times> 'v) list \<Rightarrow> bool" where
  "om_wf m \<longleftrightarrow> sorted_wrt (<) (map fst m)"

definition om_before :: "'k::linorder \<Rightarrow> ('k \<times> 'v) list \<Rightarrow> ('k \<times> 'v) list" where
  "om_before k m = takeWhile (\<lambda>p. fst p < k) m"

definition om_lower_bound :: "'k::linorder \<Rightarrow> ('k \<times> 'v) list \<Rightarrow> ('k \<times> 'v) list" where
  "om_lower_bound k m = dropWhile (\<lambda>p. fst p < k) m"

text \<open>Setting the value of a key, new or old.\<close>

fun om_set :: "'k::linorder \<Rightarrow> 'v \<Rightarrow> ('k \<times> 'v) list \<Rightarrow> ('k \<times> 'v) list" where
  "om_set k v [] = [(k, v)]"
| "om_set k v ((j, w) # m) =
     (if j < k then (j, w) # om_set k v m else if j = k then (k, v) # m else (k, v) # (j, w) # m)"

definition om_erase :: "'k::linorder \<Rightarrow> ('k \<times> 'v) list \<Rightarrow> ('k \<times> 'v) list" where
  "om_erase k m = filter (\<lambda>p. fst p \<noteq> k) m"

lemma om_wf_Cons [simp]: "om_wf (p # m) \<longleftrightarrow> (\<forall>q\<in>set m. fst p < fst q) \<and> om_wf m"
  by (simp add: om_wf_def)

lemma om_wf_Nil [simp]: "om_wf []"
  by (simp add: om_wf_def)

lemma om_wf_append: "om_wf (m @ n) \<longleftrightarrow> om_wf m \<and> om_wf n \<and> (\<forall>p\<in>set m. \<forall>q\<in>set n. fst p < fst q)"
  by (induction m) auto

lemma om_wf_distinct: "om_wf m \<Longrightarrow> distinct (map fst m)"
  by (induction m) auto

lemma om_split: "om_before k m @ om_lower_bound k m = m"
  by (simp add: om_before_def om_lower_bound_def)

lemma om_before_less: "p \<in> set (om_before k m) \<Longrightarrow> fst p < k"
  unfolding om_before_def by (meson set_takeWhileD)

lemma om_lower_bound_ge: "om_wf m \<Longrightarrow> p \<in> set (om_lower_bound k m) \<Longrightarrow> k \<le> fst p"
proof (induction m)
  case (Cons q m)
  then show ?case by (cases "fst q < k") (auto simp: om_lower_bound_def)
qed (simp add: om_lower_bound_def)

lemma om_set_map_of: "om_wf m \<Longrightarrow> map_of (om_set k v m) = (map_of m)(k \<mapsto> v)"
  by (induction k v m rule: om_set.induct) auto

lemma om_set_set: "om_wf m \<Longrightarrow> k \<notin> fst ` set m \<Longrightarrow> set (om_set k v m) = insert (k, v) (set m)"
  by (induction k v m rule: om_set.induct) auto

lemma om_set_keys: "fst ` set (om_set k v m) = insert k (fst ` set m)"
  by (induction k v m rule: om_set.induct) auto

lemma om_set_wf: "om_wf m \<Longrightarrow> om_wf (om_set k v m)"
proof (induction k v m rule: om_set.induct)
  case (2 k v j w m)
  have "fst q \<in> insert k (fst ` set m)" if "q \<in> set (om_set k v m)" for q
    using that om_set_keys [of k v m] by blast
  then show ?case using 2 by (fastforce split: if_splits)
qed simp

lemma om_set_values: "p \<in> set (om_set k v m) \<Longrightarrow> p = (k, v) \<or> p \<in> set m"
  by (induction k v m rule: om_set.induct) (auto split: if_splits)

lemma om_set_length: "length (om_set k v m) = length m + of_bool (k \<notin> fst ` set m \<and> om_wf m)"
  if "om_wf m"
  using that by (induction k v m rule: om_set.induct) (auto split: if_splits)

lemma om_erase_wf: "om_wf m \<Longrightarrow> om_wf (om_erase k m)"
  by (induction m) (auto simp: om_erase_def)

lemma om_filter_wf: "om_wf m \<Longrightarrow> om_wf (filter P m)"
  by (induction m) auto

lemma om_sum_insert:
  "om_wf m \<Longrightarrow> k \<notin> fst ` set m \<Longrightarrow>
   sum_list (map f (om_set k v m)) = f (k, v) + (sum_list (map f m) :: 'c::comm_monoid_add)"
  by (induction k v m rule: om_set.induct) (auto simp: ac_simps split: if_splits)

lemma om_sum_erase:
  "om_wf m \<Longrightarrow> (k, v) \<in> set m \<Longrightarrow>
   f (k, v) + sum_list (map f (om_erase k m)) = (sum_list (map f m) :: 'c::comm_monoid_add)"
proof (induction m)
  case (Cons p m)
  show ?case
  proof (cases "p = (k, v)")
    case True
    then have "\<forall>q\<in>set m. fst q \<noteq> k" using Cons.prems(1) by auto
    then have "om_erase k m = m" by (simp add: om_erase_def filter_id_conv)
    then show ?thesis using True by (simp add: om_erase_def)
  next
    case False
    then have "(k, v) \<in> set m" using Cons.prems(2) by simp
    moreover have "fst p \<noteq> k" using Cons.prems(1) calculation by fastforce
    ultimately show ?thesis using Cons by (simp add: om_erase_def ac_simps)
  qed
qed simp

end
