(* ===== verification/Virtual_Memory.thy ===== *)
theory Virtual_Memory
  imports Ordered_Map
begin

text \<open>
  \<open>VirtualMemory\<close> (arch/VirtualMemory.h, arch/VirtualMemory.cpp): the reservations of the address
  space with their permissions, and the contents of the memory in blocks of 4096 bytes that come
  into being when they are written. Addresses, sizes and statistics are 64-bit, as for the
  64-bit targets.
\<close>

record vm_range =
  vr_size :: u64
  vr_owner :: nat
  vr_permissions :: u32

record virtual_memory =
  vm_blocks :: "(u64 \<times> u8 list) list"
  vm_ranges :: "(u64 \<times> vm_range) list"
  vm_total_reserved :: u64
  vm_total_allocated :: u64
  vm_number_of_ranges :: u64

definition virtual_memory_init :: virtual_memory where
  "virtual_memory_init = \<lparr>vm_blocks = [], vm_ranges = [], vm_total_reserved = 0,
     vm_total_allocated = 0, vm_number_of_ranges = 0\<rparr>"

section \<open>Reservations\<close>

definition vm_overlap_after :: "u64 \<Rightarrow> u64 \<Rightarrow> (u64 \<times> vm_range) list \<Rightarrow> bool" where
  "vm_overlap_after address n ranges = (case om_lower_bound address ranges of
     [] \<Rightarrow> False
   | (b, r) # _ \<Rightarrow> b = address \<or> (address < b \<and> b < address + n))"

definition vm_Reserve :: "u64 \<Rightarrow> u64 \<Rightarrow> nat \<Rightarrow> u32 \<Rightarrow> virtual_memory \<Rightarrow> virtual_memory res" where
  "vm_Reserve address n pid perm vm =
     (if n \<noteq> 0 then
        (let before = om_before address (vm_ranges vm);
             insert = vm\<lparr>vm_ranges := om_set address \<lparr>vr_size = n, vr_owner = pid, vr_permissions = perm\<rparr>
                                         (vm_ranges vm),
                         vm_total_reserved := vm_total_reserved vm + n,
                         vm_number_of_ranges := vm_number_of_ranges vm + 1\<rparr>
         in if vm_overlap_after address n (vm_ranges vm) then Inl InvalidArgumentException
            else if before \<noteq> []
            then (case last before of (b, r) \<Rightarrow> assert_that (b < address)
                    (if address < b + vr_size r then Inl InvalidArgumentException else Inr insert))
            else Inr insert)
      else Inr vm)"

text \<open>The iterator of \<open>GetReservationRange\<close>, as the range it points to.\<close>

definition GetReservationRange :: "u64 \<Rightarrow> u64 \<Rightarrow> virtual_memory \<Rightarrow> (u64 \<times> vm_range) option" where
  "GetReservationRange address n vm =
     (let before = om_before address (vm_ranges vm);
          from = om_lower_bound address (vm_ranges vm);
          p = (if before \<noteq> [] \<and> (from = [] \<or> address < fst (hd from)) then Some (last before)
               else if from = [] then None else Some (hd from))
      in case p of None \<Rightarrow> None
         | Some (b, r) \<Rightarrow>
             if b \<le> address \<and> n \<le> vr_size r \<and> address \<le> b + (vr_size r - n) then Some (b, r) else None)"

definition vm_Unreserve :: "u64 \<Rightarrow> u64 \<Rightarrow> virtual_memory \<Rightarrow> virtual_memory res" where
  "vm_Unreserve address n vm = (case map_of (vm_ranges vm) address of
     None \<Rightarrow> Inl InvalidArgumentException
   | Some r \<Rightarrow>
       if n \<noteq> vr_size r then Inl InvalidArgumentException
       else Inr (vm\<lparr>vm_total_reserved := vm_total_reserved vm - vr_size r,
                    vm_number_of_ranges := vm_number_of_ranges vm - 1,
                    vm_ranges := om_erase address (vm_ranges vm)\<rparr>))"

fun vm_unreserve_loop :: "nat \<Rightarrow> (u64 \<times> vm_range) list \<Rightarrow> virtual_memory \<Rightarrow> virtual_memory" where
  "vm_unreserve_loop pid [] vm = vm"
| "vm_unreserve_loop pid ((b, r) # ps) vm = vm_unreserve_loop pid ps
     (if vr_owner r = pid
      then vm\<lparr>vm_total_reserved := vm_total_reserved vm - vr_size r,
              vm_number_of_ranges := vm_number_of_ranges vm - 1,
              vm_ranges := om_erase b (vm_ranges vm)\<rparr>
      else vm)"

definition vm_UnreserveAll :: "nat \<Rightarrow> virtual_memory \<Rightarrow> virtual_memory" where
  "vm_UnreserveAll pid vm = vm_unreserve_loop pid (vm_ranges vm) vm"

text \<open>\<open>SIZE_MAX\<close> is the largest 64-bit number, so the check of the argument never fails.\<close>

definition vm_check_size :: "u64 \<Rightarrow> 'a res \<Rightarrow> 'a res" where
  "vm_check_size n r = (if n > - 1 then Inl InvalidArgumentException else r)"

definition vm_has :: "u64 \<Rightarrow> u64 \<Rightarrow> virtual_memory \<Rightarrow> bool res" where
  "vm_has address n vm = vm_check_size n (Inr (GetReservationRange address n vm \<noteq> None))"

definition vm_CheckPermissions :: "u64 \<Rightarrow> u64 \<Rightarrow> u32 \<Rightarrow> virtual_memory \<Rightarrow> bool res" where
  "vm_CheckPermissions address n access vm = vm_check_size n
     (Inr (case GetReservationRange address n vm of None \<Rightarrow> False
           | Some (b, r) \<Rightarrow> vr_permissions r AND access = access))"

text \<open>The ranges are in order, not empty, end below the end of the address space and do not overlap.\<close>

definition vm_end :: "u64 \<times> vm_range \<Rightarrow> nat" where
  "vm_end p = unat (fst p) + unat (vr_size (snd p))"

definition ranges_wf :: "(u64 \<times> vm_range) list \<Rightarrow> bool" where
  "ranges_wf m \<longleftrightarrow> sorted_wrt (\<lambda>p q. vm_end p \<le> unat (fst q)) m
     \<and> (\<forall>p\<in>set m. 0 < vr_size (snd p) \<and> vm_end p < 2 ^ 64)"

definition vm_wf :: "virtual_memory \<Rightarrow> bool" where
  "vm_wf vm \<longleftrightarrow> ranges_wf (vm_ranges vm)
     \<and> vm_total_reserved vm = sum_list (map (\<lambda>p. vr_size (snd p)) (vm_ranges vm))
     \<and> vm_number_of_ranges vm = of_nat (length (vm_ranges vm))"

text \<open>Address \<open>k\<close> is reserved.\<close>

definition vm_in_range :: "nat \<Rightarrow> u64 \<times> vm_range \<Rightarrow> bool" where
  "vm_in_range k p \<longleftrightarrow> unat (fst p) \<le> k \<and> k < vm_end p"

lemma vm_check_size_id [simp]: "vm_check_size n r = r"
  by (simp add: vm_check_size_def not_less word_order.extremum)

lemma ranges_wf_Nil [simp]: "ranges_wf []"
  by (simp add: ranges_wf_def)

lemma ranges_wf_Cons [simp]: "ranges_wf (p # m) \<longleftrightarrow> 0 < vr_size (snd p) \<and> vm_end p < 2 ^ 64
    \<and> (\<forall>q\<in>set m. vm_end p \<le> unat (fst q)) \<and> ranges_wf m"
  by (auto simp: ranges_wf_def)

lemma vm_end_gt: "0 < vr_size (snd p) \<Longrightarrow> unat (fst p) < vm_end p"
  by (simp add: vm_end_def unat_gt_0 word_gt_0)

lemma ranges_wf_om: "ranges_wf m \<Longrightarrow> om_wf m"
proof (induction m)
  case (Cons p m)
  have "fst p < fst q" if "q \<in> set m" for q
    using Cons.prems that vm_end_gt [of p] by (fastforce simp: word_less_nat_alt)
  then show ?case using Cons by simp
qed simp

lemma ranges_wf_append: "ranges_wf (m @ n) \<longleftrightarrow>
    ranges_wf m \<and> ranges_wf n \<and> (\<forall>p\<in>set m. \<forall>q\<in>set n. vm_end p \<le> unat (fst q))"
  by (induction m) auto

lemma ranges_wf_filter: "ranges_wf m \<Longrightarrow> ranges_wf (filter P m)"
  by (induction m) auto

lemma om_set_split:
  "om_wf m \<Longrightarrow> k \<notin> fst ` set m \<Longrightarrow> om_set k v m = om_before k m @ (k, v) # om_lower_bound k m"
proof (induction k v m rule: om_set.induct)
  case (2 k v j w m)
  then show ?case by (cases "j < k") (auto simp: om_before_def om_lower_bound_def)
qed (simp add: om_before_def om_lower_bound_def)

text \<open>The two checks of \<open>Reserve\<close> find every overlap.\<close>

lemma ranges_last_end:
  assumes "ranges_wf m" and "m \<noteq> []" and "p \<in> set m"
  shows "vm_end p \<le> vm_end (last m)"
  using assms
proof (induction m)
  case (Cons q m)
  show ?case
  proof (cases "m = []")
    case False
    then have "last m \<in> set m" by simp
    then have "vm_end q \<le> unat (fst (last m))" using Cons.prems(1) by auto
    also have "\<dots> \<le> vm_end (last m)" by (simp add: vm_end_def)
    finally show ?thesis using Cons False by auto
  qed (use Cons in simp)
qed simp

lemma unat_add_small: "unat a + unat n < 2 ^ 64 \<Longrightarrow> unat (a + n :: u64) = unat a + unat n"
  by (simp add: unat_add_lem [THEN iffD1])

lemma ranges_first_start:
  assumes "ranges_wf (p # m)" and "q \<in> set (p # m)"
  shows "fst p \<le> fst q"
  using ranges_wf_om [OF assms(1)] assms(2) by auto

text \<open>A request that ends below the end of the address space.\<close>

lemma reserve_checks:
  assumes wf: "ranges_wf m" and n: "n \<noteq> 0" and fit: "unat a + unat n < 2 ^ 64"
  shows "(vm_overlap_after a n m \<or> om_before a m \<noteq> [] \<and>
      (case last (om_before a m) of (b, r) \<Rightarrow> a < b + vr_size r))
    \<longleftrightarrow> (\<exists>k p. p \<in> set m \<and> vm_in_range k p \<and> unat a \<le> k \<and> k < unat a + unat n)"
    (is "?L \<longleftrightarrow> ?R")
proof -
  let ?lo = "om_before a m" and ?hi = "om_lower_bound a m"
  have m: "m = ?lo @ ?hi" by (simp add: om_split)
  have pos: "0 < unat n" using n by (simp add: unat_gt_0)
  have wfs: "ranges_wf ?lo" "ranges_wf ?hi" using wf m ranges_wf_append by metis+
  have hi: "p \<in> set ?hi \<Longrightarrow> unat a \<le> unat (fst p)" for p
    using om_lower_bound_ge [OF ranges_wf_om [OF wf], of p a] by (simp add: word_le_nat_alt)
  have lo: "p \<in> set ?lo \<Longrightarrow> unat (fst p) < unat a" for p
    using om_before_less [of p a m] by (simp add: word_less_nat_alt)
  have gt: "p \<in> set m \<Longrightarrow> unat (fst p) < vm_end p \<and> vm_end p < 2 ^ 64" for p
    using wf vm_end_gt by (auto simp: ranges_wf_def)
  have after: "vm_overlap_after a n m \<longleftrightarrow> (\<exists>p\<in>set ?hi. unat (fst p) < unat a + unat n)"
  proof (cases ?hi)
    case Nil
    then show ?thesis by (simp add: vm_overlap_after_def)
  next
    case (Cons q hs)
    have "fst q = a \<or> a < fst q \<and> fst q < a + n \<longleftrightarrow> unat (fst q) < unat a + unat n"
      using hi [of q] Cons pos unat_add_small [OF fit]
      by (auto simp: word_less_nat_alt word_unat_eq_iff)
    moreover have "unat (fst q) \<le> unat (fst p)" if "p \<in> set ?hi" for p
      using ranges_first_start [of q hs p] wfs(2) Cons that by (simp add: word_le_nat_alt)
    ultimately show ?thesis
      using Cons by (cases q) (fastforce simp: vm_overlap_after_def)
  qed
  have before: "?lo \<noteq> [] \<and> (case last ?lo of (b, r) \<Rightarrow> a < b + vr_size r)
      \<longleftrightarrow> (\<exists>p\<in>set ?lo. unat a < vm_end p)"
  proof (cases "?lo = []")
    case False
    then have l: "last ?lo \<in> set m" using m by (metis Un_iff last_in_set set_append)
    then have "unat (fst (last ?lo) + vr_size (snd (last ?lo))) = vm_end (last ?lo)"
      using gt [OF l] by (simp add: vm_end_def unat_add_small)
    then have "(case last ?lo of (b, r) \<Rightarrow> a < b + vr_size r) \<longleftrightarrow> unat a < vm_end (last ?lo)"
      by (simp add: case_prod_beta word_less_nat_alt)
    then show ?thesis
      using False ranges_last_end [OF wfs(1)] by (meson last_in_set less_le_trans)
  qed simp
  have in_m: "p \<in> set m \<longleftrightarrow> p \<in> set ?lo \<or> p \<in> set ?hi" for p using m by (metis Un_iff set_append)
  show ?thesis
  proof
    assume ?L
    then have "(\<exists>p\<in>set ?hi. unat (fst p) < unat a + unat n) \<or> (\<exists>p\<in>set ?lo. unat a < vm_end p)"
      unfolding after before .
    then consider p where "p \<in> set ?hi" "unat (fst p) < unat a + unat n"
      | p where "p \<in> set ?lo" "unat a < vm_end p" by blast
    then show ?R
    proof cases
      case 1
      then show ?thesis using hi [of p] gt [of p] in_m
        by (intro exI [of _ "unat (fst p)"] exI [of _ p]) (auto simp: vm_in_range_def)
    next
      case 2
      then show ?thesis using lo [of p] in_m pos
        by (intro exI [of _ "unat a"] exI [of _ p]) (auto simp: vm_in_range_def)
    qed
  next
    assume ?R
    then obtain k p where p: "p \<in> set m" "vm_in_range k p" "unat a \<le> k" "k < unat a + unat n" by blast
    show ?L
    proof (cases "p \<in> set ?lo")
      case True
      have "unat a < vm_end p" using p by (simp add: vm_in_range_def)
      with True have "\<exists>p\<in>set ?lo. unat a < vm_end p" by blast
      then show ?thesis unfolding before [symmetric] by (rule disjI2)
    next
      case False
      then have hi_p: "p \<in> set ?hi" using p(1) in_m by simp
      have "unat (fst p) < unat a + unat n" using p by (simp add: vm_in_range_def)
      with hi_p have "\<exists>p\<in>set ?hi. unat (fst p) < unat a + unat n" by blast
      then show ?thesis unfolding after [symmetric] by (rule disjI1)
    qed
  qed
qed

lemma reserve_no_assertion: "om_before a m \<noteq> [] \<Longrightarrow> fst (last (om_before a m)) < (a :: u64)"
  by (rule om_before_less [where m = m]) simp

lemma vm_Reserve_unfold:
  assumes "n \<noteq> 0"
  shows "vm_Reserve a n pid perm vm =
    (if vm_overlap_after a n (vm_ranges vm) \<or> om_before a (vm_ranges vm) \<noteq> [] \<and>
        (case last (om_before a (vm_ranges vm)) of (b, r) \<Rightarrow> a < b + vr_size r)
     then Inl InvalidArgumentException
     else Inr (vm\<lparr>vm_ranges := om_set a \<lparr>vr_size = n, vr_owner = pid, vr_permissions = perm\<rparr>
                                         (vm_ranges vm),
                  vm_total_reserved := vm_total_reserved vm + n,
                  vm_number_of_ranges := vm_number_of_ranges vm + 1\<rparr>))"
  using assms reserve_no_assertion [of a "vm_ranges vm"]
  by (auto simp: vm_Reserve_def Let_def split: prod.splits)

lemma ranges_wf_insert:
  assumes wf: "ranges_wf m" and n: "n \<noteq> 0" and fit: "unat a + unat n < 2 ^ 64"
    and r: "vr_size r = n"
    and free: "\<And>k p. p \<in> set m \<Longrightarrow> vm_in_range k p \<Longrightarrow> \<not> (unat a \<le> k \<and> k < unat a + unat n)"
  shows "ranges_wf (om_set a r m) \<and> a \<notin> fst ` set m"
proof -
  have pos: "0 < unat n" using n by (simp add: unat_gt_0)
  have gt: "p \<in> set m \<Longrightarrow> unat (fst p) < vm_end p" for p
    using wf vm_end_gt by (auto simp: ranges_wf_def)
  have new: "a \<notin> fst ` set m"
  proof
    assume "a \<in> fst ` set m"
    then obtain p where p: "p \<in> set m" "fst p = a" by auto
    then have "vm_in_range (unat a) p" using gt [OF p(1)] by (auto simp: vm_in_range_def)
    then show False using free [OF p(1), of "unat a"] pos by simp
  qed
  have m: "om_before a m @ om_lower_bound a m = m" by (rule om_split)
  then have wfs: "ranges_wf (om_before a m)" "ranges_wf (om_lower_bound a m)"
      "\<forall>p\<in>set (om_before a m). \<forall>q\<in>set (om_lower_bound a m). vm_end p \<le> unat (fst q)"
    using wf ranges_wf_append by metis+
  have lo: "vm_end p \<le> unat a" if "p \<in> set (om_before a m)" for p
  proof (rule ccontr)
    have pm: "p \<in> set m" using that m by (metis Un_iff set_append)
    assume "\<not> vm_end p \<le> unat a"
    moreover have "unat (fst p) < unat a" using om_before_less [OF that] by (simp add: word_less_nat_alt)
    ultimately have "vm_in_range (unat a) p" by (simp add: vm_in_range_def)
    then show False using free [OF pm, of "unat a"] pos by simp
  qed
  have hi: "unat a + unat n \<le> unat (fst p)" if "p \<in> set (om_lower_bound a m)" for p
  proof (rule ccontr)
    have pm: "p \<in> set m" using that m by (metis Un_iff set_append)
    assume "\<not> unat a + unat n \<le> unat (fst p)"
    moreover have "unat a \<le> unat (fst p)"
      using om_lower_bound_ge [OF ranges_wf_om [OF wf] that] by (simp add: word_le_nat_alt)
    ultimately show False using free [OF pm, of "unat (fst p)"] gt [OF pm]
      by (simp add: vm_in_range_def)
  qed
  have "ranges_wf (om_before a m @ (a, r) # om_lower_bound a m)"
    using wfs lo hi n r fit by (auto simp: ranges_wf_append vm_end_def word_gt_0)
  then show ?thesis using new om_set_split [OF ranges_wf_om [OF wf] new] by simp
qed

lemma om_erase_om_set: "om_wf m \<Longrightarrow> k \<notin> fst ` set m \<Longrightarrow> om_erase k (om_set k v m) = m"
  by (induction k v m rule: om_set.induct) (auto simp: om_erase_def filter_id_conv)

text \<open>
  C25. A reservation that ends below the end of the address space is refused exactly when some
  address of it is reserved already. Otherwise it is entered, the ranges stay disjoint and the
  statistics agree with them, and releasing it restores ranges and statistics.
\<close>

theorem vm_Reserve_correct:
  assumes "vm_wf vm" and "n \<noteq> 0" and "unat a + unat n < 2 ^ 64"
  shows "if \<exists>k p. p \<in> set (vm_ranges vm) \<and> vm_in_range k p \<and> unat a \<le> k \<and> k < unat a + unat n
    then vm_Reserve a n pid perm vm = Inl InvalidArgumentException
    else \<exists>vm'. vm_Reserve a n pid perm vm = Inr vm' \<and> vm_wf vm'
      \<and> set (vm_ranges vm') = insert (a, \<lparr>vr_size = n, vr_owner = pid, vr_permissions = perm\<rparr>) (set (vm_ranges vm))
      \<and> vm_Unreserve a n vm' = Inr vm"
proof -
  let ?m = "vm_ranges vm"
  let ?r = "\<lparr>vr_size = n, vr_owner = pid, vr_permissions = perm\<rparr>"
  have wf: "ranges_wf ?m" using assms(1) by (simp add: vm_wf_def)
  note ck = reserve_checks [OF wf assms(2,3)]
  show ?thesis
  proof (cases "\<exists>k p. p \<in> set ?m \<and> vm_in_range k p \<and> unat a \<le> k \<and> k < unat a + unat n")
    case True
    then have "vm_Reserve a n pid perm vm = Inl InvalidArgumentException"
      unfolding vm_Reserve_unfold [OF assms(2)] ck by (rule if_P)
    then show ?thesis using True by (simp only: if_True)
  next
    case False
    let ?vm = "vm\<lparr>vm_ranges := om_set a ?r ?m, vm_total_reserved := vm_total_reserved vm + n,
        vm_number_of_ranges := vm_number_of_ranges vm + 1\<rparr>"
    have res: "vm_Reserve a n pid perm vm = Inr ?vm"
      unfolding vm_Reserve_unfold [OF assms(2)] ck using False by (rule if_not_P)
    have ins: "ranges_wf (om_set a ?r ?m)" "a \<notin> fst ` set ?m"
      using ranges_wf_insert [OF wf assms(2,3), of ?r] False by auto
    note om = ranges_wf_om [OF wf]
    have "vm_wf ?vm"
      using assms(1) ins om_sum_insert [OF om ins(2), of "\<lambda>p. vr_size (snd p)" ?r]
        om_set_length [OF om, of a ?r] om
      by (simp add: vm_wf_def add.commute)
    moreover have "set (vm_ranges ?vm) = insert (a, ?r) (set ?m)"
      using om_set_set [OF om ins(2)] by simp
    moreover have "vm_Unreserve a n ?vm = Inr vm"
      using om_set_map_of [OF om, of a ?r] om_erase_om_set [OF om ins(2), of ?r]
      by (simp add: vm_Unreserve_def)
    ultimately show ?thesis using res False by (simp only: if_False) blast
  qed
qed

definition vm_example :: virtual_memory where
  "vm_example = virtual_memory_init\<lparr>vm_ranges := [(4096, \<lparr>vr_size = 100, vr_owner = 1, vr_permissions = 3\<rparr>)],
     vm_total_reserved := 100, vm_number_of_ranges := 1\<rparr>"

lemma vm_example_wf: "vm_wf vm_example"
  by (simp add: vm_wf_def vm_example_def virtual_memory_init_def vm_end_def)

theorem vm_Reserve_correct_witness:
  "vm_Reserve 4100 8 2 1 vm_example = Inl InvalidArgumentException"
proof -
  have "vm_in_range 4100 (4096, \<lparr>vr_size = 100, vr_owner = 1, vr_permissions = 3\<rparr>)"
    by (simp add: vm_in_range_def vm_end_def)
  then have "\<exists>k p. p \<in> set (vm_ranges vm_example) \<and> vm_in_range k p \<and> unat (4100 :: u64) \<le> k
      \<and> k < unat (4100 :: u64) + unat (8 :: u64)"
    by (intro exI [of _ 4100] exI [of _ "(4096, \<lparr>vr_size = 100, vr_owner = 1, vr_permissions = 3\<rparr>)"])
      (simp add: vm_example_def virtual_memory_init_def)
  then show ?thesis using vm_Reserve_correct [OF vm_example_wf, of 8 4100 2 1] by simp
qed

text \<open>A reservation that reaches the end of the address space wraps: the check misses the overlap.\<close>

lemma vm_Reserve_wraps:
  "vm_Reserve 4000 (- 4000) 2 1 vm_example \<noteq> Inl InvalidArgumentException
   \<and> vm_in_range 4096 (4096, \<lparr>vr_size = 100, vr_owner = 1, vr_permissions = 3\<rparr>)
   \<and> unat (4000 :: u64) \<le> 4096 \<and> 4096 < unat (4000 :: u64) + unat (- 4000 :: u64)"
  by (simp add: vm_Reserve_def vm_example_def virtual_memory_init_def vm_overlap_after_def
      om_lower_bound_def om_before_def vm_in_range_def vm_end_def)

section \<open>Permissions\<close>

text \<open>The test of \<open>GetReservationRange\<close> on a range, and the range it is made on.\<close>

lemma range_test:
  assumes "vm_end p < 2 ^ 64"
  shows "fst p \<le> a \<and> n \<le> vr_size (snd p) \<and> a \<le> fst p + (vr_size (snd p) - n)
    \<longleftrightarrow> unat (fst p) \<le> unat a \<and> unat a + unat n \<le> vm_end p"
proof (cases "n \<le> vr_size (snd p)")
  case True
  then have d: "unat (vr_size (snd p) - n) = unat (vr_size (snd p)) - unat n"
    by (simp add: unat_sub)
  then have "unat (fst p + (vr_size (snd p) - n)) = unat (fst p) + (unat (vr_size (snd p)) - unat n)"
    using assms by (simp add: vm_end_def unat_add_small)
  then show ?thesis using True by (auto simp: word_le_nat_alt vm_end_def)
next
  case False
  then show ?thesis by (auto simp: word_le_nat_alt vm_end_def)
qed

definition vm_candidate :: "u64 \<Rightarrow> (u64 \<times> vm_range) list \<Rightarrow> (u64 \<times> vm_range) option" where
  "vm_candidate a m =
     (if om_before a m \<noteq> [] \<and> (om_lower_bound a m = [] \<or> a < fst (hd (om_lower_bound a m)))
      then Some (last (om_before a m))
      else if om_lower_bound a m = [] then None else Some (hd (om_lower_bound a m)))"

lemma vm_candidate_in: "vm_candidate a m = Some p \<Longrightarrow> p \<in> set m"
proof -
  assume c: "vm_candidate a m = Some p"
  then have "p \<in> set (om_before a m @ om_lower_bound a m)"
    by (auto simp: vm_candidate_def split: if_splits)
  then show ?thesis unfolding om_split .
qed

lemma vm_candidate_unique:
  assumes wf: "ranges_wf m" and p: "p \<in> set m" "unat (fst p) \<le> unat a" "unat a < vm_end p"
  shows "vm_candidate a m = Some p"
proof -
  let ?lo = "om_before a m" and ?hi = "om_lower_bound a m"
  have m: "?lo @ ?hi = m" by (rule om_split)
  then have wfs: "ranges_wf ?lo" "ranges_wf ?hi"
      "\<forall>p\<in>set ?lo. \<forall>q\<in>set ?hi. vm_end p \<le> unat (fst q)"
    using wf ranges_wf_append by metis+
  consider "p \<in> set ?lo" | "p \<in> set ?hi" using p(1) m by (metis Un_iff set_append)
  then show ?thesis
  proof cases
    case 1
    have "?hi = [] \<or> a < fst (hd ?hi)"
      using wfs(3) 1 p(3) by (cases ?hi) (auto simp: word_less_nat_alt)
    moreover have "p = last ?lo"
    proof (rule ccontr)
      assume ne: "p \<noteq> last ?lo"
      obtain xs where xs: "?lo = xs @ [last ?lo]" using 1 by (metis append_butlast_last_id empty_iff empty_set)
      then have "p \<in> set xs" using 1 ne by (metis Un_iff empty_iff empty_set set_ConsD set_append)
      then have "vm_end p \<le> unat (fst (last ?lo))" using wfs(1) xs by (metis list.set_intros(1) ranges_wf_append)
      moreover have "last ?lo \<in> set ?lo" using 1 by (metis empty_iff empty_set last_in_set)
      then have "unat (fst (last ?lo)) < unat a"
        using om_before_less by (metis word_less_nat_alt)
      ultimately show False using p(3) by simp
    qed
    ultimately show ?thesis using 1 by (auto simp: vm_candidate_def)
  next
    case 2
    then have "a \<le> fst p" using om_lower_bound_ge [OF ranges_wf_om [OF wf]] by blast
    then have eq: "fst p = a" using p(2) by (simp add: word_le_nat_alt [symmetric])
    obtain q hs where hs: "?hi = q # hs" using 2 by (cases ?hi) auto
    have "q \<in> set ?hi" using hs by simp
    then have "a \<le> fst q" using om_lower_bound_ge [OF ranges_wf_om [OF wf]] by blast
    have "p = q"
    proof (rule ccontr)
      assume "p \<noteq> q"
      then have "fst q < fst p" using 2 hs ranges_wf_om [OF wfs(2)] by auto
      then show False using \<open>a \<le> fst q\<close> eq by simp
    qed
    then show ?thesis using hs eq by (simp add: vm_candidate_def)
  qed
qed

lemma GetReservationRange_spec:
  assumes "ranges_wf (vm_ranges vm)" and "n \<noteq> 0"
  shows "GetReservationRange a n vm = Some p
    \<longleftrightarrow> p \<in> set (vm_ranges vm) \<and> unat (fst p) \<le> unat a \<and> unat a + unat n \<le> vm_end p"
proof -
  have pos: "0 < unat n" using assms(2) by (simp add: unat_gt_0)
  have fin: "p \<in> set (vm_ranges vm) \<Longrightarrow> vm_end p < 2 ^ 64" for p
    using assms(1) by (simp add: ranges_wf_def)
  have "GetReservationRange a n vm = (case vm_candidate a (vm_ranges vm) of None \<Rightarrow> None
    | Some q \<Rightarrow> if fst q \<le> a \<and> n \<le> vr_size (snd q) \<and> a \<le> fst q + (vr_size (snd q) - n) then Some q else None)"
    by (simp add: GetReservationRange_def vm_candidate_def Let_def case_prod_beta)
  also have "\<dots> = Some p \<longleftrightarrow> vm_candidate a (vm_ranges vm) = Some p
      \<and> unat (fst p) \<le> unat a \<and> unat a + unat n \<le> vm_end p"
    using range_test [OF fin [OF vm_candidate_in]]
    by (auto split: option.splits if_splits)
  also have "\<dots> \<longleftrightarrow> p \<in> set (vm_ranges vm) \<and> unat (fst p) \<le> unat a \<and> unat a + unat n \<le> vm_end p"
    using vm_candidate_in [of a "vm_ranges vm" p] vm_candidate_unique [OF assms(1), of p a] pos by auto
  finally show ?thesis .
qed

text \<open>
  C26. An access to at least one byte is permitted exactly when the whole of it lies in one reserved
  range that grants all the permissions asked for.
\<close>

theorem vm_CheckPermissions_correct:
  assumes "vm_wf vm" and "n \<noteq> 0"
  shows "vm_CheckPermissions a n access vm = Inr (\<exists>p\<in>set (vm_ranges vm).
    unat (fst p) \<le> unat a \<and> unat a + unat n \<le> vm_end p \<and> vr_permissions (snd p) AND access = access)"
proof -
  have wf: "ranges_wf (vm_ranges vm)" using assms(1) by (simp add: vm_wf_def)
  note spec = GetReservationRange_spec [OF wf assms(2), of a]
  show ?thesis
  proof (cases "GetReservationRange a n vm")
    case None
    then have "\<not> (unat (fst p) \<le> unat a \<and> unat a + unat n \<le> vm_end p)" if "p \<in> set (vm_ranges vm)" for p
      using spec [of p] that by auto
    then show ?thesis using None by (auto simp: vm_CheckPermissions_def)
  next
    case (Some q)
    have q: "q \<in> set (vm_ranges vm) \<and> unat (fst q) \<le> unat a \<and> unat a + unat n \<le> vm_end q"
      using spec [of q] Some by simp
    have uniq: "p = q" if "p \<in> set (vm_ranges vm)" "unat (fst p) \<le> unat a" "unat a + unat n \<le> vm_end p" for p
      using spec [of p] that Some by simp
    have "(\<exists>p\<in>set (vm_ranges vm). unat (fst p) \<le> unat a \<and> unat a + unat n \<le> vm_end p
        \<and> vr_permissions (snd p) AND access = access) \<longleftrightarrow> vr_permissions (snd q) AND access = access"
      (is "?L \<longleftrightarrow> ?R")
    proof
      assume ?L
      then obtain p where "p \<in> set (vm_ranges vm)" "unat (fst p) \<le> unat a" "unat a + unat n \<le> vm_end p"
        "vr_permissions (snd p) AND access = access" by blast
      with uniq show ?R by metis
    qed (use q in blast)
    moreover have "vm_CheckPermissions a n access vm = Inr (vr_permissions (snd q) AND access = access)"
      using Some by (simp add: vm_CheckPermissions_def case_prod_beta)
    ultimately show ?thesis by presburger
  qed
qed

theorem vm_CheckPermissions_correct_witness:
  "vm_CheckPermissions 4100 8 1 vm_example = Inr True \<and> vm_CheckPermissions 4192 8 1 vm_example = Inr False"
  by (simp add: vm_CheckPermissions_correct [OF vm_example_wf])
    (simp add: vm_example_def virtual_memory_init_def vm_end_def)

text \<open>\<open>UnreserveAll\<close> removes the ranges of the process and no other one.\<close>

lemma vm_unreserve_loop_spec:
  assumes "vm_wf vm" and "distinct ps" and "set ps \<subseteq> set (vm_ranges vm)"
  shows "vm_wf (vm_unreserve_loop pid ps vm) \<and> vm_ranges (vm_unreserve_loop pid ps vm)
    = filter (\<lambda>p. \<not> (p \<in> set ps \<and> vr_owner (snd p) = pid)) (vm_ranges vm)"
  using assms
proof (induction ps arbitrary: vm)
  case (Cons p ps)
  obtain b r where p: "p = (b, r)" by (cases p)
  have wf: "ranges_wf (vm_ranges vm)" using Cons.prems(1) by (simp add: vm_wf_def)
  note om = ranges_wf_om [OF wf]
  have pm: "(b, r) \<in> set (vm_ranges vm)" using Cons.prems(3) p by simp
  have same: "q \<in> set (vm_ranges vm) \<Longrightarrow> fst q = b \<longleftrightarrow> q = (b, r)" for q
    using om_wf_distinct [OF om] pm by (cases q) (auto dest: eq_key_imp_eq_value)
  show ?case
  proof (cases "vr_owner r = pid")
    case False
    then show ?thesis using Cons p by (auto intro!: filter_cong)
  next
    case True
    let ?vm = "vm\<lparr>vm_total_reserved := vm_total_reserved vm - vr_size r,
        vm_number_of_ranges := vm_number_of_ranges vm - 1, vm_ranges := om_erase b (vm_ranges vm)\<rparr>"
    have er: "om_erase b (vm_ranges vm) = filter (\<lambda>q. q \<noteq> (b, r)) (vm_ranges vm)"
      unfolding om_erase_def using same by (auto intro!: filter_cong)
    have "length (om_erase b (vm_ranges vm)) + 1 = length (vm_ranges vm)"
      using om_sum_erase [OF om pm, of "\<lambda>_. 1 :: nat"] by (simp add: sum_list_triv)
    then have "(of_nat (length (om_erase b (vm_ranges vm))) :: u64) + 1 = of_nat (length (vm_ranges vm))"
      by (metis of_nat_1 of_nat_add)
    moreover have "vr_size r + sum_list (map (\<lambda>p. vr_size (snd p)) (om_erase b (vm_ranges vm)))
        = sum_list (map (\<lambda>p. vr_size (snd p)) (vm_ranges vm))"
      using om_sum_erase [OF om pm, of "\<lambda>p. vr_size (snd p)"] by simp
    ultimately have "vm_wf ?vm"
      using Cons.prems(1) ranges_wf_filter [OF wf]
      by (simp add: vm_wf_def om_erase_def eq_diff_eq) (metis add_diff_cancel_left' add_diff_cancel_right')
    moreover have "set ps \<subseteq> set (vm_ranges ?vm)" using Cons.prems(2,3) p er by auto
    ultimately have "vm_wf (vm_unreserve_loop pid ps ?vm) \<and> vm_ranges (vm_unreserve_loop pid ps ?vm)
        = filter (\<lambda>p. \<not> (p \<in> set ps \<and> vr_owner (snd p) = pid)) (vm_ranges ?vm)"
      using Cons.IH [of ?vm] Cons.prems(2) by simp
    then show ?thesis using True p er by (auto intro!: filter_cong)
  qed
qed simp

lemma vm_UnreserveAll_spec:
  "vm_wf vm \<Longrightarrow> vm_wf (vm_UnreserveAll pid vm)
    \<and> vm_ranges (vm_UnreserveAll pid vm) = filter (\<lambda>p. vr_owner (snd p) \<noteq> pid) (vm_ranges vm)"
  using vm_unreserve_loop_spec [of vm "vm_ranges vm" pid] 
    distinct_map [THEN iffD1, OF om_wf_distinct [OF ranges_wf_om [of "vm_ranges vm"]]]
  by (auto simp: vm_UnreserveAll_def vm_wf_def intro!: filter_cong)

end
