(* ===== verification/DRISC_Identifiers.thy ===== *)
theory DRISC_Identifiers
  imports Register_File Virtual_Memory Log2
begin

text \<open>
  The identifiers of arch/simtypes.h and how a core packs them into an integer register
  (arch/drisc/DRISC.cpp): a place is a capability, the first core and the number of cores; a family
  identifier is a capability, a core and a local family. Also the addresses of thread-local storage.
  The integer and the address types are the 64-bit ones of the Alpha; the counts of bits that a core
  computes from its configuration are a record.
\<close>

record PlaceID =
  pl_capability :: u64
  pl_size :: u32
  pl_pid :: u32

record FID =
  f_capability :: u64
  f_pid :: u32
  f_lfid :: u32

record BitCounts =
  pid_bits :: nat
  fid_bits :: nat
  tid_bits :: nat

text \<open>A shift by the width of its operand or more is undefined.\<close>

definition shift_left :: "nat \<Rightarrow> 'a::len word \<Rightarrow> 'a word res" where
  "shift_left n x = (if n < LENGTH('a) then Inr (push_bit n x) else Inl UndefinedBehaviour)"

definition shift_right :: "nat \<Rightarrow> 'a::len word \<Rightarrow> 'a word res" where
  "shift_right n x = (if n < LENGTH('a) then Inr (drop_bit n x) else Inl UndefinedBehaviour)"

text \<open>The number of trailing zero bits; the argument of the compiler's function is 32 bits wide.\<close>

definition ctz :: "u32 \<Rightarrow> nat res" where
  "ctz x = (if x = 0 then Inl UndefinedBehaviour else Inr (find_index (bit x) [0..<32]))"

definition PackPlace :: "BitCounts \<Rightarrow> PlaceID \<Rightarrow> u64 res" where
  "PackPlace m place =
     assert_that (IsPowerOfTwo (pl_size place))
      (if pl_size place = 0 then Inl UndefinedBehaviour
       else assert_that (pl_pid place mod pl_size place = 0)
        (res_bind (shift_left (pid_bits m + 1) (pl_capability place)) (\<lambda>c.
          Inr (c OR ucast (push_bit 1 (pl_pid place)) OR ucast (pl_size place)))))"

text \<open>The lowest bit that is set is the size; the rest is twice the first core.\<close>

definition UnpackPlace :: "BitCounts \<Rightarrow> u64 \<Rightarrow> PlaceID res" where
  "UnpackPlace m v =
     res_bind (shift_right (pid_bits m + 1) v) (\<lambda>c.
     res_bind (shift_left (pid_bits m) 2) (\<lambda>lim.
       (let id' = v AND (lim - 1)
        in if id' = 0 then Inr \<lparr>pl_capability = c, pl_size = 0, pl_pid = 0\<rparr>
           else res_bind (ctz (ucast id')) (\<lambda>bits.
             if 31 \<le> bits then Inl UndefinedBehaviour
             else (let size = push_bit bits (1 :: u32)
                   in Inr \<lparr>pl_capability = c, pl_size = size,
                           pl_pid = ucast ((id' - ucast size) div 2)\<rparr>)))))"

definition UnpackFID :: "BitCounts \<Rightarrow> u64 \<Rightarrow> FID res" where
  "UnpackFID m v =
     res_bind (shift_left (pid_bits m) 1) (\<lambda>p.
     res_bind (shift_left (fid_bits m) 1) (\<lambda>f.
     res_bind (shift_right (pid_bits m) v) (\<lambda>l.
     res_bind (shift_right (pid_bits m + fid_bits m) v) (\<lambda>c.
       Inr \<lparr>f_capability = c, f_pid = ucast (v AND (p - 1)), f_lfid = ucast (l AND (f - 1))\<rparr>))))"

definition PackFID :: "BitCounts \<Rightarrow> FID \<Rightarrow> u64 res" where
  "PackFID m fid =
     res_bind (shift_left (pid_bits m + fid_bits m) (f_capability fid)) (\<lambda>c.
     res_bind (shift_left (pid_bits m) (f_lfid fid)) (\<lambda>l.
       Inr (c OR ucast l OR ucast (f_pid fid))))"

definition GetTLSAddress :: "BitCounts \<Rightarrow> u32 \<Rightarrow> u32 \<Rightarrow> u64 res" where
  "GetTLSAddress m pid tid =
     assert_that (pid_bits m + tid_bits m + 1 < 64)
      (let Ls = 63; Ps = Ls - pid_bits m; Ts = Ps - tid_bits m
       in Inr (push_bit Ls 1 OR push_bit Ps (ucast pid) OR push_bit Ts (ucast tid)))"

definition GetTLSSize :: "BitCounts \<Rightarrow> u64 res" where
  "GetTLSSize m =
     assert_that (pid_bits m + tid_bits m + 1 < 64)
      (Inr (push_bit (64 - (1 + pid_bits m + tid_bits m)) 1))"

section \<open>The memory as a core uses it\<close>

text \<open>The memory is a pointer that a core checks not to be null: an option here.\<close>

definition PERM_WRITE :: u32 where "PERM_WRITE = 2"
definition PERM_READ :: u32 where "PERM_READ = 4"
definition PERM_DCA_READ :: u32 where "PERM_DCA_READ = 8"
definition PERM_DCA_WRITE :: u32 where "PERM_DCA_WRITE = 16"

definition with_memadmin :: "virtual_memory option \<Rightarrow> (virtual_memory \<Rightarrow> 'a res) \<Rightarrow> 'a res" where
  "with_memadmin mem f = (case mem of None \<Rightarrow> Inl AssertionFailure | Some vm \<Rightarrow> f vm)"

definition core_isMapped :: "virtual_memory option \<Rightarrow> u64 \<Rightarrow> u64 \<Rightarrow> bool res" where
  "core_isMapped mem address n = with_memadmin mem (vm_has address n)"

definition core_MapMemory :: "virtual_memory option \<Rightarrow> u64 \<Rightarrow> u64 \<Rightarrow> nat \<Rightarrow> virtual_memory res" where
  "core_MapMemory mem address n pid = with_memadmin mem
     (vm_Reserve address n pid (PERM_READ OR PERM_WRITE OR PERM_DCA_READ OR PERM_DCA_WRITE))"

definition core_UnmapMemory :: "virtual_memory option \<Rightarrow> u64 \<Rightarrow> u64 \<Rightarrow> virtual_memory res" where
  "core_UnmapMemory mem address n = with_memadmin mem (vm_Unreserve address n)"

definition core_UnmapAll :: "virtual_memory option \<Rightarrow> nat \<Rightarrow> virtual_memory res" where
  "core_UnmapAll mem pid = with_memadmin mem (\<lambda>vm. Inr (vm_UnreserveAll pid vm))"

text \<open>The comment means reads of the first cache line of thread-local storage to succeed always; the code
  lets through those whose address has no bit set between the first kilobyte and the size of an area.\<close>

definition core_CheckPermissions :: "BitCounts \<Rightarrow> virtual_memory option \<Rightarrow> u64 \<Rightarrow> u64 \<Rightarrow> u32 \<Rightarrow> bool res" where
  "core_CheckPermissions m mem address n access = with_memadmin mem (\<lambda>vm.
     res_bind (vm_CheckPermissions address n access vm) (\<lambda>mp.
     if \<not> mp \<and> access AND PERM_READ \<noteq> 0 \<and> address AND push_bit 63 1 \<noteq> 0
     then res_bind (shift_left (64 - (pid_bits m + tid_bits m + 1)) 1) (\<lambda>top.
            let low = (top - 1) XOR 1023
            in Inr (if address AND low = 0 then True else mp))
     else Inr mp))"

section \<open>Family identifiers\<close>

lemma mask_exp: "(2 :: 'a::len word) ^ n - 1 = mask n"
  by (simp add: mask_eq_exp_minus_1)

lemma small_bit: "(v :: 'a::len word) = take_bit n v \<Longrightarrow> bit v i \<Longrightarrow> i < n"
  by (metis bit_take_bit_iff)

lemma UnpackFID_PackFID:
  assumes "pid_bits m + fid_bits m \<le> 32"
    and "f_pid fid = take_bit (pid_bits m) (f_pid fid)" "f_lfid fid = take_bit (fid_bits m) (f_lfid fid)"
    and "f_capability fid = take_bit (64 - (pid_bits m + fid_bits m)) (f_capability fid)"
    and "pid_bits m < 32"
  shows "res_bind (PackFID m fid) (UnpackFID m) = Inr fid"
proof -
  let ?p = "pid_bits m" and ?f = "fid_bits m"
  let ?w = "push_bit (?p + ?f) (f_capability fid) OR ucast (push_bit ?p (f_lfid fid)) OR ucast (f_pid fid) :: u64"
  note P = small_bit [OF assms(2)] and L = small_bit [OF assms(3)] and C = small_bit [OF assms(4)]
  have "drop_bit (?p + ?f) ?w = f_capability fid"
    by (rule bit_eqI) (auto simp: bit_simps dest: P L C)
  moreover have "ucast (?w AND mask ?p) = f_pid fid"
    using assms(5) by (intro bit_eqI) (auto simp: bit_simps dest: P)
  moreover have "ucast (drop_bit ?p ?w AND mask ?f) = f_lfid fid"
    using assms(1) by (intro bit_eqI) (auto simp: bit_simps dest: P L)
  ultimately show ?thesis
    using assms(1,5) by (simp add: PackFID_def UnpackFID_def shift_left_def shift_right_def mask_exp)
qed

lemma PackFID_UnpackFID:
  assumes "pid_bits m + fid_bits m \<le> 32" "pid_bits m < 32"
  shows "res_bind (UnpackFID m v) (PackFID m) = Inr v"
proof -
  let ?p = "pid_bits m" and ?f = "fid_bits m"
  have "push_bit (?p + ?f) (drop_bit (?p + ?f) v)
      OR ucast (push_bit ?p (ucast (drop_bit ?p v AND mask ?f) :: u32))
      OR ucast (ucast (v AND mask ?p) :: u32) = v"
  proof (rule bit_eqI)
    fix i
    show "bit (push_bit (?p + ?f) (drop_bit (?p + ?f) v)
      OR ucast (push_bit ?p (ucast (drop_bit ?p v AND mask ?f) :: u32))
      OR ucast (ucast (v AND mask ?p) :: u32)) i = bit v i"
      using assms by (cases "?p + ?f \<le> i"; cases "?p \<le> i") (auto simp: bit_simps dest: bit_imp_le_length)
  qed
  then show ?thesis
    using assms by (simp add: PackFID_def UnpackFID_def shift_left_def shift_right_def mask_exp)
qed

section \<open>Places\<close>

lemma exp_bit: "bit ((2 :: 'a::len word) ^ k) i \<longleftrightarrow> i = k \<and> k < LENGTH('a)"
  by (auto simp: bit_exp_iff)

lemma ctz_eq:
  assumes "k < 32" and "bit x k" and "\<And>i. i < k \<Longrightarrow> \<not> bit x i"
  shows "ctz x = Inr k"
proof -
  have "x \<noteq> 0" using assms(2) by auto
  moreover have "find_index (bit x) [0..<32] = k"
    using assms by (intro find_index_first) auto
  ultimately show ?thesis by (simp add: ctz_def)
qed

lemma clear_bit:
  assumes "bit w k"
  shows "w - 2 ^ k = w AND NOT (2 ^ k :: 'a::len word)"
proof -
  have k: "k < LENGTH('a)" using assms by (rule bit_imp_le_length)
  have "(w AND NOT (2 ^ k)) AND 2 ^ k = 0"
    by (rule bit_eqI) (auto simp: bit_simps exp_bit)
  then have "(w AND NOT (2 ^ k)) + 2 ^ k = (w AND NOT (2 ^ k)) OR 2 ^ k"
    using word_plus_and_or [of "w AND NOT (2 ^ k)" "2 ^ k"] by simp
  also have "\<dots> = w"
    using assms by (intro bit_eqI) (auto simp: bit_or_iff bit_and_iff bit_not_iff exp_bit)
  finally show ?thesis by (simp add: algebra_simps)
qed

lemma half_bit: "bit ((w :: 'a::len word) div 2) i = bit w (Suc i)"
  by (simp add: bit_Suc)

lemma double_bit: "bit ((w :: 'a::len word) * 2) i \<longleftrightarrow> i < LENGTH('a) \<and> 0 < i \<and> bit w (i - 1)"
  by (metis One_nat_def bit_0 bit_double_iff bit_imp_le_length diff_Suc_1 dvd_triv_right mult.commute
      not_gr_zero possible_bit_word)

text \<open>The low part of a packed place, its size bit at position \<open>k\<close>.\<close>

lemma place_low:
  assumes "bit w k" and "\<forall>i<k. \<not> bit w i" and "\<forall>i. bit w i \<longrightarrow> i < 32" and "k < 31"
  shows "w \<noteq> (0 :: u64)" and "ctz (ucast w) = Inr k"
    and "bit (ucast ((w - ucast (2 ^ k :: u32)) div 2) :: u32) i \<longleftrightarrow> bit w (Suc i) \<and> Suc i \<noteq> k"
proof -
  show "w \<noteq> 0" using assms(1) by auto
  show "ctz (ucast w) = Inr k" using assms by (intro ctz_eq) (auto simp: bit_simps)
  have "ucast (2 ^ k :: u32) = (2 ^ k :: u64)"
    using assms(4) by (intro bit_eqI) (auto simp: bit_simps exp_bit)
  then show "bit (ucast ((w - ucast (2 ^ k :: u32)) div 2) :: u32) i \<longleftrightarrow> bit w (Suc i) \<and> Suc i \<noteq> k"
    using assms(1,4) assms(3) [THEN spec, of "Suc i"]
    by (auto simp: clear_bit half_bit bit_unsigned_iff bit_and_iff bit_not_iff exp_bit dest: bit_imp_le_length)
qed

lemma shift_two: "push_bit n (2 :: 'a::len word) - 1 = mask (Suc n)"
  by (simp add: mask_eq_exp_minus_1 push_bit_eq_mult)

lemma UnpackPlace_PackPlace:
  assumes p: "pid_bits m < 31" and k: "k \<le> pid_bits m" "pl_size pl = 2 ^ k"
    and pid: "pl_pid pl = take_bit (pid_bits m) (pl_pid pl)" "pl_pid pl mod pl_size pl = 0"
    and cap: "pl_capability pl = take_bit (64 - Suc (pid_bits m)) (pl_capability pl)"
  shows "res_bind (PackPlace m pl) (UnpackPlace m) = Inr pl"
proof -
  let ?n = "pid_bits m"
  let ?v = "push_bit (Suc ?n) (pl_capability pl) OR ucast (push_bit 1 (pl_pid pl)) OR ucast (2 ^ k :: u32) :: u64"
  let ?w = "?v AND mask (Suc ?n)"
  have k31: "k < 31" using p k by simp
  have size_pos: "pl_size pl \<noteq> 0" using k31 k(2) by (simp add: exp_eq_zero_iff)
  have pow: "IsPowerOfTwo (pl_size pl)" unfolding k(2) IsPowerOfTwo_def mask_exp
    by (rule bit_eqI) (auto simp: bit_simps exp_bit)
  have "take_bit k (pl_pid pl) = 0" using pid(2) k(2) by (simp add: take_bit_eq_mod)
  then have low: "\<not> bit (pl_pid pl) i" if "i < k" for i using that by (metis bit_take_bit_iff bit_0_eq bot_apply bot_bool_def)
  note P = small_bit [OF pid(1)] and C = small_bit [OF cap]
  have w: "bit ?w i \<longleftrightarrow> i = k \<or> 0 < i \<and> bit (pl_pid pl) (i - 1)" for i
    using p k P [of "i - 1"] by (auto simp: bit_simps exp_bit double_bit dest: bit_imp_le_length)
  have w1: "bit ?w k" using w by auto
  have w2: "\<forall>i<k. \<not> bit ?w i" using w low by auto
  have w3: "\<forall>i. bit ?w i \<longrightarrow> i < 32" using p by (auto simp: bit_simps)
  have "drop_bit (Suc ?n) ?v = pl_capability pl"
    using k p by (intro bit_eqI) (auto simp: bit_simps exp_bit double_bit dest: P C)
  moreover have "ucast ((?w - ucast (2 ^ k :: u32)) div 2) = pl_pid pl"
  proof (rule bit_eqI)
    fix i
    show "bit (ucast ((?w - ucast (2 ^ k :: u32)) div 2) :: u32) i = bit (pl_pid pl) i"
      unfolding place_low(3) [OF w1 w2 w3 k31] w using low [of i] by auto
  qed
  moreover have "PackPlace m pl = Inr ?v"
    unfolding PackPlace_def k(2) shift_left_def using pow size_pos pid(2) p k(2) by simp
  moreover have "(push_bit k 1 :: u32) = 2 ^ k" by (simp add: push_bit_eq_mult)
  ultimately show ?thesis
    using place_low(1,2) [OF w1 w2 w3 k31] p k31 k(2)
    by (simp add: UnpackPlace_def shift_left_def shift_right_def shift_two Let_def del: push_bit_Suc drop_bit_Suc)
qed

lemma packed_bits:
  assumes "k < 31"
  shows "bit (push_bit (Suc n) c OR ucast (push_bit 1 pid) OR ucast (2 ^ k :: u32) :: u64) i \<longleftrightarrow>
    Suc n \<le> i \<and> i < 64 \<and> bit c (i - Suc n) \<or> 0 < i \<and> i < 32 \<and> bit (pid :: u32) (i - 1) \<or> i = k"
proof -
  have "bit (ucast (push_bit 1 pid) :: u64) i \<longleftrightarrow> 0 < i \<and> i < 32 \<and> bit pid (i - 1)"
    by (auto simp: bit_unsigned_iff bit_push_bit_iff double_bit)
  moreover have "bit (ucast (2 ^ k :: u32) :: u64) i \<longleftrightarrow> i = k"
    using assms by (auto simp: bit_unsigned_iff exp_bit)
  moreover have "bit (push_bit (Suc n) c) i \<longleftrightarrow> Suc n \<le> i \<and> i < 64 \<and> bit c (i - Suc n)"
    by (auto simp: bit_push_bit_iff simp del: push_bit_Suc)
  ultimately show ?thesis unfolding bit_or_iff by blast
qed

lemma PackPlace_UnpackPlace:
  assumes p: "pid_bits m < 31" and nz: "v AND mask (Suc (pid_bits m)) \<noteq> 0"
  shows "res_bind (UnpackPlace m v) (PackPlace m) = Inr v"
proof -
  let ?n = "pid_bits m"
  let ?w = "v AND mask (Suc ?n)"
  define k where "k = (LEAST i. bit ?w i)"
  have "\<exists>i. bit ?w i" using nz by (metis bit_eqI bit_0_eq bot_apply bot_bool_def)
  then have w1: "bit ?w k" unfolding k_def by (rule LeastI_ex)
  have w2: "\<forall>i<k. \<not> bit ?w i" using not_less_Least unfolding k_def by blast
  have w3: "\<forall>i. bit ?w i \<longrightarrow> i < 32" using p by (auto simp: bit_simps)
  have kn: "k \<le> ?n" and k31: "k < 31" using w1 p by (auto simp: bit_simps)
  let ?pid = "ucast ((?w - ucast (2 ^ k :: u32)) div 2) :: u32"
  note P = place_low [OF w1 w2 w3 k31]
  let ?pl = "\<lparr>pl_capability = drop_bit (Suc ?n) v, pl_size = 2 ^ k, pl_pid = ?pid\<rparr>"
  have "(push_bit k 1 :: u32) = 2 ^ k" by (simp add: push_bit_eq_mult)
  then have unpack: "UnpackPlace m v = Inr ?pl"
    using P(1,2) p k31 by (simp add: UnpackPlace_def shift_left_def shift_right_def shift_two Let_def)
  have "take_bit k ?pid = 0"
  proof (rule bit_eqI)
    fix i
    show "bit (take_bit k ?pid) i = bit 0 i"
      using w2 [THEN spec, of "Suc i"] P(3) [of i] by (cases "Suc i = k") (auto simp: bit_take_bit_iff)
  qed
  then have mod: "?pid mod 2 ^ k = 0" by (simp add: take_bit_eq_mod)
  have size_pos: "(2 :: u32) ^ k \<noteq> 0" using k31 by (simp add: exp_eq_zero_iff)
  have pow: "IsPowerOfTwo (2 ^ k :: u32)" unfolding IsPowerOfTwo_def mask_exp
    by (rule bit_eqI) (auto simp: bit_simps exp_bit)
  have "push_bit (Suc ?n) (drop_bit (Suc ?n) v) OR ucast (push_bit 1 ?pid) OR ucast (2 ^ k :: u32) = v"
  proof (rule bit_eqI)
    fix i
    have w: "bit ?w i \<longleftrightarrow> i \<le> ?n \<and> bit v i" using p by (auto simp: bit_and_iff bit_mask_iff)
    have pid: "0 < i \<Longrightarrow> bit ?pid (i - 1) \<longleftrightarrow> bit ?w i \<and> i \<noteq> k" unfolding P(3) by simp
    have w0: "i = 0 \<Longrightarrow> bit ?w i \<Longrightarrow> i = k" using w2 by (cases k) simp_all
    have wk: "i = k \<Longrightarrow> bit ?w i" using w1 by simp
    have drop: "Suc ?n \<le> i \<Longrightarrow> bit (drop_bit (Suc ?n) v) (i - Suc ?n) = bit v i"
      by (simp only: bit_drop_bit_eq o_apply le_add_diff_inverse)
    show "bit (push_bit (Suc ?n) (drop_bit (Suc ?n) v) OR ucast (push_bit 1 ?pid) OR ucast (2 ^ k :: u32)) i = bit v i"
    proof (cases "Suc ?n \<le> i")
      case True
      then have "i \<noteq> k" "\<not> bit ?w i" using kn w by simp_all
      then show ?thesis unfolding packed_bits [OF k31] using True pid drop bit_imp_le_length [of v i] by auto
    next
      case False
      then have "bit v i = bit ?w i" "i < 32" using w p by simp_all
      then show ?thesis unfolding packed_bits [OF k31] using False pid w0 wk by (cases "i = 0") auto
    qed
  qed
  then show ?thesis using unpack mod size_pos pow p
    by (simp add: PackPlace_def shift_left_def del: push_bit_Suc drop_bit_Suc)
qed

lemma fits_take_bit: "unat w < 2 ^ n \<Longrightarrow> w = take_bit n w"
  by (simp add: word_unat_eq_iff unsigned_take_bit_eq take_bit_nat_eq_self)

text \<open>The default place, of size 0, is what the other integers read as; it is no place that can be
  packed, because the packing divides by the size.\<close>

lemma UnpackPlace_default:
  assumes "pid_bits m < 31" and "v AND mask (Suc (pid_bits m)) = 0"
  shows "UnpackPlace m v = Inr \<lparr>pl_capability = drop_bit (Suc (pid_bits m)) v, pl_size = 0, pl_pid = 0\<rparr>"
  using assms by (simp add: UnpackPlace_def shift_left_def shift_right_def shift_two Let_def del: push_bit_Suc drop_bit_Suc)

lemma PackPlace_default: "pl_size pl = 0 \<Longrightarrow> PackPlace m pl = Inl UndefinedBehaviour"
  by (simp add: PackPlace_def IsPowerOfTwo_def)

text \<open>
  C30. With less than 31 bits for cores and at most 32 for cores and families: a family identifier whose parts
  fit their bits is read back from the integer it is packed into, and every integer is the packing of
  what is read from it. A place whose size is a power of two within the bits for cores, whose first core
  is a multiple of the size and whose numbers fit is read back from its packing. An integer whose low
  bits (those for the size and twice the first core) are not all zero reads as a place that passes the
  assertions of the packing and packs to that integer; one whose low bits are all zero reads as the
  default place, of size 0, for which the packing is not defined, since it takes a remainder by the size.
\<close>

theorem identifiers_roundtrip:
  assumes "pid_bits m < 31" and "pid_bits m + fid_bits m \<le> 32"
  shows "(unat (f_pid fid) < 2 ^ pid_bits m \<and> unat (f_lfid fid) < 2 ^ fid_bits m
        \<and> unat (f_capability fid) < 2 ^ (64 - (pid_bits m + fid_bits m))
        \<longrightarrow> res_bind (PackFID m fid) (UnpackFID m) = Inr fid)
    \<and> res_bind (UnpackFID m v) (PackFID m) = Inr v
    \<and> (k \<le> pid_bits m \<and> pl_size pl = 2 ^ k \<and> pl_pid pl mod pl_size pl = 0
        \<and> unat (pl_pid pl) < 2 ^ pid_bits m \<and> unat (pl_capability pl) < 2 ^ (64 - Suc (pid_bits m))
        \<longrightarrow> res_bind (PackPlace m pl) (UnpackPlace m) = Inr pl)
    \<and> (v AND mask (Suc (pid_bits m)) \<noteq> 0 \<longrightarrow> res_bind (UnpackPlace m v) (PackPlace m) = Inr v)
    \<and> (v AND mask (Suc (pid_bits m)) = 0 \<longrightarrow>
        UnpackPlace m v = Inr \<lparr>pl_capability = drop_bit (Suc (pid_bits m)) v, pl_size = 0, pl_pid = 0\<rparr>
        \<and> res_bind (UnpackPlace m v) (PackPlace m) = Inl UndefinedBehaviour)"
proof (intro conjI impI; (elim conjE)?)
  have p: "pid_bits m < 32" using assms(1) by simp
  show "res_bind (UnpackFID m v) (PackFID m) = Inr v"
    by (rule PackFID_UnpackFID [OF assms(2) p])
  show "res_bind (PackFID m fid) (UnpackFID m) = Inr fid"
    if "unat (f_pid fid) < 2 ^ pid_bits m" "unat (f_lfid fid) < 2 ^ fid_bits m"
      "unat (f_capability fid) < 2 ^ (64 - (pid_bits m + fid_bits m))"
    using UnpackFID_PackFID [OF assms(2) that [THEN fits_take_bit] p] .
  show "res_bind (PackPlace m pl) (UnpackPlace m) = Inr pl"
    if "k \<le> pid_bits m" "pl_size pl = 2 ^ k" "pl_pid pl mod pl_size pl = 0"
      "unat (pl_pid pl) < 2 ^ pid_bits m" "unat (pl_capability pl) < 2 ^ (64 - Suc (pid_bits m))"
    by (rule UnpackPlace_PackPlace [OF assms(1) that(1,2) fits_take_bit [OF that(4)] that(3) fits_take_bit [OF that(5)]])
  show "res_bind (UnpackPlace m v) (PackPlace m) = Inr v" if "v AND mask (Suc (pid_bits m)) \<noteq> 0"
    by (rule PackPlace_UnpackPlace [OF assms(1) that])
  show "UnpackPlace m v = Inr \<lparr>pl_capability = drop_bit (Suc (pid_bits m)) v, pl_size = 0, pl_pid = 0\<rparr>"
    and "res_bind (UnpackPlace m v) (PackPlace m) = Inl UndefinedBehaviour"
    if "v AND mask (Suc (pid_bits m)) = 0"
    using UnpackPlace_default [OF assms(1) that] by (simp_all only: res_bind_simps PackPlace_default PlaceID.simps)
qed

theorem identifiers_roundtrip_witness:
  "res_bind (PackFID \<lparr>pid_bits = 4, fid_bits = 5, tid_bits = 8\<rparr> \<lparr>f_capability = 7, f_pid = 3, f_lfid = 9\<rparr>)
       (UnpackFID \<lparr>pid_bits = 4, fid_bits = 5, tid_bits = 8\<rparr>)
     = Inr \<lparr>f_capability = 7, f_pid = 3, f_lfid = 9\<rparr>
   \<and> res_bind (PackPlace \<lparr>pid_bits = 4, fid_bits = 5, tid_bits = 8\<rparr> \<lparr>pl_capability = 7, pl_size = 4, pl_pid = 8\<rparr>)
       (UnpackPlace \<lparr>pid_bits = 4, fid_bits = 5, tid_bits = 8\<rparr>)
     = Inr \<lparr>pl_capability = 7, pl_size = 4, pl_pid = 8\<rparr>"
  using identifiers_roundtrip [of "\<lparr>pid_bits = 4, fid_bits = 5, tid_bits = 8\<rparr>"
      "\<lparr>f_capability = 7, f_pid = 3, f_lfid = 9\<rparr>" 0 2 "\<lparr>pl_capability = 7, pl_size = 4, pl_pid = 8\<rparr>"]
  by simp

section \<open>Thread-local storage\<close>

text \<open>The address is the sum of its fields, and its thread's number in the machine picks the area.\<close>

lemma len64: "LENGTH(64) = 64" by simp

lemma unat_field:
  assumes "unat (w :: u32) < 2 ^ n" and "n + k \<le> 64"
  shows "unat (push_bit k (ucast w) :: u64) = unat w * 2 ^ k"
proof -
  have "unat w * 2 ^ k < 2 ^ n * 2 ^ k" using assms(1) by simp
  also have "\<dots> \<le> 2 ^ 64" using assms(2) by (simp only: power_add [symmetric] power_increasing_iff)
  finally have "unat w * 2 ^ k < 2 ^ 64" .
  moreover have "unat w < 2 ^ 64"
    using less_le_trans [OF assms(1) power_increasing [of n 64 2]] assms(2) by simp
  moreover have "unat (push_bit k (ucast w) :: u64) = take_bit 64 (push_bit k (take_bit 64 (unat w)))"
    by (simp only: unsigned_push_bit_eq unsigned_ucast_eq len64)
  ultimately show ?thesis by (simp add: push_bit_eq_mult take_bit_nat_eq_self)
qed

lemma unat_or_disjoint:
  assumes "a AND b = 0" and "unat a + unat b < 2 ^ LENGTH('a)"
  shows "unat (a OR b :: 'a::len word) = unat a + unat b"
  using assms word_plus_and_or [of a b] unat_add_lem [of a b] by simp

lemma TLS_address:
  assumes "p + t + T = 63" and "unat (pid :: u32) < 2 ^ p" and "unat (tid :: u32) < 2 ^ t"
  shows "unat (push_bit 63 1 OR push_bit (t + T) (ucast pid) OR push_bit T (ucast tid) :: u64)
    = (2 ^ (p + t) + (unat pid * 2 ^ t + unat tid)) * 2 ^ T"
    and "unat pid * 2 ^ t + unat tid < 2 ^ (p + t)"
proof -
  let ?x = "push_bit 63 1 :: u64" and ?y = "push_bit (t + T) (ucast pid) :: u64"
    and ?z = "push_bit T (ucast tid) :: u64"
  have x: "unat ?x = 2 ^ (p + t) * 2 ^ T" unfolding power_add [symmetric] assms(1) by simp
  have y: "unat ?y = unat pid * 2 ^ t * 2 ^ T"
    using unat_field [OF assms(2), of "t + T"] assms(1) by (simp add: power_add)
  have z: "unat ?z = unat tid * 2 ^ T" using unat_field [OF assms(3), of T] assms(1) by simp
  have "unat pid * 2 ^ t + unat tid < (unat pid + 1) * 2 ^ t" using assms(3) by simp
  also have "\<dots> \<le> 2 ^ p * 2 ^ t" by (rule mult_le_mono1) (use assms(2) in simp)
  finally show lt: "unat pid * 2 ^ t + unat tid < 2 ^ (p + t)" by (simp add: power_add)
  then have "(unat pid * 2 ^ t + unat tid) * 2 ^ T < 2 ^ (p + t) * 2 ^ T" by simp
  then have sum: "unat ?y + unat ?z < 2 ^ (p + t) * 2 ^ T" unfolding y z by (simp add: algebra_simps)
  have top: "2 ^ (p + t) * 2 ^ T = (2 ^ 63 :: nat)" unfolding power_add [symmetric] assms(1) by simp
  note P = small_bit [OF fits_take_bit [OF assms(2)]] and Q = small_bit [OF fits_take_bit [OF assms(3)]]
  have xb: "bit ?x i \<longleftrightarrow> i = 63" for i unfolding bit_push_bit_iff bit_1_iff by auto
  have yb: "bit ?y i \<Longrightarrow> t + T \<le> i \<and> i < 63" for i
    using assms(1) by (auto simp: bit_push_bit_iff bit_unsigned_iff dest!: P)
  have zb: "bit ?z i \<Longrightarrow> i < t + T" for i
    by (auto simp: bit_push_bit_iff bit_unsigned_iff dest!: Q)
  have "?x AND ?y = 0"
  proof (rule bit_eqI)
    show "bit (?x AND ?y) i = bit 0 i" for i unfolding bit_and_iff xb using yb [of i] by auto
  qed
  then have xy: "unat (?x OR ?y) = unat ?x + unat ?y"
    by (rule unat_or_disjoint) (use sum x top in simp)
  have "(?x OR ?y) AND ?z = 0"
  proof (rule bit_eqI)
    show "bit ((?x OR ?y) AND ?z) i = bit 0 i" for i
      unfolding bit_and_iff bit_or_iff xb using assms(1) yb [of i] zb [of i] by auto
  qed
  then have "unat ((?x OR ?y) OR ?z) = unat (?x OR ?y) + unat ?z"
    by (rule unat_or_disjoint) (use sum x xy top in simp)
  then show "unat (?x OR ?y OR ?z) = (2 ^ (p + t) + (unat pid * 2 ^ t + unat tid)) * 2 ^ T"
    unfolding xy x y z or.assoc by (simp add: algebra_simps)
qed

text \<open>A whole kilobyte of an area can be read, of which the comment only speaks of 64 bytes.\<close>

lemma core_reads_TLS:
  assumes a: "a = push_bit 63 1 OR push_bit (t + T) (ucast (pid :: u32)) OR push_bit T (ucast (tid :: u32))"
    and T: "pid_bits m + tid_bits m + T = 63" "10 \<le> T" and off: "unat off < 1024"
  shows "core_CheckPermissions m (Some vm) (a + off) n PERM_READ = Inr True"
proof -
  have ob: "bit off i \<Longrightarrow> i < 10" for i using small_bit [OF fits_take_bit [of off 10]] off by simp
  have ab: "bit a i \<Longrightarrow> T \<le> i" and top: "bit a 63" for i
    unfolding a bit_or_iff bit_push_bit_iff bit_1_iff using T(1) by auto
  have "a AND off = 0"
  proof (rule bit_eqI)
    show "bit (a AND off) i = bit 0 i" for i using ab [of i] ob [of i] T(2) by (auto simp: bit_and_iff)
  qed
  then have sum: "a + off = a OR off" using word_plus_and_or [of a off] by simp
  have k: "(1023 :: u64) = mask 10" by (simp add: mask_eq_exp_minus_1)
  have "(a OR off) AND (mask T XOR mask 10) = 0"
  proof (rule bit_eqI)
    show "bit ((a OR off) AND (mask T XOR mask 10)) i = bit 0 i" for i
      unfolding bit_and_iff bit_or_iff bit_xor_iff bit_mask_iff
      using ab [of i] ob [of i] T(2) by auto
  qed
  moreover have "(a OR off) AND push_bit 63 1 \<noteq> 0"
    unfolding push_bit_of_1 and_exp_eq_0_iff_not_bit bit_or_iff using top by simp
  moreover have "shift_left (64 - (pid_bits m + tid_bits m + 1)) (1 :: u64) = Inr (push_bit T 1)"
  proof -
    have "64 - (pid_bits m + tid_bits m + 1) = T" "T < 64" using T by simp_all
    then show ?thesis by (simp only: shift_left_def len64 if_True)
  qed
  moreover have "(push_bit T 1 :: u64) - 1 = mask T" unfolding push_bit_of_1 by (rule mask_exp)
  ultimately show ?thesis
    by (simp only: core_CheckPermissions_def with_memadmin_def option.case vm_CheckPermissions_def vm_check_size_id
        res_bind_simps sum Let_def k simp_thms if_True if_False split: if_splits) (simp add: PERM_READ_def)
qed

text \<open>
  C31. As long as the bits of cores and threads leave at least one bit of an address, the areas of
  thread-local storage of cores and threads whose numbers fit these bits lie in the upper half of the
  address space, within it, and do not overlap: the areas of two threads that differ in their core or
  in their number are disjoint. When cores and threads together take at most 53 bits, so that an area
  has a kilobyte or more, a core lets a thread read the first cache line (64 bytes) of an area even
  where no memory is reserved.
\<close>

theorem TLS_areas_disjoint:
  assumes "pid_bits m + tid_bits m + 1 < 64"
    and "unat pid < 2 ^ pid_bits m" "unat tid < 2 ^ tid_bits m"
    and "unat pid' < 2 ^ pid_bits m" "unat tid' < 2 ^ tid_bits m" and "(pid, tid) \<noteq> (pid', tid')"
  shows "\<exists>a a' s. GetTLSAddress m pid tid = Inr a \<and> GetTLSAddress m pid' tid' = Inr a' \<and> GetTLSSize m = Inr s
    \<and> 0 < unat s \<and> 2 ^ 63 \<le> unat a \<and> unat a + unat s \<le> 2 ^ 64
    \<and> (unat a + unat s \<le> unat a' \<or> unat a' + unat s \<le> unat a)
    \<and> (pid_bits m + tid_bits m \<le> 53 \<longrightarrow> (\<forall>off. unat off < 64
        \<longrightarrow> core_CheckPermissions m (Some vm) (a + off) n PERM_READ = Inr True))"
proof -
  let ?p = "pid_bits m" and ?t = "tid_bits m"
  define T where "T = 63 - (?p + ?t)"
  have T: "?p + ?t + T = 63" unfolding T_def using assms(1) by simp
  have d: "63 - ?p = ?t + T" "?t + T - ?t = T" "64 - (1 + ?p + ?t) = T" using T by simp_all
  define ix where "ix c i = unat (c :: u32) * 2 ^ ?t + unat (i :: u32)" for c i
  define addr where "addr c i = (push_bit 63 1 OR push_bit (?t + T) (ucast c) OR push_bit T (ucast i) :: u64)"
    for c i :: u32
  have get: "GetTLSAddress m c i = Inr (addr c i)" for c i
    unfolding GetTLSAddress_def Let_def d addr_def using assms(1) by (simp only: assert_that_simps)
  have "GetTLSSize m = Inr (push_bit T 1)"
    unfolding GetTLSSize_def d using assms(1) by (simp only: assert_that_simps)
  moreover have "unat (push_bit T 1 :: u64) = 2 ^ T"
    unfolding push_bit_of_1 by (rule unat_power_of_two) (use T in simp)
  moreover have len: "unat (addr c i) = (2 ^ (?p + ?t) + ix c i) * 2 ^ T" "ix c i < 2 ^ (?p + ?t)"
    if "unat c < 2 ^ ?p" "unat i < 2 ^ ?t" for c i
    unfolding addr_def ix_def using TLS_address [OF T that] by simp_all
  have "ix pid tid \<noteq> ix pid' tid'"
  proof
    assume eq: "ix pid tid = ix pid' tid'"
    then have "ix pid tid div 2 ^ ?t = ix pid' tid' div 2 ^ ?t" by simp
    then have "unat pid = unat pid'" using assms(3,5) unfolding ix_def by simp
    moreover from this have "unat tid = unat tid'" using eq unfolding ix_def by simp
    ultimately show False using assms(6) by (simp add: word_unat_eq_iff)
  qed
  then have "(2 ^ (?p + ?t) + ix pid tid + 1) * 2 ^ T \<le> (2 ^ (?p + ?t) + ix pid' tid') * 2 ^ T
      \<or> (2 ^ (?p + ?t) + ix pid' tid' + 1) * 2 ^ T \<le> (2 ^ (?p + ?t) + ix pid tid) * 2 ^ T"
    by (intro disj_forward [OF linorder_neq_iff [THEN iffD1]] mult_le_mono1) (simp_all add: Suc_le_eq)
  moreover have "2 ^ 63 = 2 ^ (?p + ?t) * (2 ^ T :: nat)" unfolding power_add [symmetric] T by (rule refl)
  moreover have "(2 ^ (?p + ?t) + ix pid tid + 1) * 2 ^ T \<le> (2 ^ (?p + ?t) + 2 ^ (?p + ?t)) * 2 ^ T"
    by (rule mult_le_mono1) (use len(2) [OF assms(2,3)] in simp)
  moreover have "?p + ?t \<le> 53 \<longrightarrow> (\<forall>off. unat off < 64
      \<longrightarrow> core_CheckPermissions m (Some vm) (addr pid tid + off) n PERM_READ = Inr True)"
    using core_reads_TLS [OF addr_def T] T by simp
  ultimately show ?thesis
    using get [of pid tid] get [of pid' tid'] len(1) [OF assms(2,3)] len(1) [OF assms(4,5)]
    by (intro exI conjI) (assumption | simp add: algebra_simps)+
qed

theorem TLS_areas_disjoint_witness:
  "\<exists>a a' s. GetTLSAddress \<lparr>pid_bits = 4, fid_bits = 5, tid_bits = 8\<rparr> 1 5 = Inr a
    \<and> GetTLSAddress \<lparr>pid_bits = 4, fid_bits = 5, tid_bits = 8\<rparr> 2 5 = Inr a'
    \<and> GetTLSSize \<lparr>pid_bits = 4, fid_bits = 5, tid_bits = 8\<rparr> = Inr s
    \<and> (unat a + unat s \<le> unat a' \<or> unat a' + unat s \<le> unat a)"
proof -
  have "unat (1 :: u32) < 2 ^ 4" "unat (2 :: u32) < 2 ^ 4" "unat (5 :: u32) < 2 ^ 8" by simp_all
  then show ?thesis
    using TLS_areas_disjoint [of "\<lparr>pid_bits = 4, fid_bits = 5, tid_bits = 8\<rparr>" 1 5 2 5 virtual_memory_init 8]
    by auto
qed

end
