(* ===== verification/TLB.thy ===== *)
theory TLB
  imports MMU_LRU Storages DRISC_Identifiers
begin

text \<open>
  The translation look-aside buffer of a core (arch/drisc/mmu/TLB.h, TLB.cpp) and the messages it
  exchanges with the manager of page tables (manager/MgtMsg.h). The tables are for pages of growing
  size; the first one also holds the pending lines. What the buffer reports to the data cache
  is returned as a list of events; the interface to the bus is an argument of the process
  that transmits. A message that is declared without initial value has arbitrary contents, an argument.
\<close>

section \<open>Messages\<close>

text \<open>Bit-fields are laid out from the least significant bit, as the comments of the header count them.\<close>

definition get_bits :: "nat \<Rightarrow> nat \<Rightarrow> u64 \<Rightarrow> u64" where
  "get_bits off n w = take_bit n (drop_bit off w)"

definition put_bits :: "nat \<Rightarrow> nat \<Rightarrow> u64 \<Rightarrow> u64 \<Rightarrow> u64" where
  "put_bits off n v w = (w AND NOT (push_bit off (Bit_Operations.mask n))) OR push_bit off (take_bit n v)"

record MgtMsg =
  msg_part0 :: u64
  msg_part1 :: u64

definition MSG_NO_MSG :: u64 where "MSG_NO_MSG = 0"
definition MSG_MISS :: u64 where "MSG_MISS = 1"
definition MSG_INVALIDATE :: u64 where "MSG_INVALIDATE = 2"
definition MSG_REFILL :: u64 where "MSG_REFILL = 3"
definition MSG_INV :: u64 where "MSG_INV = 4"
definition MSG_SET :: u64 where "MSG_SET = 5"

definition TlbType_ITLB :: u64 where "TlbType_ITLB = 0"
definition TlbType_DTLB :: u64 where "TlbType_DTLB = 1"

definition SET_PT_ON_MGT :: u64 where "SET_PT_ON_MGT = 0"
definition SET_MGT_ADDR_ON_TLB :: u64 where "SET_MGT_ADDR_ON_TLB = 1"
definition SET_STATE_ON_TLB :: u64 where "SET_STATE_ON_TLB = 2"

definition msg_type :: "MgtMsg \<Rightarrow> u64" where "msg_type m = get_bits 0 3 (msg_part0 m)"

definition iReq_filterContext :: "MgtMsg \<Rightarrow> bool" where "iReq_filterContext m \<longleftrightarrow> get_bits 3 1 (msg_part0 m) \<noteq> 0"
definition iReq_filterVAddr :: "MgtMsg \<Rightarrow> bool" where "iReq_filterVAddr m \<longleftrightarrow> get_bits 4 1 (msg_part0 m) \<noteq> 0"
definition iReq_contextId :: "MgtMsg \<Rightarrow> u64" where "iReq_contextId m = get_bits 5 16 (msg_part0 m)"
definition iReq_vAddr :: "MgtMsg \<Rightarrow> u64" where "iReq_vAddr m = msg_part1 m"

text \<open>The request of a miss: type, line, kind of the buffer, context, 4 reserved bits, caller; the address.\<close>

definition mReq_write :: "u64 \<Rightarrow> u64 \<Rightarrow> u64 \<Rightarrow> u64 \<Rightarrow> u64 \<Rightarrow> MgtMsg \<Rightarrow> MgtMsg" where
  "mReq_write lineIndex tlbType contextId caller va m =
     m\<lparr>msg_part0 := put_bits 48 16 caller (put_bits 27 1 tlbType (put_bits 3 24 lineIndex
          (put_bits 28 16 contextId (put_bits 0 3 MSG_MISS (msg_part0 m))))),
       msg_part1 := va\<rparr>"

definition mReq_lineIndex :: "MgtMsg \<Rightarrow> u64" where "mReq_lineIndex m = get_bits 3 24 (msg_part0 m)"

definition refill_lineIndex :: "MgtMsg \<Rightarrow> u64" where "refill_lineIndex m = get_bits 3 24 (msg_part0 m)"
definition refill_table :: "MgtMsg \<Rightarrow> u64" where "refill_table m = get_bits 28 8 (msg_part0 m)"
definition refill_pAddr :: "MgtMsg \<Rightarrow> u64" where "refill_pAddr m = msg_part1 m"
definition dRefill_present :: "MgtMsg \<Rightarrow> bool" where "dRefill_present m \<longleftrightarrow> get_bits 27 1 (msg_part0 m) \<noteq> 0"
definition dRefill_read :: "MgtMsg \<Rightarrow> bool" where "dRefill_read m \<longleftrightarrow> get_bits 36 1 (msg_part0 m) \<noteq> 0"
definition dRefill_write :: "MgtMsg \<Rightarrow> bool" where "dRefill_write m \<longleftrightarrow> get_bits 37 1 (msg_part0 m) \<noteq> 0"

definition set_property :: "MgtMsg \<Rightarrow> u64" where "set_property m = get_bits 3 5 (msg_part0 m)"
definition set_val1 :: "MgtMsg \<Rightarrow> u64" where "set_val1 m = get_bits 8 32 (msg_part0 m)"
definition set_val2 :: "MgtMsg \<Rightarrow> u64" where "set_val2 m = get_bits 40 24 (msg_part0 m)"

section \<open>State\<close>

record IoAddr =
  io_devid :: u32
  io_chan :: u32

record IoMsg =
  io_addr :: IoAddr
  io_payload :: u64

record TLBResultMessage =
  tr_pending :: bool
  tr_read :: bool
  tr_write :: bool
  tr_pAddr :: u64
  tr_tlbOffsetWidth :: u64

text \<open>A reference to a line: its table and its index, or the two numbers that stand in their place in
  the report of a missing page.\<close>

datatype TlbLineRef = LineRef nat nat | RawRef u64 u64

datatype cache_event = TLBLookupCompleted u64 TlbLineRef bool

record TLB =
  tlb_ioDevId :: u32
  tlb_vAW :: u8
  tlb_contextAW :: u8
  tlb_tables :: "Table list"
  tlb_enabled :: bool
  tlb_lastLine :: "(nat \<times> nat) option"
  tlb_fifo_out :: "IoMsg buffer"
  tlb_fifo_in :: "IoMsg buffer"
  tlb_receiving :: flag
  tlb_mgtMsgBuffer :: MgtMsg
  tlb_mgtAddr :: IoAddr

definition set_table :: "nat \<Rightarrow> Table \<Rightarrow> TLB \<Rightarrow> TLB" where
  "set_table k tbl t = t\<lparr>tlb_tables := (tlb_tables t)[k := tbl]\<rparr>"

definition modify_tlb_line :: "nat \<Rightarrow> nat \<Rightarrow> (Line \<Rightarrow> Line) \<Rightarrow> TLB \<Rightarrow> TLB" where
  "modify_tlb_line k i f t = set_table k (modify_line i f (tlb_tables t ! k)) t"

definition tlb_line :: "nat \<Rightarrow> nat \<Rightarrow> TLB \<Rightarrow> Line" where
  "tlb_line k i t = tb_lines (tlb_tables t ! k) ! i"

text \<open>The check of the constructor: at least one table, in the order of their offsets.\<close>

fun check_ascending :: "Table list \<Rightarrow> unit res" where
  "check_ascending (a # b # ts) =
     (if tb_offsetWidth b \<le> tb_offsetWidth a then Inl InvalidArgumentException else check_ascending (b # ts))"
| "check_ascending _ = Inr ()"

definition TLB_new :: "u32 \<Rightarrow> u8 \<Rightarrow> u8 \<Rightarrow> Table list \<Rightarrow> nat \<Rightarrow> nat \<Rightarrow> TLB res" where
  "TLB_new devid vAW contextAW tables inFifoSize inFifoPushes =
     res_bind (buffer_init 10 4) (\<lambda>out. res_bind (buffer_init inFifoSize inFifoPushes) (\<lambda>inp.
       if tables = [] then Inl InvalidArgumentException
       else res_bind (check_ascending tables) (\<lambda>_.
         Inr \<lparr>tlb_ioDevId = devid, tlb_vAW = vAW, tlb_contextAW = contextAW, tlb_tables = tables, tlb_enabled = False,
           tlb_lastLine = None, tlb_fifo_out = out, tlb_fifo_in = inp, tlb_receiving = flag_init False,
           tlb_mgtMsgBuffer = \<lparr>msg_part0 = 0, msg_part1 = 0\<rparr>, tlb_mgtAddr = \<lparr>io_devid = 0, io_chan = 2\<rparr>\<rparr>)))"

section \<open>Sending\<close>

definition doTransmit :: "CyclePhase \<Rightarrow> bool \<Rightarrow> (IoMsg \<Rightarrow> bool) \<Rightarrow> TLB \<Rightarrow> (Result \<times> TLB) res" where
  "doTransmit ph clk SendNotification t =
     res_bind (buffer_Front (tlb_fifo_out t)) (\<lambda>item. res_bind (buffer_Pop ph clk (tlb_fifo_out t)) (\<lambda>b.
       Inr (if SendNotification item then SUCCESS else FAILED, t\<lparr>tlb_fifo_out := b\<rparr>)))"

definition sendMgtMsg :: "CyclePhase \<Rightarrow> bool \<Rightarrow> MgtMsg \<Rightarrow> TLB \<Rightarrow> (bool \<times> TLB) res" where
  "sendMgtMsg ph clk msg t =
     res_bind (buffer_Push ph clk \<lparr>io_addr = tlb_mgtAddr t, io_payload = msg_part1 msg\<rparr> 1 (tlb_fifo_out t)) (\<lambda>(ok1, b).
       if \<not> ok1 then Inr (False, t\<lparr>tlb_fifo_out := b\<rparr>)
       else res_bind (buffer_Push ph clk \<lparr>io_addr = tlb_mgtAddr t, io_payload = msg_part0 msg\<rparr> 1 b) (\<lambda>(ok0, b).
         Inr (ok0, t\<lparr>tlb_fifo_out := b\<rparr>)))"

definition OnWriteRequestReceived :: "CyclePhase \<Rightarrow> bool \<Rightarrow> u32 \<Rightarrow> u64 \<Rightarrow> u64 \<Rightarrow> TLB \<Rightarrow> (bool \<times> TLB) res" where
  "OnWriteRequestReceived ph clk src address payload t =
     res_bind (buffer_Push ph clk \<lparr>io_addr = \<lparr>io_devid = src, io_chan = ucast address\<rparr>, io_payload = payload\<rparr> 1
        (tlb_fifo_in t)) (\<lambda>(ok, b).
       if \<not> ok then Inr (False, t\<lparr>tlb_fifo_in := b\<rparr>)
       else Inr (True, t\<lparr>tlb_fifo_in := b, tlb_receiving := snd (flag_Set ph (tlb_receiving t))\<rparr>))"

section \<open>Lookup\<close>

definition TLB_doLookup_table ::
  "RAddr \<Rightarrow> RAddr \<Rightarrow> LineTag \<Rightarrow> nat \<Rightarrow> (nat \<times> nat) option \<times> TLB \<Rightarrow> ((nat \<times> nat) option \<times> TLB) res" where
  "TLB_doLookup_table contextId va tag k s =
     (case s of (found, t) \<Rightarrow>
       let tbl = tlb_tables t ! k in
       res_bind (truncateLsb va (m_width va - tb_vWidth tbl)) (\<lambda>tva.
       res_bind (Table_lookup contextId tva tag tbl) (\<lambda>(line, tbl).
         let t = set_table k tbl t in
         case line of None \<Rightarrow> Inr (found, t)
         | Some i \<Rightarrow> if found \<noteq> None then Inl DomainError else Inr (Some (k, i), t))))"

definition TLB_doLookup :: "RAddr \<Rightarrow> RAddr \<Rightarrow> LineTag \<Rightarrow> TLB \<Rightarrow> ((nat \<times> nat) option \<times> TLB) res" where
  "TLB_doLookup contextId va tag t =
     res_bind (strictExpect contextId (tlb_contextAW t)) (\<lambda>_.
     res_bind (strictExpect va (tb_vWidth (tlb_tables t ! 0))) (\<lambda>_.
       res_fold (TLB_doLookup_table contextId va tag) [0..<length (tlb_tables t)] (None, t)))"

definition pending_result :: TLBResultMessage where
  "pending_result = \<lparr>tr_pending = True, tr_read = False, tr_write = False, tr_pAddr = 0, tr_tlbOffsetWidth = 0\<rparr>"

definition line_result :: "Table \<Rightarrow> Line \<Rightarrow> TLBResultMessage" where
  "line_result tbl l = \<lparr>tr_pending = False, tr_read = ln_read l, tr_write = ln_write l,
     tr_pAddr = m_value (ln_pAddr l), tr_tlbOffsetWidth = ucast (tb_offsetWidth tbl)\<rparr>"

text \<open>The result is written to the argument \<open>res\<close>, which a failure leaves as it is.\<close>

definition TLB_miss ::
  "CyclePhase \<Rightarrow> bool \<Rightarrow> MgtMsg \<Rightarrow> RAddr \<Rightarrow> RAddr \<Rightarrow> TLBResultMessage \<Rightarrow> TLB \<Rightarrow> (Result \<times> TLBResultMessage \<times> TLB) res"
  where
  "TLB_miss ph clk msg contextId va res t =
     res_bind (storePending ph contextId va (tlb_tables t ! 0)) (\<lambda>(line, tbl).
       let t = set_table 0 tbl t in
       case line of None \<Rightarrow> Inr (FAILED, res, t)
       | Some i \<Rightarrow> res_bind (sendMgtMsg ph clk (mReq_write (of_nat i) TlbType_DTLB (m_value contextId)
             (ucast (tlb_ioDevId t)) (m_value va) msg) t) (\<lambda>(ok, t).
           if \<not> ok then Inr (FAILED, res, t)
           else Inr (DELAYED, pending_result, t\<lparr>tlb_lastLine := Some (0, i)\<rparr>)))"

definition TLB_lookup_address ::
  "CyclePhase \<Rightarrow> bool \<Rightarrow> MgtMsg \<Rightarrow> RAddr \<Rightarrow> RAddr \<Rightarrow> bool \<Rightarrow> TLBResultMessage \<Rightarrow> TLB
    \<Rightarrow> (Result \<times> TLBResultMessage \<times> TLB) res" where
  "TLB_lookup_address ph clk msg contextId va mayUnlock res t =
     res_bind (strictExpect va (tb_vWidth (tlb_tables t ! 0))) (\<lambda>_.
     res_bind (TLB_doLookup contextId va TAG_INDEXABLE t) (\<lambda>(r, t).
       case r of None \<Rightarrow> TLB_miss ph clk msg contextId va res t
       | Some (k, i) \<Rightarrow>
         if \<not> ln_present (tlb_line k i t) then Inr (DELAYED, pending_result, t\<lparr>tlb_lastLine := Some (k, i)\<rparr>)
         else let t = (if ln_locked (tlb_line k i t) \<and> mayUnlock
                       then COMMIT ph (modify_tlb_line k i (\<lambda>l. l\<lparr>ln_locked := False\<rparr>)) t else t)
           in Inr (SUCCESS, line_result (tlb_tables t ! k) (tlb_line k i t), t\<lparr>tlb_lastLine := None\<rparr>)))"

definition loopback :: "u64 \<Rightarrow> TLB \<Rightarrow> Result \<times> TLBResultMessage \<times> TLB" where
  "loopback va t = (SUCCESS, \<lparr>tr_pending = False, tr_read = True, tr_write = True, tr_pAddr = va, tr_tlbOffsetWidth = 0\<rparr>,
     t\<lparr>tlb_lastLine := None\<rparr>)"

text \<open>\<open>mem\<close> is the memory administration of the core and \<open>linesize\<close> the size of a cache line.\<close>

definition TLB_lookup ::
  "CyclePhase \<Rightarrow> bool \<Rightarrow> MgtMsg \<Rightarrow> virtual_memory option \<Rightarrow> u64 \<Rightarrow> u64 \<Rightarrow> u64 \<Rightarrow> bool \<Rightarrow> TLBResultMessage \<Rightarrow> TLB
    \<Rightarrow> (Result \<times> TLBResultMessage \<times> TLB) res" where
  "TLB_lookup ph clk msg mem linesize contextId va mayUnlock res t =
     (if \<not> tlb_enabled t then Inr (loopback va t)
      else if drop_bit 63 va \<noteq> 0 then Inr (loopback va t)
      else res_bind (core_isMapped mem va linesize) (\<lambda>mapped.
        if mapped
        then if va < 0x440000 \<or> (0x550000 < va \<and> va < 0x200000000) \<or> 0x600000000 \<le> va
          then Inr (loopback va t) else Inl LogicError
        else res_bind (RAddr_new contextId (tlb_contextAW t)) (\<lambda>c.
          res_bind (RAddr_truncateLsb va (tlb_vAW t) (tb_offsetWidth (tlb_tables t ! 0))) (\<lambda>v.
            TLB_lookup_address ph clk msg c v mayUnlock res t))))"

definition TLB_getLine :: "CyclePhase \<Rightarrow> nat \<Rightarrow> nat \<Rightarrow> TLB \<Rightarrow> (TLBResultMessage \<times> TLB) res" where
  "TLB_getLine ph k i t =
     assert_that (ln_locked (tlb_line k i t)) (assert_that (ln_present (tlb_line k i t))
       (let t = COMMIT ph (modify_tlb_line k i (\<lambda>l. l\<lparr>ln_locked := False\<rparr>)) t
        in Inr (line_result (tlb_tables t ! k) (tlb_line k i t), t)))"

definition setDCacheReference :: "u32 \<Rightarrow> TLB \<Rightarrow> TLB res" where
  "setDCacheReference dRef t =
     (case tlb_lastLine t of None \<Rightarrow> Inl AssertionFailure
      | Some (k, i) \<Rightarrow> assert_that (\<not> ln_present (tlb_line k i t))
          (Inr (modify_tlb_line k i (\<lambda>l. l\<lparr>ln_dlineRef := dRef\<rparr>) t)))"

section \<open>Messages of the manager\<close>

definition over_tables :: "(Table \<Rightarrow> Table res) \<Rightarrow> TLB \<Rightarrow> TLB res" where
  "over_tables f t = res_fold (\<lambda>k t. res_bind (f (tlb_tables t ! k)) (\<lambda>tbl. Inr (set_table k tbl t)))
     [0..<length (tlb_tables t)] t"

definition invalidate_all :: "CyclePhase \<Rightarrow> TLB \<Rightarrow> TLB res" where
  "invalidate_all ph t = over_tables (freeLines ph) t"

definition invalidate_context :: "CyclePhase \<Rightarrow> RAddr \<Rightarrow> TLB \<Rightarrow> TLB res" where
  "invalidate_context ph pid t = over_tables (freeLines_of ph pid None) t"

definition invalidate_address :: "CyclePhase \<Rightarrow> RAddr \<Rightarrow> RAddr \<Rightarrow> TLB \<Rightarrow> TLB res" where
  "invalidate_address ph pid addr t =
     (let minOffset = tb_offsetWidth (tlb_tables t ! 0)
      in res_bind (strictExpect addr (tlb_vAW t - minOffset)) (\<lambda>_.
        over_tables (\<lambda>tbl. res_bind (truncateLsb addr (tb_offsetWidth tbl - minOffset)) (\<lambda>tableAddr.
          freeLines_of ph pid (Some tableAddr) tbl)) t))"

text \<open>\<open>COMMITCLI\<close> of sim/object.h: also outside of any process.\<close>

definition COMMITCLI :: "CyclePhase \<Rightarrow> bool \<Rightarrow> ('a \<Rightarrow> 'a res) \<Rightarrow> 'a \<Rightarrow> 'a res" where
  "COMMITCLI ph process_active f t = (if ph = PHASE_COMMIT \<or> \<not> process_active then f t else Inr t)"

definition onInvalidateMsg :: "CyclePhase \<Rightarrow> bool \<Rightarrow> MgtMsg \<Rightarrow> TLB \<Rightarrow> (Result \<times> TLB) res" where
  "onInvalidateMsg ph active msg t =
     res_bind (RAddr_new (iReq_vAddr msg) (tlb_vAW t - tb_offsetWidth (tlb_tables t ! 0))) (\<lambda>addr.
     res_bind (RAddr_new (iReq_contextId msg) (tlb_contextAW t)) (\<lambda>context.
     res_bind
       (if iReq_filterVAddr msg \<and> iReq_filterContext msg then COMMITCLI ph active (invalidate_address ph context addr) t
        else if \<not> iReq_filterVAddr msg \<and> iReq_filterContext msg then COMMITCLI ph active (invalidate_context ph context) t
        else if \<not> iReq_filterVAddr msg \<and> \<not> iReq_filterContext msg then COMMITCLI ph active (invalidate_all ph) t
        else Inl AssertionFailure)
       (\<lambda>t. Inr (SUCCESS, t))))"

definition onPropertyMsg :: "CyclePhase \<Rightarrow> bool \<Rightarrow> MgtMsg \<Rightarrow> TLB \<Rightarrow> (Result \<times> TLB) res" where
  "onPropertyMsg ph active msg t =
     assert_that (msg_type msg = MSG_SET)
      (if set_property msg = SET_STATE_ON_TLB
       then res_bind (COMMITCLI ph active (\<lambda>t. Inr (t\<lparr>tlb_enabled := set_val1 msg \<noteq> 0\<rparr>)) t) (\<lambda>t. Inr (SUCCESS, t))
       else if set_property msg = SET_MGT_ADDR_ON_TLB
       then res_bind (COMMITCLI ph active
           (\<lambda>t. Inr (t\<lparr>tlb_mgtAddr := \<lparr>io_devid = ucast (set_val1 msg), io_chan = ucast (set_val2 msg)\<rparr>\<rparr>)) t)
         (\<lambda>t. Inr (SUCCESS, t))
       else Inl AssertionFailure)"

text \<open>The tables are numbered from the last one in messages; the number is a signed character.\<close>

definition refill_table_index :: "nat \<Rightarrow> u64 \<Rightarrow> nat res" where
  "refill_table_index n table =
     (let k = of_nat n - 1 - ucast table :: u8
      in if sint k < 0 then Inl UndefinedBehaviour else Inr (unat k))"

definition refill_absent :: "CyclePhase \<Rightarrow> RAddr \<Rightarrow> TLB \<Rightarrow> (Result \<times> cache_event list \<times> TLB) res" where
  "refill_absent ph lineIndex t =
     res_bind (getPending lineIndex \<lparr>m_value = 0, m_width = 0\<rparr> (tlb_tables t ! 0)) (\<lambda>r. case r of
       None \<Rightarrow> Inl DomainError
     | Some (c, v, d) \<Rightarrow> Inr (SUCCESS,
         if ph = PHASE_COMMIT then [TLBLookupCompleted (m_value d) (RawRef (m_value v) (m_value c)) False] else [], t))"

definition refill_first :: "CyclePhase \<Rightarrow> RAddr \<Rightarrow> RAddr \<Rightarrow> MgtMsg \<Rightarrow> TLB \<Rightarrow> (Result \<times> cache_event list \<times> TLB) res" where
  "refill_first ph lineIndex pa msg t =
     res_bind (fillPending ph lineIndex (dRefill_read msg) (dRefill_write msg) pa \<lparr>m_value = 0, m_width = 0\<rparr>
        (tlb_tables t ! 0)) (\<lambda>(i, d, tbl).
       Inr (SUCCESS, if ph = PHASE_COMMIT then [TLBLookupCompleted (m_value d) (LineRef 0 i) True] else [], set_table 0 tbl t))"

definition refill_other ::
  "CyclePhase \<Rightarrow> nat \<Rightarrow> RAddr \<Rightarrow> RAddr \<Rightarrow> MgtMsg \<Rightarrow> TLB \<Rightarrow> (Result \<times> cache_event list \<times> TLB) res" where
  "refill_other ph k lineIndex pa msg t =
     res_bind (getPending lineIndex \<lparr>m_value = 0, m_width = 0\<rparr> (tlb_tables t ! 0)) (\<lambda>r. case r of
       None \<Rightarrow> Inr (FAILED, [], t)
     | Some (c, v, d) \<Rightarrow>
         res_bind (truncateLsb v (tb_offsetWidth (tlb_tables t ! k) - tb_offsetWidth (tlb_tables t ! 0))) (\<lambda>v.
         res_bind (storeNormal ph c v pa (dRefill_read msg) (dRefill_write msg) (tlb_tables t ! k)) (\<lambda>(line, tbl).
           let t = set_table k tbl t in
           case line of None \<Rightarrow> Inr (FAILED, [], t)
           | Some i \<Rightarrow> res_bind (releasePending ph lineIndex (tlb_tables t ! 0)) (\<lambda>tbl0.
               Inr (SUCCESS, if ph = PHASE_COMMIT then [TLBLookupCompleted (m_value d) (LineRef k i) True] else [],
                 set_table 0 tbl0 t)))))"

definition onStoreMsg :: "CyclePhase \<Rightarrow> MgtMsg \<Rightarrow> TLB \<Rightarrow> (Result \<times> cache_event list \<times> TLB) res" where
  "onStoreMsg ph msg t =
     assert_that (msg_type msg = MSG_REFILL) (assert_that (unat (refill_table msg) < length (tlb_tables t))
      (res_bind (refill_table_index (length (tlb_tables t)) (refill_table msg)) (\<lambda>k.
       res_bind (RAddr_new (refill_pAddr msg) (tb_pWidth (tlb_tables t ! k))) (\<lambda>pa.
       res_bind (RAddr_new (refill_lineIndex msg) (tb_indexWidth (tlb_tables t ! 0))) (\<lambda>lineIndex.
         if \<not> dRefill_present msg then refill_absent ph lineIndex t
         else if k = 0 then refill_first ph lineIndex pa msg t
         else refill_other ph k lineIndex pa msg t)))))"

definition handleMgtMsg :: "CyclePhase \<Rightarrow> bool \<Rightarrow> MgtMsg \<Rightarrow> TLB \<Rightarrow> (Result \<times> cache_event list \<times> TLB) res" where
  "handleMgtMsg ph active msg t =
     (if msg_type msg = MSG_REFILL then onStoreMsg ph msg t
      else if msg_type msg = MSG_INVALIDATE then res_bind (onInvalidateMsg ph active msg t) (\<lambda>(r, t). Inr (r, [], t))
      else if msg_type msg = MSG_SET then res_bind (onPropertyMsg ph active msg t) (\<lambda>(r, t). Inr (r, [], t))
      else Inl AssertionFailure)"

text \<open>The two halves of a message are written to channels 0 and 8, the half at 0 completes it; a message of
  one half is written to channel 16. The process that receives is active.\<close>

definition doReceive :: "CyclePhase \<Rightarrow> bool \<Rightarrow> MgtMsg \<Rightarrow> TLB \<Rightarrow> (Result \<times> cache_event list \<times> TLB) res" where
  "doReceive ph clk single t =
     (if buffer_Empty (tlb_fifo_in t)
      then (case flag_Clear ph (tlb_receiving t) of (ok, f) \<Rightarrow>
        Inr (if ok then SUCCESS else FAILED, [], t\<lparr>tlb_receiving := f\<rparr>))
      else res_bind (buffer_Front (tlb_fifo_in t)) (\<lambda>item. res_bind (buffer_Pop ph clk (tlb_fifo_in t)) (\<lambda>b.
        let t = t\<lparr>tlb_fifo_in := b\<rparr>; addr = unat (io_chan (io_addr item)) div 8 in
        if addr \<le> 1
        then assert_that (io_devid (io_addr item) = io_devid (tlb_mgtAddr t))
          (if addr = 0
           then let m = (tlb_mgtMsgBuffer t)\<lparr>msg_part0 := io_payload item\<rparr>
             in handleMgtMsg ph True m (t\<lparr>tlb_mgtMsgBuffer := m\<rparr>)
           else Inr (SUCCESS, [], t\<lparr>tlb_mgtMsgBuffer := (tlb_mgtMsgBuffer t)\<lparr>msg_part1 := io_payload item\<rparr>\<rparr>))
        else if addr = 2
        then let m = single\<lparr>msg_part0 := io_payload item\<rparr>
          in assert_that (msg_type m = MSG_SET) (handleMgtMsg ph True m t)
        else Inl AssertionFailure)))"

end
