(* ===== verification/TLB_Refill.thy ===== *)
theory TLB_Refill
  imports TLB
begin

text \<open>
  A miss of the translation look-aside buffer, its refill by the manager and the hit that follows.
\<close>

lemma res_fold_append: "res_fold f (xs @ ys) s = res_bind (res_fold f xs s) (res_fold f ys)"
proof (induction xs arbitrary: s)
  case (Cons x xs)
  then show ?case by (cases "f x s") simp_all
qed simp

section \<open>One table\<close>

definition table_ok :: "Table \<Rightarrow> bool" where
  "table_ok t \<longleftrightarrow> (tb_evictionStrategy t = LRU \<longrightarrow> (\<exists>xs. lru_list t xs))"

lemma table_ok_commit:
  assumes "table_ok t" "\<And>l. ln_next (f l) = ln_next l" "\<And>l. ln_previous (f l) = ln_previous l"
  shows "table_ok (COMMIT ph (modify_line i f) t)"
  using assms lru_modify [OF _ assms(2,3), of t _ i] by (auto simp: table_ok_def COMMIT_def)

lemma setPrioHigh_ok:
  assumes "table_ok t" "i < length (tb_lines t)"
  shows "\<exists>t'. setPrioHigh i t = Inr t' \<and> same_data t t' \<and> table_ok t'"
proof (cases "tb_evictionStrategy t")
  case ACCESSED
  have "same_data t (modify_line i (\<lambda>l. l\<lparr>ln_accessed := True\<rparr>) t)"
    by (rule same_data_modify) (simp_all add: assms line_data_def)
  then show ?thesis using ACCESSED by (simp add: setPrioHigh_def table_ok_def)
next
  case LRU
  then obtain xs where "lru_list t xs" using assms(1) by (auto simp: table_ok_def)
  from setPrioHigh_LRU [OF this assms(2)] show ?thesis by (auto simp: table_ok_def)
qed (simp add: setPrioHigh_def assms)

lemma same_data_nth:
  assumes "same_data t t'" "i < length (tb_lines t)"
  shows "line_data (tb_lines t' ! i) = line_data (tb_lines t ! i)"
  using assms same_data_length [OF assms(1)] unfolding same_data_def by (metis nth_map)

lemma line_data_sel:
  assumes "line_data l = line_data l'"
  shows "ln_present l = ln_present l'" "ln_locked l = ln_locked l'" "ln_read l = ln_read l'" "ln_write l = ln_write l'"
    "ln_pAddr l = ln_pAddr l'" "ln_vAddr l = ln_vAddr l'" "ln_contextId l = ln_contextId l'"
  using assms unfolding line_data_def by (cases l, cases l', simp)+

lemma Table_find_None: "Table_find p t = None \<longleftrightarrow> (\<forall>l\<in>set (tb_lines t). \<not> p l)"
  using find_index_less [of p "tb_lines t"] find_index_le [of p "tb_lines t"]
  by (auto simp: Table_find_def Let_def le_less)

lemma Table_find_only:
  assumes "i < length (tb_lines t)" "p (tb_lines t ! i)" "\<And>j. j < length (tb_lines t) \<Longrightarrow> j \<noteq> i \<Longrightarrow> \<not> p (tb_lines t ! j)"
  shows "Table_find p t = Some i"
proof -
  have "find_index p (tb_lines t) = i" using assms by (intro find_index_first) auto
  then show ?thesis using assms(1) by (simp add: Table_find_def)
qed

lemma Line_is_simps [simp]:
  "Line_is TAG_FREE l \<longleftrightarrow> \<not> ln_present l \<and> \<not> ln_locked l"
  "Line_is TAG_PENDING l \<longleftrightarrow> \<not> ln_present l \<and> ln_locked l"
  "Line_is TAG_NORMAL l \<longleftrightarrow> ln_present l \<and> \<not> ln_locked l"
  "Line_is TAG_N_LOCKED l \<longleftrightarrow> ln_present l \<and> ln_locked l"
  "Line_is TAG_INDEXABLE l \<longleftrightarrow> ln_present l \<or> ln_locked l"
  by (cases "ln_present l"; cases "ln_locked l"; simp add: Line_is_def bit_iff_odd)+

text \<open>The widths of the addresses of a table.\<close>

definition widths_ok :: "RAddr \<Rightarrow> RAddr \<Rightarrow> Table \<Rightarrow> bool" where
  "widths_ok c v t \<longleftrightarrow> m_width c = tb_contextWidth t \<and> m_width v = tb_vWidth t
     \<and> unat (tb_contextWidth t) \<le> 64 \<and> unat (tb_vWidth t) \<le> 64"

lemma Table_lookup_miss:
  assumes "widths_ok c v t"
  shows "Table_lookup c v tag t = Inr (None, t') \<longleftrightarrow>
    t' = t \<and> (\<forall>l\<in>set (tb_lines t). \<not> Line_matches (Some c) (Some v) tag l)"
  using assms
  by (auto simp: Table_lookup_def Table_find_address_def strictExpect_ok widths_ok_def Table_find_None [symmetric]
      res_bind_Inr split: option.splits)

lemma Table_lookup_hit:
  assumes "widths_ok c v t" "table_ok t" "Table_find (Line_matches (Some c) (Some v) tag) t = Some i"
  shows "\<exists>t'. Table_lookup c v tag t = Inr (Some i, t') \<and> same_data t t' \<and> table_ok t'"
proof -
  have "i < length (tb_lines t)" using Table_find_Some [OF assms(3)] by simp
  from setPrioHigh_ok [OF assms(2) this] assms(1,3) show ?thesis
    by (auto simp: Table_lookup_def Table_find_address_def strictExpect_ok widths_ok_def)
qed

lemma modify_line_widths [simp]:
  "tb_offsetWidth (modify_line i f t) = tb_offsetWidth t" "tb_vWidth (modify_line i f t) = tb_vWidth t"
  "tb_pWidth (modify_line i f t) = tb_pWidth t" "tb_contextWidth (modify_line i f t) = tb_contextWidth t"
  "tb_indexWidth (modify_line i f t) = tb_indexWidth t"
  by (simp_all add: modify_line_def)

section \<open>Lookups in all tables\<close>

definition tlb_offset :: "TLB \<Rightarrow> nat \<Rightarrow> u8" where
  "tlb_offset t k = tb_offsetWidth (tlb_tables t ! k) - tb_offsetWidth (tlb_tables t ! 0)"

text \<open>An address in pages of the first table, in pages of the table \<open>k\<close>.\<close>

definition table_address :: "TLB \<Rightarrow> nat \<Rightarrow> RAddr \<Rightarrow> RAddr" where
  "table_address t k va =
     \<lparr>m_value = drop_bit (unat (tlb_offset t k)) (m_value va), m_width = tb_vWidth (tlb_tables t ! k)\<rparr>"

definition table_wf :: "TLB \<Rightarrow> Table \<Rightarrow> bool" where
  "table_wf t tbl \<longleftrightarrow> table_ok tbl \<and> length (tb_lines tbl) \<le> 2 ^ 24
     \<and> tb_contextWidth tbl = tlb_contextAW t \<and> tb_vWidth tbl = tlb_vAW t - tb_offsetWidth tbl
     \<and> unat (tlb_vAW t - tb_offsetWidth tbl) \<le> 64 \<and> unat (tb_pWidth tbl) \<le> 64 \<and> unat (tb_indexWidth tbl) \<le> 64
     \<and> unat (tb_offsetWidth tbl - tb_offsetWidth (tlb_tables t ! 0)) < 64"

definition tlb_wf :: "TLB \<Rightarrow> bool" where
  "tlb_wf t \<longleftrightarrow> tlb_tables t \<noteq> [] \<and> length (tlb_tables t) \<le> 128 \<and> unat (tlb_contextAW t) \<le> 64
     \<and> (\<forall>tbl\<in>set (tlb_tables t). table_wf t tbl)"

definition request_ok :: "TLB \<Rightarrow> RAddr \<Rightarrow> RAddr \<Rightarrow> bool" where
  "request_ok t c va \<longleftrightarrow> m_width c = tlb_contextAW t \<and> m_width va = tb_vWidth (tlb_tables t ! 0)"

definition line_for :: "TLB \<Rightarrow> RAddr \<Rightarrow> RAddr \<Rightarrow> nat \<Rightarrow> Line \<Rightarrow> bool" where
  "line_for t c va k l \<longleftrightarrow> Line_matches (Some c) (Some (table_address t k va)) TAG_INDEXABLE l"

lemma tlb_wf_nth: "tlb_wf t \<Longrightarrow> k < length (tlb_tables t) \<Longrightarrow> table_wf t (tlb_tables t ! k)"
  by (simp add: tlb_wf_def)

lemma tlb_wf_first: "tlb_wf t \<Longrightarrow> table_wf t (tlb_tables t ! 0)"
  by (simp add: tlb_wf_def)

lemma tlb_wf_context: "tlb_wf t \<Longrightarrow> unat (tlb_contextAW t) \<le> 64"
  by (simp add: tlb_wf_def)

lemma table_address_truncate:
  assumes "tlb_wf t" "request_ok t c va" "k < length (tlb_tables t)"
  shows "truncateLsb va (m_width va - tb_vWidth (tlb_tables t ! k)) = Inr (table_address t k va)"
    and "widths_ok c (table_address t k va) (tlb_tables t ! k)"
proof -
  note wf = tlb_wf_nth [OF assms(1,3)] tlb_wf_first [OF assms(1)]
  have off: "m_width va - tb_vWidth (tlb_tables t ! k) = tlb_offset t k"
    using wf assms(2) by (simp add: table_wf_def request_ok_def tlb_offset_def)
  have w: "m_width va - tlb_offset t k = tb_vWidth (tlb_tables t ! k)" unfolding off [symmetric] by simp
  have b: "unat (tlb_offset t k) < 64" "unat (m_width va - tlb_offset t k) \<le> 64"
    using wf(1) unfolding w by (auto simp: table_wf_def tlb_offset_def)
  show "truncateLsb va (m_width va - tb_vWidth (tlb_tables t ! k)) = Inr (table_address t k va)"
    unfolding off truncateLsb_ok [OF b] w table_address_def ..
  show "widths_ok c (table_address t k va) (tlb_tables t ! k)"
    using wf(1) assms(2) tlb_wf_context [OF assms(1)]
    by (auto simp: widths_ok_def table_address_def table_wf_def request_ok_def)
qed

lemma truncate_offset:
  assumes "tlb_wf t" "request_ok t c va" "k < length (tlb_tables t)"
  shows "truncateLsb va (tb_offsetWidth (tlb_tables t ! k) - tb_offsetWidth (tlb_tables t ! 0)) = Inr (table_address t k va)"
proof -
  have "m_width va - tb_vWidth (tlb_tables t ! k) = tb_offsetWidth (tlb_tables t ! k) - tb_offsetWidth (tlb_tables t ! 0)"
    using tlb_wf_nth [OF assms(1,3)] tlb_wf_first [OF assms(1)] assms(2) by (simp add: table_wf_def request_ok_def)
  then show ?thesis using table_address_truncate(1) [OF assms] by simp
qed

lemma set_table_same [simp]: "set_table k (tlb_tables t ! k) t = t"
  by (simp add: set_table_def)

lemma doLookup_table:
  assumes "tlb_wf t" "request_ok t c va" "k < length (tlb_tables t)"
  shows "TLB_doLookup_table c va tag k (found, t) =
    res_bind (Table_lookup c (table_address t k va) tag (tlb_tables t ! k)) (\<lambda>(line, tbl).
      case line of None \<Rightarrow> Inr (found, set_table k tbl t)
      | Some i \<Rightarrow> if found \<noteq> None then Inl DomainError else Inr (Some (k, i), set_table k tbl t))"
  by (simp add: TLB_doLookup_table_def Let_def table_address_truncate [OF assms])

lemma doLookup_skip:
  assumes "tlb_wf t" "request_ok t c va" "\<forall>k\<in>set ks. k < length (tlb_tables t)"
    and "\<forall>k\<in>set ks. \<forall>l\<in>set (tb_lines (tlb_tables t ! k)). \<not> line_for t c va k l"
  shows "res_fold (TLB_doLookup_table c va TAG_INDEXABLE) ks (found, t) = Inr (found, t)"
  using assms(3,4)
proof (induction ks)
  case (Cons k ks)
  then have "Table_lookup c (table_address t k va) TAG_INDEXABLE (tlb_tables t ! k) = Inr (None, tlb_tables t ! k)"
    using table_address_truncate(2) [OF assms(1,2)] by (simp add: Table_lookup_miss line_for_def)
  then show ?case using Cons doLookup_table [OF assms(1,2)] by simp
qed simp

lemma doLookup_table_found:
  "TLB_doLookup_table c va tag k (Some x, t) = Inr (r, t') \<Longrightarrow> r = Some x"
  by (auto simp: TLB_doLookup_table_def Let_def res_bind_Inr split: option.splits)

lemma doLookup_found_stays:
  assumes "res_fold (TLB_doLookup_table c va tag) ks (Some x, t) = Inr (r, t')"
  shows "r = Some x"
  using assms
proof (induction ks arbitrary: t)
  case (Cons k ks)
  then obtain y u where "TLB_doLookup_table c va tag k (Some x, t) = Inr (y, u)"
    "res_fold (TLB_doLookup_table c va tag) ks (y, u) = Inr (r, t')" by (auto simp: res_bind_Inr)
  then show ?case using Cons.IH doLookup_table_found by blast
qed simp

lemma doLookup_none:
  assumes "tlb_wf t" "request_ok t c va" "\<forall>k\<in>set ks. k < length (tlb_tables t)"
    and "res_fold (TLB_doLookup_table c va TAG_INDEXABLE) ks (None, t) = Inr (None, t')"
  shows "t' = t \<and> (\<forall>k\<in>set ks. \<forall>l\<in>set (tb_lines (tlb_tables t ! k)). \<not> line_for t c va k l)"
  using assms(3,4)
proof (induction ks)
  case (Cons k ks)
  then obtain x u where u: "TLB_doLookup_table c va TAG_INDEXABLE k (None, t) = Inr (x, u)"
    "res_fold (TLB_doLookup_table c va TAG_INDEXABLE) ks (x, u) = Inr (None, t')" by (auto simp: res_bind_Inr)
  then have "x = None" using doLookup_found_stays by (cases x) blast+
  then obtain tbl where tbl: "Table_lookup c (table_address t k va) TAG_INDEXABLE (tlb_tables t ! k) = Inr (None, tbl)"
    "u = set_table k tbl t"
    using u(1) doLookup_table [OF assms(1,2)] Cons.prems(1) by (auto simp: res_bind_Inr split: option.splits if_splits)
  then have "tbl = tlb_tables t ! k" "\<forall>l\<in>set (tb_lines (tlb_tables t ! k)). \<not> line_for t c va k l"
    using table_address_truncate(2) [OF assms(1,2)] Cons.prems(1) by (auto simp: Table_lookup_miss line_for_def)
  then show ?case using Cons u(2) tbl(2) \<open>x = None\<close> by auto
qed simp

text \<open>The line \<open>i\<close> of the table \<open>k\<close> is the only one for an address.\<close>

definition only_line :: "TLB \<Rightarrow> RAddr \<Rightarrow> RAddr \<Rightarrow> nat \<Rightarrow> nat \<Rightarrow> bool" where
  "only_line t c va k i \<longleftrightarrow> k < length (tlb_tables t) \<and> i < length (tb_lines (tlb_tables t ! k))
     \<and> line_for t c va k (tlb_line k i t)
     \<and> (\<forall>k'<length (tlb_tables t). \<forall>i'<length (tb_lines (tlb_tables t ! k')).
          (k', i') \<noteq> (k, i) \<longrightarrow> \<not> line_for t c va k' (tlb_line k' i' t))"

lemma only_line_others:
  assumes "only_line t c va k i" "k' < length (tlb_tables t)" "k' \<noteq> k" "l \<in> set (tb_lines (tlb_tables t ! k'))"
  shows "\<not> line_for t c va k' l"
  using assms by (auto simp: only_line_def in_set_conv_nth tlb_line_def)

lemma set_table_nth: "k < length (tlb_tables t) \<Longrightarrow> tlb_tables (set_table k tbl t) ! j = (if j = k then tbl else tlb_tables t ! j)"
  by (simp add: set_table_def nth_list_update)

lemma set_table_length [simp]: "length (tlb_tables (set_table k tbl t)) = length (tlb_tables t)"
  by (simp add: set_table_def)

text \<open>Replacing a table by one with the same settings.\<close>

definition same_settings :: "Table \<Rightarrow> Table \<Rightarrow> bool" where
  "same_settings t t' \<longleftrightarrow> tb_offsetWidth t' = tb_offsetWidth t \<and> tb_vWidth t' = tb_vWidth t \<and> tb_pWidth t' = tb_pWidth t
     \<and> tb_contextWidth t' = tb_contextWidth t \<and> tb_indexWidth t' = tb_indexWidth t
     \<and> length (tb_lines t') = length (tb_lines t)"

lemma same_data_settings: "same_data t t' \<Longrightarrow> same_settings t t'"
  using same_data_widths same_data_length by (simp add: same_settings_def)

lemma same_settings_commit [simp]: "same_settings t (COMMIT ph (modify_line i f) t)"
  by (simp add: same_settings_def COMMIT_def modify_line_def)

lemma same_settings_trans: "same_settings t t' \<Longrightarrow> same_settings t' t'' \<Longrightarrow> same_settings t t''"
  by (simp add: same_settings_def)

lemma set_table_wf:
  assumes "tlb_wf t" "k < length (tlb_tables t)" "same_settings (tlb_tables t ! k) tbl" "table_ok tbl"
  shows "tlb_wf (set_table k tbl t)"
proof -
  have off: "tb_offsetWidth (tlb_tables (set_table k tbl t) ! 0) = tb_offsetWidth (tlb_tables t ! 0)"
    using assms(2,3) by (simp add: set_table_nth same_settings_def)
  have "table_wf (set_table k tbl t) x" if "x \<in> set (tlb_tables (set_table k tbl t))" for x
  proof -
    have "x = tbl \<or> x \<in> set (tlb_tables t)" using that set_update_subset_insert by (fastforce simp: set_table_def)
    moreover have "table_wf (set_table k tbl t) tbl"
      using tlb_wf_nth [OF assms(1,2)] assms(3,4) off by (simp add: table_wf_def same_settings_def set_table_def)
    moreover have "table_wf (set_table k tbl t) x" if "x \<in> set (tlb_tables t)"
      using that assms(1) off by (simp add: tlb_wf_def table_wf_def set_table_def)
    ultimately show ?thesis by blast
  qed
  then show ?thesis using assms(1) by (simp add: tlb_wf_def) (simp add: set_table_def)
qed

lemma set_table_address:
  assumes "k < length (tlb_tables t)" "same_settings (tlb_tables t ! k) tbl"
  shows "table_address (set_table k tbl t) j va = table_address t j va"
    and "request_ok (set_table k tbl t) c va = request_ok t c va"
    and "line_for (set_table k tbl t) c va j l = line_for t c va j l"
proof -
  show a: "table_address (set_table k tbl t) j va = table_address t j va"
    using assms by (simp add: table_address_def tlb_offset_def set_table_nth same_settings_def)
  show "request_ok (set_table k tbl t) c va = request_ok t c va"
    using assms by (simp add: request_ok_def set_table_nth same_settings_def) (simp add: set_table_def)
  show "line_for (set_table k tbl t) c va j l = line_for t c va j l" by (simp add: line_for_def a)
qed

lemma doLookup_only:
  assumes wf: "tlb_wf t" "request_ok t c va" and only: "only_line t c va k i"
  shows "\<exists>tbl. TLB_doLookup c va TAG_INDEXABLE t = Inr (Some (k, i), set_table k tbl t) \<and> same_data (tlb_tables t ! k) tbl"
proof -
  let ?n = "length (tlb_tables t)" and ?f = "TLB_doLookup_table c va TAG_INDEXABLE"
  have k: "k < ?n" using only by (simp add: only_line_def)
  have split: "[0..<?n] = [0..<k] @ k # [Suc k..<?n]"
    using k by (metis append_Cons upt_add_eq_append upt_conv_Cons le_add_same_cancel1 le_eq_less_or_eq less_imp_add_positive zero_le)
  have "Table_find (line_for t c va k) (tlb_tables t ! k) = Some i"
    using only by (intro Table_find_only) (auto simp: only_line_def tlb_line_def)
  then obtain tbl where tbl: "Table_lookup c (table_address t k va) TAG_INDEXABLE (tlb_tables t ! k) = Inr (Some i, tbl)"
    "same_data (tlb_tables t ! k) tbl" "table_ok tbl"
    using Table_lookup_hit [OF table_address_truncate(2) [OF wf k]] tlb_wf_nth [OF wf(1) k]
    by (auto simp: line_for_def [abs_def] table_wf_def)
  have first: "res_fold ?f [0..<k] (None, t) = Inr (None, t)"
    using only_line_others [OF only] k by (intro doLookup_skip [OF wf]) auto
  have mid: "?f k (None, t) = Inr (Some (k, i), set_table k tbl t)"
    by (simp add: doLookup_table [OF wf k] tbl(1))
  let ?t = "set_table k tbl t"
  have settings: "same_settings (tlb_tables t ! k) tbl" using tbl(2) by (rule same_data_settings)
  note [simp] = set_table_address [OF k settings]
  have "tlb_wf ?t" using wf(1) k settings tbl(3) by (rule set_table_wf)
  then have last: "res_fold ?f [Suc k..<?n] (Some (k, i), ?t) = Inr (Some (k, i), ?t)"
    using only_line_others [OF only] wf(2) k by (intro doLookup_skip) (auto simp: set_table_nth)
  show ?thesis
    using tlb_wf_context [OF wf(1)] tlb_wf_first [OF wf(1)] wf(2) tbl(2)
    by (auto simp: TLB_doLookup_def request_ok_def strictExpect_ok table_wf_def split res_fold_append first mid last)
qed

lemma lookup_only:
  assumes wf: "tlb_wf t" "request_ok t c va" and only: "only_line t c va k i" and pres: "ln_present (tlb_line k i t)"
  shows "\<exists>t'. TLB_lookup_address ph clk msg c va mayUnlock r t
    = Inr (SUCCESS, line_result (tlb_tables t ! k) (tlb_line k i t), t')"
proof -
  from doLookup_only [OF wf only] obtain tbl where
    tbl: "TLB_doLookup c va TAG_INDEXABLE t = Inr (Some (k, i), set_table k tbl t)" "same_data (tlb_tables t ! k) tbl" by auto
  have k: "k < length (tlb_tables t)" and i: "i < length (tb_lines (tlb_tables t ! k))" using only by (auto simp: only_line_def)
  let ?t = "set_table k tbl t"
  have line: "tlb_line k i ?t = tb_lines tbl ! i" using k by (simp add: tlb_line_def set_table_nth)
  note data = line_data_sel [OF same_data_nth [OF tbl(2) i], folded tlb_line_def [of k i t]]
  have off: "tb_offsetWidth tbl = tb_offsetWidth (tlb_tables t ! k)" using same_data_widths [OF tbl(2)] by simp
  have res: "line_result tbl (tb_lines tbl ! i) = line_result (tlb_tables t ! k) (tlb_line k i t)"
    by (simp add: line_result_def data off)
  have unlocked: "line_result (tlb_tables u ! k) (tlb_line k i u) = line_result tbl (tb_lines tbl ! i)"
    if "u = COMMIT ph (modify_tlb_line k i (\<lambda>l. l\<lparr>ln_locked := False\<rparr>)) ?t" for u
    using that k i same_data_length [OF tbl(2)]
    by (cases "ph = PHASE_COMMIT")
       (simp_all add: modify_tlb_line_def set_table_nth tlb_line_def modify_line_nth line_result_def COMMIT_def)
  have "strictExpect va (tb_vWidth (tlb_tables t ! 0)) = Inr ()"
    using tlb_wf_first [OF wf(1)] wf(2) by (simp add: strictExpect_ok request_ok_def table_wf_def)
  then show ?thesis
    using pres unlocked res tbl(1) k by (simp add: TLB_lookup_address_def line data Let_def set_table_nth)
qed

section \<open>Replacing a line\<close>

definition line_replaced :: "Table \<Rightarrow> nat \<Rightarrow> Line \<Rightarrow> Table \<Rightarrow> bool" where
  "line_replaced tbl i l tbl' \<longleftrightarrow> same_settings tbl tbl' \<and> table_ok tbl' \<and> i < length (tb_lines tbl)
     \<and> tb_lines tbl' = (tb_lines tbl)[i := l]"

lemma line_replaced_self: "table_ok tbl \<Longrightarrow> i < length (tb_lines tbl) \<Longrightarrow> line_replaced tbl i (tb_lines tbl ! i) tbl"
  by (simp add: line_replaced_def same_settings_def)

lemma line_replaced_modify:
  assumes "line_replaced tbl i l tbl'" "\<And>l. ln_next (f l) = ln_next l" "\<And>l. ln_previous (f l) = ln_previous l"
  shows "line_replaced tbl i (f l) (modify_line i f tbl')"
  using assms(1) table_ok_commit [OF _ assms(2,3), of tbl' PHASE_COMMIT i]
  by (simp add: line_replaced_def) (simp add: modify_line_def same_settings_def)

lemma line_replaced_nth: "line_replaced tbl i l tbl' \<Longrightarrow> tb_lines tbl' ! i = l \<and> i < length (tb_lines tbl')"
  by (simp add: line_replaced_def)

definition absent :: "TLB \<Rightarrow> RAddr \<Rightarrow> RAddr \<Rightarrow> bool" where
  "absent t c va \<longleftrightarrow> (\<forall>k<length (tlb_tables t). \<forall>l\<in>set (tb_lines (tlb_tables t ! k)). \<not> line_for t c va k l)"

lemma absent_replace:
  assumes "absent t c va" "k < length (tlb_tables t)" "line_replaced (tlb_tables t ! k) i l tbl" "\<not> line_for t c va k l"
  shows "absent (set_table k tbl t) c va"
proof -
  have "\<not> line_for t c va k x" if "x \<in> set ((tb_lines (tlb_tables t ! k))[i := l])" for x
    using that assms set_update_subset_insert by (fastforce simp: absent_def)
  then show ?thesis
    using assms set_table_address [OF assms(2), of tbl]
    by (auto simp: absent_def line_replaced_def set_table_nth)
qed

lemma only_replace:
  assumes "absent t c va" "k < length (tlb_tables t)" "line_replaced (tlb_tables t ! k) i l tbl" "line_for t c va k l"
  shows "only_line (set_table k tbl t) c va k i"
  using assms set_table_address [OF assms(2), of tbl]
  by (auto simp: only_line_def absent_def line_replaced_def set_table_nth tlb_line_def nth_list_update)

lemma set_table_twice [simp]: "set_table k a (set_table k b t) = set_table k a t"
  by (simp add: set_table_def)

lemma set_table_swap: "j \<noteq> k \<Longrightarrow> set_table k a (set_table j b t) = set_table j b (set_table k a t)"
  by (simp add: set_table_def list_update_swap)

text \<open>The queues and the last line do not matter to lookups.\<close>

lemma tlb_other_fields [simp]:
  "tlb_wf (t\<lparr>tlb_lastLine := x\<rparr>) = tlb_wf t" "tlb_wf (t\<lparr>tlb_fifo_out := b\<rparr>) = tlb_wf t"
  "request_ok (t\<lparr>tlb_lastLine := x\<rparr>) = request_ok t" "request_ok (t\<lparr>tlb_fifo_out := b\<rparr>) = request_ok t"
  "only_line (t\<lparr>tlb_lastLine := x\<rparr>) = only_line t" "only_line (t\<lparr>tlb_fifo_out := b\<rparr>) = only_line t"
  "set_table k tbl (t\<lparr>tlb_lastLine := x\<rparr>) = (set_table k tbl t)\<lparr>tlb_lastLine := x\<rparr>"
  "set_table k tbl (t\<lparr>tlb_fifo_out := b\<rparr>) = (set_table k tbl t)\<lparr>tlb_fifo_out := b\<rparr>"
  by (simp_all add: tlb_wf_def table_wf_def request_ok_def only_line_def line_for_def table_address_def tlb_offset_def
      tlb_line_def set_table_def fun_eq_iff)

section \<open>The request of a miss\<close>

lemma bit_put_bits: "bit (put_bits off n v w) j \<longleftrightarrow>
    (if off \<le> j \<and> j < off + n then j < 64 \<and> bit v (j - off) else bit w j)"
  by (auto simp: put_bits_def bit_simps dest: bit_imp_le_length)

lemma get_put_same: "off + n \<le> 64 \<Longrightarrow> get_bits off n (put_bits off n v w) = take_bit n v"
  by (rule bit_word_eqI) (auto simp: get_bits_def bit_simps bit_put_bits)

lemma get_put_other:
  "off + n \<le> off' \<or> off' + n' \<le> off \<Longrightarrow> get_bits off n (put_bits off' n' v w) = get_bits off n w"
  by (rule bit_word_eqI) (auto simp: get_bits_def bit_simps bit_put_bits)

lemma mReq_lineIndex_write: "mReq_lineIndex (mReq_write i ty cid caller va m) = take_bit 24 i"
  by (simp add: mReq_lineIndex_def mReq_write_def get_put_same get_put_other)

lemma take_bit_index: "i < 2 ^ 24 \<Longrightarrow> take_bit 24 (of_nat i :: u64) = of_nat i"
  by (simp add: take_bit_of_nat take_bit_nat_eq_self)

lemma buffer_Push_commit: "buffer_Push PHASE_COMMIT clk x n b = Inr (True, b') \<Longrightarrow> b_new b' = b_new b @ [x]"
  by (auto simp: buffer_Push_def split: if_splits)

lemma sendMgtMsg_commit:
  assumes "sendMgtMsg PHASE_COMMIT clk msg t = Inr (True, t')"
  shows "\<exists>b. t' = t\<lparr>tlb_fifo_out := b\<rparr> \<and> b_new b = b_new (tlb_fifo_out t)
    @ [\<lparr>io_addr = tlb_mgtAddr t, io_payload = msg_part1 msg\<rparr>, \<lparr>io_addr = tlb_mgtAddr t, io_payload = msg_part0 msg\<rparr>]"
  using assms by (auto simp: sendMgtMsg_def res_bind_Inr dest!: buffer_Push_commit split: if_splits)

lemma pickDestination_bound:
  assumes "table_ok t" "pickDestination t = Inr i"
  shows "i < length (tb_lines t)"
proof (cases "Table_find_tag TAG_FREE t")
  case None
  have random: "pickVictim_random t = Inr i \<Longrightarrow> i < length (tb_lines t)"
    by (auto simp: pickVictim_random_def Let_def split: if_splits)
  show ?thesis
  proof (cases "tb_evictionStrategy t")
    case LRU
    then obtain xs where xs: "lru_list t xs" using assms(1) by (auto simp: table_ok_def)
    then have "i = last xs" using assms(2) None LRU pickVictim_lru_last [OF xs] by (simp add: pickDestination_def)
    moreover have "xs \<noteq> []" "set xs = {..<length (tb_lines t)}" using xs by (simp_all add: lru_list_def)
    ultimately show ?thesis using last_in_set [of xs] by blast
  next
    case ACCESSED
    then have "pickVictim_accessed t = Inr i" using assms(2) None by (simp add: pickDestination_def)
    then show ?thesis
      using random by (auto simp: pickVictim_accessed_def dest: Table_find_Some split: option.splits)
  next
    case PSEUDO_RANDOM
    then show ?thesis using random assms(2) None by (simp add: pickDestination_def)
  qed
next
  case (Some j)
  then show ?thesis using assms(2) by (auto simp: pickDestination_def Table_find_tag_def dest: Table_find_Some)
qed

definition pending_line :: "RAddr \<Rightarrow> RAddr \<Rightarrow> Line \<Rightarrow> Line" where
  "pending_line c va l = l\<lparr>ln_present := False, ln_locked := True, ln_contextId := c, ln_vAddr := va\<rparr>"

lemma miss_pending:
  assumes wf: "tlb_wf t" "request_ok t c va" and absent: "absent t c va"
    and look: "TLB_lookup_address PHASE_COMMIT clk junk c va mayUnlock r t = Inr (DELAYED, r1, t1)"
  shows "\<exists>i tbl b. line_replaced (tlb_tables t ! 0) i (pending_line c va (tb_lines (tlb_tables t ! 0) ! i)) tbl
    \<and> t1 = (set_table 0 tbl t)\<lparr>tlb_fifo_out := b, tlb_lastLine := Some (0, i)\<rparr>
    \<and> get_bits 3 24 (io_payload (last (b_new b))) = of_nat i \<and> r1 = pending_result"
proof -
  let ?tbl = "tlb_tables t ! 0"
  note w = tlb_wf_first [OF wf(1)] tlb_wf_context [OF wf(1)]
  have strict: "strictExpect va (tb_vWidth ?tbl) = Inr ()" "strictExpect c (tlb_contextAW t) = Inr ()"
    using w wf(2) by (simp_all add: strictExpect_ok request_ok_def table_wf_def)
  have "TLB_doLookup c va TAG_INDEXABLE t = Inr (None, t)"
    using absent by (simp add: TLB_doLookup_def strict absent_def doLookup_skip [OF wf])
  then have miss: "TLB_miss PHASE_COMMIT clk junk c va r t = Inr (DELAYED, r1, t1)"
    using look by (simp add: TLB_lookup_address_def strict)
  then obtain i tbl where st: "storePending PHASE_COMMIT c va ?tbl = Inr (Some i, tbl)"
    by (auto simp: TLB_miss_def res_bind_Inr Let_def split: option.splits)
  have ctx: "tb_contextWidth ?tbl = tlb_contextAW t" using w by (simp add: table_wf_def)
  have pick: "pickDestination ?tbl = Inr i" and tbl: "tbl = modify_line i (pending_line c va) ?tbl"
    using st by (auto simp: storePending_def strict ctx res_bind_Inr pending_line_def [abs_def] split: if_splits)
  have ok: "table_ok ?tbl" using w by (simp add: table_wf_def)
  have bound: "i < length (tb_lines ?tbl)" by (rule pickDestination_bound [OF ok pick])
  have rep: "line_replaced ?tbl i (pending_line c va (tb_lines ?tbl ! i)) tbl"
    unfolding tbl by (rule line_replaced_modify [OF line_replaced_self [OF ok bound]]) (simp_all add: pending_line_def)
  obtain u where u: "sendMgtMsg PHASE_COMMIT clk (mReq_write (of_nat i) TlbType_DTLB (m_value c)
      (ucast (tlb_ioDevId (set_table 0 tbl t))) (m_value va) junk) (set_table 0 tbl t) = Inr (True, u)"
    "t1 = u\<lparr>tlb_lastLine := Some (0, i)\<rparr>" "r1 = pending_result"
    using miss st by (auto simp: TLB_miss_def res_bind_Inr Let_def split: if_splits)
  have "i < 2 ^ 24" using bound w by (auto simp: table_wf_def)
  then have idx: "get_bits 3 24 (msg_part0 (mReq_write (of_nat i) ty cid caller a m)) = of_nat i" for ty cid caller a m
    using mReq_lineIndex_write [of "of_nat i"] by (simp add: mReq_lineIndex_def take_bit_index)
  obtain b where b: "u = (set_table 0 tbl t)\<lparr>tlb_fifo_out := b\<rparr>"
    "get_bits 3 24 (io_payload (last (b_new b))) = of_nat i"
    using sendMgtMsg_commit [OF u(1)] by (auto simp: idx)
  show ?thesis
    by (intro exI [of _ i] exI [of _ tbl] exI [of _ b] conjI rep b(2) u(3)) (simp add: u(2) b(1))
qed

section \<open>The refill\<close>

lemma sint_small: "unat (k :: u8) < 128 \<Longrightarrow> sint k = int (unat k)"
proof -
  assume "unat k < 128"
  then have "int (unat k) < int 128" by (simp only: of_nat_less_iff)
  then have "uint k < 2 ^ 7" by simp
  moreover have "- (2 ^ 7) \<le> uint k" by (rule order_trans [OF _ uint_ge_0]) simp
  ultimately have "signed_take_bit 7 (uint k) = uint k" by (intro signed_take_bit_int_eq_self)
  moreover have "sint k = signed_take_bit 7 (uint k)" by (simp add: sint_uint)
  ultimately show ?thesis by simp
qed

lemma refill_table_index_ok:
  assumes "n \<le> 128" "unat table < n"
  shows "refill_table_index n table = Inr (n - 1 - unat table)"
proof -
  have "(of_nat n :: u8) - 1 = of_nat (n - 1)" using assms by (simp add: of_nat_diff)
  moreover have n: "unat (of_nat (n - 1) :: u8) = n - 1" using assms by (simp add: unat_of_nat del: of_nat_diff)
  moreover have tb: "unat (ucast table :: u8) = unat table"
    using assms by (simp add: unsigned_ucast_eq take_bit_nat_eq_self)
  ultimately have k: "unat (of_nat n - 1 - ucast table :: u8) = n - 1 - unat table"
    using assms by (simp add: unat_sub word_le_nat_alt del: of_nat_diff)
  then have "unat (of_nat n - 1 - ucast table :: u8) < 128" using assms by linarith
  from sint_small [OF this] show ?thesis unfolding refill_table_index_def Let_def k by (simp add: k)
qed

definition filled_line :: "MgtMsg \<Rightarrow> RAddr \<Rightarrow> Line \<Rightarrow> Line" where
  "filled_line m pa l = l\<lparr>ln_present := True, ln_read := dRefill_read m, ln_write := dRefill_write m, ln_pAddr := pa\<rparr>"

definition stored_line :: "RAddr \<Rightarrow> RAddr \<Rightarrow> MgtMsg \<Rightarrow> RAddr \<Rightarrow> Line \<Rightarrow> Line" where
  "stored_line c va m pa l = l\<lparr>ln_present := True, ln_locked := True, ln_contextId := c, ln_vAddr := va, ln_pAddr := pa,
     ln_read := dRefill_read m, ln_write := dRefill_write m\<rparr>"

lemma assign_reference: "RAddr_assign \<lparr>m_value = 0, m_width = 0\<rparr> a = Inr \<lparr>m_value = a, m_width = 0\<rparr>"
  by (simp add: RAddr_assign_def RAddr_strictExpect_def RAddr_alwaysExpect_def isValid_vacuous)

text \<open>A pending line of the first table, as the process that looked it up left it.\<close>

definition awaits :: "TLB \<Rightarrow> nat \<Rightarrow> RAddr \<Rightarrow> RAddr \<Rightarrow> u32 \<Rightarrow> bool" where
  "awaits t i c va dref \<longleftrightarrow> i < length (tb_lines (tlb_tables t ! 0)) \<and> \<not> ln_present (tlb_line 0 i t)
     \<and> ln_locked (tlb_line 0 i t) \<and> ln_contextId (tlb_line 0 i t) = c \<and> ln_vAddr (tlb_line 0 i t) = va
     \<and> ln_dlineRef (tlb_line 0 i t) = dref"

lemma refill_first_ok:
  assumes "tlb_wf t" "awaits t i c va dref" "m_width pa = tb_pWidth (tlb_tables t ! 0)"
    and "idx = \<lparr>m_value = of_nat i, m_width = tb_indexWidth (tlb_tables t ! 0)\<rparr>"
  shows "refill_first PHASE_COMMIT idx pa m t = Inr (SUCCESS, [TLBLookupCompleted (ucast dref) (LineRef 0 i) True],
    set_table 0 (modify_line i (filled_line m pa) (tlb_tables t ! 0)) t)"
proof -
  have w: "unat (tb_pWidth (tlb_tables t ! 0)) \<le> 64" "unat (tb_indexWidth (tlb_tables t ! 0)) \<le> 64"
    "length (tb_lines (tlb_tables t ! 0)) \<le> 2 ^ 24"
    using tlb_wf_first [OF assms(1)] by (auto simp: table_wf_def)
  have i: "i < length (tb_lines (tlb_tables t ! 0))" using assms(2) by (simp add: awaits_def)
  then have "unat (of_nat i :: u64) = i" using w(3) by (simp add: unat_of_nat)
  then show ?thesis
    using assms(2-4) w i
    by (simp add: refill_first_def fillPending_def strictExpect_ok Let_def awaits_def tlb_line_def assign_reference
        filled_line_def [abs_def])
qed

lemma refill_other_ok:
  assumes wf: "tlb_wf t" and aw: "awaits t i c va dref" and req: "request_ok t c va"
    and k: "0 < k" "k < length (tlb_tables t)"
    and idx: "idx = \<lparr>m_value = of_nat i, m_width = tb_indexWidth (tlb_tables t ! 0)\<rparr>"
    and run: "refill_other PHASE_COMMIT k idx pa m t = Inr (SUCCESS, evs, t')"
  shows "\<exists>j tbl. line_replaced (tlb_tables t ! k) j (stored_line c (table_address t k va) m pa (tb_lines (tlb_tables t ! k) ! j)) tbl
    \<and> evs = [TLBLookupCompleted (ucast dref) (LineRef k j) True]
    \<and> t' = set_table 0 (modify_line i (\<lambda>l. l\<lparr>ln_locked := False\<rparr>) (tlb_tables t ! 0)) (set_table k tbl t)"
proof -
  let ?first = "tlb_tables t ! 0" and ?tbl = "tlb_tables t ! k"
  note w = tlb_wf_first [OF wf] tlb_wf_nth [OF wf k(2)]
  have width: "unat (tb_indexWidth ?first) \<le> 64" "length (tb_lines ?first) \<le> 2 ^ 24" using w by (auto simp: table_wf_def)
  have i: "i < length (tb_lines ?first)" using aw by (simp add: awaits_def)
  then have ni: "unat (of_nat i :: u64) = i" using width(2) by (simp add: unat_of_nat)
  have pend: "getPending idx \<lparr>m_value = 0, m_width = 0\<rparr> ?first = Inr (Some (c, va, \<lparr>m_value = ucast dref, m_width = 0\<rparr>))"
    using aw i ni width by (simp add: getPending_def idx strictExpect_ok Let_def awaits_def tlb_line_def assign_reference)
  have release: "releasePending PHASE_COMMIT idx ?first = Inr (modify_line i (\<lambda>l. l\<lparr>ln_locked := False\<rparr>) ?first)"
    using aw i ni width by (simp add: releasePending_def idx strictExpect_ok Let_def awaits_def tlb_line_def)
  obtain j tbl where st: "storeNormal PHASE_COMMIT c (table_address t k va) pa (dRefill_read m) (dRefill_write m) ?tbl
      = Inr (Some j, tbl)"
    using run k by (auto simp: refill_other_def pend truncate_offset [OF wf req k(2)] res_bind_Inr Let_def split: option.splits)
  then have pick: "pickDestination ?tbl = Inr j" "\<not> ln_locked (tb_lines ?tbl ! j)"
    by (auto simp: storeNormal_def res_bind_Inr split: if_splits)
  then have "tbl = modify_line j (stored_line c (table_address t k va) m pa) (modify_line j (\<lambda>l. l\<lparr>ln_present := False\<rparr>) ?tbl)"
    using st by (auto simp: storeNormal_def res_bind_Inr freeLine_def stored_line_def [abs_def] split: if_splits)
  then have tbl: "tbl = modify_line j (\<lambda>l. stored_line c (table_address t k va) m pa (l\<lparr>ln_present := False\<rparr>)) ?tbl"
    by (simp add: modify_line_def) (metis list_update_beyond list_update_overwrite not_le nth_list_update_eq)
  have ok: "table_ok ?tbl" using w(2) by (simp add: table_wf_def)
  have "line_replaced ?tbl j (stored_line c (table_address t k va) m pa ((tb_lines ?tbl ! j)\<lparr>ln_present := False\<rparr>)) tbl"
    unfolding tbl
    by (rule line_replaced_modify [OF line_replaced_self [OF ok pickDestination_bound [OF ok pick(1)]]])
       (simp_all add: stored_line_def)
  moreover have "stored_line c (table_address t k va) m pa ((tb_lines ?tbl ! j)\<lparr>ln_present := False\<rparr>)
      = stored_line c (table_address t k va) m pa (tb_lines ?tbl ! j)" by (simp add: stored_line_def)
  ultimately show ?thesis
    using run k st release
    by (auto simp: refill_other_def pend truncate_offset [OF wf req k(2)] Let_def set_table_nth)
qed

lemma setDCacheReference_pending:
  assumes "line_replaced (tlb_tables t ! 0) i l tbl" "\<not> ln_present l" "tlb_tables t \<noteq> []"
    and "t1 = (set_table 0 tbl t)\<lparr>tlb_fifo_out := b, tlb_lastLine := Some (0, i)\<rparr>"
    and "setDCacheReference dref t1 = Inr t2"
  shows "\<exists>tbl'. line_replaced (tlb_tables t ! 0) i (l\<lparr>ln_dlineRef := dref\<rparr>) tbl'
    \<and> t2 = (set_table 0 tbl' t)\<lparr>tlb_fifo_out := b, tlb_lastLine := Some (0, i)\<rparr>"
proof -
  let ?f = "\<lambda>l. l\<lparr>ln_dlineRef := dref\<rparr>"
  have "line_replaced (tlb_tables t ! 0) i (?f l) (modify_line i ?f tbl)"
    by (rule line_replaced_modify [OF assms(1)]) simp_all
  moreover have "t2 = (set_table 0 (modify_line i ?f tbl) t)\<lparr>tlb_fifo_out := b, tlb_lastLine := Some (0, i)\<rparr>"
    using assms(3-5) by (auto simp: setDCacheReference_def modify_tlb_line_def set_table_nth)
  ultimately show ?thesis by blast
qed

lemma line_for_intro:
  "ln_present l \<or> ln_locked l \<Longrightarrow> ln_contextId l = c \<Longrightarrow> m_value (ln_vAddr l) = m_value (table_address t k va) \<Longrightarrow>
   line_for t c va k l"
  by (simp add: line_for_def Line_matches_def RAddr_eq_def)

lemma table_address_first: "m_value (table_address t 0 va) = m_value va"
  by (simp add: table_address_def tlb_offset_def)

definition refill_result :: "TLB \<Rightarrow> nat \<Rightarrow> MgtMsg \<Rightarrow> TLBResultMessage" where
  "refill_result t k m = \<lparr>tr_pending = False, tr_read = dRefill_read m, tr_write = dRefill_write m,
     tr_pAddr = refill_pAddr m, tr_tlbOffsetWidth = ucast (tb_offsetWidth (tlb_tables t ! k))\<rparr>"

text \<open>A present line that was put in a buffer that had none for an address is found.\<close>

lemma stored_hits:
  assumes wf: "tlb_wf t" "request_ok t c va" "absent t c va" and k: "k < length (tlb_tables t)"
    and rep: "line_replaced (tlb_tables t ! k) j l tbl" and fits: "line_for t c va k l" "ln_present l"
    and t': "t' = (set_table k tbl t)\<lparr>tlb_fifo_out := b, tlb_lastLine := x\<rparr>"
  shows "\<exists>t4. TLB_lookup_address ph clk junk c va mayUnlock r t' = Inr (SUCCESS, line_result (tlb_tables t ! k) l, t4)"
proof -
  have set: "same_settings (tlb_tables t ! k) tbl" "table_ok tbl" using rep by (simp_all add: line_replaced_def)
  have "tlb_wf t'" using set_table_wf [OF wf(1) k set] by (simp add: t')
  moreover have "request_ok t' c va" using set_table_address(2) [OF k set(1)] wf(2) by (simp add: t')
  moreover have "only_line t' c va k j" using only_replace [OF wf(3) k rep fits(1)] by (simp add: t')
  moreover have line: "tlb_line k j t' = l"
    using k line_replaced_nth [OF rep] by (simp add: tlb_line_def set_table_nth t')
  moreover have "line_result (tlb_tables t' ! k) l = line_result (tlb_tables t ! k) l"
    using k set(1) by (simp add: line_result_def t' set_table_nth same_settings_def)
  ultimately show ?thesis using lookup_only [of t' c va k j] fits(2) by metis
qed

text \<open>The two cases of a refill, from the buffer before the miss: the first table is replaced by one in
  which a line awaits the answer.\<close>

lemma refill_first_hits:
  assumes wf: "tlb_wf t" "request_ok t c va" "absent t c va"
    and rep: "line_replaced (tlb_tables t ! 0) i l tbl" "\<not> ln_present l" "ln_locked l" "ln_contextId l = c" "ln_vAddr l = va"
    and t2: "t2 = (set_table 0 tbl t)\<lparr>tlb_fifo_out := b, tlb_lastLine := x\<rparr>"
    and pa: "pa = \<lparr>m_value = refill_pAddr m, m_width = tb_pWidth (tlb_tables t2 ! 0)\<rparr>"
    and idx: "idx = \<lparr>m_value = of_nat i, m_width = tb_indexWidth (tlb_tables t2 ! 0)\<rparr>"
  shows "\<exists>t3. refill_first PHASE_COMMIT idx pa m t2
      = Inr (SUCCESS, [TLBLookupCompleted (ucast (ln_dlineRef l)) (LineRef 0 i) True], t3)
    \<and> (\<forall>ph clk junk mayUnlock r. \<exists>t4. TLB_lookup_address ph clk junk c va mayUnlock r t3
          = Inr (SUCCESS, refill_result t 0 m, t4))"
proof -
  have n: "0 < length (tlb_tables t)" using wf(1) by (simp add: tlb_wf_def)
  have set: "same_settings (tlb_tables t ! 0) tbl" "table_ok tbl" using rep(1) by (simp_all add: line_replaced_def)
  have wf2: "tlb_wf t2" using set_table_wf [OF wf(1) n set] by (simp add: t2)
  have first: "tlb_tables t2 ! 0 = tbl" using n by (simp add: t2 set_table_nth)
  have "awaits t2 i c va (ln_dlineRef l)"
    using line_replaced_nth [OF rep(1)] rep(2-5) by (simp add: awaits_def tlb_line_def first)
  from refill_first_ok [OF wf2 this _ idx, of pa m]
  have step: "refill_first PHASE_COMMIT idx pa m t2 = Inr (SUCCESS,
      [TLBLookupCompleted (ucast (ln_dlineRef l)) (LineRef 0 i) True],
      set_table 0 (modify_line i (filled_line m pa) tbl) t2)" by (simp add: pa first)
  have rep3: "line_replaced (tlb_tables t ! 0) i (filled_line m pa l) (modify_line i (filled_line m pa) tbl)"
    by (rule line_replaced_modify [OF rep(1)]) (simp_all add: filled_line_def)
  have fits: "line_for t c va 0 (filled_line m pa l)" "ln_present (filled_line m pa l)"
    by (rule line_for_intro) (simp_all add: filled_line_def rep table_address_first)
  have "line_result (tlb_tables t ! 0) (filled_line m pa l) = refill_result t 0 m"
    by (simp add: line_result_def refill_result_def filled_line_def pa)
  then show ?thesis
    using stored_hits [where b = b and x = x, OF wf n rep3 fits refl] step by (simp add: t2)
qed

lemma refill_other_hits:
  assumes wf: "tlb_wf t" "request_ok t c va" "absent t c va" and k: "0 < k" "k < length (tlb_tables t)"
    and rep: "line_replaced (tlb_tables t ! 0) i l tbl" "\<not> ln_present l" "ln_locked l" "ln_contextId l = c" "ln_vAddr l = va"
    and t2: "t2 = (set_table 0 tbl t)\<lparr>tlb_fifo_out := b, tlb_lastLine := x\<rparr>"
    and pa: "m_value pa = refill_pAddr m"
    and idx: "idx = \<lparr>m_value = of_nat i, m_width = tb_indexWidth (tlb_tables t2 ! 0)\<rparr>"
    and run: "refill_other PHASE_COMMIT k idx pa m t2 = Inr (SUCCESS, evs, t3)"
  shows "\<exists>j. evs = [TLBLookupCompleted (ucast (ln_dlineRef l)) (LineRef k j) True]
    \<and> (\<exists>t4. TLB_lookup_address ph clk junk c va mayUnlock r t3 = Inr (SUCCESS, refill_result t k m, t4))"
proof -
  have n: "0 < length (tlb_tables t)" using k by linarith
  have set: "same_settings (tlb_tables t ! 0) tbl" "table_ok tbl" using rep(1) by (simp_all add: line_replaced_def)
  have wf2: "tlb_wf t2" using set_table_wf [OF wf(1) n set] by (simp add: t2)
  have req2: "request_ok t2 c va" using set_table_address(2) [OF n set(1)] wf(2) by (simp add: t2)
  have tables: "tlb_tables t2 ! 0 = tbl" "tlb_tables t2 ! k = tlb_tables t ! k" "length (tlb_tables t2) = length (tlb_tables t)"
    using n k by (simp_all add: t2 set_table_nth)
  have address: "table_address t2 k va = table_address t k va"
    using k set(1) by (simp add: table_address_def tlb_offset_def tables same_settings_def)
  have aw: "awaits t2 i c va (ln_dlineRef l)"
    using line_replaced_nth [OF rep(1)] rep(2-5) by (simp add: awaits_def tlb_line_def tables)
  obtain j tk where j: "line_replaced (tlb_tables t ! k) j (stored_line c (table_address t k va) m pa (tb_lines (tlb_tables t ! k) ! j)) tk"
    "evs = [TLBLookupCompleted (ucast (ln_dlineRef l)) (LineRef k j) True]"
    "t3 = set_table 0 (modify_line i (\<lambda>l. l\<lparr>ln_locked := False\<rparr>) tbl) (set_table k tk t2)"
    using refill_other_ok [OF wf2 aw req2 k(1) _ idx run] k by (auto simp: tables address)
  let ?free = "modify_line i (\<lambda>l. l\<lparr>ln_locked := False\<rparr>) tbl" and ?l = "l\<lparr>ln_locked := False\<rparr>"
  let ?stored = "stored_line c (table_address t k va) m pa (tb_lines (tlb_tables t ! k) ! j)"
  let ?t = "set_table 0 ?free t"
  have rep0: "line_replaced (tlb_tables t ! 0) i ?l ?free" by (rule line_replaced_modify [OF rep(1)]) simp_all
  then have set0: "same_settings (tlb_tables t ! 0) ?free" "table_ok ?free" by (simp_all add: line_replaced_def)
  have "\<not> line_for t c va 0 ?l" by (simp add: line_for_def Line_matches_def rep)
  then have absent: "absent ?t c va" by (rule absent_replace [OF wf(3) n rep0])
  have wf0: "tlb_wf ?t" "request_ok ?t c va"
    using set_table_wf [OF wf(1) n set0] set_table_address(2) [OF n set0(1)] wf(2) by simp_all
  have tk: "tlb_tables ?t ! k = tlb_tables t ! k" "k < length (tlb_tables ?t)" using k n by (simp_all add: set_table_nth)
  have fits: "line_for ?t c va k ?stored" "ln_present ?stored"
    using set_table_address(3) [OF n set0(1)] by (auto intro: line_for_intro simp: stored_line_def)
  have "t3 = (set_table k tk ?t)\<lparr>tlb_fifo_out := b, tlb_lastLine := x\<rparr>"
    using k set_table_swap [of 0 k] by (simp add: j(3) t2)
  moreover have "line_result (tlb_tables t ! k) ?stored = refill_result t k m"
    by (simp add: line_result_def refill_result_def stored_line_def pa)
  ultimately show ?thesis
    using stored_hits [OF wf0 absent tk(2), of j ?stored tk] j(1,2) fits by (simp add: tk(1))
qed

text \<open>
  C39. A miss is answered. When no table has a line for an address, the lookup stores a pending line
  and sends a request with its index; a refill that names this index puts the translation in the table
  that it asks for and reports the line to the data cache under the reference that was stored with the
  miss. From then on the lookup of the address in the same context returns the address, the rights and the
  page size of the refill. A refill of the first table cannot fail; for the others a line has to be free
  to evict.
\<close>

theorem TLB_refill_hits:
  assumes "tlb_wf t" and "request_ok t c va" and "absent t c va"
    and "TLB_lookup_address PHASE_COMMIT clk junk c va mayUnlock r t = Inr (DELAYED, r1, t1)"
    and "setDCacheReference dref t1 = Inr t2"
    and "msg_type m = MSG_REFILL" and "dRefill_present m"
    and "refill_lineIndex m = get_bits 3 24 (io_payload (last (b_new (tlb_fifo_out t1))))"
    and "k = length (tlb_tables t) - 1 - unat (refill_table m)" and "unat (refill_table m) < length (tlb_tables t)"
    and "0 < k \<longrightarrow> (\<exists>evs t3. onStoreMsg PHASE_COMMIT m t2 = Inr (SUCCESS, evs, t3))"
  shows "r1 = pending_result \<and> (\<exists>i t3. onStoreMsg PHASE_COMMIT m t2
        = Inr (SUCCESS, [TLBLookupCompleted (ucast dref) (LineRef k i) True], t3)
      \<and> (\<exists>t4. TLB_lookup_address ph clk' junk' c va mayUnlock' r' t3 = Inr (SUCCESS, refill_result t k m, t4)))"
proof -
  obtain i tbl b where rep: "line_replaced (tlb_tables t ! 0) i (pending_line c va (tb_lines (tlb_tables t ! 0) ! i)) tbl"
    and t1: "t1 = (set_table 0 tbl t)\<lparr>tlb_fifo_out := b, tlb_lastLine := Some (0, i)\<rparr>"
    and idx: "get_bits 3 24 (io_payload (last (b_new b))) = of_nat i" and r1: "r1 = pending_result"
    using miss_pending [OF assms(1-4)] by auto
  let ?l = "(pending_line c va (tb_lines (tlb_tables t ! 0) ! i))\<lparr>ln_dlineRef := dref\<rparr>"
  have ne: "tlb_tables t \<noteq> []" using assms(1) by (simp add: tlb_wf_def)
  obtain tbl' where rep': "line_replaced (tlb_tables t ! 0) i ?l tbl'"
    and t2: "t2 = (set_table 0 tbl' t)\<lparr>tlb_fifo_out := b, tlb_lastLine := Some (0, i)\<rparr>"
    using setDCacheReference_pending [OF rep _ ne t1 assms(5)] by (auto simp: pending_line_def)
  have l: "\<not> ln_present ?l" "ln_locked ?l" "ln_contextId ?l = c" "ln_vAddr ?l = va" "ln_dlineRef ?l = dref"
    by (simp_all add: pending_line_def)
  have len: "length (tlb_tables t2) = length (tlb_tables t)" "length (tlb_tables t) \<le> 128"
    using assms(1) by (simp_all add: t2 tlb_wf_def)
  have k: "k < length (tlb_tables t)" using assms(9,10) by linarith
  have set: "same_settings (tlb_tables t ! 0) tbl'" "table_ok tbl'" using rep' by (simp_all add: line_replaced_def)
  have wf2: "tlb_wf t2" using set_table_wf [OF assms(1) _ set] ne by (simp add: t2)
  have widths: "unat (tb_pWidth (tlb_tables t2 ! k)) \<le> 64" "unat (tb_indexWidth (tlb_tables t2 ! 0)) \<le> 64"
    using tlb_wf_nth [OF wf2, of k] tlb_wf_first [OF wf2] k len by (simp_all add: table_wf_def)
  let ?pa = "\<lparr>m_value = refill_pAddr m, m_width = tb_pWidth (tlb_tables t2 ! k)\<rparr>"
  let ?idx = "\<lparr>m_value = of_nat i, m_width = tb_indexWidth (tlb_tables t2 ! 0)\<rparr>"
  have step: "onStoreMsg PHASE_COMMIT m t2 = (if k = 0 then refill_first PHASE_COMMIT ?idx ?pa m t2
      else refill_other PHASE_COMMIT k ?idx ?pa m t2)"
    using assms(6-10) widths idx refill_table_index_ok [OF len(2) assms(10)]
    by (simp add: onStoreMsg_def len(1) RAddr_new_ok t1)
  show ?thesis
  proof (cases "k = 0")
    case True
    then show ?thesis
      using refill_first_hits [OF assms(1-3) rep' l(1-4) t2 _ refl, of ?pa m] step r1 l(5) by auto
  next
    case False
    then obtain evs t3 where run: "refill_other PHASE_COMMIT k ?idx ?pa m t2 = Inr (SUCCESS, evs, t3)"
      using assms(11) step by auto
    then show ?thesis
      using refill_other_hits [OF assms(1-3) _ k rep' l(1-4) t2 _ refl run] False step r1 l(5) by auto
  qed
qed

definition tlb_example :: TLB where
  "tlb_example =
     (let line = (\<lambda>v p. \<lparr>ln_present = False, ln_locked = False, ln_accessed = False, ln_previous = None, ln_next = None,
        ln_contextId = \<lparr>m_value = 0, m_width = 8\<rparr>, ln_vAddr = \<lparr>m_value = 0, m_width = v\<rparr>,
        ln_pAddr = \<lparr>m_value = 0, m_width = p\<rparr>, ln_dlineRef = 0, ln_read = False, ln_write = False\<rparr>);
        table = (\<lambda>off v p. \<lparr>tb_offsetWidth = off, tb_vWidth = v, tb_pWidth = p, tb_contextWidth = 8,
          tb_evictionStrategy = ACCESSED, tb_lines = [line v p, line v p], tb_head = None, tb_tail = None, tb_indexWidth = 1\<rparr>);
        queue = \<lparr>b_maxSize = 10, b_maxPushes = 4, b_data = [], b_new = [], b_popped = False, b_activated = False,
          b_stalls = 0, b_lastcycle = 0, b_totalsize = 0, b_maxeffsize = 0, b_cursize = 0\<rparr>
      in \<lparr>tlb_ioDevId = 5, tlb_vAW = 48, tlb_contextAW = 8, tlb_tables = [table 12 36 28, table 21 27 19],
        tlb_enabled = True, tlb_lastLine = None, tlb_fifo_out = queue, tlb_fifo_in = queue,
        tlb_receiving = flag_init False, tlb_mgtMsgBuffer = \<lparr>msg_part0 = 0, msg_part1 = 0\<rparr>,
        tlb_mgtAddr = \<lparr>io_devid = 0, io_chan = 2\<rparr>\<rparr>)"

text \<open>A refill of the second table, which messages call 0: type 3, line 0, present, readable.\<close>

definition refill_example :: MgtMsg where
  "refill_example = \<lparr>msg_part0 = 0x1008000003, msg_part1 = 0x77\<rparr>"

definition address_example :: RAddr where
  "address_example = \<lparr>m_value = 0x12345, m_width = 36\<rparr>"

definition context_example :: RAddr where
  "context_example = \<lparr>m_value = 3, m_width = 8\<rparr>"

definition tlb_example_sent :: "TLB \<Rightarrow> IoMsg buffer" where
  "tlb_example_sent t = (tlb_fifo_out t)\<lparr>b_new := [\<lparr>io_addr = \<lparr>io_devid = 0, io_chan = 2\<rparr>, io_payload = 0x12345\<rparr>,
     \<lparr>io_addr = \<lparr>io_devid = 0, io_chan = 2\<rparr>, io_payload = 0x5000038000001\<rparr>], b_activated := True\<rparr>"

definition tlb_example_missed :: TLB where
  "tlb_example_missed = (set_table 0 (modify_line 0 (pending_line context_example address_example) (tlb_tables tlb_example ! 0))
     tlb_example)\<lparr>tlb_fifo_out := tlb_example_sent tlb_example, tlb_lastLine := Some (0, 0)\<rparr>"

definition tlb_example_waiting :: TLB where
  "tlb_example_waiting = modify_tlb_line 0 0 (\<lambda>l. l\<lparr>ln_dlineRef := 9\<rparr>) tlb_example_missed"

lemma tlb_example_tables:
  "length (tlb_tables tlb_example) = 2" "tlb_tables tlb_example \<noteq> []"
  "length (tb_lines (tlb_tables tlb_example ! 0)) = 2" "length (tb_lines (tlb_tables tlb_example ! 1)) = 2"
  by (simp_all add: tlb_example_def Let_def)

lemma tlb_example_widths: "unat (8 :: u8) = 8" "unat (36 :: u8) = 36" "unat (28 :: u8) = 28" "unat (27 :: u8) = 27"
  "unat (19 :: u8) = 19" "unat (9 :: u8) = 9"
  by simp_all

lemma absent_free:
  assumes "\<forall>tbl\<in>set (tlb_tables t). \<forall>l\<in>set (tb_lines tbl). \<not> ln_present l \<and> \<not> ln_locked l"
  shows "absent t c va"
  using assms by (auto simp: absent_def line_for_def Line_matches_def dest: nth_mem)

lemma tlb_example_ok:
  "tlb_wf tlb_example" "request_ok tlb_example context_example address_example"
  "absent tlb_example context_example address_example"
  by (simp_all add: tlb_example_def Let_def tlb_wf_def table_wf_def table_ok_def request_ok_def context_example_def
      address_example_def absent_free)

lemma tlb_example_missed: "TLB_lookup_address PHASE_COMMIT True \<lparr>msg_part0 = 0, msg_part1 = 0\<rparr> context_example
    address_example True pending_result tlb_example = Inr (DELAYED, pending_result, tlb_example_missed)"
proof -
  have strict: "strictExpect address_example (tb_vWidth (tlb_tables tlb_example ! 0)) = Inr ()" by code_simp
  have look: "TLB_doLookup context_example address_example TAG_INDEXABLE tlb_example = Inr (None, tlb_example)" by code_simp
  have st: "storePending PHASE_COMMIT context_example address_example (tlb_tables tlb_example ! 0)
      = Inr (Some 0, modify_line 0 (pending_line context_example address_example) (tlb_tables tlb_example ! 0))" by code_simp
  have msg: "mReq_write 0 TlbType_DTLB (m_value context_example) (ucast (tlb_ioDevId tlb_example)) (m_value address_example)
      \<lparr>msg_part0 = 0, msg_part1 = 0\<rparr> = \<lparr>msg_part0 = 0x5000038000001, msg_part1 = 0x12345\<rparr>" by code_simp
  let ?q = "tlb_fifo_out tlb_example"
  have q: "b_maxSize ?q = 10" "b_maxPushes ?q = 4" "b_new ?q = []" "b_data ?q = []" by (simp_all add: tlb_example_def Let_def)
  have big: "INFINITE \<noteq> 10" by (simp add: INFINITE_def)
  have p1: "buffer_Push PHASE_COMMIT True x 1 ?q = Inr (True, ?q\<lparr>b_new := [x], b_activated := True\<rparr>)" for x
    using big by (simp add: buffer_Push_def q)
  have p0: "buffer_Push PHASE_COMMIT True y 1 (?q\<lparr>b_new := [x], b_activated := True\<rparr>)
      = Inr (True, ?q\<lparr>b_new := [x, y], b_activated := True\<rparr>)" for x y
    using big by (simp add: buffer_Push_def q)
  have addr: "tlb_mgtAddr tlb_example = \<lparr>io_devid = 0, io_chan = 2\<rparr>" by (simp add: tlb_example_def Let_def)
  have send: "sendMgtMsg PHASE_COMMIT True \<lparr>msg_part0 = 0x5000038000001, msg_part1 = 0x12345\<rparr> (set_table 0 tbl tlb_example)
      = Inr (True, (set_table 0 tbl tlb_example)\<lparr>tlb_fifo_out := tlb_example_sent tlb_example\<rparr>)" for tbl
    using p1 p0 by (simp add: sendMgtMsg_def set_table_def addr tlb_example_sent_def)
  have dev: "tlb_ioDevId (set_table 0 tbl tlb_example) = tlb_ioDevId tlb_example" for tbl by (simp add: set_table_def)
  show ?thesis
    unfolding TLB_lookup_address_def strict look TLB_miss_def st res_bind_simps prod.case option.case Let_def
    by (simp add: msg dev send tlb_example_missed_def)
qed

lemma refill_example_fields:
  "msg_type refill_example = MSG_REFILL" "dRefill_present refill_example" "refill_table refill_example = 0"
  "dRefill_read refill_example" "\<not> dRefill_write refill_example" "refill_pAddr refill_example = 0x77"
  "refill_lineIndex refill_example = 0"
  by code_simp+

lemma tlb_example_waiting: "setDCacheReference 9 tlb_example_missed = Inr tlb_example_waiting"
  by (simp add: setDCacheReference_def tlb_example_waiting_def)
     (simp add: tlb_example_missed_def tlb_line_def set_table_nth tlb_example_tables modify_line_nth pending_line_def)

lemma refill_example_success:
  "case onStoreMsg PHASE_COMMIT refill_example tlb_example_waiting of
     Inr (r, evs, _) \<Rightarrow> r = SUCCESS \<and> evs = [TLBLookupCompleted 9 (LineRef 1 0) True] | Inl _ \<Rightarrow> False"
  by code_simp

theorem TLB_refill_hits_witness:
  "\<exists>t3 t4. TLB_lookup_address PHASE_COMMIT True \<lparr>msg_part0 = 0, msg_part1 = 0\<rparr> context_example address_example True
      pending_result tlb_example = Inr (DELAYED, pending_result, tlb_example_missed)
    \<and> onStoreMsg PHASE_COMMIT refill_example tlb_example_waiting
        = Inr (SUCCESS, [TLBLookupCompleted 9 (LineRef 1 0) True], t3)
    \<and> TLB_lookup_address PHASE_ACQUIRE True refill_example context_example address_example True pending_result t3
        = Inr (SUCCESS, \<lparr>tr_pending = False, tr_read = True, tr_write = False, tr_pAddr = 0x77, tr_tlbOffsetWidth = 21\<rparr>, t4)"
proof -
  obtain t3 where t3: "onStoreMsg PHASE_COMMIT refill_example tlb_example_waiting
      = Inr (SUCCESS, [TLBLookupCompleted 9 (LineRef 1 0) True], t3)"
    using refill_example_success by (auto split: sum.splits prod.splits)
  have idx: "refill_lineIndex refill_example = get_bits 3 24 (io_payload (last (b_new (tlb_fifo_out tlb_example_missed))))"
    by (simp add: refill_example_fields tlb_example_missed_def tlb_example_sent_def) code_simp
  have k: "1 = length (tlb_tables tlb_example) - 1 - unat (refill_table refill_example)"
    "unat (refill_table refill_example) < length (tlb_tables tlb_example)"
    by (simp_all add: refill_example_fields tlb_example_tables)
  have "refill_result tlb_example 1 refill_example
      = \<lparr>tr_pending = False, tr_read = True, tr_write = False, tr_pAddr = 0x77, tr_tlbOffsetWidth = 21\<rparr>"
    by (simp add: refill_result_def refill_example_fields tlb_example_def Let_def)
  then show ?thesis
    using TLB_refill_hits [OF tlb_example_ok tlb_example_missed tlb_example_waiting refill_example_fields(1,2) idx k,
        where ph = PHASE_ACQUIRE and clk' = True and junk' = refill_example and mayUnlock' = True and r' = pending_result]
      t3 tlb_example_missed by auto
qed

text \<open>
  Two misses of neighbouring small pages in one large page: both refills store the large page, so that
  the second table has two lines for it.
\<close>

definition tlb_two_misses :: TLB where
  "tlb_two_misses = modify_tlb_line 0 1 (pending_line context_example \<lparr>m_value = 0x12346, m_width = 36\<rparr>)
     (modify_tlb_line 0 0 (pending_line context_example address_example) tlb_example)"

lemma refill_duplicates:
  "case res_bind (onStoreMsg PHASE_COMMIT refill_example tlb_two_misses)
       (\<lambda>(_, _, t). onStoreMsg PHASE_COMMIT (refill_example\<lparr>msg_part0 := 0x100800000B\<rparr>) t) of
     Inr (_, _, t) \<Rightarrow> Line_matches (Some context_example) (Some \<lparr>m_value = 0x91, m_width = 27\<rparr>) TAG_INDEXABLE (tlb_line 1 0 t)
       \<and> Line_matches (Some context_example) (Some \<lparr>m_value = 0x91, m_width = 27\<rparr>) TAG_INDEXABLE (tlb_line 1 1 t)
   | Inl _ \<Rightarrow> False"
  by code_simp

end
