(* ===== verification/Linked_List.thy ===== *)
theory Linked_List
  imports Storages
begin

text \<open>
  \<open>LinkedList\<close> (sim/linkedlist.h, sim/linkedlist.hpp): a queue of indices that is threaded
  through a field of a table the list does not own. Only the head, the tail and what is staged
  are members of the list; the links are the table's. The list provides the contract
  \<open>fifo_storage\<close> of theory \<open>Storages\<close>. The thread and family queues of the allocator and the
  waiting lists of the caches are such lists.
\<close>

section \<open>LinkedList\<close>

record llist =
  l_table :: "nat list"
  l_empty :: bool
  l_popped :: bool
  l_pushed :: bool
  l_head :: nat
  l_tail :: nat
  l_next :: nat
  l_first :: nat
  l_last :: nat
  l_activated :: bool

definition llist_init :: "nat list \<Rightarrow> llist" where
  "llist_init tbl = \<lparr>l_table = tbl, l_empty = True, l_popped = False, l_pushed = False,
     l_head = 0, l_tail = 0, l_next = 0, l_first = 0, l_last = 0, l_activated = False\<rparr>"

definition llist_Empty :: "llist \<Rightarrow> bool" where
  "llist_Empty l = l_empty l"

definition llist_Singular :: "llist \<Rightarrow> bool res" where
  "llist_Singular l = assert_that (\<not> l_empty l) (Inr (l_head l = l_tail l))"

definition llist_Front :: "llist \<Rightarrow> nat res" where
  "llist_Front l = assert_that (\<not> l_empty l) (Inr (l_head l))"

definition llist_Append :: "CyclePhase \<Rightarrow> bool \<Rightarrow> nat \<Rightarrow> nat \<Rightarrow> llist \<Rightarrow> llist res" where
  "llist_Append ph clk fst_item lst_item l = assert_that clk (assert_that (\<not> l_pushed l)
     (Inr (COMMIT ph (\<lambda>l. l\<lparr>l_first := fst_item, l_last := lst_item, l_pushed := True,
                          l_activated := True\<rparr>) l)))"

definition llist_Push :: "CyclePhase \<Rightarrow> bool \<Rightarrow> nat \<Rightarrow> llist \<Rightarrow> llist res" where
  "llist_Push ph clk item l = llist_Append ph clk item item l"

text \<open>Reading the table out of its range is undefined.\<close>

definition llist_Pop :: "CyclePhase \<Rightarrow> bool \<Rightarrow> llist \<Rightarrow> llist res" where
  "llist_Pop ph clk l =
     assert_that clk (assert_that (\<not> l_empty l) (assert_that (\<not> l_popped l)
       (if ph = PHASE_COMMIT
        then if l_head l < length (l_table l)
             then Inr (l\<lparr>l_popped := True, l_next := l_table l ! l_head l, l_activated := True\<rparr>)
             else Inl UndefinedBehaviour
        else Inr l)))"

definition llist_update_pop :: "llist \<Rightarrow> (notification list \<times> llist) res" where
  "llist_update_pop l =
     (if l_popped l
      then assert_that (\<not> l_empty l)
        (if l_head l = l_tail l then Inr ([Unnotify], l\<lparr>l_empty := True\<rparr>)
         else Inr ([], l\<lparr>l_head := l_next l\<rparr>))
      else Inr ([], l))"

definition llist_update_push :: "llist \<Rightarrow> (notification list \<times> llist) res" where
  "llist_update_push l =
     (if l_pushed l
      then if l_empty l
        then Inr ([Notify], l\<lparr>l_head := l_first l, l_empty := False, l_tail := l_last l\<rparr>)
        else if l_tail l < length (l_table l)
          then Inr ([], l\<lparr>l_table := (l_table l)[l_tail l := l_first l], l_tail := l_last l\<rparr>)
          else Inl UndefinedBehaviour
      else Inr ([], l))"

definition llist_Update :: "llist \<Rightarrow> (notification list \<times> llist) res" where
  "llist_Update l = res_bind (llist_update_pop l) (\<lambda>(n1, l1).
     res_bind (llist_update_push l1) (\<lambda>(n2, l2).
       Inr (n1 @ n2, l2\<lparr>l_pushed := False, l_popped := False\<rparr>)))"

lemmas llist_defs [sim_defs] = llist_Empty_def llist_Singular_def llist_Front_def
  llist_Append_def llist_Push_def llist_Pop_def llist_update_pop_def llist_update_push_def
  llist_Update_def

section \<open>The iterator\<close>

text \<open>\<open>const_iterator\<close>: the index and the end mark; the tail is read through the list. The
  table and the tail of the list are arguments.\<close>

record llist_iterator =
  it_index :: nat
  it_end :: bool

definition llist_begin :: "llist \<Rightarrow> llist_iterator" where
  "llist_begin l = \<lparr>it_index = l_head l, it_end = False\<rparr>"

definition llist_end :: "llist \<Rightarrow> llist_iterator" where
  "llist_end l = \<lparr>it_index = 0, it_end = True\<rparr>"

definition it_eq :: "llist_iterator \<Rightarrow> llist_iterator \<Rightarrow> bool" where
  "it_eq a b \<longleftrightarrow> (it_end a \<and> it_end b) \<or> (\<not> it_end a \<and> \<not> it_end b \<and> it_index a = it_index b)"

definition it_deref :: "llist_iterator \<Rightarrow> nat res" where
  "it_deref it = assert_that (\<not> it_end it) (Inr (it_index it))"

definition it_incr :: "llist \<Rightarrow> llist_iterator \<Rightarrow> llist_iterator res" where
  "it_incr l it = assert_that (\<not> it_end it)
     (if it_index it = l_tail l then Inr (it\<lparr>it_end := True\<rparr>)
      else if it_index it < length (l_table l)
        then Inr (it\<lparr>it_index := l_table l ! it_index it\<rparr>)
        else Inl UndefinedBehaviour)"

text \<open>\<open>operator++(int)\<close> evaluates \<open>(*this)++\<close>, which is \<open>operator++(int)\<close> again.\<close>

partial_function (option) it_post_incr :: "llist_iterator \<Rightarrow> (llist_iterator \<times> llist_iterator) option"
  where
  "it_post_incr it = Option.bind (it_post_incr it) (\<lambda>(p, it'). Some (it, it'))"

text \<open>The loop \<open>for (it = begin(); it != end(); ++it) *it\<close>, with fuel.\<close>

fun llist_iterate :: "nat \<Rightarrow> llist \<Rightarrow> llist_iterator \<Rightarrow> nat list res option" where
  "llist_iterate fuel l it =
     (if it_eq it (llist_end l) then Some (Inr [])
      else case fuel of 0 \<Rightarrow> None
        | Suc fuel' \<Rightarrow> (case res_bind (it_deref it) (\<lambda>x. res_bind (it_incr l it) (\<lambda>it'. Inr (x, it'))) of
            Inl e \<Rightarrow> Some (Inl e)
          | Inr (x, it') \<Rightarrow> map_option (map_sum id ((#) x)) (llist_iterate fuel' l it')))"

declare llist_iterate.simps [simp del]

section \<open>Refinement of the abstract queue\<close>

text \<open>The list holds \<open>xs\<close>, the chain \<open>st\<close> is staged and \<open>p\<close> tells that the front is popped.\<close>

definition llist_rep :: "llist \<Rightarrow> nat list \<Rightarrow> nat list \<Rightarrow> bool \<Rightarrow> bool" where
  "llist_rep l xs st p \<longleftrightarrow>
     distinct (xs @ st) \<and> linked (l_table l) xs \<and> linked (l_table l) st
     \<and> l_empty l = (xs = []) \<and> l_pushed l = (st \<noteq> []) \<and> l_popped l = p
     \<and> (xs \<noteq> [] \<longrightarrow> l_head l = hd xs \<and> l_tail l = last xs)
     \<and> (st \<noteq> [] \<longrightarrow> l_first l = hd st \<and> l_last l = last st)
     \<and> (p \<and> tl xs \<noteq> [] \<longrightarrow> l_next l = hd (tl xs))"

lemma llist_init_rep: "llist_rep (llist_init tbl) [] [] False"
  by (simp add: llist_rep_def llist_init_def)

lemma llist_rep_Front: "llist_rep l (x # xs) st p \<Longrightarrow> llist_Front l = Inr x"
  by (simp add: llist_rep_def llist_Front_def)

lemma llist_rep_Singular:
  "llist_rep l xs st p \<Longrightarrow> xs \<noteq> [] \<Longrightarrow> llist_Singular l = Inr (length xs = 1)"
proof -
  assume r: "llist_rep l xs st p" and ne: "xs \<noteq> []"
  then obtain x ys where xs: "xs = x # ys" by (cases xs) auto
  have "(x = last (x # ys)) = (ys = [])" if "distinct (x # ys)"
    using that last_in_set [of ys] by (cases "ys = []") auto
  with r show ?thesis by (simp add: llist_rep_def llist_Singular_def xs)
qed

lemma llist_rep_Append:
  assumes "llist_rep l xs [] p" "linked (l_table l) st" "distinct (xs @ st)" "st \<noteq> []"
  shows "\<exists>l'. llist_Append PHASE_COMMIT True (hd st) (last st) l = Inr l' \<and> llist_rep l' xs st p
    \<and> l_table l' = l_table l"
  using assms by (simp add: llist_rep_def llist_Append_def)

lemma llist_rep_Pop:
  assumes "llist_rep l xs st False" "xs \<noteq> []"
  shows "\<exists>l'. llist_Pop PHASE_COMMIT True l = Inr l' \<and> llist_rep l' xs st True
    \<and> l_table l' = l_table l"
proof -
  obtain x ys where xs: "xs = x # ys" using assms(2) by (cases xs) auto
  show ?thesis using assms(1)
    by (auto simp: llist_rep_def llist_Pop_def xs linked_Cons)
qed

lemma llist_update_pop_rep:
  assumes r: "llist_rep l xs st p" and p: "p \<longrightarrow> xs \<noteq> []"
  shows "\<exists>ev l'. llist_update_pop l = Inr (ev, l')
    \<and> llist_rep (l'\<lparr>l_popped := False\<rparr>) (if p then tl xs else xs) st False
    \<and> l_table l' = l_table l
    \<and> activations ev = of_bool ((if p then tl xs else xs) \<noteq> []) - of_bool (xs \<noteq> [])"
proof (cases p)
  case False
  then show ?thesis using r by (simp add: llist_rep_def llist_update_pop_def)
next
  case True
  then obtain x ys where xs: "xs = x # ys" using p by (cases xs) auto
  show ?thesis
  proof (cases ys)
    case Nil
    then show ?thesis using r True by (simp add: llist_rep_def llist_update_pop_def xs)
  next
    case (Cons y zs)
    have "x \<noteq> last (y # zs)"
      using r last_in_set [of "y # zs"] by (auto simp: llist_rep_def xs Cons)
    then show ?thesis using r True
      by (simp add: llist_rep_def llist_update_pop_def xs Cons)
  qed
qed

lemma llist_update_push_rep:
  assumes r: "llist_rep l xs st False"
  shows "\<exists>ev l'. llist_update_push l = Inr (ev, l')
    \<and> llist_rep (l'\<lparr>l_pushed := False\<rparr>) (xs @ st) [] False
    \<and> length (l_table l') = length (l_table l)
    \<and> (\<forall>i. xs = [] \<or> st = [] \<or> i \<noteq> last xs \<longrightarrow> l_table l' ! i = l_table l ! i)
    \<and> activations ev = of_bool (xs @ st \<noteq> []) - of_bool (xs \<noteq> [])"
proof (cases "xs = [] \<or> st = []")
  case True
  then show ?thesis using r by (auto simp: llist_rep_def llist_update_push_def)
next
  case False
  then have ne: "xs \<noteq> []" "st \<noteq> []" by auto
  have "linked ((l_table l)[last xs := hd st]) (xs @ st)"
    using r ne by (intro linked_join) (auto simp: llist_rep_def)
  moreover have "last xs < length (l_table l)"
    using r ne linked_bound last_in_set unfolding llist_rep_def by blast
  ultimately show ?thesis
    using r ne by (auto simp: llist_rep_def llist_update_push_def)
qed

lemma llist_Update_rep:
  assumes r: "llist_rep l xs st p" and p: "p \<longrightarrow> xs \<noteq> []"
  defines "ys \<equiv> if p then tl xs else xs"
  shows "\<exists>ev l'. llist_Update l = Inr (ev, l') \<and> llist_rep l' (ys @ st) [] False
    \<and> length (l_table l') = length (l_table l)
    \<and> (\<forall>i. ys = [] \<or> st = [] \<or> i \<noteq> last ys \<longrightarrow> l_table l' ! i = l_table l ! i)
    \<and> activations ev = of_bool (ys @ st \<noteq> []) - of_bool (xs \<noteq> [])"
proof -
  obtain e1 l1 where 1: "llist_update_pop l = Inr (e1, l1)"
      "llist_rep (l1\<lparr>l_popped := False\<rparr>) ys st False" "l_table l1 = l_table l"
      "activations e1 = of_bool (ys \<noteq> []) - of_bool (xs \<noteq> [])"
    using llist_update_pop_rep [OF r p] unfolding ys_def by blast
  obtain e2 l2 where 2: "llist_update_push (l1\<lparr>l_popped := False\<rparr>) = Inr (e2, l2)"
      "llist_rep (l2\<lparr>l_pushed := False\<rparr>) (ys @ st) [] False"
      "length (l_table l2) = length (l_table l)"
      "\<forall>i. ys = [] \<or> st = [] \<or> i \<noteq> last ys \<longrightarrow> l_table l2 ! i = l_table l ! i"
      "activations e2 = of_bool (ys @ st \<noteq> []) - of_bool (ys \<noteq> [])"
    using llist_update_push_rep [OF 1(2)] 1(3) by auto
  have "llist_update_push l1 = map_sum id (map_prod id (l_popped_update (\<lambda>_. l_popped l1)))
      (llist_update_push (l1\<lparr>l_popped := False\<rparr>))"
    by (simp add: llist_update_push_def)
  then have "llist_Update l = Inr (e1 @ e2, l2\<lparr>l_pushed := False, l_popped := False\<rparr>)"
    using 1(1) 2(1) by (simp add: llist_Update_def)
  moreover have "llist_rep (l2\<lparr>l_pushed := False, l_popped := False\<rparr>) (ys @ st) [] False"
    using 2(2) by (simp add: llist_rep_def)
  ultimately show ?thesis using 1(4) 2(3-5) by simp
qed

text \<open>An item is taken when nothing is staged and the item is not on the list already.\<close>

definition llist_ready :: "llist \<Rightarrow> nat \<Rightarrow> bool" where
  "llist_ready l x \<longleftrightarrow> \<not> l_pushed l \<and> x < length (l_table l)
     \<and> (\<forall>xs st p. llist_rep l xs st p \<longrightarrow> x \<notin> set xs)"

lemma llist_Pop_rep_back:
  assumes "llist_Pop PHASE_COMMIT True l = Inr l'" and "llist_rep l' xs st p"
  shows "llist_rep l xs st False"
  using assms by (auto simp: llist_Pop_def llist_rep_def split: if_splits)

interpretation lst: fifo_storage llist_rep llist_ready llist_Front
    "\<lambda>l x. llist_Push PHASE_COMMIT True x l" "llist_Pop PHASE_COMMIT True" llist_Update
proof unfold_locales
  fix l x xs st p
  assume "llist_rep l (x # xs) st p"
  then show "llist_Front l = Inr x" by (rule llist_rep_Front)
next
  fix l x xs st p
  assume r: "llist_rep l xs st p" and x: "llist_ready l x"
  have "st = []" using r x by (simp add: llist_rep_def llist_ready_def)
  moreover have "x \<notin> set xs" "x < length (l_table l)" using r x unfolding llist_ready_def by blast+
  ultimately show "\<exists>l'. llist_Push PHASE_COMMIT True x l = Inr l' \<and> llist_rep l' xs (st @ [x]) p"
    using llist_rep_Append [of l xs p "[x]"] r by (auto simp: llist_Push_def llist_rep_def)
next
  fix l x xs st
  assume "llist_rep l (x # xs) st False"
  then show "\<exists>l'. llist_Pop PHASE_COMMIT True l = Inr l' \<and> llist_rep l' (x # xs) st True"
    using llist_rep_Pop by blast
next
  fix l l' x
  assume pop: "llist_Pop PHASE_COMMIT True l = Inr l'" and x: "llist_ready l x"
  have "l_pushed l' = l_pushed l" "l_table l' = l_table l"
    using pop by (auto simp: llist_Pop_def split: if_splits)
  then show "llist_ready l' x"
    using x llist_Pop_rep_back [OF pop] unfolding llist_ready_def by metis
next
  fix l xs st p
  assume "llist_rep l xs st p" "p \<longrightarrow> xs \<noteq> []"
  note u = llist_Update_rep [OF this]
  show "\<exists>ev l'. llist_Update l = Inr (ev, l')
      \<and> llist_rep l' ((if p then tl xs else xs) @ st) [] False
      \<and> activations ev = of_bool ((if p then tl xs else xs) @ st \<noteq> []) - of_bool (xs \<noteq> [])"
    using u by blast
qed

lemma llist_iterate_suffix:
  assumes r: "llist_rep l xs st p" and xs: "xs = ys @ z # zs" and fuel: "length zs < fuel"
  shows "llist_iterate fuel l \<lparr>it_index = z, it_end = False\<rparr> = Some (Inr (z # zs))"
  using xs fuel
proof (induction zs arbitrary: ys z fuel)
  case Nil
  then obtain fuel' where f: "fuel = Suc fuel'" by (cases fuel) auto
  have tail: "l_tail l = z" using r Nil by (auto simp: llist_rep_def)
  show ?case
    by (simp add: llist_iterate.simps [of "Suc fuel'"] llist_iterate.simps [of fuel'] f it_eq_def llist_end_def
      it_deref_def it_incr_def tail)
next
  case (Cons z' zs)
  then obtain fuel' where f: "fuel = Suc fuel'" "length zs < fuel'" by (cases fuel) auto
  have "linked (l_table l) (z # z' # zs)" using r Cons.prems(1) by (simp add: llist_rep_def linked_append)
  then have step: "z < length (l_table l)" "l_table l ! z = z'" by auto
  have "l_tail l = last (z' # zs)" "distinct (z # z' # zs)"
    using r Cons.prems(1) by (auto simp: llist_rep_def)
  then have "z \<noteq> l_tail l" using last_in_set [of "z' # zs"] by auto
  moreover have "llist_iterate fuel' l \<lparr>it_index = z', it_end = False\<rparr> = Some (Inr (z' # zs))"
    using Cons.IH [of "ys @ [z]" z' fuel'] Cons.prems(1) f by simp
  ultimately show ?case
    by (simp add: llist_iterate.simps [of "Suc fuel'"] f(1) it_eq_def llist_end_def it_deref_def it_incr_def step)
qed

lemma it_post_incr_None: "it_post_incr it = None"
proof -
  have "it_post_incr it \<noteq> Some r" for r it
  proof
    assume "it_post_incr it = Some r"
    then show False
      by (rule it_post_incr.raw_induct [of "\<lambda>_ _. False", rotated]) (auto split: bind_splits)
  qed
  then show ?thesis by (cases "it_post_incr it") auto
qed

section \<open>Properties\<close>

text \<open>
  C9. A cycle of a linked list that pops its front (when it holds one) and appends a whole chain
  of the table behaves as the queue: afterwards it holds the rest of its items and then the
  chain, which is what its iterator visits; the only link of the table it wrote is the one of its
  last item; and the activations it sent account for whether it is empty.
\<close>

theorem llist_cycle_refines_queue:
  assumes "llist_rep l xs [] False" and "linked (l_table l) st" and "distinct (xs @ st)"
    and "xs \<noteq> []" and "st \<noteq> []"
  shows "\<exists>l1 l2 ev l3. llist_Pop PHASE_COMMIT True l = Inr l1
    \<and> llist_Append PHASE_COMMIT True (hd st) (last st) l1 = Inr l2
    \<and> llist_Front l2 = Inr (hd xs)
    \<and> llist_Update l2 = Inr (ev, l3) \<and> llist_rep l3 (tl xs @ st) [] False
    \<and> llist_iterate (length (l_table l3)) l3 (llist_begin l3) = Some (Inr (tl xs @ st))
    \<and> (\<forall>i. tl xs = [] \<or> i \<noteq> last xs \<longrightarrow> l_table l3 ! i = l_table l ! i)
    \<and> activations ev = 0"
proof -
  obtain l1 where 1: "llist_Pop PHASE_COMMIT True l = Inr l1" "llist_rep l1 xs [] True"
      "l_table l1 = l_table l"
    using llist_rep_Pop [OF assms(1,4)] by blast
  obtain l2 where 2: "llist_Append PHASE_COMMIT True (hd st) (last st) l1 = Inr l2"
      "llist_rep l2 xs st True" "l_table l2 = l_table l"
    using llist_rep_Append [OF 1(2) _ assms(3,5)] assms(2) 1(3) by auto
  obtain ev l3 where 3: "llist_Update l2 = Inr (ev, l3)" "llist_rep l3 (tl xs @ st) [] False"
      "length (l_table l3) = length (l_table l2)"
      "\<forall>i. tl xs = [] \<or> st = [] \<or> i \<noteq> last (tl xs) \<longrightarrow> l_table l3 ! i = l_table l2 ! i"
      "activations ev = of_bool (tl xs @ st \<noteq> []) - of_bool (xs \<noteq> [])"
    using llist_Update_rep [OF 2(2)] assms(4) by auto
  obtain z zs where z: "tl xs @ st = z # zs" using assms(5) by (cases "tl xs @ st") auto
  have "distinct (z # zs)" "linked (l_table l3) (z # zs)" "l_head l3 = z"
    using 3(2) z by (auto simp: llist_rep_def)
  then have "length (z # zs) \<le> length (l_table l3)"
    by (meson distinct_bounded_length linked_bound)
  then have "llist_iterate (length (l_table l3)) l3 (llist_begin l3) = Some (Inr (tl xs @ st))"
    using llist_iterate_suffix [OF 3(2), of "[]" z zs] z \<open>l_head l3 = z\<close>
    by (simp add: llist_begin_def)
  moreover have "llist_Front l2 = Inr (hd xs)"
    using 2(2) llist_rep_Front assms(4) by (metis list.collapse)
  moreover have "last (tl xs) = last xs" if "tl xs \<noteq> []" using that by (simp add: last_tl)
  ultimately show ?thesis using 1 2 3 assms(4,5) by (intro exI conjI) auto
qed

text \<open>A table of six elements whose list is 0, 1; the chain 3, 4 is appended.\<close>

definition llist_example :: llist where
  "llist_example = \<lparr>l_table = [1, 2, 0, 4, 0, 0], l_empty = False, l_popped = False,
     l_pushed = False, l_head = 0, l_tail = 1, l_next = 0, l_first = 0, l_last = 0,
     l_activated = False\<rparr>"

theorem llist_cycle_refines_queue_witness:
  "\<exists>l1 l2 ev l3. llist_Pop PHASE_COMMIT True llist_example = Inr l1
    \<and> llist_Append PHASE_COMMIT True 3 4 l1 = Inr l2
    \<and> llist_Update l2 = Inr (ev, l3) \<and> llist_rep l3 [1, 3, 4] [] False
    \<and> llist_iterate (length (l_table l3)) l3 (llist_begin l3) = Some (Inr [1, 3, 4])"
proof -
  have "llist_rep llist_example [0, 1] [] False" "linked (l_table llist_example) [3, 4]"
    by (simp_all add: llist_example_def llist_rep_def)
  from llist_cycle_refines_queue [OF this] show ?thesis by fastforce
qed

text \<open>The iterators of an empty list: \<open>begin()\<close> is not \<open>end()\<close>, so a loop over an empty list
  visits the head it had last; and the post-increment never returns.\<close>

lemma llist_begin_of_empty: "\<not> it_eq (llist_begin (llist_init tbl)) (llist_end (llist_init tbl))"
  by (simp add: it_eq_def llist_begin_def llist_end_def)

lemma llist_iterate_empty_visits:
  "llist_iterate 1 (llist_init [7]) (llist_begin (llist_init [7])) = Some (Inr [0])"
  by (simp add: llist_iterate.simps [of "Suc 0"] llist_iterate.simps [of 0] it_eq_def
    llist_begin_def llist_end_def it_deref_def it_incr_def llist_init_def)

end
