(* ===== verification/Arbitration.thy ===== *)
theory Arbitration
  imports Prelude
begin

text \<open>
  Arbitrated ports (sim/ports.h, sim/ports.cpp): the processes that compete for a port add their
  requests in the acquire phase, the kernel lets the port arbitrate, and a process learns in the
  later phases whether it acquired the port. The policies are the priority port, the cyclic
  (round-robin) port and their combination; a \<open>ReadWriteStructure\<close> arbitrates its ports and then
  the write ports that want the same index. The interface \<open>arbiter\<close> is what a client relies on,
  and \<open>fair_arbiter\<close> adds a rank that bounds the waiting time.

  A process is a value of the type \<open>'p\<close>, where the code compares addresses; \<open>NULL\<close> is \<open>None\<close>.
\<close>

section \<open>The contracts\<close>

text \<open>\<open>round c rs s\<close>: the processes \<open>rs\<close> request in cycle \<open>c\<close>, then the port arbitrates.\<close>

locale arbiter =
  fixes wf :: "'s \<Rightarrow> bool"
    and clients :: "'s \<Rightarrow> 'p set"
    and selected :: "'s \<Rightarrow> 'p option"
    and round :: "u64 \<Rightarrow> 'p list \<Rightarrow> 's \<Rightarrow> 's res"
  assumes round_law: "wf s \<Longrightarrow> set rs \<subseteq> clients s \<Longrightarrow> distinct rs \<Longrightarrow>
      \<exists>s'. round c rs s = Inr s' \<and> wf s' \<and> clients s' = clients s
        \<and> (rs = [] \<longrightarrow> selected s' = None)
        \<and> (rs \<noteq> [] \<longrightarrow> (\<exists>p\<in>set rs. selected s' = Some p))"
begin

definition granted :: "'s \<Rightarrow> 'p \<Rightarrow> bool" where
  "granted s p \<longleftrightarrow> selected s = Some p"

text \<open>Mutual exclusion, and no grant that was not asked for.\<close>

lemma round_grants:
  assumes "wf s" "set rs \<subseteq> clients s" "distinct rs" "round c rs s = Inr s'"
  shows "card {p. granted s' p} = of_bool (rs \<noteq> []) \<and> {p. granted s' p} \<subseteq> set rs"
proof (cases "rs = []")
  case True
  then show ?thesis using round_law [OF assms(1-3), of c] assms(4) by (simp add: granted_def)
next
  case False
  then obtain p where "p \<in> set rs" "selected s' = Some p"
    using round_law [OF assms(1-3), of c] assms(4) by auto
  moreover from this have "{q. granted s' q} = {p}" by (auto simp: granted_def)
  ultimately show ?thesis using False by simp
qed

text \<open>Several rounds in a row, and the processes they selected.\<close>

fun rounds :: "(u64 \<times> 'p list) list \<Rightarrow> 's \<Rightarrow> ('p option list \<times> 's) res" where
  "rounds [] s = Inr ([], s)"
| "rounds ((c, rs) # rss) s = res_bind (round c rs s) (\<lambda>s'.
     map_sum id (map_prod ((#) (selected s')) id) (rounds rss s'))"

lemma rounds_total:
  "wf s \<Longrightarrow> \<forall>(c, rs)\<in>set rss. set rs \<subseteq> clients s \<and> distinct rs \<Longrightarrow>
   \<exists>os s'. rounds rss s = Inr (os, s') \<and> wf s' \<and> length os = length rss"
proof (induction rss arbitrary: s)
  case (Cons r rss)
  obtain c rs where r: "r = (c, rs)" by (cases r)
  obtain s1 where s1: "round c rs s = Inr s1" "wf s1" "clients s1 = clients s"
    using round_law [OF Cons.prems(1), of rs c] Cons.prems(2) r by auto
  then obtain os s' where "rounds rss s1 = Inr (os, s')" "wf s'" "length os = length rss"
    using Cons.IH [of s1] Cons.prems(2) by auto
  then show ?case using s1 r by simp
qed simp

end

locale fair_arbiter = arbiter wf clients selected round
  for wf :: "'s \<Rightarrow> bool" and clients :: "'s \<Rightarrow> 'p set"
    and selected :: "'s \<Rightarrow> 'p option" and round :: "u64 \<Rightarrow> 'p list \<Rightarrow> 's \<Rightarrow> 's res" +
  fixes rank :: "'s \<Rightarrow> 'p \<Rightarrow> nat"
  assumes rank_pos: "wf s \<Longrightarrow> p \<in> clients s \<Longrightarrow> 0 < rank s p"
    and rank_law: "wf s \<Longrightarrow> set rs \<subseteq> clients s \<Longrightarrow> distinct rs \<Longrightarrow> p \<in> set rs \<Longrightarrow>
      round c rs s = Inr s' \<Longrightarrow> selected s' \<noteq> Some p \<Longrightarrow> rank s' p < rank s p"
begin

text \<open>Bounded waiting: whoever keeps asking is served within its rank.\<close>

lemma served_within_rank:
  "wf s \<Longrightarrow> \<forall>(c, rs)\<in>set rss. set rs \<subseteq> clients s \<and> distinct rs \<and> p \<in> set rs \<Longrightarrow>
   rank s p \<le> length rss \<Longrightarrow> p \<in> clients s \<Longrightarrow> rounds rss s = Inr (os, s') \<Longrightarrow> Some p \<in> set os"
proof (induction rss arbitrary: s os s')
  case Nil
  then show ?case using rank_pos [of s p] by simp
next
  case (Cons r rss)
  obtain c rs where r: "r = (c, rs)" by (cases r)
  have rs: "set rs \<subseteq> clients s" "distinct rs" "p \<in> set rs" using Cons.prems(2) r by auto
  obtain s1 where s1: "round c rs s = Inr s1" "wf s1" "clients s1 = clients s"
    using round_law [OF Cons.prems(1) rs(1,2), of c] by auto
  obtain os1 where os1: "rounds rss s1 = Inr (os1, s')" "os = selected s1 # os1"
    using Cons.prems(5) r s1(1) by (cases "rounds rss s1") auto
  show ?case
  proof (cases "selected s1 = Some p")
    case False
    then have "rank s1 p \<le> length rss"
      using rank_law [OF Cons.prems(1) rs s1(1)] Cons.prems(3) by simp
    then have "Some p \<in> set os1"
      using Cons.IH [OF s1(2) _ _ _ os1(1)] Cons.prems(2,4) s1(3) by auto
    then show ?thesis using os1 by simp
  qed (simp add: os1)
qed

end

section \<open>The ports\<close>

record 'p simple_port =
  p_selected :: "'p option"
  p_busyCycles :: u64
  p_processes :: "'p list"
  p_requests :: "'p list"
  p_lastrequest :: u64

record 'p cyclic_port = "'p simple_port" +
  p_lastSelected :: nat

record 'p priority_cyclic_port = "'p cyclic_port" +
  p_cyclicprocesses :: "'p list"

definition simple_port_init :: "'p simple_port" where
  "simple_port_init = \<lparr>p_selected = None, p_busyCycles = 0, p_processes = [], p_requests = [],
     p_lastrequest = -1\<rparr>"

definition cyclic_port_init :: "'p cyclic_port" where
  "cyclic_port_init = simple_port.extend simple_port_init \<lparr>p_lastSelected = 0\<rparr>"

definition HasAcquired :: "'p \<Rightarrow> ('p, 'z) simple_port_scheme \<Rightarrow> bool" where
  "HasAcquired p s \<longleftrightarrow> p_selected s = Some p"

definition MarkBusy :: "('p, 'z) simple_port_scheme \<Rightarrow> ('p, 'z) simple_port_scheme" where
  "MarkBusy s = s\<lparr>p_busyCycles := p_busyCycles s + 1\<rparr>"

definition AddProcess :: "'p \<Rightarrow> ('p, 'z) simple_port_scheme \<Rightarrow> ('p, 'z) simple_port_scheme res" where
  "AddProcess p s = assert_that (p \<notin> set (p_processes s))
     (Inr (s\<lparr>p_processes := p_processes s @ [p]\<rparr>))"

definition CanAccess :: "'p \<Rightarrow> ('p, 'z) simple_port_scheme \<Rightarrow> bool" where
  "CanAccess p s \<longleftrightarrow> p \<in> set (p_processes s)"

definition AddRequest :: "'p \<Rightarrow> u64 \<Rightarrow> ('p, 'z) simple_port_scheme \<Rightarrow> ('p, 'z) simple_port_scheme res"
  where
  "AddRequest p c s =
     (if p \<in> set (p_requests s) then assert_that (c \<noteq> p_lastrequest s) (Inr s)
      else Inr (s\<lparr>p_requests := p_requests s @ [p], p_lastrequest := c\<rparr>))"

text \<open>
  The loops that look for the request of the least key: \<open>keep\<close> is the guard of the loop body,
  \<open>m\<close> and \<open>sel\<close> are its variables \<open>min\<close> and the selected process.
\<close>

fun select_min :: "('p \<Rightarrow> bool) \<Rightarrow> ('p \<Rightarrow> nat) \<Rightarrow> 'p list \<Rightarrow> nat \<times> 'p option \<Rightarrow> nat \<times> 'p option" where
  "select_min keep key [] acc = acc"
| "select_min keep key (i # is) (m, sel) =
     select_min keep key is (if keep i \<and> key i < m then (key i, Some i) else (m, sel))"

definition position :: "'p list \<Rightarrow> 'p \<Rightarrow> nat" where
  "position ps p = find_index (\<lambda>q. q = p) ps"

definition finish_arbitration :: "('p, 'z) simple_port_scheme \<Rightarrow> ('p, 'z) simple_port_scheme res" where
  "finish_arbitration s = assert_that (p_selected s \<noteq> None) (Inr (MarkBusy (s\<lparr>p_requests := []\<rparr>)))"

definition PriorityArbitrate :: "('p, 'z) simple_port_scheme \<Rightarrow> ('p, 'z) simple_port_scheme res" where
  "PriorityArbitrate s =
     (case p_requests s of
        [] \<Rightarrow> Inr (s\<lparr>p_selected := None\<rparr>)
      | [p] \<Rightarrow> finish_arbitration (s\<lparr>p_selected := Some p\<rparr>)
      | rs \<Rightarrow> finish_arbitration (s\<lparr>p_selected :=
          snd (select_min (\<lambda>_. True) (position (p_processes s)) rs (length (p_processes s), None))\<rparr>))"

text \<open>The distance from the process selected last to the one at position \<open>pos\<close> of \<open>sz\<close>.\<close>

definition cyclic_distance :: "nat \<Rightarrow> nat \<Rightarrow> nat \<Rightarrow> nat" where
  "cyclic_distance sz l pos = (pos + sz - l) mod sz"

definition CyclicArbitrate :: "('p, 'z) cyclic_port_scheme \<Rightarrow> ('p, 'z) cyclic_port_scheme res" where
  "CyclicArbitrate s = assert_that (p_lastSelected s < length (p_processes s))
     (case p_requests s of
        [] \<Rightarrow> Inr (s\<lparr>p_selected := None\<rparr>)
      | [p] \<Rightarrow> finish_arbitration (s\<lparr>p_selected := Some p,
                 p_lastSelected := position (p_processes s) p\<rparr>)
      | rs \<Rightarrow>
          (let sz = length (p_processes s);
               d = (\<lambda>i. cyclic_distance sz (p_lastSelected s) (position (p_processes s) i));
               (m, sel) = select_min (\<lambda>i. d i \<noteq> 0) d rs (sz, None)
           in finish_arbitration (s\<lparr>p_selected := sel,
                p_lastSelected := (p_lastSelected s + m) mod sz\<rparr>)))"

definition PriorityCyclicArbitrate ::
  "('p, 'z) priority_cyclic_port_scheme \<Rightarrow> ('p, 'z) priority_cyclic_port_scheme res" where
  "PriorityCyclicArbitrate s =
     (case p_requests s of
        [] \<Rightarrow> Inr (s\<lparr>p_selected := None\<rparr>)
      | [p] \<Rightarrow>
          (let last = position (p_cyclicprocesses s) p
           in finish_arbitration (s\<lparr>p_selected := Some p,
                p_lastSelected := (if last < length (p_cyclicprocesses s) then last
                                   else p_lastSelected s)\<rparr>))
      | rs \<Rightarrow>
          (let sz = length (p_processes s);
               prio = position (p_processes s);
               (m, sel) = select_min (\<lambda>i. prio i \<noteq> sz) prio rs (sz, None)
           in if m \<noteq> sz then finish_arbitration (s\<lparr>p_selected := sel\<rparr>)
              else (let csz = length (p_cyclicprocesses s);
                        d = (\<lambda>i. cyclic_distance csz (p_lastSelected s)
                                  (position (p_cyclicprocesses s) i));
                        (m', sel') = select_min (\<lambda>i. d i \<noteq> 0) d rs (csz, sel)
                    in if csz = 0 then Inl UndefinedBehaviour
                       else finish_arbitration (s\<lparr>p_selected := sel',
                              p_lastSelected := (p_lastSelected s + m') mod csz\<rparr>))))"

lemmas port_defs [sim_defs] = finish_arbitration_def MarkBusy_def AddRequest_def AddProcess_def
  PriorityArbitrate_def CyclicArbitrate_def

definition AddPriorityProcess ::
  "'p \<Rightarrow> ('p, 'z) priority_cyclic_port_scheme \<Rightarrow> ('p, 'z) priority_cyclic_port_scheme res" where
  "AddPriorityProcess p s = AddProcess p s"

definition AddCyclicProcess ::
  "'p \<Rightarrow> ('p, 'z) priority_cyclic_port_scheme \<Rightarrow> ('p, 'z) priority_cyclic_port_scheme" where
  "AddCyclicProcess p s = s\<lparr>p_cyclicprocesses := p_cyclicprocesses s @ [p]\<rparr>"

definition CanAccess_priority_cyclic :: "'p \<Rightarrow> ('p, 'z) priority_cyclic_port_scheme \<Rightarrow> bool" where
  "CanAccess_priority_cyclic p s \<longleftrightarrow> CanAccess p s \<or> p \<in> set (p_cyclicprocesses s)"

text \<open>
  \<open>ArbitratedService::Invoke\<close> and \<open>ArbitratedReadPort::Read\<close> have one body; \<open>can\<close> is the
  policy's \<open>CanAccess\<close>. The request also asks the kernel for arbitration (the flag returned).
\<close>

definition Invoke :: "(('p, 'z) simple_port_scheme \<Rightarrow> bool) \<Rightarrow> CyclePhase \<Rightarrow> u64 \<Rightarrow> 'p
    \<Rightarrow> ('p, 'z) simple_port_scheme \<Rightarrow> (bool \<times> bool \<times> ('p, 'z) simple_port_scheme) res" where
  "Invoke can ph c p s = assert_that (can s)
     (if ph = PHASE_ACQUIRE
      then res_bind (AddRequest p c s) (\<lambda>s'. Inr (True, True, s'))
      else Inr (HasAcquired p s, False, s))"

definition ReadPort_Read :: "CyclePhase \<Rightarrow> u64 \<Rightarrow> 'p
    \<Rightarrow> ('p, 'z) simple_port_scheme \<Rightarrow> (bool \<times> bool \<times> ('p, 'z) simple_port_scheme) res" where
  "ReadPort_Read ph c p s = assert_that (CanAccess p s)
     (if ph = PHASE_ACQUIRE
      then res_bind (AddRequest p c s) (\<lambda>s'. Inr (True, True, s'))
      else Inr (HasAcquired p s, False, s))"

section \<open>The selection loop\<close>

lemma select_min_result:
  "select_min keep key rs (m0, sel0) = (m, sel) \<Longrightarrow>
   m \<le> m0 \<and> (\<forall>q\<in>set rs. keep q \<longrightarrow> m \<le> key q \<or> m0 \<le> key q)
   \<and> (m = m0 \<longrightarrow> sel = sel0)
   \<and> (m < m0 \<longrightarrow> (\<exists>p\<in>set rs. keep p \<and> key p = m \<and> sel = Some p))"
proof (induction rs arbitrary: m0 sel0)
  case (Cons i rs)
  show ?case
  proof (cases "keep i \<and> key i < m0")
    case True
    then have "select_min keep key rs (key i, Some i) = (m, sel)" using Cons.prems by simp
    from Cons.IH [OF this] True show ?thesis by (auto simp: le_less)
  next
    case False
    have "select_min keep key rs (m0, sel0) = (m, sel)"
      using Cons.prems unfolding select_min.simps if_not_P [OF False] .
    from Cons.IH [OF this] False show ?thesis by auto
  qed
qed simp

text \<open>When some request passes the guard with a key below the start, the least one is chosen.\<close>

lemma select_min_least:
  assumes "q \<in> set rs" "keep q" "key q < m0" and "select_min keep key rs (m0, sel0) = (m, sel)"
  shows "\<exists>p\<in>set rs. keep p \<and> key p = m \<and> sel = Some p \<and> m < m0
    \<and> (\<forall>q\<in>set rs. keep q \<longrightarrow> key p \<le> key q)"
proof -
  note r = select_min_result [OF assms(4)]
  have "m < m0" using r assms(1-3) by (meson leD le_less_linear order.strict_trans1)
  then obtain p where "p \<in> set rs" "keep p" "key p = m" "sel = Some p" using r by blast
  moreover have "m \<le> key q'" if "q' \<in> set rs" "keep q'" for q'
    using r that \<open>m < m0\<close> by fastforce
  ultimately show ?thesis using \<open>m < m0\<close> by blast
qed

lemma position_less: "position ps p < length ps \<longleftrightarrow> p \<in> set ps"
  by (simp add: position_def find_index_less)

lemma position_nth: "p \<in> set ps \<Longrightarrow> ps ! position ps p = p"
  by (simp add: position_def find_index_eq_nth)

lemma position_inject: "p \<in> set ps \<Longrightarrow> q \<in> set ps \<Longrightarrow> position ps p = position ps q \<Longrightarrow> p = q"
  by (metis position_nth)

text \<open>The requests of one round, all in cycle \<open>c\<close>.\<close>

fun add_requests :: "u64 \<Rightarrow> 'p list \<Rightarrow> ('p, 'z) simple_port_scheme \<Rightarrow> ('p, 'z) simple_port_scheme res"
  where
  "add_requests c [] s = Inr s"
| "add_requests c (p # ps) s = res_bind (AddRequest p c s) (add_requests c ps)"

lemma add_requests_ok:
  "distinct rs \<Longrightarrow> set rs \<inter> set (p_requests s) = {} \<Longrightarrow>
   add_requests c rs s = Inr (if rs = [] then s
     else s\<lparr>p_requests := p_requests s @ rs, p_lastrequest := c\<rparr>)"
  by (induction rs arbitrary: s) (auto simp: AddRequest_def)

section \<open>The policies provide the contract\<close>

definition port_wf :: "('p, 'z) simple_port_scheme \<Rightarrow> bool" where
  "port_wf s \<longleftrightarrow> distinct (p_processes s) \<and> p_requests s = []"

definition priority_round :: "u64 \<Rightarrow> 'p list \<Rightarrow> 'p simple_port \<Rightarrow> 'p simple_port res" where
  "priority_round c rs s = res_bind (add_requests c rs s) PriorityArbitrate"

lemma PriorityArbitrate_many:
  "p_requests s = p # q # qs \<Longrightarrow> PriorityArbitrate s = finish_arbitration (s\<lparr>p_selected :=
     snd (select_min (\<lambda>_. True) (position (p_processes s)) (p # q # qs)
       (length (p_processes s), None))\<rparr>)"
  by (simp add: PriorityArbitrate_def)

lemma CyclicArbitrate_many:
  assumes "p_requests s = p # q # qs" and "p_lastSelected s < length (p_processes s)"
    and "select_min (\<lambda>i. cyclic_distance (length (p_processes s)) (p_lastSelected s)
           (position (p_processes s) i) \<noteq> 0)
         (\<lambda>i. cyclic_distance (length (p_processes s)) (p_lastSelected s) (position (p_processes s) i))
         (p # q # qs) (length (p_processes s), None) = (m, sel)"
  shows "CyclicArbitrate s = finish_arbitration (s\<lparr>p_selected := sel,
     p_lastSelected := (p_lastSelected s + m) mod length (p_processes s)\<rparr>)"
  using assms by (simp add: CyclicArbitrate_def Let_def del: select_min.simps)

lemma priority_round_ok:
  assumes "port_wf s" "set rs \<subseteq> set (p_processes s)" "distinct rs"
  shows "\<exists>s'. priority_round c rs s = Inr s' \<and> port_wf s' \<and> p_processes s' = p_processes s
    \<and> (rs = [] \<longrightarrow> p_selected s' = None)
    \<and> (rs \<noteq> [] \<longrightarrow> (\<exists>p\<in>set rs. p_selected s' = Some p
          \<and> (\<forall>q\<in>set rs. position (p_processes s) p \<le> position (p_processes s) q)))"
proof -
  define s1 where "s1 = s\<lparr>p_requests := rs, p_lastrequest := c\<rparr>"
  have ar: "priority_round c rs s = PriorityArbitrate s1" if "rs \<noteq> []"
    using that assms by (simp add: priority_round_def add_requests_ok port_wf_def s1_def)
  consider "rs = []" | p where "rs = [p]" | p q qs where "rs = p # q # qs"
    by (cases rs rule: remdups_adj.cases) auto
  then show ?thesis
  proof cases
    case 1
    then show ?thesis using assms by (simp add: priority_round_def port_wf_def PriorityArbitrate_def)
  next
    case 2
    then show ?thesis
      using ar assms by (simp add: PriorityArbitrate_def s1_def finish_arbitration_def MarkBusy_def
        port_wf_def)
  next
    case 3
    obtain m sel where sm: "select_min (\<lambda>_. True) (position (p_processes s)) rs
        (length (p_processes s), None) = (m, sel)" by fastforce
    have "p \<in> set rs" "position (p_processes s) p < length (p_processes s)"
      using 3 assms(2) by (auto simp: position_less)
    from select_min_least [OF this(1) _ this(2) sm] obtain p' where p': "p' \<in> set rs" "sel = Some p'"
      "\<forall>q\<in>set rs. position (p_processes s) p' \<le> position (p_processes s) q" by auto
    have "PriorityArbitrate s1 = finish_arbitration (s1\<lparr>p_selected := sel\<rparr>)"
      using PriorityArbitrate_many [of s1] 3 sm by (simp add: s1_def del: select_min.simps)
    then show ?thesis
      using ar p' 3 assms(1) by (intro exI [of _ "MarkBusy (s1\<lparr>p_selected := sel, p_requests := []\<rparr>)"])
        (simp add: finish_arbitration_def MarkBusy_def port_wf_def s1_def)
  qed
qed

interpretation prio: arbiter port_wf "\<lambda>s. set (p_processes s)" p_selected priority_round
proof unfold_locales
  fix s :: "'a simple_port" and rs c
  assume "port_wf s" "set rs \<subseteq> set (p_processes s)" "distinct rs"
  from priority_round_ok [OF this, of c]
  show "\<exists>s'. priority_round c rs s = Inr s' \<and> port_wf s' \<and> set (p_processes s') = set (p_processes s)
      \<and> (rs = [] \<longrightarrow> p_selected s' = None)
      \<and> (rs \<noteq> [] \<longrightarrow> (\<exists>p\<in>set rs. p_selected s' = Some p))"
    by auto
qed

text \<open>Distances on the circle of \<open>sz\<close> positions.\<close>

lemma cyclic_distance_less: "0 < sz \<Longrightarrow> cyclic_distance sz l x < sz"
  by (simp add: cyclic_distance_def)

lemma cyclic_distance_cases:
  "l < sz \<Longrightarrow> x < sz \<Longrightarrow> cyclic_distance sz l x = (if l \<le> x then x - l else x + sz - l)"
  by (auto simp: cyclic_distance_def mod_if)

lemma cyclic_distance_0: "l < sz \<Longrightarrow> x < sz \<Longrightarrow> cyclic_distance sz l x = 0 \<longleftrightarrow> x = l"
  by (auto simp: cyclic_distance_cases)

lemma cyclic_distance_back:
  "l < sz \<Longrightarrow> x < sz \<Longrightarrow> (l + cyclic_distance sz l x) mod sz = x"
  by (auto simp: cyclic_distance_cases mod_if)

lemma cyclic_distance_inject:
  "l < sz \<Longrightarrow> x < sz \<Longrightarrow> y < sz \<Longrightarrow> cyclic_distance sz l x = cyclic_distance sz l y \<Longrightarrow> x = y"
  by (metis cyclic_distance_back)

lemma cyclic_distance_shift:
  assumes "l < sz" "x < sz" "y < sz" "cyclic_distance sz l x \<le> cyclic_distance sz l y"
  shows "cyclic_distance sz x y = cyclic_distance sz l y - cyclic_distance sz l x"
  using assms by (auto simp: cyclic_distance_cases split: if_splits)

text \<open>How many turns a process may have to wait: its distance, a full circle for the last one.\<close>

definition cyclic_rank :: "('p, 'z) cyclic_port_scheme \<Rightarrow> 'p \<Rightarrow> nat" where
  "cyclic_rank s p =
     (let sz = length (p_processes s);
          d = cyclic_distance sz (p_lastSelected s) (position (p_processes s) p)
      in if d = 0 then sz else d)"

definition cyclic_wf :: "('p, 'z) cyclic_port_scheme \<Rightarrow> bool" where
  "cyclic_wf s \<longleftrightarrow> port_wf s \<and> p_lastSelected s < length (p_processes s)"

definition cyclic_round :: "u64 \<Rightarrow> 'p list \<Rightarrow> 'p cyclic_port \<Rightarrow> 'p cyclic_port res" where
  "cyclic_round c rs s = res_bind (add_requests c rs s) CyclicArbitrate"

lemma cyclic_round_ok:
  assumes wf: "cyclic_wf s" and sub: "set rs \<subseteq> set (p_processes s)" and dist: "distinct rs"
  shows "\<exists>s'. cyclic_round c rs s = Inr s' \<and> cyclic_wf s' \<and> p_processes s' = p_processes s
    \<and> (rs = [] \<longrightarrow> p_selected s' = None \<and> p_lastSelected s' = p_lastSelected s)
    \<and> (rs \<noteq> [] \<longrightarrow> (\<exists>p\<in>set rs. p_selected s' = Some p
          \<and> p_lastSelected s' = position (p_processes s) p
          \<and> (\<forall>q\<in>set rs. cyclic_rank s p \<le> cyclic_rank s q)))"
proof -
  define s1 where "s1 = s\<lparr>p_requests := rs, p_lastrequest := c\<rparr>"
  let ?sz = "length (p_processes s)" and ?l = "p_lastSelected s"
  let ?pos = "position (p_processes s)"
  let ?d = "\<lambda>i. cyclic_distance ?sz ?l (?pos i)"
  have l: "?l < ?sz" using wf by (simp add: cyclic_wf_def)
  have ar: "cyclic_round c rs s = CyclicArbitrate s1" if "rs \<noteq> []"
    using that wf dist by (simp add: cyclic_round_def add_requests_ok cyclic_wf_def port_wf_def s1_def)
  have pos: "?pos q < ?sz" if "q \<in> set rs" for q using that sub by (auto simp: position_less)
  consider "rs = []" | p where "rs = [p]" | p q qs where "rs = p # q # qs"
    by (cases rs rule: remdups_adj.cases) auto
  then show ?thesis
  proof cases
    case 1
    then show ?thesis
      using wf by (simp add: cyclic_round_def cyclic_wf_def port_wf_def CyclicArbitrate_def)
  next
    case 2
    then show ?thesis
      using ar wf pos l by (simp add: CyclicArbitrate_def s1_def finish_arbitration_def MarkBusy_def
        cyclic_wf_def port_wf_def)
  next
    case 3
    obtain m sel where sm: "select_min (\<lambda>i. ?d i \<noteq> 0) ?d rs (?sz, None) = (m, sel)" by fastforce
    have "p \<noteq> q" "?pos p < ?sz" "?pos q < ?sz" "p \<in> set (p_processes s)" "q \<in> set (p_processes s)"
      using 3 dist pos sub by auto
    then have "?pos p \<noteq> ?l \<or> ?pos q \<noteq> ?l" using position_inject by metis
    then obtain r where r: "r \<in> set rs" "?d r \<noteq> 0" "?d r < ?sz"
      using 3 \<open>?pos p < ?sz\<close> \<open>?pos q < ?sz\<close> l
      by (metis cyclic_distance_0 cyclic_distance_less list.set_intros(1,2) not_less_zero
        neq0_conv)
    from select_min_least [OF r sm] obtain p' where p': "p' \<in> set rs" "?d p' \<noteq> 0" "?d p' = m"
      "sel = Some p'" "m < ?sz" "\<forall>q\<in>set rs. ?d q \<noteq> 0 \<longrightarrow> ?d p' \<le> ?d q" by auto
    have "CyclicArbitrate s1 = finish_arbitration (s1\<lparr>p_selected := sel,
        p_lastSelected := (?l + m) mod ?sz\<rparr>)"
      using CyclicArbitrate_many [of s1 p q qs m sel] 3 sm l by (simp add: s1_def del: select_min.simps)
    also have "(?l + m) mod ?sz = ?pos p'" using cyclic_distance_back [OF l pos] p' by auto
    finally have fin: "CyclicArbitrate s1 = finish_arbitration (s1\<lparr>p_selected := sel,
        p_lastSelected := ?pos p'\<rparr>)" .
    have "cyclic_rank s p' \<le> cyclic_rank s q" if "q \<in> set rs" for q
      using p' that by (auto simp: cyclic_rank_def Let_def)
    then show ?thesis
      using ar p' 3 wf fin pos [OF p'(1)]
      by (intro exI [of _ "MarkBusy (s1\<lparr>p_selected := sel, p_lastSelected := ?pos p', p_requests := []\<rparr>)"])
        (auto simp add: finish_arbitration_def MarkBusy_def port_wf_def cyclic_wf_def s1_def)
  qed
qed

lemma cyclic_rank_decreases:
  assumes wf: "cyclic_wf s" and sub: "set rs \<subseteq> set (p_processes s)" and dist: "distinct rs"
    and p: "p \<in> set rs" and rnd: "cyclic_round c rs s = Inr s'" and ns: "p_selected s' \<noteq> Some p"
  shows "cyclic_rank s' p < cyclic_rank s p"
proof -
  let ?sz = "length (p_processes s)" and ?l = "p_lastSelected s"
  let ?pos = "position (p_processes s)"
  obtain q where q: "q \<in> set rs" "p_selected s' = Some q" "p_lastSelected s' = ?pos q"
      "p_processes s' = p_processes s" "cyclic_rank s q \<le> cyclic_rank s p"
    using cyclic_round_ok [OF wf sub dist, of c] rnd p by auto
  have b: "?l < ?sz" "?pos p < ?sz" "?pos q < ?sz" "p \<noteq> q"
    using wf sub p q ns by (auto simp: cyclic_wf_def position_less)
  have ne: "?pos p \<noteq> ?pos q" using b(4) p q(1) sub position_inject by (metis subsetD)
  have "cyclic_distance ?sz ?l (?pos p) \<noteq> cyclic_distance ?sz ?l (?pos q)"
    using b ne cyclic_distance_inject by blast
  then show ?thesis
    using q(3-5) b ne unfolding cyclic_rank_def Let_def
    by (auto simp: cyclic_distance_cases split: if_splits)
qed

interpretation cyc: fair_arbiter cyclic_wf "\<lambda>s. set (p_processes s)" p_selected cyclic_round cyclic_rank
proof unfold_locales
  fix s :: "'a cyclic_port" and rs c
  assume "cyclic_wf s" "set rs \<subseteq> set (p_processes s)" "distinct rs"
  from cyclic_round_ok [OF this, of c]
  show "\<exists>s'. cyclic_round c rs s = Inr s' \<and> cyclic_wf s' \<and> set (p_processes s') = set (p_processes s)
      \<and> (rs = [] \<longrightarrow> p_selected s' = None)
      \<and> (rs \<noteq> [] \<longrightarrow> (\<exists>p\<in>set rs. p_selected s' = Some p))"
    by auto
next
  fix s :: "'a cyclic_port" and p
  assume "cyclic_wf s" "p \<in> set (p_processes s)"
  then show "0 < cyclic_rank s p" by (auto simp: cyclic_rank_def cyclic_wf_def Let_def)
next
  fix s s' :: "'a cyclic_port" and rs p c
  assume "cyclic_wf s" "set rs \<subseteq> set (p_processes s)" "distinct rs" "p \<in> set rs"
    "cyclic_round c rs s = Inr s'" "p_selected s' \<noteq> Some p"
  then show "cyclic_rank s' p < cyclic_rank s p" by (rule cyclic_rank_decreases)
qed

lemma cyclic_rank_bound: "cyclic_wf s \<Longrightarrow> cyclic_rank s p \<le> length (p_processes s)"
proof -
  assume "cyclic_wf s"
  then have "0 < length (p_processes s)" by (auto simp: cyclic_wf_def)
  from cyclic_distance_less [OF this] show ?thesis
    by (simp add: cyclic_rank_def Let_def less_imp_le)
qed

fun cyclic_rounds :: "(u64 \<times> 'p list) list \<Rightarrow> 'p cyclic_port \<Rightarrow> ('p option list \<times> 'p cyclic_port) res"
  where
  "cyclic_rounds [] s = Inr ([], s)"
| "cyclic_rounds ((c, rs) # rss) s = res_bind (cyclic_round c rs s) (\<lambda>s'.
     map_sum id (map_prod ((#) (p_selected s')) id) (cyclic_rounds rss s'))"

lemma cyclic_rounds_eq: "cyclic_rounds rss s = cyc.rounds rss s"
  by (induction rss s rule: cyclic_rounds.induct) (auto simp: res_bind_def split: sum.splits)

text \<open>The combined port: the two process lists do not overlap.\<close>

definition priority_cyclic_wf :: "('p, 'z) priority_cyclic_port_scheme \<Rightarrow> bool" where
  "priority_cyclic_wf s \<longleftrightarrow> distinct (p_processes s) \<and> distinct (p_cyclicprocesses s)
     \<and> set (p_processes s) \<inter> set (p_cyclicprocesses s) = {}
     \<and> (p_cyclicprocesses s \<noteq> [] \<longrightarrow> p_lastSelected s < length (p_cyclicprocesses s))"

lemma PriorityCyclicArbitrate_priority:
  assumes wf: "priority_cyclic_wf s" and p: "p \<in> set (p_requests s)" "p \<in> set (p_processes s)"
  shows "\<exists>s' q. PriorityCyclicArbitrate s = Inr s' \<and> p_requests s' = [] \<and> q \<in> set (p_requests s)
    \<and> p_selected s' = Some q \<and> q \<in> set (p_processes s)
    \<and> position (p_processes s) q \<le> position (p_processes s) p
    \<and> p_lastSelected s' = p_lastSelected s"
proof -
  let ?sz = "length (p_processes s)" and ?pos = "position (p_processes s)"
  consider "p_requests s = [p]" | x y zs where "p_requests s = x # y # zs"
    using p(1) by (cases "p_requests s" rule: remdups_adj.cases) auto
  then show ?thesis
  proof cases
    case 1
    have "p \<notin> set (p_cyclicprocesses s)" using wf p(2) by (auto simp: priority_cyclic_wf_def)
    then have "\<not> position (p_cyclicprocesses s) p < length (p_cyclicprocesses s)"
      by (simp add: position_less)
    then show ?thesis using 1 p
      by (simp add: PriorityCyclicArbitrate_def finish_arbitration_def MarkBusy_def)
  next
    case 2
    obtain m sel where sm: "select_min (\<lambda>i. ?pos i \<noteq> ?sz) ?pos (p_requests s) (?sz, None) = (m, sel)"
      by fastforce
    have "?pos p < ?sz" using p(2) by (simp add: position_less)
    then have "?pos p \<noteq> ?sz" by simp
    from select_min_least [OF p(1) this \<open>?pos p < ?sz\<close> sm] \<open>?pos p \<noteq> ?sz\<close> obtain q
      where q: "q \<in> set (p_requests s)" "?pos q = m" "sel = Some q" "m < ?sz" "?pos q \<le> ?pos p"
      using p(1) by blast
    have "PriorityCyclicArbitrate s = finish_arbitration (s\<lparr>p_selected := sel\<rparr>)"
      using 2 sm q(4) by (simp add: PriorityCyclicArbitrate_def Let_def del: select_min.simps)
    moreover have "q \<in> set (p_processes s)" using q(2,4) by (simp add: position_less [symmetric])
    ultimately show ?thesis using q by (simp add: finish_arbitration_def MarkBusy_def)
  qed
qed

lemma PriorityCyclicArbitrate_cyclic:
  assumes wf: "priority_cyclic_wf s" and ne: "p_requests s \<noteq> []" "distinct (p_requests s)"
    and sub: "set (p_requests s) \<subseteq> set (p_cyclicprocesses s)"
  defines "sz \<equiv> length (p_cyclicprocesses s)" and "pos \<equiv> position (p_cyclicprocesses s)"
  shows "\<exists>s' q. PriorityCyclicArbitrate s = Inr s' \<and> p_requests s' = [] \<and> q \<in> set (p_requests s)
    \<and> p_selected s' = Some q \<and> p_lastSelected s' = pos q
    \<and> (\<forall>r\<in>set (p_requests s). pos r \<noteq> p_lastSelected s \<longrightarrow> pos q \<noteq> p_lastSelected s
         \<and> cyclic_distance sz (p_lastSelected s) (pos q) \<le> cyclic_distance sz (p_lastSelected s) (pos r))"
proof -
  let ?l = "p_lastSelected s" and ?d = "\<lambda>i. cyclic_distance sz (p_lastSelected s) (pos i)"
  have less: "pos q < sz" if "q \<in> set (p_requests s)" for q
    using that sub by (auto simp: pos_def sz_def position_less)
  have cne: "p_cyclicprocesses s \<noteq> []" using ne sub by auto
  then have l: "?l < sz" using wf by (simp add: priority_cyclic_wf_def sz_def)
  have d0: "?d q = 0 \<longleftrightarrow> pos q = ?l" if "q \<in> set (p_requests s)" for q
    using cyclic_distance_0 [OF l less [OF that]] .
  consider p where "p_requests s = [p]" | x y zs where "p_requests s = x # y # zs"
    using ne by (cases "p_requests s" rule: remdups_adj.cases) auto
  then show ?thesis
  proof cases
    case 1
    then show ?thesis using less
      by (simp add: PriorityCyclicArbitrate_def Let_def finish_arbitration_def MarkBusy_def pos_def sz_def)
  next
    case 2
    let ?psz = "length (p_processes s)" and ?ppos = "position (p_processes s)"
    obtain m0 sel0 where sm0: "select_min (\<lambda>i. ?ppos i \<noteq> ?psz) ?ppos (p_requests s) (?psz, None) = (m0, sel0)"
      by fastforce
    have "?ppos q = ?psz" if "q \<in> set (p_requests s)" for q
    proof -
      have "\<not> ?ppos q < ?psz" using that sub wf by (auto simp: position_less priority_cyclic_wf_def)
      then show ?thesis using find_index_le unfolding position_def by (metis le_neq_implies_less)
    qed
    then have "\<not> m0 < ?psz" using select_min_result [OF sm0] by blast
    then have m0: "m0 = ?psz" "sel0 = None" using select_min_result [OF sm0] by auto
    obtain m sel where sm: "select_min (\<lambda>i. ?d i \<noteq> 0) ?d (p_requests s) (sz, None) = (m, sel)" by fastforce
    have xy: "x \<in> set (p_requests s)" "y \<in> set (p_requests s)" "x \<noteq> y" using 2 ne(2) by auto
    then have "pos x \<noteq> pos y" using sub position_inject unfolding pos_def by (metis subsetD)
    then obtain r where r: "r \<in> set (p_requests s)" "?d r \<noteq> 0" using d0 xy by metis
    have "?d r < sz" using l by (intro cyclic_distance_less) simp
    from select_min_least [OF r this sm] obtain q where q: "q \<in> set (p_requests s)" "?d q \<noteq> 0"
      "?d q = m" "sel = Some q" "\<forall>r\<in>set (p_requests s). ?d r \<noteq> 0 \<longrightarrow> ?d q \<le> ?d r" by auto
    define s' where "s' = MarkBusy (s\<lparr>p_selected := sel, p_lastSelected := pos q, p_requests := []\<rparr>)"
    have "PriorityCyclicArbitrate s = finish_arbitration (s\<lparr>p_selected := sel,
        p_lastSelected := (?l + m) mod sz\<rparr>)"
      using 2 sm sm0 m0 l cne unfolding pos_def sz_def
      by (simp add: PriorityCyclicArbitrate_def Let_def del: select_min.simps)
    also have "(?l + m) mod sz = pos q" using cyclic_distance_back [OF l less] q(1,3) by auto
    finally have "PriorityCyclicArbitrate s = Inr s'"
      using q(4) by (simp add: finish_arbitration_def MarkBusy_def s'_def)
    moreover have "p_requests s' = []" "p_selected s' = Some q" "p_lastSelected s' = pos q"
      using q(4) by (simp_all add: MarkBusy_def s'_def)
    moreover have "\<forall>r\<in>set (p_requests s). pos r \<noteq> ?l \<longrightarrow> pos q \<noteq> ?l \<and> ?d q \<le> ?d r"
    proof (intro ballI impI conjI)
      fix r assume r: "r \<in> set (p_requests s)" "pos r \<noteq> ?l"
      show "pos q \<noteq> ?l" using q(2) d0 [OF q(1)] by simp
      have "?d r \<noteq> 0" using r(2) d0 [OF r(1)] by simp
      from q(5) [THEN bspec, OF r(1), THEN mp, OF this] show "?d q \<le> ?d r" .
    qed
    ultimately show ?thesis using q(1) by (intro exI [of _ s'] exI [of _ q] conjI)
  qed
qed

section \<open>Write ports and structures\<close>

text \<open>
  \<open>WritePort\<close> with the members of its two derived classes: the process of a
  \<open>DedicatedWritePort\<close>, and the port and the request indices of an \<open>ArbitratedWritePort\<close>. The
  structure keeps the ports in \<open>rw_ports\<close> and its lists hold their numbers, where the code has
  addresses.
\<close>

record ('p, 'i) write_port =
  w_index :: 'i
  w_valid :: bool
  w_chosen :: bool
  w_process :: "'p option"
  w_port :: "'p simple_port"
  w_indices :: "'p \<rightharpoonup> 'i"

record ('p, 'i) rw_structure =
  rw_readPorts :: "'p simple_port list"
  rw_ports :: "('p, 'i) write_port list"
  rw_writePorts :: "nat list"
  rw_arbitratedWritePorts :: "nat list"
  rw_priorities :: "nat list"

definition SetRequestIndex :: "'i \<Rightarrow> ('p, 'i) write_port \<Rightarrow> ('p, 'i) write_port res" where
  "SetRequestIndex i w = assert_that (\<not> w_valid w)
     (Inr (w\<lparr>w_index := i, w_valid := True, w_chosen := False\<rparr>))"

definition GetIndex :: "('p, 'i) write_port \<Rightarrow> 'i option" where
  "GetIndex w = (if w_valid w then Some (w_index w) else None)"

definition WritePort_Notify :: "bool \<Rightarrow> ('p, 'i) write_port \<Rightarrow> ('p, 'i) write_port" where
  "WritePort_Notify chosen w = w\<lparr>w_chosen := chosen, w_valid := False\<rparr>"

definition ArbitratedWritePort_Write :: "CyclePhase \<Rightarrow> u64 \<Rightarrow> 'p \<Rightarrow> 'i
    \<Rightarrow> ('p, 'i) write_port \<Rightarrow> (bool \<times> bool \<times> ('p, 'i) write_port) res" where
  "ArbitratedWritePort_Write ph c p i w = assert_that (CanAccess p (w_port w))
     (if ph = PHASE_ACQUIRE
      then res_bind (AddRequest p c (w_port w)) (\<lambda>port.
             Inr (True, True, w\<lparr>w_port := port, w_indices := (w_indices w)(p \<mapsto> i)\<rparr>))
      else Inr (w_chosen w \<and> HasAcquired p (w_port w), False, w))"

definition ArbitratedWritePort_Arbitrate :: "('p, 'i) write_port \<Rightarrow> ('p, 'i) write_port res" where
  "ArbitratedWritePort_Arbitrate w = res_bind (PriorityArbitrate (w_port w)) (\<lambda>port.
     let w' = w\<lparr>w_port := port\<rparr>
     in case p_selected port of
          None \<Rightarrow> Inr w'
        | Some p \<Rightarrow> (case w_indices w p of
              None \<Rightarrow> Inl AssertionFailure
            | Some i \<Rightarrow> SetRequestIndex i w'))"

definition DedicatedWritePort_Write :: "CyclePhase \<Rightarrow> 'p \<Rightarrow> 'i
    \<Rightarrow> ('p, 'i) write_port \<Rightarrow> (bool \<times> bool \<times> ('p, 'i) write_port) res" where
  "DedicatedWritePort_Write ph p i w = assert_that (w_process w = Some p)
     (if ph = PHASE_ACQUIRE
      then res_bind (SetRequestIndex i w) (\<lambda>w'. Inr (True, True, w'))
      else Inr (w_chosen w, False, w))"

definition RegisterWritePort :: "nat \<Rightarrow> ('p, 'i) rw_structure \<Rightarrow> ('p, 'i) rw_structure res" where
  "RegisterWritePort w s = assert_that (w \<notin> set (rw_writePorts s))
     (Inr (s\<lparr>rw_writePorts := rw_writePorts s @ [w]\<rparr>))"

definition RegisterArbitratedWritePort :: "nat \<Rightarrow> ('p, 'i) rw_structure \<Rightarrow> ('p, 'i) rw_structure res"
  where
  "RegisterArbitratedWritePort w s = res_bind (RegisterWritePort w s) (\<lambda>s'.
     Inr (s'\<lparr>rw_arbitratedWritePorts := rw_arbitratedWritePorts s' @ [w]\<rparr>))"

definition AddPort :: "nat \<Rightarrow> ('p, 'i) rw_structure \<Rightarrow> ('p, 'i) rw_structure res" where
  "AddPort w s = assert_that (w \<in> set (rw_writePorts s)) (assert_that (w \<notin> set (rw_priorities s))
     (Inr (s\<lparr>rw_priorities := rw_priorities s @ [w]\<rparr>)))"

fun ArbitrateReadPorts :: "'p simple_port list \<Rightarrow> 'p simple_port list res" where
  "ArbitrateReadPorts [] = Inr []"
| "ArbitrateReadPorts (p # ps) = res_bind (PriorityArbitrate p) (\<lambda>p'.
     res_bind (ArbitrateReadPorts ps) (\<lambda>ps'. Inr (p' # ps')))"

fun ArbitrateWritePorts :: "nat list \<Rightarrow> ('p, 'i) write_port list \<Rightarrow> ('p, 'i) write_port list res" where
  "ArbitrateWritePorts [] ws = Inr ws"
| "ArbitrateWritePorts (w # is) ws = res_bind (ArbitratedWritePort_Arbitrate (ws ! w)) (\<lambda>w'.
     ArbitrateWritePorts is (ws[w := w']))"

text \<open>The ports that want the index \<open>i\<close>, in registration order: \<open>requests[i]\<close>.\<close>

definition requests_for :: "('p, 'i) write_port list \<Rightarrow> nat list \<Rightarrow> 'i \<Rightarrow> nat list" where
  "requests_for ws is i = filter (\<lambda>w. GetIndex (ws ! w) = Some i) is"

text \<open>The keys of the map \<open>requests\<close>, in the order of a \<open>std::map\<close>.\<close>

definition requested_indices :: "('p, 'i::linorder) write_port list \<Rightarrow> nat list \<Rightarrow> 'i list" where
  "requested_indices ws is = sort (remdups (List.map_filter (\<lambda>w. GetIndex (ws ! w)) is))"

definition select_write_port :: "nat list \<Rightarrow> nat list \<Rightarrow> nat option" where
  "select_write_port prios req =
     snd (select_min (\<lambda>_. True) (position prios) req (length prios, None))"

definition notify_ports :: "nat option \<Rightarrow> nat list \<Rightarrow> ('p, 'i) write_port list \<Rightarrow> ('p, 'i) write_port list"
  where
  "notify_ports sel req ws =
     fold (\<lambda>w ws. ws[w := WritePort_Notify (sel = Some w) (ws ! w)]) req ws"

definition OnArbitrate :: "('p, 'i::linorder) rw_structure \<Rightarrow> ('p, 'i) rw_structure res" where
  "OnArbitrate s = res_bind (ArbitrateReadPorts (rw_readPorts s)) (\<lambda>rps.
     res_bind (ArbitrateWritePorts (rw_arbitratedWritePorts s) (rw_ports s)) (\<lambda>ws.
       let groups = map (requests_for ws (rw_writePorts s)) (requested_indices ws (rw_writePorts s))
       in Inr (s\<lparr>rw_readPorts := rps,
            rw_ports := fold (\<lambda>req. notify_ports (select_write_port (rw_priorities s) req) req)
                          groups ws\<rparr>)))"

section \<open>One writer per index\<close>

definition rw_wf :: "('p, 'i) rw_structure \<Rightarrow> bool" where
  "rw_wf s \<longleftrightarrow> distinct (rw_writePorts s)
     \<and> (\<forall>w\<in>set (rw_writePorts s). w < length (rw_ports s) \<and> w \<in> set (rw_priorities s))"

lemma ArbitrateWritePorts_length: "ArbitrateWritePorts is ws = Inr ws' \<Longrightarrow> length ws' = length ws"
  by (induction "is" ws rule: ArbitrateWritePorts.induct) (auto simp: res_bind_Inr)

lemma notify_ports_nth:
  "distinct req \<Longrightarrow> w < length ws \<Longrightarrow>
   notify_ports sel req ws ! w
     = (if w \<in> set req then WritePort_Notify (sel = Some w) (ws ! w) else ws ! w)"
proof (induction req arbitrary: ws)
  case (Cons a req)
  have "notify_ports sel (a # req) ws ! w
      = notify_ports sel req (ws[a := WritePort_Notify (sel = Some a) (ws ! a)]) ! w"
    by (simp add: notify_ports_def)
  with Cons show ?case by (cases "a = w") auto
qed (simp add: notify_ports_def)

lemma notify_ports_length [simp]: "length (notify_ports sel req ws) = length ws"
  unfolding notify_ports_def by (induction req arbitrary: ws) auto

lemma requests_for_member:
  "w \<in> set (requests_for ws is i) \<longleftrightarrow> w \<in> set is \<and> GetIndex (ws ! w) = Some i"
  by (auto simp: requests_for_def)

lemma requests_for_distinct: "distinct is \<Longrightarrow> distinct (requests_for ws is i)"
  by (simp add: requests_for_def)

lemma requested_indices_member:
  "i \<in> set (requested_indices ws is) \<longleftrightarrow> (\<exists>w\<in>set is. GetIndex (ws ! w) = Some i)"
  by (auto simp: requested_indices_def List.map_filter_def) force

lemma notify_groups_nth:
  assumes "distinct wp" and "distinct is" and "w < length ws" and "length ws = length ws0"
  shows "fold (\<lambda>req. notify_ports (sel req) req) (map (requests_for ws0 wp) is) ws ! w
    = (case GetIndex (ws0 ! w) of
         Some i \<Rightarrow> if i \<in> set is \<and> w \<in> set wp
           then WritePort_Notify (sel (requests_for ws0 wp i) = Some w) (ws ! w) else ws ! w
       | None \<Rightarrow> ws ! w)"
  using assms(2-)
proof (induction "is" arbitrary: ws)
  case Nil
  then show ?case by (simp split: option.split)
next
  case (Cons i "is")
  let ?ws = "notify_ports (sel (requests_for ws0 wp i)) (requests_for ws0 wp i) ws"
  have nth: "?ws ! w = (if w \<in> set wp \<and> GetIndex (ws0 ! w) = Some i
      then WritePort_Notify (sel (requests_for ws0 wp i) = Some w) (ws ! w) else ws ! w)"
    using notify_ports_nth [OF requests_for_distinct [OF assms(1)], of w ws "sel (requests_for ws0 wp i)" ws0 i]
      Cons.prems(2) by (simp add: requests_for_member)
  show ?case
    using Cons.IH [of ?ws] Cons.prems nth by (auto split: option.split)
qed

lemma select_write_port_least:
  assumes "req \<noteq> []" and "set req \<subseteq> set prios"
  shows "\<exists>w\<in>set req. select_write_port prios req = Some w
    \<and> (\<forall>v\<in>set req. position prios w \<le> position prios v)"
proof -
  obtain m sel where sm: "select_min (\<lambda>_. True) (position prios) req (length prios, None) = (m, sel)"
    by fastforce
  have "hd req \<in> set req" "position prios (hd req) < length prios"
    using assms by (auto simp: position_less)
  from select_min_least [OF this(1) _ this(2) sm] show ?thesis
    using sm by (auto simp: select_write_port_def)
qed

lemma OnArbitrate_ports:
  assumes wf: "rw_wf s"
    and A: "ArbitrateWritePorts (rw_arbitratedWritePorts s) (rw_ports s) = Inr ws"
    and s': "OnArbitrate s = Inr s'" and w: "w \<in> set (rw_writePorts s)"
  shows "rw_ports s' ! w = (case GetIndex (ws ! w) of
      Some i \<Rightarrow> WritePort_Notify
        (select_write_port (rw_priorities s) (requests_for ws (rw_writePorts s) i) = Some w) (ws ! w)
    | None \<Rightarrow> ws ! w)"
proof -
  let ?is = "requested_indices ws (rw_writePorts s)"
  have ports: "rw_ports s' = fold (\<lambda>req. notify_ports (select_write_port (rw_priorities s) req) req)
      (map (requests_for ws (rw_writePorts s)) ?is) ws"
    using s' A by (auto simp: OnArbitrate_def res_bind_Inr Let_def)
  have "w < length ws" using wf w ArbitrateWritePorts_length [OF A] by (simp add: rw_wf_def)
  moreover have "distinct ?is" by (simp add: requested_indices_def)
  ultimately show ?thesis
    unfolding ports using wf w requested_indices_member [of _ ws "rw_writePorts s"]
    by (subst notify_groups_nth) (auto simp: rw_wf_def split: option.split)
qed

section \<open>Properties\<close>

text \<open>
  C10. Round robin starves nobody: a process that keeps requesting a cyclic port is selected in
  one of any \<open>n\<close> successive arbitrations, \<open>n\<close> the number of processes of the port, whatever
  the others request.
\<close>

theorem cyclic_port_no_starvation:
  assumes "cyclic_wf s" and "p \<in> set (p_processes s)"
    and "\<forall>(c, rs)\<in>set rss. set rs \<subseteq> set (p_processes s) \<and> distinct rs \<and> p \<in> set rs"
    and "length (p_processes s) \<le> length rss"
  shows "\<exists>os s'. cyclic_rounds rss s = Inr (os, s') \<and> Some p \<in> set os"
proof -
  have "\<forall>(c, rs)\<in>set rss. set rs \<subseteq> set (p_processes s) \<and> distinct rs" using assms(3) by auto
  from cyc.rounds_total [OF assms(1) this] obtain os s' where
    r: "cyc.rounds rss s = Inr (os, s')" by auto
  have "cyclic_rank s p \<le> length rss"
    using cyclic_rank_bound [OF assms(1)] assms(4) order_trans by blast
  from cyc.served_within_rank [OF assms(1,3) this assms(2) r] r show ?thesis
    by (simp add: cyclic_rounds_eq)
qed

definition cyclic_example :: "nat cyclic_port" where
  "cyclic_example = \<lparr>p_selected = None, p_busyCycles = 0, p_processes = [10, 11, 12],
     p_requests = [], p_lastrequest = 0, p_lastSelected = 1\<rparr>"

theorem cyclic_port_no_starvation_witness:
  "\<exists>os s'. cyclic_rounds [(1, [11, 12]), (2, [10, 12, 11]), (3, [11, 12])] cyclic_example = Inr (os, s')
     \<and> Some 11 \<in> set os"
  by (rule cyclic_port_no_starvation) (auto simp: cyclic_example_def cyclic_wf_def port_wf_def)

text \<open>
  C11. A priority port grants exactly one of the processes that requested, the one registered
  earliest, and nobody when there is no request.
\<close>

theorem priority_port_grants_first:
  assumes "port_wf s" and "set rs \<subseteq> set (p_processes s)" and "distinct rs"
  shows "\<exists>s'. priority_round c rs s = Inr s'
    \<and> {p. HasAcquired p s'} = {p \<in> set rs. \<forall>q\<in>set rs. position (p_processes s) p \<le> position (p_processes s) q}
    \<and> card {p. HasAcquired p s'} = of_bool (rs \<noteq> [])"
proof -
  obtain s' where s': "priority_round c rs s = Inr s'" "rs = [] \<longrightarrow> p_selected s' = None"
      "rs \<noteq> [] \<longrightarrow> (\<exists>p\<in>set rs. p_selected s' = Some p
          \<and> (\<forall>q\<in>set rs. position (p_processes s) p \<le> position (p_processes s) q))"
    using priority_round_ok [OF assms, of c] by blast
  have "{p. HasAcquired p s'} = {p \<in> set rs. \<forall>q\<in>set rs. position (p_processes s) p \<le> position (p_processes s) q}"
  proof (cases "rs = []")
    case False
    then obtain p where p: "p \<in> set rs" "p_selected s' = Some p"
        "\<forall>q\<in>set rs. position (p_processes s) p \<le> position (p_processes s) q" using s'(3) by blast
    have "q = p" if "q \<in> set rs" "\<forall>r\<in>set rs. position (p_processes s) q \<le> position (p_processes s) r" for q
    proof (rule position_inject)
      show "q \<in> set (p_processes s)" "p \<in> set (p_processes s)" using that(1) p(1) assms(2) by blast+
      show "position (p_processes s) q = position (p_processes s) p"
        using that p by (meson order_antisym)
    qed
    then have "{p \<in> set rs. \<forall>q\<in>set rs. position (p_processes s) p \<le> position (p_processes s) q} = {p}"
      using p(1,3) by blast
    then show ?thesis using p(2) by (simp add: HasAcquired_def)
  qed (use s'(2) in \<open>simp add: HasAcquired_def\<close>)
  moreover have "card {p. HasAcquired p s'} = of_bool (rs \<noteq> [])"
    using prio.round_grants [OF assms s'(1)] by (simp add: prio.granted_def HasAcquired_def)
  ultimately show ?thesis using s'(1) by blast
qed

theorem priority_port_grants_first_witness:
  "\<exists>s'. priority_round 4 [7, 5] \<lparr>p_selected = None, p_busyCycles = 0, p_processes = [3, 5, 7],
      p_requests = [], p_lastrequest = 0\<rparr> = Inr s' \<and> {p. HasAcquired p s'} = {5::nat}"
proof -
  have "port_wf \<lparr>p_selected = None, p_busyCycles = 0, p_processes = [3, 5, 7::nat],
      p_requests = [], p_lastrequest = 0\<rparr>" by (simp add: port_wf_def)
  from priority_port_grants_first [OF this, of "[7, 5]" 4]
  obtain s' where s': "priority_round 4 [7, 5] \<lparr>p_selected = None, p_busyCycles = 0,
      p_processes = [3, 5, 7], p_requests = [], p_lastrequest = 0\<rparr> = Inr s'"
    "{p. HasAcquired p s'} =
      {p \<in> set [7, 5]. \<forall>q\<in>set [7, 5::nat]. position [3, 5, 7::nat] p \<le> position [3, 5, 7] q}"
    by auto
  have "position [3, 5, 7::nat] 7 = 2" "position [3, 5, 7::nat] 5 = 1"
    by (simp_all add: position_def)
  then have "{p \<in> set [7, 5]. \<forall>q\<in>set [7, 5::nat]. position [3, 5, 7::nat] p \<le> position [3, 5, 7] q} = {5}"
    by auto
  with s' show ?thesis by auto
qed

text \<open>
  A combined port prefers its priority processes: when one of them requests, the earliest
  registered of those that do is selected and the turn of the cyclic processes does not move;
  when only cyclic processes request, the one selected is nearest after the last selected, which
  is taken again only if it is alone.
\<close>

theorem priority_cyclic_port_selects:
  assumes "priority_cyclic_wf s" and "p_requests s \<noteq> []" and "distinct (p_requests s)"
    and "set (p_requests s) \<subseteq> set (p_processes s) \<union> set (p_cyclicprocesses s)"
  shows "\<exists>s' q. PriorityCyclicArbitrate s = Inr s' \<and> p_requests s' = [] \<and> HasAcquired q s'
    \<and> q \<in> set (p_requests s)
    \<and> (if set (p_requests s) \<inter> set (p_processes s) \<noteq> {}
       then q \<in> set (p_processes s) \<and> p_lastSelected s' = p_lastSelected s
       else p_lastSelected s' = position (p_cyclicprocesses s) q
         \<and> (\<forall>r\<in>set (p_requests s). position (p_cyclicprocesses s) r \<noteq> p_lastSelected s \<longrightarrow>
              cyclic_distance (length (p_cyclicprocesses s)) (p_lastSelected s)
                (position (p_cyclicprocesses s) q)
              \<le> cyclic_distance (length (p_cyclicprocesses s)) (p_lastSelected s)
                (position (p_cyclicprocesses s) r)))"
proof (cases "set (p_requests s) \<inter> set (p_processes s) = {}")
  case False
  then obtain p where "p \<in> set (p_requests s)" "p \<in> set (p_processes s)" by blast
  from PriorityCyclicArbitrate_priority [OF assms(1) this] False show ?thesis
    by (auto simp: HasAcquired_def)
next
  case True
  then have "set (p_requests s) \<subseteq> set (p_cyclicprocesses s)" using assms(4) by blast
  from PriorityCyclicArbitrate_cyclic [OF assms(1-3) this] True show ?thesis
    unfolding HasAcquired_def by (metis (mono_tags, lifting))
qed

theorem priority_cyclic_port_selects_witness:
  "\<exists>s' q. PriorityCyclicArbitrate \<lparr>p_selected = None, p_busyCycles = 0, p_processes = [1],
      p_requests = [22, 20], p_lastrequest = 0, p_lastSelected = 2, p_cyclicprocesses = [20, 21, 22::nat]\<rparr>
      = Inr s' \<and> HasAcquired q s' \<and> q \<in> {20, 22}"
proof -
  have "priority_cyclic_wf \<lparr>p_selected = None, p_busyCycles = 0, p_processes = [1],
      p_requests = [22, 20], p_lastrequest = 0, p_lastSelected = 2, p_cyclicprocesses = [20, 21, 22::nat]\<rparr>"
    by (simp add: priority_cyclic_wf_def)
  from priority_cyclic_port_selects [OF this] show ?thesis by auto
qed

text \<open>
  C12. A structure lets one writer at an index: after its arbitration, of the write ports that
  asked for an index exactly one is chosen, the earliest in the priority list, and no port has
  its request pending any more.
\<close>

theorem write_ports_exclusive:
  assumes wf: "rw_wf s"
    and A: "ArbitrateWritePorts (rw_arbitratedWritePorts s) (rw_ports s) = Inr ws"
    and s': "OnArbitrate s = Inr s'" and ne: "requests_for ws (rw_writePorts s) i \<noteq> []"
  shows "\<exists>w\<in>set (requests_for ws (rw_writePorts s) i).
      {v \<in> set (requests_for ws (rw_writePorts s) i). w_chosen (rw_ports s' ! v)} = {w}
      \<and> (\<forall>v\<in>set (requests_for ws (rw_writePorts s) i).
           position (rw_priorities s) w \<le> position (rw_priorities s) v
           \<and> GetIndex (rw_ports s' ! v) = None)"
proof -
  let ?req = "requests_for ws (rw_writePorts s) i"
  have "set ?req \<subseteq> set (rw_priorities s)" using wf by (auto simp: requests_for_def rw_wf_def)
  from select_write_port_least [OF ne this] obtain w where w: "w \<in> set ?req"
    "select_write_port (rw_priorities s) ?req = Some w"
    "\<forall>v\<in>set ?req. position (rw_priorities s) w \<le> position (rw_priorities s) v" by blast
  have v: "rw_ports s' ! v = WritePort_Notify (w = v) (ws ! v)" if "v \<in> set ?req" for v
  proof -
    have "v \<in> set (rw_writePorts s)" "GetIndex (ws ! v) = Some i"
      using that by (simp_all add: requests_for_member)
    from OnArbitrate_ports [OF wf A s' this(1)] this(2) w(2) show ?thesis by simp
  qed
  show ?thesis using w(1,3) by (intro bexI [of _ w]) (auto simp: v WritePort_Notify_def GetIndex_def)
qed

definition rw_example :: "(nat, nat) rw_structure" where
  "rw_example =
     (let d = \<lambda>p i v. \<lparr>w_index = i, w_valid = v, w_chosen = False, w_process = Some p,
                 w_port = simple_port_init, w_indices = Map.empty\<rparr>
      in \<lparr>rw_readPorts = [], rw_ports = [d 1 9 True, d 2 9 True, d 3 4 True],
          rw_writePorts = [0, 1, 2], rw_arbitratedWritePorts = [], rw_priorities = [2, 1, 0]\<rparr>)"

theorem write_ports_exclusive_witness:
  "\<exists>s' w. OnArbitrate rw_example = Inr s' \<and> w \<in> {0, 1} \<and> {v \<in> {0, 1}. w_chosen (rw_ports s' ! v)} = {w}"
proof -
  have wf: "rw_wf rw_example" by (auto simp: rw_wf_def rw_example_def Let_def)
  have "rw_readPorts rw_example = []" "rw_arbitratedWritePorts rw_example = []"
    by (simp_all add: rw_example_def Let_def)
  then have A: "ArbitrateWritePorts (rw_arbitratedWritePorts rw_example) (rw_ports rw_example)
      = Inr (rw_ports rw_example)"
    and "\<exists>s'. OnArbitrate rw_example = Inr s'"
    by (simp_all add: OnArbitrate_def Let_def)
  then obtain s' where s': "OnArbitrate rw_example = Inr s'" by blast
  have req: "requests_for (rw_ports rw_example) (rw_writePorts rw_example) 9 = [0, 1]"
    by (simp add: requests_for_def rw_example_def Let_def GetIndex_def)
  then have ne: "requests_for (rw_ports rw_example) (rw_writePorts rw_example) 9 \<noteq> []" by simp
  obtain w where "w \<in> set [0, 1]" "{v \<in> set [0, 1]. w_chosen (rw_ports s' ! v)} = {w}"
    using write_ports_exclusive [OF wf A s' ne] unfolding req by blast
  with s' show ?thesis by (intro exI [of _ s'] exI [of _ w]) simp
qed

text \<open>The check of \<open>AddRequest\<close> against a second request in one cycle uses the cycle of the last
  request of any process, so it also trips on a process that asked in an earlier cycle.\<close>

lemma AddRequest_spurious_assertion:
  "add_requests 1 [a] (simple_port_init\<lparr>p_processes := [a, b]\<rparr>) = Inr s1 \<Longrightarrow> a \<noteq> b \<Longrightarrow>
   add_requests 2 [b] s1 = Inr s2 \<Longrightarrow> add_requests 2 [a] s2 = Inl AssertionFailure"
  by (auto simp: AddRequest_def simple_port_init_def)

end
