(* ===== verification/Core_Base.thy ===== *)
theory Core_Base
  imports Storages Linked_List Arbitration DRISC_Identifiers Register_File
begin

text \<open>
  What the components of a core share: the invalid identifiers and the enumerations of arch/simtypes.h,
  the processes of a core, what a process sees of the kernel while it runs, and the messages
  that travel between cores (arch/drisc/Network.p.h). The kernel's queue of arbitration requests is
  modelled with the kernel, so the flag by which a service asks for arbitration is dropped here.
\<close>

section \<open>Identifiers\<close>

definition INVALID_PID :: u32 where
  "INVALID_PID = -1"

definition INVALID_CID :: nat where
  "INVALID_CID = 2 ^ 32 - 1"

definition INVALID_REG_INDEX :: u32 where
  "INVALID_REG_INDEX = -1"

definition MAKE_REGADDR :: "RegType \<Rightarrow> u32 \<Rightarrow> RegAddr" where
  "MAKE_REGADDR t i = \<lparr>ra_type = t, ra_index = unat i\<rparr>"

definition INVALID_REG :: RegAddr where
  "INVALID_REG = MAKE_REGADDR RT_INTEGER INVALID_REG_INDEX"

datatype AllocationType = ALLOCATE_NORMAL | ALLOCATE_EXACT | ALLOCATE_BALANCED | ALLOCATE_SINGLE

datatype FamilyProperty = FAMPROP_START | FAMPROP_LIMIT | FAMPROP_STEP | FAMPROP_BLOCK

datatype RemoteRegType =
  RRT_RAW | RRT_GLOBAL | RRT_FIRST_DEPENDENT | RRT_LAST_SHARED | RRT_DETACH | RRT_BRK

datatype RegClass = RC_GLOBAL | RC_SHARED | RC_LOCAL | RC_DEPENDENT | RC_RAZ

record RegsNo =
  rn_globals :: u8
  rn_shareds :: u8
  rn_locals :: u8

record FamilyRegInfo =
  fri_count :: RegsNo
  fri_base :: u32
  fri_size :: u32
  fri_last_shareds :: u32

record ThreadRegInfo =
  tri_locals :: u32
  tri_dependents :: u32
  tri_shareds :: u32

text \<open>The types of registers, in the order of their numbers.\<close>

definition REG_TYPES :: "RegType list" where
  "REG_TYPES = [RT_INTEGER, RT_FLOAT]"

section \<open>Processes\<close>

text \<open>The processes that a core meets. All but the following are its own: the delegation output of the
  core with a number, the transfers from the previous core over the link and from the next core with
  responses, and the ones of the floating-point unit and of the input and output.\<close>

datatype core_process =
    p_Pipeline | p_ThreadAllocate | p_FamilyAllocate | p_FamilyCreate | p_ThreadActivation | p_BundleCreate
  | p_ICacheOutgoing | p_ICacheIncoming
  | p_ReadResponses | p_LookupResponses | p_ReadWritebacks | p_WriteResponses | p_DCacheOutgoing
  | p_DelegationIn | p_Link | p_AllocResponse | p_Syncs
  | p_DelegationOut nat | p_LinkTransfer | p_ResponseTransfer
  | p_FPU | p_IncomingNotifications | p_IncomingReadResponses
  | p_Elsewhere nat

text \<open>The phase, the cycle counter and the active process of the kernel, and whether the active
  clock is the clock of the core.\<close>

record env =
  en_phase :: CyclePhase
  en_cycle :: u64
  en_clk :: bool
  en_process :: core_process

type_synonym service = "core_process simple_port"

definition service_Invoke :: "env \<Rightarrow> service \<Rightarrow> (bool \<times> service) res" where
  "service_Invoke e s = res_bind (Invoke (CanAccess (en_process e)) (en_phase e) (en_cycle e) (en_process e) s)
     (\<lambda>(ok, _, s). Inr (ok, s))"

section \<open>Messages\<close>

text \<open>The delegation messages between cores. A message of the source is a union; its members are
  the arguments of the constructor.\<close>

record allocate_message =
  al_place :: PlaceID
  al_completion_pid :: u32
  al_completion_reg :: u32
  al_type :: AllocationType
  al_suspend :: bool
  al_exclusive :: bool
  al_bundle :: bool
  al_pc :: u64
  al_parameter :: u64
  al_index :: u64

record create_message =
  cm_address :: u64
  cm_fid :: FID
  cm_completion_pid :: u32
  cm_completion_reg :: u32
  cm_bundle :: bool
  cm_parameter :: u64
  cm_index :: u64

datatype RemoteMessage =
    RMSG_NONE
  | RMSG_ALLOCATE allocate_message
  | RMSG_SET_PROPERTY FID FamilyProperty u64
  | RMSG_CREATE create_message
  | RMSG_SYNC FID u32
  | RMSG_DETACH FID
  | RMSG_BREAK u32 nat
  | RMSG_RAW_REGISTER u32 RegAddr RegValue
  | RMSG_FAM_WRITE FID RemoteRegType RegAddr RegValue
  | RMSG_FAM_READ FID RemoteRegType RegAddr u32

text \<open>The messages on the links between adjacent cores.\<close>

record link_allocate =
  la_first_fid :: nat
  la_prev_fid :: nat
  la_size :: u32
  la_completion_pid :: u32
  la_completion_reg :: u32
  la_exact :: bool
  la_suspend :: bool

record link_ballocate =
  lb_min_contexts :: u32
  lb_min_pid :: u32
  lb_size :: u32
  lb_completion_pid :: u32
  lb_completion_reg :: u32
  lb_suspend :: bool

datatype LinkMessage =
    LMSG_ALLOCATE link_allocate
  | LMSG_BALLOCATE link_ballocate
  | LMSG_SET_PROPERTY nat FamilyProperty u64
  | LMSG_CREATE nat u32 u64 "RegType \<Rightarrow> RegsNo"
  | LMSG_DONE nat bool
  | LMSG_SYNC nat u32 u32
  | LMSG_DETACH nat
  | LMSG_BREAK nat
  | LMSG_GLOBAL nat RegAddr RegValue

record AllocResponse =
  ar_completion_pid :: u32
  ar_completion_reg :: u32
  ar_prev_fid :: nat
  ar_next_fid :: nat
  ar_numCores :: u32
  ar_exact :: bool

record SyncInfo =
  sy_fid :: nat
  sy_pid :: u32
  sy_reg :: u32
  sy_broken :: bool

record DelegateMessage =
  dm_src :: u32
  dm_dest :: u32
  dm_payload :: RemoteMessage

section \<open>Data of lines\<close>

text \<open>\<open>line::blit\<close> of arch/Memory.h.\<close>

definition line_blit :: "u8 list \<Rightarrow> u8 list \<Rightarrow> bool list \<Rightarrow> nat \<Rightarrow> u8 list" where
  "line_blit dst src msk sz = fold (\<lambda>i dst. if msk ! i then dst[i := src ! i] else dst) [0..<sz] dst"

end
