(* ===== verification/Bank_Selector.thy ===== *)
theory Bank_Selector
  imports Log2
begin

text \<open>
  The bank selectors (arch/BankSelector.h, arch/BankSelector.cpp) map the address of a cache line
  to a tag and a bank, and back. Addresses are 64 bits wide, as on the Alpha target, and so are
  the sizes. The interface \<open>bank_mapping\<close> is the promise of \<open>IBankSelector\<close> to the memories; every
  selector provides it, and so does whatever \<open>makeSelector\<close> returns.
\<close>

section \<open>The contract\<close>

text \<open>The mapping of a selector \<open>s\<close> that meets \<open>wf\<close>: it returns, names a bank below the number of
  banks, and nothing is lost.\<close>

locale bank_mapping =
  fixes wf :: "'s \<Rightarrow> bool"
    and banks :: "'s \<Rightarrow> u64"
    and map_addr :: "'s \<Rightarrow> u64 \<Rightarrow> (u64 \<times> u64) option"
    and unmap :: "'s \<Rightarrow> u64 \<Rightarrow> u64 \<Rightarrow> u64"
  assumes map_law: "wf s \<Longrightarrow> \<exists>t i. map_addr s a = Some (t, i) \<and> i < banks s \<and> unmap s t i = a"
begin

text \<open>No two addresses share tag and bank.\<close>

lemma map_inject: "wf s \<Longrightarrow> map_addr s a = map_addr s b \<Longrightarrow> a = b"
  using map_law [of s a] map_law [of s b] by auto

text \<open>The lines of a set of addresses, spread over the banks, are as many as the addresses.\<close>

lemma map_card: "wf s \<Longrightarrow> finite A \<Longrightarrow> card (map_addr s ` A) = card A"
  by (rule card_image) (auto intro: inj_onI map_inject)

end

section \<open>The selectors\<close>

definition ZeroSelector_Map :: "u64 \<Rightarrow> u64 \<Rightarrow> (u64 \<times> u64) option" where
  "ZeroSelector_Map numBanks address = Some (address, 0)"

definition ZeroSelector_Unmap :: "u64 \<Rightarrow> u64 \<Rightarrow> u64 \<Rightarrow> u64" where
  "ZeroSelector_Unmap numBanks tag index = tag"

definition DirectSelector_Map :: "u64 \<Rightarrow> u64 \<Rightarrow> (u64 \<times> u64) option" where
  "DirectSelector_Map numBanks address = Some (address div numBanks, address mod numBanks)"

definition DirectSelector_Unmap :: "u64 \<Rightarrow> u64 \<Rightarrow> u64 \<Rightarrow> u64" where
  "DirectSelector_Unmap numBanks tag index = tag * numBanks + index"

text \<open>The selector with shifts keeps the mask and the shift it computed.\<close>

record direct_selector_binary =
  ds_numBanks :: u64
  ds_bankmask :: u64
  ds_bankshift :: nat

definition DirectSelectorBinary_new :: "u64 \<Rightarrow> direct_selector_binary option" where
  "DirectSelectorBinary_new numBanks = map_option (\<lambda>shift.
     \<lparr>ds_numBanks = numBanks, ds_bankmask = numBanks - 1, ds_bankshift = shift\<rparr>) (ilog2 numBanks)"

definition DirectSelectorBinary_Map :: "direct_selector_binary \<Rightarrow> u64 \<Rightarrow> (u64 \<times> u64) option" where
  "DirectSelectorBinary_Map s address =
     Some (drop_bit (ds_bankshift s) address, address AND ds_bankmask s)"

definition DirectSelectorBinary_Unmap :: "direct_selector_binary \<Rightarrow> u64 \<Rightarrow> u64 \<Rightarrow> u64" where
  "DirectSelectorBinary_Unmap s tag index = push_bit (ds_bankshift s) tag OR index"

definition rotation_mix :: "nat \<Rightarrow> u64 \<Rightarrow> u64" where
  "rotation_mix n a = a XOR (drop_bit n a OR push_bit (64 - n) a)"

definition RotationMix4_Map :: "u64 \<Rightarrow> u64 \<Rightarrow> (u64 \<times> u64) option" where
  "RotationMix4_Map numBanks address = Some (address,
     rotation_mix 4 (rotation_mix 8 (rotation_mix 16 (rotation_mix 32 address))) mod numBanks)"

definition RightXOR_Map :: "u64 \<Rightarrow> u64 \<Rightarrow> (u64 \<times> u64) option" where
  "RightXOR_Map numBanks address =
     Some (address, (address XOR (address div numBanks)) mod numBanks)"

definition RightAdd_Map :: "u64 \<Rightarrow> u64 \<Rightarrow> (u64 \<times> u64) option" where
  "RightAdd_Map numBanks address =
     Some (address, (address + address div numBanks) mod numBanks)"

text \<open>The folding loops; with one bank they would not end.\<close>

partial_function (option) fold_loop :: "(u64 \<Rightarrow> u64 \<Rightarrow> u64) \<Rightarrow> u64 \<Rightarrow> u64 \<Rightarrow> u64 \<Rightarrow> u64 option" where
  "fold_loop f numBanks address result =
     (let result' = f result address; address' = address div numBanks
      in if numBanks < address' then fold_loop f numBanks address' result' else Some result')"

definition XORFold_Map :: "u64 \<Rightarrow> u64 \<Rightarrow> (u64 \<times> u64) option" where
  "XORFold_Map numBanks address = map_option (\<lambda>r. (address, r mod numBanks))
     (fold_loop (\<lambda>r a. r XOR a) numBanks address 0)"

definition AddFold_Map :: "u64 \<Rightarrow> u64 \<Rightarrow> (u64 \<times> u64) option" where
  "AddFold_Map numBanks address = map_option (\<lambda>r. (address, r mod numBanks))
     (fold_loop (\<lambda>r a. r + a) numBanks address 0)"

text \<open>The other selectors keep the whole address as tag.\<close>

definition tag_Unmap :: "u64 \<Rightarrow> u64 \<Rightarrow> u64 \<Rightarrow> u64" where
  "tag_Unmap numBanks tag index = tag"

text \<open>The objects of the interface, and the factory; an unknown name is an exception.\<close>

datatype bank_selector =
    ZeroSelector u64
  | DirectSelector u64
  | DirectSelectorBinary direct_selector_binary
  | RotationMix4 u64
  | RightXOR u64
  | RightAdd u64
  | XORFold u64
  | AddFold u64

fun selector_Map :: "bank_selector \<Rightarrow> u64 \<Rightarrow> (u64 \<times> u64) option" where
  "selector_Map (ZeroSelector n) a = ZeroSelector_Map n a"
| "selector_Map (DirectSelector n) a = DirectSelector_Map n a"
| "selector_Map (DirectSelectorBinary s) a = DirectSelectorBinary_Map s a"
| "selector_Map (RotationMix4 n) a = RotationMix4_Map n a"
| "selector_Map (RightXOR n) a = RightXOR_Map n a"
| "selector_Map (RightAdd n) a = RightAdd_Map n a"
| "selector_Map (XORFold n) a = XORFold_Map n a"
| "selector_Map (AddFold n) a = AddFold_Map n a"

fun selector_Unmap :: "bank_selector \<Rightarrow> u64 \<Rightarrow> u64 \<Rightarrow> u64" where
  "selector_Unmap (ZeroSelector n) t i = ZeroSelector_Unmap n t i"
| "selector_Unmap (DirectSelector n) t i = DirectSelector_Unmap n t i"
| "selector_Unmap (DirectSelectorBinary s) t i = DirectSelectorBinary_Unmap s t i"
| "selector_Unmap (RotationMix4 n) t i = tag_Unmap n t i"
| "selector_Unmap (RightXOR n) t i = tag_Unmap n t i"
| "selector_Unmap (RightAdd n) t i = tag_Unmap n t i"
| "selector_Unmap (XORFold n) t i = tag_Unmap n t i"
| "selector_Unmap (AddFold n) t i = tag_Unmap n t i"

fun selector_GetNumBanks :: "bank_selector \<Rightarrow> u64" where
  "selector_GetNumBanks (ZeroSelector n) = n"
| "selector_GetNumBanks (DirectSelector n) = n"
| "selector_GetNumBanks (DirectSelectorBinary s) = ds_numBanks s"
| "selector_GetNumBanks (RotationMix4 n) = n"
| "selector_GetNumBanks (RightXOR n) = n"
| "selector_GetNumBanks (RightAdd n) = n"
| "selector_GetNumBanks (XORFold n) = n"
| "selector_GetNumBanks (AddFold n) = n"

definition makeSelector :: "string \<Rightarrow> u64 \<Rightarrow> bank_selector res option" where
  "makeSelector name numBanks =
     (if numBanks = 1 \<or> name = ''ZERO'' then Some (Inr (ZeroSelector numBanks))
      else if name = ''DIRECT'' then
        (if IsPowerOfTwo numBanks
         then map_option (\<lambda>s. Inr (DirectSelectorBinary s)) (DirectSelectorBinary_new numBanks)
         else Some (Inr (DirectSelector numBanks)))
      else if name = ''RMIX'' then Some (Inr (RotationMix4 numBanks))
      else if name = ''XORFOLD'' then Some (Inr (XORFold numBanks))
      else if name = ''ADDFOLD'' then Some (Inr (AddFold numBanks))
      else if name = ''XORLSB'' then Some (Inr (RightXOR numBanks))
      else if name = ''ADDLSB'' then Some (Inr (RightAdd numBanks))
      else Some (Inl InvalidArgumentException))"

section \<open>The selectors provide the contract\<close>

lemma mod_bank: "0 < n \<Longrightarrow> (a mod n :: u64) < n"
  by (simp add: word_less_nat_alt unat_mod)

interpretation zero_sel: bank_mapping "\<lambda>n. 0 < n" "\<lambda>n. n" ZeroSelector_Map ZeroSelector_Unmap
  by unfold_locales (simp add: ZeroSelector_Map_def ZeroSelector_Unmap_def)

interpretation direct_sel: bank_mapping "\<lambda>n. 0 < n" "\<lambda>n. n" DirectSelector_Map DirectSelector_Unmap
  by unfold_locales (simp add: DirectSelector_Map_def DirectSelector_Unmap_def mod_bank
    mult_div_mod_eq mult.commute)

interpretation rmix_sel: bank_mapping "\<lambda>n. 0 < n" "\<lambda>n. n" RotationMix4_Map tag_Unmap
  by unfold_locales (simp add: RotationMix4_Map_def tag_Unmap_def mod_bank)

interpretation xorlsb_sel: bank_mapping "\<lambda>n. 0 < n" "\<lambda>n. n" RightXOR_Map tag_Unmap
  by unfold_locales (simp add: RightXOR_Map_def tag_Unmap_def mod_bank)

interpretation addlsb_sel: bank_mapping "\<lambda>n. 0 < n" "\<lambda>n. n" RightAdd_Map tag_Unmap
  by unfold_locales (simp add: RightAdd_Map_def tag_Unmap_def mod_bank)

text \<open>The folding loops end when there are at least two banks.\<close>

lemma fold_loop_ends:
  assumes "1 < n"
  shows "\<exists>r. fold_loop f n a r0 = Some r"
proof (induction "unat a" arbitrary: a r0 rule: less_induct)
  case less
  show ?case
  proof (cases "n < a div n")
    case True
    have n2: "2 \<le> unat n" using assms by (simp add: word_less_nat_alt)
    have "0 < unat a"
    proof (rule ccontr)
      assume "\<not> 0 < unat a"
      then have "a = 0" by (simp add: unat_eq_0)
      then show False using True by simp
    qed
    then have "unat (a div n) < unat a" using n2 by (simp add: unat_div)
    from less [OF this] show ?thesis using True by (subst fold_loop.simps) (simp add: Let_def)
  qed (subst fold_loop.simps, simp add: Let_def)
qed

interpretation xorfold_sel: bank_mapping "\<lambda>n. 1 < n" "\<lambda>n. n" XORFold_Map tag_Unmap
proof unfold_locales
  fix n a :: u64
  assume n: "1 < n"
  then have "0 < n" by (simp add: word_less_nat_alt)
  with fold_loop_ends [OF n, of "\<lambda>r a. r XOR a" a 0]
  show "\<exists>t i. XORFold_Map n a = Some (t, i) \<and> i < n \<and> tag_Unmap n t i = a"
    by (auto simp: XORFold_Map_def tag_Unmap_def mod_bank)
qed

interpretation addfold_sel: bank_mapping "\<lambda>n. 1 < n" "\<lambda>n. n" AddFold_Map tag_Unmap
proof unfold_locales
  fix n a :: u64
  assume n: "1 < n"
  then have "0 < n" by (simp add: word_less_nat_alt)
  with fold_loop_ends [OF n, of "\<lambda>r a. r + a" a 0]
  show "\<exists>t i. AddFold_Map n a = Some (t, i) \<and> i < n \<and> tag_Unmap n t i = a"
    by (auto simp: AddFold_Map_def tag_Unmap_def mod_bank)
qed

text \<open>With shifts, for a power of two.\<close>

definition direct_binary_wf :: "direct_selector_binary \<Rightarrow> bool" where
  "direct_binary_wf s \<longleftrightarrow> ds_bankshift s < 64 \<and> ds_numBanks s = 2 ^ ds_bankshift s
     \<and> ds_bankmask s = ds_numBanks s - 1"

lemma direct_binary_direct:
  assumes "direct_binary_wf s"
  shows "DirectSelectorBinary_Map s a = DirectSelector_Map (ds_numBanks s) a"
proof -
  have "ds_bankmask s = mask (ds_bankshift s)" using assms by (simp add: direct_binary_wf_def mask_eq_exp_minus_1)
  then have "a AND ds_bankmask s = a mod 2 ^ ds_bankshift s"
    by (simp add: take_bit_eq_mask [symmetric] take_bit_eq_mod)
  then show ?thesis
    using assms by (simp add: DirectSelectorBinary_Map_def DirectSelector_Map_def direct_binary_wf_def
      drop_bit_eq_div)
qed

interpretation binary_sel: bank_mapping direct_binary_wf ds_numBanks DirectSelectorBinary_Map
    DirectSelectorBinary_Unmap
proof unfold_locales
  fix s and a :: u64
  assume wf: "direct_binary_wf s"
  have m: "ds_bankmask s = mask (ds_bankshift s)" using wf by (simp add: direct_binary_wf_def mask_eq_exp_minus_1)
  have "push_bit (ds_bankshift s) (drop_bit (ds_bankshift s) a) OR (a AND mask (ds_bankshift s)) = a"
    by (intro bit_eqI) (auto simp: bit_simps)
  then have "DirectSelectorBinary_Unmap s (drop_bit (ds_bankshift s) a) (a AND ds_bankmask s) = a"
    by (simp add: DirectSelectorBinary_Unmap_def m)
  moreover have "0 < ds_numBanks s"
    using wf by (simp add: direct_binary_wf_def word_gt_0)
  then have "a AND ds_bankmask s < ds_numBanks s"
    using direct_binary_direct [OF wf, of a] mod_bank
    by (simp add: DirectSelectorBinary_Map_def DirectSelector_Map_def)
  ultimately show "\<exists>t i. DirectSelectorBinary_Map s a = Some (t, i) \<and> i < ds_numBanks s
      \<and> DirectSelectorBinary_Unmap s t i = a"
    by (simp add: DirectSelectorBinary_Map_def)
qed

lemma DirectSelectorBinary_new_ok:
  assumes "0 < n" "IsPowerOfTwo n"
  shows "\<exists>s. DirectSelectorBinary_new n = Some s \<and> direct_binary_wf s \<and> ds_numBanks s = n"
proof -
  obtain k where k: "k < 64" "n = 2 ^ k" using IsPowerOfTwo_exp [OF assms(2,1)] by auto
  then have "ilog2 n = Some k" using ilog2_exp [of k, where 'a = 64] by simp
  then show ?thesis using k by (simp add: DirectSelectorBinary_new_def direct_binary_wf_def)
qed

fun selector_wf :: "bank_selector \<Rightarrow> bool" where
  "selector_wf (DirectSelectorBinary s) = direct_binary_wf s"
| "selector_wf (XORFold n) = (1 < n)"
| "selector_wf (AddFold n) = (1 < n)"
| "selector_wf s = (0 < selector_GetNumBanks s)"

interpretation any_sel: bank_mapping selector_wf selector_GetNumBanks selector_Map selector_Unmap
proof unfold_locales
  fix s a
  assume "selector_wf s"
  then show "\<exists>t i. selector_Map s a = Some (t, i) \<and> i < selector_GetNumBanks s \<and> selector_Unmap s t i = a"
    using zero_sel.map_law direct_sel.map_law binary_sel.map_law rmix_sel.map_law xorlsb_sel.map_law
      addlsb_sel.map_law xorfold_sel.map_law addfold_sel.map_law
    by (cases s) simp_all
qed

definition strategy_names :: "string set" where
  "strategy_names = {''ZERO'', ''DIRECT'', ''RMIX'', ''XORFOLD'', ''ADDFOLD'', ''XORLSB'', ''ADDLSB''}"

lemma makeSelector_ok:
  assumes "0 < numBanks" and "numBanks = 1 \<or> name \<in> strategy_names"
  shows "\<exists>s. makeSelector name numBanks = Some (Inr s) \<and> selector_GetNumBanks s = numBanks \<and> selector_wf s"
proof (cases "numBanks = 1 \<or> name = ''ZERO''")
  case True
  then show ?thesis using assms(1) by (auto simp: makeSelector_def)
next
  case False
  then have "1 < numBanks"
    using assms(1) by (simp add: word_less_nat_alt) (metis One_nat_def Suc_lessI unat_1 word_unat_eq_iff)
  show ?thesis
  proof (cases "name = ''DIRECT'' \<and> IsPowerOfTwo numBanks")
    case True
    then show ?thesis
      using DirectSelectorBinary_new_ok [OF assms(1)] False by (auto simp: makeSelector_def)
  next
    case nd: False
    then show ?thesis using assms False \<open>1 < numBanks\<close> by (auto simp: makeSelector_def strategy_names_def)
  qed
qed

section \<open>Properties\<close>

text \<open>
  C19. With at least one bank the factory returns a selector for the name of each of the seven
  banking strategies, and for any name when there is a single bank; the mapping of the selector ends
  for every address, names one of the banks, and tag and bank give the address back, so that no two
  lines are confused. Another name is an invalid argument when there is more than one bank.
\<close>

theorem makeSelector_bijective:
  assumes "0 < numBanks"
  shows "(numBanks = 1 \<or> name \<in> strategy_names \<longrightarrow>
      (\<exists>s. makeSelector name numBanks = Some (Inr s) \<and> selector_GetNumBanks s = numBanks
        \<and> (\<forall>a. \<exists>t i. selector_Map s a = Some (t, i) \<and> i < numBanks \<and> selector_Unmap s t i = a)
        \<and> inj (selector_Map s)))
    \<and> (numBanks \<noteq> 1 \<and> name \<notin> strategy_names \<longrightarrow> makeSelector name numBanks = Some (Inl InvalidArgumentException))"
proof (intro conjI impI)
  assume known: "numBanks = 1 \<or> name \<in> strategy_names"
  have "\<exists>s. makeSelector name numBanks = Some (Inr s) \<and> selector_GetNumBanks s = numBanks \<and> selector_wf s"
    by (rule makeSelector_ok [OF assms(1) known])
  then obtain s where s: "makeSelector name numBanks = Some (Inr s)" "selector_GetNumBanks s = numBanks"
    "selector_wf s" by blast
  have "inj (selector_Map s)" by (rule injI) (rule any_sel.map_inject [OF s(3)])
  then show "\<exists>s. makeSelector name numBanks = Some (Inr s) \<and> selector_GetNumBanks s = numBanks
      \<and> (\<forall>a. \<exists>t i. selector_Map s a = Some (t, i) \<and> i < numBanks \<and> selector_Unmap s t i = a)
      \<and> inj (selector_Map s)"
    using s any_sel.map_law [OF s(3)] by auto
qed (simp add: makeSelector_def strategy_names_def)

theorem makeSelector_bijective_witness:
  "\<exists>s. makeSelector ''XORFOLD'' 3 = Some (Inr s) \<and> selector_GetNumBanks s = 3 \<and> inj (selector_Map s)"
  using makeSelector_bijective [of 3 "''XORFOLD''"] by (auto simp: strategy_names_def)

text \<open>
  C20. For a power of two the selector with shift and mask is the selector with division and
  remainder, in both directions.
\<close>

theorem DirectSelectorBinary_equals_direct:
  assumes "0 < numBanks" and "IsPowerOfTwo numBanks"
  shows "\<exists>s. DirectSelectorBinary_new numBanks = Some s
    \<and> (\<forall>a. DirectSelectorBinary_Map s a = DirectSelector_Map numBanks a)
    \<and> (\<forall>a t i. DirectSelector_Map numBanks a = Some (t, i) \<longrightarrow>
         DirectSelectorBinary_Unmap s t i = DirectSelector_Unmap numBanks t i)"
proof -
  obtain s where s: "DirectSelectorBinary_new numBanks = Some s" "direct_binary_wf s" "ds_numBanks s = numBanks"
    using DirectSelectorBinary_new_ok [OF assms] by blast
  have eq: "DirectSelectorBinary_Map s a = DirectSelector_Map numBanks a" for a
    using direct_binary_direct [OF s(2)] s(3) by simp
  have "DirectSelectorBinary_Unmap s t i = DirectSelector_Unmap numBanks t i"
    if "DirectSelector_Map numBanks a = Some (t, i)" for a t i
    using binary_sel.map_law [OF s(2), of a] direct_sel.map_law [OF assms(1), of a] that eq by auto
  then show ?thesis using s(1) eq by blast
qed

theorem DirectSelectorBinary_equals_direct_witness:
  "\<exists>s. DirectSelectorBinary_new 8 = Some s \<and> DirectSelectorBinary_Map s 77 = Some (9, 5)"
  using DirectSelectorBinary_equals_direct [of 8]
  by (auto simp: IsPowerOfTwo_def DirectSelector_Map_def)

text \<open>The folds stop when the rest of the address equals the number of banks, so that its two
  last digits do not take part in the fold.\<close>

lemma XORFold_stops_early: "XORFold_Map 4 16 = Some (16, 0) \<and> XORFold_Map 4 20 = Some (20, 1)"
proof -
  have "fold_loop (\<lambda>r a. r XOR a) 4 16 0 = Some 16" by (subst fold_loop.simps) simp
  moreover have "fold_loop (\<lambda>r a. r XOR a) 4 20 0 = Some 17"
    by (subst fold_loop.simps, simp) (subst fold_loop.simps, simp)
  ultimately show ?thesis by (simp add: XORFold_Map_def)
qed

end
