(* ===== verification/ICache.thy ===== *)
theory ICache
  imports Core_Base Bank_Selector
begin

text \<open>
  \<open>ICache\<close> (arch/drisc/ICache.h, arch/drisc/ICache.cpp): the instruction cache of a core. A fetch
  either finds a line, or takes an empty one or the least recently used one without
  references and asks the memory for it; threads that wait for a line are linked into a list that
  starts in the line, and are given to the allocator when the line has come. The allocator and the
  memory are arguments. Each line holds its part of the data of the cache.
\<close>

datatype LineState = LINE_EMPTY | LINE_LOADING | LINE_INVALID | LINE_FULL

record icache_line =
  il_tag :: u64
  il_data :: "u8 list"
  il_access :: u64
  il_waiting :: ThreadQueue
  il_references :: u64
  il_state :: LineState
  il_creation :: bool

record ICache =
  ic_selector :: bank_selector
  ic_lines :: "icache_line list"
  ic_outgoing :: "u64 buffer"
  ic_incoming :: "nat buffer"
  ic_lineSize :: u64
  ic_assoc :: u64
  ic_numHits :: u64
  ic_numDelayedReads :: u64
  ic_numEmptyMisses :: u64
  ic_numLoadingMisses :: u64
  ic_numInvalidMisses :: u64
  ic_numHardConflicts :: u64
  ic_numResolvedConflicts :: u64
  ic_numStallingMisses :: u64
  ic_service :: service

section \<open>Construction\<close>

text \<open>The members of a line that the constructor leaves as they are, its tag, its access time and
  the tail of its queue, are those of \<open>junk\<close>.\<close>

definition icache_line_init :: "icache_line \<Rightarrow> nat \<Rightarrow> icache_line" where
  "icache_line_init junk n = junk\<lparr>il_state := LINE_EMPTY, il_data := replicate n 0, il_references := 0,
     il_waiting := (il_waiting junk)\<lparr>tq_head := INVALID_TID\<rparr>, il_creation := False\<rparr>"

definition ICache_new :: "icache_line \<Rightarrow> string \<Rightarrow> u64 \<Rightarrow> u64 \<Rightarrow> u64 \<Rightarrow> nat \<Rightarrow> nat \<Rightarrow> ICache res option" where
  "ICache_new junk sel numSets lineSize assoc outgoing incoming =
     (case makeSelector sel numSets of None \<Rightarrow> None | Some s \<Rightarrow> Some
       (res_bind s (\<lambda>s. res_bind (buffer_init outgoing 1) (\<lambda>out. res_bind (buffer_init incoming 1) (\<lambda>inc.
        if assoc = 0 \<or> \<not> IsPowerOfTwo assoc then Inl InvalidArgumentException
        else if \<not> IsPowerOfTwo (selector_GetNumBanks s) then Inl InvalidArgumentException
        else if \<not> IsPowerOfTwo lineSize then Inl InvalidArgumentException
        else if lineSize < 8 then Inl InvalidArgumentException
        else Inr \<lparr>ic_selector = s,
               ic_lines = replicate (unat (selector_GetNumBanks s * assoc)) (icache_line_init junk (unat lineSize)),
               ic_outgoing = out, ic_incoming = inc, ic_lineSize = lineSize, ic_assoc = assoc,
               ic_numHits = 0, ic_numDelayedReads = 0, ic_numEmptyMisses = 0, ic_numLoadingMisses = 0,
               ic_numInvalidMisses = 0, ic_numHardConflicts = 0, ic_numResolvedConflicts = 0,
               ic_numStallingMisses = 0, ic_service = simple_port_init\<rparr>)))))"

definition ic_IsEmpty :: "ICache \<Rightarrow> bool" where
  "ic_IsEmpty c = list_all (\<lambda>l. \<not> (il_state l \<noteq> LINE_EMPTY \<and> il_references l \<noteq> 0)) (ic_lines c)"

section \<open>Finding a line\<close>

definition ic_modify :: "nat \<Rightarrow> (icache_line \<Rightarrow> icache_line) \<Rightarrow> ICache \<Rightarrow> ICache" where
  "ic_modify i f c = c\<lparr>ic_lines := (ic_lines c)[i := f (ic_lines c ! i)]\<rparr>"

text \<open>\<open>m_selector->Map(address / m_lineSize, tag, setindex)\<close>; dividing by zero is undefined.\<close>

definition ic_Map :: "u64 \<Rightarrow> ICache \<Rightarrow> (u64 \<times> u64) res" where
  "ic_Map address c = (if ic_lineSize c = 0 then Inl UndefinedBehaviour
     else case selector_Map (ic_selector c) (address div ic_lineSize c) of
            None \<Rightarrow> Inl UndefinedBehaviour | Some r \<Rightarrow> Inr r)"

text \<open>The loop over the lines of the set: the line with the tag, or the last empty line and
  the least recently used line without references.\<close>

fun findline_loop :: "icache_line list \<Rightarrow> u64 \<Rightarrow> nat list \<Rightarrow> nat option \<Rightarrow> nat option
    \<Rightarrow> (nat + nat option \<times> nat option) res" where
  "findline_loop ls tag [] vacant replace = Inr (Inr (vacant, replace))"
| "findline_loop ls tag (i # is) vacant replace =
     (if \<not> i < length ls then Inl UndefinedBehaviour
      else if il_state (ls ! i) = LINE_EMPTY then findline_loop ls tag is (Some i) replace
      else if il_tag (ls ! i) = tag then Inr (Inl i)
      else if il_references (ls ! i) = 0
              \<and> (case replace of None \<Rightarrow> True | Some r \<Rightarrow> il_access (ls ! i) < il_access (ls ! r))
        then findline_loop ls tag is vacant (Some i)
      else findline_loop ls tag is vacant replace)"

definition FindLine :: "CyclePhase \<Rightarrow> u64 \<Rightarrow> bool \<Rightarrow> ICache \<Rightarrow> (Result \<times> nat option \<times> ICache) res" where
  "FindLine ph address check_only c =
     res_bind (ic_Map address c) (\<lambda>(tag, setindex).
     let set = unat (setindex * ic_assoc c) in
     res_bind (findline_loop (ic_lines c) tag [set..<set + unat (ic_assoc c)] None None) (\<lambda>r. case r of
         Inl i \<Rightarrow> Inr (SUCCESS, Some i, c)
       | Inr (vacant, replace) \<Rightarrow>
           (case (if vacant \<noteq> None then vacant else replace) of
              None \<Rightarrow> Inr (FAILED, None, c)
            | Some i \<Rightarrow> Inr (DELAYED, Some i,
                if check_only then c else COMMIT ph (ic_modify i (\<lambda>l. l\<lparr>il_tag := tag\<rparr>)) c))))"

section \<open>The core's side\<close>

definition ReleaseCacheLine :: "CyclePhase \<Rightarrow> nat \<Rightarrow> ICache \<Rightarrow> (bool \<times> ICache) res" where
  "ReleaseCacheLine ph cid c =
     (if cid \<noteq> INVALID_CID \<and> ph = PHASE_COMMIT
      then if \<not> cid < length (ic_lines c) then Inl UndefinedBehaviour
        else assert_that (0 < il_references (ic_lines c ! cid))
          (let refs = il_references (ic_lines c ! cid) - 1
           in Inr (True, ic_modify cid (\<lambda>l. l\<lparr>il_references := refs,
                il_state := (if refs = 0 \<and> il_state l = LINE_INVALID then LINE_EMPTY else il_state l)\<rparr>) c))
      else Inr (True, c))"

text \<open>The bytes that the caller gets in the commit phase. The second check of the source cannot fail
  for 64-bit sizes.\<close>

definition ic_Read :: "nat \<Rightarrow> u64 \<Rightarrow> u64 \<Rightarrow> ICache \<Rightarrow> u8 list res" where
  "ic_Read cid address sz c =
     res_bind (ic_Map address c) (\<lambda>(tag, unused).
     let offset = address mod ic_lineSize c in
     if ic_lineSize c < offset + sz then Inl InvalidArgumentException
     else if \<not> cid < length (ic_lines c) then Inl UndefinedBehaviour
     else let line = ic_lines c ! cid in
       if il_state line = LINE_EMPTY \<or> il_tag line \<noteq> tag then Inl InvalidArgumentException
       else assert_that (il_state line = LINE_FULL \<or> il_state line = LINE_INVALID)
         (Inr (take (unat sz) (drop (unat offset) (il_data line)))))"

text \<open>A thread is put in front of the queue of the line; the thread then continues with the old head,
  which its own link has to name.\<close>

definition ic_enqueue :: "nat \<Rightarrow> icache_line \<Rightarrow> icache_line" where
  "ic_enqueue tid l =
     (if tq_head (il_waiting l) = INVALID_TID then l\<lparr>il_waiting := \<lparr>tq_head = tid, tq_tail = tid\<rparr>\<rparr>
      else l\<lparr>il_waiting := (il_waiting l)\<lparr>tq_head := tid\<rparr>\<rparr>)"

text \<open>A fetch for a thread (\<open>Some tid\<close>) or for the creation of a family (\<open>None\<close>). The results are
  those of the function, the thread's identifier and the line's, the latter as far as it is assigned.\<close>

type_synonym fetch_result = "Result \<times> nat option \<times> nat option \<times> ICache"

definition fetch_hit :: "CyclePhase \<Rightarrow> nat option \<Rightarrow> nat \<Rightarrow> ICache \<Rightarrow> fetch_result res" where
  "fetch_hit ph tid i c =
     (if il_state (ic_lines c ! i) = LINE_INVALID
      then Inr (FAILED, tid, Some i, c\<lparr>ic_numInvalidMisses := ic_numInvalidMisses c + 1\<rparr>)
      else let c = COMMIT ph (ic_modify i (\<lambda>l. l\<lparr>il_references := il_references l + 1\<rparr>)) c in
        if il_state (ic_lines c ! i) = LINE_FULL
        then Inr (SUCCESS, tid, Some i, COMMIT ph (\<lambda>c. c\<lparr>ic_numHits := ic_numHits c + 1\<rparr>) c)
        else assert_that (il_state (ic_lines c ! i) = LINE_LOADING)
          (if ph \<noteq> PHASE_COMMIT then Inr (DELAYED, tid, Some i, c)
           else let c1 = c\<lparr>ic_numLoadingMisses := ic_numLoadingMisses c + 1,
                          ic_numDelayedReads := ic_numDelayedReads c + 1\<rparr> in
             case tid of
               Some t \<Rightarrow> Inr (DELAYED, Some (tq_head (il_waiting (ic_lines c ! i))), Some i,
                            ic_modify i (ic_enqueue t) c1)
             | None \<Rightarrow> assert_that (\<not> il_creation (ic_lines c ! i))
                  (Inr (DELAYED, None, Some i, ic_modify i (\<lambda>l. l\<lparr>il_creation := True\<rparr>) c1))))"

definition fetch_miss :: "env \<Rightarrow> u64 \<Rightarrow> nat option \<Rightarrow> nat \<Rightarrow> ICache \<Rightarrow> fetch_result res" where
  "fetch_miss e address tid i c =
     res_bind (buffer_Push (en_phase e) (en_clk e) address 1 (ic_outgoing c)) (\<lambda>(ok, out).
     let c = c\<lparr>ic_outgoing := out\<rparr> in
     if \<not> ok then Inr (FAILED, tid, Some i, c\<lparr>ic_numStallingMisses := ic_numStallingMisses c + 1\<rparr>)
     else if en_phase e \<noteq> PHASE_COMMIT then Inr (DELAYED, tid, Some i, c)
     else let c = (if il_state (ic_lines c ! i) = LINE_EMPTY
                   then c\<lparr>ic_numEmptyMisses := ic_numEmptyMisses c + 1\<rparr>
                   else c\<lparr>ic_numResolvedConflicts := ic_numResolvedConflicts c + 1\<rparr>);
              c = c\<lparr>ic_numDelayedReads := ic_numDelayedReads c + 1\<rparr>;
              c = ic_modify i (\<lambda>l. l\<lparr>il_creation := (tid = None), il_references := 1, il_state := LINE_LOADING\<rparr>) c
          in case tid of
               Some t \<Rightarrow> Inr (DELAYED, Some INVALID_TID, Some i,
                   ic_modify i (\<lambda>l. l\<lparr>il_waiting := \<lparr>tq_head = t, tq_tail = t\<rparr>\<rparr>) c)
             | None \<Rightarrow> Inr (DELAYED, None, Some i, c))"

definition ic_Fetch :: "env \<Rightarrow> u64 \<Rightarrow> u64 \<Rightarrow> nat option \<Rightarrow> ICache \<Rightarrow> fetch_result res" where
  "ic_Fetch e address sz tid c =
     (if ic_lineSize c = 0 then Inl UndefinedBehaviour
      else let offset = address mod ic_lineSize c in
        if ic_lineSize c < offset + sz then Inl InvalidArgumentException
        else res_bind (service_Invoke e (ic_service c)) (\<lambda>(ok, s).
          let c = c\<lparr>ic_service := s\<rparr> in
          if \<not> ok then Inr (FAILED, tid, None, c)
          else let address = address - offset in
            res_bind (FindLine (en_phase e) address False c) (\<lambda>(result, line, c). case line of
                None \<Rightarrow> Inr (FAILED, tid, None, c\<lparr>ic_numHardConflicts := ic_numHardConflicts c + 1\<rparr>)
              | Some i \<Rightarrow>
                  let c = COMMIT (en_phase e) (ic_modify i (\<lambda>l. l\<lparr>il_access := en_cycle e\<rparr>)) c in
                  if result = SUCCESS then fetch_hit (en_phase e) tid i c
                  else fetch_miss e address tid i c)))"

section \<open>The memory's side\<close>

definition ic_OnMemoryReadCompleted :: "env \<Rightarrow> u64 \<Rightarrow> u8 list \<Rightarrow> ICache \<Rightarrow> (bool \<times> ICache) res" where
  "ic_OnMemoryReadCompleted e addr data c =
     res_bind (FindLine (en_phase e) addr True c) (\<lambda>(result, line, c). case line of
         None \<Rightarrow> Inr (True, c)
       | Some i \<Rightarrow>
           if result = SUCCESS \<and> il_state (ic_lines c ! i) \<noteq> LINE_FULL
           then assert_that (il_state (ic_lines c ! i) = LINE_LOADING \<or> il_state (ic_lines c ! i) = LINE_INVALID)
             (let c = COMMIT (en_phase e) (ic_modify i (\<lambda>l. l\<lparr>il_data := take (unat (ic_lineSize c)) data\<rparr>)) c in
              res_bind (buffer_Push (en_phase e) (en_clk e) i 1 (ic_incoming c)) (\<lambda>(ok, inc).
                Inr (ok, c\<lparr>ic_incoming := inc\<rparr>)))
           else Inr (True, c))"

definition ic_OnMemoryWriteCompleted :: "nat \<Rightarrow> ICache \<Rightarrow> (bool \<times> ICache) res" where
  "ic_OnMemoryWriteCompleted tid c = Inl AssertionFailure"

definition ic_OnMemorySnooped :: "CyclePhase \<Rightarrow> u64 \<Rightarrow> u8 list \<Rightarrow> bool list \<Rightarrow> ICache \<Rightarrow> (bool \<times> ICache) res" where
  "ic_OnMemorySnooped ph address data msk c =
     res_bind (FindLine ph address True c) (\<lambda>(result, line, c). case line of
         None \<Rightarrow> Inr (True, c)
       | Some i \<Rightarrow> Inr (True, if result = SUCCESS
           then COMMIT ph (ic_modify i (\<lambda>l. l\<lparr>il_data := line_blit (il_data l) data msk (unat (ic_lineSize c))\<rparr>)) c
           else c))"

definition invalidate_line :: "icache_line \<Rightarrow> icache_line res" where
  "invalidate_line l =
     (if il_state l = LINE_FULL
      then Inr (l\<lparr>il_state := (if il_references l = 0 then LINE_EMPTY else LINE_INVALID)\<rparr>)
      else if il_state l \<noteq> LINE_INVALID
      then assert_that (il_state l = LINE_LOADING) (Inr (l\<lparr>il_state := LINE_INVALID\<rparr>))
      else Inr l)"

definition ic_OnMemoryInvalidated :: "CyclePhase \<Rightarrow> u64 \<Rightarrow> ICache \<Rightarrow> (bool \<times> ICache) res" where
  "ic_OnMemoryInvalidated ph address c =
     (if ph \<noteq> PHASE_COMMIT then Inr (True, c)
      else res_bind (FindLine ph address True c) (\<lambda>(result, line, c). case line of
          None \<Rightarrow> Inr (True, c)
        | Some i \<Rightarrow>
            if result = SUCCESS
            then res_bind (invalidate_line (ic_lines c ! i)) (\<lambda>l. Inr (True, ic_modify i (\<lambda>_. l) c))
            else Inr (True, c)))"

section \<open>Processes\<close>

text \<open>\<open>read\<close> is \<open>IMemory::Read\<close> of the memory below, on its state.\<close>

definition ic_DoOutgoing :: "env \<Rightarrow> (u64 \<Rightarrow> 'm \<Rightarrow> (bool \<times> 'm) res) \<Rightarrow> ICache \<times> 'm \<Rightarrow> (Result \<times> ICache \<times> 'm) res" where
  "ic_DoOutgoing e read s = (case s of (c, m) \<Rightarrow>
     assert_that (\<not> buffer_Empty (ic_outgoing c))
       (res_bind (buffer_Front (ic_outgoing c)) (\<lambda>address. res_bind (read address m) (\<lambda>(ok, m).
          if \<not> ok then Inr (FAILED, c, m)
          else res_bind (buffer_Pop (en_phase e) (en_clk e) (ic_outgoing c)) (\<lambda>out.
            Inr (SUCCESS, c\<lparr>ic_outgoing := out\<rparr>, m))))))"

text \<open>\<open>loaded\<close> and \<open>queue\<close> are \<open>OnICachelineLoaded\<close> and \<open>QueueActiveThreads\<close> of the allocator, on
  its state.\<close>

definition resume_creation :: "CyclePhase \<Rightarrow> (nat \<Rightarrow> 'a \<Rightarrow> (bool \<times> 'a) res) \<Rightarrow> nat \<Rightarrow> ICache \<times> 'a
    \<Rightarrow> (bool \<times> ICache \<times> 'a) res" where
  "resume_creation ph loaded cid s = (case s of (c, a) \<Rightarrow>
     if il_creation (ic_lines c ! cid)
     then res_bind (loaded cid a) (\<lambda>(ok, a).
       Inr (ok, if ok then COMMIT ph (ic_modify cid (\<lambda>l. l\<lparr>il_creation := False\<rparr>)) c else c, a))
     else Inr (True, c, a))"

definition resume_threads :: "CyclePhase \<Rightarrow> (ThreadQueue \<Rightarrow> 'a \<Rightarrow> (bool \<times> 'a) res) \<Rightarrow> nat \<Rightarrow> ICache \<times> 'a
    \<Rightarrow> (bool \<times> ICache \<times> 'a) res" where
  "resume_threads ph queue cid s = (case s of (c, a) \<Rightarrow>
     let waiting = il_waiting (ic_lines c ! cid) in
     if tq_head waiting \<noteq> INVALID_TID
     then res_bind (queue waiting a) (\<lambda>(ok, a).
       Inr (ok, if ok then COMMIT ph (ic_modify cid (\<lambda>l. l\<lparr>il_waiting :=
                             \<lparr>tq_head = INVALID_TID, tq_tail = INVALID_TID\<rparr>\<rparr>)) c else c, a))
     else Inr (True, c, a))"

definition ic_DoIncoming :: "env \<Rightarrow> (nat \<Rightarrow> 'a \<Rightarrow> (bool \<times> 'a) res) \<Rightarrow> (ThreadQueue \<Rightarrow> 'a \<Rightarrow> (bool \<times> 'a) res)
    \<Rightarrow> ICache \<times> 'a \<Rightarrow> (Result \<times> ICache \<times> 'a) res" where
  "ic_DoIncoming e loaded queue s = (case s of (c, a) \<Rightarrow>
     assert_that (\<not> buffer_Empty (ic_incoming c))
       (res_bind (service_Invoke e (ic_service c)) (\<lambda>(ok, sv).
        let c = c\<lparr>ic_service := sv\<rparr> in
        if \<not> ok then Inr (FAILED, c, a)
        else res_bind (buffer_Front (ic_incoming c)) (\<lambda>cid.
          if \<not> cid < length (ic_lines c) then Inl UndefinedBehaviour
          else res_bind (resume_creation (en_phase e) loaded cid
                  (COMMIT (en_phase e) (ic_modify cid (\<lambda>l. l\<lparr>il_state := LINE_FULL\<rparr>)) c, a)) (\<lambda>(ok, c, a).
            if \<not> ok then Inr (FAILED, c, a)
            else res_bind (resume_threads (en_phase e) queue cid (c, a)) (\<lambda>(ok, c, a).
              if \<not> ok then Inr (FAILED, c, a)
              else res_bind (buffer_Pop (en_phase e) (en_clk e) (ic_incoming c)) (\<lambda>inc.
                Inr (SUCCESS, c\<lparr>ic_incoming := inc\<rparr>, a))))))))"

end
