(* ===== verification/Family_Table.thy ===== *)
theory Family_Table
  imports Context_Pool
begin

text \<open>
  \<open>FamilyTable\<close> (arch/drisc/FamilyTable.h, arch/drisc/FamilyTable.cpp): the table of families of a
  core, whose last entry is kept for the exclusive context. Of a family the table itself only
  uses the state. The table provides the contract \<open>context_pool\<close>.
\<close>

datatype FamilyState =
  FST_EMPTY | FST_ALLOCATED | FST_CREATE_QUEUED | FST_CREATING | FST_ACTIVE | FST_TERMINATED

record family_table =
  ft_families :: "FamilyState list"
  ft_free :: "ContextType \<Rightarrow> u32"
  ft_lastcycle :: u64
  ft_totalalloc :: u32
  ft_maxalloc :: u32
  ft_curalloc :: u32

definition family_table_init :: "nat \<Rightarrow> family_table" where
  "family_table_init n = \<lparr>ft_families = replicate n FST_EMPTY,
     ft_free = (\<lambda>c. case c of CONTEXT_EXCLUSIVE \<Rightarrow> 1 | CONTEXT_RESERVED \<Rightarrow> 0
                          | CONTEXT_NORMAL \<Rightarrow> of_nat n - 1),
     ft_lastcycle = 0, ft_totalalloc = 0, ft_maxalloc = 0, ft_curalloc = 0\<rparr>"

definition ft_size :: "family_table \<Rightarrow> nat" where
  "ft_size t = length (ft_families t)"

definition ft_IsEmpty :: "family_table \<Rightarrow> bool" where
  "ft_IsEmpty t = (ft_free t CONTEXT_NORMAL + ft_free t CONTEXT_RESERVED + ft_free t CONTEXT_EXCLUSIVE
     = of_nat (ft_size t))"

definition ft_IsExclusive :: "nat \<Rightarrow> family_table \<Rightarrow> bool" where
  "ft_IsExclusive fid t = (fid + 1 = ft_size t)"

definition ft_IsExclusiveUsed :: "family_table \<Rightarrow> bool" where
  "ft_IsExclusiveUsed t = (ft_free t CONTEXT_EXCLUSIVE = 0)"

definition ft_UpdateStats :: "u64 \<Rightarrow> family_table \<Rightarrow> family_table" where
  "ft_UpdateStats cycle t =
     (let elapsed = cycle - ft_lastcycle t;
          curalloc = of_nat (ft_size t) - ft_free t CONTEXT_EXCLUSIVE - ft_free t CONTEXT_NORMAL
      in t\<lparr>ft_lastcycle := cycle, ft_curalloc := curalloc,
           ft_totalalloc := ucast (ucast (ft_totalalloc t) + ucast curalloc * elapsed :: u64),
           ft_maxalloc := max (ft_maxalloc t) curalloc\<rparr>)"

text \<open>The assertions of \<open>CheckStateSanity\<close>; the sum of the counters is a 32-bit sum.\<close>

definition ft_sane :: "family_table \<Rightarrow> bool" where
  "ft_sane t \<longleftrightarrow>
     ft_free t CONTEXT_EXCLUSIVE \<le> 1
     \<and> (ft_free t CONTEXT_EXCLUSIVE = 1) \<noteq> (last (ft_families t) \<noteq> FST_EMPTY)
     \<and> unat (ft_free t CONTEXT_NORMAL + ft_free t CONTEXT_EXCLUSIVE)
         + used_count FST_EMPTY (ft_families t) = ft_size t"

definition ft_decrement :: "ContextType \<Rightarrow> family_table \<Rightarrow> family_table" where
  "ft_decrement c t = t\<lparr>ft_free := (ft_free t)(c := ft_free t c - 1)\<rparr>"

definition ft_increment :: "ContextType \<Rightarrow> family_table \<Rightarrow> family_table" where
  "ft_increment c t = t\<lparr>ft_free := (ft_free t)(c := ft_free t c + 1)\<rparr>"

definition ft_set_state :: "nat \<Rightarrow> FamilyState \<Rightarrow> family_table \<Rightarrow> family_table" where
  "ft_set_state fid st t = t\<lparr>ft_families := (ft_families t)[fid := st]\<rparr>"

text \<open>The associative lookup leaves out the entry of the exclusive context.\<close>

definition ft_find :: "ContextType \<Rightarrow> family_table \<Rightarrow> nat option" where
  "ft_find context t =
     (if context = CONTEXT_EXCLUSIVE then Some (ft_size t - 1)
      else let i = find_index (\<lambda>s. s = FST_EMPTY) (butlast (ft_families t))
           in if i < ft_size t - 1 then Some i else None)"

definition AllocateFamily ::
  "CyclePhase \<Rightarrow> u64 \<Rightarrow> ContextType \<Rightarrow> family_table \<Rightarrow> (nat option \<times> family_table) res" where
  "AllocateFamily ph cycle context t = assert_that (ft_sane t)
     (if 0 < ft_free t context
      then case ft_find context t of
             None \<Rightarrow> Inl AssertionFailure
           | Some fid \<Rightarrow> assert_that (fid \<noteq> INVALID_LFID \<and> ft_families t ! fid = FST_EMPTY)
               (Inr (Some fid, COMMIT ph (\<lambda>t. ft_decrement context
                  (ft_set_state fid FST_ALLOCATED (ft_UpdateStats cycle t))) t))
      else Inr (None, t))"

definition FreeFamily ::
  "CyclePhase \<Rightarrow> u64 \<Rightarrow> nat \<Rightarrow> ContextType \<Rightarrow> family_table \<Rightarrow> family_table res" where
  "FreeFamily ph cycle fid context t = assert_that (fid \<noteq> INVALID_LFID) (assert_that (ft_sane t)
     (if fid < ft_size t \<or> ph \<noteq> PHASE_COMMIT
      then Inr (COMMIT ph (\<lambda>t. ft_increment context
             (ft_set_state fid FST_EMPTY (ft_UpdateStats cycle t))) t)
      else Inl UndefinedBehaviour))"

definition GetNumFreeFamilies :: "ContextType \<Rightarrow> family_table \<Rightarrow> u32 res" where
  "GetNumFreeFamilies c t = assert_that
     (unat (ft_free t CONTEXT_NORMAL + ft_free t CONTEXT_EXCLUSIVE) \<le> ft_size t) (Inr (ft_free t c))"

definition GetNumUsedFamilies :: "ContextType \<Rightarrow> family_table \<Rightarrow> u32 res" where
  "GetNumUsedFamilies c t = assert_that
     (unat (ft_free t CONTEXT_NORMAL + ft_free t CONTEXT_EXCLUSIVE) \<le> ft_size t)
     (Inr (of_nat (if c \<noteq> CONTEXT_EXCLUSIVE then ft_size t - 1 else 1) - ft_free t c))"

section \<open>The invariant\<close>

text \<open>The counters add up without wrap-around, and nothing is in the reserved pool.\<close>

definition ft_wf :: "family_table \<Rightarrow> bool" where
  "ft_wf t \<longleftrightarrow>
     0 < ft_size t \<and> ft_size t < 2 ^ 32 \<and> ft_free t CONTEXT_RESERVED = 0
     \<and> ft_free t CONTEXT_EXCLUSIVE = of_bool (last (ft_families t) = FST_EMPTY)
     \<and> unat (ft_free t CONTEXT_NORMAL) + unat (ft_free t CONTEXT_EXCLUSIVE)
         + used_count FST_EMPTY (ft_families t) = ft_size t"

lemma ft_UpdateStats_simps [simp]:
  "ft_families (ft_UpdateStats c t) = ft_families t" "ft_free (ft_UpdateStats c t) = ft_free t"
  "ft_size (ft_UpdateStats c t) = ft_size t"
  by (simp_all add: ft_UpdateStats_def ft_size_def Let_def)

lemma ft_wf_valid: "ft_wf t \<Longrightarrow> i < ft_size t \<Longrightarrow> i \<noteq> INVALID_LFID"
  by (simp add: ft_wf_def INVALID_LFID_def)

lemma ft_wf_sane: "ft_wf t \<Longrightarrow> ft_sane t"
proof -
  assume wf: "ft_wf t"
  have "unat (ft_free t CONTEXT_NORMAL) + unat (ft_free t CONTEXT_EXCLUSIVE) < 2 ^ 32"
    using wf unfolding ft_wf_def by linarith
  then have "unat (ft_free t CONTEXT_NORMAL + ft_free t CONTEXT_EXCLUSIVE)
      = unat (ft_free t CONTEXT_NORMAL) + unat (ft_free t CONTEXT_EXCLUSIVE)"
    by (simp add: unat_add_lem [THEN iffD1])
  then show ?thesis using wf by (auto simp: ft_wf_def ft_sane_def)
qed

lemma family_table_init_wf:
  assumes "0 < n" and "n < 2 ^ 32"
  shows "ft_wf (family_table_init n)"
proof -
  have "unat (of_nat n :: u32) = n" using assms by (simp add: unat_of_nat)
  moreover have "(0 :: u32) < of_nat n" using assms by (metis calculation unat_gt_0 word_gt_0)
  ultimately have "unat (of_nat n - 1 :: u32) = n - 1" by (simp add: unat_dec)
  then show ?thesis using assms
    by (simp add: ft_wf_def family_table_init_def ft_size_def used_count_def)
qed

text \<open>The normal counter is the number of empty entries other than the last.\<close>

lemma ft_normal_free:
  assumes "ft_wf t"
  shows "unat (ft_free t CONTEXT_NORMAL) = length (filter (\<lambda>s. s = FST_EMPTY) (butlast (ft_families t)))"
proof -
  obtain xs x where t: "ft_families t = xs @ [x]"
    using assms by (cases "ft_families t" rule: rev_cases) (auto simp: ft_wf_def ft_size_def)
  have "length (filter (\<lambda>s. s \<noteq> FST_EMPTY) xs) + length (filter (\<lambda>s. s = FST_EMPTY) xs) = length xs"
    using sum_length_filter_compl [of "\<lambda>s. s \<noteq> FST_EMPTY" xs] by simp
  then show ?thesis
    using assms by (cases "x = FST_EMPTY") (auto simp: ft_wf_def t used_count_def ft_size_def)
qed

lemma ft_find_ok:
  assumes wf: "ft_wf t" and free: "0 < ft_free t c"
  shows "\<exists>i. ft_find c t = Some i \<and> i < ft_size t \<and> ft_families t ! i = FST_EMPTY
    \<and> (c = CONTEXT_EXCLUSIVE \<longleftrightarrow> i = ft_size t - 1)"
proof (cases "c = CONTEXT_EXCLUSIVE")
  case True
  then have "last (ft_families t) = FST_EMPTY"
    using wf free by (cases "last (ft_families t) = FST_EMPTY") (auto simp: ft_wf_def)
  moreover have "ft_families t \<noteq> []" using wf by (auto simp: ft_wf_def ft_size_def)
  ultimately show ?thesis using True wf by (simp add: ft_find_def ft_wf_def ft_size_def last_conv_nth)
next
  case False
  then have c: "c = CONTEXT_NORMAL" using wf free by (cases c) (auto simp: ft_wf_def)
  then have "0 < unat (ft_free t CONTEXT_NORMAL)" using free by (simp add: unat_gt_0 word_gt_0)
  then have "FST_EMPTY \<in> set (butlast (ft_families t))"
    unfolding ft_normal_free [OF wf] by (auto simp: filter_empty_conv)
  then have lt: "find_index (\<lambda>s. s = FST_EMPTY) (butlast (ft_families t)) < length (butlast (ft_families t))"
    unfolding find_index_less by blast
  from find_index_nth [OF lt] lt have "ft_families t ! find_index (\<lambda>s. s = FST_EMPTY) (butlast (ft_families t)) = FST_EMPTY"
    by (simp add: nth_butlast)
  then show ?thesis using lt False by (simp add: ft_find_def ft_size_def Let_def)
qed

lemma last_update: "xs \<noteq> [] \<Longrightarrow> last (xs[i := x]) = (if i = length xs - 1 then x else last xs)"
  by (simp add: last_list_update)

lemma AllocateFamily_some:
  assumes wf: "ft_wf t" and free: "0 < ft_free t c"
  shows "\<exists>i t'. AllocateFamily PHASE_COMMIT cyc c t = Inr (Some i, t') \<and> ft_wf t' \<and> i < ft_size t
    \<and> ft_families t' = (ft_families t)[i := FST_ALLOCATED] \<and> ft_families t ! i = FST_EMPTY
    \<and> ft_free t' = (ft_free t)(c := ft_free t c - 1)
    \<and> (c = CONTEXT_EXCLUSIVE \<longleftrightarrow> i = ft_size t - 1)"
proof -
  obtain i where i: "ft_find c t = Some i" "i < ft_size t" "ft_families t ! i = FST_EMPTY"
      "c = CONTEXT_EXCLUSIVE \<longleftrightarrow> i = ft_size t - 1"
    using ft_find_ok [OF wf free] by blast
  define t' where "t' = ft_decrement c (ft_set_state i FST_ALLOCATED (ft_UpdateStats cyc t))"
  have t': "ft_families t' = (ft_families t)[i := FST_ALLOCATED]"
      "ft_free t' = (ft_free t)(c := ft_free t c - 1)" "ft_size t' = ft_size t"
    by (simp_all add: t'_def ft_decrement_def ft_set_state_def ft_size_def)
  have count: "used_count FST_EMPTY (ft_families t') = used_count FST_EMPTY (ft_families t) + 1"
    unfolding t' using i by (intro used_count_take) (simp_all add: ft_size_def)
  have ne: "ft_families t \<noteq> []" using wf by (auto simp: ft_wf_def ft_size_def)
  have dec: "unat (ft_free t c - 1) = unat (ft_free t c) - 1" "0 < unat (ft_free t c)"
    using free by (simp_all add: unat_dec unat_gt_0 word_gt_0)
  have c: "c \<noteq> CONTEXT_RESERVED" using wf free by (auto simp: ft_wf_def)
  have "ft_wf t'"
  proof (cases "c = CONTEXT_EXCLUSIVE")
    case True
    then have "ft_free t CONTEXT_EXCLUSIVE = 1"
      using wf free by (cases "last (ft_families t) = FST_EMPTY") (auto simp: ft_wf_def)
    then show ?thesis
      using wf t' count True i(4) ne by (simp add: ft_wf_def ft_size_def last_update)
  next
    case False
    then have "c = CONTEXT_NORMAL" using c by (cases c) simp_all
    then show ?thesis
      using wf t' count i(4) ne dec
      by (cases "last (ft_families t) = FST_EMPTY") (auto simp: ft_wf_def ft_size_def last_update)
  qed
  moreover have "AllocateFamily PHASE_COMMIT cyc c t = Inr (Some i, t')"
    using ft_wf_sane [OF wf] free i ft_wf_valid [OF wf i(2)] by (simp add: AllocateFamily_def t'_def)
  ultimately show ?thesis using i t' by blast
qed

definition ft_may_free :: "family_table \<Rightarrow> nat \<Rightarrow> ContextType \<Rightarrow> bool" where
  "ft_may_free t i c \<longleftrightarrow> c = (if i = ft_size t - 1 then CONTEXT_EXCLUSIVE else CONTEXT_NORMAL)"

lemma FreeFamily_ok:
  assumes wf: "ft_wf t" and i: "i < ft_size t" "ft_families t ! i \<noteq> FST_EMPTY" and may: "ft_may_free t i c"
  shows "\<exists>t'. FreeFamily PHASE_COMMIT cyc i c t = Inr t' \<and> ft_wf t'
    \<and> ft_families t' = (ft_families t)[i := FST_EMPTY] \<and> ft_free t' = (ft_free t)(c := ft_free t c + 1)
    \<and> unat (ft_free t c + 1) = unat (ft_free t c) + 1"
proof -
  define t' where "t' = ft_increment c (ft_set_state i FST_EMPTY (ft_UpdateStats cyc t))"
  have t': "ft_families t' = (ft_families t)[i := FST_EMPTY]"
      "ft_free t' = (ft_free t)(c := ft_free t c + 1)" "ft_size t' = ft_size t"
    by (simp_all add: t'_def ft_increment_def ft_set_state_def ft_size_def)
  have count: "used_count FST_EMPTY (ft_families t') + 1 = used_count FST_EMPTY (ft_families t)"
    unfolding t' using i by (intro used_count_give) (simp_all add: ft_size_def)
  have ne: "ft_families t \<noteq> []" using wf by (auto simp: ft_wf_def ft_size_def)
  have bound: "unat (ft_free t c) < 2 ^ 32 - 1"
    using wf count used_count_le [of FST_EMPTY "ft_families t"] by (cases c) (auto simp: ft_wf_def)
  note inc = unat_inc [OF bound]
  have "ft_wf t'"
  proof (cases "i = ft_size t - 1")
    case True
    then have c: "c = CONTEXT_EXCLUSIVE" using may by (simp add: ft_may_free_def)
    have "last (ft_families t) \<noteq> FST_EMPTY" using i True ne by (simp add: last_conv_nth ft_size_def)
    then have "ft_free t CONTEXT_EXCLUSIVE = 0" using wf by (simp add: ft_wf_def)
    then show ?thesis using wf t' count c True ne by (simp add: ft_wf_def ft_size_def last_update)
  next
    case False
    then have c: "c = CONTEXT_NORMAL" using may by (simp add: ft_may_free_def)
    then show ?thesis using wf t' count False ne inc
      by (cases "last (ft_families t) = FST_EMPTY") (auto simp: ft_wf_def ft_size_def last_update)
  qed
  moreover have "FreeFamily PHASE_COMMIT cyc i c t = Inr t'"
    using ft_wf_sane [OF wf] i ft_wf_valid [OF wf i(1)] by (simp add: FreeFamily_def t'_def)
  ultimately show ?thesis using t' inc by blast
qed

section \<open>The family table is a context pool\<close>

interpretation ft: context_pool ft_wf "\<lambda>t c. unat (ft_free t c)" "\<lambda>t. used_set FST_EMPTY (ft_families t)"
    ft_size "AllocateFamily PHASE_COMMIT cyc" "FreeFamily PHASE_COMMIT cyc" ft_may_free for cyc
proof unfold_locales
  fix t
  assume "ft_wf t"
  then show "used_set FST_EMPTY (ft_families t) \<subseteq> {..<ft_size t}
      \<and> unat (ft_free t CONTEXT_NORMAL) + unat (ft_free t CONTEXT_RESERVED)
        + unat (ft_free t CONTEXT_EXCLUSIVE) + card (used_set FST_EMPTY (ft_families t)) = ft_size t"
    by (auto simp: ft_wf_def used_count_card used_set_def ft_size_def)
next
  fix t c
  assume wf: "ft_wf t" and "0 < unat (ft_free t c)"
  then have pos: "0 < ft_free t c" by (simp add: unat_gt_0 word_gt_0)
  from AllocateFamily_some [OF wf pos, of cyc] obtain i t' where
    a: "AllocateFamily PHASE_COMMIT cyc c t = Inr (Some i, t')" "ft_wf t'" "i < ft_size t"
       "ft_families t' = (ft_families t)[i := FST_ALLOCATED]" "ft_families t ! i = FST_EMPTY"
       "ft_free t' = (ft_free t)(c := ft_free t c - 1)" by blast
  have "(\<lambda>d. unat (ft_free t' d)) = (\<lambda>d. unat (ft_free t d))(c := unat (ft_free t c) - 1)"
    using a(6) unat_dec [OF pos] by auto
  moreover have "used_set FST_EMPTY (ft_families t') = insert i (used_set FST_EMPTY (ft_families t))"
    using a(3,4) by (simp add: used_set_take ft_size_def)
  moreover have "i \<notin> used_set FST_EMPTY (ft_families t)" using a(5) by (simp add: used_set_def)
  ultimately show "\<exists>i t'. AllocateFamily PHASE_COMMIT cyc c t = Inr (Some i, t') \<and> ft_wf t'
      \<and> ft_size t' = ft_size t \<and> i \<notin> used_set FST_EMPTY (ft_families t)
      \<and> used_set FST_EMPTY (ft_families t') = insert i (used_set FST_EMPTY (ft_families t))
      \<and> (\<lambda>c. unat (ft_free t' c)) = (\<lambda>c. unat (ft_free t c))(c := unat (ft_free t c) - 1)"
    using a(1,2,4) by (intro exI conjI) (simp_all add: ft_size_def)
next
  fix t c
  assume "ft_wf t" "unat (ft_free t c) = 0"
  then show "AllocateFamily PHASE_COMMIT cyc c t = Inr (None, t)"
    using ft_wf_sane by (simp add: AllocateFamily_def unat_eq_0)
next
  fix t i c
  assume wf: "ft_wf t" and i: "i \<in> used_set FST_EMPTY (ft_families t)" and may: "ft_may_free t i c"
  have lt: "i < ft_size t" "ft_families t ! i \<noteq> FST_EMPTY" using i by (simp_all add: used_set_def ft_size_def)
  from FreeFamily_ok [OF wf lt may, of cyc] obtain t' where
    a: "FreeFamily PHASE_COMMIT cyc i c t = Inr t'" "ft_wf t'" "ft_families t' = (ft_families t)[i := FST_EMPTY]"
      "ft_free t' = (ft_free t)(c := ft_free t c + 1)" "unat (ft_free t c + 1) = unat (ft_free t c) + 1"
    by blast
  then have "(\<lambda>c. unat (ft_free t' c)) = (\<lambda>c. unat (ft_free t c))(c := unat (ft_free t c) + 1)" by auto
  then show "\<exists>t'. FreeFamily PHASE_COMMIT cyc i c t = Inr t' \<and> ft_wf t' \<and> ft_size t' = ft_size t
      \<and> used_set FST_EMPTY (ft_families t') = used_set FST_EMPTY (ft_families t) - {i}
      \<and> (\<lambda>c. unat (ft_free t' c)) = (\<lambda>c. unat (ft_free t c))(c := unat (ft_free t c) + 1)"
    using a \<open>i < ft_size t\<close> by (intro exI [of _ t']) (simp add: ft_size_def used_set_give)
qed

section \<open>Properties\<close>

fun AllocateFamily_many :: "u64 \<Rightarrow> ContextType \<Rightarrow> nat \<Rightarrow> family_table \<Rightarrow> (nat list \<times> family_table) res"
  where
  "AllocateFamily_many cyc c 0 t = Inr ([], t)"
| "AllocateFamily_many cyc c (Suc n) t = res_bind (AllocateFamily PHASE_COMMIT cyc c t) (\<lambda>(r, t').
     case r of None \<Rightarrow> Inr ([], t')
     | Some i \<Rightarrow> res_bind (AllocateFamily_many cyc c n t') (\<lambda>(js, t''). Inr (i # js, t'')))"

lemma AllocateFamily_many_eq: "AllocateFamily_many cyc c n t = ft.alloc_many cyc c n t"
  by (induction cyc c n t rule: AllocateFamily_many.induct)
    (auto simp: res_bind_def split: sum.splits option.splits)

text \<open>
  C18. The family table hands out each entry once and never trips an assertion: from any sane
  table, \<open>n\<close> allocations return as many entries as the counter of the context allows, distinct
  and empty before; the last entry goes to the exclusive context and to no other; and freeing a
  used entry to the context it belongs to leaves the table sane.
\<close>

theorem family_table_pool:
  assumes "ft_wf t"
  shows "\<exists>fids t'. AllocateFamily_many cyc c n t = Inr (fids, t') \<and> ft_wf t' \<and> distinct fids
    \<and> length fids = min n (unat (ft_free t c))
    \<and> (\<forall>i\<in>set fids. i < ft_size t \<and> ft_families t ! i = FST_EMPTY \<and> ft_families t' ! i \<noteq> FST_EMPTY)
    \<and> (\<forall>i u. AllocateFamily PHASE_COMMIT cyc c t = Inr (Some i, u) \<longrightarrow>
         (c = CONTEXT_EXCLUSIVE \<longleftrightarrow> ft_IsExclusive i t))
    \<and> (\<forall>i d. i < ft_size t' \<and> ft_families t' ! i \<noteq> FST_EMPTY
           \<and> d = (if ft_IsExclusive i t' then CONTEXT_EXCLUSIVE else CONTEXT_NORMAL) \<longrightarrow>
         (\<exists>t''. FreeFamily PHASE_COMMIT cyc i d t' = Inr t'' \<and> ft_wf t'' \<and> ft_families t'' ! i = FST_EMPTY
            \<and> unat (ft_free t'' d) = unat (ft_free t' d) + 1))"
proof -
  obtain fids t' where a: "AllocateFamily_many cyc c n t = Inr (fids, t')" "ft_wf t'" "distinct fids"
      "length fids = min n (unat (ft_free t c))" "set fids \<inter> used_set FST_EMPTY (ft_families t) = {}"
      "used_set FST_EMPTY (ft_families t') = used_set FST_EMPTY (ft_families t) \<union> set fids"
      "set fids \<subseteq> {..<ft_size t}"
    using ft.alloc_many_law [OF assms, of cyc c n] unfolding AllocateFamily_many_eq by blast
  have ex: "ft_IsExclusive i u \<longleftrightarrow> i = ft_size u - 1" if "ft_wf u" for i u
    using that by (auto simp: ft_IsExclusive_def ft_wf_def)
  have "i < ft_size t \<and> ft_families t ! i = FST_EMPTY \<and> ft_families t' ! i \<noteq> FST_EMPTY" if "i \<in> set fids" for i
  proof -
    have "i \<notin> used_set FST_EMPTY (ft_families t)" "i \<in> used_set FST_EMPTY (ft_families t')" "i < ft_size t"
      using that a(5-7) by blast+
    then show ?thesis by (simp add: used_set_def ft_size_def)
  qed
  moreover have "c = CONTEXT_EXCLUSIVE \<longleftrightarrow> ft_IsExclusive i t"
    if r: "AllocateFamily PHASE_COMMIT cyc c t = Inr (Some i, u)" for i u
  proof -
    have "0 < ft_free t c" using r by (auto simp: AllocateFamily_def split: if_splits)
    from AllocateFamily_some [OF assms this, of cyc] r ex [OF assms] show ?thesis by auto
  qed
  moreover have "\<exists>t''. FreeFamily PHASE_COMMIT cyc i d t' = Inr t'' \<and> ft_wf t'' \<and> ft_families t'' ! i = FST_EMPTY
      \<and> unat (ft_free t'' d) = unat (ft_free t' d) + 1"
    if "i < ft_size t'" "ft_families t' ! i \<noteq> FST_EMPTY"
      "d = (if ft_IsExclusive i t' then CONTEXT_EXCLUSIVE else CONTEXT_NORMAL)" for i d
  proof -
    have "ft_may_free t' i d" using that(3) ex [OF a(2)] by (simp add: ft_may_free_def)
    from FreeFamily_ok [OF a(2) that(1,2) this, of cyc] that(1) show ?thesis by (auto simp: ft_size_def)
  qed
  ultimately show ?thesis using a(1-4) by blast
qed

theorem family_table_pool_witness:
  "\<exists>fids t'. AllocateFamily_many 2 CONTEXT_NORMAL 5 (family_table_init 3) = Inr (fids, t') \<and> length fids = 2"
proof -
  have "ft_wf (family_table_init 3)" by (rule family_table_init_wf) simp_all
  from family_table_pool [OF this, of 2 CONTEXT_NORMAL 5]
  have "\<exists>fids t'. AllocateFamily_many 2 CONTEXT_NORMAL 5 (family_table_init 3) = Inr (fids, t')
      \<and> length fids = min 5 (unat (ft_free (family_table_init 3) CONTEXT_NORMAL))" by blast
  then show ?thesis by (simp add: family_table_init_def)
qed

end
