(* ===== verification/Register_Allocator.thy ===== *)
theory Register_Allocator
  imports Context_Pool Log2
begin

text \<open>
  \<open>RAUnit\<close> (arch/drisc/RAUnit.h, arch/drisc/RAUnit.cpp): the allocation of the register files in
  contiguous areas of blocks. Per register type a list keeps, at the first block of an area, the
  number of its blocks and the family that asked for it, and 0 at every other block; three
  counters say how many blocks are free for normal, reserved and exclusive contexts. The numbers
  of the source are 32-bit unsigned; here they are natural numbers, with the remainder written
  where the source could wrap.
\<close>

record type_info =
  ti_list :: "(nat \<times> nat) list"
  ti_blockSize :: nat
  ti_free :: "ContextType \<Rightarrow> nat"

text \<open>One round of the constructor: the configured block size and the size of the register file.\<close>

definition type_info_init :: "nat \<Rightarrow> nat \<Rightarrow> type_info res" where
  "type_info_init blockSize n =
     (let bs = blockSize mod 2 ^ 32 in
      if bs = 0 \<or> \<not> IsPowerOfTwo (of_nat bs :: u32) then Inl InvalidArgumentException
      else if bs < 32 then Inl InvalidArgumentException
      else if n mod bs \<noteq> 0 then Inl InvalidArgumentException
      else let free_blocks = n div bs in
        if free_blocks < 2 then Inl InvalidArgumentException
        else Inr \<lparr>ti_list = replicate free_blocks (0, INVALID_LFID), ti_blockSize = bs,
               ti_free = (\<lambda>c. case c of CONTEXT_NORMAL \<Rightarrow> free_blocks - 1
                                 | CONTEXT_RESERVED \<Rightarrow> 0 | CONTEXT_EXCLUSIVE \<Rightarrow> 1)\<rparr>)"

fun RAUnit_init :: "(nat \<times> nat) list \<Rightarrow> type_info list res" where
  "RAUnit_init [] = Inr []"
| "RAUnit_init ((bs, n) # cs) =
     res_bind (type_info_init bs n) (\<lambda>t. res_bind (RAUnit_init cs) (\<lambda>ts. Inr (t # ts)))"

fun GetNumFreeContexts :: "ContextType \<Rightarrow> type_info list \<Rightarrow> nat" where
  "GetNumFreeContexts c [] = 0"
| "GetNumFreeContexts c [t] = ti_free t c"
| "GetNumFreeContexts c (t # ts) = min (ti_free t c) (GetNumFreeContexts c ts)"

text \<open>Moving one block between two counters; \<open>ReserveContext\<close> and \<open>UnreserveContext\<close>.\<close>

definition ti_move :: "ContextType \<Rightarrow> ContextType \<Rightarrow> type_info \<Rightarrow> type_info" where
  "ti_move a b t = t\<lparr>ti_free := (ti_free t)(a := ti_free t a - 1, b := (ti_free t b + 1) mod 2 ^ 32)\<rparr>"

fun ra_move_all :: "CyclePhase \<Rightarrow> ContextType \<Rightarrow> ContextType \<Rightarrow> type_info list \<Rightarrow> type_info list res" where
  "ra_move_all ph a b [] = Inr []"
| "ra_move_all ph a b (t # ts) = assert_that (0 < ti_free t a)
     (res_bind (ra_move_all ph a b ts) (\<lambda>ts'. Inr (COMMIT ph (ti_move a b) t # ts')))"

definition ReserveContext :: "CyclePhase \<Rightarrow> type_info list \<Rightarrow> type_info list res" where
  "ReserveContext ph ts = ra_move_all ph CONTEXT_NORMAL CONTEXT_RESERVED ts"

definition UnreserveContext :: "CyclePhase \<Rightarrow> type_info list \<Rightarrow> type_info list res" where
  "UnreserveContext ph ts = ra_move_all ph CONTEXT_RESERVED CONTEXT_NORMAL ts"

section \<open>The search for a free area\<close>

text \<open>
  The inner loop walks over free blocks from \<open>start\<close>; it stops at the block that completes an
  area of \<open>n\<close> blocks or at the first block that is not free. The outer loop skips used areas.
\<close>

function ra_inner :: "nat list \<Rightarrow> nat \<Rightarrow> nat \<Rightarrow> nat \<Rightarrow> nat option \<times> nat" where
  "ra_inner fs n start pos =
     (if pos < length fs \<and> fs ! pos = 0
      then if pos - start + 1 = n then (Some start, pos) else ra_inner fs n start (pos + 1)
      else (None, pos))"
  by pat_completeness auto
termination by (relation "measure (\<lambda>(fs, n, start, pos). length fs - pos)") auto

declare ra_inner.simps [simp del]

lemma ra_inner_ge: "ra_inner fs n start pos = (r, p) \<Longrightarrow> pos \<le> p"
proof (induction fs n start pos arbitrary: r p rule: ra_inner.induct)
  case (1 fs n start pos)
  then show ?case by (auto simp: ra_inner.simps [of fs n start pos] split: if_splits)
qed

lemma ra_inner_progress:
  assumes "ra_inner fs n start pos = (None, p)" and "pos < length fs" and "fs ! pos = 0"
  shows "pos < p"
proof -
  have "ra_inner fs n start (pos + 1) = (None, p)"
    using assms by (auto simp: ra_inner.simps [of fs n start pos] split: if_splits)
  then show ?thesis using ra_inner_ge by fastforce
qed

function ra_search :: "nat list \<Rightarrow> nat \<Rightarrow> nat \<Rightarrow> nat option" where
  "ra_search fs n pos =
     (if pos < length fs
      then if fs ! pos \<noteq> 0 then ra_search fs n (pos + fs ! pos)
           else case ra_inner fs n pos pos of
                  (Some start, p) \<Rightarrow> Some start
                | (None, p) \<Rightarrow> ra_search fs n p
      else None)"
  by pat_completeness auto
termination
proof (relation "measure (\<lambda>(fs, n, pos). length fs - pos)")
  fix fs n pos x p
  assume "pos < length fs" "\<not> fs ! pos \<noteq> 0" "(x, p) = ra_inner fs n pos pos" "x = None"
  then have "pos < p" using ra_inner_progress by metis
  then show "((fs, n, p), fs, n, pos) \<in> measure (\<lambda>(fs, n, pos). length fs - pos)"
    using \<open>pos < length fs\<close> by simp
qed auto

declare ra_search.simps [simp del]

definition ra_blocks :: "nat \<Rightarrow> nat \<Rightarrow> nat" where
  "ra_blocks bs n = (n + bs - 1) mod 2 ^ 32 div bs"

definition ra_find :: "ContextType \<Rightarrow> nat \<Rightarrow> type_info \<Rightarrow> nat option res" where
  "ra_find c n t =
     (let b = ra_blocks (ti_blockSize t) n;
          free = (if c \<noteq> CONTEXT_NORMAL then (ti_free t CONTEXT_NORMAL + 1) mod 2 ^ 32
                  else ti_free t CONTEXT_NORMAL)
      in assert_that (free \<le> length (ti_list t))
           (Inr (if b \<le> free
                 then map_option (\<lambda>start. start * ti_blockSize t mod 2 ^ 32)
                        (ra_search (map fst (ti_list t)) b 0)
                 else None)))"

text \<open>The base register of an area, or none (\<open>INVALID_REG_INDEX\<close>) for a type of which nothing is
  asked; the whole result is none when some type has no room.\<close>

fun ra_find_all :: "ContextType \<Rightarrow> nat list \<Rightarrow> type_info list \<Rightarrow> nat option list option res" where
  "ra_find_all c (n # ns) (t # ts) =
     (if n = 0 then res_bind (ra_find_all c ns ts) (\<lambda>r. Inr (map_option (\<lambda>is. None # is) r))
      else res_bind (ra_find c n t) (\<lambda>i. case i of None \<Rightarrow> Inr None
        | Some i \<Rightarrow> res_bind (ra_find_all c ns ts) (\<lambda>r. Inr (map_option (\<lambda>is. Some i # is) r))))"
| "ra_find_all c _ _ = Inr (Some [])"

text \<open>The commit of one type: the area is entered, one block is taken from the pool of a special
  context and the rest from the normal pool.\<close>

definition ti_take_normal :: "nat \<Rightarrow> type_info \<Rightarrow> type_info res" where
  "ti_take_normal b t = assert_that (b \<le> ti_free t CONTEXT_NORMAL)
     (Inr (t\<lparr>ti_free := (ti_free t)(CONTEXT_NORMAL := ti_free t CONTEXT_NORMAL - b)\<rparr>))"

definition ra_take :: "ContextType \<Rightarrow> nat \<Rightarrow> nat \<Rightarrow> nat \<Rightarrow> type_info \<Rightarrow> type_info res" where
  "ra_take c fid n i t =
     (let b = ra_blocks (ti_blockSize t) n;
          t1 = t\<lparr>ti_list := (ti_list t)[i div ti_blockSize t := (b, fid)]\<rparr>
      in if c \<noteq> CONTEXT_NORMAL
         then assert_that (0 < ti_free t1 c)
                (ti_take_normal (b - 1) (t1\<lparr>ti_free := (ti_free t1)(c := ti_free t1 c - 1)\<rparr>))
         else ti_take_normal b t1)"

definition ra_skip :: "ContextType \<Rightarrow> type_info \<Rightarrow> type_info" where
  "ra_skip c t = (if c = CONTEXT_RESERVED
     then t\<lparr>ti_free := (ti_free t)(CONTEXT_NORMAL := (ti_free t CONTEXT_NORMAL + 1) mod 2 ^ 32)\<rparr>
     else t)"

fun ra_take_all ::
  "ContextType \<Rightarrow> nat \<Rightarrow> nat list \<Rightarrow> nat option list \<Rightarrow> type_info list \<Rightarrow> type_info list res" where
  "ra_take_all c fid (n # ns) (i # is) (t # ts) =
     res_bind (if n \<noteq> 0 then ra_take c fid n (case i of Some i \<Rightarrow> i | None \<Rightarrow> 2 ^ 32 - 1) t
               else Inr (ra_skip c t))
       (\<lambda>t'. res_bind (ra_take_all c fid ns is ts) (\<lambda>ts'. Inr (t' # ts')))"
| "ra_take_all c fid _ _ ts = Inr ts"

definition ra_Alloc :: "CyclePhase \<Rightarrow> nat list \<Rightarrow> nat \<Rightarrow> ContextType \<Rightarrow> type_info list
    \<Rightarrow> (nat option list option \<times> type_info list) res" where
  "ra_Alloc ph ns fid c ts = res_bind (ra_find_all c ns ts) (\<lambda>r. case r of
       None \<Rightarrow> Inr (None, ts)
     | Some is \<Rightarrow>
         if ph = PHASE_COMMIT
         then res_bind (ra_take_all c fid ns is ts) (\<lambda>ts'. Inr (Some is, ts'))
         else Inr (Some is, ts))"

section \<open>Freeing and inspecting\<close>

definition ra_release :: "CyclePhase \<Rightarrow> ContextType \<Rightarrow> nat \<Rightarrow> type_info \<Rightarrow> type_info res" where
  "ra_release ph c i t =
     (let k = i div ti_blockSize t in
      if k < length (ti_list t) then
        (let b = fst (ti_list t ! k);
             give = (\<lambda>b t. t\<lparr>ti_free := (ti_free t)(CONTEXT_NORMAL :=
                                 (ti_free t CONTEXT_NORMAL + b) mod 2 ^ 32),
                             ti_list := (ti_list t)[k := (0, snd (ti_list t ! k))]\<rparr>)
         in assert_that (b \<noteq> 0)
              (if ph \<noteq> PHASE_COMMIT then Inr t
               else if c = CONTEXT_EXCLUSIVE
               then assert_that (ti_free t CONTEXT_EXCLUSIVE = 0)
                      (Inr (give (b - 1) (t\<lparr>ti_free := (ti_free t)(CONTEXT_EXCLUSIVE := 1)\<rparr>)))
               else Inr (give b t)))
      else Inl UndefinedBehaviour)"

fun ra_Free ::
  "CyclePhase \<Rightarrow> ContextType \<Rightarrow> nat option list \<Rightarrow> type_info list \<Rightarrow> type_info list res" where
  "ra_Free ph c (None # is) (t # ts) = res_bind (ra_Free ph c is ts) (\<lambda>ts'. Inr (t # ts'))"
| "ra_Free ph c (Some i # is) (t # ts) =
     res_bind (ra_release ph c i t) (\<lambda>t'. res_bind (ra_Free ph c is ts) (\<lambda>ts'. Inr (t' # ts')))"
| "ra_Free ph c _ ts = Inr ts"

text \<open>The inner loop of \<open>GetBlockInfo\<close> writes \<open>m\<close> consecutive elements of the vector.\<close>

definition ra_fill :: "nat \<Rightarrow> nat \<Rightarrow> nat \<Rightarrow> nat list \<Rightarrow> nat list res" where
  "ra_fill a m v regs =
     (if a + m \<le> length regs then Inr (take a regs @ replicate m v @ drop (a + m) regs)
      else Inl UndefinedBehaviour)"

function ra_block_info :: "(nat \<times> nat) list \<Rightarrow> nat \<Rightarrow> nat \<Rightarrow> nat list \<Rightarrow> nat list res" where
  "ra_block_info l bs i regs =
     (if i < length l then
        (if fst (l ! i) \<noteq> 0
         then res_bind (ra_fill (i * bs) (fst (l ! i) * bs) (snd (l ! i)) regs)
                (\<lambda>regs'. ra_block_info l bs (i + fst (l ! i)) regs')
         else ra_block_info l bs (i + 1) regs)
      else Inr regs)"
  by pat_completeness auto
termination by (relation "measure (\<lambda>(l, bs, i, regs). length l - i)") auto

declare ra_block_info.simps [simp del]

definition GetBlockInfo :: "type_info \<Rightarrow> nat list res" where
  "GetBlockInfo t = ra_block_info (ti_list t) (ti_blockSize t) 0
     (replicate (length (ti_list t) * ti_blockSize t) INVALID_LFID)"

section \<open>Areas\<close>

text \<open>Block \<open>k\<close> belongs to the area that starts at block \<open>i\<close>.\<close>

definition in_area :: "nat list \<Rightarrow> nat \<Rightarrow> nat \<Rightarrow> bool" where
  "in_area fs i k \<longleftrightarrow> i < length fs \<and> i \<le> k \<and> k < i + fs ! i"

definition free_run :: "nat list \<Rightarrow> nat \<Rightarrow> nat \<Rightarrow> bool" where
  "free_run fs n s \<longleftrightarrow> s + n \<le> length fs \<and> (\<forall>k i. s \<le> k \<and> k < s + n \<longrightarrow> \<not> in_area fs i k)"

text \<open>Areas lie inside the list and do not overlap.\<close>

definition areas_wf :: "nat list \<Rightarrow> bool" where
  "areas_wf fs \<longleftrightarrow> (\<forall>i<length fs. i + fs ! i \<le> length fs
     \<and> (\<forall>j. i < j \<and> j < i + fs ! i \<longrightarrow> fs ! j = 0))"

lemma areas_wf_code [code]: "areas_wf fs \<longleftrightarrow>
    list_all (\<lambda>i. i + fs ! i \<le> length fs \<and> list_all (\<lambda>j. fs ! j = 0) [i + 1..<i + fs ! i])
      [0..<length fs]"
  unfolding areas_wf_def list_all_iff by (simp add: Ball_def Suc_le_eq imp_conjL)

text \<open>No area reaches over \<open>p\<close>.\<close>

definition area_boundary :: "nat list \<Rightarrow> nat \<Rightarrow> bool" where
  "area_boundary fs p \<longleftrightarrow> (\<forall>i<length fs. i < p \<longrightarrow> i + fs ! i \<le> p)"

lemma area_boundary_0 [simp]: "area_boundary fs 0"
  by (simp add: area_boundary_def)

lemma area_boundary_zeros:
  assumes "area_boundary fs s" and "\<And>k. s \<le> k \<Longrightarrow> k < p \<Longrightarrow> fs ! k = 0" and "s \<le> p"
  shows "area_boundary fs p" and "s \<le> k \<Longrightarrow> k < p \<Longrightarrow> \<not> in_area fs i k"
proof -
  show "area_boundary fs p"
    unfolding area_boundary_def
  proof (intro allI impI)
    fix i
    assume i: "i < length fs" "i < p"
    show "i + fs ! i \<le> p"
    proof (cases "i < s")
      case True
      then show ?thesis using assms(1,3) i by (fastforce simp: area_boundary_def)
    next
      case False
      then show ?thesis using assms(2) [of i] i by simp
    qed
  qed
  assume k: "s \<le> k" "k < p"
  show "\<not> in_area fs i k"
  proof
    assume a: "in_area fs i k"
    show False
    proof (cases "i < s")
      case True
      then have "i + fs ! i \<le> s" using assms(1) a by (simp add: area_boundary_def in_area_def)
      then show ?thesis using a k by (simp add: in_area_def)
    next
      case False
      then have "fs ! i = 0" using assms(2) [of i] a k by (simp add: in_area_def)
      then show ?thesis using a by (auto simp: in_area_def)
    qed
  qed
qed

lemma area_boundary_skip:
  assumes "areas_wf fs" and "area_boundary fs p" and "p < length fs"
  shows "area_boundary fs (p + fs ! p)"
  unfolding area_boundary_def
proof (intro allI impI)
  fix i
  assume i: "i < length fs" "i < p + fs ! p"
  consider "i < p" | "i = p" | "p < i" by linarith
  then show "i + fs ! i \<le> p + fs ! p"
  proof cases
    case 1
    then show ?thesis using assms(2) i by (fastforce simp: area_boundary_def)
  next
    case 3
    then have "fs ! i = 0" using assms(1,3) i unfolding areas_wf_def by blast
    then show ?thesis using i by simp
  qed simp
qed

lemma ra_inner_spec:
  assumes "ra_inner fs n s pos = (r, p)" and "s \<le> pos" and "pos - s < n"
    and "\<And>k. s \<le> k \<Longrightarrow> k < pos \<Longrightarrow> fs ! k = 0"
  shows "(\<forall>k. s \<le> k \<and> k < p \<longrightarrow> fs ! k = 0) \<and> pos \<le> p \<and> p - s < n
    \<and> (case r of Some s' \<Rightarrow> s' = s \<and> p + 1 = s + n \<and> p < length fs \<and> fs ! p = 0
       | None \<Rightarrow> p < length fs \<longrightarrow> fs ! p \<noteq> 0)"
  using assms
proof (induction fs n s pos arbitrary: r p rule: ra_inner.induct)
  case (1 fs n s pos)
  show ?case
  proof (cases "pos < length fs \<and> fs ! pos = 0")
    case False
    then have "r = None" "p = pos" using 1(2) by (auto simp: ra_inner.simps [of fs n s pos])
    then show ?thesis using False 1(3-5) by auto
  next
    case True
    show ?thesis
    proof (cases "pos - s + 1 = n")
      case found: True
      then have "r = Some s" "p = pos" using 1(2) True by (auto simp: ra_inner.simps [of fs n s pos])
      then show ?thesis using True found 1(3-5) by auto
    next
      case False
      have eq: "ra_inner fs n s (pos + 1) = (r, p)"
        using 1(2) True False by (auto simp: ra_inner.simps [of fs n s pos])
      have z: "fs ! k = 0" if "s \<le> k" "k < pos + 1" for k
        using that 1(5) True by (cases "k = pos") auto
      have "pos + 1 - s < n" using False 1(3,4) by linarith
      from 1(1) [OF True False eq _ this z] 1(3) show ?thesis by (cases r) auto
    qed
  qed
qed

lemma ra_search_first_fit:
  assumes "areas_wf fs" and "area_boundary fs pos" and "0 < n" and "\<And>s. s < pos \<Longrightarrow> \<not> free_run fs n s"
  shows "case ra_search fs n pos of
      Some s \<Rightarrow> free_run fs n s \<and> (\<forall>t < s. \<not> free_run fs n t)
    | None \<Rightarrow> \<forall>s. \<not> free_run fs n s"
  using assms
proof (induction fs n pos rule: ra_search.induct)
  case (1 fs n pos)
  show ?case
  proof (cases "pos < length fs")
    case False
    then have "\<not> free_run fs n s" for s
      using 1(6) [of s] \<open>0 < n\<close> by (cases "s < pos") (auto simp: free_run_def)
    then show ?thesis using False by (simp add: ra_search.simps [of fs n pos])
  next
    case lt: True
    show ?thesis
    proof (cases "fs ! pos = 0")
      case False
      have "\<not> free_run fs n s" if "s < pos + fs ! pos" for s
      proof (cases "s < pos")
        case False
        then have "in_area fs pos s" using that lt by (simp add: in_area_def)
        moreover have "s < s + n" using \<open>0 < n\<close> by simp
        ultimately show ?thesis unfolding free_run_def by blast
      qed (rule 1(6))
      with 1(1) [OF lt False \<open>areas_wf fs\<close> area_boundary_skip [OF 1(3,4) lt] \<open>0 < n\<close>]
      show ?thesis using lt False by (simp add: ra_search.simps [of fs n pos])
    next
      case zero: True
      obtain r p where rp: "ra_inner fs n pos pos = (r, p)" by (cases "ra_inner fs n pos pos")
      note spec = ra_inner_spec [OF rp order_refl, simplified, OF \<open>0 < n\<close>]
      have z: "pos \<le> k \<Longrightarrow> k < p \<Longrightarrow> fs ! k = 0" for k using spec by simp
      have le: "pos \<le> p" using spec by simp
      show ?thesis
      proof (cases r)
        case (Some s)
        then have s: "s = pos" "p + 1 = s + n" "p < length fs" "fs ! p = 0" using spec by simp_all
        have z': "fs ! k = 0" if "pos \<le> k" "k < p + 1" for k
          using that z s(4) by (cases "k = p") auto
        have "free_run fs n pos"
          using area_boundary_zeros(2) [OF 1(4) z', of "p + 1"] s le by (simp add: free_run_def)
        then show ?thesis using lt zero rp Some s(1) 1(6) by (simp add: ra_search.simps [of fs n pos])
      next
        case None
        have b: "area_boundary fs p" using area_boundary_zeros(1) [OF 1(4) z le] .
        have "\<not> free_run fs n s" if "s < p" for s
        proof (cases "s < pos")
          case False
          have "p < s + n" using spec False that le by linarith
          show ?thesis
          proof (cases "p < length fs")
            case True
            then have "in_area fs p p" using spec None by (simp add: in_area_def)
            then show ?thesis using \<open>p < s + n\<close> \<open>s < p\<close> unfolding free_run_def by (meson less_imp_le)
          next
            case False
            then show ?thesis using \<open>p < s + n\<close> by (simp add: free_run_def)
          qed
        qed (rule 1(6))
        with 1(2) [OF lt _ rp [symmetric] None \<open>areas_wf fs\<close> b \<open>0 < n\<close>] zero
        show ?thesis using lt rp None by (simp add: ra_search.simps [of fs n pos])
      qed
    qed
  qed
qed

section \<open>The invariant\<close>

abbreviation ti_areas :: "type_info \<Rightarrow> nat list" where
  "ti_areas t \<equiv> map fst (ti_list t)"

definition ra_wf :: "type_info \<Rightarrow> bool" where
  "ra_wf t \<longleftrightarrow> 0 < ti_blockSize t \<and> length (ti_list t) * ti_blockSize t < 2 ^ 32
     \<and> areas_wf (ti_areas t) \<and> ti_free t CONTEXT_EXCLUSIVE \<le> 1
     \<and> ti_free t CONTEXT_NORMAL + ti_free t CONTEXT_RESERVED + ti_free t CONTEXT_EXCLUSIVE
         + sum_list (ti_areas t) = length (ti_list t)"

lemma ra_wf_bound: "ra_wf t \<Longrightarrow> length (ti_list t) < 2 ^ 32"
  unfolding ra_wf_def by (metis One_nat_def Suc_leI le_less_trans mult.right_neutral mult_le_mono2)

lemma type_info_init_wf:
  "type_info_init bs n = Inr t \<Longrightarrow> n < 2 ^ 32 \<Longrightarrow> ra_wf t"
  by (auto simp: type_info_init_def ra_wf_def areas_wf_def sum_list_replicate Let_def split: if_splits)

lemma ra_blocks_enough:
  assumes "0 < bs" and "n + bs \<le> 2 ^ 32"
  shows "n \<le> ra_blocks bs n * bs" and "0 < n \<Longrightarrow> 0 < ra_blocks bs n"
proof -
  have "(n + bs - 1) mod 2 ^ 32 = n + bs - 1" using assms by simp
  then have b: "ra_blocks bs n = (n + bs - 1) div bs" by (simp add: ra_blocks_def)
  have "n + bs - 1 < ra_blocks bs n * bs + bs"
    unfolding b using assms(1) by (metis add.commute dividend_less_div_times)
  then show "n \<le> ra_blocks bs n * bs" by linarith
  then show "0 < n \<Longrightarrow> 0 < ra_blocks bs n" by (cases "ra_blocks bs n") auto
qed

lemma sum_list_take_area:
  "s < length fs \<Longrightarrow> fs ! s = 0 \<Longrightarrow> sum_list (fs[s := b]) = sum_list fs + (b :: nat)"
  by (induction fs arbitrary: s) (auto split: nat.split)

lemma sum_list_give_area:
  "s < length fs \<Longrightarrow> sum_list (fs[s := 0]) + fs ! s = sum_list (fs :: nat list)"
  by (induction fs arbitrary: s) (auto split: nat.split simp: nth_Cons')

lemma free_run_start: "free_run fs b s \<Longrightarrow> 0 < b \<Longrightarrow> s < length fs \<and> fs ! s = 0"
  by (fastforce simp: free_run_def in_area_def)

lemma areas_wf_take:
  assumes "areas_wf fs" and "free_run fs b s" and "0 < b"
  shows "areas_wf (fs[s := b])"
  unfolding areas_wf_def
proof (intro allI impI conjI)
  fix i
  assume i: "i < length (fs[s := b])"
  note st = free_run_start [OF assms(2,3)]
  show "i + fs[s := b] ! i \<le> length (fs[s := b])"
    using i assms(1,2) st by (cases "i = s") (auto simp: areas_wf_def free_run_def)
  fix j
  assume j: "i < j \<and> j < i + fs[s := b] ! i"
  show "fs[s := b] ! j = 0"
  proof (cases "i = s")
    case True
    then have "j < s + b" using j st by simp
    then have "\<not> in_area fs j j" "j < length fs" using assms(2) j True by (auto simp: free_run_def)
    then have "fs ! j = 0" by (simp add: in_area_def)
    then show ?thesis using j True by simp
  next
    case False
    then have a: "j < i + fs ! i" using j by simp
    have "s \<noteq> j"
    proof
      assume "s = j"
      then have "in_area fs i s" using a i j by (simp add: in_area_def)
      then show False using assms(2,3) unfolding free_run_def by (metis less_add_same_cancel1 order_refl)
    qed
    then show ?thesis using a j i assms(1) by (auto simp: areas_wf_def)
  qed
qed

lemma areas_wf_give:
  assumes "areas_wf fs"
  shows "areas_wf (fs[s := 0])"
  unfolding areas_wf_def
proof (intro allI impI conjI)
  fix i
  assume i: "i < length (fs[s := 0])"
  then have le: "fs[s := 0] ! i \<le> fs ! i" by (cases "i = s") auto
  then show "i + fs[s := 0] ! i \<le> length (fs[s := 0])"
    using assms i unfolding areas_wf_def by fastforce
  fix j
  assume "i < j \<and> j < i + fs[s := 0] ! i"
  then have "fs ! j = 0" "j < length fs"
    using assms i le unfolding areas_wf_def by fastforce+
  then show "fs[s := 0] ! j = 0" by (cases "j = s") auto
qed

text \<open>What a successful allocation means for one register type.\<close>

definition ra_granted :: "nat \<Rightarrow> nat \<Rightarrow> nat option \<Rightarrow> type_info \<Rightarrow> type_info \<Rightarrow> bool" where
  "ra_granted n fid i t t' \<longleftrightarrow> ti_blockSize t' = ti_blockSize t
     \<and> (if n = 0 then i = None \<and> ti_list t' = ti_list t
        else \<exists>s b. i = Some (s * ti_blockSize t) \<and> n \<le> b * ti_blockSize t \<and> 0 < b
               \<and> free_run (ti_areas t) b s \<and> ti_list t' = (ti_list t)[s := (b, fid)])"

text \<open>And what a refused one means.\<close>

definition ra_no_room :: "ContextType \<Rightarrow> nat \<Rightarrow> type_info \<Rightarrow> bool" where
  "ra_no_room c n t \<longleftrightarrow> n \<noteq> 0 \<and> (let b = ra_blocks (ti_blockSize t) n in
     ti_free t CONTEXT_NORMAL + of_bool (c \<noteq> CONTEXT_NORMAL) < b
     \<or> (\<forall>s. \<not> free_run (ti_areas t) b s))"

text \<open>The caller has checked that the pool of its context is not empty, and the size asked for can be
  rounded up to blocks in 32 bits.\<close>

definition ra_ready :: "ContextType \<Rightarrow> nat \<Rightarrow> type_info \<Rightarrow> bool" where
  "ra_ready c n t \<longleftrightarrow> ra_wf t \<and> n + ti_blockSize t \<le> 2 ^ 32
     \<and> (c = CONTEXT_NORMAL \<or> 0 < ti_free t c)"

lemma ra_ready_pool: "ra_ready c n t \<Longrightarrow> c \<noteq> CONTEXT_NORMAL \<Longrightarrow>
    ti_free t CONTEXT_NORMAL + 1 \<le> length (ti_list t)"
  by (cases c) (auto simp: ra_ready_def ra_wf_def)

lemma ra_find_spec:
  assumes "ra_ready c n t" and "0 < n"
  shows "\<exists>r. ra_find c n t = Inr r \<and> (case r of None \<Rightarrow> ra_no_room c n t
    | Some i \<Rightarrow> \<exists>s. i = s * ti_blockSize t
        \<and> free_run (ti_areas t) (ra_blocks (ti_blockSize t) n) s
        \<and> ra_blocks (ti_blockSize t) n \<le> ti_free t CONTEXT_NORMAL + of_bool (c \<noteq> CONTEXT_NORMAL))"
proof -
  let ?b = "ra_blocks (ti_blockSize t) n" and ?bs = "ti_blockSize t"
  have wf: "ra_wf t" using assms(1) by (simp add: ra_ready_def)
  have b: "0 < ?b" using assms ra_blocks_enough(2) [of ?bs n] by (simp add: ra_ready_def ra_wf_def)
  have free: "(if c \<noteq> CONTEXT_NORMAL then (ti_free t CONTEXT_NORMAL + 1) mod 2 ^ 32
      else ti_free t CONTEXT_NORMAL) = ti_free t CONTEXT_NORMAL + of_bool (c \<noteq> CONTEXT_NORMAL)"
    using ra_ready_pool [OF assms(1)] ra_wf_bound [OF wf] by auto
  have le: "ti_free t CONTEXT_NORMAL + of_bool (c \<noteq> CONTEXT_NORMAL) \<le> length (ti_list t)"
    using ra_ready_pool [OF assms(1)] wf by (cases "c = CONTEXT_NORMAL") (auto simp: ra_wf_def)
  have ff: "case ra_search (ti_areas t) ?b 0 of
      Some s \<Rightarrow> free_run (ti_areas t) ?b s \<and> (\<forall>u < s. \<not> free_run (ti_areas t) ?b u)
    | None \<Rightarrow> \<forall>s. \<not> free_run (ti_areas t) ?b s"
    using ra_search_first_fit [of "ti_areas t" 0 ?b] wf b by (simp add: ra_wf_def)
  show ?thesis
  proof (cases "?b \<le> ti_free t CONTEXT_NORMAL + of_bool (c \<noteq> CONTEXT_NORMAL)
      \<and> ra_search (ti_areas t) ?b 0 \<noteq> None")
    case False
    then have "ra_find c n t = Inr None" "ra_no_room c n t"
      using ff le assms(2) by (auto simp: ra_find_def ra_no_room_def Let_def free)
    then show ?thesis by simp
  next
    case True
    then obtain s where s: "ra_search (ti_areas t) ?b 0 = Some s" by blast
    then have fr: "free_run (ti_areas t) ?b s" using ff by simp
    then have "s < length (ti_list t)" using b by (auto simp: free_run_def)
    then have "s * ?bs < 2 ^ 32"
      using wf unfolding ra_wf_def by (meson le_less_trans less_imp_le mult_le_mono1)
    then have "ra_find c n t = Inr (Some (s * ?bs))"
      using True s le by (simp add: ra_find_def Let_def free)
    then show ?thesis using fr True by auto
  qed
qed

lemma ra_take_spec:
  assumes "ra_ready c n t" and "0 < n"
    and "free_run (ti_areas t) (ra_blocks (ti_blockSize t) n) s"
    and "ra_blocks (ti_blockSize t) n \<le> ti_free t CONTEXT_NORMAL + of_bool (c \<noteq> CONTEXT_NORMAL)"
  shows "\<exists>t'. ra_take c fid n (s * ti_blockSize t) t = Inr t' \<and> ra_wf t'
    \<and> ra_granted n fid (Some (s * ti_blockSize t)) t t'"
proof -
  let ?b = "ra_blocks (ti_blockSize t) n" and ?bs = "ti_blockSize t"
  let ?l = "(ti_list t)[s := (?b, fid)]"
  have wf: "ra_wf t" using assms(1) by (simp add: ra_ready_def)
  have bs: "0 < ?bs" "n + ?bs \<le> 2 ^ 32" using assms(1) by (simp_all add: ra_ready_def ra_wf_def)
  note b = ra_blocks_enough(2) [OF bs assms(2)]
  note st = free_run_start [OF assms(3) b]
  have sum: "sum_list (map fst ?l) = sum_list (ti_areas t) + ?b"
    using st by (simp add: map_update sum_list_take_area)
  have areas: "areas_wf (map fst ?l)"
    using areas_wf_take [OF _ assms(3) b] wf by (simp add: map_update ra_wf_def)
  have "\<exists>f. ra_take c fid n (s * ?bs) t = Inr (t\<lparr>ti_list := ?l, ti_free := f\<rparr>)
      \<and> f CONTEXT_EXCLUSIVE \<le> ti_free t CONTEXT_EXCLUSIVE
      \<and> f CONTEXT_NORMAL + f CONTEXT_RESERVED + f CONTEXT_EXCLUSIVE + ?b
        = ti_free t CONTEXT_NORMAL + ti_free t CONTEXT_RESERVED + ti_free t CONTEXT_EXCLUSIVE"
    using assms(1,4) bs(1) b
    by (intro exI [of _ "if c = CONTEXT_NORMAL
          then (ti_free t)(CONTEXT_NORMAL := ti_free t CONTEXT_NORMAL - ?b)
          else (ti_free t)(c := ti_free t c - 1, CONTEXT_NORMAL := ti_free t CONTEXT_NORMAL - (?b - 1))"],
        cases c) (auto simp: ra_take_def ti_take_normal_def ra_ready_def Let_def)
  then obtain f where f: "ra_take c fid n (s * ?bs) t = Inr (t\<lparr>ti_list := ?l, ti_free := f\<rparr>)"
      "f CONTEXT_EXCLUSIVE \<le> ti_free t CONTEXT_EXCLUSIVE"
      "f CONTEXT_NORMAL + f CONTEXT_RESERVED + f CONTEXT_EXCLUSIVE + ?b
        = ti_free t CONTEXT_NORMAL + ti_free t CONTEXT_RESERVED + ti_free t CONTEXT_EXCLUSIVE" by blast
  have "ra_wf (t\<lparr>ti_list := ?l, ti_free := f\<rparr>)"
    using wf f(2,3) sum areas by (simp add: ra_wf_def)
  moreover have "ra_granted n fid (Some (s * ?bs)) t (t\<lparr>ti_list := ?l, ti_free := f\<rparr>)"
    using assms(2,3) ra_blocks_enough(1) [OF bs] b unfolding ra_granted_def by auto
  ultimately show ?thesis using f(1) by blast
qed

lemma ra_skip_spec:
  "ra_ready c n t \<Longrightarrow> n = 0 \<Longrightarrow> (c \<noteq> CONTEXT_RESERVED \<longrightarrow> ra_wf (ra_skip c t)) \<and> ra_granted n fid None t (ra_skip c t)"
  by (auto simp: ra_skip_def ra_granted_def ra_ready_def)

fun ra_ready_all :: "ContextType \<Rightarrow> nat list \<Rightarrow> type_info list \<Rightarrow> bool" where
  "ra_ready_all c [] [] \<longleftrightarrow> True"
| "ra_ready_all c (n # ns) (t # ts) \<longleftrightarrow> ra_ready c n t \<and> ra_ready_all c ns ts"
| "ra_ready_all c _ _ \<longleftrightarrow> False"

fun ra_granted_all ::
  "nat list \<Rightarrow> nat \<Rightarrow> nat option list \<Rightarrow> type_info list \<Rightarrow> type_info list \<Rightarrow> bool" where
  "ra_granted_all [] fid [] [] [] \<longleftrightarrow> True"
| "ra_granted_all (n # ns) fid (i # is) (t # ts) (t' # ts') \<longleftrightarrow>
     ra_granted n fid i t t' \<and> ra_granted_all ns fid is ts ts'"
| "ra_granted_all _ fid _ _ _ \<longleftrightarrow> False"

text \<open>The counters of a type fit its areas afterwards, but for the type that a reserved context asks
  nothing of.\<close>

fun ra_kept_all :: "ContextType \<Rightarrow> nat list \<Rightarrow> type_info list \<Rightarrow> bool" where
  "ra_kept_all c [] [] \<longleftrightarrow> True"
| "ra_kept_all c (n # ns) (t # ts) \<longleftrightarrow> (\<not> (c = CONTEXT_RESERVED \<and> n = 0) \<longrightarrow> ra_wf t) \<and> ra_kept_all c ns ts"
| "ra_kept_all c _ _ \<longleftrightarrow> False"

lemma ra_kept_all_wf:
  "ra_kept_all c ns ts \<Longrightarrow> c \<noteq> CONTEXT_RESERVED \<or> 0 \<notin> set ns \<Longrightarrow> \<forall>t\<in>set ts. ra_wf t"
  by (induction c ns ts rule: ra_kept_all.induct) auto

lemma ra_kept_all_nth: "ra_kept_all c ns ts \<Longrightarrow> length ts = length ns
    \<and> (\<forall>k<length ts. c = CONTEXT_RESERVED \<and> ns ! k = 0 \<or> ra_wf (ts ! k))"
proof (induction c ns ts rule: ra_kept_all.induct)
  case (2 c n ns t ts)
  then show ?case by (auto simp: nth_Cons split: nat.splits)
qed simp_all

lemma ra_Alloc_all:
  assumes "ra_ready_all c ns ts"
  shows "\<exists>r. ra_find_all c ns ts = Inr r \<and> (case r of
      None \<Rightarrow> \<exists>k<length ts. ra_no_room c (ns ! k) (ts ! k)
    | Some is \<Rightarrow> \<exists>ts'. ra_take_all c fid ns is ts = Inr ts' \<and> ra_kept_all c ns ts'
        \<and> ra_granted_all ns fid is ts ts')"
  using assms
proof (induction c ns ts rule: ra_ready_all.induct)
  case (2 c n ns t ts)
  then obtain r where r: "ra_find_all c ns ts = Inr r" and rest: "case r of
      None \<Rightarrow> \<exists>k<length ts. ra_no_room c (ns ! k) (ts ! k)
    | Some is \<Rightarrow> \<exists>ts'. ra_take_all c fid ns is ts = Inr ts' \<and> ra_kept_all c ns ts'
        \<and> ra_granted_all ns fid is ts ts'" by auto
  have ready: "ra_ready c n t" using 2 by simp
  have no: "\<exists>k<length (t # ts). ra_no_room c ((n # ns) ! k) ((t # ts) ! k)" if none: "r = None"
  proof -
    obtain k where "k < length ts" "ra_no_room c (ns ! k) (ts ! k)" using rest none by auto
    then show ?thesis by (intro exI [of _ "Suc k"]) simp
  qed
  show ?case
  proof (cases "n = 0")
    case True
    note sk = ra_skip_spec [OF ready True, of fid]
    show ?thesis
    proof (cases r)
      case None
      then show ?thesis using True r no by simp
    next
      case (Some "is")
      then show ?thesis using True r rest sk by auto
    qed
  next
    case False
    then have pos: "0 < n" by simp
    obtain q where q: "ra_find c n t = Inr q" and qs: "case q of None \<Rightarrow> ra_no_room c n t
    | Some i \<Rightarrow> \<exists>s. i = s * ti_blockSize t
        \<and> free_run (ti_areas t) (ra_blocks (ti_blockSize t) n) s
        \<and> ra_blocks (ti_blockSize t) n \<le> ti_free t CONTEXT_NORMAL + of_bool (c \<noteq> CONTEXT_NORMAL)"
      using ra_find_spec [OF ready pos] by blast
    show ?thesis
    proof (cases q)
      case None
      then have "ra_no_room c ((n # ns) ! 0) ((t # ts) ! 0)" using qs by simp
      then have "\<exists>k<length (t # ts). ra_no_room c ((n # ns) ! k) ((t # ts) ! k)" by blast
      then show ?thesis using None False q by simp
    next
      case (Some i)
      then obtain t' where t': "ra_take c fid n i t = Inr t'" "ra_wf t'" "ra_granted n fid (Some i) t t'"
        using qs ra_take_spec [OF ready pos] by auto
      show ?thesis
      proof (cases r)
        case None
        then show ?thesis using Some False q r no by simp
      next
        case (Some "is")
        then show ?thesis using \<open>q = Some i\<close> False q r rest t' by auto
      qed
    qed
  qed
qed simp_all

text \<open>
  The search for registers is first fit: in a list whose areas do not overlap it returns the
  first block from which enough blocks belong to no area, and it fails only when there is no such
  place.
\<close>

theorem ra_search_finds_first:
  assumes "areas_wf fs" and "0 < n"
  shows "case ra_search fs n 0 of
      Some s \<Rightarrow> free_run fs n s \<and> (\<forall>u < s. \<not> free_run fs n u)
    | None \<Rightarrow> \<forall>s. \<not> free_run fs n s"
  using ra_search_first_fit [OF assms(1) _ assms(2), of 0] by simp

theorem ra_search_finds_first_witness:
  "case ra_search [2, 0, 0, 1, 0, 0] 2 0 of
     Some s \<Rightarrow> s = 4 \<and> free_run [2, 0, 0, 1, 0, 0] 2 s \<and> (\<forall>u < s. \<not> free_run [2, 0, 0, 1, 0, 0] 2 u)
   | None \<Rightarrow> False"
proof -
  have "areas_wf [2, 0, 0, 1, 0, 0]" by code_simp
  moreover have "ra_search [2, 0, 0, 1, 0, 0] 2 0 = Some 4"
    by (simp add: ra_search.simps ra_inner.simps)
  ultimately show ?thesis using ra_search_finds_first [of "[2, 0, 0, 1, 0, 0]" 2] by simp
qed

text \<open>
  C21. Allocating registers for a context that is available, with sizes that can be rounded up to
  blocks, trips no assertion. It either fails and changes nothing, when for some type the pool is too
  small or no free area is large enough, or it gives each type that asks for registers an area of
  blocks that was free and is large enough, entered for the family. Afterwards areas are disjoint and
  the counters add up with them for every type, with one exception: a type of which a reserved
  context asks nothing, whose reserved block is counted twice from then on
  (\<open>ra_reserved_leak\<close>).
\<close>

theorem ra_Alloc_correct:
  assumes "ra_ready_all c ns ts"
  shows "\<exists>r ts'. ra_Alloc PHASE_COMMIT ns fid c ts = Inr (r, ts') \<and> (case r of
      None \<Rightarrow> ts' = ts \<and> (\<exists>k<length ts. ra_no_room c (ns ! k) (ts ! k))
    | Some is \<Rightarrow> ra_granted_all ns fid is ts ts' \<and> length ts' = length ns
        \<and> (\<forall>k<length ts'. c = CONTEXT_RESERVED \<and> ns ! k = 0 \<or> ra_wf (ts' ! k)))"
proof -
  obtain r where r: "ra_find_all c ns ts = Inr r" "case r of
      None \<Rightarrow> \<exists>k<length ts. ra_no_room c (ns ! k) (ts ! k)
    | Some is \<Rightarrow> \<exists>ts'. ra_take_all c fid ns is ts = Inr ts' \<and> ra_kept_all c ns ts'
        \<and> ra_granted_all ns fid is ts ts'"
    using ra_Alloc_all [OF assms] by blast
  then show ?thesis using ra_kept_all_nth by (cases r) (fastforce simp: ra_Alloc_def)+
qed

definition ra_example :: "type_info" where
  "ra_example = \<lparr>ti_list = [(1, 3), (0, 0), (0, 0), (0, 0)], ti_blockSize = 32,
     ti_free = (\<lambda>c. case c of CONTEXT_NORMAL \<Rightarrow> 2 | CONTEXT_RESERVED \<Rightarrow> 0 | CONTEXT_EXCLUSIVE \<Rightarrow> 1)\<rparr>"

lemma ra_example_wf: "ra_wf ra_example"
proof -
  have "areas_wf (ti_areas ra_example)" by code_simp
  then show ?thesis by (simp add: ra_wf_def) (simp add: ra_example_def)
qed

theorem ra_Alloc_correct_witness:
  "\<exists>ts'. ra_Alloc PHASE_COMMIT [50, 0] 7 CONTEXT_NORMAL [ra_example, ra_example]
     = Inr (Some [Some 32, None], ts') \<and> ra_wf (ts' ! 0) \<and> ra_wf (ts' ! 1)"
proof -
  have "ra_ready_all CONTEXT_NORMAL [50, 0] [ra_example, ra_example]"
    using ra_example_wf by (simp add: ra_ready_def ra_example_def)
  from ra_Alloc_correct [OF this, of 7] obtain r ts' where
    *: "ra_Alloc PHASE_COMMIT [50, 0] 7 CONTEXT_NORMAL [ra_example, ra_example] = Inr (r, ts')"
    and r: "case r of None \<Rightarrow> ts' = [ra_example, ra_example] \<and> (\<exists>k<length [ra_example, ra_example].
        ra_no_room CONTEXT_NORMAL ([50, 0] ! k) ([ra_example, ra_example] ! k))
      | Some is \<Rightarrow> ra_granted_all [50, 0] 7 is [ra_example, ra_example] ts' \<and> length ts' = length [50, 0 :: nat]
        \<and> (\<forall>k<length ts'. CONTEXT_NORMAL = CONTEXT_RESERVED \<and> [50, 0] ! k = (0 :: nat) \<or> ra_wf (ts' ! k))" by blast
  moreover have "fst (projr (ra_Alloc PHASE_COMMIT [50, 0] 7 CONTEXT_NORMAL [ra_example, ra_example]))
      = Some [Some 32, None]"
    by (simp add: ra_Alloc_def ra_find_def ra_take_def ra_skip_def ti_take_normal_def ra_blocks_def
        ra_example_def ra_search.simps ra_inner.simps)
  ultimately have "r = Some [Some 32, None]" by simp
  then show ?thesis using * r by simp
qed

section \<open>Freeing\<close>

lemma ra_release_spec:
  assumes "ra_wf t" and "k < length (ti_list t)" and "ti_areas t ! k \<noteq> 0"
    and "c = CONTEXT_EXCLUSIVE \<Longrightarrow> ti_free t CONTEXT_EXCLUSIVE = 0"
  shows "\<exists>t'. ra_release PHASE_COMMIT c (k * ti_blockSize t) t = Inr t' \<and> ra_wf t'
    \<and> ti_areas t' = (ti_areas t)[k := 0]
    \<and> ti_free t' = (if c = CONTEXT_EXCLUSIVE
        then (ti_free t)(CONTEXT_EXCLUSIVE := 1,
               CONTEXT_NORMAL := ti_free t CONTEXT_NORMAL + (ti_areas t ! k - 1))
        else (ti_free t)(CONTEXT_NORMAL := ti_free t CONTEXT_NORMAL + ti_areas t ! k))"
proof -
  let ?b = "ti_areas t ! k"
  have bs: "0 < ti_blockSize t" using assms(1) by (simp add: ra_wf_def)
  have sum: "sum_list ((ti_areas t)[k := 0]) + ?b = sum_list (ti_areas t)"
    using sum_list_give_area [of k "ti_areas t"] assms(2) by simp
  then have "ti_free t CONTEXT_NORMAL + ?b \<le> length (ti_list t)"
    using assms(1) unfolding ra_wf_def by linarith
  then have fit: "ti_free t CONTEXT_NORMAL + ?b < 2 ^ 32" using ra_wf_bound [OF assms(1)] by simp
  have areas: "areas_wf ((ti_areas t)[k := 0])"
    using areas_wf_give assms(1) by (simp add: ra_wf_def)
  let ?f = "if c = CONTEXT_EXCLUSIVE
        then (ti_free t)(CONTEXT_EXCLUSIVE := 1,
               CONTEXT_NORMAL := ti_free t CONTEXT_NORMAL + (?b - 1))
        else (ti_free t)(CONTEXT_NORMAL := ti_free t CONTEXT_NORMAL + ?b)"
  let ?t = "t\<lparr>ti_list := (ti_list t)[k := (0, snd (ti_list t ! k))], ti_free := ?f\<rparr>"
  have "ra_release PHASE_COMMIT c (k * ti_blockSize t) t = Inr ?t"
    using assms(2-4) bs fit by (auto simp: ra_release_def Let_def)
  moreover have "ra_wf ?t"
    using assms(1,3,4) sum areas by (auto simp: ra_wf_def map_update)
  moreover have "ti_areas ?t = (ti_areas t)[k := 0]" by (simp add: map_update)
  ultimately show ?thesis by (intro exI [of _ ?t]) simp
qed

lemma ra_take_release:
  assumes "ra_ready c n t" and "0 < n" and "c \<noteq> CONTEXT_RESERVED"
    and "free_run (ti_areas t) (ra_blocks (ti_blockSize t) n) s"
    and "ra_blocks (ti_blockSize t) n \<le> ti_free t CONTEXT_NORMAL + of_bool (c \<noteq> CONTEXT_NORMAL)"
    and "ra_take c fid n (s * ti_blockSize t) t = Inr t'"
  shows "\<exists>t''. ra_release PHASE_COMMIT c (s * ti_blockSize t) t' = Inr t'' \<and> ra_wf t''
    \<and> ti_areas t'' = ti_areas t \<and> ti_free t'' = ti_free t"
proof -
  let ?b = "ra_blocks (ti_blockSize t) n"
  have wf: "ra_wf t" using assms(1) by (simp add: ra_ready_def)
  have bs: "0 < ti_blockSize t" "n + ti_blockSize t \<le> 2 ^ 32"
    using assms(1) by (simp_all add: ra_ready_def ra_wf_def)
  note b = ra_blocks_enough(2) [OF bs assms(2)]
  note st = free_run_start [OF assms(4) b]
  have t': "ra_wf t'" using ra_take_spec [OF assms(1,2,4,5), of fid] assms(6) by simp
  have eq: "t' = t\<lparr>ti_list := (ti_list t)[s := (?b, fid)],
      ti_free := (if c = CONTEXT_NORMAL
          then (ti_free t)(CONTEXT_NORMAL := ti_free t CONTEXT_NORMAL - ?b)
          else (ti_free t)(c := ti_free t c - 1, CONTEXT_NORMAL := ti_free t CONTEXT_NORMAL - (?b - 1)))\<rparr>"
    using assms(3,6) bs(1) by (cases c) (auto simp: ra_take_def ti_take_normal_def Let_def)
  have ar: "ti_areas t' ! s = ?b" "ti_blockSize t' = ti_blockSize t" "s < length (ti_list t')"
    using st by (simp_all add: eq)
  have ex: "c = CONTEXT_EXCLUSIVE \<Longrightarrow> ti_free t CONTEXT_EXCLUSIVE = 1"
    using assms(1) wf by (auto simp: ra_ready_def ra_wf_def)
  then have "c = CONTEXT_EXCLUSIVE \<Longrightarrow> ti_free t' CONTEXT_EXCLUSIVE = 0" by (simp add: eq)
  with ra_release_spec [OF t' ar(3), of c] b obtain t'' where
    t'': "ra_release PHASE_COMMIT c (s * ti_blockSize t) t' = Inr t''" "ra_wf t''"
      "ti_areas t'' = (ti_areas t')[s := 0]"
      "ti_free t'' = (if c = CONTEXT_EXCLUSIVE
        then (ti_free t')(CONTEXT_EXCLUSIVE := 1,
               CONTEXT_NORMAL := ti_free t' CONTEXT_NORMAL + (?b - 1))
        else (ti_free t')(CONTEXT_NORMAL := ti_free t' CONTEXT_NORMAL + ?b))"
    unfolding ar(1,2) by auto
  have "ti_areas t'' = ti_areas t"
    using t''(3) st list_update_id [of "ti_areas t" s] by (simp add: eq map_update)
  moreover have "ti_free t'' = ti_free t"
    using t''(4) assms(3,5) ex b by (cases c) (auto simp: eq fun_eq_iff)
  ultimately show ?thesis using t''(1,2) by blast
qed

lemma ra_take_all_Free:
  assumes "ra_ready_all c ns ts" and "c \<noteq> CONTEXT_RESERVED"
    and "ra_find_all c ns ts = Inr (Some is)" and "ra_take_all c fid ns is ts = Inr ts'"
  shows "\<exists>ts''. ra_Free PHASE_COMMIT c is ts' = Inr ts'' \<and> (\<forall>t\<in>set ts''. ra_wf t)
    \<and> map ti_areas ts'' = map ti_areas ts \<and> map ti_free ts'' = map ti_free ts"
  using assms
proof (induction c ns ts arbitrary: "is" ts' rule: ra_ready_all.induct)
  case (2 c n ns t ts)
  have ready: "ra_ready c n t" "ra_ready_all c ns ts" using 2(2) by simp_all
  show ?case
  proof (cases "n = 0")
    case True
    then obtain js where js: "ra_find_all c ns ts = Inr (Some js)" "is = None # js"
      using 2(4) by (auto simp: res_bind_Inr)
    then obtain us where us: "ra_take_all c fid ns js ts = Inr us" "ts' = t # us"
      using 2(3,5) True by (auto simp: res_bind_Inr ra_skip_def)
    then obtain vs where "ra_Free PHASE_COMMIT c js us = Inr vs" "\<forall>t\<in>set vs. ra_wf t"
      "map ti_areas vs = map ti_areas ts" "map ti_free vs = map ti_free ts"
      using 2(1) [OF ready(2) 2(3) js(1)] by blast
    then show ?thesis using js us ready(1) by (simp add: ra_ready_def)
  next
    case False
    then have pos: "0 < n" by simp
    obtain i js where ij: "ra_find c n t = Inr (Some i)" "ra_find_all c ns ts = Inr (Some js)"
        "is = Some i # js"
      using 2(4) False by (auto simp: res_bind_Inr split: option.splits)
    then obtain t' us where us: "ra_take c fid n i t = Inr t'" "ra_take_all c fid ns js ts = Inr us"
        "ts' = t' # us"
      using 2(5) False by (auto simp: res_bind_Inr)
    obtain vs where vs: "ra_Free PHASE_COMMIT c js us = Inr vs" "\<forall>t\<in>set vs. ra_wf t"
      "map ti_areas vs = map ti_areas ts" "map ti_free vs = map ti_free ts"
      using 2(1) [OF ready(2) 2(3) ij(2) us(2)] by blast
    obtain s where s: "i = s * ti_blockSize t"
        "free_run (ti_areas t) (ra_blocks (ti_blockSize t) n) s"
        "ra_blocks (ti_blockSize t) n \<le> ti_free t CONTEXT_NORMAL + of_bool (c \<noteq> CONTEXT_NORMAL)"
      using ra_find_spec [OF ready(1) pos] ij(1) by auto
    obtain t'' where "ra_release PHASE_COMMIT c i t' = Inr t''" "ra_wf t''"
        "ti_areas t'' = ti_areas t" "ti_free t'' = ti_free t"
      using ra_take_release [OF ready(1) pos 2(3) s(2,3)] us(1) s(1) by blast
    then show ?thesis using vs ij us by simp
  qed
qed simp_all

text \<open>
  C22. Freeing what was just allocated for a normal or the exclusive context trips no assertion and
  restores the areas and the counters of every register type.
\<close>

theorem ra_Free_undoes_Alloc:
  assumes "ra_ready_all c ns ts" and "c \<noteq> CONTEXT_RESERVED"
    and "ra_Alloc PHASE_COMMIT ns fid c ts = Inr (Some is, ts')"
  shows "\<exists>ts''. ra_Free PHASE_COMMIT c is ts' = Inr ts'' \<and> (\<forall>t\<in>set ts''. ra_wf t)
    \<and> map ti_areas ts'' = map ti_areas ts \<and> map ti_free ts'' = map ti_free ts"
proof (rule ra_take_all_Free [OF assms(1,2)])
  show "ra_find_all c ns ts = Inr (Some is)" and "ra_take_all c fid ns is ts = Inr ts'"
    using assms(3) by (auto simp: ra_Alloc_def res_bind_Inr split: option.splits)
qed

theorem ra_Free_undoes_Alloc_witness:
  "\<exists>ts' ts''. ra_Alloc PHASE_COMMIT [50] 7 CONTEXT_EXCLUSIVE [ra_example] = Inr (Some [Some 32], ts')
     \<and> ra_Free PHASE_COMMIT CONTEXT_EXCLUSIVE [Some 32] ts' = Inr ts''
     \<and> map ti_free ts'' = [ti_free ra_example]"
proof -
  have r: "ra_ready_all CONTEXT_EXCLUSIVE [50] [ra_example]"
    using ra_example_wf by (simp add: ra_ready_def ra_example_def)
  have "\<exists>ts'. ra_Alloc PHASE_COMMIT [50] 7 CONTEXT_EXCLUSIVE [ra_example] = Inr (Some [Some 32], ts')"
    by (simp add: ra_Alloc_def ra_find_def ra_take_def ti_take_normal_def ra_blocks_def
        ra_example_def ra_search.simps ra_inner.simps)
  then obtain ts' where a: "ra_Alloc PHASE_COMMIT [50] 7 CONTEXT_EXCLUSIVE [ra_example]
      = Inr (Some [Some 32], ts')" by blast
  from ra_Free_undoes_Alloc [OF r _ a] obtain ts'' where
    "ra_Free PHASE_COMMIT CONTEXT_EXCLUSIVE [Some 32] ts' = Inr ts''"
    "map ti_free ts'' = map ti_free [ra_example]" by auto
  with a show ?thesis by auto
qed

text \<open>
  A reserved context that needs no registers of a type gives a block back to the normal pool but
  is not taken out of the reserved pool: the counters then add up to more than the blocks there are.
\<close>

lemma ra_reserved_leak:
  assumes "ra_wf t" and "0 < ti_free t CONTEXT_RESERVED"
  shows "\<not> ra_wf (ra_skip CONTEXT_RESERVED t)"
proof -
  have "ti_free t CONTEXT_NORMAL + 1 \<le> length (ti_list t)" using assms by (auto simp: ra_wf_def)
  then have "ti_free t CONTEXT_NORMAL + 1 < 2 ^ 32" using ra_wf_bound [OF assms(1)] by simp
  then show ?thesis using assms by (auto simp: ra_wf_def ra_skip_def)
qed

end
