(* ===== verification/Memory_Blocks.thy ===== *)
theory Memory_Blocks
  imports Virtual_Memory
begin

text \<open>
  Reading and writing \<open>VirtualMemory\<close> (arch/VirtualMemory.cpp). The memory is a map from the base
  address of a block to its 4096 bytes; a missing block reads as zero.
\<close>

definition BLOCK_SIZE :: nat where
  "BLOCK_SIZE = 4096"

text \<open>The blocks touched by a write, one per round; \<open>m\<close>, the mask, is missing when every byte is written.\<close>

definition vm_mask_at :: "bool list option \<Rightarrow> nat \<Rightarrow> bool" where
  "vm_mask_at m i = (case m of None \<Rightarrow> True | Some bs \<Rightarrow> bs ! i)"

definition vm_write_block :: "nat \<Rightarrow> nat \<Rightarrow> u8 list \<Rightarrow> bool list option \<Rightarrow> u8 list \<Rightarrow> u8 list" where
  "vm_write_block offset count data m blk = map (\<lambda>j.
     if offset \<le> j \<and> j < offset + count \<and> vm_mask_at m (j - offset) then data ! (j - offset) else blk ! j)
     [0..<BLOCK_SIZE]"

partial_function (option) vm_write_loop ::
  "u64 \<Rightarrow> nat \<Rightarrow> u8 list \<Rightarrow> bool list option \<Rightarrow> virtual_memory \<Rightarrow> virtual_memory option" where
  "vm_write_loop base offset data m vm =
     (if data \<noteq> [] then
        (let old = map_of (vm_blocks vm) base;
             blk = (case old of Some b \<Rightarrow> b | None \<Rightarrow> replicate BLOCK_SIZE 0);
             count = min (length data) (BLOCK_SIZE - offset)
         in vm_write_loop (base + of_nat BLOCK_SIZE) 0 (drop count data) (map_option (drop count) m)
              (vm\<lparr>vm_blocks := om_set base (vm_write_block offset count data m blk) (vm_blocks vm),
                  vm_total_allocated := (if old = None then vm_total_allocated vm + of_nat BLOCK_SIZE
                                         else vm_total_allocated vm)\<rparr>))
      else Some vm)"

definition vm_base :: "u64 \<Rightarrow> u64" where
  "vm_base address = address AND (- of_nat BLOCK_SIZE)"

definition vm_Write :: "u64 \<Rightarrow> u8 list \<Rightarrow> bool list option \<Rightarrow> virtual_memory \<Rightarrow> virtual_memory option" where
  "vm_Write address data m vm =
     vm_write_loop (vm_base address) (unat (address - vm_base address)) data m vm"

text \<open>The iterator of a read is the rest of the blocks. The bytes copied from a block start at the
  offset and are as many as remain, at most 4096; to run over the end of the block is undefined.\<close>

function vm_read_loop :: "(u64 \<times> u8 list) list \<Rightarrow> u64 \<Rightarrow> nat \<Rightarrow> nat \<Rightarrow> u8 list res" where
  "vm_read_loop pos base offset n =
     (if n = 0 then Inr []
      else case pos of
        [] \<Rightarrow> Inr (replicate n 0)
      | (b, blk) # ps \<Rightarrow>
          (let count = min n BLOCK_SIZE in
           if base < b
           then res_bind (vm_read_loop pos (base + of_nat BLOCK_SIZE) 0 (n - count))
                  (\<lambda>d. Inr (replicate count 0 @ d))
           else if offset + count \<le> length blk
           then res_bind (vm_read_loop ps (base + of_nat BLOCK_SIZE) 0 (n - count))
                  (\<lambda>d. Inr (take count (drop offset blk) @ d))
           else Inl UndefinedBehaviour))"
  by pat_completeness auto
termination by (relation "measure (\<lambda>(pos, base, offset, n). n)") (auto simp: BLOCK_SIZE_def)

declare vm_read_loop.simps [simp del]

definition vm_Read :: "u64 \<Rightarrow> nat \<Rightarrow> virtual_memory \<Rightarrow> u8 list res" where
  "vm_Read address n vm = vm_read_loop (om_lower_bound (vm_base address) (vm_blocks vm))
     (vm_base address) (unat (address - vm_base address)) n"

section \<open>Blocks and addresses\<close>

definition vm_byte :: "(u64 \<times> u8 list) list \<Rightarrow> u64 \<Rightarrow> u8" where
  "vm_byte blocks a = (case map_of blocks (vm_base a) of
     Some blk \<Rightarrow> blk ! unat (a - vm_base a) | None \<Rightarrow> 0)"

definition blocks_wf :: "(u64 \<times> u8 list) list \<Rightarrow> bool" where
  "blocks_wf blocks \<longleftrightarrow> om_wf blocks
     \<and> (\<forall>p\<in>set blocks. vm_base (fst p) = fst p \<and> length (snd p) = BLOCK_SIZE)"

lemma neg_BLOCK_SIZE: "(- of_nat BLOCK_SIZE :: u64) = NOT (mask 12)"
  by (simp add: BLOCK_SIZE_def mask_eq_exp_minus_1)

lemma vm_base_plus: "vm_base a + (a AND mask 12) = a"
proof -
  have "(a AND NOT (mask 12)) AND (a AND mask 12) = 0" by (intro bit_eqI) (auto simp: bit_simps)
  moreover have "(a AND NOT (mask 12)) OR (a AND mask 12) = a" by (intro bit_eqI) (auto simp: bit_simps)
  ultimately have "(a AND NOT (mask 12)) + (a AND mask 12) = a" 
    using word_plus_and_or [of "a AND NOT (mask 12)" "a AND mask 12"] by (simp only: add_0)
  then show ?thesis unfolding vm_base_def neg_BLOCK_SIZE .
qed

lemma vm_offset: "unat (a - vm_base a) = unat a mod 4096"
proof -
  have "a - vm_base a = a AND mask 12" using vm_base_plus [of a] by (metis add_diff_cancel_left')
  then show ?thesis by (simp add: take_bit_eq_mask [symmetric] take_bit_eq_mod unat_mod_distrib)
qed

lemma vm_base_unat: "unat (vm_base a) = unat a div 4096 * 4096"
proof -
  have "vm_base a = a - (a - vm_base a)" by simp
  then have "unat (vm_base a) = unat a - unat (a - vm_base a)"
    by (metis (no_types, lifting) div_mult_mod_eq le_add2 unat_sub vm_offset word_le_nat_alt)
  then show ?thesis unfolding vm_offset by (simp add: minus_mod_eq_div_mult)
qed

lemma vm_base_iff: "vm_base b = b \<longleftrightarrow> unat b mod 4096 = 0"
  by (metis add_cancel_right_right cancel_comm_monoid_add_class.diff_cancel div_mult_mod_eq
      unat_0 vm_base_unat vm_offset word_unat_eq_iff)

lemma aligned_bound:
  assumes "vm_base b = b"
  shows "unat b + 4096 \<le> 2 ^ 64"
proof -
  obtain q where q: "unat b = 4096 * q" using assms by (auto simp: vm_base_iff)
  have "unat b < 4096 * 2 ^ 52" using unsigned_less [of b] by simp
  then show ?thesis using q by simp
qed

lemma in_block:
  assumes "vm_base b = b" and "j < 4096"
  shows "vm_base (b + of_nat j) = b" and "unat (b + of_nat j - b) = j"
proof -
  have "unat (of_nat j :: u64) = j" using assms(2) by (simp add: unat_of_nat)
  then have u: "unat (b + of_nat j) = unat b + j"
    using aligned_bound [OF assms(1)] assms(2) by (simp add: unat_add_small)
  obtain q where q: "unat b = 4096 * q" using assms by (auto simp: vm_base_iff)
  have "unat (vm_base (b + of_nat j)) = unat b" unfolding vm_base_unat u q using assms(2) by simp
  then show "vm_base (b + of_nat j) = b" by (simp add: word_unat_eq_iff)
  show "unat (b + of_nat j - b) = j" using assms(2) by (simp add: unat_of_nat)
qed

lemma block_split: "a = vm_base a + of_nat (unat a mod 4096)"
proof -
  have "of_nat (unat (a - vm_base a)) = a - vm_base a" by simp
  then have "of_nat (unat a mod 4096) = a - vm_base a" unfolding vm_offset .
  then show ?thesis by simp
qed

text \<open>An address lies in the part of the block \<open>b\<close> that begins at the offset \<open>off\<close> and has \<open>n\<close> bytes.\<close>

lemma block_window:
  assumes b: "vm_base b = b" and fit: "off + n \<le> 4096"
  shows "unat (a - (b + of_nat off)) < n \<longleftrightarrow> vm_base a = b \<and> off \<le> unat (a - b) \<and> unat (a - b) < off + n"
    and "unat (a - (b + of_nat off)) < n \<Longrightarrow> unat (a - (b + of_nat off)) = unat (a - b) - off"
proof -
  let ?d = "a - (b + of_nat off)"
  have sum: "a = b + of_nat (off + unat ?d)"
  proof -
    have "of_nat (unat ?d) = ?d" by simp
    then have "b + of_nat (off + unat ?d) = b + (of_nat off + ?d)" by (simp only: of_nat_add)
    then show ?thesis by simp
  qed
  have fwd: "vm_base a = b \<and> unat (a - b) = off + unat ?d" if "unat ?d < n"
  proof -
    have "off + unat ?d < 4096" using that fit by simp
    from in_block [OF b this] show ?thesis unfolding sum [symmetric] by simp
  qed
  then show "unat ?d < n \<Longrightarrow> unat ?d = unat (a - b) - off" by simp
  have "unat ?d < n" if "off \<le> unat (a - b)" "unat (a - b) < off + n"
  proof -
    have "?d = (a - b) - of_nat off" by simp
    moreover have "of_nat off \<le> a - b"
      using that(1) fit by (simp add: word_le_nat_alt unat_of_nat)
    moreover have "unat (of_nat off :: u64) = off" using fit by (simp add: unat_of_nat)
    ultimately have "unat ?d = unat (a - b) - off" by (metis unat_sub)
    then show ?thesis using that by simp
  qed
  with fwd show "unat ?d < n \<longleftrightarrow> vm_base a = b \<and> off \<le> unat (a - b) \<and> unat (a - b) < off + n"
    by auto
qed

section \<open>Writing\<close>

lemma vm_base_next: "vm_base b = b \<Longrightarrow> vm_base (b + of_nat BLOCK_SIZE) = b + of_nat BLOCK_SIZE"
proof -
  assume b: "vm_base b = b"
  then obtain q where q: "unat b = 4096 * q" by (auto simp: vm_base_iff)
  have two: "(2 :: nat) ^ LENGTH(64) = 4096 * 2 ^ 52" by simp
  have "unat (of_nat BLOCK_SIZE :: u64) = 4096" by (simp add: BLOCK_SIZE_def)
  then have "unat (b + of_nat BLOCK_SIZE) = (4096 * q + 4096) mod (4096 * 2 ^ 52)"
    unfolding unat_word_ariths(1) two q by (simp only:)
  also have "4096 * q + 4096 = 4096 * (q + 1)" by simp
  also have "(4096 * (q + 1)) mod (4096 * 2 ^ 52) = 4096 * ((q + 1) mod 2 ^ 52)"
    by (rule mod_mult_mult1)
  finally show ?thesis by (simp add: vm_base_iff)
qed

lemma vm_write_block_nth: "j < BLOCK_SIZE \<Longrightarrow> vm_write_block off n d m blk ! j =
    (if off \<le> j \<and> j < off + n \<and> vm_mask_at m (j - off) then d ! (j - off) else blk ! j)"
  by (simp add: vm_write_block_def)

lemma vm_write_block_length: "length (vm_write_block off n d m blk) = BLOCK_SIZE"
  by (simp add: vm_write_block_def)

lemma vm_offset_less: "unat (a - vm_base a) < BLOCK_SIZE"
  by (simp add: vm_offset BLOCK_SIZE_def)

text \<open>One round of the loop writes the bytes of one block.\<close>

lemma write_block_byte:
  assumes wf: "om_wf blocks" and b: "vm_base b = b" and fit: "off + n \<le> BLOCK_SIZE"
    and blk: "blk = (case map_of blocks b of Some x \<Rightarrow> x | None \<Rightarrow> replicate BLOCK_SIZE 0)"
  shows "vm_byte (om_set b (vm_write_block off n d m blk) blocks) a =
    (let i = unat (a - (b + of_nat off)) in
     if i < n \<and> vm_mask_at m i then d ! i else vm_byte blocks a)"
proof (cases "vm_base a = b")
  case False
  then have "\<not> unat (a - (b + of_nat off)) < n"
    using block_window(1) [OF b, of off n a] fit by (simp add: BLOCK_SIZE_def)
  then show ?thesis using False wf by (simp add: vm_byte_def om_set_map_of)
next
  case True
  let ?j = "unat (a - b)"
  have j: "?j < BLOCK_SIZE" using vm_offset_less [of a] True by simp
  have old: "vm_byte blocks a = blk ! ?j"
    using True j blk by (auto simp: vm_byte_def split: option.splits)
  have new: "vm_byte (om_set b (vm_write_block off n d m blk) blocks) a
      = (if off \<le> ?j \<and> ?j < off + n \<and> vm_mask_at m (?j - off) then d ! (?j - off) else blk ! ?j)"
    using True wf vm_write_block_nth [OF j, of off n d m blk] by (simp add: vm_byte_def om_set_map_of)
  have win: "unat (a - (b + of_nat off)) < n \<longleftrightarrow> off \<le> ?j \<and> ?j < off + n"
    using block_window(1) [OF b, of off n a] True fit by (simp add: BLOCK_SIZE_def)
  have idx: "unat (a - (b + of_nat off)) < n \<Longrightarrow> unat (a - (b + of_nat off)) = ?j - off"
    using block_window(2) [OF b, of off n a] fit by (simp add: BLOCK_SIZE_def)
  show ?thesis
  proof (cases "unat (a - (b + of_nat off)) < n")
    case True
    then have "off \<le> ?j \<and> ?j < off + n" using win by blast
    then show ?thesis unfolding new old idx [OF True] Let_def using True idx [OF True] by simp
  next
    case False
    then show ?thesis unfolding new old Let_def using win by auto
  qed
qed

lemma blocks_wf_set:
  assumes "blocks_wf blocks" and "vm_base b = b" and "length blk = BLOCK_SIZE"
  shows "blocks_wf (om_set b blk blocks)"
proof -
  have "vm_base (fst p) = fst p \<and> length (snd p) = BLOCK_SIZE" if p: "p \<in> set (om_set b blk blocks)" for p
  proof (cases "p = (b, blk)")
    case True
    then show ?thesis using assms(2,3) by simp
  next
    case False
    then have "p \<in> set blocks" using om_set_values [OF p] by blast
    then show ?thesis by (rule bspec [OF conjunct2 [OF assms(1) [unfolded blocks_wf_def]]])
  qed
  then show ?thesis unfolding blocks_wf_def
    by (intro conjI ballI om_set_wf [OF conjunct1 [OF assms(1) [unfolded blocks_wf_def]]]) simp_all
qed

text \<open>The index of an address counted from two starting points.\<close>

lemma index_shift:
  assumes "c < n" and "n \<le> 2 ^ 64"
  shows "unat (a - (s + of_nat c)) < n - c \<longleftrightarrow> c \<le> unat (a - s) \<and> unat (a - s) < n"
    and "c \<le> unat (a - s) \<Longrightarrow> unat (a - (s + of_nat c :: u64)) = unat (a - s) - c"
proof -
  have c: "unat (of_nat c :: u64) = c" using assms by (simp add: unat_of_nat)
  have e: "a - (s + of_nat c) = (a - s) - of_nat c" by simp
  show eq: "unat (a - (s + of_nat c)) = unat (a - s) - c" if "c \<le> unat (a - s)"
  proof -
    have "of_nat c \<le> a - s" using that c by (simp add: word_le_nat_alt)
    then show ?thesis unfolding e using c by (metis unat_sub)
  qed
  show "unat (a - (s + of_nat c)) < n - c \<longleftrightarrow> c \<le> unat (a - s) \<and> unat (a - s) < n"
  proof (cases "c \<le> unat (a - s)")
    case True
    then show ?thesis using eq by auto
  next
    case False
    have "unat ((a - s) - of_nat c) = unat (a - s) + 2 ^ 64 - c"
      using False c by (simp add: unat_sub_if_size word_le_nat_alt word_size)
    then show ?thesis unfolding e using False assms by linarith
  qed
qed

definition vm_alloc_wf :: "virtual_memory \<Rightarrow> bool" where
  "vm_alloc_wf vm \<longleftrightarrow> blocks_wf (vm_blocks vm)
     \<and> vm_total_allocated vm = of_nat (BLOCK_SIZE * length (vm_blocks vm))"

text \<open>What a write of the bytes \<open>d\<close> at \<open>a0\<close> makes of the memory \<open>f\<close>.\<close>

definition written :: "u64 \<Rightarrow> u8 list \<Rightarrow> bool list option \<Rightarrow> (u64 \<Rightarrow> u8) \<Rightarrow> u64 \<Rightarrow> u8" where
  "written a0 d m f a = (let i = unat (a - a0) in if i < length d \<and> vm_mask_at m i then d ! i else f a)"

text \<open>A mask has a bit for every byte.\<close>

definition vm_mask_ok :: "bool list option \<Rightarrow> nat \<Rightarrow> bool" where
  "vm_mask_ok m n \<longleftrightarrow> (case m of None \<Rightarrow> True | Some bs \<Rightarrow> length bs = n)"

lemma written_split:
  assumes "c < length d" and "length d \<le> 2 ^ 64" and "vm_mask_ok m (length d)"
  shows "written (s + of_nat c) (drop c d) (map_option (drop c) m)
      (\<lambda>a. let i = unat (a - s) in if i < c \<and> vm_mask_at m i then d ! i else f a) a = written s d m f a"
proof (cases "unat (a - s) < c")
  case True
  then have "\<not> unat (a - (s + of_nat c)) < length d - c"
    using index_shift(1) [OF assms(1,2), of a s] by linarith
  moreover have "unat (a - s) < length d" using True assms by simp
  ultimately show ?thesis using True unfolding written_def length_drop Let_def by simp
next
  case False
  then have c: "c \<le> unat (a - s)" by simp
  have m: "vm_mask_at (map_option (drop c) m) (unat (a - s) - c) = vm_mask_at m (unat (a - s))"
    if "unat (a - s) < length d"
    using c that assms(3) by (cases m) (auto simp: vm_mask_at_def vm_mask_ok_def)
  show ?thesis
  proof (cases "unat (a - s) < length d")
    case True
    then have "unat (a - s) - c < length d - c" "c \<le> length d" using c by simp_all
    then show ?thesis
      unfolding written_def length_drop Let_def index_shift(2) [OF assms(1,2) c]
      using False True c m [OF True] by simp
  next
    case ge: False
    then have "\<not> unat (a - s) - c < length d - c" using assms(1) by linarith
    then show ?thesis
      unfolding written_def length_drop Let_def index_shift(2) [OF assms(1,2) c]
      using False ge by simp
  qed
qed

lemma vm_write_loop_spec:
  "vm_alloc_wf vm \<Longrightarrow> vm_base base = base \<Longrightarrow> off < BLOCK_SIZE \<Longrightarrow> length d \<le> 2 ^ 64 \<Longrightarrow>
   vm_mask_ok m (length d) \<Longrightarrow>
   \<exists>vm'. vm_write_loop base off d m vm = Some vm' \<and> vm_alloc_wf vm' \<and> vm_ranges vm' = vm_ranges vm
     \<and> vm_byte (vm_blocks vm') = written (base + of_nat off) d m (vm_byte (vm_blocks vm))"
proof (induction "length d" arbitrary: base off d m vm rule: less_induct)
  case less
  note wf = less.prems(1)
  show ?case
  proof (cases "d = []")
    case True
    then show ?thesis using wf by (auto simp: vm_write_loop.simps written_def fun_eq_iff)
  next
    case False
    let ?n = "min (length d) (BLOCK_SIZE - off)"
    let ?blk = "case map_of (vm_blocks vm) base of Some b \<Rightarrow> b | None \<Rightarrow> replicate BLOCK_SIZE 0"
    let ?vm = "vm\<lparr>vm_blocks := om_set base (vm_write_block off ?n d m ?blk) (vm_blocks vm),
      vm_total_allocated := (if map_of (vm_blocks vm) base = None
        then vm_total_allocated vm + of_nat BLOCK_SIZE else vm_total_allocated vm)\<rparr>"
    have om: "om_wf (vm_blocks vm)" using wf by (simp add: vm_alloc_wf_def blocks_wf_def)
    have step: "vm_write_loop base off d m vm
        = vm_write_loop (base + of_nat BLOCK_SIZE) 0 (drop ?n d) (map_option (drop ?n) m) ?vm"
      using False by (subst vm_write_loop.simps) (simp add: Let_def)
    have "vm_total_allocated ?vm = of_nat (BLOCK_SIZE * length (vm_blocks ?vm))"
      using wf om om_set_length [OF om, of base "vm_write_block off ?n d m ?blk"]
      by (auto simp: vm_alloc_wf_def map_of_eq_None_iff algebra_simps)
    then have wf1: "vm_alloc_wf ?vm"
      using wf blocks_wf_set [OF _ less.prems(2) vm_write_block_length] by (simp add: vm_alloc_wf_def)
    have "off + ?n \<le> BLOCK_SIZE" using less.prems(3) by simp
    note byte = write_block_byte [OF om less.prems(2) this refl, of d m]
    show ?thesis
    proof (cases "length d \<le> BLOCK_SIZE - off")
      case True
      then have "drop ?n d = []" "?n = length d" by simp_all
      then have "vm_write_loop base off d m vm = Some ?vm"
        unfolding step by (subst vm_write_loop.simps) simp
      moreover have "vm_byte (vm_blocks ?vm) = written (base + of_nat off) d m (vm_byte (vm_blocks vm))"
        using byte \<open>?n = length d\<close> by (simp add: written_def fun_eq_iff)
      ultimately show ?thesis using wf1 by auto
    next
      case False
      then have n: "?n = BLOCK_SIZE - off" "?n < length d" by simp_all
      have len: "length (drop ?n d) < length d" using n(2) less.prems(3) by (simp add: n(1))
      have msk: "vm_mask_ok (map_option (drop ?n) m) (length (drop ?n d))"
        using less.prems(5) by (cases m) (simp_all add: vm_mask_ok_def)
      have len64: "length (drop ?n d) \<le> 2 ^ 64" using less.prems(4) by simp
      have pos: "0 < BLOCK_SIZE" by (simp add: BLOCK_SIZE_def)
      obtain vm' where vm': "vm_write_loop (base + of_nat BLOCK_SIZE) 0 (drop ?n d)
          (map_option (drop ?n) m) ?vm = Some vm'" "vm_alloc_wf vm'" "vm_ranges vm' = vm_ranges ?vm"
        "vm_byte (vm_blocks vm') = written (base + of_nat BLOCK_SIZE + of_nat 0) (drop ?n d)
          (map_option (drop ?n) m) (vm_byte (vm_blocks ?vm))"
        using less.hyps [OF len wf1 vm_base_next [OF less.prems(2)] pos len64 msk]
        by (elim exE conjE) (rule that)
      have start: "base + of_nat BLOCK_SIZE + of_nat 0 = (base + of_nat off) + of_nat ?n"

      proof -
        have "off + ?n = BLOCK_SIZE" using less.prems(3) n(1) by simp
        then have "of_nat off + of_nat ?n = (of_nat BLOCK_SIZE :: u64)" unfolding of_nat_add [symmetric] by (rule arg_cong)
        then show ?thesis by (simp add: add.assoc)
      qed
      have f1: "vm_byte (vm_blocks ?vm) = (\<lambda>a. let i = unat (a - (base + of_nat off)) in
          if i < ?n \<and> vm_mask_at m i then d ! i else vm_byte (vm_blocks vm) a)"
        using byte by (simp add: fun_eq_iff)
      have "vm_byte (vm_blocks vm') = written (base + of_nat off) d m (vm_byte (vm_blocks vm))"
        unfolding vm'(4) start f1 using written_split [OF n(2) less.prems(4,5)] by (simp add: fun_eq_iff)
      then show ?thesis using step vm' by auto
    qed
  qed
qed

text \<open>
  C27. A write ends, for any number of bytes and across any number of blocks: the addressed bytes
  whose mask bit is set get the new values, every other byte of the memory stays as it was, the
  reservations are untouched, and the allocated size is that of the blocks there are.
\<close>

theorem vm_Write_correct:
  assumes "vm_alloc_wf vm" and "length d \<le> 2 ^ 64" and "vm_mask_ok m (length d)"
  shows "\<exists>vm'. vm_Write a d m vm = Some vm' \<and> vm_alloc_wf vm' \<and> vm_ranges vm' = vm_ranges vm
    \<and> (\<forall>x. vm_byte (vm_blocks vm') x = (let i = unat (x - a) in
          if i < length d \<and> vm_mask_at m i then d ! i else vm_byte (vm_blocks vm) x))"
proof -
  have "vm_base (vm_base a) = vm_base a" by (simp add: vm_base_iff vm_base_unat)
  from vm_write_loop_spec [OF assms(1) this vm_offset_less [of a] assms(2,3)]
  show ?thesis by (auto simp: vm_Write_def written_def)
qed

theorem vm_Write_correct_witness:
  "\<exists>vm'. vm_Write 4094 [1, 2, 3, 4] (Some [True, True, False, True]) virtual_memory_init = Some vm'
     \<and> vm_byte (vm_blocks vm') 4095 = 2 \<and> vm_byte (vm_blocks vm') 4096 = 0 \<and> vm_byte (vm_blocks vm') 4097 = 4"
proof -
  have "vm_alloc_wf virtual_memory_init"
    by (simp add: vm_alloc_wf_def virtual_memory_init_def blocks_wf_def)
  from vm_Write_correct [OF this, of "[1, 2, 3, 4]" "Some [True, True, False, True]" 4094]
  obtain vm' where "vm_Write 4094 [1, 2, 3, 4] (Some [True, True, False, True]) virtual_memory_init = Some vm'"
    and b: "\<And>x. vm_byte (vm_blocks vm') x = (let i = unat (x - 4094) in
        if i < length [1, 2, 3, 4 :: u8] \<and> vm_mask_at (Some [True, True, False, True]) i
        then [1, 2, 3, 4] ! i else vm_byte (vm_blocks virtual_memory_init) x)"
    by (auto simp: vm_mask_ok_def)
  then show ?thesis
    by (simp add: b Let_def vm_mask_at_def) (simp add: virtual_memory_init_def vm_byte_def)
qed

section \<open>Reading\<close>

text \<open>The iterator \<open>pos\<close> stands at the first block that does not begin before \<open>base\<close>.\<close>

definition read_pos :: "(u64 \<times> u8 list) list \<Rightarrow> u64 \<Rightarrow> (u64 \<times> u8 list) list \<Rightarrow> bool" where
  "read_pos blocks base pos \<longleftrightarrow> blocks_wf pos \<and> (\<forall>p\<in>set pos. base \<le> fst p)
     \<and> (\<forall>k. base \<le> k \<longrightarrow> map_of pos k = map_of blocks k)"

lemma read_pos_lower_bound:
  assumes "blocks_wf blocks"
  shows "read_pos blocks base (om_lower_bound base blocks)"
proof -
  let ?hi = "om_lower_bound base blocks" and ?lo = "om_before base blocks"
  have om: "om_wf blocks" using assms unfolding blocks_wf_def by (rule conjunct1)
  have split: "?lo @ ?hi = blocks" by (rule om_split)
  have "om_wf ?hi" using om split om_wf_append by metis
  moreover have "vm_base (fst p) = fst p \<and> length (snd p) = BLOCK_SIZE" if "p \<in> set ?hi" for p
    using bspec [OF conjunct2 [OF assms [unfolded blocks_wf_def]], of p] that split
    by (metis Un_iff set_append)
  ultimately have "blocks_wf ?hi" unfolding blocks_wf_def by (intro conjI ballI) simp_all
  moreover have "map_of ?hi k = map_of blocks k" if "base \<le> k" for k
  proof -
    have "k \<notin> fst ` set ?lo" using om_before_less that by fastforce
    then have "map_of ?lo k = None" by (simp add: map_of_eq_None_iff)
    then have "map_of (?lo @ ?hi) k = map_of ?hi k" by (simp add: map_add_def)
    then show ?thesis unfolding split by simp
  qed
  moreover have "\<forall>p\<in>set ?hi. base \<le> fst p" using om_lower_bound_ge [OF om] by blast
  ultimately show ?thesis unfolding read_pos_def by (intro conjI allI impI) simp_all
qed

text \<open>One chunk of a read lies in one block.\<close>

lemma read_chunk:
  assumes "vm_base base = base" and "off + c \<le> BLOCK_SIZE"
    and "\<And>blk. map_of blocks base = Some blk \<Longrightarrow> length blk = BLOCK_SIZE"
  shows "map (\<lambda>i. vm_byte blocks (base + of_nat (off + i))) [0..<c]
    = (case map_of blocks base of Some blk \<Rightarrow> take c (drop off blk) | None \<Rightarrow> replicate c 0)"
proof (rule nth_equalityI)
  show "length (map (\<lambda>i. vm_byte blocks (base + of_nat (off + i))) [0..<c])
      = length (case map_of blocks base of Some blk \<Rightarrow> take c (drop off blk) | None \<Rightarrow> replicate c 0)"
    using assms(2,3) by (auto split: option.split)
  fix i
  assume "i < length (map (\<lambda>i. vm_byte blocks (base + of_nat (off + i))) [0..<c])"
  then have i: "i < c" by simp
  then have "off + i < 4096" using assms(2) by (simp add: BLOCK_SIZE_def)
  note ib = in_block [OF assms(1) this]
  have "vm_byte blocks (base + of_nat (off + i))
      = (case map_of blocks base of Some blk \<Rightarrow> blk ! (off + i) | None \<Rightarrow> 0)"
    unfolding vm_byte_def ib(1) ib(2) ..
  then show "map (\<lambda>i. vm_byte blocks (base + of_nat (off + i))) [0..<c] ! i
      = (case map_of blocks base of Some blk \<Rightarrow> take c (drop off blk) | None \<Rightarrow> replicate c 0) ! i"
    using i assms(2,3) by (auto split: option.split)
qed

text \<open>The block after the first one.\<close>

lemma aligned_less:
  assumes "vm_base a = a" and "vm_base b = b" and "a < b"
  shows "unat a + 4096 \<le> unat b"
proof -
  obtain i where i: "unat a = 4096 * i" using assms(1) by (auto simp: vm_base_iff)
  obtain j where j: "unat b = 4096 * j" using assms(2) by (auto simp: vm_base_iff)
  note ij = i j
  then have "i < j" using assms(3) by (simp add: word_less_nat_alt)
  then show ?thesis using ij by simp
qed

lemma read_pos_next:
  assumes pos: "read_pos blocks base pos" and b: "vm_base base = base"
    and fit: "unat base + 4096 < 2 ^ 64"
  shows "base < fst p \<Longrightarrow> pos = p # ps \<Longrightarrow> read_pos blocks (base + of_nat BLOCK_SIZE) pos"
    and "base = fst p \<Longrightarrow> pos = p # ps \<Longrightarrow> read_pos blocks (base + of_nat BLOCK_SIZE) ps"
proof -
  have u: "unat (base + of_nat BLOCK_SIZE) = unat base + 4096"
    using fit by (simp add: BLOCK_SIZE_def unat_add_small)
  have wf: "om_wf pos" "\<And>q. q \<in> set pos \<Longrightarrow> vm_base (fst q) = fst q" "\<And>q. q \<in> set pos \<Longrightarrow> length (snd q) = BLOCK_SIZE"
    using pos unfolding read_pos_def blocks_wf_def by blast+
  have far: "base + of_nat BLOCK_SIZE \<le> fst q" if "q \<in> set pos" "base < fst q" for q
    using aligned_less [OF b wf(2) [OF that(1)] that(2)] u by (simp add: word_le_nat_alt)
  have look: "map_of pos k = map_of blocks k" if "base + of_nat BLOCK_SIZE \<le> k" for k
  proof -
    have "base \<le> k" using that u by (simp add: word_le_nat_alt)
    then show ?thesis using pos by (simp add: read_pos_def)
  qed
  {
    assume "base < fst p" "pos = p # ps"
    then have "base < fst q" if "q \<in> set pos" for q using wf(1) that by auto
    then show "read_pos blocks (base + of_nat BLOCK_SIZE) pos"
      unfolding read_pos_def using far look pos by (simp add: read_pos_def)
  next
    assume eq: "base = fst p" "pos = p # ps"
    then have gt: "base < fst q" if "q \<in> set ps" for q using wf(1) that by simp
    have "map_of ps k = map_of blocks k" if "base + of_nat BLOCK_SIZE \<le> k" for k
    proof -
      have "unat base < unat k" using that u by (simp add: word_le_nat_alt)
      then have "k \<noteq> fst p" using eq(1) by auto
      then show ?thesis using look [OF that] eq(2) by simp
    qed
    moreover have "blocks_wf ps" unfolding blocks_wf_def using wf eq(2) by simp
    moreover have "\<forall>q\<in>set ps. base + of_nat BLOCK_SIZE \<le> fst q" using far gt eq(2) by simp
    ultimately show "read_pos blocks (base + of_nat BLOCK_SIZE) ps"
      unfolding read_pos_def by (intro conjI allI impI) simp_all
  }
qed

lemma upt_split: "c \<le> n \<Longrightarrow> map f [0..<n] = map f [0..<c] @ map (\<lambda>i. f (c + i)) [0..<n - c]"
proof -
  assume "c \<le> n"
  then have "[0..<n] = [0..<c] @ [c..<n]" by (metis le0 le_add_diff_inverse upt_add_eq_append)
  moreover have "[c..<n] = map (\<lambda>i. i + c) [0..<n - c]" using map_add_upt [of c "n - c"] \<open>c \<le> n\<close> by simp
  ultimately show ?thesis by (simp add: comp_def add.commute)
qed

lemma unat_add_nat: "unat b + j < 2 ^ 64 \<Longrightarrow> unat (b + of_nat j :: u64) = unat b + j"
proof -
  assume lt: "unat b + j < 2 ^ 64"
  then have "unat (of_nat j :: u64) = j" by (simp add: unat_of_nat)
  then show ?thesis using lt by (simp add: unat_add_small)
qed

lemma vm_read_loop_spec:
  "read_pos blocks base pos \<Longrightarrow> vm_base base = base \<Longrightarrow> off < BLOCK_SIZE \<Longrightarrow>
   off + n \<le> BLOCK_SIZE \<or> off = 0 \<and> unat base + n \<le> 2 ^ 64 \<Longrightarrow>
   vm_read_loop pos base off n = Inr (map (\<lambda>i. vm_byte blocks (base + of_nat (off + i))) [0..<n])"
proof (induction n arbitrary: pos base off rule: less_induct)
  case (less n)
  note pos = less.prems(1) and base = less.prems(2)
  have wf: "om_wf pos" "\<And>q. q \<in> set pos \<Longrightarrow> length (snd q) = BLOCK_SIZE" "\<And>q. q \<in> set pos \<Longrightarrow> base \<le> fst q"
    "map_of pos base = map_of blocks base"
    using pos unfolding read_pos_def blocks_wf_def by blast+
  let ?c = "min n BLOCK_SIZE"
  have fit: "off + ?c \<le> BLOCK_SIZE" using less.prems(3,4) by auto
  have len: "map_of blocks base = Some blk \<Longrightarrow> length blk = BLOCK_SIZE" for blk
    using wf(2) wf(4) map_of_SomeD by fastforce
  have chunk: "map (\<lambda>i. vm_byte blocks (base + of_nat (off + i))) [0..<?c]
      = (case map_of blocks base of Some blk \<Rightarrow> take ?c (drop off blk) | None \<Rightarrow> replicate ?c 0)"
    by (rule read_chunk [OF base fit]) (rule len)
  have rest: "vm_read_loop pos' (base + of_nat BLOCK_SIZE) 0 (n - ?c)
      = Inr (map (\<lambda>i. vm_byte blocks (base + of_nat (off + (?c + i)))) [0..<n - ?c])"
    if "0 < n" and "unat base + 4096 < 2 ^ 64 \<Longrightarrow> read_pos blocks (base + of_nat BLOCK_SIZE) pos'" for pos'
  proof (cases "n \<le> BLOCK_SIZE")
    case True
    then show ?thesis by (simp add: vm_read_loop.simps)
  next
    case False
    then have c: "?c = BLOCK_SIZE" and o: "off = 0" and top: "unat base + n \<le> 2 ^ 64"
      using less.prems(4) by auto
    then have "unat base + 4096 < 2 ^ 64" using False by (simp add: BLOCK_SIZE_def)
    moreover from this have "unat (base + of_nat BLOCK_SIZE) = unat base + 4096"
      by (simp add: BLOCK_SIZE_def unat_add_small)
    moreover have "n - ?c < n" using that(1) c by (simp add: BLOCK_SIZE_def)
    ultimately have "vm_read_loop pos' (base + of_nat BLOCK_SIZE) 0 (n - ?c)
      = Inr (map (\<lambda>i. vm_byte blocks (base + of_nat BLOCK_SIZE + of_nat (0 + i))) [0..<n - ?c])"
      using that(2) vm_base_next [OF base] top c False
      by (intro less.IH) (auto simp: BLOCK_SIZE_def)
    then show ?thesis unfolding c o by (simp add: add.assoc)
  qed
  show ?case
  proof (cases "n = 0")
    case True
    then show ?thesis by (simp add: vm_read_loop.simps)
  next
    case False
    then have n0: "0 < n" by simp
    note split = upt_split [of ?c n "\<lambda>i. vm_byte blocks (base + of_nat (off + i))", OF min.cobounded1]
    show ?thesis
    proof (cases pos)
      case Nil
      have zero: "vm_byte blocks x = 0" if "base \<le> vm_base x" for x
        using pos Nil that by (simp add: vm_byte_def read_pos_def)
      have "vm_byte blocks (base + of_nat (off + i)) = 0" if "i < n" for i
      proof -
        have lt: "unat base + (off + i) < 2 ^ 64"
          using less.prems(4) that aligned_bound [OF base] by (auto simp: BLOCK_SIZE_def)
        then have "unat (base + of_nat (off + i)) = unat base + (off + i)"
          by (rule unat_add_nat)
        then have "unat base div 4096 \<le> unat (base + of_nat (off + i)) div 4096" by (simp add: div_le_mono)
        then have "unat (vm_base base) \<le> unat (vm_base (base + of_nat (off + i)))"
          unfolding vm_base_unat by simp
        then show ?thesis using zero base by (simp add: word_le_nat_alt)
      qed
      then have "map (\<lambda>i. vm_byte blocks (base + of_nat (off + i))) [0..<n] = replicate n 0"
        by (intro nth_equalityI) simp_all
      then show ?thesis using Nil False by (simp add: vm_read_loop.simps)
    next
      case (Cons p ps)
      obtain b blk where p: "p = (b, blk)" by (cases p)
      show ?thesis
      proof (cases "base < b")
        case True
        have "base \<notin> fst ` set pos" using wf(1) True Cons p by fastforce
        then have "map_of pos base = None" by (simp add: map_of_eq_None_iff)
        then have none: "map_of blocks base = None" using wf(4) by simp
        have nx: "unat base + 4096 < 2 ^ 64 \<Longrightarrow> read_pos blocks (base + of_nat BLOCK_SIZE) pos"
          by (rule read_pos_next(1) [OF pos base _ _ Cons]) (simp_all add: True p)
        have "vm_read_loop pos base off n = res_bind (vm_read_loop pos (base + of_nat BLOCK_SIZE) 0 (n - ?c))
            (\<lambda>d. Inr (replicate ?c 0 @ d))"
          using False True Cons p by (subst vm_read_loop.simps) (simp add: Let_def)
        also have "\<dots> = Inr (replicate ?c 0 @ map (\<lambda>i. vm_byte blocks (base + of_nat (off + (?c + i)))) [0..<n - ?c])"
          by (subst rest [OF n0]) (erule nx, simp only: res_bind_simps)
        also have "replicate ?c 0 = map (\<lambda>i. vm_byte blocks (base + of_nat (off + i))) [0..<?c]"
          using chunk none by simp
        finally show ?thesis unfolding split .
      next
        case le: False
        then have b: "b = base" using wf(3) [of p] Cons p by simp
        have blk: "map_of blocks base = Some blk" using wf(4) Cons p b by simp
        have nx: "unat base + 4096 < 2 ^ 64 \<Longrightarrow> read_pos blocks (base + of_nat BLOCK_SIZE) ps"
          by (rule read_pos_next(2) [OF pos base _ _ Cons]) (simp_all add: b p)
        have "vm_read_loop pos base off n = res_bind (vm_read_loop ps (base + of_nat BLOCK_SIZE) 0 (n - ?c))
            (\<lambda>d. Inr (take ?c (drop off blk) @ d))"
          using False le Cons p fit len [OF blk] by (subst vm_read_loop.simps) (simp add: Let_def)
        also have "\<dots> = Inr (take ?c (drop off blk)
            @ map (\<lambda>i. vm_byte blocks (base + of_nat (off + (?c + i)))) [0..<n - ?c])"
          by (subst rest [OF n0]) (erule nx, simp only: res_bind_simps)
        also have "take ?c (drop off blk) = map (\<lambda>i. vm_byte blocks (base + of_nat (off + i))) [0..<?c]"
          using chunk blk by simp
        finally show ?thesis unfolding split .
      qed
    qed
  qed
qed

text \<open>
  C28. A read that stays within one block, or starts at the beginning of a block, and ends within
  the address space returns the bytes of the memory at the addresses asked for, a byte that was
  never written being zero.
\<close>

theorem vm_Read_correct:
  assumes "vm_alloc_wf vm"
    and "unat a mod 4096 + n \<le> 4096 \<or> unat a mod 4096 = 0 \<and> unat a + n \<le> 2 ^ 64"
  shows "vm_Read a n vm = Inr (map (\<lambda>i. vm_byte (vm_blocks vm) (a + of_nat i)) [0..<n])"
proof -
  let ?b = "vm_base a"
  have b: "vm_base ?b = ?b" by (simp add: vm_base_iff vm_base_unat)
  have "blocks_wf (vm_blocks vm)" using assms(1) by (simp add: vm_alloc_wf_def)
  note pos = read_pos_lower_bound [OF this, of ?b]
  have "unat a mod 4096 + n \<le> BLOCK_SIZE \<or> unat a mod 4096 = 0 \<and> unat ?b + n \<le> 2 ^ 64"
    using assms(2) unfolding vm_base_unat BLOCK_SIZE_def by (auto simp: minus_mod_eq_div_mult [symmetric])
  from vm_read_loop_spec [OF pos b _ this]
  have "vm_Read a n vm = Inr (map (\<lambda>i. vm_byte (vm_blocks vm) (?b + of_nat (unat a mod 4096 + i))) [0..<n])"
    by (simp add: vm_Read_def vm_offset BLOCK_SIZE_def)
  moreover have eq: "?b + of_nat (unat a mod 4096 + i) = a + of_nat i" for i
    by (simp only: of_nat_add add.assoc [symmetric] block_split [symmetric])
  ultimately show ?thesis unfolding eq by simp
qed

definition vm_block_example :: virtual_memory where
  "vm_block_example = virtual_memory_init\<lparr>vm_blocks := [(4096, replicate 4096 7)], vm_total_allocated := 4096\<rparr>"

lemma vm_block_example_wf: "vm_alloc_wf vm_block_example"
  by (simp add: vm_alloc_wf_def vm_block_example_def blocks_wf_def BLOCK_SIZE_def vm_base_def)

theorem vm_Read_correct_witness:
  "\<exists>d. vm_Read 8000 192 vm_block_example = Inr d \<and> length d = 192"
  using vm_Read_correct [OF vm_block_example_wf, of 8000 192] by simp

text \<open>
  A read that crosses the end of an existing block runs over it, since the first chunk is not
  shortened by the offset.
\<close>

lemma vm_Read_crossing:
  "vm_Read 8191 2 vm_block_example = Inl UndefinedBehaviour"
  by (simp add: vm_Read_def vm_block_example_def vm_base_def BLOCK_SIZE_def om_lower_bound_def
      vm_read_loop.simps virtual_memory_init_def)

text \<open>And one that starts within a missing block skips bytes of the next block.\<close>

lemma vm_Read_skips:
  "vm_Read 4000 100 vm_block_example = Inr (replicate 100 0)
   \<and> vm_byte (vm_blocks vm_block_example) (4000 + 96) = 7"
  by (simp add: vm_Read_def vm_block_example_def vm_base_def BLOCK_SIZE_def om_lower_bound_def
      vm_read_loop.simps virtual_memory_init_def vm_byte_def)

end
