(* ===== verification/Core_State.thy ===== *)
theory Core_State
  imports ICache Family_Table Thread_Table Register_Allocator Memory_Blocks
begin

text \<open>
  The state of a core on which its allocator and its network work (arch/drisc/Allocator.p.h,
  arch/drisc/Network.p.h, arch/drisc/FamilyTable.h, arch/drisc/ThreadTable.h), and the operations on it:
  functions of what a process sees of the kernel and of the state, which return a value and the
  state, or an error. The states of families and threads and the links of threads are members of the tables of
  the theories \<open>Family_Table\<close> and \<open>Thread_Table\<close>; the other members are in two lists beside them.
\<close>

section \<open>Families and threads\<close>

text \<open>\<open>limit\<close> and \<open>nThreads\<close> share their storage. Signed numbers are words, read with \<open>sint\<close>.\<close>

record FamilyDependencies =
  fd_allocationDone :: bool
  fd_prevSynchronized :: bool
  fd_detached :: bool
  fd_syncSent :: bool
  fd_numThreadsAllocated :: u32
  fd_numPendingReads :: u32

record Family =
  fm_placeSize :: u32
  fm_numCores :: u32
  fm_capability :: u64
  fm_pc :: u64
  fm_physBlockSize :: u32
  fm_start :: u64
  fm_step :: u64
  fm_nThreads :: u64
  fm_dependencies :: FamilyDependencies
  fm_link :: nat
  fm_hasShareds :: bool
  fm_legacy :: bool
  fm_prevCleanedUp :: bool
  fm_broken :: bool
  fm_sync_pid :: u32
  fm_sync_reg :: u32
  fm_sync_done :: bool
  fm_lastAllocated :: nat
  fm_regs :: "RegType \<Rightarrow> FamilyRegInfo"

record ThreadDependencies =
  td_killed :: bool
  td_prevCleanedUp :: bool
  td_numPendingWrites :: u32

record Thread =
  th_pc :: u64
  th_regs :: "RegType \<Rightarrow> ThreadRegInfo"
  th_dependencies :: ThreadDependencies
  th_nextInBlock :: nat
  th_cid :: nat
  th_family :: nat
  th_waitingForWrites :: bool
  th_index :: u64

datatype FamilyDependency =
    FAMDEP_THREAD_COUNT | FAMDEP_OUTSTANDING_READS | FAMDEP_PREV_SYNCHRONIZED | FAMDEP_SYNC_SENT
  | FAMDEP_DETACHED | FAMDEP_ALLOCATION_DONE

datatype ThreadDependency =
    THREADDEP_OUTSTANDING_WRITES | THREADDEP_PREV_CLEANED_UP | THREADDEP_TERMINATED

section \<open>The allocator and the network\<close>

record AllocRequest =
  aq_first_fid :: nat
  aq_prev_fid :: nat
  aq_placeSize :: u32
  aq_type :: AllocationType
  aq_completion_pid :: u32
  aq_completion_reg :: u32
  aq_bundle :: bool
  aq_pc :: u64
  aq_parameter :: u64
  aq_index :: u64

record CreateInfo =
  ci_fid :: nat
  ci_completion_pid :: u32
  ci_completion_reg :: u32
  ci_parameter :: u64
  ci_index :: u64
  ci_bundle :: bool

record BundleInfo =
  bi_addr :: u64
  bi_parameter :: u64
  bi_completion_reg :: u32

datatype CreateState =
    CREATE_INITIAL | CREATE_LOAD_REGSPEC | CREATE_LOADING_LINE | CREATE_LINE_LOADED | CREATE_RESTRICTING
  | CREATE_ALLOCATING_REGISTERS | CREATE_BROADCASTING_CREATE | CREATE_ACTIVATING_FAMILY | CREATE_NOTIFY

datatype BundleState = BUNDLE_INITIAL | BUNDLE_LOADING_LINE | BUNDLE_LINE_LOADED

text \<open>The queues of threads, which are threaded through the links of the thread table, and the
  queues of allocation requests.\<close>

datatype thread_list = ReadyPipe | ReadyOther | ActiveThreads

datatype request_queue = RequestsSuspend | RequestsNoSuspend | RequestsExclusive

text \<open>
  \<open>co_junk\<close> are the members of a register value that the source leaves uninitialised;
  \<open>co_rand\<close> is the sequence of the values of \<open>rand()\<close>, with the position of the next one.
  \<open>co_pipeline_running\<close> says that the active process is the pipeline. The data cache and the
  pipeline are not part of this state.
\<close>

text \<open>\<open>Network::Register\<close>: a register with an arbitrated service.\<close>

record 'a net_register =
  nr_register :: "'a register"
  nr_service :: service

record Core =
  co_pid :: u32
  co_bits :: BitCounts
  co_ft :: family_table
  co_families :: "Family list"
  co_tt :: thread_table
  co_threads :: "Thread list"
  co_rf :: RegisterFile
  co_asyncR :: service
  co_asyncW :: "(core_process, RegAddr) write_port"
  co_ra :: "type_info list"
  co_icache :: ICache
  co_memadmin :: "virtual_memory option"
  co_pipeline_running :: bool
  co_junk :: RegValue
  co_rand :: "nat \<Rightarrow> u64"
  co_rand_pos :: nat
  co_bundleData :: "u8 list"
  co_bundle :: "BundleInfo buffer"
  co_alloc :: "nat buffer"
  co_creates :: "CreateInfo buffer"
  co_cleanup :: "nat buffer"
  co_createState :: CreateState
  co_createLine :: nat
  co_lists :: "thread_list \<Rightarrow> llist"
  co_prevReadyList :: "thread_list option"
  co_allocRequests :: "request_queue \<Rightarrow> AllocRequest buffer"
  co_bundleState :: BundleState
  co_lastcycle :: u64
  co_maxallocex :: u64
  co_totalallocex :: u64
  co_curallocex :: u64
  co_numCreatedFamilies :: u32
  co_numCreatedThreads :: u32
  co_numThreadsPerState :: "ThreadState \<Rightarrow> u64"
  co_p_allocation :: service
  co_p_alloc :: service
  co_p_readyThreads :: service
  co_p_activeThreads :: service
  co_loadBalanceThreshold :: u32
  co_numAllocates :: u64
  co_numCreates :: u64
  co_has_next :: bool
  co_delegateOut :: "DelegateMessage net_register"
  co_delegateIn :: "DelegateMessage net_register"
  co_link_out :: "LinkMessage net_register"
  co_link_in :: "LinkMessage net_register"
  co_allocResponse_out :: "AllocResponse net_register"
  co_allocResponse_in :: "AllocResponse net_register"
  co_syncs :: "SyncInfo buffer"

section \<open>Operations on the state\<close>

text \<open>\<open>or_return m v k\<close> is \<open>if (!m()) return v; k\<close>.\<close>

type_synonym 'a core_op = "env \<Rightarrow> Core \<Rightarrow> ('a \<times> Core) res"

definition ret :: "'a \<Rightarrow> 'a core_op" where
  "ret x e c = Inr (x, c)"

definition raise_error :: "sim_error \<Rightarrow> 'a core_op" where
  "raise_error x e c = Inl x"

definition bnd :: "'a core_op \<Rightarrow> ('a \<Rightarrow> 'b core_op) \<Rightarrow> 'b core_op" where
  "bnd m f e c = res_bind (m e c) (\<lambda>(x, c). f x e c)"

definition get_core :: "(Core \<Rightarrow> 'a core_op) \<Rightarrow> 'a core_op" where
  "get_core f e c = f c e c"

definition get_env :: "(env \<Rightarrow> 'a core_op) \<Rightarrow> 'a core_op" where
  "get_env f e c = f e e c"

definition commit :: "(Core \<Rightarrow> Core) \<Rightarrow> 'a core_op \<Rightarrow> 'a core_op" where
  "commit f k e c = k e (COMMIT (en_phase e) f c)"

definition set_core :: "(Core \<Rightarrow> Core) \<Rightarrow> 'a core_op \<Rightarrow> 'a core_op" where
  "set_core f k e c = k e (f c)"

definition check :: "bool \<Rightarrow> 'a core_op \<Rightarrow> 'a core_op" where
  "check b k e c = assert_that b (k e c)"

definition defined :: "bool \<Rightarrow> 'a core_op \<Rightarrow> 'a core_op" where
  "defined b k e c = (if b then k e c else Inl UndefinedBehaviour)"

definition liftr :: "'a res \<Rightarrow> 'a core_op" where
  "liftr r e c = res_bind r (\<lambda>x. Inr (x, c))"

definition or_return :: "bool core_op \<Rightarrow> 'a \<Rightarrow> 'a core_op \<Rightarrow> 'a core_op" where
  "or_return m v k = bnd m (\<lambda>ok. if ok then k else ret v)"

text \<open>An operation of a component, on its part of the state.\<close>

definition on_part :: "(Core \<Rightarrow> 's) \<Rightarrow> ('s \<Rightarrow> Core \<Rightarrow> Core) \<Rightarrow> (env \<Rightarrow> 's \<Rightarrow> ('a \<times> 's) res) \<Rightarrow> 'a core_op" where
  "on_part get put f e c = res_bind (f e (get c)) (\<lambda>(x, s). Inr (x, put s c))"

lemmas core_op_defs = ret_def raise_error_def bnd_def get_core_def get_env_def commit_def set_core_def
  check_def defined_def liftr_def or_return_def on_part_def

section \<open>Access to the parts\<close>

definition unit_result :: "'s res \<Rightarrow> (unit \<times> 's) res" where
  "unit_result r = res_bind r (\<lambda>s. Inr ((), s))"

definition invoke :: "(Core \<Rightarrow> service) \<Rightarrow> (service \<Rightarrow> Core \<Rightarrow> Core) \<Rightarrow> bool core_op" where
  "invoke get put = on_part get put service_Invoke"

definition with_family :: "nat \<Rightarrow> (Family \<Rightarrow> 'a core_op) \<Rightarrow> 'a core_op" where
  "with_family fid f = get_core (\<lambda>c. defined (fid < length (co_families c)) (f (co_families c ! fid)))"

definition with_thread :: "nat \<Rightarrow> (Thread \<Rightarrow> 'a core_op) \<Rightarrow> 'a core_op" where
  "with_thread tid f = get_core (\<lambda>c. defined (tid < length (co_threads c)) (f (co_threads c ! tid)))"

definition modify_family :: "nat \<Rightarrow> (Family \<Rightarrow> Family) \<Rightarrow> Core \<Rightarrow> Core" where
  "modify_family fid f c = c\<lparr>co_families := (co_families c)[fid := f (co_families c ! fid)]\<rparr>"

definition modify_deps :: "nat \<Rightarrow> (FamilyDependencies \<Rightarrow> FamilyDependencies) \<Rightarrow> Core \<Rightarrow> Core" where
  "modify_deps fid f = modify_family fid (\<lambda>fm. fm\<lparr>fm_dependencies := f (fm_dependencies fm)\<rparr>)"

definition modify_thread :: "nat \<Rightarrow> (Thread \<Rightarrow> Thread) \<Rightarrow> Core \<Rightarrow> Core" where
  "modify_thread tid f c = c\<lparr>co_threads := (co_threads c)[tid := f (co_threads c ! tid)]\<rparr>"

definition family_state :: "Core \<Rightarrow> nat \<Rightarrow> FamilyState" where
  "family_state c fid = ft_families (co_ft c) ! fid"

definition set_family_state :: "nat \<Rightarrow> FamilyState \<Rightarrow> Core \<Rightarrow> Core" where
  "set_family_state fid st c = c\<lparr>co_ft := ft_set_state fid st (co_ft c)\<rparr>"

definition thread_state :: "Core \<Rightarrow> nat \<Rightarrow> ThreadState" where
  "thread_state c tid = tt_states (co_tt c) ! tid"

definition set_thread_state :: "nat \<Rightarrow> ThreadState \<Rightarrow> Core \<Rightarrow> Core" where
  "set_thread_state tid st c = c\<lparr>co_tt := (co_tt c)\<lparr>tt_states := (tt_states (co_tt c))[tid := st]\<rparr>\<rparr>"

definition set_thread_next :: "nat \<Rightarrow> nat \<Rightarrow> Core \<Rightarrow> Core" where
  "set_thread_next tid nxt c = c\<lparr>co_tt := (co_tt c)\<lparr>tt_next := (tt_next (co_tt c))[tid := nxt]\<rparr>\<rparr>"

text \<open>An operation of a queue of threads sees the links of the thread table; the operations before
  the update of the queue do not change them.\<close>

definition on_list :: "thread_list \<Rightarrow> (CyclePhase \<Rightarrow> bool \<Rightarrow> llist \<Rightarrow> llist res) \<Rightarrow> unit core_op" where
  "on_list k f = on_part (\<lambda>c. (co_lists c k)\<lparr>l_table := tt_next (co_tt c)\<rparr>)
     (\<lambda>l c. c\<lparr>co_lists := (co_lists c)(k := l)\<rparr>) (\<lambda>e l. unit_result (f (en_phase e) (en_clk e) l))"

definition list_Front :: "thread_list \<Rightarrow> nat core_op" where
  "list_Front k = get_core (\<lambda>c. liftr (llist_Front (co_lists c k)))"

definition buffer_push :: "(Core \<Rightarrow> 'b buffer) \<Rightarrow> ('b buffer \<Rightarrow> Core \<Rightarrow> Core) \<Rightarrow> 'b \<Rightarrow> bool core_op" where
  "buffer_push get put x = on_part get put (\<lambda>e. buffer_Push (en_phase e) (en_clk e) x 1)"

definition buffer_pop :: "(Core \<Rightarrow> 'b buffer) \<Rightarrow> ('b buffer \<Rightarrow> Core \<Rightarrow> Core) \<Rightarrow> unit core_op" where
  "buffer_pop get put = on_part get put (\<lambda>e b. unit_result (buffer_Pop (en_phase e) (en_clk e) b))"

definition on_icache :: "(env \<Rightarrow> ICache \<Rightarrow> ('a \<times> ICache) res) \<Rightarrow> 'a core_op" where
  "on_icache = on_part co_icache (\<lambda>i c. c\<lparr>co_icache := i\<rparr>)"

definition release_line :: "nat \<Rightarrow> bool core_op" where
  "release_line cid = on_icache (\<lambda>e. ReleaseCacheLine (en_phase e) cid)"

text \<open>\<open>p_asyncW.Write(addr)\<close>, \<open>p_asyncR.Read()\<close>.\<close>

definition asyncW_Write :: "RegAddr \<Rightarrow> bool core_op" where
  "asyncW_Write addr = on_part co_asyncW (\<lambda>w c. c\<lparr>co_asyncW := w\<rparr>)
     (\<lambda>e w. res_bind (ArbitratedWritePort_Write (en_phase e) (en_cycle e) (en_process e) addr w) (\<lambda>(ok, _, w). Inr (ok, w)))"

definition asyncR_Read :: "bool core_op" where
  "asyncR_Read = on_part co_asyncR (\<lambda>s c. c\<lparr>co_asyncR := s\<rparr>)
     (\<lambda>e s. res_bind (ReadPort_Read (en_phase e) (en_cycle e) (en_process e) s) (\<lambda>(ok, _, s). Inr (ok, s)))"

text \<open>\<open>Register::Write\<close> of the network.\<close>

definition net_Write :: "env \<Rightarrow> 'a \<Rightarrow> 'a net_register \<Rightarrow> (bool \<times> 'a net_register) res" where
  "net_Write e x r =
     (if \<not> register_Empty (nr_register r) then Inr (False, r)
      else res_bind (service_Invoke e (nr_service r)) (\<lambda>(ok, s).
        let r = r\<lparr>nr_service := s\<rparr> in
        if \<not> ok then Inr (False, r)
        else res_bind (register_Write (en_phase e) (en_clk e) x (nr_register r)) (\<lambda>g.
          Inr (True, r\<lparr>nr_register := g\<rparr>))))"

end
