(* ===== verification/Allocator_Threads.thy ===== *)
theory Allocator_Threads
  imports Core_State
begin

text \<open>
  The sending side of the network (arch/drisc/Network.cpp) and the part of the allocator
  (arch/drisc/Allocator.cpp) that works on threads and on the dependencies of families and threads: the
  queues of threads, activation, rescheduling, suspension and killing of a thread, its
  allocation, and the end of threads and families.
\<close>

section \<open>Sending messages\<close>

definition remote_dest :: "RemoteMessage \<Rightarrow> u32" where
  "remote_dest msg = (case msg of
       RMSG_ALLOCATE m \<Rightarrow> pl_pid (al_place m)
     | RMSG_SET_PROPERTY fid _ _ \<Rightarrow> f_pid fid
     | RMSG_CREATE m \<Rightarrow> f_pid (cm_fid m)
     | RMSG_DETACH fid \<Rightarrow> f_pid fid
     | RMSG_SYNC fid _ \<Rightarrow> f_pid fid
     | RMSG_RAW_REGISTER pid _ _ \<Rightarrow> pid
     | RMSG_FAM_WRITE fid _ _ _ \<Rightarrow> f_pid fid
     | RMSG_FAM_READ fid _ _ _ \<Rightarrow> f_pid fid
     | RMSG_BREAK pid _ \<Rightarrow> pid
     | RMSG_NONE \<Rightarrow> INVALID_PID)"

text \<open>A message to the core itself goes to its input; when it is sent while an input is handled, it
  overwrites that input.\<close>

definition SendMessage :: "RemoteMessage \<Rightarrow> bool core_op" where
  "SendMessage msg = get_env (\<lambda>e. get_core (\<lambda>c. check (msg \<noteq> RMSG_NONE)
     (let dmsg = \<lparr>dm_src = co_pid c, dm_dest = remote_dest msg, dm_payload = msg\<rparr> in
      check (dm_dest dmsg \<noteq> INVALID_PID)
      (if dm_dest dmsg = dm_src dmsg
       then if en_process e = p_DelegationIn
         then bnd (on_part co_delegateIn (\<lambda>r c. c\<lparr>co_delegateIn := r\<rparr>)
                (\<lambda>e r. res_bind (register_Write (en_phase e) (en_clk e) dmsg (nr_register r)) (\<lambda>g.
                  Inr ((), r\<lparr>nr_register := g\<rparr>)))) (\<lambda>_. ret True)
         else on_part co_delegateIn (\<lambda>r c. c\<lparr>co_delegateIn := r\<rparr>) (\<lambda>e. net_Write e dmsg)
       else on_part co_delegateOut (\<lambda>r c. c\<lparr>co_delegateOut := r\<rparr>) (\<lambda>e. net_Write e dmsg)))))"

definition SendLink :: "LinkMessage \<Rightarrow> bool core_op" where
  "SendLink msg = get_core (\<lambda>c. check (co_has_next c)
     (on_part co_link_out (\<lambda>r c. c\<lparr>co_link_out := r\<rparr>) (\<lambda>e. net_Write e msg)))"

definition SendAllocResponse :: "AllocResponse \<Rightarrow> bool core_op" where
  "SendAllocResponse msg = on_part co_allocResponse_out (\<lambda>r c. c\<lparr>co_allocResponse_out := r\<rparr>) (\<lambda>e. net_Write e msg)"

definition SendSync :: "SyncInfo \<Rightarrow> bool core_op" where
  "SendSync s = bnd (buffer_push co_syncs (\<lambda>b c. c\<lparr>co_syncs := b\<rparr>) s) (\<lambda>ok.
     if ok then ret True else raise_error AssertionFailure)"

section \<open>Queues of threads\<close>

text \<open>The loop that marks the threads of a chain; it follows the links from the head to the tail, and
  \<open>n\<close> bounds its steps. A chain that does not end at the tail makes the loop run on.\<close>

fun mark_chain :: "nat \<Rightarrow> ThreadState \<Rightarrow> nat \<Rightarrow> nat \<Rightarrow> u64 \<Rightarrow> Core \<Rightarrow> (u64 \<times> Core) res option" where
  "mark_chain 0 st cur tail count c = None"
| "mark_chain (Suc n) st cur tail count c =
     (if \<not> cur < tt_size (co_tt c) then Some (Inl UndefinedBehaviour)
      else let nxt = tt_next (co_tt c) ! cur;
               c = set_thread_state cur st c
           in if cur = tail then Some (Inr (count + 1, c)) else mark_chain n st nxt tail (count + 1) c)"

text \<open>A chain has at most as many threads as the table, so this bound is enough; what never ends is
  an error here.\<close>

definition mark_threads :: "ThreadState \<Rightarrow> ThreadQueue \<Rightarrow> Core \<Rightarrow> (unit \<times> Core) res" where
  "mark_threads st q c = (case mark_chain (Suc (tt_size (co_tt c))) st (tq_head q) (tq_tail q) 0 c of
       None \<Rightarrow> Inl UndefinedBehaviour
     | Some r \<Rightarrow> res_bind r (\<lambda>(count, c). Inr ((), c\<lparr>co_numThreadsPerState :=
         (co_numThreadsPerState c)(st := co_numThreadsPerState c st + count)\<rparr>)))"

definition QueueThreads :: "thread_list \<Rightarrow> ThreadQueue \<Rightarrow> ThreadState \<Rightarrow> bool core_op" where
  "QueueThreads k threads st =
     check (tq_head threads \<noteq> INVALID_TID) (check (tq_tail threads \<noteq> INVALID_TID)
      (bnd (on_list k (\<lambda>ph clk. llist_Append ph clk (tq_head threads) (tq_tail threads))) (\<lambda>_.
       get_env (\<lambda>e. bnd (\<lambda>_ c. if en_phase e = PHASE_COMMIT then mark_threads st threads c else Inr ((), c))
         (\<lambda>_. ret True)))))"

definition QueueActiveThreads :: "ThreadQueue \<Rightarrow> bool core_op" where
  "QueueActiveThreads threads =
     or_return (invoke co_p_activeThreads (\<lambda>s c. c\<lparr>co_p_activeThreads := s\<rparr>)) False
      (or_return (QueueThreads ActiveThreads threads TST_ACTIVE) False (ret True))"

definition count_down :: "ThreadState \<Rightarrow> Core \<Rightarrow> Core" where
  "count_down st c = c\<lparr>co_numThreadsPerState := (co_numThreadsPerState c)(st := co_numThreadsPerState c st - 1)\<rparr>"

definition PopActiveThread :: "nat core_op" where
  "PopActiveThread = get_core (\<lambda>c.
     if llist_Empty (co_lists c ActiveThreads) then ret INVALID_TID
     else bnd (list_Front ActiveThreads) (\<lambda>tid. bnd (on_list ActiveThreads llist_Pop) (\<lambda>_.
       commit (count_down TST_ACTIVE) (ret tid))))"

definition ActivateThreads :: "ThreadQueue \<Rightarrow> bool core_op" where
  "ActivateThreads threads = get_core (\<lambda>c.
     if co_pipeline_running c
     then or_return (QueueThreads ReadyPipe threads TST_READY) False (ret True)
     else or_return (invoke co_p_readyThreads (\<lambda>s c. c\<lparr>co_p_readyThreads := s\<rparr>)) False
      (or_return (QueueThreads ReadyOther threads TST_READY) False (ret True)))"

text \<open>A write to the register file wakes the threads that wait for the register.\<close>

definition write_register :: "RegAddr \<Rightarrow> RegValue \<Rightarrow> bool \<Rightarrow> bool core_op" where
  "write_register addr data from_memory e c =
     res_bind (WriteRegister (en_phase e) (\<lambda>q c. ActivateThreads q e c) addr data from_memory (co_rf c, c))
       (\<lambda>(ok, rf, c). Inr (ok, c\<lparr>co_rf := rf\<rparr>))"

definition read_register :: "RegAddr \<Rightarrow> RegValue core_op" where
  "read_register addr = get_core (\<lambda>c. liftr (ReadRegister addr (co_rf c)))"

definition clear_registers :: "RegAddr \<Rightarrow> u32 \<Rightarrow> unit core_op" where
  "clear_registers addr n = get_core (\<lambda>c. on_part co_rf (\<lambda>rf c. c\<lparr>co_rf := rf\<rparr>)
     (\<lambda>e rf. unit_result (rf_Clear (en_phase e) (co_junk c) addr (unat n) rf)))"

section \<open>The dependencies of families\<close>

text \<open>The first switch: what a dependency asserts and changes.\<close>

definition family_dependency :: "FamilyDependency \<Rightarrow> FamilyDependencies \<Rightarrow> FamilyDependencies res" where
  "family_dependency dep d = (case dep of
       FAMDEP_THREAD_COUNT \<Rightarrow> assert_that (0 < fd_numThreadsAllocated d)
         (Inr (d\<lparr>fd_numThreadsAllocated := fd_numThreadsAllocated d - 1\<rparr>))
     | FAMDEP_OUTSTANDING_READS \<Rightarrow> assert_that (0 < fd_numPendingReads d)
         (Inr (d\<lparr>fd_numPendingReads := fd_numPendingReads d - 1\<rparr>))
     | FAMDEP_PREV_SYNCHRONIZED \<Rightarrow> assert_that (\<not> fd_prevSynchronized d) (Inr (d\<lparr>fd_prevSynchronized := True\<rparr>))
     | FAMDEP_ALLOCATION_DONE \<Rightarrow> assert_that (\<not> fd_allocationDone d) (Inr (d\<lparr>fd_allocationDone := True\<rparr>))
     | FAMDEP_SYNC_SENT \<Rightarrow> assert_that (\<not> fd_syncSent d) (Inr (d\<lparr>fd_syncSent := True\<rparr>))
     | FAMDEP_DETACHED \<Rightarrow> assert_that (\<not> fd_detached d) (Inr (d\<lparr>fd_detached := True\<rparr>)))"

definition deps_terminated :: "FamilyDependencies \<Rightarrow> bool" where
  "deps_terminated d \<longleftrightarrow> fd_numThreadsAllocated d = 0 \<and> fd_allocationDone d"

definition deps_synchronized :: "FamilyDependencies \<Rightarrow> bool" where
  "deps_synchronized d \<longleftrightarrow> deps_terminated d \<and> fd_numPendingReads d = 0 \<and> fd_prevSynchronized d"

definition deps_released :: "FamilyDependencies \<Rightarrow> bool" where
  "deps_released d \<longleftrightarrow> deps_synchronized d \<and> fd_detached d \<and> fd_syncSent d"

text \<open>The end of a family on this core: the next core is told, or who waits for the family.\<close>

definition family_synchronized :: "nat \<Rightarrow> Family \<Rightarrow> bool core_op" where
  "family_synchronized fid fm = commit (modify_family fid (\<lambda>fm. fm\<lparr>fm_sync_done := True\<rparr>))
     (if fm_link fm \<noteq> INVALID_LFID then or_return (SendLink (LMSG_DONE (fm_link fm) (fm_broken fm))) False (ret True)
      else if fm_sync_pid fm \<noteq> INVALID_PID
      then or_return (SendSync \<lparr>sy_fid = fid, sy_pid = fm_sync_pid fm, sy_reg = fm_sync_reg fm, sy_broken = fm_broken fm\<rparr>)
             False (ret True)
      else ret True)"

definition reg_index_option :: "u32 \<Rightarrow> nat option" where
  "reg_index_option i = (if i = INVALID_REG_INDEX then None else Some (unat i))"

text \<open>The last step: the registers and the entry are freed.\<close>

definition family_release :: "nat \<Rightarrow> Family \<Rightarrow> bool core_op" where
  "family_release fid fm = get_core (\<lambda>c.
     let context = (if ft_IsExclusive fid (co_ft c) then CONTEXT_EXCLUSIVE else CONTEXT_NORMAL) in
     bnd (on_part co_ra (\<lambda>r c. c\<lparr>co_ra := r\<rparr>) (\<lambda>e r. unit_result
            (ra_Free (en_phase e) context (map (\<lambda>t. reg_index_option (fri_base (fm_regs fm t))) REG_TYPES) r))) (\<lambda>_.
     bnd (on_part co_ft (\<lambda>t c. c\<lparr>co_ft := t\<rparr>) (\<lambda>e t. unit_result (FreeFamily (en_phase e) (en_cycle e) fid context t))) (\<lambda>_.
       ret True)))"

text \<open>The cases of the second switch fall through, from the first that the dependency names.\<close>

definition DecreaseFamilyDependency :: "nat \<Rightarrow> FamilyDependency \<Rightarrow> bool core_op" where
  "DecreaseFamilyDependency fid dep = with_family fid (\<lambda>fm. get_core (\<lambda>c. check (family_state c fid \<noteq> FST_EMPTY)
     (bnd (liftr (family_dependency dep (fm_dependencies fm))) (\<lambda>d. commit (modify_deps fid (\<lambda>_. d))
       (let counts = (dep \<in> {FAMDEP_THREAD_COUNT, FAMDEP_ALLOCATION_DONE});
            syncs = (counts \<or> dep \<in> {FAMDEP_PREV_SYNCHRONIZED, FAMDEP_OUTSTANDING_READS})
        in commit (if counts \<and> deps_terminated d then set_family_state fid FST_TERMINATED else (\<lambda>c. c))
          (or_return (if syncs \<and> deps_synchronized d then family_synchronized fid fm else ret True) False
            (if deps_released d then family_release fid fm else ret True)))))))"

definition OnMemoryRead :: "nat \<Rightarrow> bool core_op" where
  "OnMemoryRead fid = with_family fid (\<lambda>fm.
     commit (modify_deps fid (\<lambda>d. d\<lparr>fd_numPendingReads := fd_numPendingReads d + 1\<rparr>)) (ret True))"

section \<open>The dependencies of threads\<close>

definition thread_dependency :: "ThreadDependency \<Rightarrow> ThreadDependencies \<Rightarrow> ThreadDependencies" where
  "thread_dependency dep d = (case dep of
       THREADDEP_OUTSTANDING_WRITES \<Rightarrow> d\<lparr>td_numPendingWrites := td_numPendingWrites d - 1\<rparr>
     | THREADDEP_PREV_CLEANED_UP \<Rightarrow> d\<lparr>td_prevCleanedUp := True\<rparr>
     | THREADDEP_TERMINATED \<Rightarrow> d\<lparr>td_killed := True\<rparr>)"

definition push_cleanup :: "nat \<Rightarrow> bool core_op" where
  "push_cleanup tid = buffer_push co_cleanup (\<lambda>b c. c\<lparr>co_cleanup := b\<rparr>) tid"

definition DecreaseThreadDependency :: "nat \<Rightarrow> ThreadDependency \<Rightarrow> bool core_op" where
  "DecreaseThreadDependency tid dep = with_thread tid (\<lambda>th.
     let d = thread_dependency dep (th_dependencies th) in
     commit (modify_thread tid (\<lambda>th. th\<lparr>th_dependencies := d\<rparr>))
      (or_return (if dep = THREADDEP_OUTSTANDING_WRITES \<and> td_numPendingWrites d = 0 \<and> th_waitingForWrites th
                  then or_return (ActivateThreads \<lparr>tq_head = tid, tq_tail = tid\<rparr>) False
                        (commit (modify_thread tid (\<lambda>th. th\<lparr>th_waitingForWrites := False\<rparr>)) (ret True))
                  else ret True) False
       (if td_numPendingWrites d = 0 \<and> td_prevCleanedUp d \<and> td_killed d
        then or_return (push_cleanup tid) False (ret True) else ret True)))"

definition IncreaseThreadDependency :: "nat \<Rightarrow> ThreadDependency \<Rightarrow> bool core_op" where
  "IncreaseThreadDependency tid dep = get_env (\<lambda>e.
     if en_phase e \<noteq> PHASE_COMMIT then ret True
     else with_thread tid (\<lambda>th.
       if dep = THREADDEP_OUTSTANDING_WRITES
       then commit (modify_thread tid (\<lambda>th. th\<lparr>th_dependencies := (th_dependencies th)
              \<lparr>td_numPendingWrites := td_numPendingWrites (th_dependencies th) + 1\<rparr>\<rparr>)) (ret True)
       else raise_error AssertionFailure))"

section \<open>Threads from the pipeline\<close>

definition KillThread :: "nat \<Rightarrow> bool core_op" where
  "KillThread tid = with_thread tid (\<lambda>th. get_core (\<lambda>c. check (thread_state c tid = TST_RUNNING)
     (or_return (release_line (th_cid th)) False
     (or_return (DecreaseThreadDependency tid THREADDEP_TERMINATED) False
     (commit (modify_thread tid (\<lambda>th. th\<lparr>th_cid := INVALID_CID\<rparr>))
     (commit (set_thread_state tid TST_TERMINATED) (ret True)))))))"

definition RescheduleThread :: "nat \<Rightarrow> u64 \<Rightarrow> bool core_op" where
  "RescheduleThread tid pc = with_thread tid (\<lambda>th. get_core (\<lambda>c. check (thread_state c tid = TST_RUNNING)
     (commit (modify_thread tid (\<lambda>th. th\<lparr>th_pc := pc\<rparr>)) (commit (set_thread_next tid INVALID_TID)
     (or_return (release_line (th_cid th)) False
     (or_return (ActivateThreads \<lparr>tq_head = tid, tq_tail = tid\<rparr>) False (ret True)))))))"

definition SuspendThread :: "nat \<Rightarrow> u64 \<Rightarrow> bool core_op" where
  "SuspendThread tid pc = with_thread tid (\<lambda>th. get_core (\<lambda>c. check (thread_state c tid = TST_RUNNING)
     (or_return (release_line (th_cid th)) False
     (commit (modify_thread tid (\<lambda>th. th\<lparr>th_cid := INVALID_CID, th_pc := pc\<rparr>))
     (commit (set_thread_state tid TST_SUSPENDED) (ret True))))))"

end
