(* ===== verification/Allocator_Families.thy ===== *)
theory Allocator_Families
  imports Allocator_Threads
begin

text \<open>
  The part of the allocator (arch/drisc/Allocator.cpp) that makes threads and families: the
  allocation of threads and registers, the distribution of the threads of a family over the cores of a
  place, the entries of the family table, and the process that allocates and cleans up threads.
\<close>

section \<open>Allocating a thread\<close>

definition widen8 :: "u8 \<Rightarrow> u32" where
  "widen8 x = ucast x"

text \<open>The registers of a thread. A new thread gets the next block of locals and shareds; a slot
  that is used again takes its old dependents as shareds. The dependents are the shareds of the thread
  allocated before.\<close>

definition thread_regs :: "bool \<Rightarrow> u32 \<Rightarrow> FamilyRegInfo \<Rightarrow> ThreadRegInfo \<Rightarrow> ThreadRegInfo" where
  "thread_regs isNew k fr tr =
     (let sh = widen8 (rn_shareds (fri_count fr)); lo = widen8 (rn_locals (fri_count fr));
          tr1 = (if isNew
                 then let l = fri_base fr + k * (sh + lo) + sh
                      in tr\<lparr>tri_locals := l, tri_shareds := l + lo\<rparr>
                 else tr\<lparr>tri_shareds := tri_dependents tr\<rparr>)
      in tr1\<lparr>tri_dependents := fri_last_shareds fr\<rparr>)"

definition initial_thread :: "nat \<Rightarrow> Family \<Rightarrow> Thread \<Rightarrow> Thread" where
  "initial_thread fid fm th = th\<lparr>th_cid := INVALID_CID, th_pc := fm_pc fm, th_family := fid, th_index := fm_start fm,
     th_nextInBlock := INVALID_TID, th_waitingForWrites := False,
     th_dependencies := \<lparr>td_killed = False,
       td_prevCleanedUp = (fm_prevCleanedUp fm \<or> \<not> fm_hasShareds fm
          \<or> fd_numThreadsAllocated (fm_dependencies fm) = 0 \<or> fm_physBlockSize fm = 1),
       td_numPendingWrites = 0\<rparr>\<rparr>"

definition on_memory :: "(virtual_memory option \<Rightarrow> virtual_memory res) \<Rightarrow> unit core_op" where
  "on_memory f e c = (if en_phase e = PHASE_COMMIT
     then res_bind (f (co_memadmin c)) (\<lambda>vm. Inr ((), c\<lparr>co_memadmin := Some vm\<rparr>)) else Inr ((), c))"

text \<open>The upper half of the thread-local storage is mapped.\<close>

definition tls_half :: "nat \<Rightarrow> Core \<Rightarrow> (u64 \<times> u64) res" where
  "tls_half tid c = res_bind (GetTLSAddress (co_bits c) (co_pid c) (of_nat tid)) (\<lambda>base.
     res_bind (GetTLSSize (co_bits c)) (\<lambda>sz. Inr (base + sz div 2, sz div 2)))"

definition map_tls :: "nat \<Rightarrow> unit core_op" where
  "map_tls tid = get_core (\<lambda>c. on_memory (\<lambda>m. res_bind (tls_half tid c) (\<lambda>(base, sz). core_MapMemory m base sz 0)))"

definition unmap_tls :: "nat \<Rightarrow> unit core_op" where
  "unmap_tls tid = get_core (\<lambda>c. on_memory (\<lambda>m. res_bind (tls_half tid c) (\<lambda>(base, sz). core_UnmapMemory m base sz)))"

text \<open>The index of the thread goes to its first local.\<close>

definition write_index :: "u32 \<Rightarrow> u64 \<Rightarrow> bool core_op" where
  "write_index locals idx =
     (let addr = MAKE_REGADDR RT_INTEGER locals in
      or_return (asyncW_Write addr) False
      (bnd (read_register addr) (\<lambda>data. check (rv_state data \<noteq> RST_WAITING)
        (if rv_state data = RST_PENDING then ret False
         else or_return (write_register addr (data\<lparr>rv_state := RST_FULL, rv_value := idx\<rparr>) False) False (ret True)))))"

definition signed_ok :: "int \<Rightarrow> bool" where
  "signed_ok i \<longleftrightarrow> - (2 ^ 63) \<le> i \<and> i < 2 ^ 63"

text \<open>The family after a thread was allocated: \<open>start\<close> is a signed number.\<close>

definition family_next :: "bool \<Rightarrow> nat \<Rightarrow> Family \<Rightarrow> Family" where
  "family_next isNew tid fm = fm\<lparr>
     fm_dependencies := (if isNew then (fm_dependencies fm)\<lparr>fd_numThreadsAllocated :=
         fd_numThreadsAllocated (fm_dependencies fm) + 1\<rparr> else fm_dependencies fm),
     fm_lastAllocated := (if fm_hasShareds fm \<and> 1 < fm_physBlockSize fm then tid else fm_lastAllocated fm),
     fm_start := fm_start fm + fm_step fm, fm_nThreads := fm_nThreads fm - 1\<rparr>"

definition AllocateThread :: "nat \<Rightarrow> nat \<Rightarrow> bool \<Rightarrow> bool core_op" where
  "AllocateThread fid tid isNew = with_family fid (\<lambda>fm. with_thread tid (\<lambda>th. get_env (\<lambda>e.
     check (0 < fm_nThreads fm)
     (commit (modify_thread tid (initial_thread fid fm)) (commit (set_thread_next tid INVALID_TID)
     (commit (modify_family fid (\<lambda>fm. fm\<lparr>fm_prevCleanedUp := False\<rparr>))
     (let k = fd_numThreadsAllocated (fm_dependencies fm);
          regs = (\<lambda>t. thread_regs isNew k (fm_regs fm t) (th_regs th t)) in
      get_core (\<lambda>c. defined (en_phase e = PHASE_COMMIT \<longrightarrow> fm_lastAllocated fm \<noteq> INVALID_TID
          \<longrightarrow> fm_lastAllocated fm < length (co_threads c))
     (commit (if fm_lastAllocated fm \<noteq> INVALID_TID
              then modify_thread (fm_lastAllocated fm) (\<lambda>th. th\<lparr>th_nextInBlock := tid\<rparr>) else (\<lambda>c. c))
     (commit (modify_thread tid (\<lambda>th. th\<lparr>th_regs := regs\<rparr>))
     (commit (modify_family fid (\<lambda>fm. fm\<lparr>fm_regs := (\<lambda>t. (fm_regs fm t)\<lparr>fri_last_shareds := tri_shareds (regs t)\<rparr>)\<rparr>))
     (bnd (map_tls tid) (\<lambda>_.
      or_return (if 0 < rn_locals (fri_count (fm_regs fm RT_INTEGER))
                 then write_index (tri_locals (regs RT_INTEGER)) (fm_start fm) else ret True) False
     (check (isNew \<longrightarrow> k < fm_physBlockSize fm)
     (defined (signed_ok (sint (fm_start fm) + sint (fm_step fm)))
     (commit (modify_family fid (family_next isNew tid))
     (or_return (if fm_nThreads fm = 1 then DecreaseFamilyDependency fid FAMDEP_ALLOCATION_DONE else ret True) False
     (or_return (ActivateThreads \<lparr>tq_head = tid, tq_tail = tid\<rparr>) False
     (commit (\<lambda>c. c\<lparr>co_numCreatedThreads := co_numCreatedThreads c + 1\<rparr>) (ret True))))))))))))))))))))"

section \<open>Registers of a family\<close>

definition register_need :: "FamilyRegInfo \<Rightarrow> u32 \<Rightarrow> u32" where
  "register_need fr n = (widen8 (rn_locals (fri_count fr)) + widen8 (rn_shareds (fri_count fr))) * n
     + widen8 (rn_globals (fri_count fr)) + widen8 (rn_shareds (fri_count fr))"

definition set_registers :: "nat \<Rightarrow> RegType \<Rightarrow> u32 \<Rightarrow> nat option \<Rightarrow> unit core_op" where
  "set_registers fid t sz index =
     (let i = (case index of Some i \<Rightarrow> of_nat i | None \<Rightarrow> INVALID_REG_INDEX);
          base = (if 0 < sz then i else INVALID_REG_INDEX) in
      bnd (if 0 < sz then clear_registers (MAKE_REGADDR t i) sz else ret ()) (\<lambda>_.
      commit (modify_family fid (\<lambda>fm. fm\<lparr>fm_regs := (fm_regs fm)(t := (fm_regs fm t)
         \<lparr>fri_base := base, fri_size := sz, fri_last_shareds := base\<rparr>)\<rparr>)) (ret ())))"

text \<open>The loop tries smaller and smaller blocks; \<open>n\<close> is the physical block size.\<close>

fun allocate_registers_loop :: "nat \<Rightarrow> ContextType \<Rightarrow> nat \<Rightarrow> bool core_op" where
  "allocate_registers_loop fid type 0 = ret False"
| "allocate_registers_loop fid type (Suc n) = with_family fid (\<lambda>fm.
     let pbs = of_nat (Suc n); sizes = map (\<lambda>t. register_need (fm_regs fm t) pbs) REG_TYPES in
     bnd (on_part co_ra (\<lambda>r c. c\<lparr>co_ra := r\<rparr>) (\<lambda>e. ra_Alloc (en_phase e) (map unat sizes) fid type)) (\<lambda>r. case r of
       Some indices \<Rightarrow>
         bnd (set_registers fid RT_INTEGER (sizes ! 0) (indices ! 0)) (\<lambda>_.
         bnd (set_registers fid RT_FLOAT (sizes ! 1) (indices ! 1)) (\<lambda>_.
         commit (modify_family fid (\<lambda>fm. fm\<lparr>fm_physBlockSize := pbs\<rparr>)) (ret True)))
     | None \<Rightarrow> allocate_registers_loop fid type n))"

definition AllocateRegisters :: "nat \<Rightarrow> ContextType \<Rightarrow> bool core_op" where
  "AllocateRegisters fid type = with_family fid (\<lambda>fm.
     allocate_registers_loop fid type (unat (max 1 (fm_physBlockSize fm))))"

section \<open>Threads of a family on a core\<close>

text \<open>The differences are signed numbers; the division is unsigned.\<close>

definition CalculateThreadCount :: "u64 \<Rightarrow> u64 \<Rightarrow> u64 \<Rightarrow> u64 res" where
  "CalculateThreadCount start limit step =
     (if step = 0 then Inl SimulationException
      else if 0 < sint step
      then if sint start < sint limit
        then if signed_ok (sint limit - sint start) then Inr ((limit - start + step - 1) div step)
             else Inl UndefinedBehaviour
        else Inr ((step - 1) div step)
      else if \<not> signed_ok (- sint step) then Inl UndefinedBehaviour
      else if sint limit < sint start
        then if signed_ok (sint start - sint limit) then Inr ((start - limit + (- step) - 1) div (- step))
             else Inl UndefinedBehaviour
        else Inr ((- step - 1) div (- step)))"

text \<open>The share of a core: the number of threads per core, and those that run on the cores before it.\<close>

definition threads_per_core :: "u64 \<Rightarrow> u32 \<Rightarrow> u64" where
  "threads_per_core nThreads numCores = max 1 ((nThreads + ucast numCores - 1) div ucast numCores)"

definition threads_skipped :: "u32 \<Rightarrow> u32 \<Rightarrow> u64 \<Rightarrow> u32 \<Rightarrow> u64" where
  "threads_skipped pid placeSize nThreads numCores =
     (if 1 < numCores then threads_per_core nThreads numCores * ucast (pid mod placeSize) else 0)"

definition threads_here :: "u32 \<Rightarrow> u32 \<Rightarrow> u64 \<Rightarrow> u32 \<Rightarrow> u64" where
  "threads_here pid placeSize nThreads numCores =
     (let s = threads_skipped pid placeSize nThreads numCores
      in min (max nThreads s - s) (threads_per_core nThreads numCores))"

definition CalculateDistribution :: "nat \<Rightarrow> u64 \<Rightarrow> u32 \<Rightarrow> unit core_op" where
  "CalculateDistribution fid nThreads numCores = with_family fid (\<lambda>fm. get_core (\<lambda>c.
     defined (numCores \<noteq> 0 \<and> (1 < numCores \<longrightarrow> fm_placeSize fm \<noteq> 0))
     (let skipped = threads_skipped (co_pid c) (fm_placeSize fm) nThreads numCores;
          here = threads_here (co_pid c) (fm_placeSize fm) nThreads numCores;
          blockSize = (if fm_physBlockSize fm = 0 then of_nat (tt_size (co_tt c)) - 1 else fm_physBlockSize fm)
      in set_core (modify_family fid (\<lambda>fm. fm\<lparr>fm_physBlockSize := ucast (min (ucast blockSize :: u64) here)\<rparr>))
        (commit (modify_family fid (\<lambda>fm. fm\<lparr>fm_start := fm_start fm + fm_step fm * skipped, fm_nThreads := here\<rparr>))
          (ret ())))))"

section \<open>Family entries\<close>

text \<open>The value of the host's library.\<close>

definition RAND_MAX :: u64 where
  "RAND_MAX = 2147483647"

function generate_loop :: "u64 \<Rightarrow> u64 \<Rightarrow> (nat \<Rightarrow> u64) \<Rightarrow> nat \<Rightarrow> u64 \<times> nat" where
  "generate_loop limit capability rand pos =
     (if limit = 0 then (capability, pos)
      else generate_loop (limit div (RAND_MAX + 1)) (capability * (RAND_MAX + 1) + rand pos) rand (Suc pos))"
  by pat_completeness auto

termination
  by (relation "measure (\<lambda>(limit, _). unat limit)")
     (auto simp: RAND_MAX_def unat_div_distrib unat_gt_0 intro!: div_less_dividend)

declare generate_loop.simps [simp del]

definition GenerateCapability :: "nat \<Rightarrow> (nat \<Rightarrow> u64) \<Rightarrow> nat \<Rightarrow> (u64 \<times> nat) res" where
  "GenerateCapability bits rand pos = res_bind (shift_left bits 1) (\<lambda>top.
     let (capability, pos) = generate_loop (top + (RAND_MAX + 1) - 1) 0 rand pos in Inr (capability AND (top - 1), pos))"

definition GenerateFamilyCapability :: "u64 core_op" where
  "GenerateFamilyCapability = get_core (\<lambda>c. check (pid_bits (co_bits c) + fid_bits (co_bits c) < 64)
     (on_part co_rand_pos (\<lambda>p c. c\<lparr>co_rand_pos := p\<rparr>)
        (\<lambda>e p. GenerateCapability (64 - pid_bits (co_bits c) - fid_bits (co_bits c)) (co_rand c) p)))"

definition initial_family :: "u64 \<Rightarrow> Family \<Rightarrow> Family" where
  "initial_family capability fm = fm\<lparr>fm_capability := capability, fm_legacy := False, fm_start := 0, fm_nThreads := 1,
     fm_step := 1, fm_physBlockSize := 0, fm_link := INVALID_LFID, fm_sync_done := False, fm_sync_pid := INVALID_PID,
     fm_hasShareds := False, fm_lastAllocated := INVALID_TID, fm_prevCleanedUp := False, fm_broken := False,
     fm_dependencies := (fm_dependencies fm)\<lparr>fd_allocationDone := False, fd_numPendingReads := 0,
       fd_numThreadsAllocated := 0, fd_detached := False, fd_syncSent := True\<rparr>\<rparr>"

definition InitializeFamily :: "nat \<Rightarrow> u64 core_op" where
  "InitializeFamily fid = bnd GenerateFamilyCapability (\<lambda>capability. with_family fid (\<lambda>fm.
     commit (modify_family fid (initial_family capability)) (ret capability)))"

definition GetFamilyChecked :: "nat \<Rightarrow> u64 \<Rightarrow> Family core_op" where
  "GetFamilyChecked fid capability = get_core (\<lambda>c.
     if \<not> fid < length (co_families c) then raise_error InvalidArgumentException
     else if family_state c fid = FST_EMPTY then raise_error InvalidArgumentException
     else if capability \<noteq> fm_capability (co_families c ! fid) then raise_error InvalidArgumentException
     else ret (co_families c ! fid))"

definition IsContextAvailable :: "ContextType \<Rightarrow> bool core_op" where
  "IsContextAvailable type = get_core (\<lambda>c.
     if \<not> 0 < GetNumFreeContexts type (co_ra c) then ret False
     else bnd (liftr (GetNumFreeThreads type (co_tt c))) (\<lambda>n.
       if \<not> 0 < n then ret False
       else bnd (liftr (GetNumFreeFamilies type (co_ft c))) (\<lambda>n. ret (0 < n))))"

definition on_ft :: "(env \<Rightarrow> family_table \<Rightarrow> ('a \<times> family_table) res) \<Rightarrow> 'a core_op" where
  "on_ft = on_part co_ft (\<lambda>t c. c\<lparr>co_ft := t\<rparr>)"

definition on_tt :: "(env \<Rightarrow> thread_table \<Rightarrow> ('a \<times> thread_table) res) \<Rightarrow> 'a core_op" where
  "on_tt = on_part co_tt (\<lambda>t c. c\<lparr>co_tt := t\<rparr>)"

definition on_ra :: "(env \<Rightarrow> type_info list \<Rightarrow> ('a \<times> type_info list) res) \<Rightarrow> 'a core_op" where
  "on_ra = on_part co_ra (\<lambda>r c. c\<lparr>co_ra := r\<rparr>)"

definition ReleaseContext :: "nat \<Rightarrow> unit core_op" where
  "ReleaseContext fid =
     bnd (on_ft (\<lambda>e t. unit_result (FreeFamily (en_phase e) (en_cycle e) fid CONTEXT_NORMAL t))) (\<lambda>_.
     bnd (on_ra (\<lambda>e r. unit_result (UnreserveContext (en_phase e) r))) (\<lambda>_.
     on_tt (\<lambda>e t. unit_result (UnreserveThread (en_phase e) (en_cycle e) t))))"

definition AllocateContext :: "ContextType \<Rightarrow> nat \<Rightarrow> u32 \<Rightarrow> nat core_op" where
  "AllocateContext type prev_fid placeSize = bnd (IsContextAvailable type) (\<lambda>ok.
     if \<not> ok then ret INVALID_LFID
     else bnd (on_ft (\<lambda>e. AllocateFamily (en_phase e) (en_cycle e) type)) (\<lambda>r. case r of
       None \<Rightarrow> raise_error AssertionFailure
     | Some lfid \<Rightarrow> check (lfid \<noteq> INVALID_LFID)
        (bnd (if type \<noteq> CONTEXT_EXCLUSIVE
              then check (type = CONTEXT_NORMAL)
                (bnd (on_ra (\<lambda>e r. unit_result (ReserveContext (en_phase e) r))) (\<lambda>_.
                 on_tt (\<lambda>e t. unit_result (ReserveThread (en_phase e) (en_cycle e) t))))
              else ret ()) (\<lambda>_.
         bnd (InitializeFamily lfid) (\<lambda>_.
         commit (modify_family lfid (\<lambda>fm. fm\<lparr>fm_placeSize := placeSize, fm_link := prev_fid,
            fm_dependencies := (fm_dependencies fm)\<lparr>fd_prevSynchronized := (prev_fid = INVALID_LFID)\<rparr>\<rparr>)) (ret lfid))))))"

definition ActivateFamily :: "nat \<Rightarrow> bool core_op" where
  "ActivateFamily fid =
     or_return (invoke co_p_alloc (\<lambda>s c. c\<lparr>co_p_alloc := s\<rparr>)) False
     (commit (set_family_state fid FST_ACTIVE) (commit (\<lambda>c. c\<lparr>co_numCreatedFamilies := co_numCreatedFamilies c + 1\<rparr>)
     (or_return (buffer_push co_alloc (\<lambda>b c. c\<lparr>co_alloc := b\<rparr>) fid) False (ret True))))"

section \<open>The process that allocates threads\<close>

definition clear_dependents :: "nat \<Rightarrow> Family \<Rightarrow> Thread \<Rightarrow> RegType \<Rightarrow> unit core_op" where
  "clear_dependents fid fm th t =
     (if 0 < rn_shareds (fri_count (fm_regs fm t))
      then clear_registers (MAKE_REGADDR t (tri_dependents (th_regs th t))) (widen8 (rn_shareds (fri_count (fm_regs fm t))))
      else ret ())"

text \<open>Cleaning up the thread at the front of the cleanup queue: its slot is freed when all threads of
  the family have been allocated, and used again otherwise.\<close>

definition cleanup_thread :: "nat \<Rightarrow> Result core_op" where
  "cleanup_thread tid = with_thread tid (\<lambda>th. let fid = th_family th in with_family fid (\<lambda>fm.
     bnd (buffer_pop co_cleanup (\<lambda>b c. c\<lparr>co_cleanup := b\<rparr>)) (\<lambda>_. get_core (\<lambda>c.
     check (thread_state c tid = TST_TERMINATED)
     (bnd (clear_dependents fid fm th RT_INTEGER) (\<lambda>_. bnd (clear_dependents fid fm th RT_FLOAT) (\<lambda>_.
      or_return (if fm_hasShareds fm \<and> 1 < fm_physBlockSize fm
                 then if th_nextInBlock th = INVALID_TID
                   then commit (modify_family fid (\<lambda>fm. fm\<lparr>fm_prevCleanedUp := True\<rparr>)) (ret True)
                   else DecreaseThreadDependency (th_nextInBlock th) THREADDEP_PREV_CLEANED_UP
                 else ret True) FAILED
      (bnd (unmap_tls tid) (\<lambda>_.
       if fd_allocationDone (fm_dependencies fm)
       then let context = (if ft_IsExclusive fid (co_ft c) \<and> fd_numThreadsAllocated (fm_dependencies fm) = 1
                           then CONTEXT_EXCLUSIVE else CONTEXT_NORMAL) in
         bnd (on_tt (\<lambda>e t. unit_result (PushEmpty (en_phase e) (en_cycle e) tid context t))) (\<lambda>_.
         or_return (DecreaseFamilyDependency fid FAMDEP_THREAD_COUNT) FAILED (ret SUCCESS))
       else or_return (AllocateThread fid tid False) FAILED (ret SUCCESS))))))))))"

text \<open>The first threads of the family at the front of the queue of new families.\<close>

definition first_threads :: "nat \<Rightarrow> Result core_op" where
  "first_threads fid = with_family fid (\<lambda>fm. get_core (\<lambda>c.
     let n = fd_numThreadsAllocated (fm_dependencies fm) in
     if n = fm_physBlockSize fm \<or> fd_allocationDone (fm_dependencies fm)
     then bnd (buffer_pop co_alloc (\<lambda>b c. c\<lparr>co_alloc := b\<rparr>)) (\<lambda>_. ret SUCCESS)
     else if fm_nThreads fm = 0
     then or_return (DecreaseFamilyDependency fid FAMDEP_ALLOCATION_DONE) FAILED (ret SUCCESS)
     else let exclusive = (n = 0 \<and> ft_IsExclusive fid (co_ft c)); reserved = (n = 0) in
       bnd (on_tt (\<lambda>e. PopEmpty (en_phase e) (en_cycle e)
              (if exclusive then CONTEXT_EXCLUSIVE else if reserved then CONTEXT_RESERVED else CONTEXT_NORMAL))) (\<lambda>r.
       case r of
         None \<Rightarrow> check (\<not> exclusive \<and> \<not> reserved) (ret FAILED)
       | Some tid \<Rightarrow> or_return (AllocateThread fid tid True) FAILED (ret SUCCESS))))"

definition DoThreadAllocate :: "Result core_op" where
  "DoThreadAllocate = get_core (\<lambda>c.
     if \<not> buffer_Empty (co_cleanup c)
     then bnd (liftr (buffer_Front (co_cleanup c))) cleanup_thread
     else check (\<not> buffer_Empty (co_alloc c)) (bnd (liftr (buffer_Front (co_alloc c))) first_threads))"

end
