(* ===== verification/Marshalling.thy ===== *)
theory Marshalling
  imports Register_File
begin

text \<open>
  How instructions and registers are stored in memory (arch/simtypes.cpp): the byte order and the
  extensions depend on the architecture the simulator is built for (\<open>TARGET_...\<close>). Bytes are
  8-bit words, a block of memory is the list of its bytes.
\<close>

datatype Target = MTALPHA | MTSPARC | MIPS32 | MIPS32EL | OR1K

definition big_endian :: "Target \<Rightarrow> bool" where
  "big_endian t = (t = MTSPARC \<or> t = MIPS32 \<or> t = OR1K)"

fun BigEndianToInteger_loop :: "u64 \<Rightarrow> u8 list \<Rightarrow> u64" where
  "BigEndianToInteger_loop v [] = v"
| "BigEndianToInteger_loop v (b # bs) = BigEndianToInteger_loop (push_bit 8 v + ucast b) bs"

definition BigEndianToInteger :: "u8 list \<Rightarrow> u64" where
  "BigEndianToInteger d = BigEndianToInteger_loop 0 d"

fun IntegerToBigEndian :: "u64 \<Rightarrow> nat \<Rightarrow> u8 list" where
  "IntegerToBigEndian v 0 = []"
| "IntegerToBigEndian v (Suc n) = IntegerToBigEndian (drop_bit 8 v) n @ [ucast (v AND 0xFF)]"

text \<open>The loop runs from the last byte to the first.\<close>

fun LittleEndianToInteger :: "u8 list \<Rightarrow> u64" where
  "LittleEndianToInteger [] = 0"
| "LittleEndianToInteger (b # bs) = push_bit 8 (LittleEndianToInteger bs) + ucast b"

fun IntegerToLittleEndian :: "u64 \<Rightarrow> nat \<Rightarrow> u8 list" where
  "IntegerToLittleEndian v 0 = []"
| "IntegerToLittleEndian v (Suc n) = ucast (v AND 0xFF) # IntegerToLittleEndian (drop_bit 8 v) n"

definition IntegerToEndian :: "Target \<Rightarrow> u64 \<Rightarrow> nat \<Rightarrow> u8 list" where
  "IntegerToEndian t v n = (if big_endian t then IntegerToBigEndian v n else IntegerToLittleEndian v n)"

definition EndianToInteger :: "Target \<Rightarrow> u8 list \<Rightarrow> u64" where
  "EndianToInteger t d = (if big_endian t then BigEndianToInteger d else LittleEndianToInteger d)"

text \<open>An instruction is four bytes.\<close>

definition UnserializeInstruction :: "Target \<Rightarrow> u8 list \<Rightarrow> u32" where
  "UnserializeInstruction t d = foldl (\<lambda>i j. push_bit 8 i OR ucast (d ! j)) 0
     (if big_endian t then [0, 1, 2, 3] else [3, 2, 1, 0])"

definition MAP_S :: "u64 \<Rightarrow> u64" where
  "MAP_S e = (if e = 0xFF then 0x7FF
     else if e = 0x00 then 0x000
     else if e AND 0x80 \<noteq> 0 then 0x400 OR (e AND 0x7F)
     else 0x380 OR (e AND 0x7F))"

fun UnserializeRegister :: "Target \<Rightarrow> RegType \<Rightarrow> u8 list \<Rightarrow> u64" where
  "UnserializeRegister t RT_INTEGER d =
     (let v = EndianToInteger t d
      in if t \<noteq> MTSPARC \<and> length d = 4 then scast (ucast v :: 32 word) else v)"
| "UnserializeRegister t RT_FLOAT d =
     (let v = EndianToInteger t d
      in if t = MTALPHA \<and> length d = 4
         then (push_bit 63 (drop_bit 31 v AND 1)
               OR push_bit 52 (MAP_S (drop_bit 23 v AND 0xFF)))
               OR push_bit 29 (v AND 0x7FFFFF)
         else v)"

definition SerializeRegister :: "Target \<Rightarrow> RegType \<Rightarrow> u64 \<Rightarrow> nat \<Rightarrow> u8 list" where
  "SerializeRegister t type v n =
     (let v' = (if type = RT_FLOAT \<and> t = MTALPHA \<and> n = 4
                then push_bit 30 (drop_bit 62 v AND 3) OR (drop_bit 29 v AND 0x3FFFFFFF) else v)
      in IntegerToEndian t v' n)"

section \<open>Byte order\<close>

lemma FF_mask: "(0xFF :: u64) = mask 8"
  by (simp add: mask_eq_exp_minus_1)

lemma low_byte: "ucast (ucast (v AND 0xFF :: u64) :: u8) = take_bit 8 v"
  unfolding FF_mask by (rule bit_eqI) (auto simp: bit_simps)

lemma low_byte_word: "ucast (v AND 0xFF :: u64) = (ucast v :: u8)"
  unfolding FF_mask by (rule bit_eqI) (auto simp: bit_simps dest: bit_imp_le_length)

lemma byte_disjoint: "push_bit 8 v + ucast (b :: u8) = (push_bit 8 v OR ucast b :: u64)"
proof -
  have "push_bit 8 v AND ucast b = (0 :: u64)"
    by (rule bit_eqI) (auto simp: bit_simps dest: bit_imp_le_length)
  then show ?thesis using word_plus_and_or [of "push_bit 8 v" "ucast b"] by simp
qed

declare LittleEndianToInteger.simps(2) [simp del]

lemma LittleEndian_Cons [simp]:
  "LittleEndianToInteger (b # d) = push_bit 8 (LittleEndianToInteger d) OR ucast b"
  by (simp add: LittleEndianToInteger.simps(2) byte_disjoint)

lemma LittleEndian_roundtrip: "LittleEndianToInteger (IntegerToLittleEndian v n) = take_bit (8 * n) v"
proof (induction n arbitrary: v)
  case (Suc n)
  have "push_bit 8 (take_bit (8 * n) (drop_bit 8 v)) OR take_bit 8 v = take_bit (8 * Suc n) v"
    by (rule bit_eqI) (auto simp: bit_simps)
  then show ?case using Suc by (simp add: low_byte)
qed simp

lemma IntegerToLittleEndian_length [simp]: "length (IntegerToLittleEndian v n) = n"
  by (induction n arbitrary: v) auto

lemma LittleEndian_bit: "bit (LittleEndianToInteger d) i \<Longrightarrow> i < 8 * length d"
proof (induction d arbitrary: i)
  case (Cons b d)
  then show ?case by (auto simp: bit_simps dest: bit_imp_le_length) (metis add.commute
      less_diff_conv2)
qed simp

lemma LittleEndian_inverse:
  "length d \<le> 8 \<Longrightarrow> IntegerToLittleEndian (LittleEndianToInteger d) (length d) = d"
proof (induction d)
  case (Cons b d)
  have "drop_bit 8 (LittleEndianToInteger (b # d)) = LittleEndianToInteger d"
  proof (rule bit_eqI)
    fix i
    have "bit (LittleEndianToInteger d) i \<Longrightarrow> i < 56"
      using LittleEndian_bit [of d i] Cons.prems by simp
    then show "bit (drop_bit 8 (LittleEndianToInteger (b # d))) i = bit (LittleEndianToInteger d) i"
      by (auto simp: bit_simps dest: bit_imp_le_length)
  qed
  moreover have "ucast (LittleEndianToInteger (b # d) AND 0xFF) = b"
    unfolding low_byte_word by (rule bit_eqI) (auto simp: bit_simps)
  ultimately show ?case using Cons by simp
qed simp

lemma BigEndian_loop: "BigEndianToInteger_loop v (d @ [b]) = push_bit 8 (BigEndianToInteger_loop v d) + ucast b"
  by (induction d arbitrary: v) auto

lemma BigEndian_rev: "BigEndianToInteger d = LittleEndianToInteger (rev d)"
  unfolding BigEndianToInteger_def
  by (induction d rule: rev_induct) (simp_all add: BigEndian_loop byte_disjoint)

lemma IntegerToBigEndian_rev: "IntegerToBigEndian v n = rev (IntegerToLittleEndian v n)"
  by (induction n arbitrary: v) auto

lemma Endian_roundtrip: "EndianToInteger t (IntegerToEndian t v n) = take_bit (8 * n) v"
  by (simp add: EndianToInteger_def IntegerToEndian_def BigEndian_rev IntegerToBigEndian_rev
      LittleEndian_roundtrip)

lemma Endian_inverse: "length d \<le> 8 \<Longrightarrow> IntegerToEndian t (EndianToInteger t d) (length d) = d"
  using LittleEndian_inverse [of d] LittleEndian_inverse [of "rev d"]
  by (simp add: EndianToInteger_def IntegerToEndian_def BigEndian_rev IntegerToBigEndian_rev)

lemma IntegerToEndian_length [simp]: "length (IntegerToEndian t v n) = n"
  by (simp add: IntegerToEndian_def IntegerToBigEndian_rev)

lemma EndianToInteger_bit: "bit (EndianToInteger t d) i \<Longrightarrow> i < 8 * length d"
  using LittleEndian_bit [of d i] LittleEndian_bit [of "rev d" i]
  by (simp add: EndianToInteger_def BigEndian_rev split: if_splits)

lemma UnserializeInstruction_endian:
  assumes "length d = 4"
  shows "UnserializeInstruction t d = ucast (EndianToInteger t d)"
proof -
  obtain a b c e where d: "d = [a, b, c, e]"
    using assms by (auto simp: numeral_eq_Suc length_Suc_conv)
  show ?thesis
    unfolding d by (rule bit_eqI)
      (auto simp: UnserializeInstruction_def EndianToInteger_def BigEndian_rev bit_simps
        dest: bit_imp_le_length)
qed

section \<open>The 32-bit floats of the Alpha\<close>

text \<open>The exponent is widened so that its top bit and its low seven bits are kept.\<close>

lemma MAP_S_bits:
  assumes "e = take_bit 8 e"
  shows "bit (MAP_S e) 10 = bit e 7" and "j < 7 \<Longrightarrow> bit (MAP_S e) j = bit e j"
    and "10 < j \<Longrightarrow> \<not> bit (MAP_S e) j"
proof -
  have m: "(0x7F :: u64) = mask 7" "(0x7FF :: u64) = mask 11"
    "(0x80 :: u64) = 2 ^ 7" "(0x380 :: u64) = push_bit 7 (mask 3)"
    by (simp_all add: mask_eq_exp_minus_1)
  have top: "e AND 2 ^ 7 \<noteq> 0 \<longleftrightarrow> bit e 7" by (simp only: and_exp_eq_0_iff_not_bit not_not)
  have hi: "bit e j \<Longrightarrow> j < 8" for j using assms by (metis bit_take_bit_iff)
  have b: "bit (0x400 :: u64) k \<longleftrightarrow> k = 10" for k
  proof -
    have "bit ((2 :: u64) ^ 10) k \<longleftrightarrow> k = 10" by (simp only: bit_exp_iff) auto
    then show ?thesis by simp
  qed
  have cases: "e = mask 8 \<and> MAP_S e = mask 11 \<or> e = 0 \<and> MAP_S e = 0
    \<or> bit e 7 \<and> MAP_S e = 0x400 OR (e AND mask 7)
    \<or> \<not> bit e 7 \<and> MAP_S e = push_bit 7 (mask 3) OR (e AND mask 7)"
    unfolding MAP_S_def FF_mask m top
    by (cases "e = mask 8"; cases "e = 0"; cases "bit e 7") (simp_all only: simp_thms if_True if_False)
  consider "e = mask 8" "MAP_S e = mask 11" | "e = 0" "MAP_S e = 0"
    | "bit e 7" "MAP_S e = 0x400 OR (e AND mask 7)"
    | "\<not> bit e 7" "MAP_S e = push_bit 7 (mask 3) OR (e AND mask 7)"
    using cases by (elim disjE conjE) (rule that, assumption+)+
  then have "bit (MAP_S e) 10 = bit e 7 \<and> (j < 7 \<longrightarrow> bit (MAP_S e) j = bit e j) \<and> (10 < j \<longrightarrow> \<not> bit (MAP_S e) j)"
  proof cases
    case 3
    then show ?thesis unfolding 3(2) bit_or_iff b by (auto simp: bit_simps)
  qed (use hi in \<open>auto simp: bit_simps\<close>)
  then show "bit (MAP_S e) 10 = bit e 7" "j < 7 \<Longrightarrow> bit (MAP_S e) j = bit e j"
    "10 < j \<Longrightarrow> \<not> bit (MAP_S e) j" by blast+
qed

lemma S_float_roundtrip:
  assumes "length d = 4"
  shows "SerializeRegister MTALPHA RT_FLOAT (UnserializeRegister MTALPHA RT_FLOAT d) 4 = d"
proof -
  let ?v = "EndianToInteger MTALPHA d"
  let ?e = "drop_bit 23 ?v AND 0xFF"
  let ?r = "UnserializeRegister MTALPHA RT_FLOAT d"
  have v: "bit ?v i \<Longrightarrow> i < 32" for i using EndianToInteger_bit [of MTALPHA d i] assms by simp
  have e: "?e = take_bit 8 ?e" unfolding FF_mask by (simp add: take_bit_eq_mask [symmetric])
  have eb: "bit ?e j = (j < 8 \<and> bit ?v (23 + j))" for j
    unfolding FF_mask by (auto simp: bit_simps)
  note M = MAP_S_bits [OF e]
  have m: "(0x7FFFFF :: u64) = mask 23" "(3 :: u64) = mask 2" "(0x3FFFFFFF :: u64) = mask 30" "(1 :: u64) = mask 1"
    by (simp_all add: mask_eq_exp_minus_1)
  have r: "?r = (push_bit 63 (drop_bit 31 ?v AND 1) OR push_bit 52 (MAP_S ?e)) OR push_bit 29 (?v AND 0x7FFFFF)"
    using assms by (simp add: Let_def)
  have frac: "bit ?r i = bit ?v (i - 29)" if "29 \<le> i" "i < 52" for i
    unfolding r m using that by (auto simp: bit_simps)
  have expo: "bit ?r i = bit (MAP_S ?e) (i - 52)" if "52 \<le> i" "i < 63" for i
    unfolding r m using that by (auto simp: bit_simps)
  have sgn: "bit ?r 63 = bit ?v 31"
    unfolding r m using M(3) [of 11] by (auto simp: bit_simps)
  have "push_bit 30 (drop_bit 62 ?r AND 3) OR (drop_bit 29 ?r AND 0x3FFFFFFF) = ?v" (is "?s = _")
  proof (rule bit_eqI)
    fix i
    have s: "bit ?s i = (i = 31 \<and> bit ?r 63 \<or> i = 30 \<and> bit ?r 62 \<or> i < 30 \<and> bit ?r (29 + i))"
      unfolding m by (cases "i = 31 \<or> i = 30") (auto simp: bit_simps)
    consider "32 \<le> i" | "i = 31" | "i = 30" | "23 \<le> i" "i < 30" | "i < 23" by linarith
    then show "bit ?s i = bit ?v i"
    proof cases
      case 1
      then show ?thesis using s v [of i] by auto
    next
      case 2
      then show ?thesis using s sgn by simp
    next
      case 3
      then show ?thesis using s expo [of 62] M(1) eb [of 7] by simp
    next
      case 4
      then have 1: "bit ?s i = bit (MAP_S ?e) (i - 23)" using s expo [of "29 + i"] by simp
      have "i - 23 < 7" "23 + (i - 23) = i" using 4 by simp_all
      then have "bit (MAP_S ?e) (i - 23) = bit ?v i" using M(2) [of "i - 23"] eb [of "i - 23"] by simp
      with 1 show ?thesis by (rule trans)
    next
      case 5
      then show ?thesis using s frac [of "29 + i"] by simp
    qed
  qed
  then show ?thesis
    using Endian_inverse [of d MTALPHA] assms
    by (simp add: SerializeRegister_def del: UnserializeRegister.simps)
qed

lemma low_word_bytes: "IntegerToEndian t (scast (ucast w :: 32 word)) 4 = IntegerToEndian t w 4"
proof -
  have "IntegerToLittleEndian (scast (ucast w :: 32 word)) 4 = IntegerToLittleEndian w 4"
    by (simp add: numeral_eq_Suc low_byte_word) (auto intro!: bit_eqI simp: bit_simps dest: bit_imp_le_length)
  then show ?thesis by (simp add: IntegerToEndian_def IntegerToBigEndian_rev)
qed

text \<open>
  C29. Reading back a stored integer register gives its low bytes, sign-extended to 64 bits when
  they are four and the architecture is not the SPARC; an instruction is read in the byte order of
  the architecture; and for every architecture storing what was read from at most eight bytes gives
  these bytes again, the widening of 32-bit floats on the Alpha included.
\<close>

theorem register_marshalling:
  assumes "length d \<le> 8" and "length i = 4"
  shows "UnserializeRegister t RT_INTEGER (SerializeRegister t RT_INTEGER v n)
      = (if t \<noteq> MTSPARC \<and> n = 4 then scast (ucast v :: 32 word) else take_bit (8 * n) v)
    \<and> SerializeRegister t type (UnserializeRegister t type d) (length d) = d
    \<and> UnserializeInstruction t i
      = ucast (LittleEndianToInteger (if big_endian t then rev i else i))"
proof (intro conjI)
  have low: "ucast (take_bit 32 v) = (ucast v :: 32 word)"
    by (rule bit_eqI) (auto simp: bit_simps dest: bit_imp_le_length)
  show "UnserializeRegister t RT_INTEGER (SerializeRegister t RT_INTEGER v n)
      = (if t \<noteq> MTSPARC \<and> n = 4 then scast (ucast v :: 32 word) else take_bit (8 * n) v)"
    by (simp add: SerializeRegister_def Endian_roundtrip low)
  show "SerializeRegister t type (UnserializeRegister t type d) (length d) = d"
  proof (cases "type = RT_FLOAT \<and> t = MTALPHA \<and> length d = 4")
    case True
    then show ?thesis using S_float_roundtrip by simp
  next
    case False
    have plain: "SerializeRegister t type w (length d) = IntegerToEndian t w (length d)" for w
      by (simp only: SerializeRegister_def Let_def False if_False)
    have "UnserializeRegister t type d = EndianToInteger t d
        \<or> length d = 4 \<and> UnserializeRegister t type d = scast (ucast (EndianToInteger t d) :: 32 word)"
      using False by (cases type) (auto simp: Let_def)
    then show ?thesis unfolding plain using low_word_bytes Endian_inverse [OF assms(1), of t] by auto
  qed
  show "UnserializeInstruction t i = ucast (LittleEndianToInteger (if big_endian t then rev i else i))"
    using UnserializeInstruction_endian [OF assms(2), of t]
    by (simp add: EndianToInteger_def BigEndian_rev)
qed

theorem register_marshalling_witness:
  "UnserializeInstruction MTALPHA [0x1F, 0x04, 0xFF, 0x47] = 0x47FF041F
   \<and> SerializeRegister MTALPHA RT_FLOAT (UnserializeRegister MTALPHA RT_FLOAT [0, 0, 0x80, 0x3F]) 4
     = [0, 0, 0x80, 0x3F]"
proof -
  have l: "length [0, 0, 0x80, 0x3F :: u8] = 4" "length [0x1F, 0x04, 0xFF, 0x47 :: u8] = 4"
    "length [0, 0, 0x80, 0x3F :: u8] \<le> 8" by simp_all
  note R = register_marshalling [OF l(3) l(2), of MTALPHA 0 0 RT_FLOAT, unfolded l(1)]
  have "ucast (LittleEndianToInteger [0x1F, 0x04, 0xFF, 0x47]) = (0x47FF041F :: u32)"
    by (simp add: LittleEndianToInteger.simps del: LittleEndian_Cons)
  then show ?thesis using R [THEN conjunct2] by (simp only: big_endian_def Target.distinct simp_thms if_False)
qed

end
