(* ===== verification/Allocator_Create.thy ===== *)
theory Allocator_Create
  imports Allocator_Families Marshalling
begin

text \<open>
  The part of the allocator (arch/drisc/Allocator.cpp) that creates families: the queues of allocation and
  create requests, the allocation of a context, the state machine that creates a family, the
  activation of threads, and the administration of registers. The data cache, which the creation of
  bundles reads, is an argument.
\<close>

section \<open>Registers of a family as other cores see them\<close>

definition GetRemoteRegisterAddress :: "nat \<Rightarrow> RemoteRegType \<Rightarrow> RegAddr \<Rightarrow> RegAddr core_op" where
  "GetRemoteRegisterAddress fid kind addr = with_family fid (\<lambda>fm. get_core (\<lambda>c.
     let regs = fm_regs fm (ra_type addr);
         at = (\<lambda>base sz. ret (if of_nat (ra_index addr) < sz
                              then MAKE_REGADDR (ra_type addr) (base + of_nat (ra_index addr)) else INVALID_REG)) in
     check (family_state c fid \<noteq> FST_EMPTY)
     (case kind of
        RRT_GLOBAL \<Rightarrow> at (fri_base regs + fri_size regs - widen8 (rn_globals (fri_count regs)))
                         (widen8 (rn_globals (fri_count regs)))
      | RRT_LAST_SHARED \<Rightarrow> check (fri_last_shareds regs \<noteq> INVALID_REG_INDEX)
          (at (fri_last_shareds regs) (widen8 (rn_shareds (fri_count regs))))
      | RRT_FIRST_DEPENDENT \<Rightarrow> at (fri_base regs) (widen8 (rn_shareds (fri_count regs)))
      | _ \<Rightarrow> raise_error AssertionFailure)))"

definition in_window :: "u32 \<Rightarrow> u32 \<Rightarrow> u32 \<Rightarrow> bool" where
  "in_window i base n \<longleftrightarrow> base \<noteq> INVALID_REG_INDEX \<and> base \<le> i \<and> i < base + n"

text \<open>The class of a register, its offset in the window and the thread; the offset of a
  register that belongs to no thread is not assigned.\<close>

definition thread_window :: "RegsNo \<Rightarrow> ThreadRegInfo \<Rightarrow> u32 \<Rightarrow> (RegClass \<times> u32) option" where
  "thread_window n tr i =
     (if in_window i (tri_locals tr) (widen8 (rn_locals n)) then Some (RC_LOCAL, i - tri_locals tr)
      else if in_window i (tri_shareds tr) (widen8 (rn_shareds n)) then Some (RC_SHARED, i - tri_shareds tr)
      else if in_window i (tri_dependents tr) (widen8 (rn_shareds n)) then Some (RC_DEPENDENT, i - tri_dependents tr)
      else None)"

fun find_window :: "Core \<Rightarrow> nat \<Rightarrow> RegsNo \<Rightarrow> RegAddr \<Rightarrow> nat list \<Rightarrow> nat \<times> RegClass \<times> u32 option" where
  "find_window c fid n addr [] = (INVALID_TID, RC_LOCAL, None)"
| "find_window c fid n addr (i # is) =
     (if thread_state c i \<noteq> TST_EMPTY \<and> th_family (co_threads c ! i) = fid
      then case thread_window n (th_regs (co_threads c ! i) (ra_type addr)) (of_nat (ra_index addr)) of
             Some (cl, rel) \<Rightarrow> (i, cl, Some rel)
           | None \<Rightarrow> find_window c fid n addr is
      else find_window c fid n addr is)"

definition GetRegisterType :: "nat \<Rightarrow> RegAddr \<Rightarrow> (nat \<times> RegClass \<times> u32 option) core_op" where
  "GetRegisterType fid addr = with_family fid (\<lambda>fm. get_core (\<lambda>c.
     let regs = fm_regs fm (ra_type addr); n = fri_count regs; i = of_nat (ra_index addr);
         globals = fri_base regs + fri_size regs - widen8 (rn_globals n) in
     if globals \<le> i \<and> i < globals + widen8 (rn_globals n) then ret (INVALID_TID, RC_GLOBAL, Some (i - globals))
     else ret (find_window c fid n addr [0..<tt_size (co_tt c)])))"

section \<open>Requests\<close>

definition UpdateStats :: "unit core_op" where
  "UpdateStats = get_env (\<lambda>e. set_core (\<lambda>c.
     let elapsed = en_cycle e - co_lastcycle c; cur = of_nat (length (b_data (co_allocRequests c RequestsExclusive)))
     in c\<lparr>co_lastcycle := en_cycle e, co_curallocex := cur, co_totalallocex := co_totalallocex c + cur * elapsed,
          co_maxallocex := max (co_maxallocex c) cur\<rparr>) (ret ()))"

definition set_requests :: "request_queue \<Rightarrow> AllocRequest buffer \<Rightarrow> Core \<Rightarrow> Core" where
  "set_requests q b c = c\<lparr>co_allocRequests := (co_allocRequests c)(q := b)\<rparr>"

definition push_request :: "request_queue \<Rightarrow> AllocRequest \<Rightarrow> bool core_op" where
  "push_request q r = or_return (buffer_push (\<lambda>c. co_allocRequests c q) (set_requests q) r) False (ret True)"

text \<open>A request from this core or by delegation.\<close>

definition QueueFamilyAllocation :: "allocate_message \<Rightarrow> bool core_op" where
  "QueueFamilyAllocation m = check (al_type m \<noteq> ALLOCATE_BALANCED)
     (check (\<not> al_exclusive m \<or> al_type m = ALLOCATE_SINGLE)
      (push_request (if al_exclusive m then RequestsExclusive
                     else if al_suspend m then RequestsSuspend else RequestsNoSuspend)
        \<lparr>aq_first_fid = INVALID_LFID, aq_prev_fid = INVALID_LFID, aq_placeSize = pl_size (al_place m),
          aq_type = al_type m, aq_completion_pid = al_completion_pid m, aq_completion_reg = al_completion_reg m,
          aq_bundle = al_bundle m, aq_pc = al_pc m, aq_parameter = al_parameter m, aq_index = al_index m\<rparr>))"

text \<open>A request over the link from the core before.\<close>

definition QueueLinkAllocation :: "link_allocate \<Rightarrow> bool core_op" where
  "QueueLinkAllocation m = push_request (if la_suspend m then RequestsSuspend else RequestsNoSuspend)
     \<lparr>aq_first_fid = la_first_fid m, aq_prev_fid = la_prev_fid m, aq_placeSize = la_size m,
       aq_type = (if la_exact m then ALLOCATE_EXACT else ALLOCATE_NORMAL), aq_completion_pid = la_completion_pid m,
       aq_completion_reg = la_completion_reg m, aq_bundle = False, aq_pc = 0, aq_parameter = 0, aq_index = 0\<rparr>"

definition QueueBundle :: "u64 \<Rightarrow> u64 \<Rightarrow> u32 \<Rightarrow> bool core_op" where
  "QueueBundle addr parameter completion_reg = or_return (buffer_push co_bundle (\<lambda>b c. c\<lparr>co_bundle := b\<rparr>)
     \<lparr>bi_addr = addr, bi_parameter = parameter, bi_completion_reg = completion_reg\<rparr>) False (ret True)"

section \<open>Allocating a context\<close>

definition full_value :: "u64 \<Rightarrow> Core \<Rightarrow> RegValue" where
  "full_value v c = (co_junk c)\<lparr>rv_state := RST_FULL, rv_value := v\<rparr>"

text \<open>A family identifier is written to a register of a core.\<close>

definition send_fid :: "u32 \<Rightarrow> u32 \<Rightarrow> FID \<Rightarrow> bool core_op" where
  "send_fid pid reg fid = get_core (\<lambda>c. bnd (liftr (PackFID (co_bits c) fid)) (\<lambda>v.
     SendMessage (RMSG_RAW_REGISTER pid (MAKE_REGADDR RT_INTEGER reg) (full_value v c))))"

definition pick_requests :: "Core \<Rightarrow> request_queue option" where
  "pick_requests c =
     (if \<not> ft_IsExclusiveUsed (co_ft c) \<and> \<not> buffer_Empty (co_allocRequests c RequestsExclusive) then Some RequestsExclusive
      else if \<not> buffer_Empty (co_allocRequests c RequestsNoSuspend) then Some RequestsNoSuspend
      else if \<not> buffer_Empty (co_allocRequests c RequestsSuspend) then Some RequestsSuspend
      else None)"

text \<open>No context, and the request does not want to wait: the failure goes back.\<close>

definition allocation_failed :: "AllocRequest \<Rightarrow> bool core_op" where
  "allocation_failed req = check (\<not> aq_bundle req) (check (aq_completion_reg req \<noteq> INVALID_REG_INDEX)
     (if aq_prev_fid req = INVALID_LFID
      then send_fid (aq_completion_pid req) (aq_completion_reg req) \<lparr>f_capability = 0, f_pid = 0, f_lfid = 0\<rparr>
      else SendAllocResponse \<lparr>ar_completion_pid = aq_completion_pid req, ar_completion_reg = aq_completion_reg req,
        ar_prev_fid = aq_prev_fid req, ar_next_fid = INVALID_LFID, ar_numCores = 0,
        ar_exact = (aq_type req = ALLOCATE_EXACT)\<rparr>))"

text \<open>The last context of the place: the family is acknowledged, its previous cores commit, or
  the bundled create is sent.\<close>

definition allocation_done :: "nat \<Rightarrow> AllocRequest \<Rightarrow> bool core_op" where
  "allocation_done lfid req = commit (modify_family lfid (\<lambda>fm. fm\<lparr>
       fm_numCores := (if aq_type req = ALLOCATE_SINGLE then 1 else aq_placeSize req), fm_link := INVALID_LFID\<rparr>))
     (with_family lfid (\<lambda>fm. get_core (\<lambda>c.
       let fid = \<lparr>f_capability = fm_capability fm, f_pid = co_pid c, f_lfid = of_nat lfid\<rparr> in
       if \<not> aq_bundle req
       then if aq_prev_fid req = INVALID_LFID then send_fid (aq_completion_pid req) (aq_completion_reg req) fid
         else SendAllocResponse \<lparr>ar_completion_pid = aq_completion_pid req, ar_completion_reg = aq_completion_reg req,
           ar_prev_fid = aq_prev_fid req, ar_next_fid = lfid, ar_numCores = aq_placeSize req,
           ar_exact = (aq_type req = ALLOCATE_EXACT)\<rparr>
       else SendMessage (RMSG_CREATE \<lparr>cm_address = aq_pc req, cm_fid = fid, cm_completion_pid = aq_completion_pid req,
         cm_completion_reg = aq_completion_reg req, cm_bundle = True, cm_parameter = aq_parameter req,
         cm_index = aq_index req\<rparr>))))"

definition allocation_forward :: "request_queue \<Rightarrow> nat \<Rightarrow> AllocRequest \<Rightarrow> bool core_op" where
  "allocation_forward q lfid req = SendLink (LMSG_ALLOCATE \<lparr>la_first_fid = lfid, la_prev_fid = lfid,
     la_size = aq_placeSize req, la_completion_pid = aq_completion_pid req, la_completion_reg = aq_completion_reg req,
     la_exact = (aq_type req = ALLOCATE_EXACT),
     la_suspend = (aq_type req = ALLOCATE_EXACT \<and> q \<noteq> RequestsNoSuspend)\<rparr>)"

definition DoFamilyAllocate :: "Result core_op" where
  "DoFamilyAllocate = get_core (\<lambda>c. case pick_requests c of
       None \<Rightarrow> ret FAILED
     | Some q \<Rightarrow>
         or_return (invoke co_p_allocation (\<lambda>s c. c\<lparr>co_p_allocation := s\<rparr>)) FAILED
         (bnd (liftr (buffer_Front (co_allocRequests c q))) (\<lambda>req.
          bnd (AllocateContext (if q = RequestsExclusive then CONTEXT_EXCLUSIVE else CONTEXT_NORMAL)
                 (aq_prev_fid req) (aq_placeSize req)) (\<lambda>lfid.
          if lfid = INVALID_LFID \<and> q \<noteq> RequestsNoSuspend then ret FAILED
          else or_return
            (if lfid = INVALID_LFID then allocation_failed req
             else defined (aq_type req \<noteq> ALLOCATE_SINGLE \<longrightarrow> aq_placeSize req \<noteq> 0)
               (if aq_type req = ALLOCATE_SINGLE \<or> (co_pid c + 1) mod aq_placeSize req = 0
                then allocation_done lfid req else allocation_forward q lfid req)) FAILED
            (bnd UpdateStats (\<lambda>_. bnd (buffer_pop (\<lambda>c. co_allocRequests c q) (set_requests q)) (\<lambda>_. ret SUCCESS)))))))"

section \<open>Queueing a create\<close>

text \<open>A create from the core before. What the source changes outside \<open>COMMIT\<close> is changed in every phase.\<close>

definition QueueLinkCreate :: "nat \<Rightarrow> u32 \<Rightarrow> u64 \<Rightarrow> (RegType \<Rightarrow> RegsNo) \<Rightarrow> bool core_op" where
  "QueueLinkCreate fid numCores address regs = check (fid \<noteq> INVALID_LFID) (with_family fid (\<lambda>fm.
     commit (modify_family fid (\<lambda>fm. fm\<lparr>fm_pc := address\<rparr>)) (commit (set_family_state fid FST_CREATE_QUEUED)
     (set_core (modify_family fid (\<lambda>fm. fm\<lparr>fm_regs := (\<lambda>t. (fm_regs fm t)
          \<lparr>fri_base := INVALID_REG_INDEX, fri_count := regs t\<rparr>)\<rparr>))
     (bnd (liftr (CalculateThreadCount (fm_start fm) (fm_nThreads fm) (fm_step fm))) (\<lambda>nThreads.
      bnd (CalculateDistribution fid nThreads (fm_numCores fm)) (\<lambda>_.
      or_return (AllocateRegisters fid CONTEXT_RESERVED) False
      (or_return (ActivateFamily fid) False
       (if fm_link fm \<noteq> INVALID_LFID
        then let n = (if 0 < numCores then numCores - 1 else 0) in
          or_return (SendLink (LMSG_CREATE (fm_link fm) n address regs)) False
          (commit (if n = 0 then modify_family fid (\<lambda>fm. fm\<lparr>fm_link := INVALID_LFID\<rparr>) else (\<lambda>c. c)) (ret True))
        else ret True)))))))))"

text \<open>A create from this core or by delegation: the code starts behind the two words of the first line.\<close>

definition QueueCreate :: "create_message \<Rightarrow> bool core_op" where
  "QueueCreate m = get_core (\<lambda>c. check (f_pid (cm_fid m) = co_pid c)
     (let fid = unat (f_lfid (cm_fid m)) in
      bnd (GetFamilyChecked fid (f_capability (cm_fid m))) (\<lambda>_.
      commit (modify_family fid (\<lambda>fm. fm\<lparr>fm_pc := (cm_address m AND - ic_lineSize (co_icache c)) + 8\<rparr>))
      (commit (set_family_state fid FST_CREATE_QUEUED)
      (or_return (buffer_push co_creates (\<lambda>b c. c\<lparr>co_creates := b\<rparr>)
         \<lparr>ci_fid = fid, ci_completion_pid = cm_completion_pid m, ci_completion_reg = cm_completion_reg m,
           ci_parameter = cm_parameter m, ci_index = cm_index m, ci_bundle = cm_bundle m\<rparr>) False (ret True))))))"

section \<open>Creating a family\<close>

definition set_create :: "CreateState \<Rightarrow> Core \<Rightarrow> Core" where
  "set_create s c = c\<lparr>co_createState := s\<rparr>"

definition MaxRegs :: nat where
  "MaxRegs = 31"

text \<open>The counts of a type of registers are 16 bits of the control word.\<close>

definition register_counts :: "u32 \<Rightarrow> RegType \<Rightarrow> RegsNo" where
  "register_counts counts t =
     (let c = drop_bit (if t = RT_INTEGER then 0 else 16) counts
      in \<lparr>rn_globals = ucast (c AND 0x1F), rn_shareds = ucast (drop_bit 5 c AND 0x1F),
          rn_locals = ucast (drop_bit 10 c AND 0x1F)\<rparr>)"

definition counts_ok :: "RegsNo \<Rightarrow> bool" where
  "counts_ok n \<longleftrightarrow> unat (rn_globals n) + 2 * unat (rn_shareds n) + unat (rn_locals n) \<le> MaxRegs"

definition create_initial :: "CreateInfo \<Rightarrow> Result core_op" where
  "create_initial info = (let fid = ci_fid info in with_family fid (\<lambda>fm. get_env (\<lambda>e.
     defined (ci_bundle info \<and> en_phase e = PHASE_COMMIT \<longrightarrow> signed_ok (sint (ci_index info) + 1))
     (commit (if ci_bundle info then modify_family fid (\<lambda>fm. fm\<lparr>fm_start := ci_index info, fm_nThreads := ci_index info + 1\<rparr>)
             else (\<lambda>c. c))
     (bnd (if ci_bundle info then ret 1 else liftr (CalculateThreadCount (fm_start fm) (fm_nThreads fm) (fm_step fm)))
      (\<lambda>nThreads.
       commit (modify_family fid (\<lambda>fm. fm\<lparr>fm_nThreads := nThreads\<rparr>)) (commit (set_family_state fid FST_CREATING)
       (commit (set_create (if nThreads = 0 then CREATE_LINE_LOADED else CREATE_LOAD_REGSPEC)) (ret SUCCESS)))))))))"

definition fetch_line :: "u64 \<Rightarrow> nat option \<Rightarrow> (Result \<times> nat option \<times> nat option) core_op" where
  "fetch_line pc tid = on_icache (\<lambda>e i. res_bind (ic_Fetch e pc 4 tid i) (\<lambda>(r, t, cid, i). Inr ((r, t, cid), i)))"

definition create_load :: "CreateInfo \<Rightarrow> Result core_op" where
  "create_load info = with_family (ci_fid info) (\<lambda>fm. bnd (fetch_line (fm_pc fm - 4) None) (\<lambda>(result, _, cid).
     if result = FAILED then ret FAILED
     else if result = SUCCESS
     then commit (\<lambda>c. (set_create CREATE_LINE_LOADED c)\<lparr>co_createLine := the cid\<rparr>) (ret SUCCESS)
     else commit (set_create CREATE_LOADING_LINE) (ret SUCCESS)))"

definition create_counts :: "CreateInfo \<Rightarrow> Result core_op" where
  "create_counts info = (let fid = ci_fid info in with_family fid (\<lambda>fm. get_env (\<lambda>e. get_core (\<lambda>c.
     bnd (if 0 < fm_nThreads fm
          then bnd (liftr (ic_Read (co_createLine c) (fm_pc fm - 4) 4 (co_icache c))) (\<lambda>bytes.
            bnd (release_line (co_createLine c)) (\<lambda>_. ret (UnserializeInstruction MTALPHA bytes)))
          else ret 0) (\<lambda>counts.
     (if en_phase e = PHASE_COMMIT \<and> (\<exists>t\<in>set REG_TYPES. \<not> counts_ok (register_counts counts t))
      then raise_error InvalidArgumentException
      else commit (modify_family fid (\<lambda>fm. fm\<lparr>
             fm_regs := (\<lambda>t. (fm_regs fm t)\<lparr>fri_base := INVALID_REG_INDEX, fri_count := register_counts counts t\<rparr>),
             fm_hasShareds := (\<exists>t\<in>set REG_TYPES. 0 < rn_shareds (register_counts counts t))\<rparr>))
        (commit (set_create CREATE_RESTRICTING) (ret SUCCESS))))))))"

definition create_cores :: "nat \<Rightarrow> Family \<Rightarrow> Core \<Rightarrow> u32" where
  "create_cores fid fm c =
     (if ft_IsExclusive fid (co_ft c) \<or> fm_hasShareds fm then 1
      else ucast (max 1 (min (fm_nThreads fm) (ucast (fm_numCores fm) :: u64))))"

definition create_restrict :: "CreateInfo \<Rightarrow> Result core_op" where
  "create_restrict info = (let fid = ci_fid info in with_family fid (\<lambda>fm. get_core (\<lambda>c.
     let numCores = create_cores fid fm c in
     bnd (CalculateDistribution fid (fm_nThreads fm) numCores) (\<lambda>_.
     commit (modify_family fid (\<lambda>fm. fm\<lparr>fm_numCores := numCores\<rparr>))
     (commit (set_create CREATE_ALLOCATING_REGISTERS) (ret SUCCESS))))))"

definition create_registers :: "CreateInfo \<Rightarrow> Result core_op" where
  "create_registers info = get_core (\<lambda>c.
     or_return (AllocateRegisters (ci_fid info) (if ft_IsExclusive (ci_fid info) (co_ft c) then CONTEXT_EXCLUSIVE else CONTEXT_RESERVED))
       FAILED (commit (set_create CREATE_BROADCASTING_CREATE) (ret SUCCESS)))"

definition create_broadcast :: "CreateInfo \<Rightarrow> Result core_op" where
  "create_broadcast info = with_family (ci_fid info) (\<lambda>fm.
     or_return (if fm_link fm \<noteq> INVALID_LFID
                then or_return (SendLink (LMSG_CREATE (fm_link fm) (fm_numCores fm - 1) (fm_pc fm)
                            (\<lambda>t. fri_count (fm_regs fm t)))) False
                  (commit (if fm_numCores fm = 1 then modify_family (ci_fid info) (\<lambda>fm. fm\<lparr>fm_link := INVALID_LFID\<rparr>)
                           else (\<lambda>c. c)) (ret True))
                else ret True) FAILED
     (commit (set_create CREATE_ACTIVATING_FAMILY) (ret SUCCESS)))"

text \<open>A bundle writes its parameter to the first shared, and without a completion register nobody
  will detach the family or wait for it.\<close>

definition create_parameter :: "CreateInfo \<Rightarrow> Family \<Rightarrow> bool core_op" where
  "create_parameter info fm = check (0 < fm_nThreads fm)
     (if rn_shareds (fri_count (fm_regs fm RT_INTEGER)) < 1 then raise_error SimulationException
      else let addr = MAKE_REGADDR RT_INTEGER (fri_last_shareds (fm_regs fm RT_INTEGER)) in
        or_return (asyncW_Write addr) False (get_core (\<lambda>c.
        or_return (write_register addr (full_value (ci_parameter info) c) False) False
        (set_core (if ci_completion_reg info = INVALID_REG_INDEX
                   then modify_deps (ci_fid info) (\<lambda>d. d\<lparr>fd_detached := True, fd_syncSent := True\<rparr>) else (\<lambda>c. c))
          (ret True)))))"

definition create_activate :: "CreateInfo \<Rightarrow> Result core_op" where
  "create_activate info = (let fid = ci_fid info in with_family fid (\<lambda>fm. get_core (\<lambda>c.
     or_return (if ci_bundle info then create_parameter info fm else ret True) FAILED
     (or_return (if fm_nThreads fm = 0
                 then bnd (if \<not> ft_IsExclusive fid (co_ft c)
                           then on_tt (\<lambda>e t. unit_result (UnreserveThread (en_phase e) (en_cycle e) t)) else ret ())
                   (\<lambda>_. DecreaseFamilyDependency fid FAMDEP_ALLOCATION_DONE)
                 else ActivateFamily fid) FAILED
       (commit (set_create CREATE_NOTIFY) (ret SUCCESS))))))"

definition create_notify :: "CreateInfo \<Rightarrow> Result core_op" where
  "create_notify info = with_family (ci_fid info) (\<lambda>fm. get_core (\<lambda>c.
     or_return (if ci_completion_reg info \<noteq> INVALID_REG_INDEX
                then send_fid (ci_completion_pid info) (ci_completion_reg info)
                       \<lparr>f_capability = fm_capability fm, f_pid = co_pid c, f_lfid = of_nat (ci_fid info)\<rparr>
                else ret True) FAILED
     (commit (set_create CREATE_INITIAL)
     (bnd (buffer_pop co_creates (\<lambda>b c. c\<lparr>co_creates := b\<rparr>)) (\<lambda>_. ret SUCCESS)))))"

definition DoFamilyCreate :: "Result core_op" where
  "DoFamilyCreate = get_core (\<lambda>c. check (\<not> buffer_Empty (co_creates c))
     (bnd (liftr (buffer_Front (co_creates c))) (\<lambda>info. case co_createState c of
        CREATE_INITIAL \<Rightarrow> create_initial info
      | CREATE_LOAD_REGSPEC \<Rightarrow> create_load info
      | CREATE_LOADING_LINE \<Rightarrow> ret FAILED
      | CREATE_LINE_LOADED \<Rightarrow> create_counts info
      | CREATE_RESTRICTING \<Rightarrow> create_restrict info
      | CREATE_ALLOCATING_REGISTERS \<Rightarrow> create_registers info
      | CREATE_BROADCASTING_CREATE \<Rightarrow> create_broadcast info
      | CREATE_ACTIVATING_FAMILY \<Rightarrow> create_activate info
      | CREATE_NOTIFY \<Rightarrow> create_notify info)))"

definition OnICachelineLoaded :: "nat \<Rightarrow> bool core_op" where
  "OnICachelineLoaded cid = get_core (\<lambda>c. check (\<not> buffer_Empty (co_creates c))
     (commit (\<lambda>c. (set_create CREATE_LINE_LOADED c)\<lparr>co_createLine := cid\<rparr>) (ret True)))"

text \<open>The completion of a load of the instruction cache, with the allocator it calls.\<close>

definition core_ICacheIncoming :: "Result core_op" where
  "core_ICacheIncoming e c = res_bind (ic_DoIncoming e (\<lambda>cid. OnICachelineLoaded cid e) (\<lambda>q. QueueActiveThreads q e)
     (co_icache c, c)) (\<lambda>(r, i, c). Inr (r, c\<lparr>co_icache := i\<rparr>))"

section \<open>Activating threads\<close>

definition DoThreadActivation :: "Result core_op" where
  "DoThreadActivation = get_core (\<lambda>c.
     let k = (if (co_prevReadyList c = Some ReadyOther \<or> llist_Empty (co_lists c ReadyOther))
                 \<and> \<not> llist_Empty (co_lists c ReadyPipe) then ReadyPipe else ReadyOther) in
     check (\<not> llist_Empty (co_lists c k))
     (bnd (list_Front k) (\<lambda>tid. bnd (on_list k llist_Pop) (\<lambda>_.
      commit (\<lambda>c. c\<lparr>co_prevReadyList := Some k\<rparr>) (commit (count_down TST_READY)
      (with_thread tid (\<lambda>th. bnd (fetch_line (th_pc th) (Some tid)) (\<lambda>(result, next, cid).
       if result = FAILED then ret FAILED
       else commit (modify_thread tid (\<lambda>th. th\<lparr>th_cid := the cid\<rparr>))
         (if result \<noteq> SUCCESS
          then commit (set_thread_next tid (the next)) (commit (set_thread_state tid TST_WAITING) (ret SUCCESS))
          else or_return (QueueActiveThreads \<lparr>tq_head = tid, tq_tail = tid\<rparr>) FAILED (ret SUCCESS))))))))))"

section \<open>The first family\<close>

definition InitialRegisters :: "RegType \<Rightarrow> u8" where
  "InitialRegisters t = 31"

definition AllocateInitialFamily :: "u64 \<Rightarrow> bool \<Rightarrow> u32 \<Rightarrow> u64 \<Rightarrow> unit core_op" where
  "AllocateInitialFamily pc legacy placeSize startIndex =
     bnd (on_ft (\<lambda>e. AllocateFamily (en_phase e) (en_cycle e) CONTEXT_NORMAL)) (\<lambda>r. case r of
       None \<Rightarrow> raise_error SimulationException
     | Some fid \<Rightarrow> bnd (InitializeFamily fid) (\<lambda>_.
        set_core (modify_family fid (\<lambda>fm. fm\<lparr>fm_numCores := 1, fm_placeSize := placeSize, fm_nThreads := 1,
           fm_physBlockSize := 1, fm_legacy := legacy, fm_pc := pc, fm_start := startIndex,
           fm_regs := (\<lambda>t. (fm_regs fm t)\<lparr>fri_count := \<lparr>rn_globals = 0, rn_shareds = 0, rn_locals = InitialRegisters t\<rparr>\<rparr>),
           fm_dependencies := (fm_dependencies fm)\<lparr>fd_prevSynchronized := True, fd_detached := True, fd_syncSent := True\<rparr>\<rparr>))
        (set_core (set_family_state fid FST_ACTIVE)
        (bnd (AllocateRegisters fid CONTEXT_NORMAL) (\<lambda>ok.
         if \<not> ok then raise_error SimulationException
         else bnd (on_tt (\<lambda>e t. unit_result (ReserveThread (en_phase e) (en_cycle e) t))) (\<lambda>_.
           bnd (buffer_push co_alloc (\<lambda>b c. c\<lparr>co_alloc := b\<rparr>) fid) (\<lambda>_. ret ())))))))"

section \<open>Bundles\<close>

text \<open>\<open>read\<close> is \<open>DCache::Read\<close>: the result and the bytes that it copies; \<open>lineSize\<close> is the size of the
  lines of the data cache.\<close>

definition OnDCachelineLoaded :: "u64 \<Rightarrow> u8 list \<Rightarrow> bool core_op" where
  "OnDCachelineLoaded lineSize data = get_core (\<lambda>c. check (\<not> buffer_Empty (co_bundle c)) (get_env (\<lambda>e.
     if en_phase e \<noteq> PHASE_COMMIT then ret True
     else bnd (liftr (buffer_Front (co_bundle c))) (\<lambda>info. defined (lineSize \<noteq> 0)
       (let offset = bi_addr info mod lineSize; n = length (co_bundleData c) in
        check (offset + of_nat n < lineSize)
        (commit (\<lambda>c. c\<lparr>co_bundleData := take n (drop (unat offset) data), co_bundleState := BUNDLE_LINE_LOADED\<rparr>)
          (ret True)))))))"

definition bundle_initial :: "u64 \<Rightarrow> (u64 \<Rightarrow> u64 \<Rightarrow> (Result \<times> u8 list) core_op) \<Rightarrow> BundleInfo \<Rightarrow> Result core_op" where
  "bundle_initial lineSize read info = get_core (\<lambda>c. defined (lineSize \<noteq> 0)
     (if lineSize < bi_addr info mod lineSize + of_nat (length (co_bundleData c)) then raise_error InvalidArgumentException
      else bnd (read (bi_addr info) 24) (\<lambda>(result, bytes).
        if result = FAILED then ret FAILED
        else commit (if result = SUCCESS then (\<lambda>c. c\<lparr>co_bundleData := bytes, co_bundleState := BUNDLE_LINE_LOADED\<rparr>)
                     else (\<lambda>c. c\<lparr>co_bundleState := BUNDLE_LOADING_LINE\<rparr>)) (ret SUCCESS))))"

definition bundle_word :: "Core \<Rightarrow> nat \<Rightarrow> u64" where
  "bundle_word c i = UnserializeRegister MTALPHA RT_INTEGER (take 8 (drop (8 * i) (co_bundleData c)))"

definition bundle_send :: "BundleInfo \<Rightarrow> Result core_op" where
  "bundle_send info = get_core (\<lambda>c. bnd (liftr (UnpackPlace (co_bits c) (bundle_word c 0))) (\<lambda>place.
     if pl_size place = 0 then raise_error SimulationException
     else or_return (SendMessage (RMSG_ALLOCATE \<lparr>al_place = place, al_completion_pid = co_pid c,
         al_completion_reg = bi_completion_reg info, al_type = ALLOCATE_SINGLE, al_suspend = True, al_exclusive = True,
         al_bundle = True, al_pc = bundle_word c 1, al_parameter = bi_parameter info, al_index = bundle_word c 2\<rparr>)) FAILED
       (commit (\<lambda>c. c\<lparr>co_bundleState := BUNDLE_INITIAL\<rparr>)
       (bnd (buffer_pop co_bundle (\<lambda>b c. c\<lparr>co_bundle := b\<rparr>)) (\<lambda>_. ret SUCCESS)))))"

definition DoBundle :: "u64 \<Rightarrow> (u64 \<Rightarrow> u64 \<Rightarrow> (Result \<times> u8 list) core_op) \<Rightarrow> Result core_op" where
  "DoBundle lineSize read = get_core (\<lambda>c. check (\<not> buffer_Empty (co_bundle c))
     (bnd (liftr (buffer_Front (co_bundle c))) (\<lambda>info. case co_bundleState c of
        BUNDLE_INITIAL \<Rightarrow> bundle_initial lineSize read info
      | BUNDLE_LOADING_LINE \<Rightarrow> ret FAILED
      | BUNDLE_LINE_LOADED \<Rightarrow> bundle_send info)))"

end
