(* ===== verification/Core_Network.thy ===== *)
theory Core_Network
  imports Allocator_Create
begin

text \<open>
  The network between cores (arch/drisc/Network.cpp, arch/drisc/Network.p.h): what a core does with a
  message from the delegation network, from the link of the core before it or with an allocation response
  from the core after it, and the transfer of messages between the registers of the cores of a grid.
\<close>

section \<open>Families\<close>

definition net_ReadRegister :: "nat \<Rightarrow> RemoteRegType \<Rightarrow> RegAddr \<Rightarrow> RegValue option core_op" where
  "net_ReadRegister fid kind raddr = bnd (GetRemoteRegisterAddress fid kind raddr) (\<lambda>addr. check (addr \<noteq> INVALID_REG)
     (or_return asyncR_Read None
      (bnd (read_register addr) (\<lambda>value.
        ret (Some (if rv_state value \<noteq> RST_FULL then value\<lparr>rv_state := RST_FULL, rv_value := 0\<rparr> else value))))))"

definition net_WriteRegister :: "nat \<Rightarrow> RemoteRegType \<Rightarrow> RegAddr \<Rightarrow> RegValue \<Rightarrow> bool core_op" where
  "net_WriteRegister fid kind raddr value = bnd (GetRemoteRegisterAddress fid kind raddr) (\<lambda>addr.
     if addr \<noteq> INVALID_REG
     then or_return (asyncW_Write addr) False (or_return (write_register addr value False) False (ret True))
     else ret True)"

definition OnSync :: "nat \<Rightarrow> u32 \<Rightarrow> u32 \<Rightarrow> bool core_op" where
  "OnSync fid completion_pid completion_reg = with_family fid (\<lambda>fm.
     if fm_link fm \<noteq> INVALID_LFID
     then or_return (SendLink (LMSG_SYNC (fm_link fm) completion_pid completion_reg)) False (ret True)
     else if \<not> fm_sync_done fm
     then commit (modify_family fid (\<lambda>fm. fm\<lparr>fm_sync_pid := completion_pid, fm_sync_reg := completion_reg,
            fm_dependencies := (fm_dependencies fm)\<lparr>fd_syncSent := False\<rparr>\<rparr>)) (ret True)
     else commit (modify_deps fid (\<lambda>d. d\<lparr>fd_syncSent := False\<rparr>))
       (or_return (SendSync \<lparr>sy_fid = fid, sy_pid = completion_pid, sy_reg = completion_reg, sy_broken = fm_broken fm\<rparr>)
          False (ret True)))"

definition OnDetach :: "nat \<Rightarrow> bool core_op" where
  "OnDetach fid = or_return (DecreaseFamilyDependency fid FAMDEP_DETACHED) False
     (with_family fid (\<lambda>fm.
        if fm_link fm \<noteq> INVALID_LFID then or_return (SendLink (LMSG_DETACH (fm_link fm))) False (ret True)
        else ret True))"

definition OnBreak :: "nat \<Rightarrow> bool core_op" where
  "OnBreak fid = with_family fid (\<lambda>fm.
     or_return (if \<not> fd_allocationDone (fm_dependencies fm) then DecreaseFamilyDependency fid FAMDEP_ALLOCATION_DONE
                else ret True) False (with_family fid (\<lambda>fm.
      or_return (if fm_link fm \<noteq> INVALID_LFID then SendLink (LMSG_BREAK (fm_link fm)) else ret True) False
       (commit (modify_family fid (\<lambda>fm. fm\<lparr>fm_broken := True\<rparr>)) (ret True)))))"

text \<open>\<open>start\<close>, \<open>limit\<close> and \<open>step\<close> are signed, and the limit is stored with the number of threads.\<close>

definition set_family_property :: "FamilyProperty \<Rightarrow> u64 \<Rightarrow> Family \<Rightarrow> Family" where
  "set_family_property p v fm = (case p of
       FAMPROP_START \<Rightarrow> fm\<lparr>fm_start := v\<rparr>
     | FAMPROP_LIMIT \<Rightarrow> fm\<lparr>fm_nThreads := v\<rparr>
     | FAMPROP_STEP \<Rightarrow> fm\<lparr>fm_step := v\<rparr>
     | FAMPROP_BLOCK \<Rightarrow> fm\<lparr>fm_physBlockSize := ucast v\<rparr>)"

section \<open>Synchronizations\<close>

definition DoSyncs :: "Result core_op" where
  "DoSyncs = get_core (\<lambda>c. check (\<not> buffer_Empty (co_syncs c))
     (bnd (liftr (buffer_Front (co_syncs c))) (\<lambda>info.
      check (sy_fid info \<noteq> INVALID_LFID) (check (sy_pid info \<noteq> INVALID_PID) (check (sy_reg info \<noteq> INVALID_REG_INDEX)
      (or_return (SendMessage (RMSG_RAW_REGISTER (sy_pid info) (MAKE_REGADDR RT_INTEGER (sy_reg info))
          (full_value (of_bool (sy_broken info)) c))) FAILED
      (bnd (DecreaseFamilyDependency (sy_fid info) FAMDEP_SYNC_SENT) (\<lambda>ok.
        if \<not> ok then raise_error AssertionFailure
        else bnd (buffer_pop co_syncs (\<lambda>b c. c\<lparr>co_syncs := b\<rparr>)) (\<lambda>_. ret SUCCESS)))))))))"

section \<open>Allocation responses\<close>

definition net_clear :: "(Core \<Rightarrow> 'b net_register) \<Rightarrow> ('b net_register \<Rightarrow> Core \<Rightarrow> Core) \<Rightarrow> unit core_op" where
  "net_clear get put = on_part get put (\<lambda>e r. res_bind (register_Clear (en_phase e) (en_clk e) (nr_register r)) (\<lambda>g.
     Inr ((), r\<lparr>nr_register := g\<rparr>)))"

definition net_read :: "(Core \<Rightarrow> 'b net_register) \<Rightarrow> 'b core_op" where
  "net_read get = get_core (\<lambda>c. liftr (register_Read (nr_register (get c))))"

text \<open>The number of cores after a failure has been unwound to this core: a power of two is committed.\<close>

definition unwound_cores :: "u32 \<Rightarrow> u32 \<Rightarrow> AllocResponse \<Rightarrow> u32" where
  "unwound_cores pid placeSize msg =
     (let n = pid mod placeSize + 1
      in if ar_numCores msg = 0 \<and> \<not> ar_exact msg \<and> IsPowerOfTwo n then n else ar_numCores msg)"

definition DoAllocResponse :: "Result core_op" where
  "DoAllocResponse = bnd (net_read co_allocResponse_in) (\<lambda>m. let lfid = ar_prev_fid m in with_family lfid (\<lambda>fm.
     get_core (\<lambda>c. defined (fm_placeSize fm \<noteq> 0)
     (let n = unwound_cores (co_pid c) (fm_placeSize fm) m;
          prev = fm_link fm;
          msg = m\<lparr>ar_prev_fid := prev, ar_numCores := n, ar_next_fid := (if n = 0 then ar_next_fid m else lfid)\<rparr> in
      commit (modify_family lfid (\<lambda>fm. fm\<lparr>fm_link := ar_next_fid m\<rparr>))
      (bnd (if n = 0 then ReleaseContext lfid
            else commit (modify_family lfid (\<lambda>fm. fm\<lparr>fm_numCores := n\<rparr>)) (ret ())) (\<lambda>_.
       or_return
        (if prev = INVALID_LFID
         then check (n = 0 \<longrightarrow> ar_exact m)
           (send_fid (ar_completion_pid m) (ar_completion_reg m)
             (if n = 0 then \<lparr>f_capability = 0, f_pid = 0, f_lfid = 0\<rparr>
              else \<lparr>f_capability = fm_capability fm, f_pid = co_pid c, f_lfid = of_nat lfid\<rparr>))
         else SendAllocResponse msg) FAILED
        (bnd (net_clear co_allocResponse_in (\<lambda>r c. c\<lparr>co_allocResponse_in := r\<rparr>)) (\<lambda>_. ret SUCCESS))))))))"

section \<open>Messages from the delegation network\<close>

definition used_contexts :: "u32 core_op" where
  "used_contexts = get_core (\<lambda>c. liftr (GetNumUsedFamilies CONTEXT_NORMAL (co_ft c)))"

text \<open>An allocation that is to be balanced starts a search over the link when this core is busy.\<close>

definition on_allocate :: "allocate_message \<Rightarrow> bool core_op" where
  "on_allocate m =
     (let queue = (\<lambda>m. or_return (QueueFamilyAllocation m) False
                     (commit (\<lambda>c. c\<lparr>co_numAllocates := co_numAllocates c + 1\<rparr>) (ret True))) in
      if \<not> al_bundle m \<and> al_type m = ALLOCATE_BALANCED \<and> 1 < pl_size (al_place m)
      then bnd used_contexts (\<lambda>used. get_core (\<lambda>c.
        if co_loadBalanceThreshold c \<le> used
        then SendLink (LMSG_BALLOCATE \<lparr>lb_min_contexts = used, lb_min_pid = co_pid c, lb_size = pl_size (al_place m),
               lb_completion_pid = al_completion_pid m, lb_completion_reg = al_completion_reg m,
               lb_suspend = al_suspend m\<rparr>)
        else queue (m\<lparr>al_type := ALLOCATE_SINGLE\<rparr>)))
      else queue m)"

definition on_property :: "FID \<Rightarrow> FamilyProperty \<Rightarrow> u64 \<Rightarrow> bool core_op" where
  "on_property fid p v = (let lfid = unat (f_lfid fid) in bnd (GetFamilyChecked lfid (f_capability fid)) (\<lambda>fm.
     commit (modify_family lfid (set_family_property p v))
     (if fm_link fm \<noteq> INVALID_LFID then or_return (SendLink (LMSG_SET_PROPERTY (fm_link fm) p v)) False (ret True)
      else ret True)))"

definition on_fam_write :: "FID \<Rightarrow> RemoteRegType \<Rightarrow> RegAddr \<Rightarrow> RegValue \<Rightarrow> bool core_op" where
  "on_fam_write fid kind addr value = (let lfid = unat (f_lfid fid) in bnd (GetFamilyChecked lfid (f_capability fid)) (\<lambda>fm.
     or_return (net_WriteRegister lfid kind addr value) False
     (if kind = RRT_GLOBAL \<and> fm_link fm \<noteq> INVALID_LFID
      then or_return (SendLink (LMSG_GLOBAL (fm_link fm) addr value)) False (ret True) else ret True)))"

definition on_fam_read :: "u32 \<Rightarrow> FID \<Rightarrow> RemoteRegType \<Rightarrow> RegAddr \<Rightarrow> u32 \<Rightarrow> bool core_op" where
  "on_fam_read src fid kind addr reg = (let lfid = unat (f_lfid fid) in bnd (GetFamilyChecked lfid (f_capability fid)) (\<lambda>fm.
     bnd (net_ReadRegister lfid kind addr) (\<lambda>v. case v of
         None \<Rightarrow> ret False
       | Some value \<Rightarrow> or_return (SendMessage (RMSG_RAW_REGISTER src (MAKE_REGADDR (ra_type addr) reg) value)) False
                         (ret True))))"

definition on_remote_message :: "u32 \<Rightarrow> RemoteMessage \<Rightarrow> bool core_op" where
  "on_remote_message src msg = (case msg of
       RMSG_ALLOCATE m \<Rightarrow> on_allocate m
     | RMSG_SET_PROPERTY fid p v \<Rightarrow> on_property fid p v
     | RMSG_CREATE m \<Rightarrow> or_return (QueueCreate m) False
         (commit (\<lambda>c. c\<lparr>co_numCreates := co_numCreates c + 1\<rparr>) (ret True))
     | RMSG_SYNC fid reg \<Rightarrow> bnd (GetFamilyChecked (unat (f_lfid fid)) (f_capability fid)) (\<lambda>_.
         OnSync (unat (f_lfid fid)) src reg)
     | RMSG_DETACH fid \<Rightarrow> bnd (GetFamilyChecked (unat (f_lfid fid)) (f_capability fid)) (\<lambda>_.
         OnDetach (unat (f_lfid fid)))
     | RMSG_BREAK pid fid \<Rightarrow> OnBreak fid
     | RMSG_RAW_REGISTER pid addr value \<Rightarrow> check (rv_state value = RST_FULL)
         (or_return (asyncW_Write addr) False (or_return (write_register addr value False) False (ret True)))
     | RMSG_FAM_WRITE fid kind addr value \<Rightarrow> on_fam_write fid kind addr value
     | RMSG_FAM_READ fid kind addr reg \<Rightarrow> on_fam_read src fid kind addr reg
     | RMSG_NONE \<Rightarrow> raise_error AssertionFailure)"

definition DoDelegationIn :: "Result core_op" where
  "DoDelegationIn = bnd (net_read co_delegateIn) (\<lambda>dmsg.
     bnd (net_clear co_delegateIn (\<lambda>r c. c\<lparr>co_delegateIn := r\<rparr>)) (\<lambda>_. get_core (\<lambda>c.
     check (dm_dest dmsg = co_pid c)
     (or_return (on_remote_message (dm_src dmsg) (dm_payload dmsg)) FAILED (ret SUCCESS)))))"

section \<open>Messages from the link\<close>

text \<open>The search for the least busy core. The members of the allocation that the source does not assign are
  those of \<open>junk\<close>.\<close>

definition on_ballocate :: "allocate_message \<Rightarrow> link_ballocate \<Rightarrow> bool core_op" where
  "on_ballocate junk m = bnd used_contexts (\<lambda>used. get_core (\<lambda>c.
     let busy = (co_loadBalanceThreshold c \<le> used) in
     defined (busy \<longrightarrow> lb_size m \<noteq> 0)
     (if busy \<and> (co_pid c + 1) mod lb_size m \<noteq> 0
      then SendLink (LMSG_BALLOCATE (if used \<le> lb_min_contexts m
             then m\<lparr>lb_min_contexts := used, lb_min_pid := co_pid c\<rparr> else m))
      else let pid = (if busy \<and> lb_min_contexts m < used then lb_min_pid m else co_pid c) in
        SendMessage (RMSG_ALLOCATE (junk\<lparr>
          al_place := (al_place junk)\<lparr>pl_pid := pid, pl_size := lb_size m\<rparr>, al_suspend := lb_suspend m,
          al_exclusive := False, al_type := ALLOCATE_SINGLE, al_completion_pid := lb_completion_pid m,
          al_completion_reg := lb_completion_reg m\<rparr>)))))"

definition on_link_property :: "nat \<Rightarrow> FamilyProperty \<Rightarrow> u64 \<Rightarrow> bool core_op" where
  "on_link_property fid p v = with_family fid (\<lambda>fm. commit (modify_family fid (set_family_property p v))
     (if fm_link fm \<noteq> INVALID_LFID then or_return (SendLink (LMSG_SET_PROPERTY (fm_link fm) p v)) False (ret True)
      else ret True))"

definition on_link_create :: "nat \<Rightarrow> u32 \<Rightarrow> u64 \<Rightarrow> (RegType \<Rightarrow> RegsNo) \<Rightarrow> bool core_op" where
  "on_link_create fid numCores address regs = with_family fid (\<lambda>fm.
     if numCores = 0
     then or_return (if fm_link fm \<noteq> INVALID_LFID then SendLink (LMSG_CREATE (fm_link fm) 0 address regs) else ret True) False
       (bnd (ReleaseContext fid) (\<lambda>_. ret True))
     else QueueLinkCreate fid numCores address regs)"

definition on_link_done :: "nat \<Rightarrow> bool \<Rightarrow> bool core_op" where
  "on_link_done fid broken = with_family fid (\<lambda>fm.
     commit (modify_family fid (\<lambda>fm. fm\<lparr>fm_broken := fm_broken fm \<or> broken\<rparr>))
     (or_return (DecreaseFamilyDependency fid FAMDEP_PREV_SYNCHRONIZED) False (ret True)))"

definition on_link_global :: "nat \<Rightarrow> RegAddr \<Rightarrow> RegValue \<Rightarrow> bool core_op" where
  "on_link_global fid addr value = with_family fid (\<lambda>fm.
     or_return (net_WriteRegister fid RRT_GLOBAL addr value) False
     (if fm_link fm \<noteq> INVALID_LFID then or_return (SendLink (LMSG_GLOBAL (fm_link fm) addr value)) False (ret True)
      else ret True))"

definition on_link_message :: "allocate_message \<Rightarrow> LinkMessage \<Rightarrow> bool core_op" where
  "on_link_message junk msg = (case msg of
       LMSG_ALLOCATE m \<Rightarrow> QueueLinkAllocation m
     | LMSG_BALLOCATE m \<Rightarrow> on_ballocate junk m
     | LMSG_SET_PROPERTY fid p v \<Rightarrow> on_link_property fid p v
     | LMSG_CREATE fid n address regs \<Rightarrow> on_link_create fid n address regs
     | LMSG_DONE fid broken \<Rightarrow> on_link_done fid broken
     | LMSG_SYNC fid pid reg \<Rightarrow> OnSync fid pid reg
     | LMSG_DETACH fid \<Rightarrow> OnDetach fid
     | LMSG_GLOBAL fid addr value \<Rightarrow> on_link_global fid addr value
     | LMSG_BREAK fid \<Rightarrow> OnBreak fid)"

definition DoLink :: "allocate_message \<Rightarrow> Result core_op" where
  "DoLink junk = bnd (net_read co_link_in) (\<lambda>msg. or_return (on_link_message junk msg) FAILED
     (bnd (net_clear co_link_in (\<lambda>r c. c\<lparr>co_link_in := r\<rparr>)) (\<lambda>_. ret SUCCESS)))"

section \<open>Transfers between cores\<close>

text \<open>The cores of the grid, by their number. A transfer moves a message from a register of the
  core \<open>i\<close> to one of the core \<open>j\<close>; \<open>get\<close> and \<open>put\<close> name the registers.\<close>

definition transfer :: "env \<Rightarrow> (Core \<Rightarrow> 'b net_register) \<Rightarrow> ('b net_register \<Rightarrow> Core \<Rightarrow> Core) \<Rightarrow> nat
    \<Rightarrow> (Core \<Rightarrow> 'b net_register) \<Rightarrow> ('b net_register \<Rightarrow> Core \<Rightarrow> Core) \<Rightarrow> nat \<Rightarrow> Core list \<Rightarrow> (Result \<times> Core list) res" where
  "transfer e getf putf i gett putt j g =
     (if \<not> (i < length g \<and> j < length g) then Inl UndefinedBehaviour
      else res_bind (register_Read (nr_register (getf (g ! i)))) (\<lambda>msg.
     res_bind (net_Write e msg (gett (g ! j))) (\<lambda>(ok, t).
       let g = g[j := putt t (g ! j)] in
       if \<not> ok then Inr (FAILED, g)
       else res_bind (register_Clear (en_phase e) (en_clk e) (nr_register (getf (g ! i)))) (\<lambda>r.
         Inr (SUCCESS, g[i := putf ((getf (g ! i))\<lparr>nr_register := r\<rparr>) (g ! i)])))))"

text \<open>The link goes from a core to the next one, allocation responses to the one before; there is
  such a process only when that core exists.\<close>

definition DoTransferLink :: "env \<Rightarrow> nat \<Rightarrow> Core list \<Rightarrow> (Result \<times> Core list) res" where
  "DoTransferLink e i g = assert_that (i + 1 < length g)
     (transfer e co_link_out (\<lambda>r c. c\<lparr>co_link_out := r\<rparr>) i co_link_in (\<lambda>r c. c\<lparr>co_link_in := r\<rparr>) (i + 1) g)"

definition DoTransferResponse :: "env \<Rightarrow> nat \<Rightarrow> Core list \<Rightarrow> (Result \<times> Core list) res" where
  "DoTransferResponse e i g = assert_that (0 < i \<and> i < length g)
     (transfer e co_allocResponse_out (\<lambda>r c. c\<lparr>co_allocResponse_out := r\<rparr>) i
        co_allocResponse_in (\<lambda>r c. c\<lparr>co_allocResponse_in := r\<rparr>) (i - 1) g)"

definition DoDelegationOut :: "env \<Rightarrow> nat \<Rightarrow> Core list \<Rightarrow> (Result \<times> Core list) res" where
  "DoDelegationOut e i g =
     (if \<not> i < length g then Inl UndefinedBehaviour
      else res_bind (register_Read (nr_register (co_delegateOut (g ! i)))) (\<lambda>msg.
        assert_that (dm_src msg = co_pid (g ! i)) (assert_that (dm_dest msg \<noteq> co_pid (g ! i))
         (transfer e co_delegateOut (\<lambda>r c. c\<lparr>co_delegateOut := r\<rparr>) i
                 co_delegateIn (\<lambda>r c. c\<lparr>co_delegateIn := r\<rparr>) (unat (dm_dest msg)) g))))"

end
