(* ===== verification/Core_Initialization.thy ===== *)
theory Core_Initialization
  imports Core_Network
begin

text \<open>
  The start of a core (arch/drisc/DRISC.cpp, and the constructors of arch/drisc/Allocator.cpp and
  arch/drisc/Network.cpp): the values its components start with, and the processes that may use its
  ports and services, in the order of their priority.
\<close>

section \<open>Construction\<close>

text \<open>The configuration: sizes of tables, files, blocks and queues, and the load from which
  allocations are balanced. The members that the source does not initialise are those of the \<open>cfg_junk\<close>
  values.\<close>

record core_config =
  cfg_bits :: BitCounts
  cfg_families :: nat
  cfg_threads :: nat
  cfg_registers :: "RegType \<Rightarrow> nat"
  cfg_blocks :: "RegType \<Rightarrow> nat"
  cfg_icache :: ICache
  cfg_memory :: "virtual_memory option"
  cfg_bundles :: nat
  cfg_requests :: "request_queue \<Rightarrow> nat"
  cfg_loadBalance :: u32
  cfg_rand :: "nat \<Rightarrow> u64"
  cfg_junk_value :: RegValue
  cfg_junk_family :: Family
  cfg_junk_thread :: Thread
  cfg_junk_delegate :: DelegateMessage
  cfg_junk_link :: LinkMessage
  cfg_junk_response :: AllocResponse

definition net_register_init :: "'a \<Rightarrow> 'a net_register" where
  "net_register_init junk = \<lparr>nr_register = register_init junk, nr_service = simple_port_init\<rparr>"

definition write_port_init :: "(core_process, RegAddr) write_port" where
  "write_port_init = \<lparr>w_index = INVALID_REG, w_valid = False, w_chosen = False, w_process = None,
     w_port = simple_port_init, w_indices = Map.empty\<rparr>"

definition Core_new :: "core_config \<Rightarrow> u32 \<Rightarrow> Core res" where
  "Core_new cfg pid =
     res_bind (RAUnit_init (map (\<lambda>t. (cfg_blocks cfg t, cfg_registers cfg t)) REG_TYPES)) (\<lambda>ra.
     res_bind (buffer_init (cfg_bundles cfg) 1) (\<lambda>bundle.
     res_bind (buffer_init (cfg_families cfg) 1) (\<lambda>alloc.
     res_bind (buffer_init (cfg_families cfg) 3) (\<lambda>creates.
     res_bind (buffer_init (cfg_threads cfg) 4) (\<lambda>cleanup.
     res_bind (buffer_init (cfg_requests cfg RequestsSuspend) 1) (\<lambda>suspend.
     res_bind (buffer_init (cfg_requests cfg RequestsNoSuspend) 1) (\<lambda>nosuspend.
     res_bind (buffer_init (cfg_requests cfg RequestsExclusive) 1) (\<lambda>exclusive.
     res_bind (buffer_init (cfg_families cfg) 3) (\<lambda>syncs.
     Inr \<lparr>co_pid = pid, co_bits = cfg_bits cfg,
       co_ft = family_table_init (cfg_families cfg),
       co_families = replicate (cfg_families cfg) (cfg_junk_family cfg),
       co_tt = thread_table_init (cfg_threads cfg),
       co_threads = replicate (cfg_threads cfg) (cfg_junk_thread cfg),
       co_rf = RegisterFile_init (cfg_junk_value cfg) (cfg_registers cfg),
       co_asyncR = simple_port_init, co_asyncW = write_port_init, co_ra = ra,
       co_icache = cfg_icache cfg, co_memadmin = cfg_memory cfg, co_pipeline_running = False,
       co_junk = cfg_junk_value cfg, co_rand = cfg_rand cfg, co_rand_pos = 0,
       co_bundleData = replicate 24 0, co_bundle = bundle, co_alloc = alloc, co_creates = creates,
       co_cleanup = cleanup, co_createState = CREATE_INITIAL, co_createLine = 0,
       co_lists = (\<lambda>_. llist_init (tt_next (thread_table_init (cfg_threads cfg)))), co_prevReadyList = None,
       co_allocRequests = (\<lambda>q. case q of RequestsSuspend \<Rightarrow> suspend | RequestsNoSuspend \<Rightarrow> nosuspend
                                      | RequestsExclusive \<Rightarrow> exclusive),
       co_bundleState = BUNDLE_INITIAL, co_lastcycle = 0, co_maxallocex = 0, co_totalallocex = 0,
       co_curallocex = 0, co_numCreatedFamilies = 0, co_numCreatedThreads = 0, co_numThreadsPerState = (\<lambda>_. 0),
       co_p_allocation = simple_port_init, co_p_alloc = simple_port_init,
       co_p_readyThreads = simple_port_init, co_p_activeThreads = simple_port_init,
       co_loadBalanceThreshold = cfg_loadBalance cfg, co_numAllocates = 0, co_numCreates = 0, co_has_next = False,
       co_delegateOut = net_register_init (cfg_junk_delegate cfg),
       co_delegateIn = net_register_init (cfg_junk_delegate cfg),
       co_link_out = net_register_init (cfg_junk_link cfg), co_link_in = net_register_init (cfg_junk_link cfg),
       co_allocResponse_out = net_register_init (cfg_junk_response cfg),
       co_allocResponse_in = net_register_init (cfg_junk_response cfg),
       co_syncs = syncs\<rparr>)))))))))"

section \<open>Ports and their processes\<close>

fun AddProcesses :: "core_process list \<Rightarrow> service \<Rightarrow> service res" where
  "AddProcesses [] s = Inr s"
| "AddProcesses (p # ps) s = res_bind (AddProcess p s) (AddProcesses ps)"

definition net_add :: "core_process list \<Rightarrow> 'a net_register \<Rightarrow> 'a net_register res" where
  "net_add ps r = res_bind (AddProcesses ps (nr_service r)) (\<lambda>s. Inr (r\<lparr>nr_service := s\<rparr>))"

text \<open>What is connected to the core: a floating-point unit, input and output, a previous and a next
  core, and the number of cores of the grid.\<close>

record connections =
  cn_fpu :: bool
  cn_io :: bool
  cn_prev :: bool
  cn_next :: bool
  cn_grid :: nat

definition only_if :: "bool \<Rightarrow> 'a list \<Rightarrow> 'a list" where
  "only_if b xs = (if b then xs else [])"

definition ready_processes :: "connections \<Rightarrow> core_process list" where
  "ready_processes cn = only_if (cn_io cn) [p_IncomingNotifications, p_IncomingReadResponses]
     @ [p_Link, p_DelegationIn, p_ReadWritebacks, p_WriteResponses] @ only_if (cn_fpu cn) [p_FPU]
     @ [p_ThreadAllocate, p_FamilyAllocate, p_FamilyCreate]"

definition asyncW_processes :: "connections \<Rightarrow> core_process list" where
  "asyncW_processes cn = only_if (cn_io cn) [p_IncomingNotifications, p_IncomingReadResponses]
     @ [p_Link, p_DelegationIn, p_ReadWritebacks] @ only_if (cn_fpu cn) [p_FPU] @ [p_FamilyCreate, p_ThreadAllocate]"

definition delegateIn_processes :: "connections \<Rightarrow> core_process list" where
  "delegateIn_processes cn = [p_Link, p_ReadWritebacks, p_ThreadAllocate, p_FamilyAllocate, p_BundleCreate,
       p_FamilyCreate, p_AllocResponse, p_Pipeline] @ map p_DelegationOut [0..<cn_grid cn] @ [p_Syncs]"

text \<open>\<open>DRISC::Initialize\<close>; the transfers from the neighbours are connected by the neighbours. The service
  of the data cache is not part of this state.\<close>

definition Core_Initialize :: "connections \<Rightarrow> Core \<Rightarrow> Core res" where
  "Core_Initialize cn c =
     res_bind (net_add (only_if (cn_prev cn) [p_LinkTransfer]) (co_link_in c)) (\<lambda>link_in.
     res_bind (net_add (only_if (cn_next cn) [p_ResponseTransfer]) (co_allocResponse_in c)) (\<lambda>response_in.
     res_bind (AddProcesses [p_ICacheIncoming, p_ThreadActivation, p_FamilyCreate] (ic_service (co_icache c))) (\<lambda>icache.
     res_bind (AddProcesses [p_Pipeline, p_DelegationIn, p_FamilyAllocate] (co_p_allocation c)) (\<lambda>allocation.
     res_bind (AddProcesses [p_Link, p_FamilyCreate] (co_p_alloc c)) (\<lambda>alloc.
     res_bind (AddProcesses (ready_processes cn) (co_p_readyThreads c)) (\<lambda>ready.
     res_bind (AddProcesses [p_ICacheIncoming, p_ThreadActivation] (co_p_activeThreads c)) (\<lambda>active.
     res_bind (AddProcesses (asyncW_processes cn) (w_port (co_asyncW c))) (\<lambda>asyncW.
     res_bind (AddProcesses [p_DelegationIn] (co_asyncR c)) (\<lambda>asyncR.
     res_bind (net_add [p_AllocResponse, p_FamilyAllocate] (co_allocResponse_out c)) (\<lambda>response_out.
     res_bind (net_add [p_Link, p_DelegationIn, p_ReadWritebacks, p_FamilyAllocate, p_FamilyCreate, p_ThreadAllocate]
        (co_link_out c)) (\<lambda>link_out.
     res_bind (net_add (delegateIn_processes cn) (co_delegateIn c)) (\<lambda>delegateIn.
     res_bind (net_add [p_Pipeline, p_DelegationIn, p_Link, p_ReadWritebacks, p_AllocResponse, p_FamilyAllocate,
        p_BundleCreate, p_FamilyCreate, p_ThreadAllocate, p_Syncs] (co_delegateOut c)) (\<lambda>delegateOut.
     Inr (c\<lparr>co_has_next := cn_next cn, co_link_in := link_in, co_allocResponse_in := response_in,
       co_icache := (co_icache c)\<lparr>ic_service := icache\<rparr>, co_p_allocation := allocation, co_p_alloc := alloc,
       co_p_readyThreads := ready, co_p_activeThreads := active, co_asyncW := (co_asyncW c)\<lparr>w_port := asyncW\<rparr>,
       co_asyncR := asyncR, co_allocResponse_out := response_out, co_link_out := link_out,
       co_delegateIn := delegateIn, co_delegateOut := delegateOut\<rparr>))))))))))))))"

end
