(* ===== verification/ICache_Holds.thy ===== *)
theory ICache_Holds
  imports ICache "HOL-Library.Code_Target_Nat"
begin

text \<open>
  The lines of an instruction cache that are in use. A fetch that does not fail leaves a reference to
  a line with the caller, until the caller releases it. The runs below are sequences of the
  operations of the cache, in any phases, with the updates of its storages; beside the cache they keep
  the references that are out: which line, and for which line of the memory.
\<close>

datatype ic_op =
    OpFetch env u64 u64 "nat option"
  | OpRelease CyclePhase "nat \<times> u64"
  | OpReadCompleted env u64 "u8 list"
  | OpSnooped CyclePhase u64 "u8 list" "bool list"
  | OpInvalidated CyclePhase u64
  | OpOutgoing env bool
  | OpIncoming env bool bool
  | OpUpdate u64
  | OpArbitrate
  | OpAddProcess core_process

type_synonym holds = "(nat \<times> u64) list"

text \<open>The memory and the allocator answer as the operation says.\<close>

fun ic_step :: "ic_op \<Rightarrow> holds \<times> ICache \<Rightarrow> (holds \<times> ICache) res" where
  "ic_step (OpFetch e address sz tid) (h, c) = res_bind (ic_Fetch e address sz tid c) (\<lambda>(r, _, cid, c').
     Inr (case cid of Some i \<Rightarrow> if r \<noteq> FAILED \<and> en_phase e = PHASE_COMMIT then (i, address div ic_lineSize c) # h else h
                    | None \<Rightarrow> h, c'))"
| "ic_step (OpRelease ph x) (h, c) =
     (if x \<in> set h then res_bind (ReleaseCacheLine ph (fst x) c) (\<lambda>(_, c').
        Inr (if ph = PHASE_COMMIT then remove1 x h else h, c')) else Inr (h, c))"
| "ic_step (OpReadCompleted e address data) (h, c) =
     res_bind (ic_OnMemoryReadCompleted e address data c) (\<lambda>(_, c'). Inr (h, c'))"
| "ic_step (OpSnooped ph address data msk) (h, c) =
     res_bind (ic_OnMemorySnooped ph address data msk c) (\<lambda>(_, c'). Inr (h, c'))"
| "ic_step (OpInvalidated ph address) (h, c) =
     res_bind (ic_OnMemoryInvalidated ph address c) (\<lambda>(_, c'). Inr (h, c'))"
| "ic_step (OpOutgoing e ok) (h, c) =
     res_bind (ic_DoOutgoing e (\<lambda>_ _. Inr (ok, ())) (c, ())) (\<lambda>(_, c', _). Inr (h, c'))"
| "ic_step (OpIncoming e okc okq) (h, c) =
     res_bind (ic_DoIncoming e (\<lambda>_ _. Inr (okc, ())) (\<lambda>_ _. Inr (okq, ())) (c, ())) (\<lambda>(_, c', _). Inr (h, c'))"
| "ic_step (OpUpdate cycle) (h, c) =
     res_bind (buffer_Update cycle (ic_outgoing c)) (\<lambda>(_, out). res_bind (buffer_Update cycle (ic_incoming c)) (\<lambda>(_, inc).
       Inr (h, c\<lparr>ic_outgoing := out, ic_incoming := inc\<rparr>)))"
| "ic_step OpArbitrate (h, c) =
     res_bind (PriorityArbitrate (ic_service c)) (\<lambda>s. Inr (h, c\<lparr>ic_service := s\<rparr>))"
| "ic_step (OpAddProcess p) (h, c) =
     res_bind (AddProcess p (ic_service c)) (\<lambda>s. Inr (h, c\<lparr>ic_service := s\<rparr>))"

fun ic_run :: "ic_op list \<Rightarrow> holds \<times> ICache \<Rightarrow> (holds \<times> ICache) res" where
  "ic_run [] s = Inr s"
| "ic_run (x # xs) s = res_bind (ic_step x s) (ic_run xs)"

section \<open>The invariant\<close>

text \<open>A line has the tag of the line of memory \<open>a\<close> and lies in the set for it.\<close>

definition line_of :: "ICache \<Rightarrow> nat \<Rightarrow> u64 \<Rightarrow> bool" where
  "line_of c i a \<longleftrightarrow> i < length (ic_lines c) \<and> il_state (ic_lines c ! i) \<noteq> LINE_EMPTY
     \<and> (\<exists>s. selector_Map (ic_selector c) a = Some (il_tag (ic_lines c ! i), s))"

definition holds_of :: "holds \<Rightarrow> nat \<Rightarrow> nat" where
  "holds_of h i = length (filter (\<lambda>x. fst x = i) h)"

definition ic_inv :: "holds \<times> ICache \<Rightarrow> bool" where
  "ic_inv s = (case s of (h, c) \<Rightarrow> (\<forall>(i, a)\<in>set h. line_of c i a)
     \<and> (\<forall>i<length (ic_lines c). il_references (ic_lines c ! i) = of_nat (holds_of h i))
     \<and> (\<forall>l\<in>set (ic_lines c). length (il_data l) = unat (ic_lineSize c))
     \<and> length (ic_lines c) \<le> INVALID_CID)"

definition same_config :: "ICache \<Rightarrow> ICache \<Rightarrow> bool" where
  "same_config c c' \<longleftrightarrow> ic_selector c' = ic_selector c \<and> ic_lineSize c' = ic_lineSize c
     \<and> ic_assoc c' = ic_assoc c \<and> length (ic_lines c') = length (ic_lines c)"

text \<open>The steps change one line at a time: \<open>line_kept\<close> is a change that does not concern the holders.\<close>

definition line_kept :: "icache_line \<Rightarrow> icache_line \<Rightarrow> bool" where
  "line_kept l l' \<longleftrightarrow> il_references l' = il_references l \<and> length (il_data l') = length (il_data l)
     \<and> (il_references l \<noteq> 0 \<longrightarrow> il_tag l' = il_tag l \<and> (il_state l \<noteq> LINE_EMPTY \<longrightarrow> il_state l' \<noteq> LINE_EMPTY))"

definition lines_kept :: "ICache \<Rightarrow> ICache \<Rightarrow> bool" where
  "lines_kept c c' \<longleftrightarrow> same_config c c' \<and> (\<forall>i<length (ic_lines c). line_kept (ic_lines c ! i) (ic_lines c' ! i))"

lemma line_kept_refl [simp]: "line_kept l l"
  by (simp add: line_kept_def)

lemma line_kept_trans: "line_kept a b \<Longrightarrow> line_kept b c \<Longrightarrow> line_kept a c"
  by (auto simp: line_kept_def)

lemma lines_kept_refl [simp]: "lines_kept c c"
  by (simp add: lines_kept_def same_config_def)

lemma lines_kept_trans: "lines_kept a b \<Longrightarrow> lines_kept b c \<Longrightarrow> lines_kept a c"
  unfolding lines_kept_def same_config_def by (metis line_kept_trans)

lemma ic_modify_kept:
  "(i < length (ic_lines c) \<Longrightarrow> line_kept (ic_lines c ! i) (f (ic_lines c ! i))) \<Longrightarrow> lines_kept c (ic_modify i f c)"
  by (cases "i < length (ic_lines c)") (auto simp: lines_kept_def same_config_def ic_modify_def nth_list_update)

lemma COMMIT_kept: "lines_kept c (f c) \<Longrightarrow> lines_kept c (COMMIT ph f c)"
  by (simp add: COMMIT_def)

lemma fields_kept [simp]:
  "lines_kept c (c\<lparr>ic_outgoing := a\<rparr>)" "lines_kept c (c\<lparr>ic_incoming := b\<rparr>)" "lines_kept c (c\<lparr>ic_service := s\<rparr>)"
  "lines_kept c (c\<lparr>ic_numHits := n\<rparr>)" "lines_kept c (c\<lparr>ic_numDelayedReads := n\<rparr>)"
  "lines_kept c (c\<lparr>ic_numEmptyMisses := n\<rparr>)" "lines_kept c (c\<lparr>ic_numLoadingMisses := n\<rparr>)"
  "lines_kept c (c\<lparr>ic_numInvalidMisses := n\<rparr>)" "lines_kept c (c\<lparr>ic_numHardConflicts := n\<rparr>)"
  "lines_kept c (c\<lparr>ic_numResolvedConflicts := n\<rparr>)" "lines_kept c (c\<lparr>ic_numStallingMisses := n\<rparr>)"
  by (simp_all add: lines_kept_def same_config_def)

lemma holds_of_pos: "(i, a) \<in> set h \<Longrightarrow> 0 < holds_of h i"
  by (force simp: holds_of_def filter_empty_conv)

lemma holds_of_le: "holds_of h i \<le> length h"
  by (simp add: holds_of_def)

lemma held_nonzero:
  assumes "ic_inv (h, c)" and "length h < 2 ^ 64" and "(i, a) \<in> set h"
  shows "il_references (ic_lines c ! i) \<noteq> 0"
proof -
  have "i < length (ic_lines c)" using assms by (auto simp: ic_inv_def line_of_def)
  then have "il_references (ic_lines c ! i) = of_nat (holds_of h i)" using assms(1) by (simp add: ic_inv_def)
  moreover have "0 < holds_of h i" "holds_of h i < 2 ^ 64"
    using holds_of_pos [OF assms(3)] holds_of_le [of h i] assms(2) by auto
  ultimately show ?thesis by (auto simp: word_of_nat_eq_0_iff dest: nat_dvd_not_less)
qed

lemma lines_kept_inv:
  assumes "ic_inv (h, c)" and "length h < 2 ^ 64" and k: "lines_kept c c'"
  shows "ic_inv (h, c')"
proof -
  have n: "length (ic_lines c') = length (ic_lines c)" "ic_selector c' = ic_selector c" "ic_lineSize c' = ic_lineSize c"
    using k by (simp_all add: lines_kept_def same_config_def)
  have l: "line_kept (ic_lines c ! i) (ic_lines c' ! i)" if "i < length (ic_lines c)" for i
    using k that by (simp add: lines_kept_def)
  have "line_of c' i a" if "(i, a) \<in> set h" for i a
  proof -
    have "line_of c i a" using assms(1) that by (auto simp: ic_inv_def)
    then show ?thesis using l [of i] held_nonzero [OF assms(1,2) that] n by (auto simp: line_of_def line_kept_def)
  qed
  moreover have "il_references (ic_lines c' ! i) = of_nat (holds_of h i)" if "i < length (ic_lines c')" for i
    using that assms(1) l [of i] n by (auto simp: ic_inv_def line_kept_def)
  moreover have "length (il_data x) = unat (ic_lineSize c')" if x: "x \<in> set (ic_lines c')" for x
  proof -
    obtain i where "i < length (ic_lines c)" "x = ic_lines c' ! i" using x n by (metis in_set_conv_nth)
    then show ?thesis using assms(1) l [of i] n by (auto simp: ic_inv_def line_kept_def)
  qed
  ultimately show ?thesis using assms(1) n by (auto simp: ic_inv_def)
qed

section \<open>The operations\<close>

lemma findline_loop_found:
  "findline_loop ls tag is vacant replace = Inr (Inl i) \<Longrightarrow>
   i \<in> set is \<and> i < length ls \<and> il_state (ls ! i) \<noteq> LINE_EMPTY \<and> il_tag (ls ! i) = tag"
  by (induction "is" arbitrary: vacant replace) (auto split: if_splits)

text \<open>A line that is taken is empty or has no references.\<close>

lemma findline_loop_taken:
  "findline_loop ls tag is vacant replace = Inr (Inr (vacant', replace')) \<Longrightarrow>
   pred_option (\<lambda>i. i < length ls \<and> il_state (ls ! i) = LINE_EMPTY) vacant \<Longrightarrow>
   pred_option (\<lambda>i. i < length ls \<and> il_references (ls ! i) = 0) replace \<Longrightarrow>
   pred_option (\<lambda>i. i < length ls \<and> il_state (ls ! i) = LINE_EMPTY) vacant'
   \<and> pred_option (\<lambda>i. i < length ls \<and> il_references (ls ! i) = 0) replace'"
proof (induction "is" arbitrary: vacant replace)
  case (Cons j js)
  have j: "j < length ls" using Cons.prems(1) by (simp split: if_splits)
  consider "il_state (ls ! j) = LINE_EMPTY" "findline_loop ls tag js (Some j) replace = Inr (Inr (vacant', replace'))"
    | "il_references (ls ! j) = 0" "findline_loop ls tag js vacant (Some j) = Inr (Inr (vacant', replace'))"
    | "findline_loop ls tag js vacant replace = Inr (Inr (vacant', replace'))"
    using Cons.prems(1) by (simp split: if_splits)
  then show ?case
  proof cases
    case 1
    then show ?thesis using Cons.IH [OF 1(2)] Cons.prems(3) j by simp
  next
    case 2
    then show ?thesis using Cons.IH [OF 2(2)] Cons.prems(2) j by simp
  next
    case 3
    then show ?thesis using Cons.IH [OF 3] Cons.prems(2,3) by simp
  qed
qed simp

lemma FindLine_cases:
  assumes "FindLine ph address chk c = Inr (r, line, c')"
  obtains (failed) "r = FAILED" "line = None" "c' = c"
  | (found) i s where "r = SUCCESS" "line = Some i" "c' = c" "i < length (ic_lines c)"
      "il_state (ic_lines c ! i) \<noteq> LINE_EMPTY"
      "selector_Map (ic_selector c) (address div ic_lineSize c) = Some (il_tag (ic_lines c ! i), s)"
  | (taken) i tag s where "r = DELAYED" "line = Some i" "i < length (ic_lines c)"
      "il_state (ic_lines c ! i) = LINE_EMPTY \<or> il_references (ic_lines c ! i) = 0"
      "selector_Map (ic_selector c) (address div ic_lineSize c) = Some (tag, s)"
      "c' = (if chk then c else COMMIT ph (ic_modify i (\<lambda>l. l\<lparr>il_tag := tag\<rparr>)) c)"
proof -
  obtain tag s where m: "ic_Map address c = Inr (tag, s)" using assms by (auto simp: FindLine_def res_bind_Inr)
  then have sel: "selector_Map (ic_selector c) (address div ic_lineSize c) = Some (tag, s)"
    by (auto simp: ic_Map_def split: if_splits option.splits)
  define "is" where "is = [unat (s * ic_assoc c)..<unat (s * ic_assoc c) + unat (ic_assoc c)]"
  obtain r' where lp: "findline_loop (ic_lines c) tag is None None = Inr r'"
    using assms m by (auto simp: FindLine_def res_bind_Inr is_def Let_def)
  have F: "FindLine ph address chk c = (case r' of Inl i \<Rightarrow> Inr (SUCCESS, Some i, c)
       | Inr (vacant, replace) \<Rightarrow>
           (case (if vacant \<noteq> None then vacant else replace) of
              None \<Rightarrow> Inr (FAILED, None, c)
            | Some i \<Rightarrow> Inr (DELAYED, Some i,
                if chk then c else COMMIT ph (ic_modify i (\<lambda>l. l\<lparr>il_tag := tag\<rparr>)) c)))"
    by (simp only: FindLine_def m res_bind_simps Let_def prod.case lp [unfolded is_def])
  show thesis
  proof (cases r')
    case (Inl i)
    then show ?thesis using assms F lp findline_loop_found [of "ic_lines c" tag "is" None None i] sel found [of i s]
      by simp
  next
    case (Inr vr)
    then obtain vacant replace where vr: "r' = Inr (vacant, replace)" by (cases vr) auto
    note t = findline_loop_taken [OF lp [unfolded vr]]
    show ?thesis
    proof (cases "if vacant \<noteq> None then vacant else replace")
      case None
      then show ?thesis using assms F vr failed by simp
    next
      case (Some i)
      then have "i < length (ic_lines c) \<and> (il_state (ic_lines c ! i) = LINE_EMPTY \<or> il_references (ic_lines c ! i) = 0)"
        using t by (auto split: if_splits)
      then show ?thesis using assms F vr Some sel taken [of i tag s] by simp
    qed
  qed
qed

text \<open>What a fetch does to the line it returns: \<open>referenced\<close> with one more reference.\<close>

definition referenced :: "nat \<Rightarrow> u64 \<Rightarrow> ICache \<Rightarrow> ICache \<Rightarrow> bool" where
  "referenced i tag c c' \<longleftrightarrow> same_config c c' \<and> i < length (ic_lines c) \<and> (\<exists>l. ic_lines c' = (ic_lines c)[i := l]
     \<and> il_references l = il_references (ic_lines c ! i) + 1 \<and> il_tag l = tag \<and> il_state l \<noteq> LINE_EMPTY
     \<and> length (il_data l) = length (il_data (ic_lines c ! i)))"

lemma fetch_hit_step:
  assumes "fetch_hit ph tid i c = Inr (r, t', cid, c')" and "i < length (ic_lines c)"
    and "il_state (ic_lines c ! i) \<noteq> LINE_EMPTY"
  shows "if r = FAILED \<or> ph \<noteq> PHASE_COMMIT then lines_kept c c'
    else cid = Some i \<and> referenced i (il_tag (ic_lines c ! i)) c c'"
proof (cases "il_state (ic_lines c ! i) = LINE_INVALID \<or> ph \<noteq> PHASE_COMMIT")
  case True
  then show ?thesis using assms
    by (auto simp: fetch_hit_def Let_def COMMIT_idle split: if_splits option.splits)
next
  case False
  then show ?thesis using assms
    by (auto simp: fetch_hit_def Let_def ic_modify_def referenced_def same_config_def ic_enqueue_def
        split: if_splits option.splits)
qed

lemma fetch_miss_step:
  assumes "fetch_miss e address tid i c = Inr (r, t', cid, c')" and "i < length (ic_lines c)"
    and "il_references (ic_lines c ! i) = 0"
  shows "if r = FAILED \<or> en_phase e \<noteq> PHASE_COMMIT then lines_kept c c'
    else cid = Some i \<and> referenced i (il_tag (ic_lines c ! i)) c c'"
proof -
  obtain ok out where p: "buffer_Push (en_phase e) (en_clk e) address 1 (ic_outgoing c) = Inr (ok, out)"
    using assms(1) by (auto simp: fetch_miss_def res_bind_Inr)
  show ?thesis
  proof (cases "ok \<and> en_phase e = PHASE_COMMIT")
    case True
    then show ?thesis using assms p
      by (auto simp: fetch_miss_def Let_def ic_modify_def referenced_def same_config_def split: if_splits option.splits)
  next
    case False
    have "lines_kept c (c\<lparr>ic_outgoing := out, ic_numStallingMisses := n\<rparr>)" for n
      by (simp add: lines_kept_def same_config_def)
    then show ?thesis using assms False p by (cases ok) (auto simp: fetch_miss_def Let_def)
  qed
qed

text \<open>A reference more keeps the invariant; a line that nobody held may change its tag.\<close>

lemma referenced_inv:
  assumes inv: "ic_inv (h, c)" and n: "length h < 2 ^ 64" and r: "referenced i tag c c'"
    and free: "tag \<noteq> il_tag (ic_lines c ! i) \<Longrightarrow> il_references (ic_lines c ! i) = 0"
    and a: "selector_Map (ic_selector c) a = Some (tag, s)"
  shows "ic_inv ((i, a) # h, c')"
proof -
  obtain l where l: "ic_lines c' = (ic_lines c)[i := l]" "il_references l = il_references (ic_lines c ! i) + 1"
    "il_tag l = tag" "il_state l \<noteq> LINE_EMPTY" "length (il_data l) = length (il_data (ic_lines c ! i))"
    and cfg: "same_config c c'" and i: "i < length (ic_lines c)"
    using r by (auto simp: referenced_def)
  note cf = cfg [unfolded same_config_def]
  have held: "line_of c' j b" if "(j, b) \<in> set h" for j b
  proof -
    have "line_of c j b" using inv that by (auto simp: ic_inv_def)
    moreover have "j = i \<Longrightarrow> tag = il_tag (ic_lines c ! i)" using free held_nonzero [OF inv n that] by auto
    ultimately show ?thesis using l i cf by (cases "j = i") (auto simp: line_of_def)
  qed
  have "line_of c' i a" using l i a cf by (auto simp: line_of_def)
  moreover have "il_references (ic_lines c' ! j) = of_nat (holds_of ((i, a) # h) j)" if "j < length (ic_lines c')" for j
    using that inv l i by (cases "j = i") (auto simp: ic_inv_def holds_of_def)
  moreover have "length (il_data x) = unat (ic_lineSize c')" if "x \<in> set (ic_lines c')" for x
    using that inv l(1,5) i cf set_update_subset_insert [of "ic_lines c" i l] by (auto simp: ic_inv_def)
  ultimately show ?thesis using held inv cf by (auto simp: ic_inv_def)
qed

lemma lines_kept_line: "lines_kept c c' \<Longrightarrow> i < length (ic_lines c) \<Longrightarrow> line_kept (ic_lines c ! i) (ic_lines c' ! i)"
  by (simp add: lines_kept_def)

lemma lines_kept_config: "lines_kept c c' \<Longrightarrow> same_config c c'"
  by (simp add: lines_kept_def)

lemma referenced_config: "referenced i tag c c' \<Longrightarrow> same_config c c'"
  by (simp add: referenced_def)

lemma empty_unreferenced:
  assumes "ic_inv (h, c)" and "i < length (ic_lines c)" and "il_state (ic_lines c ! i) = LINE_EMPTY"
  shows "il_references (ic_lines c ! i) = 0"
proof -
  have "holds_of h i = 0" using assms by (auto simp: ic_inv_def holds_of_def filter_empty_conv line_of_def)
  then show ?thesis using assms by (simp add: ic_inv_def)
qed

lemma fetch_line_address: "(a - a mod b) div b = a div (b :: u64)"
proof (cases "b = 0")
  case False
  have "unat (a - a mod b) = unat a - unat a mod unat b"
    using unat_sub [of "a mod b" a] by (simp add: unat_mod_distrib word_le_nat_alt)
  then have "unat ((a - a mod b) div b) = unat (a div b)"
    using False by (simp add: unat_div_distrib minus_mod_eq_mult_div unat_eq_zero)
  then show ?thesis by (simp only: word_unat_eq_iff)
qed simp

lemma ic_Fetch_step:
  assumes F: "ic_Fetch e address sz tid c = Inr (r, t', cid, c')" and inv: "ic_inv (h, c)" and n: "length h < 2 ^ 64"
  shows "same_config c c' \<and> ic_inv (case cid of Some i \<Rightarrow>
      if r \<noteq> FAILED \<and> en_phase e = PHASE_COMMIT then (i, address div ic_lineSize c) # h else h | None \<Rightarrow> h, c')"
proof -
  define a where "a = address div ic_lineSize c"
  obtain ok sv where sv: "service_Invoke e (ic_service c) = Inr (ok, sv)"
    using F by (auto simp: ic_Fetch_def Let_def res_bind_Inr split: if_splits)
  define c0 where "c0 = c\<lparr>ic_service := sv\<rparr>"
  have k0: "lines_kept c c0" by (simp add: c0_def)
  have inv0: "ic_inv (h, c0)" by (rule lines_kept_inv [OF inv n k0])
  show ?thesis
  proof (cases ok)
    case False
    then show ?thesis using F sv k0 inv0 lines_kept_config
      by (auto simp: ic_Fetch_def Let_def c0_def split: if_splits)
  next
    case True
    define addr where "addr = address - address mod ic_lineSize c"
    have addr: "addr div ic_lineSize c0 = a" by (simp add: addr_def a_def c0_def fetch_line_address)
    obtain result line c1 where fl: "FindLine (en_phase e) addr False c0 = Inr (result, line, c1)"
      using F sv True by (auto simp: ic_Fetch_def Let_def res_bind_Inr c0_def addr_def split: if_splits)
    have R: "(case line of None \<Rightarrow> Inr (FAILED, tid, None, c1\<lparr>ic_numHardConflicts := ic_numHardConflicts c1 + 1\<rparr>)
       | Some i \<Rightarrow> let c = COMMIT (en_phase e) (ic_modify i (\<lambda>l. l\<lparr>il_access := en_cycle e\<rparr>)) c1 in
           if result = SUCCESS then fetch_hit (en_phase e) tid i c else fetch_miss e addr tid i c) = Inr (r, t', cid, c')"
      using F sv True fl unfolding addr_def by (auto simp: ic_Fetch_def Let_def c0_def split: if_splits)
    have acc: "lines_kept x (COMMIT ph (ic_modify i (\<lambda>l. l\<lparr>il_access := en_cycle e\<rparr>)) x)" for x ph i
      by (intro COMMIT_kept ic_modify_kept) (simp add: line_kept_def)
    have sc0: "same_config c c0" by (rule lines_kept_config [OF k0])
    show ?thesis
      using fl
    proof (cases rule: FindLine_cases)
      case failed
      then have "c' = c0\<lparr>ic_numHardConflicts := ic_numHardConflicts c0 + 1\<rparr>" "cid = None" using R by auto
      then show ?thesis using lines_kept_inv [OF inv0 n, of c'] sc0 by (simp add: same_config_def)
    next
      case (found i s)
      define c2 where "c2 = COMMIT (en_phase e) (ic_modify i (\<lambda>l. l\<lparr>il_access := en_cycle e\<rparr>)) c0"
      have k2: "lines_kept c0 c2" unfolding c2_def by (rule acc)
      have inv2: "ic_inv (h, c2)" by (rule lines_kept_inv [OF inv0 n k2])
      have c2: "il_state (ic_lines c2 ! i) = il_state (ic_lines c0 ! i)" "il_tag (ic_lines c2 ! i) = il_tag (ic_lines c0 ! i)"
        "i < length (ic_lines c2)" "ic_selector c2 = ic_selector c0" "same_config c c2"
        using found(4) sc0 lines_kept_config [OF k2] by (auto simp: c2_def COMMIT_def ic_modify_def same_config_def)
      have "fetch_hit (en_phase e) tid i c2 = Inr (r, t', cid, c')" using R found(1-3) by (simp add: c2_def)
      from fetch_hit_step [OF this] have step: "if r = FAILED \<or> en_phase e \<noteq> PHASE_COMMIT then lines_kept c2 c'
        else cid = Some i \<and> referenced i (il_tag (ic_lines c2 ! i)) c2 c'" using c2 found(5) by simp
      show ?thesis
      proof (cases "r = FAILED \<or> en_phase e \<noteq> PHASE_COMMIT")
        case True
        then have k: "lines_kept c2 c'" using step by simp
        then show ?thesis using True lines_kept_inv [OF inv2 n k] c2(5) lines_kept_config [OF k]
          by (auto simp: same_config_def split: option.splits)
      next
        case False
        then have "cid = Some i" and rf: "referenced i (il_tag (ic_lines c2 ! i)) c2 c'" using step by auto
        moreover have "ic_inv ((i, a) # h, c')"
          using found(6) by (intro referenced_inv [OF inv2 n rf]) (simp_all add: addr c2)
        ultimately show ?thesis using False c2(5) referenced_config [OF rf] by (auto simp: a_def same_config_def)
      qed
    next
      case (taken i tag s)
      define c2 where "c2 = COMMIT (en_phase e) (ic_modify i (\<lambda>l. l\<lparr>il_access := en_cycle e\<rparr>)) c1"
      have free: "il_references (ic_lines c0 ! i) = 0"
        using taken(3,4) empty_unreferenced [OF inv0] by auto
      have "lines_kept c0 c1"
        unfolding taken(6) using free by (auto intro!: COMMIT_kept ic_modify_kept simp: line_kept_def)
      then have k2: "lines_kept c0 c2" unfolding c2_def using acc lines_kept_trans by blast
      have inv2: "ic_inv (h, c2)" by (rule lines_kept_inv [OF inv0 n k2])
      have free2: "il_references (ic_lines c2 ! i) = 0" "i < length (ic_lines c2)" "same_config c c2"
        using free lines_kept_line [OF k2 taken(3)] taken(3) sc0 lines_kept_config [OF k2]
        by (auto simp: line_kept_def same_config_def)
      have "fetch_miss e addr tid i c2 = Inr (r, t', cid, c')" using R taken(1,2) by (simp add: c2_def)
      from fetch_miss_step [OF this free2(2,1)] have step: "if r = FAILED \<or> en_phase e \<noteq> PHASE_COMMIT then lines_kept c2 c'
        else cid = Some i \<and> referenced i (il_tag (ic_lines c2 ! i)) c2 c'" .
      show ?thesis
      proof (cases "r = FAILED \<or> en_phase e \<noteq> PHASE_COMMIT")
        case True
        then have k: "lines_kept c2 c'" using step by simp
        then show ?thesis using True lines_kept_inv [OF inv2 n k] free2(3) lines_kept_config [OF k]
          by (auto simp: same_config_def split: option.splits)
      next
        case False
        then have "cid = Some i" and rf: "referenced i (il_tag (ic_lines c2 ! i)) c2 c'" using step by auto
        moreover have "il_tag (ic_lines c2 ! i) = tag" "ic_selector c2 = ic_selector c0"
          using False taken(3,6) by (auto simp: c2_def ic_modify_def)
        then have "ic_inv ((i, a) # h, c')"
          using taken(5) free2(1) by (intro referenced_inv [OF inv2 n rf]) (simp_all add: addr)
        ultimately show ?thesis using False free2(3) referenced_config [OF rf] by (auto simp: a_def same_config_def)
      qed
    qed
  qed
qed

text \<open>The operations other than a fetch and a release keep every line that has references.\<close>

lemma check_only_same: "FindLine ph address True c = Inr (r, line, c') \<Longrightarrow> c' = c"
  by (erule FindLine_cases) simp_all

lemma ReadCompleted_kept:
  assumes "ic_OnMemoryReadCompleted e address data c = Inr (ok, c')" and "unat (ic_lineSize c) \<le> length data"
    and "\<forall>l\<in>set (ic_lines c). length (il_data l) = unat (ic_lineSize c)"
  shows "lines_kept c c'"
proof -
  obtain r line where fl: "FindLine (en_phase e) address True c = Inr (r, line, c)"
    using assms(1) check_only_same by (auto simp: ic_OnMemoryReadCompleted_def res_bind_Inr)
  show ?thesis
  proof (cases "line = None \<or> r \<noteq> SUCCESS \<or> il_state (ic_lines c ! the line) = LINE_FULL")
    case True
    then show ?thesis using assms(1) fl by (auto simp: ic_OnMemoryReadCompleted_def split: option.splits)
  next
    case False
    then obtain i where i: "line = Some i" by auto
    define c1 where "c1 = COMMIT (en_phase e) (ic_modify i (\<lambda>l. l\<lparr>il_data := take (unat (ic_lineSize c)) data\<rparr>)) c"
    have "lines_kept c c1" unfolding c1_def
      using assms(2,3) by (intro COMMIT_kept ic_modify_kept) (simp add: line_kept_def)
    moreover have "\<exists>inc. c' = c1\<lparr>ic_incoming := inc\<rparr>" using assms(1) fl False i
      by (auto simp: ic_OnMemoryReadCompleted_def Let_def res_bind_Inr c1_def)
    ultimately show ?thesis using lines_kept_trans fields_kept(2) by blast
  qed
qed

lemma line_blit_length [simp]: "length (line_blit dst src msk n) = length dst"
proof -
  have "length (fold (\<lambda>i dst. if msk ! i then dst[i := src ! i] else dst) is dst) = length dst" for "is"
    by (induction "is" arbitrary: dst) simp_all
  then show ?thesis by (simp add: line_blit_def)
qed

lemma Snooped_kept: "ic_OnMemorySnooped ph address data msk c = Inr (ok, c') \<Longrightarrow> lines_kept c c'"
  by (auto simp: ic_OnMemorySnooped_def res_bind_Inr dest!: check_only_same split: option.splits
      intro!: COMMIT_kept ic_modify_kept) (simp_all add: line_kept_def)

lemma invalidate_line_kept: "invalidate_line l = Inr l' \<Longrightarrow> line_kept l l'"
  by (auto simp: invalidate_line_def line_kept_def split: if_splits)

lemma Invalidated_kept: "ic_OnMemoryInvalidated ph address c = Inr (ok, c') \<Longrightarrow> lines_kept c c'"
  by (auto simp: ic_OnMemoryInvalidated_def res_bind_Inr dest!: check_only_same invalidate_line_kept
      split: option.splits if_splits intro!: ic_modify_kept)

lemma ic_DoOutgoing_kept: "ic_DoOutgoing e read (c, m) = Inr (r, c', m') \<Longrightarrow> lines_kept c c'"
  by (auto simp: ic_DoOutgoing_def res_bind_Inr split: if_splits)

lemma handler_kept:
  assumes "lines_kept c x"
  shows "lines_kept c (COMMIT ph (ic_modify i (\<lambda>l. l\<lparr>il_state := LINE_FULL\<rparr>)) x)"
    and "lines_kept c (COMMIT ph (ic_modify i (\<lambda>l. l\<lparr>il_creation := b\<rparr>)) x)"
    and "lines_kept c (COMMIT ph (ic_modify i (\<lambda>l. l\<lparr>il_waiting := q\<rparr>)) x)"
    and "lines_kept c (x\<lparr>ic_incoming := inc\<rparr>)"
  by (auto intro!: lines_kept_trans [OF assms] COMMIT_kept ic_modify_kept simp: line_kept_def)

lemma resume_kept:
  "resume_creation ph loaded cid (c, a) = Inr (ok, c', a') \<Longrightarrow> lines_kept c c'"
  "resume_threads ph queue cid (c, a) = Inr (ok, c', a') \<Longrightarrow> lines_kept c c'"
  by (auto simp: resume_creation_def resume_threads_def Let_def res_bind_Inr split: if_splits intro!: handler_kept)

lemma ic_DoIncoming_kept:
  "ic_DoIncoming e loaded queue (c, a) = Inr (r, c', a') \<Longrightarrow> lines_kept c c'"
  by (auto simp: ic_DoIncoming_def Let_def res_bind_Inr split: if_splits dest!: resume_kept
      intro!: handler_kept(4) elim!: lines_kept_trans [rotated]) 
    (auto intro!: handler_kept)

lemma holds_of_remove1: "x \<in> set h \<Longrightarrow> holds_of (remove1 x h) i + of_bool (fst x = i) = holds_of h i"
  by (induction h) (auto simp: holds_of_def)

lemma ReleaseCacheLine_step:
  assumes R: "ReleaseCacheLine ph (fst x) c = Inr (ok, c')" and inv: "ic_inv (h, c)" and n: "length h < 2 ^ 64"
    and x: "x \<in> set h"
  shows "same_config c c' \<and> ic_inv (if ph = PHASE_COMMIT then remove1 x h else h, c')"
proof (cases "ph = PHASE_COMMIT")
  case False
  then show ?thesis using R inv by (auto simp: ReleaseCacheLine_def same_config_def)
next
  case True
  let ?i = "fst x"
  have x': "(?i, snd x) \<in> set h" using x by simp
  then have l: "line_of c ?i (snd x)" using inv unfolding ic_inv_def by blast
  then have i: "?i < length (ic_lines c)" "?i \<noteq> INVALID_CID" using inv by (auto simp: ic_inv_def line_of_def)
  define refs where "refs = il_references (ic_lines c ! ?i) - 1"
  have c': "c' = ic_modify ?i (\<lambda>l. l\<lparr>il_references := refs,
      il_state := (if refs = 0 \<and> il_state l = LINE_INVALID then LINE_EMPTY else il_state l)\<rparr>) c"
    using R True i by (simp add: ReleaseCacheLine_def refs_def)
  have cnt: "refs = of_nat (holds_of (remove1 x h) ?i)"
  proof -
    have "holds_of h ?i = Suc (holds_of (remove1 x h) ?i)" using holds_of_remove1 [OF x, of ?i] by simp
    then show ?thesis using inv i by (simp add: refs_def ic_inv_def)
  qed
  have "line_of c' j a" if "(j, a) \<in> set (remove1 x h)" for j a
  proof -
    have "(j, a) \<in> set h" using that notin_set_remove1 by metis
    then have lj: "line_of c j a" using inv unfolding ic_inv_def by blast
    have "refs \<noteq> 0" if "j = ?i"
    proof -
      have "0 < holds_of (remove1 x h) ?i" using \<open>(j, a) \<in> set (remove1 x h)\<close> that holds_of_pos by blast
      moreover have "holds_of (remove1 x h) ?i < 2 ^ 64"
        using holds_of_remove1 [OF x, of ?i] holds_of_le [of h ?i] n by simp
      ultimately show ?thesis unfolding cnt by (auto simp: word_of_nat_eq_0_iff dest: nat_dvd_not_less)
    qed
    then show ?thesis using lj i by (cases "j = ?i") (auto simp: line_of_def c' ic_modify_def)
  qed
  moreover have "il_references (ic_lines c' ! j) = of_nat (holds_of (remove1 x h) j)" if "j < length (ic_lines c')" for j
    using that inv cnt holds_of_remove1 [OF x, of j] by (cases "j = ?i") (auto simp: c' ic_modify_def ic_inv_def)
  moreover have "length (il_data y) = unat (ic_lineSize c')" if "y \<in> set (ic_lines c')" for y
    using that inv i set_update_subset_insert [of "ic_lines c" ?i] by (fastforce simp: c' ic_modify_def ic_inv_def)
  ultimately show ?thesis using True inv by (auto simp: ic_inv_def c' ic_modify_def same_config_def)
qed

section \<open>Runs\<close>

text \<open>The memory returns whole lines.\<close>

fun op_ok :: "u64 \<Rightarrow> ic_op \<Rightarrow> bool" where
  "op_ok ls (OpReadCompleted e address data) \<longleftrightarrow> unat ls \<le> length data"
| "op_ok ls _ \<longleftrightarrow> True"

lemma ic_step_inv:
  assumes "ic_step x (h, c) = Inr (h', c')" and inv: "ic_inv (h, c)" and n: "length h < 2 ^ 64"
    and ok: "op_ok (ic_lineSize c) x"
  shows "same_config c c' \<and> ic_inv (h', c') \<and> length h' \<le> Suc (length h)"
proof -
  have kept: "same_config c y \<and> ic_inv (h, y) \<and> length h \<le> Suc (length h)" if "lines_kept c y" for y
    using lines_kept_inv [OF inv n that] lines_kept_config [OF that] by simp
  show ?thesis
  proof (cases x)
    case (OpFetch e address sz tid)
    then obtain r t cid where "ic_Fetch e address sz tid c = Inr (r, t, cid, c')"
      and h': "h' = (case cid of Some i \<Rightarrow> if r \<noteq> FAILED \<and> en_phase e = PHASE_COMMIT
        then (i, address div ic_lineSize c) # h else h | None \<Rightarrow> h)"
      using assms(1) by (auto simp: res_bind_Inr)
    from ic_Fetch_step [OF this(1) inv n] show ?thesis by (auto simp: h' split: option.splits)
  next
    case (OpRelease ph y)
    then show ?thesis using assms(1) ReleaseCacheLine_step [OF _ inv n, of ph y] kept [OF lines_kept_refl]
      by (auto simp: res_bind_Inr length_remove1 split: if_splits)
  next
    case (OpReadCompleted e address data)
    then obtain b where "ic_OnMemoryReadCompleted e address data c = Inr (b, c')" and h': "h' = h"
      using assms(1) by (auto simp: res_bind_Inr)
    from ReadCompleted_kept [OF this(1)] have "lines_kept c c'" using OpReadCompleted ok inv by (simp add: ic_inv_def)
    then show ?thesis unfolding h' by (rule kept)
  next
    case OpUpdate
    have "lines_kept c (c\<lparr>ic_outgoing := a, ic_incoming := b\<rparr>)" for a b by (simp add: lines_kept_def same_config_def)
    then show ?thesis using OpUpdate assms(1) kept by (auto simp: res_bind_Inr)
  qed (use assms(1) kept Snooped_kept Invalidated_kept ic_DoOutgoing_kept ic_DoIncoming_kept in \<open>fastforce simp: res_bind_Inr\<close>)+
qed

lemma ic_run_inv:
  "ic_run xs (h, c) = Inr (h', c') \<Longrightarrow> ic_inv (h, c) \<Longrightarrow> length h + length xs \<le> 2 ^ 64
   \<Longrightarrow> list_all (op_ok (ic_lineSize c)) xs
   \<Longrightarrow> same_config c c' \<and> ic_inv (h', c') \<and> length h' \<le> length h + length xs"
proof (induction xs arbitrary: h c)
  case (Cons x xs)
  then obtain h1 c1 where s: "ic_step x (h, c) = Inr (h1, c1)" "ic_run xs (h1, c1) = Inr (h', c')"
    by (auto simp: res_bind_Inr)
  have "same_config c c1 \<and> ic_inv (h1, c1) \<and> length h1 \<le> Suc (length h)"
    using Cons.prems by (intro ic_step_inv [OF s(1)]) auto
  then show ?case using Cons.IH [OF s(2)] Cons.prems(3,4) by (auto simp: same_config_def)
qed (simp add: same_config_def)

lemma ICache_new_inv:
  assumes "ICache_new junk sel numSets ls assoc outgoing incoming = Some (Inr c)" and "length (ic_lines c) \<le> INVALID_CID"
  shows "ic_inv ([], c) \<and> ic_lineSize c = ls \<and> ls \<noteq> 0"
proof -
  have "ic_lineSize c = ls \<and> 8 \<le> ls \<and> (\<exists>n. ic_lines c = replicate n (icache_line_init junk (unat ls)))"
    using assms(1) by (auto simp: ICache_new_def res_bind_Inr split: option.splits if_splits)
  then show ?thesis using assms(2) by (auto simp: ic_inv_def icache_line_init_def holds_of_def)
qed

lemma held_line_read:
  assumes inv: "ic_inv (h, c)" and x: "(i, a) \<in> set h" and loaded: "il_state (ic_lines c ! i) \<noteq> LINE_LOADING"
    and "ic_lineSize c \<noteq> 0" and addr: "address div ic_lineSize c = a"
    and fits: "unat (address mod ic_lineSize c) + unat sz \<le> unat (ic_lineSize c)"
  shows "\<exists>bytes. ic_Read i address sz c = Inr bytes \<and> length bytes = unat sz"
proof -
  obtain s where l: "i < length (ic_lines c)" "il_state (ic_lines c ! i) \<noteq> LINE_EMPTY"
    "selector_Map (ic_selector c) a = Some (il_tag (ic_lines c ! i), s)"
    using inv x by (auto simp: ic_inv_def line_of_def)
  have n: "length (il_data (ic_lines c ! i)) = unat (ic_lineSize c)" using inv l(1) by (auto simp: ic_inv_def)
  have "\<not> ic_lineSize c < address mod ic_lineSize c + sz"
    using fits order_trans [OF mod_less_eq_dividend fits]
    by (simp add: not_less word_le_nat_alt unat_word_ariths)
  moreover have "il_state (ic_lines c ! i) = LINE_FULL \<or> il_state (ic_lines c ! i) = LINE_INVALID"
    using l(2) loaded by (cases "il_state (ic_lines c ! i)") auto
  ultimately show ?thesis using l n assms(4) addr fits
    by (auto simp: ic_Read_def ic_Map_def Let_def)
qed


definition line_example :: icache_line where
  "line_example = \<lparr>il_tag = 0, il_data = [], il_access = 0, il_waiting = \<lparr>tq_head = 0, tq_tail = 0\<rparr>,
     il_references = 0, il_state = LINE_EMPTY, il_creation = False\<rparr>"

definition env_example :: "CyclePhase \<Rightarrow> core_process \<Rightarrow> env" where
  "env_example ph p = \<lparr>en_phase = ph, en_cycle = 7, en_clk = True, en_process = p\<rparr>"

definition data_example :: "u8 list" where
  "data_example = [1, 2, 3, 4, 5, 6, 7, 8]"

text \<open>A fetch for the creation of a family, and its completion.\<close>

definition ops_example :: "ic_op list" where
  "ops_example = [OpAddProcess p_FamilyCreate, OpAddProcess p_ICacheIncoming,
     OpFetch (env_example PHASE_ACQUIRE p_FamilyCreate) 0x44 4 None, OpArbitrate,
     OpFetch (env_example PHASE_COMMIT p_FamilyCreate) 0x44 4 None,
     OpReadCompleted (env_example PHASE_COMMIT (p_Elsewhere 0)) 0x40 data_example, OpUpdate 8,
     OpIncoming (env_example PHASE_ACQUIRE p_ICacheIncoming) True True, OpArbitrate,
     OpIncoming (env_example PHASE_COMMIT p_ICacheIncoming) True True]"

lemma ops_example_run:
  "case ICache_new line_example ''ZERO'' 2 8 1 2 2 of Some (Inr c0) \<Rightarrow> length (ic_lines c0) \<le> INVALID_CID
     \<and> (case ic_run ops_example ([], c0) of Inr (h, c) \<Rightarrow> h = [(0, 8)] \<and> il_state (ic_lines c ! 0) = LINE_FULL
          \<and> ic_Read 0 0x44 4 c = Inr [5, 6, 7, 8] | Inl _ \<Rightarrow> False) | _ \<Rightarrow> False"
  by code_simp

lemma ops_example_ok: "list_all (op_ok 8) ops_example" "length ops_example < 2 ^ 64"
  by (simp_all add: ops_example_def data_example_def)


section \<open>Invalidation while a line is loaded\<close>

text \<open>The comment in \<open>OnMemoryInvalidated\<close> says that a line that is invalidated while it is loaded is cleared after
  it was loaded and used; the handler of the completion makes it a full line instead.\<close>

lemma resume_state:
  "resume_creation ph loaded cid (c, a) = Inr (ok, c', a') \<Longrightarrow> cid < length (ic_lines c) \<Longrightarrow>
   il_state (ic_lines c' ! cid) = il_state (ic_lines c ! cid) \<and> length (ic_lines c') = length (ic_lines c)"
  "resume_threads ph queue cid (c, a) = Inr (ok, c', a') \<Longrightarrow> cid < length (ic_lines c) \<Longrightarrow>
   il_state (ic_lines c' ! cid) = il_state (ic_lines c ! cid) \<and> length (ic_lines c') = length (ic_lines c)"
  by (cases ph; auto simp: resume_creation_def resume_threads_def Let_def res_bind_Inr ic_modify_def split: if_splits)+

lemma ic_DoIncoming_full:
  assumes "ic_DoIncoming e loaded queue (c, a) = Inr (SUCCESS, c', a')" and ph: "en_phase e = PHASE_COMMIT"
    and front: "buffer_Front (ic_incoming c) = Inr cid"
  shows "il_state (ic_lines c' ! cid) = LINE_FULL"
proof -
  obtain sv c1 a1 c2 a2 inc where cid: "cid < length (ic_lines c)"
    and c1: "resume_creation PHASE_COMMIT loaded cid (ic_modify cid (\<lambda>l. l\<lparr>il_state := LINE_FULL\<rparr>) (c\<lparr>ic_service := sv\<rparr>), a)
        = Inr (True, c1, a1)"
    and c2: "resume_threads PHASE_COMMIT queue cid (c1, a1) = Inr (True, c2, a2)" and c': "c' = c2\<lparr>ic_incoming := inc\<rparr>"
    using assms by (auto simp: ic_DoIncoming_def Let_def res_bind_Inr split: if_splits)
  show ?thesis using resume_state(1) [OF c1] resume_state(2) [OF c2] cid c' by (simp add: ic_modify_def)
qed

end
