(* ===== verification/Core_Example.thy ===== *)
theory Core_Example
  imports Core_Initialization ICache_Holds "HOL-Library.Code_Target_Nat"
begin

text \<open>A small core, at which the properties of the allocator and the network are applied.\<close>

definition junk_value :: RegValue where
  "junk_value = \<lparr>rv_state = RST_EMPTY, rv_value = 0, rv_waiting = \<lparr>tq_head = 0, tq_tail = 0\<rparr>,
     rv_memory = \<lparr>mr_next = INVALID_REG, mr_fid = 0, mr_size = 0, mr_offset = 0, mr_sign_extend = False\<rparr>\<rparr>"

definition junk_family :: Family where
  "junk_family = \<lparr>fm_placeSize = 0, fm_numCores = 0, fm_capability = 0, fm_pc = 0, fm_physBlockSize = 0, fm_start = 0,
     fm_step = 0, fm_nThreads = 0, fm_dependencies = \<lparr>fd_allocationDone = False, fd_prevSynchronized = False,
       fd_detached = False, fd_syncSent = False, fd_numThreadsAllocated = 0, fd_numPendingReads = 0\<rparr>,
     fm_link = 0, fm_hasShareds = False, fm_legacy = False, fm_prevCleanedUp = False, fm_broken = False,
     fm_sync_pid = 0, fm_sync_reg = 0, fm_sync_done = False, fm_lastAllocated = 0,
     fm_regs = (\<lambda>_. \<lparr>fri_count = \<lparr>rn_globals = 0, rn_shareds = 0, rn_locals = 0\<rparr>, fri_base = 0, fri_size = 0,
       fri_last_shareds = 0\<rparr>)\<rparr>"

definition junk_thread :: Thread where
  "junk_thread = \<lparr>th_pc = 0, th_regs = (\<lambda>_. \<lparr>tri_locals = 0, tri_dependents = 0, tri_shareds = 0\<rparr>),
     th_dependencies = \<lparr>td_killed = False, td_prevCleanedUp = False, td_numPendingWrites = 0\<rparr>,
     th_nextInBlock = 0, th_cid = 0, th_family = 0, th_waitingForWrites = False, th_index = 0\<rparr>"

definition cache_example :: ICache where
  "cache_example = (case ICache_new line_example ''ZERO'' 2 8 1 2 2 of Some (Inr i) \<Rightarrow> i | _ \<Rightarrow> undefined)"

definition config_example :: core_config where
  "config_example = \<lparr>cfg_bits = \<lparr>pid_bits = 1, fid_bits = 2, tid_bits = 2\<rparr>, cfg_families = 3, cfg_threads = 4,
     cfg_registers = (\<lambda>_. 64), cfg_blocks = (\<lambda>_. 32), cfg_icache = cache_example, cfg_memory = Some virtual_memory_init,
     cfg_bundles = 2, cfg_requests = (\<lambda>_. 2), cfg_loadBalance = 2, cfg_rand = of_nat,
     cfg_junk_value = junk_value, cfg_junk_family = junk_family, cfg_junk_thread = junk_thread,
     cfg_junk_delegate = \<lparr>dm_src = 0, dm_dest = 0, dm_payload = RMSG_NONE\<rparr>, cfg_junk_link = LMSG_DETACH 0,
     cfg_junk_response = \<lparr>ar_completion_pid = 0, ar_completion_reg = 0, ar_prev_fid = 0, ar_next_fid = 0,
       ar_numCores = 0, ar_exact = False\<rparr>\<rparr>"

definition connections_example :: connections where
  "connections_example = \<lparr>cn_fpu = False, cn_io = False, cn_prev = False, cn_next = True, cn_grid = 2\<rparr>"

text \<open>A core of the example, and one on which a family was allocated.\<close>

definition core_example :: "u32 \<Rightarrow> Core" where
  "core_example pid = (case res_bind (Core_new config_example pid) (Core_Initialize connections_example) of
     Inr c \<Rightarrow> c | Inl _ \<Rightarrow> undefined)"

definition env_commit :: "core_process \<Rightarrow> env" where
  "env_commit p = \<lparr>en_phase = PHASE_COMMIT, en_cycle = 7, en_clk = True, en_process = p\<rparr>"

lemma env_commit_simps [simp]:
  "en_phase (env_commit p) = PHASE_COMMIT" "en_cycle (env_commit p) = 7" "en_clk (env_commit p)" "en_process (env_commit p) = p"
  by (simp_all add: env_commit_def)

lemma core_example_parts:
  "co_pid (core_example 1) = 1" "length (co_families (core_example 1)) = 3" "length (co_threads (core_example 1)) = 4"
  by code_simp+

text \<open>A core with sixteen registers of each type, whose ports are granted to the process that allocates threads.\<close>

definition granted_port :: "core_process \<Rightarrow> service" where
  "granted_port p = simple_port_init\<lparr>p_selected := Some p, p_processes := [p]\<rparr>"

definition file_small :: RegisterFile where
  "file_small = \<lparr>rf_files = (\<lambda>_. replicate 16 junk_value), rf_updates = [], rf_activated = False\<rparr>"

definition buffer_small :: "'a buffer" where
  "buffer_small = \<lparr>b_maxSize = 4, b_maxPushes = 4, b_data = [], b_new = [], b_popped = False, b_activated = False,
     b_stalls = 0, b_lastcycle = 0, b_totalsize = 0, b_maxeffsize = 0, b_cursize = 0\<rparr>"

definition list_small :: llist where
  "list_small = llist_init [1, 2, 3, INVALID_TID]"

definition cache_small :: ICache where
  "cache_small = \<lparr>ic_selector = ZeroSelector 1, ic_lines = [], ic_outgoing = buffer_small, ic_incoming = buffer_small,
     ic_lineSize = 8, ic_assoc = 1, ic_numHits = 0, ic_numDelayedReads = 0, ic_numEmptyMisses = 0, ic_numLoadingMisses = 0,
     ic_numInvalidMisses = 0, ic_numHardConflicts = 0, ic_numResolvedConflicts = 0, ic_numStallingMisses = 0,
     ic_service = simple_port_init\<rparr>"

definition core_small :: "core_process \<Rightarrow> Core" where
  "core_small p = \<lparr>co_pid = 1, co_bits = \<lparr>pid_bits = 1, fid_bits = 2, tid_bits = 2\<rparr>,
     co_ft = family_table_init 3, co_families = replicate 3 junk_family,
     co_tt = thread_table_init 4, co_threads = replicate 4 junk_thread,
     co_rf = file_small, co_asyncR = granted_port p,
     co_asyncW = write_port_init\<lparr>w_port := granted_port p, w_chosen := True\<rparr>, co_ra = [], co_icache = cache_small,
     co_memadmin = Some virtual_memory_init, co_pipeline_running = False, co_junk = junk_value, co_rand = of_nat,
     co_rand_pos = 0, co_bundleData = [], co_bundle = buffer_small, co_alloc = buffer_small, co_creates = buffer_small,
     co_cleanup = buffer_small, co_createState = CREATE_INITIAL, co_createLine = 0,
     co_lists = (\<lambda>_. list_small), co_prevReadyList = None, co_allocRequests = (\<lambda>_. buffer_small),
     co_bundleState = BUNDLE_INITIAL, co_lastcycle = 0, co_maxallocex = 0, co_totalallocex = 0, co_curallocex = 0,
     co_numCreatedFamilies = 0, co_numCreatedThreads = 0, co_numThreadsPerState = (\<lambda>_. 0),
     co_p_allocation = granted_port p, co_p_alloc = granted_port p, co_p_readyThreads = granted_port p,
     co_p_activeThreads = granted_port p, co_loadBalanceThreshold = 2, co_numAllocates = 0, co_numCreates = 0,
     co_has_next = True, co_delegateOut = net_register_init \<lparr>dm_src = 0, dm_dest = 0, dm_payload = RMSG_NONE\<rparr>,
     co_delegateIn = net_register_init \<lparr>dm_src = 0, dm_dest = 0, dm_payload = RMSG_NONE\<rparr>,
     co_link_out = net_register_init (LMSG_DETACH 0), co_link_in = net_register_init (LMSG_DETACH 0),
     co_allocResponse_out = net_register_init (cfg_junk_response config_example),
     co_allocResponse_in = net_register_init (cfg_junk_response config_example), co_syncs = buffer_small\<rparr>"

end
