(* ===== verification/Allocator_Distribution.thy ===== *)
theory Allocator_Distribution
  imports Core_Example
begin

text \<open>
  The threads of a family: their number (\<open>Allocator::CalculateThreadCount\<close>) and their distribution over the
  cores of a place (\<open>Allocator::CalculateDistribution\<close>).
\<close>

section \<open>The number of threads\<close>

text \<open>The indices of a family: from \<open>start\<close> by \<open>step\<close> up, or down, to but not including \<open>limit\<close>.\<close>

definition before_limit :: "u64 \<Rightarrow> u64 \<Rightarrow> int \<Rightarrow> bool" where
  "before_limit limit step x \<longleftrightarrow> (if 0 < sint step then x < sint limit else sint limit < x)"

lemma less_div_iff:
  fixes i d s :: int
  assumes "0 < s" "0 \<le> d" "0 \<le> i"
  shows "i < (d + s - 1) div s \<longleftrightarrow> i * s < d"
proof
  assume "i < (d + s - 1) div s"
  then have "i + 1 \<le> (d + s - 1) div s" by simp
  then have "(i + 1) * s \<le> (d + s - 1) div s * s" using assms(1) by (intro mult_right_mono) auto
  also have "\<dots> \<le> d + s - 1" using assms(1) by (metis add.commute div_mult_mod_eq le_add_same_cancel1 pos_mod_sign)
  finally show "i * s < d" by (simp add: algebra_simps)
next
  assume "i * s < d"
  then have "(i + 1) * s \<le> d + s - 1" by (simp add: algebra_simps)
  then have "i + 1 \<le> (d + s - 1) div s"
    using assms(1) zdiv_mono1 [of "(i + 1) * s" "d + s - 1" s] by simp
  then show "i < (d + s - 1) div s" by simp
qed

lemma uint_word_of_int_id:
  assumes "0 \<le> k" "k < 2 ^ 64"
  shows "uint (word_of_int k :: u64) = k"
  using assms by (simp add: uint_word_of_int)

lemma uint_of_signed_diff:
  fixes a b :: u64
  assumes "0 \<le> sint a - sint b"
  shows "uint (a - b) = sint a - sint b"
proof -
  have "a - b = word_of_int (sint a - sint b)" by (simp add: wi_hom_sub [symmetric])
  moreover have "sint a - sint b < 2 ^ 64" using sint_lt [of a] sint_ge [of b] by simp
  ultimately show ?thesis using assms uint_word_of_int_id by presburger
qed

lemma uint_of_positive:
  fixes a :: u64
  assumes "0 \<le> sint a"
  shows "uint a = sint a"
  using assms uint_of_signed_diff [of a 0] by simp

lemma count_word:
  fixes d s :: u64
  assumes "0 < uint s" "uint d + uint s \<le> 2 ^ 64"
  shows "uint ((d + s - 1) div s) = (uint d + uint s - 1) div uint s"
proof -
  have "d + s - 1 = word_of_int (uint d + uint s - 1)"
    by (simp add: wi_hom_sub [symmetric] wi_hom_add [symmetric])
  then have "uint (d + s - 1) = uint d + uint s - 1"
    using assms uint_word_of_int_id [of "uint d + uint s - 1"] uint_ge_0 [of d] by presburger
  then show ?thesis by (simp add: uint_div)
qed

lemma count_iff:
  fixes d s :: u64
  assumes "0 < uint s" "uint d + uint s \<le> 2 ^ 64"
  shows "i < unat ((d + s - 1) div s) \<longleftrightarrow> int i * uint s < uint d"
proof -
  have "i < unat ((d + s - 1) div s) \<longleftrightarrow> int i < uint ((d + s - 1) div s)"
    by (metis of_nat_less_iff uint_nat)
  also have "\<dots> \<longleftrightarrow> int i * uint s < uint d"
    unfolding count_word [OF assms] using assms(1) by (intro less_div_iff) auto
  finally show ?thesis .
qed

lemma thread_count_iff:
  assumes "CalculateThreadCount start limit step = Inr n"
  shows "step \<noteq> 0" "i < unat n \<longleftrightarrow> before_limit limit step (sint start + int i * sint step)"
proof -
  have bounds: "- (2 ^ 63) \<le> sint start" "sint start < 2 ^ 63" "- (2 ^ 63) \<le> sint limit" "sint limit < 2 ^ 63"
    "- (2 ^ 63) \<le> sint step" "sint step < 2 ^ 63"
    using sint_ge [of start] sint_lt [of start] sint_ge [of limit] sint_lt [of limit] sint_ge [of step] sint_lt [of step]
    by simp_all
  show nz: "step \<noteq> 0" using assms by (auto simp: CalculateThreadCount_def)
  show "i < unat n \<longleftrightarrow> before_limit limit step (sint start + int i * sint step)"
  proof (cases "0 < sint step")
    case True
    have s: "uint step = sint step" using True by (intro uint_of_positive) simp
    show ?thesis
    proof (cases "sint start < sint limit")
      case lt: True
      have ok: "signed_ok (sint limit - sint start)" and n: "n = (limit - start + step - 1) div step"
        using assms True lt nz by (auto simp: CalculateThreadCount_def split: if_splits)
      have d: "uint (limit - start) = sint limit - sint start" using lt by (intro uint_of_signed_diff) simp
      have "uint (limit - start) + uint step \<le> 2 ^ 64"
        unfolding d s using ok bounds by (simp add: signed_ok_def)
      then show ?thesis
        using True count_iff [of step "limit - start" i] unfolding n d s by (auto simp: before_limit_def)
    next
      case False
      have n: "n = (0 + step - 1) div step" using assms True False nz by (auto simp: CalculateThreadCount_def)
      have nonneg: "0 \<le> int i * sint step" using True by simp
      have "\<not> i < unat n"
        using True bounds nonneg count_iff [of step 0 i] unfolding n s by (simp add: not_less)
      moreover have "\<not> before_limit limit step (sint start + int i * sint step)"
        using True False add_mono [OF _ nonneg, of "sint limit" "sint start"] unfolding before_limit_def by simp
      ultimately show ?thesis by simp
    qed
  next
    case False
    have "sint step \<noteq> 0" using nz by (metis signed_eq_0_iff)
    then have neg: "sint step < 0" using False by simp
    have ok: "signed_ok (- sint step)" using assms False nz by (auto simp: CalculateThreadCount_def split: if_splits)
    have s: "uint (- step) = - sint step" using uint_of_signed_diff [of 0 step] neg by simp
    show ?thesis
    proof (cases "sint limit < sint start")
      case lt: True
      have ok2: "signed_ok (sint start - sint limit)" and n: "n = (start - limit + (- step) - 1) div (- step)"
        using assms False lt nz ok by (auto simp: CalculateThreadCount_def split: if_splits)
      have d: "uint (start - limit) = sint start - sint limit" using lt by (intro uint_of_signed_diff) simp
      have "uint (start - limit) + uint (- step) \<le> 2 ^ 64"
        unfolding d s using ok ok2 bounds by (simp add: signed_ok_def)
      then show ?thesis
        using neg count_iff [of "- step" "start - limit" i] unfolding n d s by (auto simp: before_limit_def)
    next
      case nlt: False
      have n: "n = (0 + (- step) - 1) div (- step)" using assms False nlt nz ok by (auto simp: CalculateThreadCount_def)
      have "int i * sint step \<le> 0" using neg by (simp add: mult_nonneg_nonpos)
      then show ?thesis
        using neg nlt s ok count_iff [of "- step" 0 i] unfolding n by (auto simp: before_limit_def signed_ok_def)
    qed
  qed
qed

section \<open>The distribution\<close>

lemma signed_of_index:
  fixes start step :: u64
  assumes "- (2 ^ 63) \<le> sint start + int i * sint step" "sint start + int i * sint step < 2 ^ 63"
  shows "sint (start + of_nat i * step) = sint start + int i * sint step"
proof -
  have "start + of_nat i * step = word_of_int (sint start + int i * sint step)"
    by (simp add: wi_hom_add [symmetric] wi_hom_mult [symmetric])
  then show ?thesis
    using assms by (simp only: sint_sbintrunc') (simp add: signed_take_bit_int_eq_self)
qed

lemma index_in_range:
  assumes "CalculateThreadCount start limit step = Inr n" "i < unat n"
  shows "sint (start + of_nat i * step) = sint start + int i * sint step"
proof (rule signed_of_index)
  have bl: "before_limit limit step (sint start + int i * sint step)"
    using thread_count_iff(2) [OF assms(1)] assms(2) by simp
  have nz: "sint step \<noteq> 0" using thread_count_iff(1) [OF assms(1)] by (metis signed_eq_0_iff)
  have bounds: "- (2 ^ 63) \<le> sint start" "sint start < 2 ^ 63" "- (2 ^ 63) \<le> sint limit" "sint limit < 2 ^ 63"
    using sint_ge [of start] sint_lt [of start] sint_ge [of limit] sint_lt [of limit] by simp_all
  define p where "p = int i * sint step"
  have p: "0 < sint step \<Longrightarrow> 0 \<le> p" "sint step < 0 \<Longrightarrow> p \<le> 0"
    by (simp_all add: p_def mult_nonneg_nonpos)
  show "- (2 ^ 63) \<le> sint start + int i * sint step" "sint start + int i * sint step < 2 ^ 63"
    using bl bounds p nz unfolding before_limit_def p_def [symmetric] by (auto split: if_splits)
qed

lemma thread_count_small:
  assumes n: "CalculateThreadCount start limit step = Inr n"
  shows "unat n \<le> 2 ^ 63"
proof (rule ccontr)
  assume "\<not> unat n \<le> 2 ^ 63"
  then have bl: "before_limit limit step (sint start + 2 ^ 63 * sint step)"
    using thread_count_iff(2) [OF n, of "2 ^ 63"] by simp
  have nz: "sint step \<noteq> 0" using thread_count_iff(1) [OF n] by (metis signed_eq_0_iff)
  show False
  proof (cases "0 < sint step")
    case True
    then have "sint start + 2 ^ 63 \<le> sint start + 2 ^ 63 * sint step" by simp
    moreover have "sint start < sint limit \<Longrightarrow> sint limit - sint start < 2 ^ 63"
      using n True by (auto simp: CalculateThreadCount_def signed_ok_def split: if_splits)
    ultimately show False using bl True unfolding before_limit_def by simp
  next
    case False
    then have "sint start + 2 ^ 63 * sint step \<le> sint start - 2 ^ 63" using nz by simp
    moreover have "sint limit < sint start \<Longrightarrow> sint start - sint limit < 2 ^ 63"
      using n False by (auto simp: CalculateThreadCount_def signed_ok_def split: if_splits)
    ultimately show False using bl False unfolding before_limit_def by simp
  qed
qed

lemma unat_ucast_32 [simp]:
  "unat (ucast (x :: u32) :: u64) = unat x"
proof -
  have "unat x < 2 ^ 64" using unsigned_less [of x, where ?'a = nat] by simp
  then show ?thesis by (simp add: unsigned_ucast_eq take_bit_nat_eq_self)
qed

lemma threads_per_core_nat:
  assumes "unat n \<le> 2 ^ 63" "N \<noteq> 0"
  shows "unat (threads_per_core n N) = max 1 ((unat n + unat N - 1) div unat N)"
proof -
  have N: "0 < unat N" "unat N < 2 ^ 32" using assms(2) unsigned_less [of N] by (simp_all add: unat_gt_0)
  have s: "unat (n + ucast N) = unat n + unat N"
    using assms(1) N by (subst unat_add_lem [THEN iffD1]) simp_all
  then have "unat (n + ucast N - 1) = unat n + unat N - 1"
    using N by (subst unat_minus_one) (auto simp: unat_eq_0 [symmetric])
  then have "unat ((n + ucast N - 1) div ucast N) = (unat n + unat N - 1) div unat N"
    by (simp add: unat_div)
  then show ?thesis
    unfolding threads_per_core_def max_def by (auto simp: word_le_nat_alt)
qed

text \<open>The share of the core \<open>k\<close> starts after those of the cores before it.\<close>

definition core_share :: "nat \<Rightarrow> nat \<Rightarrow> nat" where
  "core_share n N = max 1 ((n + N - 1) div N)"

lemma core_share_covers:
  assumes "0 < N"
  shows "n \<le> core_share n N * N" "core_share n N * (N - 1) \<le> n + N"
proof -
  define d where "d = (n + N - 1) div N * N"
  have "n + N - 1 = d + (n + N - 1) mod N" unfolding d_def by simp
  moreover have "(n + N - 1) mod N < N" using assms by simp
  ultimately have d: "n \<le> d" "d \<le> n + N - 1" using assms by linarith+
  then show "n \<le> core_share n N * N"
    unfolding core_share_def d_def by (meson max.cobounded2 mult_le_mono1 order_trans)
  have "(n + N - 1) div N * (N - 1) \<le> d" unfolding d_def by simp
  then have "(n + N - 1) div N * (N - 1) \<le> n + N" using d by linarith
  then show "core_share n N * (N - 1) \<le> n + N"
    unfolding core_share_def max_def by (auto split: if_splits)
qed

lemma threads_skipped_nat:
  assumes n: "unat n \<le> 2 ^ 63" and N: "N \<noteq> 0" and k: "k < unat N"
    and pid: "1 < N \<Longrightarrow> pid mod placeSize = of_nat k"
  shows "unat (threads_skipped pid placeSize n N) = core_share (unat n) (unat N) * k"
proof (cases "1 < N")
  case True
  have N': "0 < unat N" "unat N < 2 ^ 32" using N unsigned_less [of N] by (simp_all add: unat_gt_0)
  have tpc: "unat (threads_per_core n N) = core_share (unat n) (unat N)"
    using threads_per_core_nat [OF n N] by (simp add: core_share_def)
  have uk: "unat (ucast (of_nat k :: u32) :: u64) = k"
    using k N' by (simp add: unat_of_nat)
  have "core_share (unat n) (unat N) * k \<le> core_share (unat n) (unat N) * (unat N - 1)"
    using k by (intro mult_le_mono2) simp
  also have "\<dots> \<le> unat n + unat N" using core_share_covers(2) [OF N'(1)] .
  finally have "core_share (unat n) (unat N) * k < 2 ^ 64" using n N'(2) by simp
  then show ?thesis
    using True pid tpc uk unfolding threads_skipped_def by (simp add: unat_mult_lem [THEN iffD1])
next
  case False
  then have "unat N \<le> 1" by (simp add: word_less_nat_alt)
  then have "k = 0" using k by simp
  then show ?thesis using False by (simp add: threads_skipped_def)
qed

lemma threads_here_nat:
  assumes n: "unat n \<le> 2 ^ 63" and N: "N \<noteq> 0" and k: "k < unat N"
    and pid: "1 < N \<Longrightarrow> pid mod placeSize = of_nat k"
  shows "unat (threads_here pid placeSize n N)
    = min (unat n - core_share (unat n) (unat N) * k) (core_share (unat n) (unat N))"
proof -
  have s: "unat (threads_skipped pid placeSize n N) = core_share (unat n) (unat N) * k"
    by (rule threads_skipped_nat [OF assms]) 
  have t: "unat (threads_per_core n N) = core_share (unat n) (unat N)"
    using threads_per_core_nat [OF n N] by (simp add: core_share_def)
  have d: "unat (max n (threads_skipped pid placeSize n N) - threads_skipped pid placeSize n N)
    = unat n - core_share (unat n) (unat N) * k"
    unfolding max_def by (auto simp: unat_sub s word_le_nat_alt)
  show ?thesis
    unfolding threads_here_def Let_def using d t by (simp add: min_def word_le_nat_alt)
qed

lemma shares_bij:
  assumes "0 < (q :: nat)" "n \<le> q * N"
  shows "bij_betw (\<lambda>(k, j). q * k + j) {(k, j). k < N \<and> j < min (n - q * k) q} {..<n}"
proof (rule bij_betwI')
  fix x y assume "x \<in> {(k, j). k < N \<and> j < min (n - q * k) q}" "y \<in> {(k, j). k < N \<and> j < min (n - q * k) q}"
  then show "((case x of (k, j) \<Rightarrow> q * k + j) = (case y of (k, j) \<Rightarrow> q * k + j)) = (x = y)"
    using assms(1) by (auto dest: arg_cong [of _ _ "\<lambda>i. i div q"] arg_cong [of _ _ "\<lambda>i. i mod q"])
next
  fix x assume "x \<in> {(k, j). k < N \<and> j < min (n - q * k) q}"
  then show "(case x of (k, j) \<Rightarrow> q * k + j) \<in> {..<n}" by auto
next
  fix i assume i: "i \<in> {..<n}"
  then have "i div q < N" using assms less_mult_imp_div_less [of i N q] by (simp add: mult.commute)
  then have "(i div q, i mod q) \<in> {(k, j). k < N \<and> j < min (n - q * k) q}"
    using assms(1) i by (auto simp: minus_mod_eq_mult_div [symmetric] less_diff_conv intro: le_less_trans)
  then show "\<exists>x\<in>{(k, j). k < N \<and> j < min (n - q * k) q}. i = (case x of (k, j) \<Rightarrow> q * k + j)"
    by (intro bexI [of _ "(i div q, i mod q)"]) auto
qed

lemma CalculateDistribution_commit:
  assumes "en_phase e = PHASE_COMMIT" "fid < length (co_families c)"
    and "CalculateDistribution fid n N e c = Inr ((), c')"
  defines "fm \<equiv> co_families c ! fid"
  shows "N \<noteq> 0"
    "fm_start (co_families c' ! fid) = fm_start fm + fm_step fm * threads_skipped (co_pid c) (fm_placeSize fm) n N"
    "fm_step (co_families c' ! fid) = fm_step fm"
    "fm_nThreads (co_families c' ! fid) = threads_here (co_pid c) (fm_placeSize fm) n N"
  using assms by (auto simp: CalculateDistribution_def core_op_defs with_family_def modify_family_def COMMIT_def Let_def
      split: if_splits)

text \<open>
  C1. The threads of a family are created exactly once. The cores of a place hold copies of the family; core \<open>k\<close>
  of the \<open>N\<close> that take part calculates its share of the threads from the number of threads between
  start and limit. Then the threads of all cores together have exactly the logical indices from start to the
  limit by step, each of them once, for steps of either sign, whatever the number of threads and cores: the
  sums and products of the calculation do not wrap. A count that succeeds has a step other than zero.
\<close>

theorem family_distributed:
  fixes C C' :: "nat \<Rightarrow> Core" and fid :: "nat \<Rightarrow> nat"
  assumes count: "CalculateThreadCount start limit step = Inr n"
    and place: "\<And>k. k < unat N \<Longrightarrow> fid k < length (co_families (C k)) \<and>
        fm_start (co_families (C k) ! fid k) = start \<and> fm_step (co_families (C k) ! fid k) = step \<and>
        (1 < N \<longrightarrow> co_pid (C k) mod fm_placeSize (co_families (C k) ! fid k) = of_nat k)"
    and dist: "\<And>k. k < unat N \<Longrightarrow> en_phase (e k) = PHASE_COMMIT \<and>
        CalculateDistribution (fid k) n N (e k) (C k) = Inr ((), C' k)"
    and N: "N \<noteq> 0"
  shows "step \<noteq> 0 \<and>
    bij_betw (\<lambda>(k, j). sint (fm_start (co_families (C' k) ! fid k) + of_nat j * fm_step (co_families (C' k) ! fid k)))
      {(k, j). k < unat N \<and> j < unat (fm_nThreads (co_families (C' k) ! fid k))}
      {x. \<exists>i. x = sint start + int i * sint step \<and> (if 0 < sint step then x < sint limit else sint limit < x)}"
proof
  define q where "q = core_share (unat n) (unat N)"
  have small: "unat n \<le> 2 ^ 63" by (rule thread_count_small [OF count])
  have core: "fm_start (co_families (C' k) ! fid k) + of_nat j * fm_step (co_families (C' k) ! fid k)
        = start + of_nat (q * k + j) * step"
      "unat (fm_nThreads (co_families (C' k) ! fid k)) = min (unat n - q * k) q" if k: "k < unat N" for k j
  proof -
    note c = CalculateDistribution_commit [of "e k" "fid k" "C k" n N "C' k"] 
    note pl = place [OF k] and di = dist [OF k]
    have sk: "threads_skipped (co_pid (C k)) (fm_placeSize (co_families (C k) ! fid k)) n N = of_nat (q * k)"
      using threads_skipped_nat [OF small N k, of "co_pid (C k)"] pl
      by (metis q_def of_nat_unat ucast_id)
    show "fm_start (co_families (C' k) ! fid k) + of_nat j * fm_step (co_families (C' k) ! fid k)
        = start + of_nat (q * k + j) * step"
      using c(2,3) pl di sk by (simp add: algebra_simps)
    show "unat (fm_nThreads (co_families (C' k) ! fid k)) = min (unat n - q * k) q"
      using c(4) pl di threads_here_nat [OF small N k, of "co_pid (C k)"] by (simp add: q_def)
  qed
  have q: "0 < q" "unat n \<le> q * unat N"
    using core_share_covers(1) [of "unat N" "unat n"] N by (simp_all add: q_def core_share_def unat_gt_0)
  have pairs: "{(k, j). k < unat N \<and> j < unat (fm_nThreads (co_families (C' k) ! fid k))}
      = {(k, j). k < unat N \<and> j < min (unat n - q * k) q}"
    using core(2) by auto
  let ?index = "\<lambda>i. sint start + int i * sint step"
  have index: "sint (start + of_nat i * step) = ?index i" if "i < unat n" for i
    using index_in_range [OF count that] .
  have nz: "step \<noteq> 0" "sint step \<noteq> 0" using thread_count_iff(1) [OF count] by (simp, metis signed_eq_0_iff)
  show "step \<noteq> 0" by (rule nz(1))
  have "inj_on ?index {..<unat n}" using nz(2) by (auto simp: inj_on_def)
  moreover have "{..<unat n} = {i. before_limit limit step (?index i)}"
    using thread_count_iff(2) [OF count] by blast
  then have "?index ` {..<unat n} = {x. \<exists>i. x = ?index i \<and> before_limit limit step x}" by blast
  then have "?index ` {..<unat n} = {x. \<exists>i. x = ?index i \<and> (if 0 < sint step then x < sint limit else sint limit < x)}"
    unfolding before_limit_def .
  ultimately have "bij_betw ?index {..<unat n}
      {x. \<exists>i. x = ?index i \<and> (if 0 < sint step then x < sint limit else sint limit < x)}"
    by (simp add: bij_betw_def)
  from bij_betw_trans [OF shares_bij [OF q] this]
  show "bij_betw (\<lambda>(k, j). sint (fm_start (co_families (C' k) ! fid k) + of_nat j * fm_step (co_families (C' k) ! fid k)))
      {(k, j). k < unat N \<and> j < unat (fm_nThreads (co_families (C' k) ! fid k))}
      {x. \<exists>i. x = ?index i \<and> (if 0 < sint step then x < sint limit else sint limit < x)}"
    unfolding pairs
    by (rule bij_betw_cong [THEN iffD1, rotated]) (auto simp: core(1) index simp del: of_nat_add of_nat_mult)
qed

text \<open>Five threads, with the indices 10, 8, 6, 4 and 2, on two cores.\<close>

definition family_example :: Family where
  "family_example = junk_family\<lparr>fm_start := 10, fm_step := -2, fm_placeSize := 2, fm_physBlockSize := 2\<rparr>"

definition place_before :: "nat \<Rightarrow> Core" where
  "place_before k = (core_example 0)\<lparr>co_pid := of_nat k, co_families := [family_example]\<rparr>"

definition place_after :: "nat \<Rightarrow> Core" where
  "place_after k = (place_before k)\<lparr>co_families := [family_example\<lparr>fm_start := (if k = 0 then 10 else 4),
     fm_nThreads := (if k = 0 then 3 else 2)\<rparr>]\<rparr>"

lemma place_example:
  assumes "k < 2"
  shows "CalculateDistribution 0 5 2 (env_commit p_FamilyCreate) (place_before k) = Inr ((), place_after k)"
proof -
  have "k = 0 \<or> k = 1" using assms by auto
  then show ?thesis
    by (auto simp: CalculateDistribution_def core_op_defs with_family_def modify_family_def COMMIT_def Let_def
        place_before_def place_after_def family_example_def junk_family_def
        threads_skipped_def threads_here_def threads_per_core_def)
qed

lemma place_before_fields:
  "k < 2 \<Longrightarrow> 0 < length (co_families (place_before k)) \<and> fm_start (co_families (place_before k) ! 0) = 10
     \<and> fm_step (co_families (place_before k) ! 0) = -2
     \<and> co_pid (place_before k) mod fm_placeSize (co_families (place_before k) ! 0) = of_nat k"
  by (auto simp: place_before_def family_example_def less_2_cases_iff)

lemma count_example: "CalculateThreadCount 10 0 (-2) = Inr 5"
  by (simp add: CalculateThreadCount_def signed_ok_def)

theorem family_distributed_witness:
  "bij_betw (\<lambda>(k, j). sint (fm_start (co_families (place_after k) ! 0) + of_nat j * fm_step (co_families (place_after k) ! 0)))
     {(k, j). k < unat (2 :: u32) \<and> j < unat (fm_nThreads (co_families (place_after k) ! 0))}
     {x. \<exists>i. x = sint (10 :: u64) + int i * sint (-2 :: u64)
        \<and> (if 0 < sint (-2 :: u64) then x < sint (0 :: u64) else sint (0 :: u64) < x)}"
proof -
  have k: "(k :: nat) < unat (2 :: u32) \<longleftrightarrow> k < 2" for k by simp
  show ?thesis
    by (rule family_distributed [of 10 0 "-2" 5 2 "\<lambda>_. 0" place_before "\<lambda>_. env_commit p_FamilyCreate" place_after,
          OF count_example, THEN conjunct2])
       (use place_before_fields in \<open>auto simp: k place_example\<close>)
qed

end
