(* ===== verification/Core_Frame.thy ===== *)
theory Core_Frame
  imports Allocator_Create
begin

text \<open>
  Reasoning about the operations of a core: what an operation leaves as it is, by rules for the
  combinators it is composed of, and the steps that a run that returns has gone through.
\<close>

lemma res_bind_InrE:
  assumes "res_bind m f = Inr y"
  obtains x where "m = Inr x" "f x = Inr y"
  using assms by (auto simp: res_bind_Inr)

section \<open>What an operation keeps\<close>

text \<open>\<open>keeps f m\<close>: whenever the operation \<open>m\<close> returns, in any phase, it has not changed the part \<open>f\<close> of the
  state. The rules are used as introduction rules.\<close>

definition keeps :: "(Core \<Rightarrow> 's) \<Rightarrow> 'a core_op \<Rightarrow> bool" where
  "keeps f m \<longleftrightarrow> (\<forall>e c x c'. m e c = Inr (x, c') \<longrightarrow> f c' = f c)"

named_theorems keeps_rules \<open>operations that keep a part of the state\<close>

lemma keepsD: "keeps f m \<Longrightarrow> m e c = Inr (x, c') \<Longrightarrow> f c' = f c"
  by (auto simp: keeps_def)

lemma keeps_ret [keeps_rules]: "keeps f (ret x)"
  by (simp add: keeps_def ret_def)

lemma keeps_raise_error [keeps_rules]: "keeps f (raise_error x)"
  by (simp add: keeps_def raise_error_def)

lemma keeps_bnd [keeps_rules]: "keeps f m \<Longrightarrow> (\<And>x. keeps f (g x)) \<Longrightarrow> keeps f (bnd m g)"
  unfolding keeps_def bnd_def by (fastforce elim!: res_bind_InrE split: prod.splits)

lemma keeps_get_core [keeps_rules]: "(\<And>c. keeps f (g c)) \<Longrightarrow> keeps f (get_core g)"
  by (auto simp: keeps_def get_core_def)

lemma keeps_get_env [keeps_rules]: "(\<And>e. keeps f (g e)) \<Longrightarrow> keeps f (get_env g)"
  by (auto simp: keeps_def get_env_def)

lemma keeps_commit [keeps_rules]: "(\<And>c. f (h c) = f c) \<Longrightarrow> keeps f k \<Longrightarrow> keeps f (commit h k)"
  by (auto simp: keeps_def commit_def COMMIT_def split: if_splits)

lemma keeps_set_core [keeps_rules]: "(\<And>c. f (h c) = f c) \<Longrightarrow> keeps f k \<Longrightarrow> keeps f (set_core h k)"
  by (auto simp: keeps_def set_core_def)

lemma keeps_check [keeps_rules]: "keeps f k \<Longrightarrow> keeps f (check b k)"
  by (auto simp: keeps_def check_def assert_that_def split: if_splits)

lemma keeps_defined [keeps_rules]: "keeps f k \<Longrightarrow> keeps f (defined b k)"
  by (auto simp: keeps_def defined_def split: if_splits)

lemma keeps_liftr [keeps_rules]: "keeps f (liftr r)"
  by (auto simp: keeps_def liftr_def elim!: res_bind_InrE)

lemma keeps_or_return [keeps_rules]: "keeps f m \<Longrightarrow> keeps f k \<Longrightarrow> keeps f (or_return m v k)"
  unfolding or_return_def by (intro keeps_rules) (simp_all add: keeps_ret)

lemma keeps_if [keeps_rules]: "keeps f m \<Longrightarrow> keeps f n \<Longrightarrow> keeps f (if b then m else n)"
  by simp

lemma keeps_option [keeps_rules]: "keeps f m \<Longrightarrow> (\<And>x. keeps f (n x)) \<Longrightarrow> keeps f (case z of None \<Rightarrow> m | Some x \<Rightarrow> n x)"
  by (cases z) simp_all

lemma keeps_Let [keeps_rules]: "(\<And>x. keeps f (g x)) \<Longrightarrow> keeps f (Let a g)"
  by simp

lemma keeps_with_family [keeps_rules]: "(\<And>fm. keeps f (g fm)) \<Longrightarrow> keeps f (with_family fid g)"
  unfolding with_family_def by (intro keeps_rules)

lemma keeps_with_thread [keeps_rules]: "(\<And>th. keeps f (g th)) \<Longrightarrow> keeps f (with_thread tid g)"
  unfolding with_thread_def by (intro keeps_rules)

lemma keeps_on_part [keeps_rules]: "(\<And>s c. f (put s c) = f c) \<Longrightarrow> keeps f (on_part get put op)"
  by (auto simp: keeps_def on_part_def elim!: res_bind_InrE)

section \<open>Runs that return\<close>

lemma bnd_InrE:
  assumes "bnd m f e c = Inr (x, c')"
  obtains y c1 where "m e c = Inr (y, c1)" "f y e c1 = Inr (x, c')"
  using assms by (auto simp: bnd_def elim!: res_bind_InrE)

lemma or_return_TrueE:
  assumes "or_return m False k e c = Inr (True, c')"
  obtains c1 where "m e c = Inr (True, c1)" "k e c1 = Inr (True, c')"
  using assms by (auto simp: or_return_def ret_def elim!: bnd_InrE split: if_splits)

lemma check_InrE:
  assumes "check b k e c = Inr r"
  obtains b "k e c = Inr r"
  using assms by (auto simp: check_def assert_that_def split: if_splits)

lemma defined_InrE:
  assumes "defined b k e c = Inr r"
  obtains b "k e c = Inr r"
  using assms by (auto simp: defined_def split: if_splits)

lemma with_family_InrE:
  assumes "with_family fid f e c = Inr r"
  obtains "fid < length (co_families c)" "f (co_families c ! fid) e c = Inr r"
  using assms by (auto simp: with_family_def get_core_def elim!: defined_InrE)

lemma with_thread_InrE:
  assumes "with_thread tid f e c = Inr r"
  obtains "tid < length (co_threads c)" "f (co_threads c ! tid) e c = Inr r"
  using assms by (auto simp: with_thread_def get_core_def elim!: defined_InrE)

lemma commit_in_commit: "en_phase e = PHASE_COMMIT \<Longrightarrow> commit f k e c = k e (f c)"
  by (simp add: commit_def COMMIT_def)

lemma get_core_apply: "get_core f e c = f c e c"
  by (simp add: get_core_def)

lemma get_env_apply: "get_env f e c = f e e c"
  by (simp add: get_env_def)

lemma ret_apply: "ret x e c = Inr (x, c)"
  by (simp add: ret_def)

lemma liftr_InrE:
  assumes "liftr r e c = Inr (x, c')"
  obtains "r = Inr x" "c' = c"
  using assms by (auto simp: liftr_def elim!: res_bind_InrE)

lemma on_part_InrE:
  assumes "on_part get put f e c = Inr (x, c')"
  obtains s where "f e (get c) = Inr (x, s)" "c' = put s c"
  using assms by (auto simp: on_part_def elim!: res_bind_InrE)

section \<open>Families and threads\<close>

lemma modify_family_simps [simp]:
  "length (co_families (modify_family fid f c)) = length (co_families c)"
  "co_threads (modify_family fid f c) = co_threads c" "co_ft (modify_family fid f c) = co_ft c"
  "co_tt (modify_family fid f c) = co_tt c" "co_pid (modify_family fid f c) = co_pid c"
  "fid < length (co_families c) \<Longrightarrow> co_families (modify_family fid f c) ! fid = f (co_families c ! fid)"
  "g \<noteq> fid \<Longrightarrow> co_families (modify_family fid f c) ! g = co_families c ! g"
  by (simp_all add: modify_family_def)

lemma modify_thread_simps [simp]:
  "length (co_threads (modify_thread tid f c)) = length (co_threads c)"
  "co_families (modify_thread tid f c) = co_families c" "co_ft (modify_thread tid f c) = co_ft c"
  "co_tt (modify_thread tid f c) = co_tt c" "co_pid (modify_thread tid f c) = co_pid c"
  "tid < length (co_threads c) \<Longrightarrow> co_threads (modify_thread tid f c) ! tid = f (co_threads c ! tid)"
  "t \<noteq> tid \<Longrightarrow> co_threads (modify_thread tid f c) ! t = co_threads c ! t"
  by (simp_all add: modify_thread_def)

lemma set_state_simps [simp]:
  "co_families (set_family_state fid st c) = co_families c" "co_threads (set_family_state fid st c) = co_threads c"
  "co_families (set_thread_state tid ts c) = co_families c" "co_threads (set_thread_state tid ts c) = co_threads c"
  "co_families (set_thread_next tid n c) = co_families c" "co_threads (set_thread_next tid n c) = co_threads c"
  "co_ft (set_thread_state tid ts c) = co_ft c" "co_ft (set_thread_next tid n c) = co_ft c"
  by (simp_all add: set_family_state_def set_thread_state_def set_thread_next_def)

text \<open>The part of the state that the operations on queues, registers, memory and messages leave alone.\<close>

definition tables :: "Core \<Rightarrow> Thread list \<times> Family list" where
  "tables c = (co_threads c, co_families c)"

lemma mark_chain_tables:
  "mark_chain n st cur tail count c = Some (Inr (k, c')) \<Longrightarrow> tables c' = tables c"
proof (induction n arbitrary: cur count c)
  case (Suc n)
  then show ?case
    by (fastforce simp: Let_def tables_def split: if_splits)
qed simp

lemma keeps_QueueThreads [keeps_rules]: "keeps tables (QueueThreads k q st)"
proof -
  have "keeps tables (\<lambda>e c. if en_phase e' = PHASE_COMMIT then mark_threads st q c else Inr ((), c))" for e'
    unfolding keeps_def mark_threads_def
    by (auto split: if_splits option.splits elim!: res_bind_InrE dest!: mark_chain_tables simp: tables_def
        simp del: mark_chain.simps)
  then show ?thesis
    unfolding QueueThreads_def on_list_def by (intro keeps_rules) (simp_all add: tables_def)
qed

lemma keeps_QueueActiveThreads [keeps_rules]: "keeps tables (QueueActiveThreads q)"
  unfolding QueueActiveThreads_def invoke_def by (intro keeps_rules) (simp_all add: tables_def)

lemma keeps_ActivateThreads [keeps_rules]: "keeps tables (ActivateThreads q)"
  unfolding ActivateThreads_def invoke_def by (intro keeps_rules) (simp_all add: tables_def)

lemma keeps_write_register [keeps_rules]: "keeps tables (write_register addr v m)"
proof -
  have "tables c' = tables c" if run: "write_register addr v m e c = Inr (ok, c')" for e c ok c'
  proof -
    obtain r where r: "WriteRegister (en_phase e) (\<lambda>q c. ActivateThreads q e c) addr v m (co_rf c, c) = Inr r"
      "(case r of (ok, rf, c) \<Rightarrow> (Inr (ok, c\<lparr>co_rf := rf\<rparr>) :: (bool \<times> Core) res)) = Inr (ok, c')"
      using run unfolding write_register_def res_bind_Inr by (elim exE conjE) (rule that)
    obtain rf a where w: "WriteRegister (en_phase e) (\<lambda>q c. ActivateThreads q e c) addr v m (co_rf c, c) = Inr (ok, rf, a)"
      and c': "c' = a\<lparr>co_rf := rf\<rparr>"
      using r by (cases r) auto
    from w have "tables a = tables c"
      by (auto simp: WriteRegister_def assert_that_def Let_def split: if_splits elim!: res_bind_InrE
          dest: keepsD [OF keeps_ActivateThreads])
    then show ?thesis by (simp add: c' tables_def)
  qed
  then show ?thesis by (auto simp: keeps_def)
qed

lemma keeps_read_register [keeps_rules]: "keeps f (read_register addr)"
  unfolding read_register_def by (intro keeps_rules)

lemma keeps_clear_registers [keeps_rules]: "keeps tables (clear_registers addr n)"
  unfolding clear_registers_def by (intro keeps_rules) (simp_all add: tables_def)

lemma keeps_asyncW [keeps_rules]: "keeps tables (asyncW_Write addr)"
  unfolding asyncW_Write_def by (intro keeps_rules) (simp_all add: tables_def)

lemma keeps_buffer_push: "(\<And>b c. f (put b c) = f c) \<Longrightarrow> keeps f (buffer_push get put x)"
  unfolding buffer_push_def by (intro keeps_rules)

lemma keeps_buffer_pop: "(\<And>b c. f (put b c) = f c) \<Longrightarrow> keeps f (buffer_pop get put)"
  unfolding buffer_pop_def by (intro keeps_rules)

lemma keeps_invoke: "(\<And>b c. f (put b c) = f c) \<Longrightarrow> keeps f (invoke get put)"
  unfolding invoke_def by (intro keeps_rules)

lemma keeps_write_index [keeps_rules]: "keeps tables (write_index l i)"
  unfolding write_index_def by (intro keeps_rules)

lemma keeps_on_memory [keeps_rules]: "keeps tables (on_memory f)"
  unfolding keeps_def on_memory_def by (auto split: if_splits elim!: res_bind_InrE simp: tables_def)

lemma keeps_map_tls [keeps_rules]: "keeps tables (map_tls tid)"
  unfolding map_tls_def by (intro keeps_rules)

lemma keeps_unmap_tls [keeps_rules]: "keeps tables (unmap_tls tid)"
  unfolding unmap_tls_def by (intro keeps_rules)

lemma keeps_SendLink [keeps_rules]: "keeps tables (SendLink m)"
  unfolding SendLink_def by (intro keeps_rules) (simp_all add: tables_def)

lemma keeps_SendMessage [keeps_rules]: "keeps tables (SendMessage m)"
  unfolding SendMessage_def by (intro keeps_rules) (simp_all add: tables_def)

lemma keeps_SendSync [keeps_rules]: "keeps tables (SendSync m)"
  unfolding SendSync_def by (intro keeps_rules keeps_buffer_push) (simp_all add: tables_def)

end
