(* ===== verification/Allocator_Windows.thy ===== *)
theory Allocator_Windows
  imports Core_Frame Core_Example
begin

text \<open>
  The register windows of the threads of a family. \<open>Allocator::AllocateThread\<close> gives a thread its locals and
  links it to the thread before it: what one thread calls its shareds, the next one calls its
  dependents. This theory follows any sequence of allocations, in which slots are used again.
\<close>

section \<open>What an allocation changes\<close>

definition family_view :: "Family \<Rightarrow> (RegType \<Rightarrow> FamilyRegInfo) \<times> u32 \<times> u32" where
  "family_view fm = (fm_regs fm, fm_physBlockSize fm, fd_numThreadsAllocated (fm_dependencies fm))"

definition windows :: "Core \<Rightarrow> (RegType \<Rightarrow> ThreadRegInfo) list \<times> ((RegType \<Rightarrow> FamilyRegInfo) \<times> u32 \<times> u32) list" where
  "windows c = (map th_regs (co_threads c), map family_view (co_families c))"

lemma keeps_windows: "keeps tables m \<Longrightarrow> keeps windows m"
  unfolding keeps_def tables_def windows_def by simp

lemma view_update_same:
  "(map family_view fs)[fid := family_view (fs ! fid)] = map family_view fs"
  by (metis length_map linorder_not_less list_update_beyond list_update_id nth_map)

lemma windows_modify_family:
  assumes "\<And>fm. family_view (f fm) = family_view fm"
  shows "windows (modify_family fid f c) = windows c"
  by (simp add: windows_def modify_family_def map_update assms view_update_same)

lemma keeps_family_synchronized: "keeps windows (family_synchronized fid fm)"
  unfolding family_synchronized_def
  by (intro keeps_rules windows_modify_family keeps_windows keeps_SendLink keeps_SendSync) (simp add: family_view_def)

lemma keeps_family_release: "keeps windows (family_release fid fm)"
  unfolding family_release_def by (intro keeps_rules) (simp_all add: windows_def)

lemma dependency_count:
  assumes "family_dependency dep d = Inr d'" "dep \<noteq> FAMDEP_THREAD_COUNT"
  shows "fd_numThreadsAllocated d' = fd_numThreadsAllocated d"
  using assms by (cases dep) (auto simp: family_dependency_def assert_that_def split: if_splits)

lemma windows_set_deps:
  assumes "fd_numThreadsAllocated d = fd_numThreadsAllocated (fm_dependencies (co_families c ! fid))"
  shows "windows (modify_deps fid (\<lambda>_. d) c) = windows c"
  using view_update_same [of "co_families c" fid]
  by (simp add: windows_def modify_deps_def modify_family_def map_update family_view_def assms)

lemma keeps_DecreaseFamilyDependency:
  assumes "dep \<noteq> FAMDEP_THREAD_COUNT"
  shows "keeps windows (DecreaseFamilyDependency fid dep)"
proof -
  have "windows c' = windows c" if op: "DecreaseFamilyDependency fid dep e c = Inr (x, c')" for e c x c'
  proof -
    let ?rest = "\<lambda>d. let counts = (dep \<in> {FAMDEP_THREAD_COUNT, FAMDEP_ALLOCATION_DONE});
            syncs = (counts \<or> dep \<in> {FAMDEP_PREV_SYNCHRONIZED, FAMDEP_OUTSTANDING_READS})
        in commit (if counts \<and> deps_terminated d then set_family_state fid FST_TERMINATED else (\<lambda>c. c))
          (or_return (if syncs \<and> deps_synchronized d then family_synchronized fid (co_families c ! fid) else ret True) False
            (if deps_released d then family_release fid (co_families c ! fid) else ret True))"
    obtain d where d: "family_dependency dep (fm_dependencies (co_families c ! fid)) = Inr d"
      and run: "commit (modify_deps fid (\<lambda>_. d)) (?rest d) e c = Inr (x, c')"
      using op unfolding DecreaseFamilyDependency_def get_core_def
      by (auto elim!: with_family_InrE bnd_InrE liftr_InrE check_InrE)
    have rest: "keeps windows (?rest d)"
      by (intro keeps_rules keeps_family_synchronized keeps_family_release) (simp add: windows_def set_family_state_def)
    have "windows (modify_deps fid (\<lambda>_. d) c) = windows c"
      by (rule windows_set_deps) (rule dependency_count [OF d assms])
    then show ?thesis
      using run keepsD [OF rest] by (auto simp: commit_def COMMIT_def split: if_splits)
  qed
  then show ?thesis by (auto simp: keeps_def)
qed

lemma windows_nth:
  assumes "windows c' = windows c"
  shows "length (co_threads c') = length (co_threads c)" "length (co_families c') = length (co_families c)"
    "t < length (co_threads c) \<Longrightarrow> th_regs (co_threads c' ! t) = th_regs (co_threads c ! t)"
    "f < length (co_families c) \<Longrightarrow> family_view (co_families c' ! f) = family_view (co_families c ! f)"
  using assms unfolding windows_def
  by (auto dest: map_eq_imp_length_eq) (metis nth_map map_eq_imp_length_eq)+

lemma modify_thread_regs:
  assumes "\<And>th. th_regs (f th) = th_regs th"
  shows "th_regs (co_threads (modify_thread a f c) ! t) = th_regs (co_threads c ! t)"
  using assms by (cases "a < length (co_threads c)"; cases "a = t") (auto simp: modify_thread_def list_update_beyond)

text \<open>An allocation that succeeds, in the commit phase: the registers of the thread are those of \<open>thread_regs\<close>,
  its shareds become the last shareds of the family, and other threads keep their registers.\<close>

lemma AllocateThread_windows:
  assumes commit: "en_phase e = PHASE_COMMIT" and run: "AllocateThread fid tid isNew e c = Inr (True, c')"
  defines "fm \<equiv> co_families c ! fid" and "fm' \<equiv> co_families c' ! fid"
  defines "k \<equiv> fd_numThreadsAllocated (fm_dependencies fm)"
  defines "regs \<equiv> \<lambda>t. thread_regs isNew k (fm_regs fm t) (th_regs (co_threads c ! tid) t)"
  shows "fid < length (co_families c)" "tid < length (co_threads c)"
    "length (co_threads c') = length (co_threads c)" "length (co_families c') = length (co_families c)"
    "isNew \<Longrightarrow> k < fm_physBlockSize fm"
    "th_regs (co_threads c' ! tid) = regs"
    "t \<noteq> tid \<Longrightarrow> t < length (co_threads c) \<Longrightarrow> th_regs (co_threads c' ! t) = th_regs (co_threads c ! t)"
    "fm_regs fm' = (\<lambda>t. (fm_regs fm t)\<lparr>fri_last_shareds := tri_shareds (regs t)\<rparr>)"
    "fd_numThreadsAllocated (fm_dependencies fm') = (if isNew then k + 1 else k)"
    "fm_physBlockSize fm' = fm_physBlockSize fm"
proof -
  note commit_simp = commit_in_commit [OF commit]
  show fid: "fid < length (co_families c)" and tid: "tid < length (co_threads c)"
    using run unfolding AllocateThread_def by (auto elim!: with_family_InrE with_thread_InrE)
  define last where "last = fm_lastAllocated fm"
  define c1 where "c1 = modify_family fid (\<lambda>fm. fm\<lparr>fm_prevCleanedUp := False\<rparr>)
    (set_thread_next tid INVALID_TID (modify_thread tid (initial_thread fid fm) c))"
  define c2 where "c2 = (if last \<noteq> INVALID_TID then modify_thread last (\<lambda>th. th\<lparr>th_nextInBlock := tid\<rparr>) else (\<lambda>c. c)) c1"
  define c3 where "c3 = modify_family fid (\<lambda>fm. fm\<lparr>fm_regs := (\<lambda>t. (fm_regs fm t)\<lparr>fri_last_shareds := tri_shareds (regs t)\<rparr>)\<rparr>)
    (modify_thread tid (\<lambda>th. th\<lparr>th_regs := regs\<rparr>) c2)"
  obtain c4 c5 where c4: "map_tls tid e c3 = Inr ((), c4)"
    and c5: "(if 0 < rn_locals (fri_count (fm_regs fm RT_INTEGER))
              then write_index (tri_locals (regs RT_INTEGER)) (fm_start fm) else ret True) e c4 = Inr (True, c5)"
    and new: "isNew \<longrightarrow> k < fm_physBlockSize fm"
    and c6: "or_return (if fm_nThreads fm = 1 then DecreaseFamilyDependency fid FAMDEP_ALLOCATION_DONE else ret True) False
      (or_return (ActivateThreads \<lparr>tq_head = tid, tq_tail = tid\<rparr>) False
        (commit (\<lambda>c. c\<lparr>co_numCreatedThreads := co_numCreatedThreads c + 1\<rparr>) (ret True)))
      e (modify_family fid (family_next isNew tid) c5) = Inr (True, c')"
    using run unfolding AllocateThread_def
    apply (elim with_family_InrE with_thread_InrE)
    apply (simp only: get_env_apply commit_simp get_core_apply Let_def fm_def [symmetric])
    apply (elim check_InrE)
    apply (simp only: get_env_apply commit_simp get_core_apply Let_def fm_def [symmetric] k_def [symmetric])
    apply (elim defined_InrE)
    apply (simp only: commit_simp)
    apply (elim bnd_InrE or_return_TrueE check_InrE defined_InrE)
    apply (simp only: commit_simp c1_def c2_def c3_def regs_def last_def)
    apply auto
    done
  have w5: "windows c5 = windows c3"
    using keepsD [OF keeps_windows [OF keeps_map_tls] c4] c5
      keepsD [OF keeps_windows [OF keeps_write_index]]
    by (auto simp: ret_def split: if_splits)
  have w6: "windows c' = windows (modify_family fid (family_next isNew tid) c5)"
  proof -
    have "keeps windows (or_return (if fm_nThreads fm = 1 then DecreaseFamilyDependency fid FAMDEP_ALLOCATION_DONE else ret True) False
      (or_return (ActivateThreads \<lparr>tq_head = tid, tq_tail = tid\<rparr>) False
        (commit (\<lambda>c. c\<lparr>co_numCreatedThreads := co_numCreatedThreads c + 1\<rparr>) (ret True))))"
      by (intro keeps_rules keeps_DecreaseFamilyDependency keeps_windows [OF keeps_ActivateThreads])
         (simp_all add: windows_def)
    then show ?thesis using c6 by (rule keepsD)
  qed
  have len: "length (co_threads c3) = length (co_threads c)" "length (co_families c3) = length (co_families c)"
    by (simp_all add: c3_def c2_def c1_def)
  note n5 = windows_nth [OF w5] and n6 = windows_nth [OF w6]
  show "length (co_threads c') = length (co_threads c)" "length (co_families c') = length (co_families c)"
    using n5(1,2) n6(1,2) len by simp_all
  show "isNew \<Longrightarrow> k < fm_physBlockSize fm" using new by simp
  have tid3: "tid < length (co_threads c2)" using tid by (simp add: c2_def c1_def)
  have threads3: "th_regs (co_threads c3 ! tid) = regs"
    "t \<noteq> tid \<Longrightarrow> th_regs (co_threads c3 ! t) = th_regs (co_threads c ! t)" for t
    using tid3 by (auto simp: c3_def c2_def c1_def modify_thread_regs)
  show "th_regs (co_threads c' ! tid) = regs"
    "t \<noteq> tid \<Longrightarrow> t < length (co_threads c) \<Longrightarrow> th_regs (co_threads c' ! t) = th_regs (co_threads c ! t)"
    using n5 n6 len threads3 tid by simp_all
  have fid5: "fid < length (co_families c5)" using n5(2) len fid by simp
  have "family_view (co_families c3 ! fid)
      = (\<lambda>t. (fm_regs fm t)\<lparr>fri_last_shareds := tri_shareds (regs t)\<rparr>, fm_physBlockSize fm, k)"
    using fid by (simp add: c3_def c2_def c1_def family_view_def fm_def k_def)
  then have f5: "family_view (co_families c5 ! fid)
      = (\<lambda>t. (fm_regs fm t)\<lparr>fri_last_shareds := tri_shareds (regs t)\<rparr>, fm_physBlockSize fm, k)"
    using n5(4) len fid by simp
  have "family_view fm' = family_view (family_next isNew tid (co_families c5 ! fid))"
    using n6(4) [of fid] fid5 by (simp add: fm'_def)
  then have "family_view fm' = (\<lambda>t. (fm_regs fm t)\<lparr>fri_last_shareds := tri_shareds (regs t)\<rparr>, fm_physBlockSize fm,
      if isNew then k + 1 else k)"
    using f5 by (simp add: family_view_def family_next_def)
  then show "fm_regs fm' = (\<lambda>t. (fm_regs fm t)\<lparr>fri_last_shareds := tri_shareds (regs t)\<rparr>)"
    "fd_numThreadsAllocated (fm_dependencies fm') = (if isNew then k + 1 else k)"
    "fm_physBlockSize fm' = fm_physBlockSize fm"
    by (simp_all add: family_view_def)
qed

section \<open>Runs of allocations\<close>

text \<open>
  The allocations of a family from the moment its registers were allocated, and the threads in the order
  of their allocation. A thread gets a new slot, or the slot of the thread that was allocated first: a
  thread that reads the shareds of its predecessor is cleaned up after it. When the threads share
  nothing they end in any order. In between anything may happen that leaves the registers of the
  threads and of the family alone.
\<close>

inductive block_run :: "nat \<Rightarrow> Core \<Rightarrow> Core \<Rightarrow> nat list \<Rightarrow> bool" for fid c0 where
  start: "block_run fid c0 c0 []"
| new: "block_run fid c0 c live \<Longrightarrow> en_phase e = PHASE_COMMIT \<Longrightarrow> tid \<notin> set live
    \<Longrightarrow> AllocateThread fid tid True e c = Inr (True, c') \<Longrightarrow> block_run fid c0 c' (live @ [tid])"
| again: "block_run fid c0 c (xs @ tid # ys) \<Longrightarrow> en_phase e = PHASE_COMMIT
    \<Longrightarrow> xs = [] \<or> (\<forall>t. rn_shareds (fri_count (fm_regs (co_families c0 ! fid) t)) = 0)
    \<Longrightarrow> AllocateThread fid tid False e c = Inr (True, c') \<Longrightarrow> block_run fid c0 c' (xs @ ys @ [tid])"
| other: "block_run fid c0 c live
    \<Longrightarrow> (\<And>t. t \<in> set live \<Longrightarrow> t < length (co_threads c') \<and> th_regs (co_threads c' ! t) = th_regs (co_threads c ! t))
    \<Longrightarrow> family_view (co_families c' ! fid) = family_view (co_families c ! fid) \<Longrightarrow> block_run fid c0 c' live"

text \<open>The block of a family is a row of windows for shareds with the locals between them. The invariant
  numbers the windows: those of the shareds of the threads, in the order of the threads and after the one
  the first thread depends on, are different, and so are those of the locals.\<close>

definition row :: "FamilyRegInfo \<Rightarrow> nat \<Rightarrow> u32" where
  "row r i = fri_base r + of_nat i * (widen8 (rn_shareds (fri_count r)) + widen8 (rn_locals (fri_count r)))"

definition chained :: "FamilyRegInfo \<Rightarrow> ThreadRegInfo list \<Rightarrow> nat list \<Rightarrow> u32 \<Rightarrow> bool" where
  "chained r trs ws l \<longleftrightarrow> length ws = Suc (length trs) \<and> distinct ws \<and> set ws \<subseteq> {..length trs} \<and> l = row r (last ws) \<and>
     (\<forall>k<length trs. tri_dependents (trs ! k) = row r (ws ! k) \<and> tri_shareds (trs ! k) = row r (ws ! Suc k))"

definition placed :: "FamilyRegInfo \<Rightarrow> ThreadRegInfo list \<Rightarrow> nat list \<Rightarrow> bool" where
  "placed r trs ls \<longleftrightarrow> length ls = length trs \<and> distinct ls \<and> set ls \<subseteq> {..<length trs} \<and>
     (\<forall>k<length trs. tri_locals (trs ! k) = row r (ls ! k) + widen8 (rn_shareds (fri_count r)))"

definition thread_infos :: "Core \<Rightarrow> RegType \<Rightarrow> nat list \<Rightarrow> ThreadRegInfo list" where
  "thread_infos c t live = map (\<lambda>i. th_regs (co_threads c ! i) t) live"

lemma chained_new:
  assumes "chained r trs ws l" "tri_dependents tr = l" "tri_shareds tr = row r (Suc (length trs))"
  shows "chained r (trs @ [tr]) (ws @ [Suc (length trs)]) (tri_shareds tr)"
proof -
  have "ws \<noteq> []" using assms(1) by (auto simp: chained_def)
  then have "last ws = ws ! length trs" using assms(1) by (simp add: chained_def last_conv_nth)
  then show ?thesis
    using assms by (auto simp: chained_def nth_append less_Suc_eq)
qed

lemma chained_again:
  assumes "chained r (tr # trs) ws l" "tri_dependents tr' = l" "tri_shareds tr' = tri_dependents tr"
  shows "chained r (trs @ [tr']) (tl ws @ [hd ws]) (tri_shareds tr')"
proof -
  obtain w ws' where ws: "ws = w # ws'" "length ws' = Suc (length trs)"
    using assms(1) by (cases ws) (auto simp: chained_def)
  have tr: "tri_dependents tr = row r w" using assms(1) ws by (force simp: chained_def)
  have l: "l = row r (ws' ! length trs)" using assms(1) ws by (auto simp: chained_def last_conv_nth)
  have "tri_dependents (trs ! k) = row r (ws' ! k) \<and> tri_shareds (trs ! k) = row r (ws' ! Suc k)" if "k < length trs" for k
    using assms(1) that ws unfolding chained_def by (auto dest: spec [of _ "Suc k"])
  then show ?thesis
    using assms ws tr l by (auto simp: chained_def nth_append less_Suc_eq)
qed

lemma placed_new:
  assumes "placed r trs ls" "tri_locals tr = row r (length trs) + widen8 (rn_shareds (fri_count r))"
  shows "placed r (trs @ [tr]) (ls @ [length trs])"
  using assms by (auto simp: placed_def nth_append less_Suc_eq)

lemma placed_again:
  assumes "placed r (xs @ tr # ys) ls" "tri_locals tr' = tri_locals tr"
  shows "\<exists>ls. placed r (xs @ ys @ [tr']) ls"
proof -
  let ?n = "length xs"
  have len: "length ls = Suc (?n + length ys)" using assms(1) by (simp add: placed_def)
  then have split: "ls = take ?n ls @ ls ! ?n # drop (Suc ?n) ls" by (simp add: id_take_nth_drop)
  have locals: "tri_locals ((xs @ tr # ys) ! k) = row r (ls ! k) + widen8 (rn_shareds (fri_count r))"
    if "k < Suc (?n + length ys)" for k
    using assms(1) that by (simp add: placed_def)
  have x: "tri_locals (xs ! k) = row r (ls ! k) + widen8 (rn_shareds (fri_count r))" if "k < ?n" for k
    using locals [of k] that by (simp add: nth_append)
  have y: "tri_locals (ys ! k) = row r (ls ! Suc (?n + k)) + widen8 (rn_shareds (fri_count r))" if "k < length ys" for k
    using locals [of "Suc (?n + k)"] that by (simp add: nth_append)
  have t: "tri_locals tr = row r (ls ! ?n) + widen8 (rn_shareds (fri_count r))"
    using locals [of ?n] by (simp add: nth_append)
  define ls' where "ls' = take ?n ls @ drop (Suc ?n) ls @ [ls ! ?n]"
  have "distinct (take ?n ls @ ls ! ?n # drop (Suc ?n) ls)" "set (take ?n ls @ ls ! ?n # drop (Suc ?n) ls) = set ls"
    using assms(1) split by (simp_all only: placed_def)
  then have "distinct ls'" "set ls' = set ls" unfolding ls'_def by auto
  moreover have "tri_locals ((xs @ ys @ [tr']) ! k) = row r (ls' ! k) + widen8 (rn_shareds (fri_count r))"
    if "k < Suc (?n + length ys)" for k
    using x [of k] y [of "k - ?n"] t that len assms(2)
    by (auto simp: ls'_def nth_append min_def add.commute)
  ultimately have "placed r (xs @ ys @ [tr']) ls'"
    using assms(1) len by (auto simp: placed_def ls'_def)
  then show ?thesis by blast
qed

definition block_inv :: "nat \<Rightarrow> Core \<Rightarrow> RegType \<Rightarrow> Core \<Rightarrow> nat list \<Rightarrow> bool" where
  "block_inv fid c0 t c live \<longleftrightarrow>
     (let fm0 = co_families c0 ! fid; fm = co_families c ! fid; r = fm_regs fm0 t; trs = thread_infos c t live in
      distinct live \<and> (\<forall>i\<in>set live. i < length (co_threads c)) \<and>
      fri_base (fm_regs fm t) = fri_base r \<and> fri_count (fm_regs fm t) = fri_count r \<and>
      fm_physBlockSize fm = fm_physBlockSize fm0 \<and>
      fd_numThreadsAllocated (fm_dependencies fm) = of_nat (length live) \<and> length live \<le> unat (fm_physBlockSize fm0) \<and>
      (\<exists>ls. placed r trs ls) \<and>
      (rn_shareds (fri_count r) \<noteq> 0 \<longrightarrow> (\<exists>ws. chained r trs ws (fri_last_shareds (fm_regs fm t)))))"

lemma thread_infos_changed:
  assumes "\<And>i. i \<in> set live \<Longrightarrow> i \<noteq> tid" "\<And>i. i \<in> set live \<Longrightarrow> i < length (co_threads c)"
    and "\<And>i. i \<noteq> tid \<Longrightarrow> i < length (co_threads c) \<Longrightarrow> th_regs (co_threads c' ! i) = th_regs (co_threads c ! i)"
  shows "thread_infos c' t live = thread_infos c t live"
  using assms by (auto simp: thread_infos_def)

lemma block_inv_new:
  assumes inv: "block_inv fid c0 t c live" and e: "en_phase e = PHASE_COMMIT" and fresh: "tid \<notin> set live"
    and run: "AllocateThread fid tid True e c = Inr (True, c')"
  shows "block_inv fid c0 t c' (live @ [tid])"
proof -
  note a = AllocateThread_windows [OF e run]
  define r where "r = fm_regs (co_families c0 ! fid) t"
  define fm where "fm = co_families c ! fid"
  define tr where "tr = th_regs (co_threads c' ! tid) t"
  have inv': "distinct live" "\<forall>i\<in>set live. i < length (co_threads c)"
    "fri_base (fm_regs fm t) = fri_base r" "fri_count (fm_regs fm t) = fri_count r"
    "fm_physBlockSize fm = fm_physBlockSize (co_families c0 ! fid)"
    "fd_numThreadsAllocated (fm_dependencies fm) = of_nat (length live)"
    "length live \<le> unat (fm_physBlockSize fm)"
    "\<exists>ls. placed r (thread_infos c t live) ls"
    "rn_shareds (fri_count r) \<noteq> 0 \<longrightarrow> (\<exists>ws. chained r (thread_infos c t live) ws (fri_last_shareds (fm_regs fm t)))"
    using inv unfolding block_inv_def r_def fm_def by (auto simp: Let_def)
  have len: "length (thread_infos c t live) = length live" by (simp add: thread_infos_def)
  have infos: "thread_infos c' t (live @ [tid]) = thread_infos c t live @ [tr]"
  proof -
    have "i \<noteq> tid" if "i \<in> set live" for i using that fresh by auto
    then have "thread_infos c' t live = thread_infos c t live"
      using thread_infos_changed [of live tid c c' t] inv'(2) a(7) by blast
    then show ?thesis by (simp add: thread_infos_def tr_def)
  qed
  have room: "Suc (length live) \<le> unat (fm_physBlockSize fm)"
  proof -
    have "(of_nat (length live) :: u32) < fm_physBlockSize fm" using a(5) inv'(6) by (simp add: fm_def)
    moreover have "length live < 2 ^ 32" using inv'(7) unsigned_less [of "fm_physBlockSize fm", where ?'a = nat] by simp
    ultimately show ?thesis by (simp add: word_less_nat_alt unat_of_nat)
  qed
  have tr: "tri_locals tr = row r (length live) + widen8 (rn_shareds (fri_count r))"
    "tri_shareds tr = row r (Suc (length live))" "tri_dependents tr = fri_last_shareds (fm_regs fm t)"
    using a(6) inv'(3,4,6) by (simp_all add: tr_def thread_regs_def Let_def row_def fm_def algebra_simps)
  have last: "fri_last_shareds (fm_regs (co_families c' ! fid) t) = tri_shareds tr"
    using a(6,8) by (simp add: tr_def)
  have "\<exists>ls. placed r (thread_infos c' t (live @ [tid])) ls"
    using inv'(8) placed_new [of r "thread_infos c t live" _ tr] tr(1) len unfolding infos by auto
  moreover have "\<exists>ws. chained r (thread_infos c' t (live @ [tid])) ws (fri_last_shareds (fm_regs (co_families c' ! fid) t))"
    if "rn_shareds (fri_count r) \<noteq> 0"
    using inv'(9) that chained_new [of r "thread_infos c t live" _ _ tr] tr(2,3) len unfolding infos last by auto
  ultimately show ?thesis
    using inv' a room fresh unfolding block_inv_def r_def fm_def by (auto simp: Let_def)
qed

lemma block_inv_again:
  assumes inv: "block_inv fid c0 t c (xs @ tid # ys)" and e: "en_phase e = PHASE_COMMIT"
    and order: "xs = [] \<or> rn_shareds (fri_count (fm_regs (co_families c0 ! fid) t)) = 0"
    and run: "AllocateThread fid tid False e c = Inr (True, c')"
  shows "block_inv fid c0 t c' (xs @ ys @ [tid])"
proof -
  note a = AllocateThread_windows [OF e run]
  define r where "r = fm_regs (co_families c0 ! fid) t"
  define fm where "fm = co_families c ! fid"
  define tr where "tr = th_regs (co_threads c ! tid) t"
  define tr' where "tr' = th_regs (co_threads c' ! tid) t"
  have inv': "distinct (xs @ tid # ys)" "\<forall>i\<in>set (xs @ tid # ys). i < length (co_threads c)"
    "fri_base (fm_regs fm t) = fri_base r" "fri_count (fm_regs fm t) = fri_count r"
    "fm_physBlockSize fm = fm_physBlockSize (co_families c0 ! fid)"
    "fd_numThreadsAllocated (fm_dependencies fm) = of_nat (length (xs @ tid # ys))"
    "length (xs @ tid # ys) \<le> unat (fm_physBlockSize fm)"
    "\<exists>ls. placed r (thread_infos c t (xs @ tid # ys)) ls"
    "rn_shareds (fri_count r) \<noteq> 0 \<longrightarrow> (\<exists>ws. chained r (thread_infos c t (xs @ tid # ys)) ws (fri_last_shareds (fm_regs fm t)))"
    using inv unfolding block_inv_def r_def fm_def by (auto simp: Let_def)
  have same: "thread_infos c' t xs = thread_infos c t xs" "thread_infos c' t ys = thread_infos c t ys"
    using thread_infos_changed [of _ tid c c' t] inv'(1,2) a(7) by auto
  have before: "thread_infos c t (xs @ tid # ys) = thread_infos c t xs @ tr # thread_infos c t ys"
    by (simp add: thread_infos_def tr_def)
  have after: "thread_infos c' t (xs @ ys @ [tid]) = thread_infos c t xs @ thread_infos c t ys @ [tr']"
    using same by (simp add: thread_infos_def tr'_def)
  have tr': "tri_locals tr' = tri_locals tr" "tri_shareds tr' = tri_dependents tr"
    "tri_dependents tr' = fri_last_shareds (fm_regs fm t)"
    using a(6) by (simp_all add: tr'_def tr_def thread_regs_def Let_def fm_def)
  have last: "fri_last_shareds (fm_regs (co_families c' ! fid) t) = tri_shareds tr'"
    using a(6,8) by (simp add: tr'_def)
  have "\<exists>ls. placed r (thread_infos c' t (xs @ ys @ [tid])) ls"
    using inv'(8) placed_again tr'(1) unfolding before after by blast
  moreover have "\<exists>ws. chained r (thread_infos c' t (xs @ ys @ [tid])) ws (fri_last_shareds (fm_regs (co_families c' ! fid) t))"
    if sh: "rn_shareds (fri_count r) \<noteq> 0"
  proof -
    have xs: "xs = []" using order sh by (simp add: r_def)
    obtain ws where "chained r (tr # thread_infos c t ys) ws (fri_last_shareds (fm_regs fm t))"
      using inv'(9) sh before xs by (auto simp: thread_infos_def)
    then have "chained r (thread_infos c t ys @ [tr']) (tl ws @ [hd ws]) (tri_shareds tr')"
      using tr'(3,2) by (rule chained_again)
    moreover have "thread_infos c t xs = []" by (simp add: xs thread_infos_def)
    ultimately show ?thesis unfolding after last by auto
  qed
  ultimately show ?thesis
    using inv' a unfolding block_inv_def r_def fm_def by (auto simp: Let_def)
qed

lemma block_run_inv:
  assumes "block_run fid c0 c live"
    and start: "fri_last_shareds (fm_regs (co_families c0 ! fid) t) = fri_base (fm_regs (co_families c0 ! fid) t)"
      "fd_numThreadsAllocated (fm_dependencies (co_families c0 ! fid)) = 0"
  shows "block_inv fid c0 t c live"
  using assms(1)
proof induction
  case start
  have "placed r [] []" "chained r [] [0] (fri_base r)" for r
    by (simp_all add: placed_def chained_def row_def)
  then show ?case
    using assms(2,3) unfolding block_inv_def Let_def by (auto simp: thread_infos_def)
next
  case (new c live e tid c')
  then show ?case by (intro block_inv_new)
next
  case (again c xs tid ys e c')
  then show ?case by (intro block_inv_again) auto
next
  case (other c live c')
  have "thread_infos c' t live = thread_infos c t live" using other by (simp add: thread_infos_def)
  then show ?case
    using other unfolding block_inv_def Let_def family_view_def by auto
qed

section \<open>The windows\<close>

text \<open>The registers of a window of \<open>n\<close> registers that begins at \<open>b\<close>.\<close>

definition window_set :: "u32 \<Rightarrow> u8 \<Rightarrow> nat set" where
  "window_set b n = {unat b..<unat b + unat n}"

lemma unat_widen8 [simp]: "unat (widen8 x) = unat x"
proof -
  have "unat x < 2 ^ 32" using unsigned_less [of x, where ?'a = nat] by simp
  then show ?thesis by (simp add: widen8_def unsigned_ucast_eq take_bit_nat_eq_self)
qed

lemma unat_row:
  assumes "unat (fri_base r) + i * (unat (rn_shareds (fri_count r)) + unat (rn_locals (fri_count r))) < 2 ^ 32"
  shows "unat (row r i) = unat (fri_base r) + i * (unat (rn_shareds (fri_count r)) + unat (rn_locals (fri_count r)))"
proof -
  have "row r i = of_nat (unat (fri_base r) + i * (unat (rn_shareds (fri_count r)) + unat (rn_locals (fri_count r))))"
    by (simp add: row_def widen8_def)
  then show ?thesis using assms by (simp only: unat_of_nat) simp
qed

text \<open>The registers with an offset from \<open>o'\<close> in the row \<open>i\<close> of a block.\<close>

definition cell :: "FamilyRegInfo \<Rightarrow> nat \<Rightarrow> nat \<Rightarrow> nat \<Rightarrow> nat set" where
  "cell r i o' l = (let p = unat (fri_base r) + i * (unat (rn_shareds (fri_count r)) + unat (rn_locals (fri_count r))) + o'
     in {p..<p + l})"

lemma cells_disjoint:
  assumes "i \<noteq> j \<or> a + l \<le> b \<or> b + m \<le> a"
    "a + l \<le> unat (rn_shareds (fri_count r)) + unat (rn_locals (fri_count r))"
    "b + m \<le> unat (rn_shareds (fri_count r)) + unat (rn_locals (fri_count r))"
  shows "cell r i a l \<inter> cell r j b m = {}"
proof -
  let ?n = "unat (rn_shareds (fri_count r)) + unat (rn_locals (fri_count r))"
  have "i * ?n + ?n \<le> j * ?n" if "i < j" for i j :: nat
    using mult_le_mono1 [of "Suc i" j ?n] that by simp
  then show ?thesis
    using assms by (cases i j rule: linorder_cases) (fastforce simp: cell_def Let_def)+
qed

lemma cell_bounds:
  assumes "i \<le> k" "(i < k \<and> a + l \<le> unat (rn_shareds (fri_count r)) + unat (rn_locals (fri_count r))) \<or> a + l \<le> unat (rn_shareds (fri_count r))"
  shows "cell r i a l \<subseteq> {unat (fri_base r)..<unat (fri_base r)
    + k * (unat (rn_shareds (fri_count r)) + unat (rn_locals (fri_count r))) + unat (rn_shareds (fri_count r))}"
proof -
  let ?n = "unat (rn_shareds (fri_count r)) + unat (rn_locals (fri_count r))"
  define p where "p = i * ?n"
  define q where "q = k * ?n"
  have "p \<le> q" "i < k \<Longrightarrow> p + ?n \<le> q"
    using assms(1) mult_le_mono1 [of "Suc i" k ?n] by (simp_all add: p_def q_def)
  then show ?thesis using assms(2) unfolding cell_def Let_def p_def [symmetric] q_def [symmetric] by auto
qed

text \<open>
  C2. The register windows of the threads of a family never clash. Take a family whose registers have just been
  allocated, with a block that fits the register file, and any sequence of thread allocations in the order the
  allocator uses: new slots up to the block size, and slots used again. Then at any time the windows of the
  living threads lie in the block of the family, below its globals; locals of different threads are
  disjoint, and so are their shareds, and the dependents of the first thread are not the shareds of any;
  locals do not overlap windows for communication; and when the threads communicate, the dependents of
  each thread are the shareds of the thread allocated before it.
\<close>

theorem register_windows:
  fixes fid :: nat and c0 c :: Core and t :: RegType
  defines "r \<equiv> fm_regs (co_families c0 ! fid) t" and "n \<equiv> fm_physBlockSize (co_families c0 ! fid)"
  assumes run: "block_run fid c0 c live"
    and start: "fri_last_shareds r = fri_base r" "fd_numThreadsAllocated (fm_dependencies (co_families c0 ! fid)) = 0"
    and block: "fri_size r = register_need r n"
    and fits: "unat (fri_base r) + unat n * (unat (rn_locals (fri_count r)) + unat (rn_shareds (fri_count r)))
        + unat (rn_globals (fri_count r)) + unat (rn_shareds (fri_count r)) < 2 ^ 32"
  defines "locals \<equiv> \<lambda>i. window_set (tri_locals (th_regs (co_threads c ! i) t)) (rn_locals (fri_count r))"
    and "shareds \<equiv> \<lambda>i. window_set (tri_shareds (th_regs (co_threads c ! i) t)) (rn_shareds (fri_count r))"
    and "dependents \<equiv> \<lambda>i. window_set (tri_dependents (th_regs (co_threads c ! i) t)) (rn_shareds (fri_count r))"
  shows "(\<forall>i\<in>set live. locals i \<union> shareds i \<union> dependents i
            \<subseteq> {unat (fri_base r)..<unat (fri_base r + fri_size r - widen8 (rn_globals (fri_count r)))}) \<and>
    (\<forall>i\<in>set live. \<forall>j\<in>set live. i \<noteq> j \<longrightarrow> locals i \<inter> locals j = {} \<and> shareds i \<inter> shareds j = {}) \<and>
    (\<forall>i\<in>set live. \<forall>j\<in>set live. locals i \<inter> (shareds j \<union> dependents j) = {}) \<and>
    (\<forall>i\<in>set live. dependents (hd live) \<inter> shareds i = {}) \<and>
    (rn_shareds (fri_count r) \<noteq> 0 \<longrightarrow> (\<forall>xs i j ys. live = xs @ i # j # ys \<longrightarrow>
       tri_dependents (th_regs (co_threads c ! j) t) = tri_shareds (th_regs (co_threads c ! i) t)))"
proof -
  let ?sh = "unat (rn_shareds (fri_count r))" and ?lo = "unat (rn_locals (fri_count r))" and ?N = "unat n"
  let ?b = "unat (fri_base r)"
  have inv: "block_inv fid c0 t c live"
    using block_run_inv [OF run] start by (simp add: r_def)
  obtain ls where ls: "placed r (thread_infos c t live) ls" and m: "length live \<le> ?N" and live: "distinct live"
    using inv unfolding block_inv_def r_def n_def Let_def by blast
  have bound: "?b + ?N * (?sh + ?lo) + ?sh < 2 ^ 32" using fits by (simp add: add.commute)
  have row: "unat (row r i) = ?b + i * (?sh + ?lo)" if "i \<le> ?N" for i
    using mult_le_mono1 [OF that, of "?sh + ?lo"] bound by (intro unat_row) linarith
  have L: "locals (live ! k) = cell r (ls ! k) ?sh ?lo" "ls ! k < ?N" if k: "k < length live" for k
  proof -
    have "ls ! k \<in> set ls" "set ls \<subseteq> {..<length live}"
      using ls k by (simp_all add: placed_def thread_infos_def)
    then have i: "ls ! k < length live" by blast
    then show lt: "ls ! k < ?N" using m by simp
    have "ls ! k * (?sh + ?lo) + ?sh + ?lo \<le> ?N * (?sh + ?lo)" using mult_le_mono1 [of "Suc (ls ! k)" ?N "?sh + ?lo"] lt by simp
    then have "unat (row r (ls ! k) + widen8 (rn_shareds (fri_count r))) = ?b + ls ! k * (?sh + ?lo) + ?sh"
      using row [of "ls ! k"] lt bound by (subst unat_add_lem [THEN iffD1]) simp_all
    moreover have "tri_locals (th_regs (co_threads c ! (live ! k)) t) = row r (ls ! k) + widen8 (rn_shareds (fri_count r))"
      using ls k by (simp add: placed_def thread_infos_def)
    ultimately show "locals (live ! k) = cell r (ls ! k) ?sh ?lo" by (simp add: locals_def window_set_def cell_def Let_def)
  qed
  obtain ws where ws: "?sh \<noteq> 0 \<Longrightarrow> chained r (thread_infos c t live) ws (fri_last_shareds (fm_regs (co_families c ! fid) t))"
    using inv unfolding block_inv_def r_def Let_def by (auto simp: unat_eq_0)
  have S: "shareds (live ! k) = cell r (ws ! Suc k) 0 ?sh" and D: "dependents (live ! k) = cell r (ws ! k) 0 ?sh"
    and W: "ws ! k \<le> ?N" "ws ! Suc k \<le> ?N"
    if k: "k < length live" and sh: "?sh \<noteq> 0" for k
  proof -
    have "ws ! k \<in> set ws" "ws ! Suc k \<in> set ws" "set ws \<subseteq> {..length live}"
      using ws [OF sh] k by (simp_all add: chained_def thread_infos_def)
    then have w: "ws ! k \<le> ?N" "ws ! Suc k \<le> ?N" using m by fastforce+
    then show "ws ! k \<le> ?N" "ws ! Suc k \<le> ?N" .
    show "shareds (live ! k) = cell r (ws ! Suc k) 0 ?sh" "dependents (live ! k) = cell r (ws ! k) 0 ?sh"
      using ws [OF sh] k row [OF w(1)] row [OF w(2)]
      by (auto simp: shareds_def dependents_def window_set_def cell_def Let_def chained_def thread_infos_def)
  qed
  have none: "shareds i = {}" "dependents i = {}" if "?sh = 0" for i
    using that by (simp_all add: shareds_def dependents_def window_set_def)
  have top: "unat (fri_base r + fri_size r - widen8 (rn_globals (fri_count r))) = ?b + ?N * (?sh + ?lo) + ?sh"
  proof -
    have "fri_base r + fri_size r - widen8 (rn_globals (fri_count r)) = of_nat (?b + ?N * (?sh + ?lo) + ?sh)"
      unfolding block register_need_def by (simp add: widen8_def algebra_simps)
    then show ?thesis using bound by (simp only: unat_of_nat) simp
  qed
  have at: "(\<forall>i\<in>set live. P i) \<longleftrightarrow> (\<forall>k<length live. P (live ! k))" for P
    by (auto simp: all_set_conv_all_nth)
  have dls: "ls ! k \<noteq> ls ! k'" if "k < length live" "k' < length live" "k \<noteq> k'" for k k'
    using ls that by (simp add: placed_def thread_infos_def nth_eq_iff_index_eq)
  have dws: "ws ! k \<noteq> ws ! k'" if "?sh \<noteq> 0" "k \<le> length live" "k' \<le> length live" "k \<noteq> k'" for k k'
    using ws that by (simp add: chained_def thread_infos_def nth_eq_iff_index_eq)
  have c1: "locals (live ! k) \<union> shareds (live ! k) \<union> dependents (live ! k) \<subseteq> {?b..<?b + ?N * (?sh + ?lo) + ?sh}"
    if k: "k < length live" for k
  proof -
    have "locals (live ! k) \<subseteq> {?b..<?b + ?N * (?sh + ?lo) + ?sh}"
      unfolding L(1) [OF k] using L(2) [OF k] by (intro cell_bounds) simp_all
    moreover have "shareds (live ! k) \<union> dependents (live ! k) \<subseteq> {?b..<?b + ?N * (?sh + ?lo) + ?sh}"
      using S [OF k] D [OF k] W [OF k] none cell_bounds [of "ws ! k" ?N 0 ?sh r] cell_bounds [of "ws ! Suc k" ?N 0 ?sh r]
      by (cases "?sh = 0") auto
    ultimately show ?thesis by simp
  qed
  have c2: "locals (live ! k) \<inter> locals (live ! k') = {} \<and> shareds (live ! k) \<inter> shareds (live ! k') = {}"
    if k: "k < length live" "k' < length live" "k \<noteq> k'" for k k'
    using L(1) k dls [OF k] dws [of "Suc k" "Suc k'"] S none
    by (cases "?sh = 0") (simp_all add: cells_disjoint)
  have c3: "locals (live ! k) \<inter> (shareds (live ! k') \<union> dependents (live ! k')) = {}"
    if k: "k < length live" "k' < length live" for k k'
    using L(1) k S D none by (cases "?sh = 0") (simp_all add: cells_disjoint Int_Un_distrib)
  have c4: "dependents (hd live) \<inter> shareds (live ! k) = {}" if k: "k < length live" for k
  proof -
    have "live \<noteq> []" using k by auto
    then have hd: "hd live = live ! 0" "0 < length live" by (simp_all add: hd_conv_nth)
    show ?thesis
      using D [OF hd(2)] S [OF k] dws [of 0 "Suc k"] k none unfolding hd(1) by (cases "?sh = 0") (simp_all add: cells_disjoint)
  qed
  have c5: "tri_dependents (th_regs (co_threads c ! j) t) = tri_shareds (th_regs (co_threads c ! i) t)"
    if sh: "rn_shareds (fri_count r) \<noteq> 0" and eq: "live = xs @ i # j # ys" for xs i j ys
  proof -
    have "\<forall>k<length live. tri_dependents (th_regs (co_threads c ! (live ! k)) t) = row r (ws ! k)
        \<and> tri_shareds (th_regs (co_threads c ! (live ! k)) t) = row r (ws ! Suc k)"
      using ws sh by (simp add: chained_def thread_infos_def unat_eq_0)
    moreover have "live ! length xs = i" "live ! Suc (length xs) = j" "Suc (length xs) < length live"
      by (simp_all add: eq nth_append)
    ultimately show ?thesis by (metis Suc_lessD)
  qed
  show ?thesis
    unfolding at top using c1 c2 c3 c4 c5 live by (auto simp: nth_eq_iff_index_eq)
qed

text \<open>Two threads with one shared and one local each, and the first slot used again.\<close>

definition windows_family :: Family where
  "windows_family = junk_family\<lparr>fm_nThreads := 5, fm_step := 1, fm_hasShareds := True, fm_physBlockSize := 2,
     fm_lastAllocated := INVALID_TID, fm_regs := (\<lambda>t. if t = RT_INTEGER
       then \<lparr>fri_count = \<lparr>rn_globals = 0, rn_shareds = 1, rn_locals = 1\<rparr>, fri_base = 0, fri_size = 5, fri_last_shareds = 0\<rparr>
       else \<lparr>fri_count = \<lparr>rn_globals = 0, rn_shareds = 0, rn_locals = 0\<rparr>, fri_base = INVALID_REG_INDEX, fri_size = 0,
              fri_last_shareds = INVALID_REG_INDEX\<rparr>)\<rparr>"

definition windows_start :: Core where
  "windows_start = (core_small p_ThreadAllocate)\<lparr>co_families := [windows_family]\<rparr>"

text \<open>The core when the next thread is allocated, with its ports granted and its queues empty: the
  registers and the count of threads are those of \<open>c\<close>.\<close>

definition next_family :: "Core \<Rightarrow> Family" where
  "next_family c = windows_family\<lparr>fm_regs := fm_regs (co_families c ! 0),
     fm_dependencies := fm_dependencies (co_families c ! 0)\<rparr>"

definition next_cycle :: "Core \<Rightarrow> Core" where
  "next_cycle c = (core_small p_ThreadAllocate)\<lparr>co_families := [next_family c], co_threads := co_threads c\<rparr>"

text \<open>What the allocation of a thread needs of the other parts of the core.\<close>

definition grants :: "Core \<Rightarrow> bool" where
  "grants c \<longleftrightarrow> co_p_readyThreads c = granted_port p_ThreadAllocate \<and> co_lists c = (\<lambda>_. list_small)
     \<and> \<not> co_pipeline_running c \<and> tt_size (co_tt c) = 4"

definition small_parts :: "Core \<Rightarrow> bool" where
  "small_parts c \<longleftrightarrow> grants c \<and> co_asyncW c = co_asyncW (core_small p_ThreadAllocate) \<and> co_rf c = file_small
     \<and> co_bits c = \<lparr>pid_bits = 1, fid_bits = 2, tid_bits = 2\<rparr>"

lemma small_parts_next_cycle [simp]: "small_parts (next_cycle c)" "co_memadmin (next_cycle c) = Some virtual_memory_init"
  "co_families (next_cycle c) = [next_family c]" "co_threads (next_cycle c) = co_threads c"
  by (simp_all add: small_parts_def grants_def next_cycle_def core_small_def thread_table_init_def tt_size_def)

lemma small_parts_modify [simp]:
  "grants (modify_family i f c) = grants c"
  "small_parts (modify_family i f c) = small_parts c" "small_parts (modify_thread t g c) = small_parts c"
  "small_parts (set_thread_next t n c) = small_parts c"
  "co_memadmin (modify_family i f c) = co_memadmin c" "co_memadmin (modify_thread t g c) = co_memadmin c"
  "co_memadmin (set_thread_next t n c) = co_memadmin c"
  by (simp_all add: small_parts_def grants_def modify_family_def modify_thread_def set_thread_next_def tt_size_def)

lemma map_tls_small:
  assumes "tid < 4" "small_parts c" "co_memadmin c = Some virtual_memory_init"
  shows "\<exists>c'. map_tls tid (env_commit p_ThreadAllocate) c = Inr ((), c') \<and> small_parts c'"
  using assms
  by (auto simp add: map_tls_def on_memory_def core_op_defs tls_half_def GetTLSAddress_def GetTLSSize_def assert_that_def Let_def
      core_MapMemory_def with_memadmin_def vm_Reserve_def virtual_memory_init_def om_before_def vm_overlap_after_def
      om_lower_bound_def small_parts_def grants_def)

lemma write_index_small:
  assumes "small_parts c" "unat l < 16"
  shows "\<exists>c'. write_index l i (env_commit p_ThreadAllocate) c = Inr (True, c') \<and> grants c'"
  using assms
  by (simp add: write_index_def core_op_defs asyncW_Write_def read_register_def write_register_def WriteRegister_def
      ArbitratedWritePort_Write_def CanAccess_def HasAcquired_def core_small_def granted_port_def simple_port_init_def
      ReadRegister_def rf_valid_def rf_reg_def file_small_def junk_value_def MAKE_REGADDR_def rf_well_formed_def
      rf_refused_def rf_wakes_def rf_queue_def assert_that_def Let_def MAX_UPDATES_def small_parts_def grants_def)

lemma activate_small:
  assumes "grants c" "tid < 4"
  shows "\<exists>c'. ActivateThreads \<lparr>tq_head = tid, tq_tail = tid\<rparr> (env_commit p_ThreadAllocate) c = Inr (True, c')"
  using assms unfolding grants_def
  by (simp add: ActivateThreads_def core_op_defs invoke_def service_Invoke_def Invoke_def CanAccess_def HasAcquired_def
      granted_port_def simple_port_init_def QueueThreads_def on_list_def unit_result_def llist_Append_def list_small_def
      llist_init_def mark_threads_def assert_that_def Let_def COMMIT_def INVALID_TID_def)

lemma bnd_returns:
  "\<exists>c'. m e c = Inr (x, c') \<and> P c' \<Longrightarrow> (\<And>c'. P c' \<Longrightarrow> \<exists>c''. f x e c' = Inr (y, c'')) \<Longrightarrow> \<exists>c''. bnd m f e c = Inr (y, c'')"
  by (auto simp: bnd_def)

lemma or_return_returns:
  "\<exists>c'. m e c = Inr (True, c') \<and> P c' \<Longrightarrow> (\<And>c'. P c' \<Longrightarrow> \<exists>c''. k e c' = Inr (y, c'')) \<Longrightarrow> \<exists>c''. or_return m False k e c = Inr (y, c'')"
  by (auto simp: or_return_def bnd_def)

lemma allocate_small:
  fixes c :: Core
  defines "fm \<equiv> next_family c"
  assumes fm: "length (co_threads c) = 4" "tid < 4"
    and runs: "0 < rn_locals (fri_count (fm_regs fm RT_INTEGER))"
      "isNew \<Longrightarrow> fd_numThreadsAllocated (fm_dependencies fm) < 2"
      "unat (tri_locals (thread_regs isNew (fd_numThreadsAllocated (fm_dependencies fm)) (fm_regs fm RT_INTEGER)
         (th_regs (co_threads c ! tid) RT_INTEGER))) < 16"
  shows "\<exists>c'. AllocateThread 0 tid isNew (env_commit p_ThreadAllocate) (next_cycle c) = Inr (True, c')"
proof -
  let ?e = "env_commit p_ThreadAllocate"
  note parts = get_env_apply get_core_apply ret_apply check_def defined_def assert_that_def with_family_def with_thread_def
    commit_in_commit [of ?e]
  have n: "fm_nThreads fm = 5" "fm_start fm = 0" "fm_step fm = 1" "fm_lastAllocated fm = INVALID_TID" "fm_physBlockSize fm = 2"
    by (simp_all add: fm_def next_family_def windows_family_def junk_family_def)
  show ?thesis
    using fm n runs unfolding fm_def
    apply (simp add: AllocateThread_def parts Let_def or_return_def [of "ret True"] bnd_def [of "ret True"] signed_ok_def)
    apply (rule bnd_returns [where P = small_parts], simp add: map_tls_small,
      rule or_return_returns [where P = grants], simp add: write_index_small,
      simp add: parts or_return_def [of "ret True"] bnd_def [of "ret True"],
      rule or_return_returns [where P = "\<lambda>_. True"], simp add: activate_small, simp add: commit_def ret_def)
    done
qed

lemma windows_run:
  "\<exists>c1 c2 c3. AllocateThread 0 0 True (env_commit p_ThreadAllocate) (next_cycle windows_start) = Inr (True, c1)
    \<and> AllocateThread 0 1 True (env_commit p_ThreadAllocate) (next_cycle c1) = Inr (True, c2)
    \<and> AllocateThread 0 0 False (env_commit p_ThreadAllocate) (next_cycle c2) = Inr (True, c3)"
proof -
  let ?e = "env_commit p_ThreadAllocate"
  have e: "en_phase ?e = PHASE_COMMIT" by simp
  obtain c1 where c1: "AllocateThread 0 0 True ?e (next_cycle windows_start) = Inr (True, c1)"
    using allocate_small [of windows_start 0 True]
    by (auto simp: windows_start_def core_small_def next_family_def windows_family_def junk_family_def thread_regs_def Let_def)
  note w1 = AllocateThread_windows [OF e c1]
  obtain c2 where c2: "AllocateThread 0 1 True ?e (next_cycle c1) = Inr (True, c2)"
    using allocate_small [of c1 1 True] w1(3,6,8-)
    by (auto simp: windows_start_def core_small_def next_family_def windows_family_def junk_family_def thread_regs_def Let_def
      widen8_def)
  note w2 = AllocateThread_windows [OF e c2]
  obtain c3 where c3: "AllocateThread 0 0 False ?e (next_cycle c2) = Inr (True, c3)"
    using allocate_small [of c2 0 False] w1(3,6,8-) w2(3,6-)
    by (auto simp: windows_start_def core_small_def next_family_def windows_family_def junk_family_def thread_regs_def Let_def
      widen8_def)
  show ?thesis using c1 c2 c3 by blast
qed

lemma windows_block_run:
  "\<exists>c. block_run 0 (next_cycle windows_start) c [1, 0]"
proof -
  let ?e = "env_commit p_ThreadAllocate" and ?c0 = "next_cycle windows_start"
  have e: "en_phase ?e = PHASE_COMMIT" by simp
  obtain c1 c2 c3 where c1: "AllocateThread 0 0 True ?e ?c0 = Inr (True, c1)"
    and c2: "AllocateThread 0 1 True ?e (next_cycle c1) = Inr (True, c2)"
    and c3: "AllocateThread 0 0 False ?e (next_cycle c2) = Inr (True, c3)"
    using windows_run by blast
  note w1 = AllocateThread_windows [OF e c1] and w2 = AllocateThread_windows [OF e c2]
  have view: "fm_physBlockSize (next_family c) = 2" for c
    by (simp add: next_family_def windows_family_def)
  have "block_run 0 ?c0 ?c0 []" by (rule block_run.start)
  from block_run.new [OF this e _ c1] have b1: "block_run 0 ?c0 c1 [0]" by simp
  have b2: "block_run 0 ?c0 (next_cycle c1) [0]"
    using w1 by (intro block_run.other [OF b1]) (auto simp: family_view_def next_family_def view)
  from block_run.new [OF b2 e _ c2] have b3: "block_run 0 ?c0 c2 [0, 1]" by simp
  have b4: "block_run 0 ?c0 (next_cycle c2) [0, 1]"
    using w2 by (intro block_run.other [OF b3]) (auto simp: family_view_def next_family_def view)
  from block_run.again [of 0 ?c0 "next_cycle c2" "[]" 0 "[1]" ?e c3] b4 c3 e show ?thesis by auto
qed

theorem register_windows_witness:
  "\<exists>c. block_run 0 (next_cycle windows_start) c [1, 0] \<and>
     tri_dependents (th_regs (co_threads c ! 0) RT_INTEGER) = tri_shareds (th_regs (co_threads c ! 1) RT_INTEGER) \<and>
     window_set (tri_locals (th_regs (co_threads c ! 0) RT_INTEGER)) 1 \<inter> window_set (tri_locals (th_regs (co_threads c ! 1) RT_INTEGER)) 1 = {}"
proof -
  obtain c where run: "block_run 0 (next_cycle windows_start) c [1, 0]" using windows_block_run by blast
  have fm: "fm_regs (next_family windows_start) RT_INTEGER = \<lparr>fri_count = \<lparr>rn_globals = 0, rn_shareds = 1, rn_locals = 1\<rparr>,
      fri_base = 0, fri_size = 5, fri_last_shareds = 0\<rparr>"
    "fd_numThreadsAllocated (fm_dependencies (next_family windows_start)) = 0" "fm_physBlockSize (next_family windows_start) = 2"
    by (simp_all add: next_family_def windows_start_def windows_family_def junk_family_def)
  show ?thesis
    using register_windows [OF run, of RT_INTEGER] run
    by (force simp: fm register_need_def widen8_def)
qed

end
