(* ===== verification/Pipeline_Values.thy ===== *)
theory Pipeline_Values
  imports Marshalling DRISC_Identifiers
begin

text \<open>
  Values in the pipeline (arch/drisc/Pipeline.h, arch/simtypes.h): a value has a state, a size in bytes
  and a union of the representations. The union of the integers and floats of four and eight
  bytes is the 64-bit word of its storage; a member of four bytes is the low half of it, as on a host
  that stores the low byte first. The wait queue and the memory request are kept beside it, as
  they are meant by other states than the full one.
\<close>

record PipeValue =
  pv_state :: RegState
  pv_size :: nat
  pv_bits :: u64
  pv_waiting :: ThreadQueue
  pv_memory :: MemoryRequest

text \<open>The members of the union that the constructor does not set are an argument.\<close>

definition MAKE_EMPTY_PIPEVALUE :: "PipeValue \<Rightarrow> nat \<Rightarrow> PipeValue" where
  "MAKE_EMPTY_PIPEVALUE junk n = junk\<lparr>pv_state := RST_EMPTY, pv_size := n,
     pv_waiting := (pv_waiting junk)\<lparr>tq_head := INVALID_TID\<rparr>,
     pv_memory := (pv_memory junk)\<lparr>mr_size := 0\<rparr>\<rparr>"

definition MAKE_PENDING_PIPEVALUE :: "PipeValue \<Rightarrow> nat \<Rightarrow> PipeValue" where
  "MAKE_PENDING_PIPEVALUE junk n = junk\<lparr>pv_state := RST_PENDING, pv_size := n,
     pv_waiting := (pv_waiting junk)\<lparr>tq_head := INVALID_TID\<rparr>,
     pv_memory := (pv_memory junk)\<lparr>mr_size := 0\<rparr>\<rparr>"

text \<open>\<open>MultiInteger\<close>: other sizes run into an assertion.\<close>

definition MultiInteger_get :: "u64 \<Rightarrow> nat \<Rightarrow> u64 res" where
  "MultiInteger_get b n =
     (if n = 1 \<or> n = 2 \<or> n = 3 \<or> n = 4 then Inr (ucast (ucast b :: u32))
      else if n = 8 then Inr b
      else Inl AssertionFailure)"

definition MultiInteger_set :: "u64 \<Rightarrow> nat \<Rightarrow> u64 \<Rightarrow> u64 res" where
  "MultiInteger_set v n b =
     (if n = 4 then Inr (push_bit 32 (drop_bit 32 b) OR ucast (ucast v :: u32))
      else if n = 8 then Inr v
      else Inl AssertionFailure)"

definition MultiFloat_toint :: "u64 \<Rightarrow> nat \<Rightarrow> u64 res" where
  "MultiFloat_toint b n =
     (if n = 4 then Inr (ucast (ucast b :: u32)) else if n = 8 then Inr b else Inl AssertionFailure)"

definition MultiFloat_fromint :: "u64 \<Rightarrow> nat \<Rightarrow> u64 \<Rightarrow> u64 res" where
  "MultiFloat_fromint v n b = MultiInteger_set v n b"

text \<open>The integer of a value, with its size, and the assignment of a 64-bit integer.\<close>

definition pv_integer :: "PipeValue \<Rightarrow> u64 res" where
  "pv_integer v = MultiInteger_get (pv_bits v) (pv_size v)"

definition pv_assign :: "u64 \<Rightarrow> PipeValue \<Rightarrow> PipeValue" where
  "pv_assign x v = v\<lparr>pv_bits := x\<rparr>"

definition pv_full :: "PipeValue \<Rightarrow> PipeValue" where
  "pv_full v = v\<lparr>pv_state := RST_FULL\<rparr>"

text \<open>A pipeline value as a register value (arch/drisc/ExecuteStage.cpp); the other members of the
  union in the result are an argument.\<close>

fun PipeValueToRegValue :: "RegValue \<Rightarrow> RegType \<Rightarrow> PipeValue \<Rightarrow> RegValue res" where
  "PipeValueToRegValue junk RT_INTEGER v =
     res_bind (pv_integer v) (\<lambda>x. Inr (junk\<lparr>rv_state := RST_FULL, rv_value := x\<rparr>))"
| "PipeValueToRegValue junk RT_FLOAT v =
     res_bind (MultiFloat_toint (pv_bits v) (pv_size v)) (\<lambda>x. Inr (junk\<lparr>rv_state := RST_FULL, rv_value := x\<rparr>))"

lemma MultiInteger_get_set:
  "n = 4 \<or> n = 8 \<Longrightarrow> res_bind (MultiInteger_set v n b) (\<lambda>b'. MultiInteger_get b' n) = Inr (take_bit (8 * n) v)"
proof -
  assume n: "n = 4 \<or> n = 8"
  have "ucast (ucast (push_bit 32 (drop_bit 32 b) OR ucast (ucast v :: u32) :: u64) :: u32) = take_bit 32 v"
    by (rule bit_eqI) (auto simp: bit_simps)
  then show ?thesis using n take_bit_length_eq [of v] by (auto simp: MultiInteger_set_def MultiInteger_get_def)
qed

lemma pv_integer_8: "pv_size v = 8 \<Longrightarrow> pv_integer v = Inr (pv_bits v)"
  by (simp add: pv_integer_def MultiInteger_get_def)

lemma pv_simps [simp]:
  "pv_bits (pv_assign x v) = x" "pv_state (pv_assign x v) = pv_state v" "pv_size (pv_assign x v) = pv_size v"
  "pv_bits (pv_full v) = pv_bits v" "pv_state (pv_full v) = RST_FULL" "pv_size (pv_full v) = pv_size v"
  by (simp_all add: pv_assign_def pv_full_def)

end
