(* ===== verification/Alpha_Integer.thy ===== *)
theory Alpha_Integer
  imports Pipeline_Values "HOL-Library.Signed_Division"
begin

text \<open>
  The integer instructions of the Alpha (arch/drisc/ISA.mtalpha.h, arch/drisc/ISA.mtalpha.cpp): the
  groups of function codes INTA (arithmetic), INTL (logical, conditional moves), INTS (bytes and
  shifts) and INTM (multiplication, division). A group is a datatype with the names of the source
  and a table of their codes. An execution function takes the destination value it updates and
  returns with it whether the operation is complete. Conversions to a signed type keep the bits, as
  the compiler defines them; overflow of a signed product, an oversized shift and a signed quotient
  that does not fit are undefined.
\<close>

section \<open>Function codes\<close>

datatype INTA_func =
    A_INTAFUNC_ADDL | A_INTAFUNC_S4ADDL | A_INTAFUNC_SUBL | A_INTAFUNC_S4SUBL | A_INTAFUNC_CMPBGE
    | A_INTAFUNC_S8ADDL | A_INTAFUNC_S8SUBL | A_INTAFUNC_CMPULT | A_INTAFUNC_ADDQ
    | A_INTAFUNC_S4ADDQ | A_INTAFUNC_SUBQ | A_INTAFUNC_S4SUBQ | A_INTAFUNC_CMPEQ | A_INTAFUNC_S8ADDQ
    | A_INTAFUNC_S8SUBQ | A_INTAFUNC_CMPULE | A_INTAFUNC_ADDL_V | A_INTAFUNC_SUBL_V
    | A_INTAFUNC_CMPLT | A_INTAFUNC_ADDQ_V | A_INTAFUNC_SUBQ_V | A_INTAFUNC_CMPLE

definition INTA_func_codes :: "(nat \<times> INTA_func) list" where
  "INTA_func_codes =
    [(0x00, A_INTAFUNC_ADDL), (0x02, A_INTAFUNC_S4ADDL), (0x09, A_INTAFUNC_SUBL),
     (0x0B, A_INTAFUNC_S4SUBL), (0x0F, A_INTAFUNC_CMPBGE), (0x12, A_INTAFUNC_S8ADDL),
     (0x1B, A_INTAFUNC_S8SUBL), (0x1D, A_INTAFUNC_CMPULT), (0x20, A_INTAFUNC_ADDQ),
     (0x22, A_INTAFUNC_S4ADDQ), (0x29, A_INTAFUNC_SUBQ), (0x2B, A_INTAFUNC_S4SUBQ),
     (0x2D, A_INTAFUNC_CMPEQ), (0x32, A_INTAFUNC_S8ADDQ), (0x3B, A_INTAFUNC_S8SUBQ),
     (0x3D, A_INTAFUNC_CMPULE), (0x40, A_INTAFUNC_ADDL_V), (0x49, A_INTAFUNC_SUBL_V),
     (0x4D, A_INTAFUNC_CMPLT), (0x60, A_INTAFUNC_ADDQ_V), (0x69, A_INTAFUNC_SUBQ_V),
     (0x6D, A_INTAFUNC_CMPLE)]"

datatype INTL_func =
    A_INTLFUNC_AND | A_INTLFUNC_BIC | A_INTLFUNC_CMOVLBS | A_INTLFUNC_CMOVLBC | A_INTLFUNC_BIS
    | A_INTLFUNC_CMOVEQ | A_INTLFUNC_CMOVNE | A_INTLFUNC_ORNOT | A_INTLFUNC_XOR | A_INTLFUNC_CMOVLT
    | A_INTLFUNC_CMOVGE | A_INTLFUNC_EQV | A_INTLFUNC_AMASK | A_INTLFUNC_CMOVLE | A_INTLFUNC_CMOVGT
    | A_INTLFUNC_IMPLVER

definition INTL_func_codes :: "(nat \<times> INTL_func) list" where
  "INTL_func_codes =
    [(0x00, A_INTLFUNC_AND), (0x08, A_INTLFUNC_BIC), (0x14, A_INTLFUNC_CMOVLBS),
     (0x16, A_INTLFUNC_CMOVLBC), (0x20, A_INTLFUNC_BIS), (0x24, A_INTLFUNC_CMOVEQ),
     (0x26, A_INTLFUNC_CMOVNE), (0x28, A_INTLFUNC_ORNOT), (0x40, A_INTLFUNC_XOR),
     (0x44, A_INTLFUNC_CMOVLT), (0x46, A_INTLFUNC_CMOVGE), (0x48, A_INTLFUNC_EQV),
     (0x61, A_INTLFUNC_AMASK), (0x64, A_INTLFUNC_CMOVLE), (0x66, A_INTLFUNC_CMOVGT),
     (0x6C, A_INTLFUNC_IMPLVER)]"

datatype INTS_func =
    A_INTSFUNC_MSKBL | A_INTSFUNC_EXTBL | A_INTSFUNC_INSBL | A_INTSFUNC_MSKWL | A_INTSFUNC_EXTWL
    | A_INTSFUNC_INSWL | A_INTSFUNC_MSKLL | A_INTSFUNC_EXTLL | A_INTSFUNC_INSLL | A_INTSFUNC_ZAP
    | A_INTSFUNC_ZAPNOT | A_INTSFUNC_MSKQL | A_INTSFUNC_SRL | A_INTSFUNC_EXTQL | A_INTSFUNC_SLL
    | A_INTSFUNC_INSQL | A_INTSFUNC_SRA | A_INTSFUNC_MSKWH | A_INTSFUNC_INSWH | A_INTSFUNC_EXTWH
    | A_INTSFUNC_MSKLH | A_INTSFUNC_INSLH | A_INTSFUNC_EXTLH | A_INTSFUNC_MSKQH | A_INTSFUNC_INSQH
    | A_INTSFUNC_EXTQH

definition INTS_func_codes :: "(nat \<times> INTS_func) list" where
  "INTS_func_codes =
    [(0x02, A_INTSFUNC_MSKBL), (0x06, A_INTSFUNC_EXTBL), (0x0B, A_INTSFUNC_INSBL),
     (0x12, A_INTSFUNC_MSKWL), (0x16, A_INTSFUNC_EXTWL), (0x1B, A_INTSFUNC_INSWL),
     (0x22, A_INTSFUNC_MSKLL), (0x26, A_INTSFUNC_EXTLL), (0x2B, A_INTSFUNC_INSLL),
     (0x30, A_INTSFUNC_ZAP), (0x31, A_INTSFUNC_ZAPNOT), (0x32, A_INTSFUNC_MSKQL),
     (0x34, A_INTSFUNC_SRL), (0x36, A_INTSFUNC_EXTQL), (0x39, A_INTSFUNC_SLL),
     (0x3B, A_INTSFUNC_INSQL), (0x3C, A_INTSFUNC_SRA), (0x52, A_INTSFUNC_MSKWH),
     (0x57, A_INTSFUNC_INSWH), (0x5A, A_INTSFUNC_EXTWH), (0x62, A_INTSFUNC_MSKLH),
     (0x67, A_INTSFUNC_INSLH), (0x6A, A_INTSFUNC_EXTLH), (0x72, A_INTSFUNC_MSKQH),
     (0x77, A_INTSFUNC_INSQH), (0x7A, A_INTSFUNC_EXTQH)]"

datatype INTM_func =
    A_INTMFUNC_MULL | A_INTMFUNC_DIVL | A_INTMFUNC_MULQ | A_INTMFUNC_DIVQ | A_INTMFUNC_UMULH
    | A_INTMFUNC_MULL_V | A_INTMFUNC_UDIVL | A_INTMFUNC_MULQ_V | A_INTMFUNC_UDIVQ

definition INTM_func_codes :: "(nat \<times> INTM_func) list" where
  "INTM_func_codes =
    [(0x00, A_INTMFUNC_MULL), (0x08, A_INTMFUNC_DIVL), (0x20, A_INTMFUNC_MULQ),
     (0x28, A_INTMFUNC_DIVQ), (0x30, A_INTMFUNC_UMULH), (0x40, A_INTMFUNC_MULL_V),
     (0x48, A_INTMFUNC_UDIVL), (0x60, A_INTMFUNC_MULQ_V), (0x68, A_INTMFUNC_UDIVQ)]"

definition AMASK_BWX :: u64 where "AMASK_BWX = 0x001"
definition AMASK_FIX :: u64 where "AMASK_FIX = 0x002"
definition AMASK_CIX :: u64 where "AMASK_CIX = 0x004"
definition AMASK_MVI :: u64 where "AMASK_MVI = 0x100"
definition AMASK_TRAP :: u64 where "AMASK_TRAP = 0x200"
definition IMPLVER_EV4 :: u64 where "IMPLVER_EV4 = 0"
definition IMPLVER_EV5 :: u64 where "IMPLVER_EV5 = 1"
definition IMPLVER_EV6 :: u64 where "IMPLVER_EV6 = 2"

section \<open>Arithmetic\<close>

definition sext32 :: "u64 \<Rightarrow> u64" where
  "sext32 x = scast (ucast x :: 32 word)"

fun cmpbge_loop :: "u64 \<Rightarrow> u64 \<Rightarrow> nat list \<Rightarrow> u64 \<Rightarrow> u64" where
  "cmpbge_loop Ra Rb [] result = result"
| "cmpbge_loop Ra Rb (i # is) result =
     (let a = ucast (drop_bit (i * 8) Ra AND 0xFF) :: u8;
          b = ucast (drop_bit (i * 8) Rb AND 0xFF) :: u8
      in cmpbge_loop Ra Rb is (if b \<le> a then result OR push_bit i 1 else result))"

fun INTA_result :: "INTA_func \<Rightarrow> u64 \<Rightarrow> u64 \<Rightarrow> u64" where
  "INTA_result A_INTAFUNC_ADDL_V Ra Rb = sext32 (Ra + Rb)"
| "INTA_result A_INTAFUNC_ADDL Ra Rb = sext32 (Ra + Rb)"
| "INTA_result A_INTAFUNC_S4ADDL Ra Rb = sext32 (push_bit 2 Ra + Rb)"
| "INTA_result A_INTAFUNC_S8ADDL Ra Rb = sext32 (push_bit 3 Ra + Rb)"
| "INTA_result A_INTAFUNC_ADDQ_V Ra Rb = Ra + Rb"
| "INTA_result A_INTAFUNC_ADDQ Ra Rb = Ra + Rb"
| "INTA_result A_INTAFUNC_S4ADDQ Ra Rb = push_bit 2 Ra + Rb"
| "INTA_result A_INTAFUNC_S8ADDQ Ra Rb = push_bit 3 Ra + Rb"
| "INTA_result A_INTAFUNC_CMPEQ Ra Rb = (if sint Ra = sint Rb then 1 else 0)"
| "INTA_result A_INTAFUNC_CMPLT Ra Rb = (if sint Ra < sint Rb then 1 else 0)"
| "INTA_result A_INTAFUNC_CMPLE Ra Rb = (if sint Ra \<le> sint Rb then 1 else 0)"
| "INTA_result A_INTAFUNC_CMPULT Ra Rb = (if Ra < Rb then 1 else 0)"
| "INTA_result A_INTAFUNC_CMPULE Ra Rb = (if Ra \<le> Rb then 1 else 0)"
| "INTA_result A_INTAFUNC_SUBL_V Ra Rb = sext32 (Ra - Rb)"
| "INTA_result A_INTAFUNC_SUBL Ra Rb = sext32 (Ra - Rb)"
| "INTA_result A_INTAFUNC_S4SUBL Ra Rb = sext32 (push_bit 2 Ra - Rb)"
| "INTA_result A_INTAFUNC_S8SUBL Ra Rb = sext32 (push_bit 3 Ra - Rb)"
| "INTA_result A_INTAFUNC_SUBQ_V Ra Rb = Ra - Rb"
| "INTA_result A_INTAFUNC_SUBQ Ra Rb = Ra - Rb"
| "INTA_result A_INTAFUNC_S4SUBQ Ra Rb = push_bit 2 Ra - Rb"
| "INTA_result A_INTAFUNC_S8SUBQ Ra Rb = push_bit 3 Ra - Rb"
| "INTA_result A_INTAFUNC_CMPBGE Ra Rb = cmpbge_loop Ra Rb [0..<8] 0"

text \<open>A code that the switch does not list leaves the value as it is, but marks it as full.\<close>

definition ExecuteINTA :: "PipeValue \<Rightarrow> PipeValue \<Rightarrow> PipeValue \<Rightarrow> nat \<Rightarrow> (bool \<times> PipeValue) res" where
  "ExecuteINTA Rcv Rav Rbv func =
     res_bind (pv_integer Rav) (\<lambda>Ra. res_bind (pv_integer Rbv) (\<lambda>Rb.
       Inr (True, case map_of INTA_func_codes func of
           None \<Rightarrow> pv_full Rcv
         | Some f \<Rightarrow> pv_assign (INTA_result f Ra Rb) (pv_full Rcv))))"

section \<open>Logic and conditional moves\<close>

text \<open>\<open>None\<close>: the condition of a move does not hold.\<close>

fun INTL_result :: "INTL_func \<Rightarrow> u64 \<Rightarrow> u64 \<Rightarrow> u64 option" where
  "INTL_result A_INTLFUNC_AND Ra Rb = Some (Ra AND Rb)"
| "INTL_result A_INTLFUNC_BIC Ra Rb = Some (Ra AND NOT Rb)"
| "INTL_result A_INTLFUNC_BIS Ra Rb = Some (Ra OR Rb)"
| "INTL_result A_INTLFUNC_ORNOT Ra Rb = Some (Ra OR NOT Rb)"
| "INTL_result A_INTLFUNC_XOR Ra Rb = Some (Ra XOR Rb)"
| "INTL_result A_INTLFUNC_EQV Ra Rb = Some (Ra XOR NOT Rb)"
| "INTL_result A_INTLFUNC_CMOVEQ Ra Rb = (if sint Ra = 0 then Some Rb else None)"
| "INTL_result A_INTLFUNC_CMOVNE Ra Rb = (if sint Ra \<noteq> 0 then Some Rb else None)"
| "INTL_result A_INTLFUNC_CMOVLT Ra Rb = (if sint Ra < 0 then Some Rb else None)"
| "INTL_result A_INTLFUNC_CMOVGE Ra Rb = (if 0 \<le> sint Ra then Some Rb else None)"
| "INTL_result A_INTLFUNC_CMOVLE Ra Rb = (if sint Ra \<le> 0 then Some Rb else None)"
| "INTL_result A_INTLFUNC_CMOVGT Ra Rb = (if 0 < sint Ra then Some Rb else None)"
| "INTL_result A_INTLFUNC_CMOVLBS Ra Rb = (if Ra AND 1 \<noteq> 0 then Some Rb else None)"
| "INTL_result A_INTLFUNC_CMOVLBC Ra Rb = (if NOT Ra AND 1 \<noteq> 0 then Some Rb else None)"
| "INTL_result A_INTLFUNC_IMPLVER Ra Rb = Some IMPLVER_EV6"
| "INTL_result A_INTLFUNC_AMASK Ra Rb = Some (Rb AND (AMASK_BWX OR AMASK_FIX OR AMASK_CIX OR AMASK_MVI))"

definition ExecuteINTL :: "PipeValue \<Rightarrow> PipeValue \<Rightarrow> PipeValue \<Rightarrow> nat \<Rightarrow> (bool \<times> PipeValue) res" where
  "ExecuteINTL Rcv Rav Rbv func =
     res_bind (pv_integer Rav) (\<lambda>Ra. res_bind (pv_integer Rbv) (\<lambda>Rb.
       Inr (True, case map_of INTL_func_codes func of
           None \<Rightarrow> pv_full Rcv
         | Some f \<Rightarrow> (case INTL_result f Ra Rb of
               None \<Rightarrow> Rcv\<lparr>pv_state := RST_INVALID\<rparr>
             | Some x \<Rightarrow> pv_assign x (pv_full Rcv)))))"

section \<open>Bytes and shifts\<close>

text \<open>The loop over the bytes; the mask is an \<open>int\<close> that is shifted arithmetically.\<close>

fun byteZAP_loop :: "nat list \<Rightarrow> u64 \<Rightarrow> u32 \<Rightarrow> u64" where
  "byteZAP_loop [] op m = op"
| "byteZAP_loop (i # is) op m =
     byteZAP_loop is (if m AND 1 \<noteq> 0 then op AND NOT (push_bit (i * 8) 0xFF) else op) (signed_drop_bit 1 m)"

definition byteZAP :: "u64 \<Rightarrow> u32 \<Rightarrow> u64" where
  "byteZAP op m = byteZAP_loop [0..<8] op m"

definition low3 :: "u64 \<Rightarrow> nat" where
  "low3 Rb = unat (Rb AND 7)"

fun INTS_result :: "INTS_func \<Rightarrow> u64 \<Rightarrow> u64 \<Rightarrow> u64 res" where
  "INTS_result A_INTSFUNC_MSKBL Ra Rb = Inr (byteZAP Ra (push_bit (low3 Rb) 0x01))"
| "INTS_result A_INTSFUNC_MSKWL Ra Rb = Inr (byteZAP Ra (push_bit (low3 Rb) 0x03))"
| "INTS_result A_INTSFUNC_MSKLL Ra Rb = Inr (byteZAP Ra (push_bit (low3 Rb) 0x0F))"
| "INTS_result A_INTSFUNC_MSKQL Ra Rb = Inr (byteZAP Ra (push_bit (low3 Rb) 0xFF))"
| "INTS_result A_INTSFUNC_MSKWH Ra Rb = Inr (byteZAP Ra (signed_drop_bit 8 (push_bit (low3 Rb) 0x03)))"
| "INTS_result A_INTSFUNC_MSKLH Ra Rb = Inr (byteZAP Ra (signed_drop_bit 8 (push_bit (low3 Rb) 0x0F)))"
| "INTS_result A_INTSFUNC_MSKQH Ra Rb = Inr (byteZAP Ra (signed_drop_bit 8 (push_bit (low3 Rb) 0xFF)))"
| "INTS_result A_INTSFUNC_EXTBL Ra Rb = Inr (byteZAP (drop_bit (low3 Rb * 8) Ra) (NOT 0x01))"
| "INTS_result A_INTSFUNC_EXTWL Ra Rb = Inr (byteZAP (drop_bit (low3 Rb * 8) Ra) (NOT 0x03))"
| "INTS_result A_INTSFUNC_EXTLL Ra Rb = Inr (byteZAP (drop_bit (low3 Rb * 8) Ra) (NOT 0x0F))"
| "INTS_result A_INTSFUNC_EXTQL Ra Rb = Inr (byteZAP (drop_bit (low3 Rb * 8) Ra) (NOT 0xFF))"
| "INTS_result A_INTSFUNC_EXTWH Ra Rb =
     res_bind (shift_left (64 - low3 Rb * 8) Ra) (\<lambda>x. Inr (byteZAP x (NOT 0x03)))"
| "INTS_result A_INTSFUNC_EXTLH Ra Rb =
     res_bind (shift_left (64 - low3 Rb * 8) Ra) (\<lambda>x. Inr (byteZAP x (NOT 0x0F)))"
| "INTS_result A_INTSFUNC_EXTQH Ra Rb =
     res_bind (shift_left (64 - low3 Rb * 8) Ra) (\<lambda>x. Inr (byteZAP x (NOT 0xFF)))"
| "INTS_result A_INTSFUNC_INSBL Ra Rb =
     Inr (byteZAP (push_bit (low3 Rb * 8) Ra) (NOT (push_bit (low3 Rb) 0x01)))"
| "INTS_result A_INTSFUNC_INSWL Ra Rb =
     Inr (byteZAP (push_bit (low3 Rb * 8) Ra) (NOT (push_bit (low3 Rb) 0x03)))"
| "INTS_result A_INTSFUNC_INSLL Ra Rb =
     Inr (byteZAP (push_bit (low3 Rb * 8) Ra) (NOT (push_bit (low3 Rb) 0x0F)))"
| "INTS_result A_INTSFUNC_INSQL Ra Rb =
     Inr (byteZAP (push_bit (low3 Rb * 8) Ra) (NOT (push_bit (low3 Rb) 0xFF)))"
| "INTS_result A_INTSFUNC_INSWH Ra Rb =
     res_bind (shift_left (64 - low3 Rb * 8) Ra) (\<lambda>x. Inr (byteZAP x (NOT (push_bit (low3 Rb) 0x03))))"
| "INTS_result A_INTSFUNC_INSLH Ra Rb =
     res_bind (shift_left (64 - low3 Rb * 8) Ra) (\<lambda>x. Inr (byteZAP x (NOT (push_bit (low3 Rb) 0x0F))))"
| "INTS_result A_INTSFUNC_INSQH Ra Rb =
     res_bind (shift_left (64 - low3 Rb * 8) Ra) (\<lambda>x. Inr (byteZAP x (NOT (push_bit (low3 Rb) 0xFF))))"
| "INTS_result A_INTSFUNC_ZAP Ra Rb = Inr (byteZAP Ra (ucast (ucast Rb :: u8)))"
| "INTS_result A_INTSFUNC_ZAPNOT Ra Rb = Inr (byteZAP Ra (ucast (ucast (NOT Rb) :: u8)))"
| "INTS_result A_INTSFUNC_SLL Ra Rb = Inr (push_bit (unat (Rb AND 0x3F)) Ra)"
| "INTS_result A_INTSFUNC_SRL Ra Rb = Inr (drop_bit (unat (Rb AND 0x3F)) Ra)"
| "INTS_result A_INTSFUNC_SRA Ra Rb = Inr (signed_drop_bit (unat (Rb AND 0x3F)) Ra)"

definition ExecuteINTS :: "PipeValue \<Rightarrow> PipeValue \<Rightarrow> PipeValue \<Rightarrow> nat \<Rightarrow> (bool \<times> PipeValue) res" where
  "ExecuteINTS Rcv Rav Rbv func =
     res_bind (pv_integer Rav) (\<lambda>Ra. res_bind (pv_integer Rbv) (\<lambda>Rb.
       case map_of INTS_func_codes func of
         None \<Rightarrow> Inr (True, pv_full Rcv)
       | Some f \<Rightarrow> res_bind (INTS_result f Ra Rb) (\<lambda>x. Inr (True, pv_assign x (pv_full Rcv)))))"

section \<open>Multiplication and division\<close>

text \<open>The 128-bit product from four 64-bit products of halves, high word first.\<close>

definition mul128b :: "u64 \<Rightarrow> u64 \<Rightarrow> u64 \<times> u64" where
  "mul128b op1 op2 =
     (let op1H = drop_bit 32 op1; op1L = op1 AND 0xFFFFFFFF;
          op2H = drop_bit 32 op2; op2L = op2 AND 0xFFFFFFFF;
          x = op1L * op2L;
          y = push_bit 32 (op1L * op2H);
          z = x + y;
          carry = (if z < x \<or> z < y then 1 else 0);
          x' = z;
          y' = push_bit 32 (op1H * op2L);
          z' = x' + y';
          carry' = (if z' < x' \<or> z' < y' then carry + 1 else carry)
      in (op1H * op2H + drop_bit 32 (op1L * op2H) + drop_bit 32 (op1H * op2L) + carry', z'))"

definition signed_range :: "nat \<Rightarrow> int \<Rightarrow> u64 res" where
  "signed_range n x = (if - (2 ^ (n - 1)) \<le> x \<and> x < 2 ^ (n - 1) then Inr (word_of_int x) else Inl UndefinedBehaviour)"

fun INTM_result :: "INTM_func \<Rightarrow> u64 \<Rightarrow> u64 \<Rightarrow> u64 res" where
  "INTM_result A_INTMFUNC_MULL_V Ra Rb =
     signed_range 32 (sint (ucast Ra :: 32 word) * sint (ucast Rb :: 32 word))"
| "INTM_result A_INTMFUNC_MULL Ra Rb =
     signed_range 32 (sint (ucast Ra :: 32 word) * sint (ucast Rb :: 32 word))"
| "INTM_result A_INTMFUNC_MULQ_V Ra Rb = Inr (snd (mul128b Ra Rb))"
| "INTM_result A_INTMFUNC_MULQ Ra Rb = Inr (snd (mul128b Ra Rb))"
| "INTM_result A_INTMFUNC_UMULH Ra Rb = Inr (fst (mul128b Ra Rb))"
| "INTM_result A_INTMFUNC_DIVL Ra Rb =
     (if (ucast Rb :: 32 word) = 0 then Inl IllegalInstruction
      else signed_range 32 (sint (ucast Ra :: 32 word) sdiv sint (ucast Rb :: 32 word)))"
| "INTM_result A_INTMFUNC_DIVQ Ra Rb =
     (if Rb = 0 then Inl IllegalInstruction else signed_range 64 (sint Ra sdiv sint Rb))"
| "INTM_result A_INTMFUNC_UDIVL Ra Rb =
     (if (ucast Rb :: 32 word) = 0 then Inl IllegalInstruction
      else Inr (ucast ((ucast Ra :: 32 word) div ucast Rb)))"
| "INTM_result A_INTMFUNC_UDIVQ Ra Rb = (if Rb = 0 then Inl IllegalInstruction else Inr (Ra div Rb))"

definition ExecuteINTM :: "PipeValue \<Rightarrow> PipeValue \<Rightarrow> PipeValue \<Rightarrow> nat \<Rightarrow> (bool \<times> PipeValue) res" where
  "ExecuteINTM Rcv Rav Rbv func =
     res_bind (pv_integer Rav) (\<lambda>Ra. res_bind (pv_integer Rbv) (\<lambda>Rb.
       case map_of INTM_func_codes func of
         None \<Rightarrow> Inl AssertionFailure
       | Some f \<Rightarrow> res_bind (INTM_result f Ra Rb) (\<lambda>x. Inr (True, pv_assign x (pv_full Rcv)))))"

section \<open>Bytes\<close>

definition byte_of :: "u64 \<Rightarrow> nat \<Rightarrow> u8" where
  "byte_of w j = ucast (drop_bit (8 * j) w)"

lemma low_bit_set: "(m :: 'a::len word) AND 1 \<noteq> 0 \<longleftrightarrow> bit m 0"
  by (metis and_exp_eq_0_iff_not_bit power_0)

lemma FF_bit: "bit (push_bit (i * 8) (0xFF :: u64)) j \<longleftrightarrow> i * 8 \<le> j \<and> j < i * 8 + 8 \<and> j < 64"
  unfolding FF_mask bit_push_bit_iff bit_mask_iff by auto

lemma byteZAP_loop_bit:
  "k \<le> 8 \<Longrightarrow> bit (byteZAP_loop [k..<8] op m) j \<longleftrightarrow> bit op j \<and> \<not> (8 * k \<le> j \<and> bit m (j div 8 - k))"
proof (induction "8 - k" arbitrary: k op m)
  case 0
  then show ?case by (auto dest: bit_imp_le_length)
next
  case (Suc d)
  let ?op = "if bit m 0 then op AND NOT (push_bit (k * 8) 0xFF) else op"
  have loop: "byteZAP_loop [k..<8] op m = byteZAP_loop [Suc k..<8] ?op (signed_drop_bit 1 m)"
    using Suc.hyps(2) by (simp add: upt_conv_Cons low_bit_set del: upt_Suc)
  have IH: "bit (byteZAP_loop [Suc k..<8] ?op (signed_drop_bit 1 m)) j \<longleftrightarrow>
      bit ?op j \<and> \<not> (8 * Suc k \<le> j \<and> bit (signed_drop_bit 1 m) (j div 8 - Suc k))"
    by (rule Suc.hyps(1)) (use Suc.hyps(2) in simp_all)
  have op: "bit ?op j \<longleftrightarrow> bit op j \<and> \<not> (bit m 0 \<and> j div 8 = k)"
    using bit_imp_le_length [of op j] by (auto simp: bit_and_iff bit_not_iff FF_bit)
  have le: "8 * i \<le> j \<longleftrightarrow> i \<le> j div 8" for i
    using less_eq_div_iff_mult_less_eq [of 8 i j] by (simp add: mult.commute)
  have sh: "Suc k \<le> j div 8 \<Longrightarrow> j < 64 \<Longrightarrow> bit (signed_drop_bit 1 m) (j div 8 - Suc k) = bit m (j div 8 - k)"
    by (auto simp: bit_signed_drop_bit_iff Suc_diff_Suc)
  have lt: "Suc k \<le> j div 8 \<longleftrightarrow> k \<le> j div 8 \<and> j div 8 \<noteq> k" by auto
  show ?case unfolding loop IH op le
    using bit_imp_le_length [of op j] sh lt by (cases "Suc k \<le> j div 8"; cases "bit op j") auto
qed

lemma byteZAP_bit: "bit (byteZAP op m) j \<longleftrightarrow> bit op j \<and> \<not> bit m (j div 8)"
  unfolding byteZAP_def by (simp add: byteZAP_loop_bit)

lemma byte_of_bit: "bit (byte_of w j) i \<longleftrightarrow> i < 8 \<and> bit w (8 * j + i)"
  by (auto simp: byte_of_def bit_simps dest: bit_imp_le_length)

lemma byte_of_byteZAP: "byte_of (byteZAP op m) j = (if bit m j then 0 else byte_of op j)"
  by (rule bit_eqI) (auto simp: byte_of_bit byteZAP_bit dest: bit_imp_le_length)

lemma byte_of_drop: "byte_of (drop_bit (n * 8) w) j = byte_of w (n + j)"
  by (rule bit_eqI) (auto simp: byte_of_bit bit_drop_bit_eq algebra_simps)

lemma byte_of_push: "j < 8 \<Longrightarrow> byte_of (push_bit (n * 8) w) j = (if n \<le> j then byte_of w (j - n) else 0)"
  by (rule bit_eqI) (auto simp: byte_of_bit bit_push_bit_iff algebra_simps)

text \<open>The masks: \<open>n\<close> bytes from byte \<open>k\<close>.\<close>

lemma byte_masks:
  "(0x01 :: u32) = mask 1" "(0x03 :: u32) = mask 2" "(0x0F :: u32) = mask 4" "(0xFF :: u32) = mask 8"
  by (simp_all add: mask_eq_exp_minus_1)

lemma low3_less: "low3 Rb < 8"
proof -
  have "Rb AND 7 = take_bit 3 Rb" by (simp add: take_bit_eq_mask mask_eq_exp_minus_1)
  then have "low3 Rb = take_bit 3 (unat Rb)" by (simp add: low3_def unsigned_take_bit_eq)
  then show ?thesis by (simp add: take_bit_eq_mod)
qed

lemma mask_bytes:
  assumes "n \<le> 8" and "j < 8" and "k < 8"
  shows "bit (push_bit k (mask n) :: u32) j \<longleftrightarrow> k \<le> j \<and> j < k + n"
    and "bit (NOT (push_bit k (mask n)) :: u32) j \<longleftrightarrow> \<not> (k \<le> j \<and> j < k + n)"
    and "bit (signed_drop_bit 8 (push_bit k (mask n)) :: u32) j \<longleftrightarrow> j + 8 < k + n"
  using assms by (auto simp: bit_push_bit_iff bit_mask_iff bit_not_iff bit_signed_drop_bit_iff)

text \<open>The four shapes of byte instructions, for a field of \<open>n\<close> bytes.\<close>

lemma byte_shapes:
  assumes "n \<le> 8" and "j < 8" and "k < 8"
  shows "byte_of (byteZAP w (push_bit k (mask n))) j = (if k \<le> j \<and> j < k + n then 0 else byte_of w j)"
    and "byte_of (byteZAP w (signed_drop_bit 8 (push_bit k (mask n)))) j = (if j + 8 < k + n then 0 else byte_of w j)"
    and "byte_of (byteZAP w (NOT (mask n))) j = (if j < n then byte_of w j else 0)"
    and "byte_of (byteZAP w (NOT (push_bit k (mask n)))) j = (if k \<le> j \<and> j < k + n then byte_of w j else 0)"
  using mask_bytes [OF assms] mask_bytes(2) [OF assms(1,2), of 0]
  by (simp_all only: byte_of_byteZAP) simp_all

section \<open>Arithmetic on the whole words\<close>

lemma min_31_63: "min 31 (min 63 n) = min 31 (n :: nat)" by simp

lemma sint_sext32: "sint (sext32 (word_of_int k)) = signed_take_bit 31 k"
  by (rule bit_eqI) (auto simp: sext32_def bit_simps min_31_63)

lemma sint_wrap: "sint (word_of_int k :: u64) = signed_take_bit 63 k"
  by (simp add: signed_of_int)

lemma words_of_sint:
  "x + y = word_of_int (sint x + sint y)" "x - y = word_of_int (sint x - sint y)"
  "push_bit n x + y = word_of_int (2 ^ n * sint x + sint y)"
  "push_bit n x - y = word_of_int (2 ^ n * sint x - sint y)" for x y :: u64
  by (simp_all add: push_bit_eq_mult)

lemma cmpbge_loop_bit:
  "bit (cmpbge_loop Ra Rb is r) i \<longleftrightarrow> bit r i \<or> i < 64 \<and> i \<in> set is \<and> byte_of Rb i \<le> byte_of Ra i"
proof (induction "is" arbitrary: r)
  case (Cons k ks)
  have "ucast (drop_bit (k * 8) w AND 0xFF) = byte_of w k" for w
    by (simp add: byte_of_def low_byte_word mult.commute)
  then show ?case using Cons by (auto simp: Let_def bit_or_iff exp_bit)
qed simp

lemma sdiv_bound:
  fixes a b :: int
  assumes "0 < M" and a: "- M \<le> a" "a < M" and b: "b \<noteq> 0" and "\<not> (a = - M \<and> b = - 1)"
  shows "- M \<le> a sdiv b \<and> a sdiv b < M"
proof -
  have q: "a sdiv b = sgn a * sgn b * (\<bar>a\<bar> div \<bar>b\<bar>)" by (simp add: signed_divide_int_def sgn_mult abs_mult)
  have le: "0 \<le> \<bar>a\<bar> div \<bar>b\<bar>" "\<bar>a\<bar> div \<bar>b\<bar> \<le> \<bar>a\<bar>"
    using b zdiv_mono2 [of "\<bar>a\<bar>" 1 "\<bar>b\<bar>"] by (simp_all add: pos_imp_zdiv_nonneg_iff)
  have abs: "\<bar>a sdiv b\<bar> \<le> \<bar>a\<bar> div \<bar>b\<bar>"
    unfolding q abs_mult using le(1) by (simp add: sgn_if)
  show ?thesis
  proof (cases "a = - M")
    case False
    then show ?thesis using abs le a by linarith
  next
    case min: True
    then have "b \<noteq> - 1" using assms(5) by simp
    show ?thesis
    proof (cases "b = 1")
      case True
      then show ?thesis using min assms(1) by (simp add: q)
    next
      case False
      then have "2 \<le> \<bar>b\<bar>" using b \<open>b \<noteq> - 1\<close> by linarith
      then have "\<bar>a\<bar> div \<bar>b\<bar> < \<bar>a\<bar>" using min assms(1) by (intro int_div_less_self) auto
      then show ?thesis using abs min assms(1) by linarith
    qed
  qed
qed

lemma sdiv_minus_one: "a sdiv - 1 = - (a :: int)"
  by (simp add: signed_divide_int_def mult_sgn_abs sgn_if)

lemma sint_bounds:
  "- (2 ^ 63) \<le> sint (x :: u64)" "sint x < 2 ^ 63" "- (2 ^ 31) \<le> sint (y :: 32 word)" "sint y < 2 ^ 31"
  using sint_ge [of x] sint_lt [of x] sint_ge [of y] sint_lt [of y] by simp_all

lemma sint_of_range: "- (2 ^ 63) \<le> k \<Longrightarrow> k < 2 ^ 63 \<Longrightarrow> sint (word_of_int k :: u64) = k"
  by (simp add: signed_of_int signed_take_bit_int_eq_self)

lemma signed_range_cases:
  "- (2 ^ 31) \<le> k \<and> k < 2 ^ 31 \<Longrightarrow> \<exists>w. signed_range 32 k = Inr w \<and> sint w = k"
  "- (2 ^ 63) \<le> k \<and> k < 2 ^ 63 \<Longrightarrow> \<exists>w. signed_range 64 k = Inr w \<and> sint w = k"
  by (auto simp: signed_range_def intro!: sint_of_range)

section \<open>The product of two words\<close>

lemma unat_64: "unat x < 2 ^ 64" for x :: u64
proof -
  have "unat x < 2 ^ LENGTH(64)" by (rule unsigned_less)
  then show ?thesis by simp
qed

lemma unat_widen: "unat (ucast w :: u64) = unat w" for w :: "32 word"
proof -
  have "unat w < 2 ^ LENGTH(32)" by (rule unsigned_less)
  then show ?thesis by (simp add: unsigned_ucast_eq take_bit_nat_eq_self)
qed

lemma add_carry: "unat x + unat y = unat (x + y) + (if x + y < x \<or> x + y < y then 2 ^ 64 else 0)" for x y :: u64
  using unat_64 [of x] unat_64 [of y] by (auto simp: word_less_nat_alt unat_plus_if')

lemma word_halves:
  "unat (drop_bit 32 x) = unat x div 2 ^ 32" "unat (x AND 0xFFFFFFFF) = unat x mod 2 ^ 32"
  "unat (push_bit 32 x) = unat x mod 2 ^ 32 * 2 ^ 32" for x :: u64
proof -
  have "x AND 0xFFFFFFFF = take_bit 32 x" by (simp add: take_bit_eq_mask mask_eq_exp_minus_1)
  then show "unat (x AND 0xFFFFFFFF) = unat x mod 2 ^ 32"
    using unsigned_take_bit_eq [of 32 x, where 'a = nat] by (simp only: take_bit_eq_mod [where 'a = nat])
  show "unat (drop_bit 32 x) = unat x div 2 ^ 32"
    by (simp only: unat_drop_bit_eq drop_bit_eq_div [where 'a = nat])
  have "unat x * 2 ^ 32 mod (2 ^ 32 * 2 ^ 32) = unat x mod 2 ^ 32 * 2 ^ 32" by (rule mod_mult_mult2)
  then show "unat (push_bit 32 x) = unat x mod 2 ^ 32 * 2 ^ 32"
    using unsigned_push_bit_eq [of 32 x, where 'a = nat]
    by (simp only: push_bit_eq_mult [where 'a = nat] take_bit_eq_mod [where 'a = nat] len64) simp
qed

lemma half_product:
  assumes "unat x < 2 ^ 32" "unat y < 2 ^ 32"
  shows "unat (x * y :: u64) = unat x * unat y"
proof -
  have "unat x * unat y < 2 ^ 32 * 2 ^ 32" by (rule mult_strict_mono) (use assms in simp_all)
  then show ?thesis using unat_mult_lem [of x y] by simp
qed

lemma carry_sum:
  assumes "p = ph * 2 ^ 32 + pl" "q = qh * 2 ^ 32 + ql"
    and "x + pl * 2 ^ 32 = z + c * 2 ^ 64" "z + ql * 2 ^ 32 = l + d * 2 ^ 64"
  shows "(m + ph + qh + c + d) * 2 ^ 64 + l = m * 2 ^ 64 + p * 2 ^ 32 + q * 2 ^ 32 + (x :: nat)"
  using assms by simp

lemma halves_total:
  fixes aH aL bH bL :: u64
  assumes lt: "unat aH < 2 ^ 32" "unat aL < 2 ^ 32" "unat bH < 2 ^ 32" "unat bL < 2 ^ 32"
    and z: "z = aL * bL + push_bit 32 (aL * bH)" and l: "l = z + push_bit 32 (aH * bL)"
    and c: "c = (if z < aL * bL \<or> z < push_bit 32 (aL * bH) then 1 else 0)"
    and d: "d = (if l < z \<or> l < push_bit 32 (aH * bL) then 1 else 0)"
  shows "(unat aH * unat bH + unat (aL * bH) div 2 ^ 32 + unat (aH * bL) div 2 ^ 32 + c + d) * 2 ^ 64 + unat l
    = (unat aH * 2 ^ 32 + unat aL) * (unat bH * 2 ^ 32 + unat bL)"
proof -
  define ph pl where p: "ph = unat (aL * bH) div 2 ^ 32" "pl = unat (aL * bH) mod 2 ^ 32"
  define qh ql where q: "qh = unat (aH * bL) div 2 ^ 32" "ql = unat (aH * bL) mod 2 ^ 32"
  have "unat (aL * bH) = ph * 2 ^ 32 + pl" "unat (aH * bL) = qh * 2 ^ 32 + ql"
    unfolding p q by (simp_all only: div_mult_mod_eq)
  moreover have "unat (aL * bL) + pl * 2 ^ 32 = unat z + c * 2 ^ 64"
    using add_carry [of "aL * bL" "push_bit 32 (aL * bH)"] by (auto simp: word_halves(3) c z p)
  moreover have "unat z + ql * 2 ^ 32 = unat l + d * 2 ^ 64"
    using add_carry [of z "push_bit 32 (aH * bL)"] by (auto simp: word_halves(3) d l q)
  ultimately have "(unat aH * unat bH + ph + qh + c + d) * 2 ^ 64 + unat l
      = unat aH * unat bH * 2 ^ 64 + unat (aL * bH) * 2 ^ 32 + unat (aH * bL) * 2 ^ 32 + unat (aL * bL)"
    by (rule carry_sum)
  also have "\<dots> = (unat aH * 2 ^ 32 + unat aL) * (unat bH * 2 ^ 32 + unat bL)"
    unfolding half_product [OF lt(2,4)] half_product [OF lt(2,3)] half_product [OF lt(1,4)]
    by (simp add: algebra_simps)
  finally show ?thesis unfolding p q .
qed

lemma mul128b_exact: "unat (fst (mul128b a b)) * 2 ^ 64 + unat (snd (mul128b a b)) = unat a * unat b"
proof -
  define aH aL bH bL where h: "aH = drop_bit 32 a" "aL = a AND 0xFFFFFFFF" "bH = drop_bit 32 b" "bL = b AND 0xFFFFFFFF"
  define z where "z = aL * bL + push_bit 32 (aL * bH)"
  define l where "l = z + push_bit 32 (aH * bL)"
  define c where "c = (if z < aL * bL \<or> z < push_bit 32 (aL * bH) then 1 else 0 :: nat)"
  define d where "d = (if l < z \<or> l < push_bit 32 (aH * bL) then 1 else 0 :: nat)"
  define N where "N = unat aH * unat bH + unat (aL * bH) div 2 ^ 32 + unat (aH * bL) div 2 ^ 32 + c + d"
  have lt: "unat aH < 2 ^ 32" "unat aL < 2 ^ 32" "unat bH < 2 ^ 32" "unat bL < 2 ^ 32"
    unfolding h word_halves using unat_64 [of a] unat_64 [of b] by (simp_all add: div_less_iff_less_mult)
  have "unat a = unat aH * 2 ^ 32 + unat aL" "unat b = unat bH * 2 ^ 32 + unat bL"
    unfolding h word_halves by (simp_all only: div_mult_mod_eq)
  then have total: "N * 2 ^ 64 + unat l = unat a * unat b"
    using halves_total [OF lt z_def l_def c_def d_def] unfolding N_def by simp
  have "fst (mul128b a b) = aH * bH + drop_bit 32 (aL * bH) + drop_bit 32 (aH * bL) + of_nat (c + d)"
    by (simp add: mul128b_def Let_def h [symmetric] c_def d_def z_def l_def)
  also have "\<dots> = of_nat N" unfolding N_def word_halves(1) [symmetric] by simp
  finally have H: "fst (mul128b a b) = of_nat N" .
  have L: "snd (mul128b a b) = l" by (simp add: mul128b_def Let_def h [symmetric] z_def l_def)
  have "unat a * unat b < 2 ^ 64 * 2 ^ 64"
    by (rule mult_strict_mono) (use unat_64 [of a] unat_64 [of b] in simp_all)
  then have "N * 2 ^ 64 < 2 ^ 64 * 2 ^ 64" using total by linarith
  then have "N < 2 ^ 64" by (simp only: mult_less_cancel2)
  then have "unat (of_nat N :: u64) = N" by (simp add: unat_of_nat)
  then show ?thesis unfolding H L using total by simp
qed

text \<open>
  C32. Multiplication and division of the Alpha. The two halves of a 64-bit product, computed from
  products of 32-bit halves and their carries, are exactly the 128-bit product. Quotients are the
  truncated ones, of signed or unsigned, 64-bit or 32-bit operands; a division by zero raises the
  illegal instruction exception. A signed 32-bit product that does not fit and the quotient of the
  least number by minus one are undefined, every other signed result is exact.
\<close>

theorem INTM_correct:
  fixes Ra Rb :: u64
  defines "a \<equiv> ucast Ra :: 32 word" and "b \<equiv> ucast Rb :: 32 word"
  shows "(\<exists>h l. INTM_result A_INTMFUNC_UMULH Ra Rb = Inr h \<and> INTM_result A_INTMFUNC_MULQ Ra Rb = Inr l
        \<and> unat h * 2 ^ 64 + unat l = unat Ra * unat Rb)
    \<and> (if - (2 ^ 31) \<le> sint a * sint b \<and> sint a * sint b < 2 ^ 31
       then \<exists>l. INTM_result A_INTMFUNC_MULL Ra Rb = Inr l \<and> sint l = sint a * sint b
       else INTM_result A_INTMFUNC_MULL Ra Rb = Inl UndefinedBehaviour)
    \<and> (if Rb = 0 then INTM_result A_INTMFUNC_DIVQ Ra Rb = Inl IllegalInstruction
         \<and> INTM_result A_INTMFUNC_UDIVQ Ra Rb = Inl IllegalInstruction
       else (\<exists>q. INTM_result A_INTMFUNC_UDIVQ Ra Rb = Inr q \<and> unat q = unat Ra div unat Rb)
         \<and> (if sint Ra = - (2 ^ 63) \<and> sint Rb = - 1 then INTM_result A_INTMFUNC_DIVQ Ra Rb = Inl UndefinedBehaviour
            else \<exists>q. INTM_result A_INTMFUNC_DIVQ Ra Rb = Inr q \<and> sint q = sint Ra sdiv sint Rb))
    \<and> (if b = 0 then INTM_result A_INTMFUNC_DIVL Ra Rb = Inl IllegalInstruction
         \<and> INTM_result A_INTMFUNC_UDIVL Ra Rb = Inl IllegalInstruction
       else (\<exists>q. INTM_result A_INTMFUNC_UDIVL Ra Rb = Inr q \<and> unat q = unat a div unat b)
         \<and> (if sint a = - (2 ^ 31) \<and> sint b = - 1 then INTM_result A_INTMFUNC_DIVL Ra Rb = Inl UndefinedBehaviour
            else \<exists>q. INTM_result A_INTMFUNC_DIVL Ra Rb = Inr q \<and> sint q = sint a sdiv sint b))"
proof (intro conjI)
  show "\<exists>h l. INTM_result A_INTMFUNC_UMULH Ra Rb = Inr h \<and> INTM_result A_INTMFUNC_MULQ Ra Rb = Inr l
      \<and> unat h * 2 ^ 64 + unat l = unat Ra * unat Rb"
    using mul128b_exact [of Ra Rb] by (intro exI conjI) (rule INTM_result.simps | assumption)+
  show "if - (2 ^ 31) \<le> sint a * sint b \<and> sint a * sint b < 2 ^ 31
      then \<exists>l. INTM_result A_INTMFUNC_MULL Ra Rb = Inr l \<and> sint l = sint a * sint b
      else INTM_result A_INTMFUNC_MULL Ra Rb = Inl UndefinedBehaviour"
    unfolding INTM_result.simps a_def [symmetric] b_def [symmetric]
    using signed_range_cases(1) [of "sint a * sint b"] by (auto simp: signed_range_def)
  show "if Rb = 0 then INTM_result A_INTMFUNC_DIVQ Ra Rb = Inl IllegalInstruction
         \<and> INTM_result A_INTMFUNC_UDIVQ Ra Rb = Inl IllegalInstruction
       else (\<exists>q. INTM_result A_INTMFUNC_UDIVQ Ra Rb = Inr q \<and> unat q = unat Ra div unat Rb)
         \<and> (if sint Ra = - (2 ^ 63) \<and> sint Rb = - 1 then INTM_result A_INTMFUNC_DIVQ Ra Rb = Inl UndefinedBehaviour
            else \<exists>q. INTM_result A_INTMFUNC_DIVQ Ra Rb = Inr q \<and> sint q = sint Ra sdiv sint Rb)"
    unfolding INTM_result.simps
    using sdiv_bound [of "2 ^ 63" "sint Ra" "sint Rb"] sint_bounds(1,2) [of Ra] signed_range_cases(2) [of "sint Ra sdiv sint Rb"]
    by (auto simp: unat_div signed_range_def sdiv_minus_one signed_eq_0_iff)
  show "if b = 0 then INTM_result A_INTMFUNC_DIVL Ra Rb = Inl IllegalInstruction
         \<and> INTM_result A_INTMFUNC_UDIVL Ra Rb = Inl IllegalInstruction
       else (\<exists>q. INTM_result A_INTMFUNC_UDIVL Ra Rb = Inr q \<and> unat q = unat a div unat b)
         \<and> (if sint a = - (2 ^ 31) \<and> sint b = - 1 then INTM_result A_INTMFUNC_DIVL Ra Rb = Inl UndefinedBehaviour
            else \<exists>q. INTM_result A_INTMFUNC_DIVL Ra Rb = Inr q \<and> sint q = sint a sdiv sint b)"
    unfolding INTM_result.simps a_def [symmetric] b_def [symmetric]
    using sdiv_bound [of "2 ^ 31" "sint a" "sint b"] sint_bounds(3,4) [of a] signed_range_cases(1) [of "sint a sdiv sint b"]
    by (auto simp: unat_widen unat_div signed_range_def sdiv_minus_one signed_eq_0_iff)
qed

text \<open>The conditional moves with opposite conditions.\<close>

definition opposite_moves :: "(INTL_func \<times> INTL_func) list" where
  "opposite_moves = [(A_INTLFUNC_CMOVEQ, A_INTLFUNC_CMOVNE), (A_INTLFUNC_CMOVLT, A_INTLFUNC_CMOVGE),
     (A_INTLFUNC_CMOVLE, A_INTLFUNC_CMOVGT), (A_INTLFUNC_CMOVLBS, A_INTLFUNC_CMOVLBC)]"

text \<open>
  C33. Sums, differences and scaled sums wrap around at 64 bits, or at 32 bits with the sign extended;
  the comparison of bytes sets one bit for each byte of the first operand that is at least the byte of
  the second; and of the two conditional moves with opposite conditions exactly one moves its
  operand.
\<close>

theorem INTA_INTL_correct:
  "sint (INTA_result A_INTAFUNC_ADDQ Ra Rb) = signed_take_bit 63 (sint Ra + sint Rb)
    \<and> sint (INTA_result A_INTAFUNC_SUBQ Ra Rb) = signed_take_bit 63 (sint Ra - sint Rb)
    \<and> sint (INTA_result A_INTAFUNC_S8SUBQ Ra Rb) = signed_take_bit 63 (8 * sint Ra - sint Rb)
    \<and> sint (INTA_result A_INTAFUNC_ADDL Ra Rb) = signed_take_bit 31 (sint Ra + sint Rb)
    \<and> sint (INTA_result A_INTAFUNC_SUBL Ra Rb) = signed_take_bit 31 (sint Ra - sint Rb)
    \<and> sint (INTA_result A_INTAFUNC_S4ADDL Ra Rb) = signed_take_bit 31 (4 * sint Ra + sint Rb)
    \<and> bit (INTA_result A_INTAFUNC_CMPBGE Ra Rb) i = (i < 8 \<and> byte_of Rb i \<le> byte_of Ra i)
    \<and> list_all (\<lambda>(f, g). {INTL_result f Ra Rb, INTL_result g Ra Rb} = {None, Some Rb}) opposite_moves"
proof (intro conjI)
  show "sint (INTA_result A_INTAFUNC_ADDQ Ra Rb) = signed_take_bit 63 (sint Ra + sint Rb)"
    "sint (INTA_result A_INTAFUNC_SUBQ Ra Rb) = signed_take_bit 63 (sint Ra - sint Rb)"
    unfolding INTA_result.simps words_of_sint(1,2) by (rule sint_wrap)+
  show "sint (INTA_result A_INTAFUNC_S8SUBQ Ra Rb) = signed_take_bit 63 (8 * sint Ra - sint Rb)"
    unfolding INTA_result.simps words_of_sint(4) sint_wrap by simp
  show "sint (INTA_result A_INTAFUNC_ADDL Ra Rb) = signed_take_bit 31 (sint Ra + sint Rb)"
    "sint (INTA_result A_INTAFUNC_SUBL Ra Rb) = signed_take_bit 31 (sint Ra - sint Rb)"
    unfolding INTA_result.simps words_of_sint(1,2) by (rule sint_sext32)+
  show "sint (INTA_result A_INTAFUNC_S4ADDL Ra Rb) = signed_take_bit 31 (4 * sint Ra + sint Rb)"
    unfolding INTA_result.simps words_of_sint(3) sint_sext32 by simp
  show "bit (INTA_result A_INTAFUNC_CMPBGE Ra Rb) i = (i < 8 \<and> byte_of Rb i \<le> byte_of Ra i)"
    unfolding INTA_result.simps cmpbge_loop_bit by auto
  have "NOT Ra AND 1 \<noteq> 0 \<longleftrightarrow> \<not> Ra AND 1 \<noteq> 0"
    unfolding low_bit_set by (simp add: bit_not_iff)
  then show "list_all (\<lambda>(f, g). {INTL_result f Ra Rb, INTL_result g Ra Rb} = {None, Some Rb}) opposite_moves"
    by (auto simp: opposite_moves_def)
qed

section \<open>Fields of bytes\<close>

definition byte_fields :: "(nat \<times> INTS_func \<times> INTS_func \<times> INTS_func) list" where
  "byte_fields = [(1, A_INTSFUNC_MSKBL, A_INTSFUNC_EXTBL, A_INTSFUNC_INSBL),
     (2, A_INTSFUNC_MSKWL, A_INTSFUNC_EXTWL, A_INTSFUNC_INSWL),
     (4, A_INTSFUNC_MSKLL, A_INTSFUNC_EXTLL, A_INTSFUNC_INSLL),
     (8, A_INTSFUNC_MSKQL, A_INTSFUNC_EXTQL, A_INTSFUNC_INSQL)]"

definition high_byte_fields :: "(nat \<times> INTS_func \<times> INTS_func) list" where
  "high_byte_fields = [(2, A_INTSFUNC_MSKWH, A_INTSFUNC_EXTWH),
     (4, A_INTSFUNC_MSKLH, A_INTSFUNC_EXTLH), (8, A_INTSFUNC_MSKQH, A_INTSFUNC_EXTQH)]"

lemma byte_fields_code:
  assumes "(n, msk, ext, ins) \<in> set byte_fields"
  shows "n \<le> 8"
    and "INTS_result msk Ra Rb = Inr (byteZAP Ra (push_bit (low3 Rb) (mask n)))"
    and "INTS_result ext Ra Rb = Inr (byteZAP (drop_bit (low3 Rb * 8) Ra) (NOT (mask n)))"
    and "INTS_result ins Ra Rb = Inr (byteZAP (push_bit (low3 Rb * 8) Ra) (NOT (push_bit (low3 Rb) (mask n))))"
  using assms unfolding byte_fields_def by (auto simp only: set_simps insert_iff empty_iff prod.inject
      INTS_result.simps byte_masks)

lemma high_byte_fields_code:
  assumes "(n, msk, ext) \<in> set high_byte_fields"
  shows "n \<le> 8"
    and "INTS_result msk Ra Rb = Inr (byteZAP Ra (signed_drop_bit 8 (push_bit (low3 Rb) (mask n))))"
    and "INTS_result ext Ra Rb =
      res_bind (shift_left (64 - low3 Rb * 8) Ra) (\<lambda>x. Inr (byteZAP x (NOT (mask n))))"
  using assms unfolding high_byte_fields_def by (auto simp only: set_simps insert_iff empty_iff prod.inject
      INTS_result.simps byte_masks)

text \<open>
  With \<open>k\<close> the low three bits of the second operand and \<open>n\<close> the number of bytes that the
  name of the instruction gives, the byte instructions do to each byte what they promise: a mask clears
  the \<open>n\<close> bytes from byte \<open>k\<close> on, its high form those that reach into the next word; an
  extraction moves byte \<open>k + j\<close> to byte \<open>j\<close>, an insertion byte \<open>j\<close> to byte \<open>k + j\<close>, and both
  clear the other bytes; a high extraction moves byte 0 up to byte \<open>8 - k\<close>, which is undefined when
  \<open>k\<close> is zero; the zapping instructions clear the bytes their mask names, or all others.
\<close>

theorem byte_instructions_correct:
  fixes Ra Rb :: u64
  assumes "(n, msk, ext, ins) \<in> set byte_fields" and "(n', mskh, exth) \<in> set high_byte_fields" and "j < 8"
  defines "k \<equiv> low3 Rb"
  shows "(\<exists>w. INTS_result msk Ra Rb = Inr w \<and> byte_of w j = (if k \<le> j \<and> j < k + n then 0 else byte_of Ra j))
    \<and> (\<exists>w. INTS_result ext Ra Rb = Inr w \<and> byte_of w j = (if j < n then byte_of Ra (k + j) else 0))
    \<and> (\<exists>w. INTS_result ins Ra Rb = Inr w
         \<and> byte_of w j = (if k \<le> j \<and> j < k + n then byte_of Ra (j - k) else 0))
    \<and> (\<exists>w. INTS_result mskh Ra Rb = Inr w \<and> byte_of w j = (if j + 8 < k + n' then 0 else byte_of Ra j))
    \<and> (if k = 0 then INTS_result exth Ra Rb = Inl UndefinedBehaviour
       else \<exists>w. INTS_result exth Ra Rb = Inr w
         \<and> byte_of w j = (if j < n' \<and> 8 - k \<le> j then byte_of Ra (j + k - 8) else 0))
    \<and> (\<exists>w. INTS_result A_INTSFUNC_ZAP Ra Rb = Inr w \<and> byte_of w j = (if bit Rb j then 0 else byte_of Ra j))
    \<and> (\<exists>w. INTS_result A_INTSFUNC_ZAPNOT Ra Rb = Inr w \<and> byte_of w j = (if bit Rb j then byte_of Ra j else 0))"
proof (intro conjI)
  note F = byte_fields_code [OF assms(1)] and H = high_byte_fields_code [OF assms(2)]
  have k8: "k < 8" unfolding k_def by (rule low3_less)
  note S = byte_shapes [OF F(1) assms(3) k8] and SH = byte_shapes [OF H(1) assms(3) k8]
  show "\<exists>w. INTS_result msk Ra Rb = Inr w \<and> byte_of w j = (if k \<le> j \<and> j < k + n then 0 else byte_of Ra j)"
    using F(2) S(1) unfolding k_def by blast
  show "\<exists>w. INTS_result ext Ra Rb = Inr w \<and> byte_of w j = (if j < n then byte_of Ra (k + j) else 0)"
    using F(3) S(3) byte_of_drop unfolding k_def by metis
  show "\<exists>w. INTS_result ins Ra Rb = Inr w \<and> byte_of w j = (if k \<le> j \<and> j < k + n then byte_of Ra (j - k) else 0)"
    using F(4) S(4) byte_of_push [OF assms(3)] unfolding k_def by metis
  show "\<exists>w. INTS_result mskh Ra Rb = Inr w \<and> byte_of w j = (if j + 8 < k + n' then 0 else byte_of Ra j)"
    using H(2) SH(2) unfolding k_def by blast
  show "if k = 0 then INTS_result exth Ra Rb = Inl UndefinedBehaviour
       else \<exists>w. INTS_result exth Ra Rb = Inr w
         \<and> byte_of w j = (if j < n' \<and> 8 - k \<le> j then byte_of Ra (j + k - 8) else 0)"
  proof (cases "k = 0")
    case True
    then show ?thesis using H(3) by (simp add: k_def shift_left_def)
  next
    case False
    have "64 - k * 8 = (8 - k) * 8" using k8 by (simp add: diff_mult_distrib)
    then have "INTS_result exth Ra Rb = Inr (byteZAP (push_bit ((8 - k) * 8) Ra) (NOT (mask n')))"
      using H(3) False k8 by (simp add: k_def shift_left_def)
    then show ?thesis using False SH(3) byte_of_push [OF assms(3), of "8 - k" Ra] k8 by auto
  qed
  show "\<exists>w. INTS_result A_INTSFUNC_ZAP Ra Rb = Inr w \<and> byte_of w j = (if bit Rb j then 0 else byte_of Ra j)"
    "\<exists>w. INTS_result A_INTSFUNC_ZAPNOT Ra Rb = Inr w \<and> byte_of w j = (if bit Rb j then byte_of Ra j else 0)"
    using assms(3) by (simp_all add: byte_of_byteZAP bit_unsigned_iff bit_not_iff)
qed

theorem byte_instructions_correct_witness:
  "(\<exists>w. INTS_result A_INTSFUNC_EXTWL 0x8877665544332211 3 = Inr w \<and> byte_of w 1 = byte_of 0x8877665544332211 4)
    \<and> (\<exists>w. INTS_result A_INTSFUNC_EXTWH 0x8877665544332211 7 = Inr w \<and> byte_of w 1 = byte_of 0x8877665544332211 0)"
proof -
  have f: "(2, A_INTSFUNC_MSKWL, A_INTSFUNC_EXTWL, A_INTSFUNC_INSWL) \<in> set byte_fields"
    "(2, A_INTSFUNC_MSKWH, A_INTSFUNC_EXTWH) \<in> set high_byte_fields" "(1 :: nat) < 8"
    by (simp_all add: byte_fields_def high_byte_fields_def)
  have "low3 3 = 3" "low3 7 = 7" by (simp_all add: low3_def)
  then show ?thesis
    using byte_instructions_correct [OF f, where Ra = "0x8877665544332211" and Rb = 3] byte_instructions_correct [OF f, where Ra = "0x8877665544332211" and Rb = 7]
    by auto
qed

text \<open>The high insertions shift and mask as if they were low ones, so that of the bytes that
  should reach into the next word those below \<open>k\<close> are lost.\<close>

lemma INSWH_loses_bytes:
  "INTS_result A_INTSFUNC_INSWH 0x2211 7 = Inr 0"
proof -
  have "low3 7 = 7" by (simp add: low3_def)
  then have "INTS_result A_INTSFUNC_INSWH 0x2211 7 = Inr (byteZAP (push_bit 8 0x2211) (NOT (push_bit 7 3)))"
    by (simp add: shift_left_def)
  also have "byteZAP (push_bit 8 0x2211) (NOT (push_bit 7 3)) = 0" by code_simp
  finally show ?thesis .
qed

end
