(* ===== verification/Alpha_Multimedia.thy ===== *)
theory Alpha_Multimedia
  imports Alpha_Integer
begin

text \<open>
  The FPTI group of the Alpha (arch/drisc/ISA.mtalpha.cpp): counting of bits, sign extension, moves
  from floating-point registers and the instructions that treat a register as eight bytes or four
  words. Shifts of signed numbers act on their bits, as the compiler defines them.
\<close>

datatype FPTI_func =
    A_FPTIFUNC_SEXTB | A_FPTIFUNC_SEXTW | A_FPTIFUNC_CTPOP | A_FPTIFUNC_PERR | A_FPTIFUNC_CTLZ
    | A_FPTIFUNC_CTTZ | A_FPTIFUNC_UNPKBW | A_FPTIFUNC_UNPKBL | A_FPTIFUNC_PKWB | A_FPTIFUNC_PKLB
    | A_FPTIFUNC_MINSB8 | A_FPTIFUNC_MINSW4 | A_FPTIFUNC_MINUB8 | A_FPTIFUNC_MINUW4
    | A_FPTIFUNC_MAXUB8 | A_FPTIFUNC_MAXUW4 | A_FPTIFUNC_MAXSB8 | A_FPTIFUNC_MAXSW4
    | A_FPTIFUNC_FTOIT | A_FPTIFUNC_FTOIS

definition FPTI_func_codes :: "(nat \<times> FPTI_func) list" where
  "FPTI_func_codes =
    [(0x00, A_FPTIFUNC_SEXTB), (0x01, A_FPTIFUNC_SEXTW), (0x30, A_FPTIFUNC_CTPOP),
     (0x31, A_FPTIFUNC_PERR), (0x32, A_FPTIFUNC_CTLZ), (0x33, A_FPTIFUNC_CTTZ),
     (0x34, A_FPTIFUNC_UNPKBW), (0x35, A_FPTIFUNC_UNPKBL), (0x36, A_FPTIFUNC_PKWB),
     (0x37, A_FPTIFUNC_PKLB), (0x38, A_FPTIFUNC_MINSB8), (0x39, A_FPTIFUNC_MINSW4),
     (0x3A, A_FPTIFUNC_MINUB8), (0x3B, A_FPTIFUNC_MINUW4), (0x3C, A_FPTIFUNC_MAXUB8),
     (0x3D, A_FPTIFUNC_MAXUW4), (0x3E, A_FPTIFUNC_MAXSB8), (0x3F, A_FPTIFUNC_MAXSW4),
     (0x70, A_FPTIFUNC_FTOIT), (0x78, A_FPTIFUNC_FTOIS)]"

section \<open>Fields of a register\<close>

definition BITS :: "u64 \<Rightarrow> nat \<Rightarrow> nat \<Rightarrow> u64" where
  "BITS val offset n = (let s = 64 - n in drop_bit s (push_bit (s - offset) val))"

definition BITS_signed :: "u64 \<Rightarrow> nat \<Rightarrow> nat \<Rightarrow> u64" where
  "BITS_signed val offset n = (let s = 64 - n in signed_drop_bit s (push_bit (s - offset) val))"

definition MASK1 :: "nat \<Rightarrow> nat \<Rightarrow> u64" where
  "MASK1 offset n = push_bit offset (push_bit n 1 - 1)"

section \<open>Execution\<close>

fun ctlz_loop :: "u64 \<Rightarrow> nat list \<Rightarrow> u32 \<Rightarrow> u32" where
  "ctlz_loop Rbv [] count = count"
| "ctlz_loop Rbv (i # is) count =
     (if drop_bit i Rbv AND 1 \<noteq> 0 then count else ctlz_loop Rbv is (count + 1))"

fun ctpop_loop :: "u64 \<Rightarrow> nat list \<Rightarrow> u32 \<Rightarrow> u32" where
  "ctpop_loop Rbv [] count = count"
| "ctpop_loop Rbv (i # is) count =
     ctpop_loop Rbv is (if drop_bit i Rbv AND 1 \<noteq> 0 then count + 1 else count)"

fun cttz_loop :: "u64 \<Rightarrow> nat list \<Rightarrow> u32 \<Rightarrow> u32" where
  "cttz_loop Rbv [] count = count"
| "cttz_loop Rbv (i # is) count =
     (if drop_bit i Rbv AND 1 \<noteq> 0 then count else cttz_loop Rbv is (count + 1))"

text \<open>The sum is read from and written to the destination value.\<close>

fun perr_loop :: "u64 \<Rightarrow> u64 \<Rightarrow> nat list \<Rightarrow> PipeValue \<Rightarrow> PipeValue res" where
  "perr_loop Rav Rbv [] Rcv = Inr Rcv"
| "perr_loop Rav Rbv (i # is) Rcv =
     (let a = ucast (BITS Rav i 8) :: u8; b = ucast (BITS Rbv i 8) :: u8
      in res_bind (pv_integer Rcv) (\<lambda>c.
           perr_loop Rav Rbv is (pv_assign (c + ucast (if b \<le> a then a - b else b - a)) Rcv)))"

fun lanes_loop :: "(u64 \<Rightarrow> u64 \<Rightarrow> u64) \<Rightarrow> (u64 \<Rightarrow> nat \<Rightarrow> nat \<Rightarrow> u64) \<Rightarrow> nat \<Rightarrow> u64 \<Rightarrow> u64 \<Rightarrow> nat list \<Rightarrow> u64 \<Rightarrow> u64" where
  "lanes_loop cmp bits step Rav Rbv [] result = result"
| "lanes_loop cmp bits step Rav Rbv (i # is) result =
     lanes_loop cmp bits step Rav Rbv is
       (result OR push_bit i (cmp (bits Rav i step) (bits Rbv i step) AND MASK1 0 step))"

definition max_signed :: "u64 \<Rightarrow> u64 \<Rightarrow> u64" where
  "max_signed a b = (if sint a < sint b then b else a)"

definition min_signed :: "u64 \<Rightarrow> u64 \<Rightarrow> u64" where
  "min_signed a b = (if sint b < sint a then b else a)"

definition max_unsigned :: "u64 \<Rightarrow> u64 \<Rightarrow> u64" where
  "max_unsigned a b = (if a < b then b else a)"

definition min_unsigned :: "u64 \<Rightarrow> u64 \<Rightarrow> u64" where
  "min_unsigned a b = (if b < a then b else a)"

text \<open>The positions of the loops over bytes and over words.\<close>

definition steps8 :: "nat list" where
  "steps8 = [0, 8, 16, 24, 32, 40, 48, 56]"

definition steps16 :: "nat list" where
  "steps16 = [0, 16, 32, 48]"

text \<open>\<open>fb\<close> is the storage of the first operand read as a float.\<close>

fun FPTI_result :: "FPTI_func \<Rightarrow> u64 \<Rightarrow> u64 \<Rightarrow> u64 \<Rightarrow> PipeValue \<Rightarrow> PipeValue res" where
  "FPTI_result A_FPTIFUNC_CTLZ Rav Rbv fb Rcv = Inr (pv_assign (ucast (ctlz_loop Rbv (rev [1..<64]) 0)) Rcv)"
| "FPTI_result A_FPTIFUNC_CTPOP Rav Rbv fb Rcv = Inr (pv_assign (ucast (ctpop_loop Rbv [0..<63] 0)) Rcv)"
| "FPTI_result A_FPTIFUNC_CTTZ Rav Rbv fb Rcv = Inr (pv_assign (ucast (cttz_loop Rbv [0..<63] 0)) Rcv)"
| "FPTI_result A_FPTIFUNC_SEXTB Rav Rbv fb Rcv = Inr (pv_assign (scast (ucast Rbv :: u8)) Rcv)"
| "FPTI_result A_FPTIFUNC_SEXTW Rav Rbv fb Rcv = Inr (pv_assign (scast (ucast Rbv :: u16)) Rcv)"
| "FPTI_result A_FPTIFUNC_FTOIS Rav Rbv fb Rcv =
     Inr (pv_assign (UnserializeRegister MTALPHA RT_INTEGER (SerializeRegister MTALPHA RT_FLOAT fb 4)) Rcv)"
| "FPTI_result A_FPTIFUNC_FTOIT Rav Rbv fb Rcv =
     Inr (pv_assign (UnserializeRegister MTALPHA RT_INTEGER (SerializeRegister MTALPHA RT_FLOAT fb 8)) Rcv)"
| "FPTI_result A_FPTIFUNC_PERR Rav Rbv fb Rcv = perr_loop Rav Rbv steps8 Rcv"
| "FPTI_result A_FPTIFUNC_PKLB Rav Rbv fb Rcv =
     Inr (pv_assign (BITS Rbv 0 8 OR push_bit 8 (BITS Rbv 32 8)) Rcv)"
| "FPTI_result A_FPTIFUNC_PKWB Rav Rbv fb Rcv =
     Inr (pv_assign (BITS Rbv 0 8 OR push_bit 8 (BITS Rbv 16 8) OR push_bit 16 (BITS Rbv 32 8)
       OR push_bit 24 (BITS Rbv 48 8)) Rcv)"
| "FPTI_result A_FPTIFUNC_UNPKBL Rav Rbv fb Rcv =
     Inr (pv_assign (BITS Rbv 0 8 OR push_bit 32 (BITS Rbv 8 8)) Rcv)"
| "FPTI_result A_FPTIFUNC_UNPKBW Rav Rbv fb Rcv =
     Inr (pv_assign (BITS Rbv 0 8 OR push_bit 16 (BITS Rbv 8 8) OR push_bit 32 (BITS Rbv 16 8)
       OR push_bit 48 (BITS Rbv 24 8)) Rcv)"
| "FPTI_result A_FPTIFUNC_MINSB8 Rav Rbv fb Rcv =
     Inr (pv_assign (lanes_loop min_signed BITS_signed 8 Rav Rbv steps8 0) Rcv)"
| "FPTI_result A_FPTIFUNC_MINSW4 Rav Rbv fb Rcv =
     Inr (pv_assign (lanes_loop min_signed BITS_signed 16 Rav Rbv steps16 0) Rcv)"
| "FPTI_result A_FPTIFUNC_MAXSB8 Rav Rbv fb Rcv =
     Inr (pv_assign (lanes_loop max_signed BITS_signed 8 Rav Rbv steps8 0) Rcv)"
| "FPTI_result A_FPTIFUNC_MAXSW4 Rav Rbv fb Rcv =
     Inr (pv_assign (lanes_loop max_signed BITS_signed 16 Rav Rbv steps16 0) Rcv)"
| "FPTI_result A_FPTIFUNC_MINUB8 Rav Rbv fb Rcv =
     Inr (pv_assign (lanes_loop min_unsigned BITS 8 Rav Rbv steps8 0) Rcv)"
| "FPTI_result A_FPTIFUNC_MINUW4 Rav Rbv fb Rcv =
     Inr (pv_assign (lanes_loop min_unsigned BITS 16 Rav Rbv steps16 0) Rcv)"
| "FPTI_result A_FPTIFUNC_MAXUB8 Rav Rbv fb Rcv =
     Inr (pv_assign (lanes_loop max_unsigned BITS 8 Rav Rbv steps8 0) Rcv)"
| "FPTI_result A_FPTIFUNC_MAXUW4 Rav Rbv fb Rcv =
     Inr (pv_assign (lanes_loop max_unsigned BITS 16 Rav Rbv steps16 0) Rcv)"

definition ExecuteFPTI :: "PipeValue \<Rightarrow> PipeValue \<Rightarrow> PipeValue \<Rightarrow> nat \<Rightarrow> (bool \<times> PipeValue) res" where
  "ExecuteFPTI Rcv RavP RbvP func =
     res_bind (pv_integer RavP) (\<lambda>Rav. res_bind (pv_integer RbvP) (\<lambda>Rbv.
       let Rcv0 = pv_assign 0 (pv_full Rcv)
       in case map_of FPTI_func_codes func of
            None \<Rightarrow> Inr (True, Rcv0)
          | Some f \<Rightarrow> res_bind (FPTI_result f Rav Rbv (pv_bits RavP) Rcv0) (\<lambda>v. Inr (True, v))))"

section \<open>Lanes\<close>

definition lane_uint :: "nat \<Rightarrow> u64 \<Rightarrow> nat \<Rightarrow> int" where
  "lane_uint step w j = uint (take_bit step (drop_bit (j * step) w))"

definition lane_sint :: "nat \<Rightarrow> u64 \<Rightarrow> nat \<Rightarrow> int" where
  "lane_sint step w j = sint (signed_take_bit (step - 1) (drop_bit (j * step) w))"

lemma BITS_take: "off + n \<le> 64 \<Longrightarrow> BITS w off n = take_bit n (drop_bit off w)"
  by (rule bit_eqI) (auto simp: BITS_def Let_def bit_simps algebra_simps dest: bit_imp_le_length)

lemma BITS_signed_take:
  "0 < n \<Longrightarrow> off + n \<le> 64 \<Longrightarrow> BITS_signed w off n = signed_take_bit (n - 1) (drop_bit off w)"
proof (rule bit_eqI)
  fix i
  assume n: "0 < n" "off + n \<le> 64" and "possible_bit TYPE(u64) i"
  then have i: "i < 64" by (simp add: possible_bit_word)
  let ?s = "64 - n" and ?k = "min (n - 1) i"
  have "(if 64 - ?s \<le> i \<and> i < 64 then 63 else ?s + i) = ?s + ?k" using n i by auto
  moreover have "bit (BITS_signed w off n) i
      = bit (push_bit (?s - off) w) (if 64 - ?s \<le> i \<and> i < 64 then 63 else ?s + i)"
    unfolding BITS_signed_def Let_def bit_signed_drop_bit_iff by simp
  ultimately have "bit (BITS_signed w off n) i = bit (push_bit (?s - off) w) (?s + ?k)" by simp
  also have "\<dots> = bit w (off + ?k)"
  proof -
    have "?s - off \<le> ?s + ?k" "?s + ?k < 64" "?s + ?k - (?s - off) = off + ?k" using n by auto
    then show ?thesis unfolding bit_push_bit_iff by simp
  qed
  also have "\<dots> = bit (signed_take_bit (n - 1) (drop_bit off w)) i"
    using i by (simp add: bit_signed_take_bit_iff bit_drop_bit_eq)
  finally show "bit (BITS_signed w off n) i = bit (signed_take_bit (n - 1) (drop_bit off w)) i" .
qed

lemma lanes_loop_bit:
  "n \<le> 64 \<Longrightarrow> bit (lanes_loop cmp bits n a b is r) m \<longleftrightarrow>
    bit r m \<or> (\<exists>i\<in>set is. i \<le> m \<and> m < i + n \<and> m < 64 \<and> bit (cmp (bits a i n) (bits b i n)) (m - i))"
proof (induction "is" arbitrary: r)
  case (Cons i ks)
  have "MASK1 0 n = mask n" by (simp add: MASK1_def mask_eq_exp_minus_1 push_bit_eq_mult)
  then show ?case using Cons by (auto simp: bit_or_iff bit_push_bit_iff bit_and_iff bit_mask_iff)
qed simp

lemma lane_loop:
  assumes "0 < n" and "j \<in> set js" and "j * n + n \<le> 64"
  shows "take_bit n (drop_bit (j * n) (lanes_loop cmp bits n a b (map (\<lambda>j. j * n) js) 0))
    = take_bit n (cmp (bits a (j * n) n) (bits b (j * n) n))"
proof (rule bit_eqI)
  fix t
  have "i * n \<le> j * n + t \<and> j * n + t < i * n + n \<longleftrightarrow> i = j" if "t < n" for i
  proof
    assume "i * n \<le> j * n + t \<and> j * n + t < i * n + n"
    then have "(j * n + t) div n = i" by (intro div_nat_eqI) (auto simp: algebra_simps)
    then show "i = j" using that assms(1) by simp
  qed (use that in simp)
  then have pick: "(\<exists>i\<in>set js. i * n \<le> j * n + t \<and> j * n + t < i * n + n \<and> Q i) = Q j" if "t < n" for Q
    using that assms(2) by metis
  show "bit (take_bit n (drop_bit (j * n) (lanes_loop cmp bits n a b (map (\<lambda>j. j * n) js) 0))) t
      = bit (take_bit n (cmp (bits a (j * n) n) (bits b (j * n) n))) t"
  proof (cases "t < n")
    case True
    then have "j * n + t < 64" "n \<le> 64" using assms(3) by simp_all
    then show ?thesis
      using pick [OF True, of "\<lambda>i. j * n + t < 64 \<and> bit (cmp (bits a (i * n) n) (bits b (i * n) n)) (j * n + t - i * n)"] True
      by (simp add: bit_take_bit_iff bit_drop_bit_eq lanes_loop_bit)
  qed (simp add: bit_take_bit_iff)
qed

lemma steps_map: "steps8 = map (\<lambda>j. j * 8) [0..<8]" "steps16 = map (\<lambda>j. j * 16) [0..<4]"
  by (simp_all add: steps8_def steps16_def upt_rec)

section \<open>Counting\<close>

lemma shifted_bit: "drop_bit i w AND 1 \<noteq> 0 \<longleftrightarrow> bit (w :: u64) i"
  unfolding low_bit_set by (simp add: bit_drop_bit_eq)

lemma ctlz_loop_index: "ctlz_loop w is c = c + of_nat (find_index (bit w) is)"
  by (induction "is" arbitrary: c) (simp_all add: shifted_bit)

lemma cttz_loop_index: "cttz_loop w is c = c + of_nat (find_index (bit w) is)"
  by (induction "is" arbitrary: c) (simp_all add: shifted_bit)

lemma ctpop_loop_length: "ctpop_loop w is c = c + of_nat (length (filter (bit w) is))"
  by (induction "is" arbitrary: c) (simp_all add: shifted_bit)

lemma find_index_map: "find_index P (map f xs) = find_index (\<lambda>x. P (f x)) xs"
  by (induction xs) auto

lemma count_widen: "n \<le> 63 \<Longrightarrow> unat (ucast (of_nat n :: u32) :: u64) = n"
  by (simp add: unat_widen unat_of_nat)

lemma down_steps: "rev [1..<64] = map (\<lambda>i. 63 - i) [0..<63]"
  by (rule nth_equalityI) (simp_all add: rev_nth)

section \<open>Lanes of bytes and words\<close>

lemma perr_loop_sum:
  assumes "pv_size Rcv = 8" and "list_all (\<lambda>i. i + 8 \<le> 64) is"
  shows "perr_loop a b is Rcv = Inr (pv_assign (pv_bits Rcv
      + sum_list (map (\<lambda>i. of_nat (nat \<bar>uint (BITS a i 8) - uint (BITS b i 8)\<bar>)) is)) Rcv)"
  using assms
proof (induction "is" arbitrary: Rcv)
  case Nil
  then show ?case by (simp add: pv_assign_def)
next
  case (Cons i ks)
  let ?a = "ucast (BITS a i 8) :: u8" and ?b = "ucast (BITS b i 8) :: u8"
  have up: "uint (BITS w i 8) = uint (ucast (BITS w i 8) :: u8)" for w
    using Cons.prems(2) by (simp add: BITS_take unsigned_ucast_eq unsigned_take_bit_eq)
  have up8: "uint (ucast (x :: u8) :: u64) = uint x" for x
  proof -
    have "uint x < 2 ^ LENGTH(8)" by (rule unsigned_less)
    then show ?thesis by (simp add: unsigned_ucast_eq take_bit_int_eq_self)
  qed
  have "(ucast (if ?b \<le> ?a then ?a - ?b else ?b - ?a) :: u64)
      = of_nat (nat \<bar>uint (BITS a i 8) - uint (BITS b i 8)\<bar>)"
    unfolding up by (simp add: word_uint_eq_iff [of "ucast _"] up8 word_le_def uint_minus_simple_alt [THEN iffD1])
  then show ?case using Cons by (simp add: pv_integer_8 add.assoc) (simp add: pv_assign_def)
qed

lemma sign_of_take: "0 < n \<Longrightarrow> signed_take_bit (n - 1) (take_bit n w) = signed_take_bit (n - 1) (w :: u64)"
  by (rule bit_eqI) (auto simp: bit_signed_take_bit_iff bit_take_bit_iff min_def)

lemma lane_sint_loop:
  assumes "0 < n" and "j \<in> set js" and "j * n + n \<le> 64" and "\<And>x y. cmp x y \<in> {x, y}"
  shows "lane_sint n (lanes_loop cmp BITS_signed n a b (map (\<lambda>j. j * n) js) 0) j
    = sint (cmp (BITS_signed a (j * n) n) (BITS_signed b (j * n) n))"
proof -
  let ?c = "cmp (BITS_signed a (j * n) n) (BITS_signed b (j * n) n)"
  let ?r = "lanes_loop cmp BITS_signed n a b (map (\<lambda>j. j * n) js) 0"
  have "signed_take_bit (n - 1) (drop_bit (j * n) ?r) = signed_take_bit (n - 1) (take_bit n ?c)"
    by (simp only: sign_of_take [OF assms(1), symmetric, of "drop_bit (j * n) ?r"] lane_loop [OF assms(1-3)])
  also have "\<dots> = signed_take_bit (n - 1) ?c" by (rule sign_of_take [OF assms(1)])
  also have "\<dots> = ?c"
    using assms(4) [of "BITS_signed a (j * n) n" "BITS_signed b (j * n) n"]
    by (auto simp: BITS_signed_take [OF assms(1,3)])
  finally show ?thesis by (simp add: lane_sint_def)
qed

lemma lane_uint_loop:
  assumes "0 < n" and "j \<in> set js" and "j * n + n \<le> 64" and "\<And>x y. cmp x y \<in> {x, y}"
  shows "lane_uint n (lanes_loop cmp BITS n a b (map (\<lambda>j. j * n) js) 0) j
    = uint (cmp (BITS a (j * n) n) (BITS b (j * n) n))"
proof -
  let ?c = "cmp (BITS a (j * n) n) (BITS b (j * n) n)"
  have "take_bit n ?c = ?c"
    using assms(4) [of "BITS a (j * n) n" "BITS b (j * n) n"] by (auto simp: BITS_take [OF assms(3)])
  then show ?thesis by (simp add: lane_uint_def lane_loop [OF assms(1-3)])
qed

lemma BITS_lane:
  assumes "0 < n" and "j * n + n \<le> 64"
  shows "sint (BITS_signed w (j * n) n) = lane_sint n w j" and "uint (BITS w (j * n) n) = lane_uint n w j"
  using assms by (simp_all add: BITS_signed_take BITS_take lane_sint_def lane_uint_def)

text \<open>The instructions on lanes with the width of a lane, its value and the choice.\<close>

definition lane_ops :: "(FPTI_func \<times> nat \<times> (nat \<Rightarrow> u64 \<Rightarrow> nat \<Rightarrow> int) \<times> (int \<Rightarrow> int \<Rightarrow> int)) list" where
  "lane_ops = [(A_FPTIFUNC_MINSB8, 8, lane_sint, min), (A_FPTIFUNC_MINSW4, 16, lane_sint, min),
     (A_FPTIFUNC_MAXSB8, 8, lane_sint, max), (A_FPTIFUNC_MAXSW4, 16, lane_sint, max),
     (A_FPTIFUNC_MINUB8, 8, lane_uint, min), (A_FPTIFUNC_MINUW4, 16, lane_uint, min),
     (A_FPTIFUNC_MAXUB8, 8, lane_uint, max), (A_FPTIFUNC_MAXUW4, 16, lane_uint, max)]"

lemma choices:
  "min_signed x y \<in> {x, y}" "max_signed x y \<in> {x, y}" "min_unsigned x y \<in> {x, y}" "max_unsigned x y \<in> {x, y}"
  "sint (min_signed x y) = min (sint x) (sint y)" "sint (max_signed x y) = max (sint x) (sint y)"
  "uint (min_unsigned x y) = min (uint x) (uint y)" "uint (max_unsigned x y) = max (uint x) (uint y)"
  by (auto simp: min_signed_def max_signed_def min_unsigned_def max_unsigned_def word_less_def)

lemma lanes_result:
  assumes "(f, n, lane, op) \<in> set lane_ops" and "j < 64 div n"
  shows "\<exists>v. FPTI_result f a b fb Rcv = Inr v \<and> lane n (pv_bits v) j = op (lane n a j) (lane n b j)"
proof -
  have s8: "lane_sint 8 (lanes_loop cmp BITS_signed 8 a b steps8 0) j = sint (cmp (BITS_signed a (j * 8) 8) (BITS_signed b (j * 8) 8))"
    and u8: "lane_uint 8 (lanes_loop cmp BITS 8 a b steps8 0) j = uint (cmp (BITS a (j * 8) 8) (BITS b (j * 8) 8))"
    if "j < 8" "\<And>x y. cmp x y \<in> {x, y}" for cmp
    unfolding steps_map by (rule lane_sint_loop lane_uint_loop; use that in simp)+
  have s16: "lane_sint 16 (lanes_loop cmp BITS_signed 16 a b steps16 0) j = sint (cmp (BITS_signed a (j * 16) 16) (BITS_signed b (j * 16) 16))"
    and u16: "lane_uint 16 (lanes_loop cmp BITS 16 a b steps16 0) j = uint (cmp (BITS a (j * 16) 16) (BITS b (j * 16) 16))"
    if "j < 4" "\<And>x y. cmp x y \<in> {x, y}" for cmp
    unfolding steps_map by (rule lane_sint_loop lane_uint_loop; use that in simp)+
  show ?thesis
    using assms unfolding lane_ops_def
    by (auto simp: choices(5-8) BITS_lane s8 [OF _ choices(1)] s8 [OF _ choices(2)] u8 [OF _ choices(3)] u8 [OF _ choices(4)]
        s16 [OF _ choices(1)] s16 [OF _ choices(2)] u16 [OF _ choices(3)] u16 [OF _ choices(4)])
qed

lemma byte_of_or: "byte_of (x OR y) i = byte_of x i OR byte_of y i"
  by (rule bit_eqI) (auto simp: byte_of_bit bit_or_iff)

lemma byte_placed:
  "i < 8 \<Longrightarrow> k < 8 \<Longrightarrow> m < 8 \<Longrightarrow>
    byte_of (push_bit (k * 8) (BITS w (m * 8) 8)) i = (if i = k then byte_of w m else 0)"
  by (rule bit_eqI) (auto simp: byte_of_push BITS_take byte_of_bit bit_take_bit_iff bit_drop_bit_eq algebra_simps)

text \<open>
  The loops of the counts look at 63 of the 64 bits: the count of leading zeros leaves out bit 0, the
  other two leave out bit 63.
\<close>

lemma FPTI_counts:
  "\<exists>v. FPTI_result A_FPTIFUNC_CTLZ Ra Rb fb Rcv = Inr v
     \<and> unat (pv_bits v) = find_index (\<lambda>i. bit Rb (63 - i)) [0..<63]"
  "\<exists>v. FPTI_result A_FPTIFUNC_CTTZ Ra Rb fb Rcv = Inr v \<and> unat (pv_bits v) = find_index (bit Rb) [0..<63]"
  "\<exists>v. FPTI_result A_FPTIFUNC_CTPOP Ra Rb fb Rcv = Inr v \<and> unat (pv_bits v) = card {i. i < 63 \<and> bit Rb i}"
proof -
  show "\<exists>v. FPTI_result A_FPTIFUNC_CTLZ Ra Rb fb Rcv = Inr v
      \<and> unat (pv_bits v) = find_index (\<lambda>i. bit Rb (63 - i)) [0..<63]"
    unfolding FPTI_result.simps ctlz_loop_index down_steps find_index_map
    using count_widen [OF order_trans [OF find_index_le [of "\<lambda>i. bit Rb (63 - i)" "[0..<63]"]]] by simp
  show "\<exists>v. FPTI_result A_FPTIFUNC_CTTZ Ra Rb fb Rcv = Inr v \<and> unat (pv_bits v) = find_index (bit Rb) [0..<63]"
    unfolding FPTI_result.simps cttz_loop_index
    using count_widen [OF order_trans [OF find_index_le [of "bit Rb" "[0..<63]"]]] by simp
  show "\<exists>v. FPTI_result A_FPTIFUNC_CTPOP Ra Rb fb Rcv = Inr v \<and> unat (pv_bits v) = card {i. i < 63 \<and> bit Rb i}"
  proof -
    have "distinct (filter (bit Rb) [0..<63])" by simp
    then have "length (filter (bit Rb) [0..<63]) = card {i. i < 63 \<and> bit Rb i}"
      using distinct_card [of "filter (bit Rb) [0..<63]"] by (simp add: atLeast0LessThan conj_commute)
    moreover have "length (filter (bit Rb) [0..<63]) \<le> 63" using length_filter_le [of "bit Rb" "[0..<63]"] by simp
    ultimately show ?thesis using count_widen by (simp add: ctpop_loop_length)
  qed
qed

lemma find_index_snoc: "P x \<or> (\<exists>y\<in>set xs. P y) \<Longrightarrow> find_index P (xs @ [x]) = find_index P xs"
  by (induction xs) auto

lemma upt_64: "[0..<64] = [0..<63] @ [63]"
  by (simp add: upt_rec numeral_eq_Suc)

text \<open>The bit left out makes no difference to the zeros of an operand that is not zero, nor to the ones of
  an operand whose top bit is clear.\<close>

lemma counts_all_bits:
  "(w :: u64) \<noteq> 0 \<Longrightarrow> find_index (\<lambda>i. bit w (63 - i)) [0..<64] = find_index (\<lambda>i. bit w (63 - i)) [0..<63]"
  "w \<noteq> 0 \<Longrightarrow> find_index (bit w) [0..<64] = find_index (bit w) [0..<63]"
  "\<not> bit w 63 \<Longrightarrow> {i. bit w i} = {i. i < 63 \<and> bit w i}"
proof -
  assume "w \<noteq> 0"
  then obtain i where i: "bit w i" using bit_eqI [of w 0] by auto
  then have lt: "i < 64" using bit_imp_le_length [of w i] by simp
  show "find_index (bit w) [0..<64] = find_index (bit w) [0..<63]"
    unfolding upt_64 by (rule find_index_snoc) (use i lt in \<open>cases "i = 63"; force\<close>)
  have "bit w (63 - (63 - i))" using i lt by simp
  moreover have "63 - i = 63 \<or> 63 - i < 63" by auto
  ultimately show "find_index (\<lambda>i. bit w (63 - i)) [0..<64] = find_index (\<lambda>i. bit w (63 - i)) [0..<63]"
    unfolding upt_64 by (intro find_index_snoc) (metis atLeastLessThan_iff set_upt zero_le)
next
  assume c: "\<not> bit w 63"
  show "{i. bit w i} = {i. i < 63 \<and> bit w i}"
  proof (intro Collect_cong iffI conjI)
    fix i
    assume b: "bit w i"
    then have "i < 64" using bit_imp_le_length [of w i] by simp
    then show "i < 63" using b c by (cases "i = 63") auto
  qed simp_all
qed

text \<open>Of the other operands the counts are one too small.\<close>

lemma FPTI_counts_miss:
  "\<exists>v. FPTI_result A_FPTIFUNC_CTLZ Ra 0 fb Rcv = Inr v \<and> unat (pv_bits v) = 63"
  "\<exists>v. FPTI_result A_FPTIFUNC_CTTZ Ra 0 fb Rcv = Inr v \<and> unat (pv_bits v) = 63"
  "bit Rb 63 \<Longrightarrow> \<exists>v. FPTI_result A_FPTIFUNC_CTPOP Ra Rb fb Rcv = Inr v
     \<and> Suc (unat (pv_bits v)) = card {i. bit Rb i}"
proof -
  have none: "find_index (\<lambda>i. False) [0..<63] = 63" using find_index_less [of "\<lambda>i. False" "[0..<63]"]
    find_index_le [of "\<lambda>i. False" "[0..<63]"] by simp
  show "\<exists>v. FPTI_result A_FPTIFUNC_CTLZ Ra 0 fb Rcv = Inr v \<and> unat (pv_bits v) = 63"
    "\<exists>v. FPTI_result A_FPTIFUNC_CTTZ Ra 0 fb Rcv = Inr v \<and> unat (pv_bits v) = 63"
    using FPTI_counts(1,2) [of Ra 0 fb Rcv] none by (simp_all add: bit_0_eq bot_fun_def)
  assume top: "bit Rb 63"
  have "{i. bit Rb i} = insert 63 {i. i < 63 \<and> bit Rb i}"
  proof (intro set_eqI iffI)
    fix i
    assume "i \<in> {i. bit Rb i}"
    then show "i \<in> insert 63 {i. i < 63 \<and> bit Rb i}" using bit_imp_le_length [of Rb i] by (cases "i = 63") auto
  qed (use top in auto)
  then have "card {i. bit Rb i} = Suc (card {i. i < 63 \<and> bit Rb i})" by simp
  then show "\<exists>v. FPTI_result A_FPTIFUNC_CTPOP Ra Rb fb Rcv = Inr v \<and> Suc (unat (pv_bits v)) = card {i. bit Rb i}"
    using FPTI_counts(3) [of Ra Rb fb Rcv] by auto
qed

text \<open>
  C34. The multimedia instructions, into an eight-byte result register that the instruction has zeroed.
  Each lane of a parallel minimum or maximum is that of the signed or unsigned values of the operands'
  lanes; the pixel error is the sum of the absolute differences of the bytes; packing takes every second
  byte of the operand and unpacking spreads its low four bytes out to every second byte. Of an operand
  that is not zero the counts of leading and trailing zeros are those of its 64 bits, and of an operand
  whose top bit (bit 63) is clear the count of ones is that of its bits. (For the operands left out the code
  counts one too little, \<open>FPTI_counts_miss\<close>.)
\<close>

theorem FPTI_correct:
  assumes "(f, n, lane, op) \<in> set lane_ops" and "j < 64 div n" and "pv_size Rcv = 8" and "pv_bits Rcv = 0" and "i < 8"
  shows "(\<exists>v. FPTI_result f Ra Rb fb Rcv = Inr v \<and> lane n (pv_bits v) j = op (lane n Ra j) (lane n Rb j))
    \<and> (\<exists>v. FPTI_result A_FPTIFUNC_PERR Ra Rb fb Rcv = Inr v
         \<and> pv_bits v = of_nat (\<Sum>j<8. nat \<bar>lane_uint 8 Ra j - lane_uint 8 Rb j\<bar>))
    \<and> (\<exists>v. FPTI_result A_FPTIFUNC_PKWB Ra Rb fb Rcv = Inr v
         \<and> byte_of (pv_bits v) i = (if i < 4 then byte_of Rb (2 * i) else 0))
    \<and> (\<exists>v. FPTI_result A_FPTIFUNC_UNPKBW Ra Rb fb Rcv = Inr v
         \<and> byte_of (pv_bits v) i = (if even i then byte_of Rb (i div 2) else 0))
    \<and> (Rb \<noteq> 0 \<longrightarrow> (\<exists>v. FPTI_result A_FPTIFUNC_CTLZ Ra Rb fb Rcv = Inr v
         \<and> unat (pv_bits v) = find_index (\<lambda>i. bit Rb (63 - i)) [0..<64]))
    \<and> (Rb \<noteq> 0 \<longrightarrow> (\<exists>v. FPTI_result A_FPTIFUNC_CTTZ Ra Rb fb Rcv = Inr v
         \<and> unat (pv_bits v) = find_index (bit Rb) [0..<64]))
    \<and> (\<not> bit Rb 63 \<longrightarrow> (\<exists>v. FPTI_result A_FPTIFUNC_CTPOP Ra Rb fb Rcv = Inr v
         \<and> unat (pv_bits v) = card {i. bit Rb i}))"
proof (intro conjI impI)
  show "\<exists>v. FPTI_result f Ra Rb fb Rcv = Inr v \<and> lane n (pv_bits v) j = op (lane n Ra j) (lane n Rb j)"
    by (rule lanes_result [OF assms(1,2)])
  show "\<exists>v. FPTI_result A_FPTIFUNC_PERR Ra Rb fb Rcv = Inr v
      \<and> pv_bits v = of_nat (\<Sum>j<8. nat \<bar>lane_uint 8 Ra j - lane_uint 8 Rb j\<bar>)"
  proof -
    have "perr_loop Ra Rb steps8 Rcv = Inr (pv_assign (pv_bits Rcv
        + sum_list (map (\<lambda>i. of_nat (nat \<bar>uint (BITS Ra i 8) - uint (BITS Rb i 8)\<bar>)) steps8)) Rcv)"
      by (rule perr_loop_sum [OF assms(3)]) (simp add: steps8_def)
    moreover have "sum_list (map (\<lambda>i. of_nat (nat \<bar>uint (BITS Ra i 8) - uint (BITS Rb i 8)\<bar>)) steps8)
        = (\<Sum>j<8. of_nat (nat \<bar>lane_uint 8 Ra j - lane_uint 8 Rb j\<bar>) :: u64)"
      unfolding steps_map map_map o_def interv_sum_list_conv_sum_set_nat
      by (rule sum.cong) (auto simp: BITS_lane)
    ultimately show ?thesis using assms(4) by simp
  qed
  show "\<exists>v. FPTI_result A_FPTIFUNC_PKWB Ra Rb fb Rcv = Inr v
      \<and> byte_of (pv_bits v) i = (if i < 4 then byte_of Rb (2 * i) else 0)"
    using assms(5) byte_placed [of i 0 0 Rb] byte_placed [of i 1 2 Rb] byte_placed [of i 2 4 Rb] byte_placed [of i 3 6 Rb]
    by (cases "i = 0"; cases "i = 1"; cases "i = 2"; cases "i = 3") (simp_all add: byte_of_or)
  show "\<exists>v. FPTI_result A_FPTIFUNC_UNPKBW Ra Rb fb Rcv = Inr v
         \<and> byte_of (pv_bits v) i = (if even i then byte_of Rb (i div 2) else 0)"
    using assms(5) byte_placed [of i 0 0 Rb] byte_placed [of i 2 1 Rb] byte_placed [of i 4 2 Rb] byte_placed [of i 6 3 Rb]
    by (auto simp: byte_of_or)
next
  assume "Rb \<noteq> 0"
  then show "\<exists>v. FPTI_result A_FPTIFUNC_CTLZ Ra Rb fb Rcv = Inr v
      \<and> unat (pv_bits v) = find_index (\<lambda>i. bit Rb (63 - i)) [0..<64]"
    "\<exists>v. FPTI_result A_FPTIFUNC_CTTZ Ra Rb fb Rcv = Inr v \<and> unat (pv_bits v) = find_index (bit Rb) [0..<64]"
    by (simp_all only: counts_all_bits FPTI_counts(1,2) not_False_eq_True)
next
  assume "\<not> bit Rb 63"
  then show "\<exists>v. FPTI_result A_FPTIFUNC_CTPOP Ra Rb fb Rcv = Inr v \<and> unat (pv_bits v) = card {i. bit Rb i}"
    unfolding counts_all_bits(3) [OF \<open>\<not> bit Rb 63\<close>] by (intro FPTI_counts(3))
qed

theorem FPTI_correct_witness:
  "\<exists>v. FPTI_result A_FPTIFUNC_MAXSB8 0x80 0x01 0
      \<lparr>pv_state = RST_FULL, pv_size = 8, pv_bits = 0, pv_waiting = \<lparr>tq_head = 0, tq_tail = 0\<rparr>,
       pv_memory = \<lparr>mr_next = \<lparr>ra_type = RT_INTEGER, ra_index = 0\<rparr>, mr_fid = 0, mr_size = 0, mr_offset = 0,
         mr_sign_extend = False\<rparr>\<rparr> = Inr v
    \<and> lane_sint 8 (pv_bits v) 0 = max (lane_sint 8 0x80 0) (lane_sint 8 0x01 0)"
proof -
  have f: "(A_FPTIFUNC_MAXSB8, 8, lane_sint, max) \<in> set lane_ops" "(0::nat) < 64 div 8" "(0::nat) < 8"
    by (simp_all add: lane_ops_def)
  show ?thesis
    by (rule FPTI_correct [OF f(1,2) _ _ f(3), THEN conjunct1]) simp_all
qed

end
