(* ===== verification/IEEE_Doubles.thy ===== *)
theory IEEE_Doubles
  imports Prelude "HOL-Library.Signed_Division"
begin

text \<open>
  Doubles are the 64-bit IEEE 754 format of the host. What the source does with them (comparison,
  conversion to and from integers, widening of a four-byte float) is defined here on their bits,
  in the order: the fields, the comparisons, the value as an integer multiple of the smallest positive
  double, the conversions; then the comparisons are shown to be those of the values, and the
  conversion of an integer to be off by at most half a unit in the last of 53 bits.
\<close>

section \<open>Doubles\<close>

definition f64_exponent :: "u64 \<Rightarrow> nat" where
  "f64_exponent w = unat (take_bit 11 (drop_bit 52 w))"

definition f64_fraction :: "u64 \<Rightarrow> nat" where
  "f64_fraction w = unat (take_bit 52 w)"

definition f64_nan :: "u64 \<Rightarrow> bool" where
  "f64_nan w \<longleftrightarrow> f64_exponent w = 2047 \<and> f64_fraction w \<noteq> 0"

text \<open>Sign and magnitude: the numbers and infinities are ordered as these integers.\<close>

definition f64_key :: "u64 \<Rightarrow> int" where
  "f64_key w = (if bit w 63 then - uint (take_bit 63 w) else uint (take_bit 63 w))"

definition f64_eq :: "u64 \<Rightarrow> u64 \<Rightarrow> bool" where
  "f64_eq a b \<longleftrightarrow> \<not> f64_nan a \<and> \<not> f64_nan b \<and> f64_key a = f64_key b"

definition f64_lt :: "u64 \<Rightarrow> u64 \<Rightarrow> bool" where
  "f64_lt a b \<longleftrightarrow> \<not> f64_nan a \<and> \<not> f64_nan b \<and> f64_key a < f64_key b"

definition f64_le :: "u64 \<Rightarrow> u64 \<Rightarrow> bool" where
  "f64_le a b \<longleftrightarrow> \<not> f64_nan a \<and> \<not> f64_nan b \<and> f64_key a \<le> f64_key b"

text \<open>The significand and the value of a finite number, in units of \<open>2 ^ - 1074\<close>.\<close>

definition f64_scaled :: "u64 \<Rightarrow> int" where
  "f64_scaled w =
     (let m = (if f64_exponent w = 0 then int (f64_fraction w)
               else (2 ^ 52 + int (f64_fraction w)) * 2 ^ (f64_exponent w - 1))
      in if bit w 63 then - m else m)"

text \<open>The conversion to an integer truncates; a value that is not representable is undefined.\<close>

definition f64_to_int64 :: "u64 \<Rightarrow> u64 res" where
  "f64_to_int64 w =
     (if f64_exponent w = 2047 then Inl UndefinedBehaviour
      else let t = f64_scaled w sdiv 2 ^ 1074
           in if - (2 ^ 63) \<le> t \<and> t < 2 ^ 63 then Inr (word_of_int t) else Inl UndefinedBehaviour)"

fun bit_length :: "nat \<Rightarrow> nat" where
  "bit_length n = (if n = 0 then 0 else Suc (bit_length (n div 2)))"

declare bit_length.simps [simp del]

text \<open>A positive integer \<open>m\<close> rounded to 53 bits, ties to even; a carry goes into the exponent.\<close>

definition f64_of_magnitude :: "nat \<Rightarrow> nat" where
  "f64_of_magnitude m =
     (if m = 0 then 0
      else let n = bit_length m - 1
           in if n \<le> 52 then (n + 1022) * 2 ^ 52 + m * 2 ^ (52 - n)
              else let s = n - 52; q = m div 2 ^ s; r = m mod 2 ^ s; half = 2 ^ (s - 1);
                       q' = (if half < r \<or> r = half \<and> odd q then q + 1 else q)
                   in (n + 1022) * 2 ^ 52 + q')"

definition f64_of_int64 :: "u64 \<Rightarrow> u64" where
  "f64_of_int64 x = (if sint x < 0 then 2 ^ 63 + of_nat (f64_of_magnitude (nat (- sint x)))
     else of_nat (f64_of_magnitude (nat (sint x))))"

text \<open>A four-byte float as a double.\<close>

definition f32_to_f64 :: "u32 \<Rightarrow> u64" where
  "f32_to_f64 w =
     (let e = unat (take_bit 8 (drop_bit 23 w)); f = unat (take_bit 23 w);
          m = (if e = 255 then 2047 * 2 ^ 52 + f * 2 ^ 29
               else if e = 0 then (if f = 0 then 0
                 else (let n = bit_length f - 1 in (n + 873) * 2 ^ 52 + f * 2 ^ (52 - n)))
               else (e + 896) * 2 ^ 52 + f * 2 ^ 29)
      in (if bit w 31 then 2 ^ 63 + of_nat m else of_nat m))"

definition MultiFloat_tofloat :: "u64 \<Rightarrow> nat \<Rightarrow> u64 res" where
  "MultiFloat_tofloat b n =
     (if n = 4 then Inr (f32_to_f64 (ucast b)) else if n = 8 then Inr b else Inl AssertionFailure)"

section \<open>The order of the values\<close>

text \<open>The magnitude of a number with biased exponent \<open>e\<close> and fraction \<open>f\<close>.\<close>

definition f64_magnitude :: "nat \<Rightarrow> nat" where
  "f64_magnitude k = (let e = k div 2 ^ 52; f = k mod 2 ^ 52 in if e = 0 then f else (2 ^ 52 + f) * 2 ^ (e - 1))"

lemma f64_fields:
  "f64_exponent w = unat (take_bit 63 w) div 2 ^ 52" "f64_fraction w = unat (take_bit 63 w) mod 2 ^ 52"
proof -
  have "take_bit 11 (drop_bit 52 w) = drop_bit 52 (take_bit 63 w)" "take_bit 52 w = take_bit 52 (take_bit 63 w)"
    by (simp_all add: drop_bit_take_bit)
  then show "f64_exponent w = unat (take_bit 63 w) div 2 ^ 52" "f64_fraction w = unat (take_bit 63 w) mod 2 ^ 52"
    unfolding f64_exponent_def f64_fraction_def
    by (simp_all only: unat_drop_bit_eq drop_bit_eq_div [where 'a = nat] unsigned_take_bit_eq [of 52 _, where 'a = nat] take_bit_eq_mod [where 'a = nat])
qed

lemma f64_scaled_magnitude:
  "f64_scaled w = (if bit w 63 then - int (f64_magnitude (unat (take_bit 63 w))) else int (f64_magnitude (unat (take_bit 63 w))))"
  by (simp add: f64_scaled_def f64_magnitude_def f64_fields Let_def)

lemma f64_magnitude_bounds:
  assumes "e \<noteq> 0" and "k div 2 ^ 52 = e"
  shows "2 ^ 52 * 2 ^ (e - 1) \<le> f64_magnitude k" and "f64_magnitude k < 2 ^ 52 * 2 ^ e"
proof -
  have m: "f64_magnitude k = (2 ^ 52 + k mod 2 ^ 52) * 2 ^ (e - 1)" using assms by (simp add: f64_magnitude_def Let_def)
  show "2 ^ 52 * 2 ^ (e - 1) \<le> f64_magnitude k" unfolding m by simp
  have "(2 ^ 52 + k mod 2 ^ 52) * 2 ^ (e - 1) < (2 ^ 52 + 2 ^ 52) * 2 ^ (e - 1)" by simp
  also have "\<dots> = 2 ^ 52 * 2 ^ e" using assms(1) by (cases e) simp_all
  finally show "f64_magnitude k < 2 ^ 52 * 2 ^ e" unfolding m .
qed

lemma f64_magnitude_mono: "j < k \<Longrightarrow> f64_magnitude j < f64_magnitude k"
proof -
  assume jk: "j < k"
  let ?e = "j div 2 ^ 52" and ?g = "k div 2 ^ 52"
  have le: "?e \<le> ?g" using jk by (simp add: div_le_mono)
  show ?thesis
  proof (cases "?e = ?g")
    case True
    have "j mod 2 ^ 52 < k mod 2 ^ 52" using jk div_mult_mod_eq [of j "2 ^ 52"] div_mult_mod_eq [of k "2 ^ 52"] unfolding True by linarith
    then show ?thesis using True jk by (simp add: f64_magnitude_def Let_def)
  next
    case False
    then have lt: "?e < ?g" using le by simp
    have "f64_magnitude j < 2 ^ 52 * 2 ^ ?e"
    proof (cases "?e = 0")
      case True
      then show ?thesis by (simp add: f64_magnitude_def Let_def)
    next
      case False
      then show ?thesis by (rule f64_magnitude_bounds(2)) (rule refl)
    qed
    also have "\<dots> \<le> 2 ^ 52 * 2 ^ (?g - 1)"
      by (rule mult_le_mono2, rule power_increasing) (use lt in simp_all)
    also have "\<dots> \<le> f64_magnitude k" by (rule f64_magnitude_bounds(1)) (use lt in simp_all)
    finally show ?thesis .
  qed
qed

lemma f64_magnitude_less: "f64_magnitude j < f64_magnitude k \<longleftrightarrow> j < k"
  using f64_magnitude_mono by (metis less_asym linorder_neqE_nat order_less_irrefl)

lemma f64_magnitude_eq: "f64_magnitude j = f64_magnitude k \<longleftrightarrow> j = k"
  using f64_magnitude_less by (metis linorder_neqE_nat order_less_irrefl)

lemma f64_magnitude_0 [simp]: "f64_magnitude 0 = 0"
  by (simp add: f64_magnitude_def)

lemma sign_magnitude:
  assumes "A < B \<longleftrightarrow> i < j" "B < A \<longleftrightarrow> j < i" "0 < A \<longleftrightarrow> 0 < i" "0 < B \<longleftrightarrow> 0 < (j :: nat)"
  shows "(if p then - int A else int A) < (if q then - int B else int B) \<longleftrightarrow>
      (if p then - int i else int i) < (if q then - int j else int j)"
    and "(if p then - int A else int A) = (if q then - int B else int B) \<longleftrightarrow>
      (if p then - int i else int i) = (if q then - int j else int j)"
proof -
  have "- int A < int B \<longleftrightarrow> 0 < A \<or> 0 < B" "- int i < int j \<longleftrightarrow> 0 < i \<or> 0 < j"
    "\<not> int A < - int B" "\<not> int i < - int j" by linarith+
  moreover have "A = B \<longleftrightarrow> i = j" using assms(1,2) by (metis nat_neq_iff)
  moreover have "- int A = int B \<longleftrightarrow> \<not> 0 < A \<and> \<not> 0 < B" "- int i = int j \<longleftrightarrow> \<not> 0 < i \<and> \<not> 0 < j"
    "int A = - int B \<longleftrightarrow> \<not> 0 < A \<and> \<not> 0 < B" "int i = - int j \<longleftrightarrow> \<not> 0 < i \<and> \<not> 0 < j" by linarith+
  ultimately show "(if p then - int A else int A) < (if q then - int B else int B) \<longleftrightarrow>
      (if p then - int i else int i) < (if q then - int j else int j)"
    "(if p then - int A else int A) = (if q then - int B else int B) \<longleftrightarrow>
      (if p then - int i else int i) = (if q then - int j else int j)"
    using assms by (cases p; cases q; simp only: if_True if_False neg_less_iff_less neg_equal_iff_equal of_nat_less_iff of_nat_eq_iff simp_thms)+
qed

lemma f64_order:
  "f64_scaled a < f64_scaled b \<longleftrightarrow> f64_key a < f64_key b" "f64_scaled a = f64_scaled b \<longleftrightarrow> f64_key a = f64_key b"
proof -
  define i j where ij: "i = unat (take_bit 63 a)" "j = unat (take_bit 63 b)"
  have key: "f64_key a = (if bit a 63 then - int i else int i)" "f64_key b = (if bit b 63 then - int j else int j)"
    by (simp_all add: f64_key_def ij)
  have scaled: "f64_scaled a = (if bit a 63 then - int (f64_magnitude i) else int (f64_magnitude i))"
    "f64_scaled b = (if bit b 63 then - int (f64_magnitude j) else int (f64_magnitude j))"
    by (simp_all only: f64_scaled_magnitude ij)
  have "0 < f64_magnitude k \<longleftrightarrow> 0 < k" for k using f64_magnitude_less [of 0 k] by simp
  note pos = this [of i] this [of j]
  show "f64_scaled a < f64_scaled b \<longleftrightarrow> f64_key a < f64_key b" "f64_scaled a = f64_scaled b \<longleftrightarrow> f64_key a = f64_key b"
    unfolding scaled key by (rule sign_magnitude [OF f64_magnitude_less f64_magnitude_less pos])+
qed

section \<open>Rounding\<close>

lemma bit_length_bounds: "0 < m \<Longrightarrow> 2 ^ (bit_length m - 1) \<le> m \<and> m < 2 ^ bit_length m \<and> 0 < bit_length m"
proof (induction m rule: bit_length.induct)
  case (1 m)
  show ?case
  proof (cases "m div 2 = 0")
    case True
    then have "m = 1" using 1 by simp
    then show ?thesis by (simp add: bit_length.simps)
  next
    case False
    then have IH: "2 ^ (bit_length (m div 2) - 1) \<le> m div 2" "m div 2 < 2 ^ bit_length (m div 2)" "0 < bit_length (m div 2)"
      using 1 by auto
    have b: "bit_length m = Suc (bit_length (m div 2))" using 1 by (subst bit_length.simps) simp
    obtain k where k: "bit_length (m div 2) = Suc k" using IH(3) by (cases "bit_length (m div 2)") auto
    have "m = 2 * (m div 2) + m mod 2" "m mod 2 < 2" by simp_all
    moreover have "2 ^ k \<le> m div 2" "m div 2 < 2 * 2 ^ k" using IH unfolding k by simp_all
    ultimately have "2 * 2 ^ k \<le> m" "m < 4 * 2 ^ k" by linarith+
    then show ?thesis unfolding b k by simp
  qed
qed

text \<open>A significand \<open>q\<close> with the exponent of \<open>2 ^ n\<close>; a significand of 54 bits is the next power.\<close>

lemma f64_magnitude_compose:
  assumes "2 ^ 52 \<le> q" and "q \<le> 2 ^ 53"
  shows "f64_magnitude ((n + 1022) * 2 ^ 52 + q) = q * 2 ^ (n + 1022)"
proof (cases "q = 2 ^ 53")
  case True
  have "(n + 1022) * 2 ^ 52 + q = (n + 1024) * 2 ^ 52" unfolding True by simp
  then have "f64_magnitude ((n + 1022) * 2 ^ 52 + q) = 2 ^ 52 * 2 ^ (n + 1024 - 1)"
    by (simp only: f64_magnitude_def Let_def nonzero_mult_div_cancel_right mod_mult_self2_is_0) simp
  also have "\<dots> = 2 ^ 53 * 2 ^ (n + 1022)" unfolding power_add [symmetric] by simp
  finally show ?thesis unfolding True .
next
  case False
  define f where "f = q - 2 ^ 52"
  have f: "q = 2 ^ 52 + f" "f < 2 ^ 52" using assms False unfolding f_def by simp_all
  have "(n + 1022) * 2 ^ 52 + q = (n + 1023) * 2 ^ 52 + f" unfolding f(1) by simp
  then have "((n + 1022) * 2 ^ 52 + q) div 2 ^ 52 = n + 1023" "((n + 1022) * 2 ^ 52 + q) mod 2 ^ 52 = f"
    using f(2) by (simp_all only: div_mult_self3 mod_mult_self3 mod_less div_less)
  then show ?thesis unfolding f64_magnitude_def Let_def f(1) by simp
qed

text \<open>Rounding to a multiple of \<open>2 ^ s\<close> is off by at most half of it.\<close>

lemma round_half:
  fixes m s :: nat
  assumes "0 < s"
  defines "q \<equiv> m div 2 ^ s" and "r \<equiv> m mod 2 ^ s"
  defines "q' \<equiv> (if 2 ^ (s - 1) < r \<or> r = 2 ^ (s - 1) \<and> odd q then q + 1 else q)"
  shows "\<bar>int (q' * 2 ^ s) - int m\<bar> \<le> 2 ^ (s - 1)" and "q \<le> q'" and "q' \<le> q + 1" and "r = 0 \<Longrightarrow> q' = q"
proof -
  define h where "h = (2 :: nat) ^ (s - 1)"
  have s: "(2 :: nat) ^ s = 2 * h" unfolding h_def using assms(1) by (cases s) simp_all
  have "m = q * 2 ^ s + r" unfolding q_def r_def by (rule div_mult_mod_eq [symmetric])
  then have "m = q * (2 * h) + r" unfolding s .
  moreover have "r < 2 * h" "0 < h" unfolding r_def s [symmetric] by (simp_all add: h_def)
  moreover have "q' = q + 1 \<and> h \<le> r \<or> q' = q \<and> r \<le> h" unfolding q'_def h_def by auto
  ultimately have "\<bar>int (q' * (2 * h)) - int m\<bar> \<le> int h" by (auto simp: algebra_simps)
  then show "\<bar>int (q' * 2 ^ s) - int m\<bar> \<le> 2 ^ (s - 1)" unfolding s by (simp add: h_def)
  show "q \<le> q'" "q' \<le> q + 1" unfolding q'_def by simp_all
  show "r = 0 \<Longrightarrow> q' = q" unfolding q'_def by simp
qed

lemma scale_error: "k * \<bar>a - b\<bar> \<le> b \<Longrightarrow> 0 \<le> d \<Longrightarrow> k * \<bar>a * d - b * d\<bar> \<le> b * (d :: int)"
proof -
  assume "k * \<bar>a - b\<bar> \<le> b" "0 \<le> d"
  then have "k * \<bar>a - b\<bar> * d \<le> b * d" by (rule mult_right_mono)
  moreover have "\<bar>a * d - b * d\<bar> = \<bar>a - b\<bar> * d"
    using \<open>0 \<le> d\<close> by (simp only: left_diff_distrib [symmetric] abs_mult abs_of_nonneg)
  ultimately show ?thesis by (simp only: mult.assoc)
qed

lemma f64_of_magnitude_rounds:
  assumes "0 < m" and "m \<le> 2 ^ 63"
  obtains n q where "f64_of_magnitude m = (n + 1022) * 2 ^ 52 + q" and "2 ^ 52 \<le> q" "q \<le> 2 ^ 53" "n \<le> 63"
    and "2 ^ 53 * \<bar>int (q * 2 ^ (n + 1022)) - int (m * 2 ^ 1074)\<bar> \<le> int (m * 2 ^ 1074)"
    and "m \<le> 2 ^ 53 \<Longrightarrow> q * 2 ^ (n + 1022) = m * 2 ^ 1074"
proof -
  define n where "n = bit_length m - 1"
  have n: "2 ^ n \<le> m" "m < 2 ^ Suc n" using bit_length_bounds [OF assms(1)] by (simp_all add: n_def)
  have "(2::nat) ^ n \<le> 2 ^ 63" using n(1) assms(2) by (rule order_trans)
  then have n63: "n \<le> 63" by (simp only: power_increasing_iff)
  show thesis
  proof (cases "n \<le> 52")
    case True
    let ?q = "m * 2 ^ (52 - n)"
    have "(2::nat) ^ 52 = 2 ^ n * 2 ^ (52 - n)" "(2::nat) ^ 53 = 2 ^ Suc n * 2 ^ (52 - n)"
      unfolding power_add [symmetric] using True by simp_all
    then have q: "2 ^ 52 \<le> ?q" "?q \<le> 2 ^ 53" using n by (simp_all only: mult_le_mono1 less_imp_le)
    have "52 - n + (n + 1022) = 1074" using True by simp
    then have e: "?q * 2 ^ (n + 1022) = m * 2 ^ 1074"
      by (simp only: mult.assoc power_add [symmetric])
    have "f64_of_magnitude m = (n + 1022) * 2 ^ 52 + ?q"
      using assms(1) True by (simp only: f64_of_magnitude_def n_def [symmetric] Let_def if_True) simp
    moreover have "2 ^ 53 * \<bar>int (?q * 2 ^ (n + 1022)) - int (m * 2 ^ 1074)\<bar> \<le> int (m * 2 ^ 1074)"
      unfolding e by (simp only: diff_self abs_zero mult_zero_right of_nat_0_le_iff)
    ultimately show thesis using that [OF _ q n63] e by blast
  next
    case False
    define s where "s = n - 52"
    let ?q = "m div 2 ^ s" and ?r = "m mod 2 ^ s"
    define q' where "q' = (if 2 ^ (s - 1) < ?r \<or> ?r = 2 ^ (s - 1) \<and> odd ?q then ?q + 1 else ?q)"
    have s: "0 < s" "n = s + 52" using False by (simp_all add: s_def)
    note R = round_half [OF s(1), of m, folded q'_def]
    have "2 ^ 52 \<le> ?q" "?q < 2 ^ 53"
      using n unfolding s(2) by (simp_all add: less_eq_div_iff_mult_less_eq div_less_iff_less_mult power_add mult.commute)
    then have q: "2 ^ 52 \<le> q'" "q' \<le> 2 ^ 53" using R(2,3) by linarith+
    have scale: "q' * 2 ^ (n + 1022) = q' * 2 ^ s * 2 ^ 1074"
      unfolding s(2) mult.assoc power_add [symmetric] by (simp add: add.commute)
    have "2 ^ 53 * \<bar>int (q' * 2 ^ s) - int m\<bar> \<le> 2 ^ 53 * 2 ^ (s - 1)" using R(1) by simp
    also have "\<dots> = int (2 ^ n)" unfolding s(2) power_add [symmetric] using s(1) by (simp add: power_add [symmetric])
    also have "\<dots> \<le> int m" using n(1) by (simp only: of_nat_le_iff)
    finally have "2 ^ 53 * \<bar>int (q' * 2 ^ s) * int (2 ^ 1074) - int m * int (2 ^ 1074)\<bar> \<le> int m * int (2 ^ 1074)"
      by (rule scale_error) (rule of_nat_0_le_iff)
    then have err: "2 ^ 53 * \<bar>int (q' * 2 ^ (n + 1022)) - int (m * 2 ^ 1074)\<bar> \<le> int (m * 2 ^ 1074)"
      by (simp only: scale of_nat_mult [symmetric])
    have exact: "q' * 2 ^ (n + 1022) = m * 2 ^ 1074" if "m \<le> 2 ^ 53"
    proof -
      have "(2::nat) ^ n \<le> 2 ^ 53" using n(1) that by (rule order_trans)
      then have "n \<le> 53" by (simp only: power_increasing_iff)
      then have "n = 53" "s = 1" using False s by simp_all
      then have "m = 2 ^ 53" using n(1) that by simp
      then have "?r = 0" using \<open>s = 1\<close> by simp
      then have "q' * 2 ^ s = m" using R(4) div_mult_mod_eq [of m "2 ^ s"] by simp
      then show ?thesis unfolding scale by simp
    qed
    have "m \<noteq> 0" using assms(1) by simp
    then have "f64_of_magnitude m = (n + 1022) * 2 ^ 52 + q'"
      using False by (simp only: f64_of_magnitude_def n_def [symmetric] s_def [symmetric] q'_def Let_def if_False)
    then show thesis using that q n63 err exact by blast
  qed
qed

lemma f64_word_of_magnitude:
  assumes "M < 2 ^ 63"
  shows "f64_scaled (of_nat M) = int (f64_magnitude M)" and "f64_scaled (2 ^ 63 + of_nat M) = - int (f64_magnitude M)"
    and "f64_exponent (of_nat M) = M div 2 ^ 52" and "f64_exponent (2 ^ 63 + of_nat M) = M div 2 ^ 52"
proof -
  have u: "unat (of_nat M :: u64) = M" "unat (2 ^ 63 + of_nat M :: u64) = 2 ^ 63 + M"
    using assms by (simp_all add: unat_of_nat unat_plus_if')
  have t: "unat (take_bit 63 w) = unat w mod 2 ^ 63" for w :: u64
    using unsigned_take_bit_eq [of 63 w, where 'a = nat] by (simp only: take_bit_eq_mod [where 'a = nat])
  have b: "bit w 63 \<longleftrightarrow> 2 ^ 63 \<le> unat w" for w :: u64
  proof -
    have "bit w 63 \<longleftrightarrow> bit (unat w) 63" by (simp add: bit_unsigned_iff)
    also have "\<dots> \<longleftrightarrow> odd (unat w div 2 ^ 63)" by (rule bit_iff_odd)
    also have "unat w < 2 * 2 ^ 63" using unsigned_less [of w, where 'a = nat] by simp
    then have "odd (unat w div 2 ^ 63) \<longleftrightarrow> 2 ^ 63 \<le> unat w"
      by (cases "unat w < 2 ^ 63") (simp_all add: div_nat_eqI [of _ 1])
    finally show ?thesis .
  qed
  have low: "unat (take_bit 63 (of_nat M :: u64)) = M" "unat (take_bit 63 (2 ^ 63 + of_nat M :: u64)) = M"
    unfolding t u using assms by (simp_all only: mod_add_self1 mod_less)
  show "f64_scaled (of_nat M) = int (f64_magnitude M)" "f64_scaled (2 ^ 63 + of_nat M) = - int (f64_magnitude M)"
    unfolding f64_scaled_magnitude b u low using assms by simp_all
  show "f64_exponent (of_nat M) = M div 2 ^ 52" "f64_exponent (2 ^ 63 + of_nat M) = M div 2 ^ 52"
    unfolding f64_fields low by (rule refl)+
qed

lemma f64_of_int64_rounds:
  shows "2 ^ 53 * \<bar>f64_scaled (f64_of_int64 x) - sint x * 2 ^ 1074\<bar> \<le> \<bar>sint x\<bar> * 2 ^ 1074"
    and "\<bar>sint x\<bar> \<le> 2 ^ 53 \<Longrightarrow> f64_scaled (f64_of_int64 x) = sint x * 2 ^ 1074"
    and "f64_exponent (f64_of_int64 x) < 2047"
proof -
  define m where "m = nat \<bar>sint x\<bar>"
  define U where "U = (2 :: int) ^ 1074"
  have m63: "m \<le> 2 ^ 63" using sint_ge [of x] sint_lt [of x] by (auto simp: m_def)
  have x: "sint x = (if sint x < 0 then - int m else int m)" by (simp add: m_def)
  define M where "M = f64_of_magnitude m"
  have w: "f64_of_int64 x = (if sint x < 0 then 2 ^ 63 + of_nat M else of_nat M)"
    by (auto simp: f64_of_int64_def M_def m_def abs_if)
  have "M < 2 ^ 63 \<and> 2 ^ 53 * \<bar>int (f64_magnitude M) - int m * U\<bar> \<le> int m * U
     \<and> (m \<le> 2 ^ 53 \<longrightarrow> int (f64_magnitude M) = int m * U) \<and> M div 2 ^ 52 < 2047"
  proof (cases "m = 0")
    case True
    then show ?thesis by (simp add: M_def f64_of_magnitude_def)
  next
    case False
    then obtain n q where R: "M = (n + 1022) * 2 ^ 52 + q" "2 ^ 52 \<le> q" "q \<le> 2 ^ 53" "n \<le> 63"
      "2 ^ 53 * \<bar>int (q * 2 ^ (n + 1022)) - int (m * 2 ^ 1074)\<bar> \<le> int (m * 2 ^ 1074)"
      "m \<le> 2 ^ 53 \<Longrightarrow> q * 2 ^ (n + 1022) = m * 2 ^ 1074"
      unfolding M_def using f64_of_magnitude_rounds [OF _ m63] by blast
    have mag: "f64_magnitude M = q * 2 ^ (n + 1022)" unfolding R(1) by (rule f64_magnitude_compose [OF R(2,3)])
    have U: "int (m * 2 ^ 1074) = int m * U" unfolding U_def by (simp only: of_nat_mult of_nat_power of_nat_numeral)
    have "M \<le> 1087 * 2 ^ 52" using R(3,4) unfolding R(1) by simp
    then have "M < 2 ^ 63" "M div 2 ^ 52 < 2047" by (simp_all add: div_less_iff_less_mult)
    then show ?thesis using R(5,6) unfolding mag U [symmetric] by simp
  qed
  note R = this [THEN conjunct1] this [THEN conjunct2, THEN conjunct1] this [THEN conjunct2, THEN conjunct2, THEN conjunct1]
    this [THEN conjunct2, THEN conjunct2, THEN conjunct2]
  define G where "G = int (f64_magnitude M)"
  have G: "2 ^ 53 * \<bar>G - int m * U\<bar> \<le> int m * U" "m \<le> 2 ^ 53 \<Longrightarrow> G = int m * U" using R(2,3) by (simp_all add: G_def)
  have scaled: "f64_scaled (f64_of_int64 x) = (if sint x < 0 then - G else G)"
    unfolding w G_def using f64_word_of_magnitude(1,2) [OF R(1)] by simp
  have flip: "\<bar>- G - - int m * U\<bar> = \<bar>G - int m * U\<bar>" by (simp add: abs_minus_commute)
  show "2 ^ 53 * \<bar>f64_scaled (f64_of_int64 x) - sint x * 2 ^ 1074\<bar> \<le> \<bar>sint x\<bar> * 2 ^ 1074"
    unfolding U_def [symmetric] scaled using G(1) flip x
    by (cases "sint x < 0") (simp_all only: if_True if_False abs_minus_cancel abs_of_nat)
  show "f64_scaled (f64_of_int64 x) = sint x * 2 ^ 1074" if "\<bar>sint x\<bar> \<le> 2 ^ 53"
  proof -
    have "m \<le> 2 ^ 53" using that by (simp add: m_def)
    then have "G = int m * U" by (rule G(2))
    then show ?thesis unfolding U_def [symmetric] scaled using x
      by (cases "sint x < 0") (simp_all only: if_True if_False mult_minus_left)
  qed
  show "f64_exponent (f64_of_int64 x) < 2047"
    unfolding w using f64_word_of_magnitude(3,4) [OF R(1)] R(4) by auto
qed
text \<open>Small integers survive the conversion to a double and back.\<close>

lemma sdiv_multiple: "0 < u \<Longrightarrow> (a * u) sdiv u = (a :: int)"
  by (simp add: signed_divide_int_def abs_mult sgn_mult)
    (metis abs_mult_sgn mult.commute sgn_mult_abs)

lemma f64_int64_roundtrip:
  assumes "\<bar>sint x\<bar> \<le> 2 ^ 53"
  shows "f64_to_int64 (f64_of_int64 x) = Inr x"
proof -
  have "f64_scaled (f64_of_int64 x) sdiv 2 ^ 1074 = sint x"
    unfolding f64_of_int64_rounds(2) [OF assms] by (rule sdiv_multiple) (rule zero_less_power, simp)
  moreover have "f64_exponent (f64_of_int64 x) \<noteq> 2047" using f64_of_int64_rounds(3) [of x] by simp
  moreover have "- (2 ^ 63) \<le> sint x" "sint x < 2 ^ 63" using sint_ge [of x] sint_lt [of x] by simp_all
  moreover have "word_of_int (sint x) = x" by simp
  ultimately show ?thesis by (simp only: f64_to_int64_def Let_def if_False if_True simp_thms)
qed

lemma f64_finite_not_nan: "f64_exponent w < 2047 \<Longrightarrow> \<not> f64_nan w"
  by (simp add: f64_nan_def)

lemma f64_compare_values:
  assumes "f64_exponent a < 2047" "f64_exponent b < 2047"
  shows "f64_eq a b \<longleftrightarrow> f64_scaled a = f64_scaled b" and "f64_lt a b \<longleftrightarrow> f64_scaled a < f64_scaled b"
    and "f64_le a b \<longleftrightarrow> f64_scaled a \<le> f64_scaled b"
  using assms f64_order by (auto simp: f64_eq_def f64_lt_def f64_le_def f64_finite_not_nan le_less)

end
