(* ===== verification/Alpha_Float.thy ===== *)
theory Alpha_Float
  imports Alpha_Multimedia IEEE_Doubles
begin

text \<open>
  The floating-point instructions of the Alpha that the pipeline executes itself (arch/drisc/ISA.mtalpha.cpp)
  and the branches. Large enumerations of function codes are tables of names and codes.
\<close>

section \<open>Opcodes and function codes\<close>

definition A_OP_CALL_PAL :: nat where "A_OP_CALL_PAL = 0x00"
definition A_OP_UTHREAD :: nat where "A_OP_UTHREAD = 0x01"
definition A_OP_CREATE_I :: nat where "A_OP_CREATE_I = 0x03"
definition A_OP_CREATE_D :: nat where "A_OP_CREATE_D = 0x04"
definition A_OP_UTHREADF :: nat where "A_OP_UTHREADF = 0x05"
definition A_OP_BR :: nat where "A_OP_BR = 0x30"
definition A_OP_FBEQ :: nat where "A_OP_FBEQ = 0x31"
definition A_OP_FBLT :: nat where "A_OP_FBLT = 0x32"
definition A_OP_FBLE :: nat where "A_OP_FBLE = 0x33"
definition A_OP_BSR :: nat where "A_OP_BSR = 0x34"
definition A_OP_FBNE :: nat where "A_OP_FBNE = 0x35"
definition A_OP_FBGE :: nat where "A_OP_FBGE = 0x36"
definition A_OP_FBGT :: nat where "A_OP_FBGT = 0x37"
definition A_OP_BLBC :: nat where "A_OP_BLBC = 0x38"
definition A_OP_BEQ :: nat where "A_OP_BEQ = 0x39"
definition A_OP_BLT :: nat where "A_OP_BLT = 0x3A"
definition A_OP_BLE :: nat where "A_OP_BLE = 0x3B"
definition A_OP_BLBS :: nat where "A_OP_BLBS = 0x3C"
definition A_OP_BNE :: nat where "A_OP_BNE = 0x3D"
definition A_OP_BGE :: nat where "A_OP_BGE = 0x3E"
definition A_OP_BGT :: nat where "A_OP_BGT = 0x3F"
definition A_OP_LDA :: nat where "A_OP_LDA = 0x08"
definition A_OP_LDAH :: nat where "A_OP_LDAH = 0x09"
definition A_OP_LDBU :: nat where "A_OP_LDBU = 0x0A"
definition A_OP_LDQ_U :: nat where "A_OP_LDQ_U = 0x0B"
definition A_OP_LDWU :: nat where "A_OP_LDWU = 0x0C"
definition A_OP_STW :: nat where "A_OP_STW = 0x0D"
definition A_OP_STB :: nat where "A_OP_STB = 0x0E"
definition A_OP_STQ_U :: nat where "A_OP_STQ_U = 0x0F"
definition A_OP_MISC :: nat where "A_OP_MISC = 0x18"
definition A_OP_JUMP :: nat where "A_OP_JUMP = 0x1A"
definition A_OP_LDF :: nat where "A_OP_LDF = 0x20"
definition A_OP_LDG :: nat where "A_OP_LDG = 0x21"
definition A_OP_LDS :: nat where "A_OP_LDS = 0x22"
definition A_OP_LDT :: nat where "A_OP_LDT = 0x23"
definition A_OP_STF :: nat where "A_OP_STF = 0x24"
definition A_OP_STG :: nat where "A_OP_STG = 0x25"
definition A_OP_STS :: nat where "A_OP_STS = 0x26"
definition A_OP_STT :: nat where "A_OP_STT = 0x27"
definition A_OP_LDL :: nat where "A_OP_LDL = 0x28"
definition A_OP_LDQ :: nat where "A_OP_LDQ = 0x29"
definition A_OP_LDL_L :: nat where "A_OP_LDL_L = 0x2A"
definition A_OP_LDQ_L :: nat where "A_OP_LDQ_L = 0x2B"
definition A_OP_STL :: nat where "A_OP_STL = 0x2C"
definition A_OP_STQ :: nat where "A_OP_STQ = 0x2D"
definition A_OP_STL_C :: nat where "A_OP_STL_C = 0x2E"
definition A_OP_STQ_C :: nat where "A_OP_STQ_C = 0x2F"
definition A_OP_INTA :: nat where "A_OP_INTA = 0x10"
definition A_OP_INTL :: nat where "A_OP_INTL = 0x11"
definition A_OP_INTS :: nat where "A_OP_INTS = 0x12"
definition A_OP_INTM :: nat where "A_OP_INTM = 0x13"
definition A_OP_ITFP :: nat where "A_OP_ITFP = 0x14"
definition A_OP_FLTV :: nat where "A_OP_FLTV = 0x15"
definition A_OP_FLTI :: nat where "A_OP_FLTI = 0x16"
definition A_OP_FLTL :: nat where "A_OP_FLTL = 0x17"
definition A_OP_FPTI :: nat where "A_OP_FPTI = 0x1C"

lemmas opcode_defs =
  A_OP_CALL_PAL_def A_OP_UTHREAD_def A_OP_CREATE_I_def A_OP_CREATE_D_def A_OP_UTHREADF_def
  A_OP_BR_def A_OP_FBEQ_def A_OP_FBLT_def A_OP_FBLE_def A_OP_BSR_def A_OP_FBNE_def A_OP_FBGE_def
  A_OP_FBGT_def A_OP_BLBC_def A_OP_BEQ_def A_OP_BLT_def A_OP_BLE_def A_OP_BLBS_def A_OP_BNE_def
  A_OP_BGE_def A_OP_BGT_def A_OP_LDA_def A_OP_LDAH_def A_OP_LDBU_def A_OP_LDQ_U_def A_OP_LDWU_def
  A_OP_STW_def A_OP_STB_def A_OP_STQ_U_def A_OP_MISC_def A_OP_JUMP_def A_OP_LDF_def A_OP_LDG_def
  A_OP_LDS_def A_OP_LDT_def A_OP_STF_def A_OP_STG_def A_OP_STS_def A_OP_STT_def A_OP_LDL_def
  A_OP_LDQ_def A_OP_LDL_L_def A_OP_LDQ_L_def A_OP_STL_def A_OP_STQ_def A_OP_STL_C_def A_OP_STQ_C_def
  A_OP_INTA_def A_OP_INTL_def A_OP_INTS_def A_OP_INTM_def A_OP_ITFP_def A_OP_FLTV_def A_OP_FLTI_def
  A_OP_FLTL_def A_OP_FPTI_def

datatype FLTL_func =
    A_FLTIFUNC_CVTLQ | A_FLTIFUNC_CPYS | A_FLTIFUNC_CPYSN | A_FLTIFUNC_CPYSE | A_FLTIFUNC_MT_FPCR
    | A_FLTIFUNC_MF_FPCR | A_FLTIFUNC_FCMOVEQ | A_FLTIFUNC_FCMOVNE | A_FLTIFUNC_FCMOVLT
    | A_FLTIFUNC_FCMOVGE | A_FLTIFUNC_FCMOVLE | A_FLTIFUNC_FCMOVGT | A_FLTIFUNC_CVTQL
    | A_FLTIFUNC_CVTQL_V | A_FLTIFUNC_CVTQL_SV

definition FLTL_func_codes :: "(nat \<times> FLTL_func) list" where
  "FLTL_func_codes =
    [(0x010, A_FLTIFUNC_CVTLQ), (0x020, A_FLTIFUNC_CPYS), (0x021, A_FLTIFUNC_CPYSN),
     (0x022, A_FLTIFUNC_CPYSE), (0x024, A_FLTIFUNC_MT_FPCR), (0x025, A_FLTIFUNC_MF_FPCR),
     (0x02A, A_FLTIFUNC_FCMOVEQ), (0x02B, A_FLTIFUNC_FCMOVNE), (0x02C, A_FLTIFUNC_FCMOVLT),
     (0x02D, A_FLTIFUNC_FCMOVGE), (0x02E, A_FLTIFUNC_FCMOVLE), (0x02F, A_FLTIFUNC_FCMOVGT),
     (0x030, A_FLTIFUNC_CVTQL), (0x130, A_FLTIFUNC_CVTQL_V), (0x530, A_FLTIFUNC_CVTQL_SV)]"

definition FLTI_codes :: "(string \<times> nat) list" where
  "FLTI_codes =
    [(''ADDS_C'', 0x000), (''SUBS_C'', 0x001), (''MULS_C'', 0x002), (''DIVS_C'', 0x003),
     (''ADDT_C'', 0x020), (''SUBT_C'', 0x021), (''MULT_C'', 0x022), (''DIVT_C'', 0x023),
     (''CVTTS_C'', 0x02C), (''CVTTQ_C'', 0x02F), (''CVTQS_C'', 0x03C), (''CVTQT_C'', 0x03E),
     (''ADDS_M'', 0x040), (''SUBS_M'', 0x041), (''MULS_M'', 0x042), (''DIVS_M'', 0x043),
     (''ADDT_M'', 0x060), (''SUBT_M'', 0x061), (''MULT_M'', 0x062), (''DIVT_M'', 0x063),
     (''CVTTS_M'', 0x06C), (''CVTTQ_M'', 0x06F), (''CVTQS_M'', 0x07C), (''CVTQT_M'', 0x07E),
     (''ADDS'', 0x080), (''SUBS'', 0x081), (''MULS'', 0x082), (''DIVS'', 0x083), (''ADDT'', 0x0A0),
     (''SUBT'', 0x0A1), (''MULT'', 0x0A2), (''DIVT'', 0x0A3), (''CMPTUN'', 0x0A4),
     (''CMPTEQ'', 0x0A5), (''CMPTLT'', 0x0A6), (''CMPTLE'', 0x0A7), (''CVTTS'', 0x0AC),
     (''CVTTQ'', 0x0AF), (''CVTQS'', 0x0BC), (''CVTQT'', 0x0BE), (''ADDS_D'', 0x0C0),
     (''SUBS_D'', 0x0C1), (''MULS_D'', 0x0C2), (''DIVS_D'', 0x0C3), (''ADDT_D'', 0x0E0),
     (''SUBT_D'', 0x0E1), (''MULT_D'', 0x0E2), (''DIVT_D'', 0x0E3), (''CVTTS_D'', 0x0EC),
     (''CVTTQ_D'', 0x0EF), (''CVTQS_D'', 0x0FC), (''CVTQT_D'', 0x0FE), (''ADDS_UC'', 0x100),
     (''SUBS_UC'', 0x101), (''MULS_UC'', 0x102), (''DIVS_UC'', 0x103), (''ADDT_UC'', 0x120),
     (''SUBT_UC'', 0x121), (''MULT_UC'', 0x122), (''DIVT_UC'', 0x123), (''CVTTS_UC'', 0x12C),
     (''CVTTQ_VC'', 0x12F), (''ADDS_UM'', 0x140), (''SUBS_UM'', 0x141), (''MULS_UM'', 0x142),
     (''DIVS_UM'', 0x143), (''ADDT_UM'', 0x160), (''SUBT_UM'', 0x161), (''MULT_UM'', 0x162),
     (''DIVT_UM'', 0x163), (''CVTTS_UM'', 0x16C), (''CVTTQ_VM'', 0x16F), (''ADDS_U'', 0x180),
     (''SUBS_U'', 0x181), (''MULS_U'', 0x182), (''DIVS_U'', 0x183), (''ADDT_U'', 0x1A0),
     (''SUBT_U'', 0x1A1), (''MULT_U'', 0x1A2), (''DIVT_U'', 0x1A3), (''CVTTS_U'', 0x1AC),
     (''CVTTQ_V'', 0x1AF), (''ADDS_UD'', 0x1C0), (''SUBS_UD'', 0x1C1), (''MULS_UD'', 0x1C2),
     (''DIVS_UD'', 0x1C3), (''ADDT_UD'', 0x1E0), (''SUBT_UD'', 0x1E1), (''MULT_UD'', 0x1E2),
     (''DIVT_UD'', 0x1E3), (''CVTTS_UD'', 0x1EC), (''CVTTQ_VD'', 0x1EF), (''CVTST'', 0x2AC),
     (''ADDS_SUC'', 0x500), (''SUBS_SUC'', 0x501), (''MULS_SUC'', 0x502), (''DIVS_SUC'', 0x503),
     (''ADDT_SUC'', 0x520), (''SUBT_SUC'', 0x521), (''MULT_SUC'', 0x522), (''DIVT_SUC'', 0x523),
     (''CVTTS_SUC'', 0x52C), (''CVTTQ_SVC'', 0x52F), (''ADDS_SUM'', 0x540), (''SUBS_SUM'', 0x541),
     (''MULS_SUM'', 0x542), (''DIVS_SUM'', 0x543), (''ADDT_SUM'', 0x560), (''SUBT_SUM'', 0x561),
     (''MULT_SUM'', 0x562), (''DIVT_SUM'', 0x563), (''CVTTS_SUM'', 0x56C), (''CVTTQ_SVM'', 0x56F),
     (''ADDS_SU'', 0x580), (''SUBS_SU'', 0x581), (''MULS_SU'', 0x582), (''DIVS_SU'', 0x583),
     (''ADDT_SU'', 0x5A0), (''SUBT_SU'', 0x5A1), (''MULT_SU'', 0x5A2), (''DIVT_SU'', 0x5A3),
     (''CMPTUN_SU'', 0x5A4), (''CMPTEQ_SU'', 0x5A5), (''CMPTLT_SU'', 0x5A6), (''CMPTLE_SU'', 0x5A7),
     (''CVTTS_SU'', 0x5AC), (''CVTTQ_SV'', 0x5AF), (''ADDS_SUD'', 0x5C0), (''SUBS_SUD'', 0x5C1),
     (''MULS_SUD'', 0x5C2), (''DIVS_SUD'', 0x5C3), (''ADDT_SUD'', 0x5E0), (''SUBT_SUD'', 0x5E1),
     (''MULT_SUD'', 0x5E2), (''DIVT_SUD'', 0x5E3), (''CVTTS_SUD'', 0x5EC), (''CVTTQ_SVD'', 0x5EF),
     (''CVTST_S'', 0x6AC), (''ADDS_SUIC'', 0x700), (''SUBS_SUIC'', 0x701), (''MULS_SUIC'', 0x702),
     (''DIVS_SUIC'', 0x703), (''ADDT_SUIC'', 0x720), (''SUBT_SUIC'', 0x721), (''MULT_SUIC'', 0x722),
     (''DIVT_SUIC'', 0x723), (''CVTTS_SUIC'', 0x72C), (''CVTTQ_SVIC'', 0x72F),
     (''CVTQS_SUIC'', 0x73C), (''CVTQT_SUIC'', 0x73E), (''ADDS_SUIM'', 0x740),
     (''SUBS_SUIM'', 0x741), (''MULS_SUIM'', 0x742), (''DIVS_SUIM'', 0x743), (''ADDT_SUIM'', 0x760),
     (''SUBT_SUIM'', 0x761), (''MULT_SUIM'', 0x762), (''DIVT_SUIM'', 0x763),
     (''CVTTS_SUIM'', 0x76C), (''CVTTQ_SVIM'', 0x76F), (''CVTQS_SUIM'', 0x77C),
     (''CVTQT_SUIM'', 0x77E), (''ADDS_SUI'', 0x780), (''SUBS_SUI'', 0x781), (''MULS_SUI'', 0x782),
     (''DIVS_SUI'', 0x783), (''ADDT_SUI'', 0x7A0), (''SUBT_SUI'', 0x7A1), (''MULT_SUI'', 0x7A2),
     (''DIVT_SUI'', 0x7A3), (''CVTTS_SUI'', 0x7AC), (''CVTTQ_SVI'', 0x7AF), (''CVTQS_SUI'', 0x7BC),
     (''CVTQT_SUI'', 0x7BE), (''ADDS_SUID'', 0x7C0), (''SUBS_SUID'', 0x7C1), (''MULS_SUID'', 0x7C2),
     (''DIVS_SUID'', 0x7C3), (''ADDT_SUID'', 0x7E0), (''SUBT_SUID'', 0x7E1), (''MULT_SUID'', 0x7E2),
     (''DIVT_SUID'', 0x7E3), (''CVTTS_SUID'', 0x7EC), (''CVTTQ_SVID'', 0x7EF),
     (''CVTQS_SUID'', 0x7FC), (''CVTQT_SUID'', 0x7FE)]"

definition ITFP_codes :: "(string \<times> nat) list" where
  "ITFP_codes =
    [(''ITOFS'', 0x004), (''ITOFF'', 0x014), (''ITOFT'', 0x024), (''SQRTF'', 0x08A),
     (''SQRTF_C'', 0x00A), (''SQRTF_S'', 0x48A), (''SQRTF_SC'', 0x40A), (''SQRTF_SU'', 0x58A),
     (''SQRTF_SUC'', 0x50A), (''SQRTF_U'', 0x18A), (''SQRTF_UC'', 0x10A), (''SQRTG'', 0x0AA),
     (''SQRTG_C'', 0x02A), (''SQRTG_S'', 0x4AA), (''SQRTG_SC'', 0x42A), (''SQRTG_SU'', 0x5AA),
     (''SQRTG_SUC'', 0x52A), (''SQRTG_U'', 0x1AA), (''SQRTG_UC'', 0x12A), (''SQRTS'', 0x08B),
     (''SQRTS_C'', 0x00B), (''SQRTS_D'', 0x0CB), (''SQRTS_M'', 0x04B), (''SQRTS_SU'', 0x58B),
     (''SQRTS_SUC'', 0x50B), (''SQRTS_SUD'', 0x5CB), (''SQRTS_SUIC'', 0x70B),
     (''SQRTS_SUID'', 0x7CB), (''SQRTS_SUIM'', 0x74B), (''SQRTS_SUM'', 0x54B),
     (''SQRTS_SUU'', 0x78B), (''SQRTS_U'', 0x18B), (''SQRTS_UC'', 0x10B), (''SQRTS_UD'', 0x1CB),
     (''SQRTS_UM'', 0x14B), (''SQRTT'', 0x0AB), (''SQRTT_C'', 0x02B), (''SQRTT_D'', 0x0EB),
     (''SQRTT_M'', 0x06B), (''SQRTT_SU'', 0x5AB), (''SQRTT_SUC'', 0x52B), (''SQRTT_SUD'', 0x5EB),
     (''SQRTT_SUI'', 0x7AB), (''SQRTT_SUIC'', 0x72B), (''SQRTT_SUID'', 0x7EB),
     (''SQRTT_SUIM'', 0x76B), (''SQRTT_SUM'', 0x56B), (''SQRTT_U'', 0x1AB), (''SQRTT_UC'', 0x12B),
     (''SQRTT_UD'', 0x1EB), (''SQRTT_UM'', 0x16B)]"

definition FLTV_codes :: "(string \<times> nat) list" where
  "FLTV_codes =
    [(''ADDF_C'', 0x000), (''SUBF_C'', 0x001), (''MULF_C'', 0x002), (''DIVF_C'', 0x003),
     (''CVTDG_C'', 0x01E), (''ADDG_C'', 0x020), (''SUBG_C'', 0x021), (''MULG_C'', 0x022),
     (''DIVG_C'', 0x023), (''CVTGF_C'', 0x02C), (''CVTGD_C'', 0x02D), (''CVTGQ_C'', 0x02F),
     (''CVTQF_C'', 0x03C), (''CVTQG_C'', 0x03E), (''ADDF'', 0x080), (''SUBF'', 0x081),
     (''MULF'', 0x082), (''DIVF'', 0x083), (''CVTDG'', 0x09E), (''ADDG'', 0x0A0), (''SUBG'', 0x0A1),
     (''MULG'', 0x0A2), (''DIVG'', 0x0A3), (''CMPGEQ'', 0x0A5), (''CMPGLT'', 0x0A6),
     (''CMPGLE'', 0x0A7), (''CVTGF'', 0x0AC), (''CVTGD'', 0x0AD), (''CVTGQ'', 0x0AF),
     (''CVTQF'', 0x0BC), (''CVTQG'', 0x0BE), (''ADDF_UC'', 0x100), (''SUBF_UC'', 0x101),
     (''MULF_UC'', 0x102), (''DIVF_UC'', 0x103), (''CVTDG_UC'', 0x11E), (''ADDG_UC'', 0x120),
     (''SUBG_UC'', 0x121), (''MULG_UC'', 0x122), (''DIVG_UC'', 0x123), (''CVTGF_UC'', 0x12C),
     (''CVTGD_UC'', 0x12D), (''CVTGQ_VC'', 0x12F), (''ADDF_U'', 0x180), (''SUBF_U'', 0x181),
     (''MULF_U'', 0x182), (''DIVF_U'', 0x183), (''CVTDG_U'', 0x19E), (''ADDG_U'', 0x1A0),
     (''SUBG_U'', 0x1A1), (''MULG_U'', 0x1A2), (''DIVG_U'', 0x1A3), (''CVTGF_U'', 0x1AC),
     (''CVTGD_U'', 0x1AD), (''CVTGQ_V'', 0x1AF), (''ADDF_SC'', 0x400), (''SUBF_SC'', 0x401),
     (''MULF_SC'', 0x402), (''DIVF_SC'', 0x403), (''CVTDG_SC'', 0x41E), (''ADDG_SC'', 0x420),
     (''SUBG_SC'', 0x421), (''MULG_SC'', 0x422), (''DIVG_SC'', 0x423), (''CVTGF_SC'', 0x42C),
     (''CVTGD_SC'', 0x42D), (''CVTGQ_SC'', 0x42F), (''ADDF_S'', 0x480), (''SUBF_S'', 0x481),
     (''MULF_S'', 0x482), (''DIVF_S'', 0x483), (''CVTDG_S'', 0x49E), (''ADDG_S'', 0x4A0),
     (''SUBG_S'', 0x4A1), (''MULG_S'', 0x4A2), (''DIVG_S'', 0x4A3), (''CMPGEQ_S'', 0x4A5),
     (''CMPGLT_S'', 0x4A6), (''CMPGLE_S'', 0x4A7), (''CVTGF_S'', 0x4AC), (''CVTGD_S'', 0x4AD),
     (''CVTGQ_S'', 0x4AF), (''ADDF_SUC'', 0x500), (''SUBF_SUC'', 0x501), (''MULF_SUC'', 0x502),
     (''DIVF_SUC'', 0x503), (''CVTDG_SUC'', 0x51E), (''ADDG_SUC'', 0x520), (''SUBG_SUC'', 0x521),
     (''MULG_SUC'', 0x522), (''DIVG_SUC'', 0x523), (''CVTGF_SUC'', 0x52C), (''CVTGD_SUC'', 0x52D),
     (''CVTGQ_SVC'', 0x52F), (''ADDF_SU'', 0x580), (''SUBF_SU'', 0x581), (''MULF_SU'', 0x582),
     (''DIVF_SU'', 0x583), (''CVTDG_SU'', 0x59E), (''ADDG_SU'', 0x5A0), (''SUBG_SU'', 0x5A1),
     (''MULG_SU'', 0x5A2), (''DIVG_SU'', 0x5A3), (''CVTGF_SU'', 0x5AC), (''CVTGD_SU'', 0x5AD),
     (''CVTGQ_SV'', 0x5AF)]"

text \<open>The codes of some names of a table.\<close>

definition codes_of :: "(string \<times> nat) list \<Rightarrow> string list \<Rightarrow> nat list" where
  "codes_of tbl names = map snd (filter (\<lambda>e. fst e \<in> set names) tbl)"

section \<open>Branches\<close>

definition BranchTaken :: "nat \<Rightarrow> PipeValue \<Rightarrow> bool res" where
  "BranchTaken opcode v =
     (let int = (\<lambda>P. res_bind (pv_integer v) (\<lambda>x. Inr (P x)));
          flt = (\<lambda>P. res_bind (MultiFloat_tofloat (pv_bits v) (pv_size v)) (\<lambda>x. Inr (P x))) in
      if opcode = A_OP_BR then Inr True
      else if opcode = A_OP_BSR then Inr True
      else if opcode = A_OP_BEQ then int (\<lambda>x. sint x = 0)
      else if opcode = A_OP_BGE then int (\<lambda>x. 0 \<le> sint x)
      else if opcode = A_OP_BGT then int (\<lambda>x. 0 < sint x)
      else if opcode = A_OP_BLE then int (\<lambda>x. sint x \<le> 0)
      else if opcode = A_OP_BLT then int (\<lambda>x. sint x < 0)
      else if opcode = A_OP_BNE then int (\<lambda>x. sint x \<noteq> 0)
      else if opcode = A_OP_BLBC then int (\<lambda>x. x AND 1 = 0)
      else if opcode = A_OP_BLBS then int (\<lambda>x. x AND 1 = 1)
      else if opcode = A_OP_FBEQ then flt (\<lambda>x. f64_eq x 0)
      else if opcode = A_OP_FBGE then flt (\<lambda>x. f64_le 0 x)
      else if opcode = A_OP_FBLE then flt (\<lambda>x. f64_le x 0)
      else if opcode = A_OP_FBGT then flt (\<lambda>x. f64_lt 0 x)
      else if opcode = A_OP_FBLT then flt (\<lambda>x. f64_lt x 0)
      else if opcode = A_OP_FBNE then flt (\<lambda>x. \<not> f64_eq x 0)
      else Inr False)"

section \<open>VAX floats\<close>

text \<open>Every case of the switch is empty.\<close>

definition ExecuteFLTV :: "PipeValue \<Rightarrow> PipeValue \<Rightarrow> PipeValue \<Rightarrow> nat \<Rightarrow> (bool \<times> PipeValue) res" where
  "ExecuteFLTV Rcv Rav Rbv func = Inr (True, pv_full Rcv)"

section \<open>IEEE floats\<close>

datatype FLTI_op =
    FLTI_CMPTUN | FLTI_CMPTEQ | FLTI_CMPTLT | FLTI_CMPTLE | FLTI_CVTTQ | FLTI_CVTQ | FLTI_CVTST | FLTI_CVTTS

text \<open>The labels of each case of the switch.\<close>

definition FLTI_cases :: "(FLTI_op \<times> string list) list" where
  "FLTI_cases =
    [(FLTI_CMPTUN, [''CMPTUN'', ''CMPTUN_SU'']),
     (FLTI_CMPTEQ, [''CMPTEQ'', ''CMPTEQ_SU'']),
     (FLTI_CMPTLT, [''CMPTLT'', ''CMPTLT_SU'']),
     (FLTI_CMPTLE, [''CMPTLE'', ''CMPTLE_SU'']),
     (FLTI_CVTTQ,
      [''CVTTQ_VC'', ''CVTTQ_VM'', ''CVTTQ_V'', ''CVTTQ_VD'', ''CVTTQ_SVC'', ''CVTTQ_SVM'',
      ''CVTTQ'', ''CVTTQ_C'', ''CVTTQ_M'', ''CVTTQ_D'', ''CVTTQ_SV'', ''CVTTQ_SVD'', ''CVTTQ_SVIC'',
      ''CVTTQ_SVIM'', ''CVTTQ_SVI'']),
     (FLTI_CVTQ,
      [''CVTQS_C'', ''CVTQS'', ''CVTQS_M'', ''CVTQS_D'', ''CVTQS_SUIC'', ''CVTQS_SUIM'',
      ''CVTQS_SUI'', ''CVTQS_SUID'', ''CVTQT_C'', ''CVTQT_M'', ''CVTQT'', ''CVTQT_D'',
      ''CVTQT_SUIC'', ''CVTQT_SUIM'', ''CVTQT_SUI'', ''CVTQT_SUID'']),
     (FLTI_CVTST, [''CVTST'', ''CVTST_S'']),
     (FLTI_CVTTS,
      [''CVTTS_C'', ''CVTTS_M'', ''CVTTS'', ''CVTTS_D'', ''CVTTS_UC'', ''CVTTS_UM'', ''CVTTS_U'',
      ''CVTTS_UD'', ''CVTTS_SUC'', ''CVTTS_SUM'', ''CVTTS_SU'', ''CVTTS_SUD'', ''CVTTS_SUIC'',
      ''CVTTS_SUIM'', ''CVTTS_SUI'', ''CVTTS_SUID'', ''CVTTQ_SVID''])]"

definition FLTI_case :: "nat \<Rightarrow> FLTI_op option" where
  "FLTI_case func = map_option fst (find (\<lambda>c. func \<in> set (codes_of FLTI_codes (snd c))) FLTI_cases)"

definition f64_flag :: "bool \<Rightarrow> u64" where
  "f64_flag b = (if b then 0x4000000000000000 else 0)"

fun FLTI_result :: "FLTI_op \<Rightarrow> u64 \<Rightarrow> u64 \<Rightarrow> u64 res" where
  "FLTI_result FLTI_CMPTUN Ra Rb = Inr (f64_flag (\<not> f64_eq Ra Ra \<or> \<not> f64_eq Rb Rb))"
| "FLTI_result FLTI_CMPTEQ Ra Rb = Inr (f64_flag (f64_eq Ra Rb))"
| "FLTI_result FLTI_CMPTLT Ra Rb = Inr (f64_flag (f64_lt Ra Rb))"
| "FLTI_result FLTI_CMPTLE Ra Rb = Inr (f64_flag (f64_le Ra Rb))"
| "FLTI_result FLTI_CVTTQ Ra Rb = f64_to_int64 Rb"
| "FLTI_result FLTI_CVTQ Ra Rb = Inr (f64_of_int64 Rb)"
| "FLTI_result FLTI_CVTST Ra Rb = Inr Rb"
| "FLTI_result FLTI_CVTTS Ra Rb = Inr Rb"

text \<open>Codes without a label (sums, differences, products and quotients) are left to the FPU.\<close>

definition ExecuteFLTI :: "PipeValue \<Rightarrow> PipeValue \<Rightarrow> PipeValue \<Rightarrow> nat \<Rightarrow> (bool \<times> PipeValue) res" where
  "ExecuteFLTI Rcv Rav Rbv func = (case FLTI_case func of
       None \<Rightarrow> Inr (False, pv_full Rcv)
     | Some c \<Rightarrow> res_bind (FLTI_result c (pv_bits Rav) (pv_bits Rbv)) (\<lambda>x. Inr (True, pv_assign x (pv_full Rcv))))"

text \<open>Copies of the sign, exponent and fraction.\<close>

definition f64_parts :: "u64 \<Rightarrow> u64 \<Rightarrow> u64 \<Rightarrow> u64" where
  "f64_parts s e f = push_bit 63 (take_bit 1 s) OR push_bit 52 (take_bit 11 e) OR take_bit 52 f"

text \<open>\<open>None\<close>: the case assigns nothing; \<open>Some None\<close>: the value becomes invalid.\<close>

fun FLTL_result :: "FLTL_func \<Rightarrow> PipeValue \<Rightarrow> u64 \<Rightarrow> u64 option option res" where
  "FLTL_result A_FLTIFUNC_CVTQL_V Rav Rb =
     Inr (Some (Some (push_bit 32 (Rb AND 0xC0000000) OR push_bit 29 (Rb AND 0x3FFFFFFF))))"
| "FLTL_result A_FLTIFUNC_CVTQL_SV Rav Rb =
     Inr (Some (Some (push_bit 32 (Rb AND 0xC0000000) OR push_bit 29 (Rb AND 0x3FFFFFFF))))"
| "FLTL_result A_FLTIFUNC_CVTQL Rav Rb =
     Inr (Some (Some (push_bit 32 (Rb AND 0xC0000000) OR push_bit 29 (Rb AND 0x3FFFFFFF))))"
| "FLTL_result A_FLTIFUNC_CVTLQ Rav Rb =
     Inr (Some (Some (drop_bit 32 Rb AND 0xC0000000 OR drop_bit 29 Rb AND 0x03FFFFFF)))"
| "FLTL_result A_FLTIFUNC_CPYS Rav Rb =
     Inr (Some (Some (f64_parts (drop_bit 63 (pv_bits Rav)) (drop_bit 52 Rb) Rb)))"
| "FLTL_result A_FLTIFUNC_CPYSN Rav Rb =
     Inr (Some (Some (f64_parts (NOT (drop_bit 63 (pv_bits Rav))) (drop_bit 52 Rb) Rb)))"
| "FLTL_result A_FLTIFUNC_CPYSE Rav Rb =
     Inr (Some (Some (f64_parts (drop_bit 63 (pv_bits Rav)) (drop_bit 52 (pv_bits Rav)) Rb)))"
| "FLTL_result A_FLTIFUNC_MT_FPCR Rav Rb = Inr None"
| "FLTL_result A_FLTIFUNC_MF_FPCR Rav Rb = Inr None"
| "FLTL_result A_FLTIFUNC_FCMOVEQ Rav Rb =
     res_bind (BranchTaken A_OP_FBEQ Rav) (\<lambda>t. Inr (Some (if t then Some Rb else None)))"
| "FLTL_result A_FLTIFUNC_FCMOVNE Rav Rb =
     res_bind (BranchTaken A_OP_FBNE Rav) (\<lambda>t. Inr (Some (if t then Some Rb else None)))"
| "FLTL_result A_FLTIFUNC_FCMOVLT Rav Rb =
     res_bind (BranchTaken A_OP_FBLT Rav) (\<lambda>t. Inr (Some (if t then Some Rb else None)))"
| "FLTL_result A_FLTIFUNC_FCMOVGE Rav Rb =
     res_bind (BranchTaken A_OP_FBGE Rav) (\<lambda>t. Inr (Some (if t then Some Rb else None)))"
| "FLTL_result A_FLTIFUNC_FCMOVLE Rav Rb =
     res_bind (BranchTaken A_OP_FBLE Rav) (\<lambda>t. Inr (Some (if t then Some Rb else None)))"
| "FLTL_result A_FLTIFUNC_FCMOVGT Rav Rb =
     res_bind (BranchTaken A_OP_FBGT Rav) (\<lambda>t. Inr (Some (if t then Some Rb else None)))"

definition ExecuteFLTL :: "PipeValue \<Rightarrow> PipeValue \<Rightarrow> PipeValue \<Rightarrow> nat \<Rightarrow> (bool \<times> PipeValue) res" where
  "ExecuteFLTL Rcv Rav Rbv func = (case map_of FLTL_func_codes func of
       None \<Rightarrow> Inr (True, pv_full Rcv)
     | Some f \<Rightarrow> res_bind (FLTL_result f Rav (pv_bits Rbv)) (\<lambda>r. Inr (True, case r of
           None \<Rightarrow> pv_full Rcv
         | Some None \<Rightarrow> Rcv\<lparr>pv_state := RST_INVALID\<rparr>
         | Some (Some x) \<Rightarrow> pv_assign x (pv_full Rcv))))"

section \<open>Moves from integer registers\<close>

definition ExecuteITFP :: "PipeValue \<Rightarrow> PipeValue \<Rightarrow> PipeValue \<Rightarrow> nat \<Rightarrow> (bool \<times> PipeValue) res" where
  "ExecuteITFP Rcv Rav Rbv func =
     (if func \<in> set (codes_of ITFP_codes [''ITOFF'']) then Inr (True, pv_full Rcv)
      else if func \<in> set (codes_of ITFP_codes [''ITOFS'', ''ITOFT''])
      then (let n = (if func \<in> set (codes_of ITFP_codes [''ITOFS'']) then 4 else 8)
            in res_bind (pv_integer Rav) (\<lambda>x. Inr (True,
                 pv_assign (UnserializeRegister MTALPHA RT_FLOAT (SerializeRegister MTALPHA RT_INTEGER x n)) (pv_full Rcv))))
      else Inr (False, pv_full Rcv))"

section \<open>Properties\<close>

text \<open>The infinities are above and below the finite numbers.\<close>

definition f64_infinity :: "bool \<Rightarrow> u64" where
  "f64_infinity negative = (if negative then 0xFFF0000000000000 else 0x7FF0000000000000)"

lemma f64_infinity_fields:
  "\<not> f64_nan (f64_infinity s)" "f64_key (f64_infinity s) = (if s then - (2047 * 2 ^ 52) else 2047 * 2 ^ 52)"
  by (simp_all add: f64_infinity_def f64_nan_def f64_exponent_def f64_fraction_def f64_key_def)

lemma f64_finite_key: "f64_exponent w < 2047 \<Longrightarrow> \<bar>f64_key w\<bar> < 2047 * 2 ^ 52"
proof -
  assume "f64_exponent w < 2047"
  then have "unat (take_bit 63 w) div 2 ^ 52 < 2047" by (simp only: f64_fields(1))
  then have "unat (take_bit 63 w) < 2047 * 2 ^ 52" by (simp add: div_less_iff_less_mult)
  then have "int (unat (take_bit 63 w)) < int (2047 * 2 ^ 52)" by (simp only: of_nat_less_iff)
  then show ?thesis unfolding f64_key_def uint_nat by simp
qed

text \<open>
  C35. The conversion of a 64-bit integer to a double is off by at most a half in the last of 53
  bits of its magnitude; up to \<open>2 ^ 53\<close> it is exact and the conversion back gives the integer
  again. The comparisons of finite operands are those of their values. The infinities are ordered,
  not unordered: the negative one is less than every finite number and the positive one is greater,
  none is equal to a finite one, and each equals itself. With an operand that is not a number (NaN)
  every comparison fails but the one that asks for unordered operands, which fails for all others.
\<close>

theorem FLTI_correct:
  "(\<exists>w. FLTI_result FLTI_CVTQ a x = Inr w
        \<and> 2 ^ 53 * \<bar>f64_scaled w - sint x * 2 ^ 1074\<bar> \<le> \<bar>sint x\<bar> * 2 ^ 1074
        \<and> (\<bar>sint x\<bar> \<le> 2 ^ 53 \<longrightarrow> f64_scaled w = sint x * 2 ^ 1074 \<and> FLTI_result FLTI_CVTTQ a w = Inr x))
    \<and> (f64_exponent a < 2047 \<and> f64_exponent b < 2047 \<longrightarrow>
        FLTI_result FLTI_CMPTEQ a b = Inr (f64_flag (f64_scaled a = f64_scaled b))
        \<and> FLTI_result FLTI_CMPTLT a b = Inr (f64_flag (f64_scaled a < f64_scaled b))
        \<and> FLTI_result FLTI_CMPTLE a b = Inr (f64_flag (f64_scaled a \<le> f64_scaled b)))
    \<and> (f64_exponent a < 2047 \<longrightarrow>
        FLTI_result FLTI_CMPTLT a (f64_infinity s) = Inr (f64_flag (\<not> s))
        \<and> FLTI_result FLTI_CMPTLT (f64_infinity s) a = Inr (f64_flag s)
        \<and> FLTI_result FLTI_CMPTLE a (f64_infinity s) = Inr (f64_flag (\<not> s))
        \<and> FLTI_result FLTI_CMPTLE (f64_infinity s) a = Inr (f64_flag s)
        \<and> FLTI_result FLTI_CMPTEQ a (f64_infinity s) = Inr (f64_flag False))
    \<and> FLTI_result FLTI_CMPTEQ (f64_infinity s) (f64_infinity t) = Inr (f64_flag (s = t))
    \<and> FLTI_result FLTI_CMPTLT (f64_infinity s) (f64_infinity t) = Inr (f64_flag (s \<and> \<not> t))
    \<and> FLTI_result FLTI_CMPTLE (f64_infinity s) (f64_infinity t) = Inr (f64_flag (s \<or> \<not> t))
    \<and> FLTI_result FLTI_CMPTUN a b = Inr (f64_flag (f64_nan a \<or> f64_nan b))
    \<and> (f64_nan a \<or> f64_nan b \<longrightarrow>
        FLTI_result FLTI_CMPTEQ a b = Inr (f64_flag False) \<and> FLTI_result FLTI_CMPTLT a b = Inr (f64_flag False)
        \<and> FLTI_result FLTI_CMPTLE a b = Inr (f64_flag False))"
proof (intro conjI impI)
  show "\<exists>w. FLTI_result FLTI_CVTQ a x = Inr w
      \<and> 2 ^ 53 * \<bar>f64_scaled w - sint x * 2 ^ 1074\<bar> \<le> \<bar>sint x\<bar> * 2 ^ 1074
      \<and> (\<bar>sint x\<bar> \<le> 2 ^ 53 \<longrightarrow> f64_scaled w = sint x * 2 ^ 1074 \<and> FLTI_result FLTI_CVTTQ a w = Inr x)"
  proof (intro exI conjI impI)
    show "FLTI_result FLTI_CVTQ a x = Inr (f64_of_int64 x)" by (rule FLTI_result.simps)
    show "2 ^ 53 * \<bar>f64_scaled (f64_of_int64 x) - sint x * 2 ^ 1074\<bar> \<le> \<bar>sint x\<bar> * 2 ^ 1074"
      by (rule f64_of_int64_rounds(1))
    show "f64_scaled (f64_of_int64 x) = sint x * 2 ^ 1074" if "\<bar>sint x\<bar> \<le> 2 ^ 53"
      by (rule f64_of_int64_rounds(2) [OF that])
    show "FLTI_result FLTI_CVTTQ a (f64_of_int64 x) = Inr x" if "\<bar>sint x\<bar> \<le> 2 ^ 53"
      unfolding FLTI_result.simps by (rule f64_int64_roundtrip [OF that])
  qed
next
  assume fin: "f64_exponent a < 2047 \<and> f64_exponent b < 2047"
  then show "FLTI_result FLTI_CMPTEQ a b = Inr (f64_flag (f64_scaled a = f64_scaled b))"
    "FLTI_result FLTI_CMPTLT a b = Inr (f64_flag (f64_scaled a < f64_scaled b))"
    "FLTI_result FLTI_CMPTLE a b = Inr (f64_flag (f64_scaled a \<le> f64_scaled b))"
    using f64_compare_values by simp_all
next
  assume fin: "f64_exponent a < 2047"
  note inf = f64_eq_def f64_lt_def f64_le_def f64_infinity_fields f64_finite_not_nan [OF fin]
  have "- (2047 * 2 ^ 52) < f64_key a" "f64_key a < 2047 * 2 ^ 52" using f64_finite_key [OF fin] by linarith+
  then show "FLTI_result FLTI_CMPTLT a (f64_infinity s) = Inr (f64_flag (\<not> s))"
    "FLTI_result FLTI_CMPTLT (f64_infinity s) a = Inr (f64_flag s)"
    "FLTI_result FLTI_CMPTLE a (f64_infinity s) = Inr (f64_flag (\<not> s))"
    "FLTI_result FLTI_CMPTLE (f64_infinity s) a = Inr (f64_flag s)"
    "FLTI_result FLTI_CMPTEQ a (f64_infinity s) = Inr (f64_flag False)"
    by (cases s; simp add: inf)+
next
  note inf = f64_eq_def f64_lt_def f64_le_def f64_infinity_fields
  show "FLTI_result FLTI_CMPTEQ (f64_infinity s) (f64_infinity t) = Inr (f64_flag (s = t))"
    "FLTI_result FLTI_CMPTLT (f64_infinity s) (f64_infinity t) = Inr (f64_flag (s \<and> \<not> t))"
    "FLTI_result FLTI_CMPTLE (f64_infinity s) (f64_infinity t) = Inr (f64_flag (s \<or> \<not> t))"
    by (cases s; cases t; simp add: inf)+
  show "FLTI_result FLTI_CMPTUN a b = Inr (f64_flag (f64_nan a \<or> f64_nan b))"
    by (simp add: f64_eq_def)
next
  assume "f64_nan a \<or> f64_nan b"
  then show "FLTI_result FLTI_CMPTEQ a b = Inr (f64_flag False)" "FLTI_result FLTI_CMPTLT a b = Inr (f64_flag False)"
    "FLTI_result FLTI_CMPTLE a b = Inr (f64_flag False)"
    by (auto simp: f64_eq_def f64_lt_def f64_le_def)
qed

theorem FLTI_correct_witness:
  "(\<exists>w. FLTI_result FLTI_CVTQ 0 3 = Inr w \<and> FLTI_result FLTI_CVTTQ 0 w = Inr 3)
    \<and> FLTI_result FLTI_CMPTUN 0x7FF8000000000000 0 = Inr (f64_flag True)"
proof
  have "\<bar>sint (3 :: u64)\<bar> \<le> 2 ^ 53" by simp
  then show "\<exists>w. FLTI_result FLTI_CVTQ 0 3 = Inr w \<and> FLTI_result FLTI_CVTTQ 0 w = Inr 3"
    using FLTI_correct [of 0 3, THEN conjunct1] by blast
  have "f64_nan 0x7FF8000000000000" by (simp add: f64_nan_def f64_exponent_def f64_fraction_def)
  then show "FLTI_result FLTI_CMPTUN 0x7FF8000000000000 0 = Inr (f64_flag True)"
    using FLTI_correct [of "0x7FF8000000000000" 0 0] by auto
qed

lemma ITFP_codes_of:
  "codes_of ITFP_codes [''ITOFF''] = [0x14]" "codes_of ITFP_codes [''ITOFS'', ''ITOFT''] = [4, 0x24]"
  "codes_of ITFP_codes [''ITOFS''] = [4]"
  by (simp_all add: codes_of_def ITFP_codes_def)

lemma move_codes:
  "map_of FPTI_func_codes 0x70 = Some A_FPTIFUNC_FTOIT" "map_of FPTI_func_codes 0x78 = Some A_FPTIFUNC_FTOIS"
  by (simp_all add: FPTI_func_codes_def)

lemma word_move: "UnserializeRegister MTALPHA RT_INTEGER (SerializeRegister MTALPHA RT_FLOAT
    (UnserializeRegister MTALPHA RT_FLOAT (SerializeRegister MTALPHA RT_INTEGER x 8)) 8) = x"
  using take_bit_length_eq [of x] by (simp add: SerializeRegister_def Endian_roundtrip)

lemma half_move: "UnserializeRegister MTALPHA RT_INTEGER (SerializeRegister MTALPHA RT_FLOAT
    (UnserializeRegister MTALPHA RT_FLOAT (SerializeRegister MTALPHA RT_INTEGER x 4)) 4) = sext32 x"
proof -
  have l: "length (SerializeRegister MTALPHA RT_INTEGER x 4) = 4" by (simp add: SerializeRegister_def)
  have "ucast (take_bit 32 x) = (ucast x :: 32 word)" by (rule bit_eqI) (auto simp: bit_simps)
  then show ?thesis unfolding S_float_roundtrip [OF l]
    by (simp add: SerializeRegister_def Endian_roundtrip sext32_def)
qed

text \<open>The conditional moves with opposite conditions; equality and its negation are opposite for
  operands that are no numbers, too.\<close>

definition opposite_fmoves :: "(FLTL_func \<times> FLTL_func) list" where
  "opposite_fmoves = [(A_FLTIFUNC_FCMOVEQ, A_FLTIFUNC_FCMOVNE), (A_FLTIFUNC_FCMOVLT, A_FLTIFUNC_FCMOVGE),
     (A_FLTIFUNC_FCMOVLE, A_FLTIFUNC_FCMOVGT)]"

text \<open>
  Moving an integer register to a floating-point register and back gives the integer, or its low
  half with the sign extended for the four-byte moves; and the opposite conditional moves of
  floating-point registers move exactly one of the two, for any eight-byte operand.
\<close>

theorem float_moves_correct:
  assumes "pv_size Rav = 8" and "pv_size Rbv = 8" and "pv_size Rcv = 8" and "\<not> f64_nan (pv_bits Rav)"
  shows "(\<exists>v w. ExecuteITFP Rcv Rav Rbv 0x24 = Inr (True, v) \<and> ExecuteFPTI Rcv v Rbv 0x70 = Inr (True, w)
        \<and> pv_bits w = pv_bits Rav)
    \<and> (\<exists>v w. ExecuteITFP Rcv Rav Rbv 0x04 = Inr (True, v) \<and> ExecuteFPTI Rcv v Rbv 0x78 = Inr (True, w)
        \<and> pv_bits w = sext32 (pv_bits Rav))
    \<and> list_all (\<lambda>(f, g). {FLTL_result f Rav Rb, FLTL_result g Rav Rb}
        = {Inr (Some None), Inr (Some (Some Rb))}) opposite_fmoves"
proof (intro conjI)
  show "\<exists>v w. ExecuteITFP Rcv Rav Rbv 0x24 = Inr (True, v) \<and> ExecuteFPTI Rcv v Rbv 0x70 = Inr (True, w)
      \<and> pv_bits w = pv_bits Rav"
    using assms by (simp add: ExecuteITFP_def ITFP_codes_of ExecuteFPTI_def move_codes pv_integer_8 word_move
        del: UnserializeRegister.simps)
  show "\<exists>v w. ExecuteITFP Rcv Rav Rbv 0x04 = Inr (True, v) \<and> ExecuteFPTI Rcv v Rbv 0x78 = Inr (True, w)
      \<and> pv_bits w = sext32 (pv_bits Rav)"
    using assms by (simp add: ExecuteITFP_def ITFP_codes_of ExecuteFPTI_def move_codes pv_integer_8 half_move
        del: UnserializeRegister.simps)
  have z: "\<not> f64_nan 0" by (simp add: f64_nan_def f64_exponent_def)
  show "list_all (\<lambda>(f, g). {FLTL_result f Rav Rb, FLTL_result g Rav Rb}
      = {Inr (Some None), Inr (Some (Some Rb))}) opposite_fmoves"
    using assms(1,4) z
    by (auto simp: opposite_fmoves_def BranchTaken_def opcode_defs MultiFloat_tofloat_def Let_def
        f64_eq_def f64_lt_def f64_le_def)
qed

definition example_value :: "u64 \<Rightarrow> PipeValue" where
  "example_value x = \<lparr>pv_state = RST_FULL, pv_size = 8, pv_bits = x, pv_waiting = \<lparr>tq_head = 0, tq_tail = 0\<rparr>,
     pv_memory = \<lparr>mr_next = \<lparr>ra_type = RT_INTEGER, ra_index = 0\<rparr>, mr_fid = 0, mr_size = 0, mr_offset = 0,
       mr_sign_extend = False\<rparr>\<rparr>"

theorem float_moves_correct_witness:
  "\<exists>v w. ExecuteITFP (example_value 0) (example_value 0x80000001) (example_value 0) 0x04 = Inr (True, v)
    \<and> ExecuteFPTI (example_value 0) v (example_value 0) 0x78 = Inr (True, w)
    \<and> pv_bits w = sext32 0x80000001"
proof -
  have "\<not> f64_nan 0x80000001" by (simp add: f64_nan_def f64_exponent_def)
  then show ?thesis
    using float_moves_correct [of "example_value 0x80000001" "example_value 0" "example_value 0" 0]
    by (simp add: example_value_def)
qed

text \<open>The conversion from the register format of a 32-bit integer drops bits 26 to 29 and does not
  extend the sign.\<close>

lemma CVTLQ_loses_bits:
  "FLTL_result A_FLTIFUNC_CVTQL v 0x04000000 = Inr (Some (Some 0x80000000000000))"
  "FLTL_result A_FLTIFUNC_CVTLQ v 0x80000000000000 = Inr (Some (Some 0))"
  by simp_all

end
