(* ===== verification/Alpha_Decode.thy ===== *)
theory Alpha_Decode
  imports Alpha_Float Core_Base
begin

text \<open>
  The decode stage (arch/drisc/DecodeStage.cpp) with the instruction formats of the Alpha
  (arch/drisc/ISA.mtalpha.h, arch/drisc/ISA.mtalpha.cpp) and the latches before and after it
  (arch/drisc/Pipeline.h). The registers that an instruction names are numbers in a window of locals,
  globals, shareds and dependents, which the stage translates to addresses in the register file. The
  latches are records that extend each other as the structures of the source do; the
  pointer to the symbolic name of the program counter is only printed and not kept.
\<close>

section \<open>Latches\<close>

datatype InstrFormat =
    IFORMAT_MEM_LOAD | IFORMAT_MEM_STORE | IFORMAT_JUMP | IFORMAT_OP | IFORMAT_FPOP | IFORMAT_BRA
    | IFORMAT_PAL | IFORMAT_MISC | IFORMAT_INVALID

record RegInfo =
  ri_family :: FamilyRegInfo
  ri_thread :: ThreadRegInfo

record CommonData =
  cd_pc :: u64
  cd_tid :: u32
  cd_fid :: u32
  cd_swch :: bool
  cd_kill :: bool
  cd_pc_dbg :: u64
  cd_logical_index :: u64

record FetchDecodeLatch = CommonData +
  fd_instr :: u32
  fd_regs :: "RegType \<Rightarrow> RegInfo"
  fd_placeSize :: u32
  fd_legacy :: bool

record DecodeReadLatch = CommonData +
  dr_format :: InstrFormat
  dr_displacement :: u32
  dr_function :: nat
  dr_opcode :: nat
  dr_literal :: u32
  dr_regs :: "RegType \<Rightarrow> RegInfo"
  dr_placeSize :: u32
  dr_Ra :: RegAddr
  dr_Rb :: RegAddr
  dr_Rc :: RegAddr
  dr_RaSize :: nat
  dr_RbSize :: nat
  dr_RcSize :: nat
  dr_RaIsLocal :: bool
  dr_RbIsLocal :: bool
  dr_RaNotPending :: bool
  dr_regofs :: nat
  dr_legacy :: bool

section \<open>Function codes of the microthreading instructions\<close>

definition A_UTHREAD_DC_MASK :: nat where "A_UTHREAD_DC_MASK = 0x78"
definition A_UTHREAD_DC_VALUE :: nat where "A_UTHREAD_DC_VALUE = 0x00"
definition A_UTHREAD_LDBP :: nat where "A_UTHREAD_LDBP = 0x00"
definition A_UTHREAD_LDFP :: nat where "A_UTHREAD_LDFP = 0x01"
definition A_UTHREAD_GETTID :: nat where "A_UTHREAD_GETTID = 0x02"
definition A_UTHREAD_GETFID :: nat where "A_UTHREAD_GETFID = 0x03"
definition A_UTHREAD_GETPID :: nat where "A_UTHREAD_GETPID = 0x04"
definition A_UTHREAD_GETCID :: nat where "A_UTHREAD_GETCID = 0x05"
definition A_UTHREAD_GETASR :: nat where "A_UTHREAD_GETASR = 0x06"
definition A_UTHREAD_GETAPR :: nat where "A_UTHREAD_GETAPR = 0x07"
definition A_UTHREAD_DZ_MASK :: nat where "A_UTHREAD_DZ_MASK = 0x78"
definition A_UTHREAD_DZ_VALUE :: nat where "A_UTHREAD_DZ_VALUE = 0x08"
definition A_UTHREAD_BREAK :: nat where "A_UTHREAD_BREAK = 0x08"
definition A_UTHREAD_PRINT :: nat where "A_UTHREAD_PRINT = 0x0F"
definition A_UTHREADF_PRINT :: nat where "A_UTHREADF_PRINT = 0x00F"
definition A_UTHREAD_REMOTE_MASK :: nat where "A_UTHREAD_REMOTE_MASK = 0x60"
definition A_UTHREAD_REMOTE_VALUE :: nat where "A_UTHREAD_REMOTE_VALUE = 0x20"
definition A_UTHREAD_SETSTART :: nat where "A_UTHREAD_SETSTART = 0x20"
definition A_UTHREAD_SETLIMIT :: nat where "A_UTHREAD_SETLIMIT = 0x21"
definition A_UTHREAD_SETSTEP :: nat where "A_UTHREAD_SETSTEP = 0x22"
definition A_UTHREAD_SETBLOCK :: nat where "A_UTHREAD_SETBLOCK = 0x23"
definition A_UTHREAD_PUTG :: nat where "A_UTHREAD_PUTG = 0x24"
definition A_UTHREADF_PUTG :: nat where "A_UTHREADF_PUTG = 0x024"
definition A_UTHREAD_PUTS :: nat where "A_UTHREAD_PUTS = 0x25"
definition A_UTHREADF_PUTS :: nat where "A_UTHREADF_PUTS = 0x025"
definition A_UTHREAD_DETACH :: nat where "A_UTHREAD_DETACH = 0x28"
definition A_UTHREAD_SYNC :: nat where "A_UTHREAD_SYNC = 0x30"
definition A_UTHREAD_GETG :: nat where "A_UTHREAD_GETG = 0x32"
definition A_UTHREADF_GETG :: nat where "A_UTHREADF_GETG = 0x032"
definition A_UTHREAD_GETS :: nat where "A_UTHREAD_GETS = 0x33"
definition A_UTHREADF_GETS :: nat where "A_UTHREADF_GETS = 0x033"
definition A_UTHREAD_ALLOC_MASK :: nat where "A_UTHREAD_ALLOC_MASK = 0x60"
definition A_UTHREAD_ALLOC_VALUE :: nat where "A_UTHREAD_ALLOC_VALUE = 0x40"
definition A_UTHREAD_ALLOC_S_MASK :: nat where "A_UTHREAD_ALLOC_S_MASK = 0x01"
definition A_UTHREAD_ALLOC_X_MASK :: nat where "A_UTHREAD_ALLOC_X_MASK = 0x02"
definition A_UTHREAD_ALLOCATE :: nat where "A_UTHREAD_ALLOCATE = 0x40"
definition A_UTHREAD_ALLOCATE_S :: nat where "A_UTHREAD_ALLOCATE_S = 0x41"
definition A_UTHREAD_ALLOCATE_E :: nat where "A_UTHREAD_ALLOCATE_E = 0x43"
definition A_UTHREAD_CREB_MASK :: nat where "A_UTHREAD_CREB_MASK = 0x60"
definition A_UTHREAD_CREB_VALUE :: nat where "A_UTHREAD_CREB_VALUE = 0x60"
definition A_CREATE_B_A :: nat where "A_CREATE_B_A = 0x61"
definition A_CREATE_B_I :: nat where "A_CREATE_B_I = 0x71"

lemmas uthread_defs =
  A_UTHREAD_DC_MASK_def A_UTHREAD_DC_VALUE_def A_UTHREAD_LDBP_def A_UTHREAD_LDFP_def
  A_UTHREAD_GETTID_def A_UTHREAD_GETFID_def A_UTHREAD_GETPID_def A_UTHREAD_GETCID_def
  A_UTHREAD_GETASR_def A_UTHREAD_GETAPR_def A_UTHREAD_DZ_MASK_def A_UTHREAD_DZ_VALUE_def
  A_UTHREAD_BREAK_def A_UTHREAD_PRINT_def A_UTHREADF_PRINT_def A_UTHREAD_REMOTE_MASK_def
  A_UTHREAD_REMOTE_VALUE_def A_UTHREAD_SETSTART_def A_UTHREAD_SETLIMIT_def A_UTHREAD_SETSTEP_def
  A_UTHREAD_SETBLOCK_def A_UTHREAD_PUTG_def A_UTHREADF_PUTG_def A_UTHREAD_PUTS_def
  A_UTHREADF_PUTS_def A_UTHREAD_DETACH_def A_UTHREAD_SYNC_def A_UTHREAD_GETG_def A_UTHREADF_GETG_def
  A_UTHREAD_GETS_def A_UTHREADF_GETS_def A_UTHREAD_ALLOC_MASK_def A_UTHREAD_ALLOC_VALUE_def
  A_UTHREAD_ALLOC_S_MASK_def A_UTHREAD_ALLOC_X_MASK_def A_UTHREAD_ALLOCATE_def
  A_UTHREAD_ALLOCATE_S_def A_UTHREAD_ALLOCATE_E_def A_UTHREAD_CREB_MASK_def A_UTHREAD_CREB_VALUE_def
  A_CREATE_B_A_def A_CREATE_B_I_def

section \<open>Instruction formats\<close>

definition GetInstrFormat :: "nat \<Rightarrow> InstrFormat" where
  "GetInstrFormat opcode =
     (if opcode \<le> 0x3F then
        (let hi = opcode div 16; lo = opcode mod 16 in
         if hi = 0 then
           (if lo = 0 then IFORMAT_PAL
            else if lo = 1 then IFORMAT_OP
            else if lo = 3 then IFORMAT_JUMP
            else if lo = 4 then IFORMAT_BRA
            else if lo = 5 then IFORMAT_FPOP
            else if lo \<in> {0x8, 0x9, 0xA, 0xB, 0xC} then IFORMAT_MEM_LOAD
            else if lo \<in> {0xD, 0xE, 0xF} then IFORMAT_MEM_STORE
            else IFORMAT_INVALID)
         else if hi = 1 then
           (if lo \<in> {0, 1, 2, 3} then IFORMAT_OP
            else if lo \<in> {4, 5, 6, 7} then IFORMAT_FPOP
            else if lo = 8 then IFORMAT_MISC
            else if lo = 0xA then IFORMAT_JUMP
            else if lo = 0xC then IFORMAT_OP
            else IFORMAT_INVALID)
         else if hi = 2 then (if opcode mod 8 < 4 then IFORMAT_MEM_LOAD else IFORMAT_MEM_STORE)
         else if hi = 3 then IFORMAT_BRA
         else IFORMAT_INVALID)
      else IFORMAT_INVALID)"

text \<open>A field of an instruction: a shift and a mask.\<close>

definition field :: "u32 \<Rightarrow> nat \<Rightarrow> u32 \<Rightarrow> u32" where
  "field instr shift msk = drop_bit shift instr AND msk"

definition A_REG_MASK :: u32 where "A_REG_MASK = 0x1F"
definition A_RA :: "u32 \<Rightarrow> u32" where "A_RA instr = field instr 21 A_REG_MASK"
definition A_RB :: "u32 \<Rightarrow> u32" where "A_RB instr = field instr 16 A_REG_MASK"
definition A_RC :: "u32 \<Rightarrow> u32" where "A_RC instr = field instr 0 A_REG_MASK"
definition A_OPCODE :: "u32 \<Rightarrow> u32" where "A_OPCODE instr = field instr 26 0x3F"
definition A_PALCODE :: "u32 \<Rightarrow> u32" where "A_PALCODE instr = field instr 0 0x3FFFFFF"
definition A_MEMDISP :: "u32 \<Rightarrow> u32" where "A_MEMDISP instr = field instr 0 0x000FFFF"
definition A_BRADISP :: "u32 \<Rightarrow> u32" where "A_BRADISP instr = field instr 0 0x01FFFFF"
definition A_INT_FUNC :: "u32 \<Rightarrow> u32" where "A_INT_FUNC instr = field instr 5 0x7F"
definition A_FLT_FUNC :: "u32 \<Rightarrow> u32" where "A_FLT_FUNC instr = field instr 5 0x7FF"
definition A_LITERAL :: "u32 \<Rightarrow> u32" where "A_LITERAL instr = field instr 13 0xFF"

text \<open>The cases of the switch, one definition each.\<close>

definition decode_memory :: "u32 \<Rightarrow> DecodeReadLatch \<Rightarrow> DecodeReadLatch" where
  "decode_memory instr out =
     (let disp = A_MEMDISP instr; opcode = dr_opcode out;
          type = (if 0x20 \<le> opcode \<and> opcode \<le> 0x27 then RT_FLOAT else RT_INTEGER);
          out = out\<lparr>dr_Rc := MAKE_REGADDR type (if dr_format out = IFORMAT_MEM_STORE then 31 else A_RA instr),
            dr_Ra := MAKE_REGADDR type (if opcode \<le> 0x0a then 31 else A_RA instr),
            dr_Rb := MAKE_REGADDR RT_INTEGER (A_RB instr),
            dr_displacement := scast (ucast disp :: u16),
            dr_function := unat (ucast disp :: u16),
            dr_RaNotPending := (dr_format out \<noteq> IFORMAT_MEM_STORE)\<rparr>
      in if opcode = A_OP_LDQ_U \<and> disp = 0 \<and> A_RA instr = 31
         then out\<lparr>dr_Rb := MAKE_REGADDR type 31\<rparr> else out)"

definition decode_branch :: "u32 \<Rightarrow> DecodeReadLatch \<Rightarrow> DecodeReadLatch" where
  "decode_branch instr out =
     (let disp = A_BRADISP instr; opcode = dr_opcode out;
          type = (if 0x30 < opcode \<and> opcode < 0x38 \<and> opcode \<noteq> 0x34 then RT_FLOAT else RT_INTEGER);
          conditional = (opcode \<noteq> A_OP_BR \<and> opcode \<noteq> A_OP_BSR);
          out = (if opcode = A_OP_CREATE_D
            then out\<lparr>dr_Ra := MAKE_REGADDR RT_INTEGER (A_RA instr), dr_Rc := MAKE_REGADDR RT_INTEGER (A_RA instr)\<rparr>
            else out\<lparr>dr_Ra := MAKE_REGADDR type (if conditional then A_RA instr else 31),
              dr_Rc := MAKE_REGADDR type (if conditional then 31 else A_RA instr)\<rparr>)
      in out\<lparr>dr_displacement := signed_drop_bit 11 (push_bit 11 disp), dr_Rb := MAKE_REGADDR type 31\<rparr>)"

definition decode_jump :: "u32 \<Rightarrow> DecodeReadLatch \<Rightarrow> DecodeReadLatch" where
  "decode_jump instr out =
     (let crei = (dr_opcode out = A_OP_CREATE_I)
      in out\<lparr>dr_Ra := MAKE_REGADDR RT_INTEGER (if crei then A_RA instr else 31),
             dr_Rb := MAKE_REGADDR RT_INTEGER (A_RB instr),
             dr_Rc := MAKE_REGADDR RT_INTEGER (A_RA instr)\<rparr>)"

definition decode_fpop :: "u32 \<Rightarrow> DecodeReadLatch \<Rightarrow> DecodeReadLatch" where
  "decode_fpop instr out =
     (let func = unat (A_FLT_FUNC instr); opcode = dr_opcode out;
          itof = (opcode = A_OP_ITFP \<and> func \<in> set (codes_of ITFP_codes [''ITOFT'', ''ITOFS'', ''ITOFF'']));
          utfop = (opcode = A_OP_UTHREADF);
          out = out\<lparr>dr_function := func,
            dr_Ra := MAKE_REGADDR (if utfop \<or> itof then RT_INTEGER else RT_FLOAT) (A_RA instr),
            dr_Rb := MAKE_REGADDR RT_FLOAT (A_RB instr),
            dr_Rc := MAKE_REGADDR RT_FLOAT (A_RC instr)\<rparr>
      in if opcode = A_OP_UTHREADF
         then (if func = A_UTHREADF_PUTG \<or> func = A_UTHREADF_PUTS
               then out\<lparr>dr_regofs := unat (A_RC instr), dr_Rc := INVALID_REG\<rparr>
               else if func = A_UTHREADF_GETG \<or> func = A_UTHREADF_GETS
               then out\<lparr>dr_regofs := unat (A_RB instr), dr_Rb := INVALID_REG\<rparr>
               else out)
         else out)"

definition decode_op :: "u32 \<Rightarrow> DecodeReadLatch \<Rightarrow> DecodeReadLatch" where
  "decode_op instr out =
     (let func = unat (A_INT_FUNC instr); opcode = dr_opcode out;
          ftoi = (opcode = A_OP_FPTI \<and> (map_of FPTI_func_codes func = Some A_FPTIFUNC_FTOIT
            \<or> map_of FPTI_func_codes func = Some A_FPTIFUNC_FTOIS));
          out = out\<lparr>dr_function := func,
            dr_Ra := MAKE_REGADDR (if ftoi then RT_FLOAT else RT_INTEGER) (A_RA instr),
            dr_Rc := MAKE_REGADDR RT_INTEGER (A_RC instr)\<rparr>;
          out = (if \<not> ftoi \<and> instr AND 0x0001000 \<noteq> 0
            then out\<lparr>dr_Rb := MAKE_REGADDR RT_INTEGER 31, dr_literal := A_LITERAL instr\<rparr>
            else out\<lparr>dr_Rb := MAKE_REGADDR RT_INTEGER (A_RB instr)\<rparr>)
      in if opcode = A_OP_UTHREAD
         then (if func = A_UTHREAD_PUTG \<or> func = A_UTHREAD_PUTS
               then out\<lparr>dr_regofs := unat (A_RC instr), dr_Rc := INVALID_REG\<rparr>
               else if func = A_UTHREAD_GETG \<or> func = A_UTHREAD_GETS
               then out\<lparr>dr_regofs := unat (A_RB instr), dr_Rb := INVALID_REG\<rparr>
               else out)
         else out)"

definition DecodeInstruction :: "u32 \<Rightarrow> DecodeReadLatch \<Rightarrow> DecodeReadLatch" where
  "DecodeInstruction instr out =
     (let opcode = unat (A_OPCODE instr);
          out = out\<lparr>dr_opcode := opcode, dr_format := GetInstrFormat opcode,
            dr_Ra := INVALID_REG, dr_Rb := INVALID_REG, dr_Rc := INVALID_REG, dr_literal := 0\<rparr>
      in case dr_format out of
           IFORMAT_PAL \<Rightarrow> out\<lparr>dr_literal := A_PALCODE instr\<rparr>
         | IFORMAT_MISC \<Rightarrow> decode_memory instr out
         | IFORMAT_MEM_LOAD \<Rightarrow> decode_memory instr out
         | IFORMAT_MEM_STORE \<Rightarrow> decode_memory instr out
         | IFORMAT_BRA \<Rightarrow> decode_branch instr out
         | IFORMAT_JUMP \<Rightarrow> decode_jump instr out
         | IFORMAT_FPOP \<Rightarrow> decode_fpop instr out
         | IFORMAT_OP \<Rightarrow> decode_op instr out
         | _ \<Rightarrow> out)"

section \<open>Translation of registers\<close>

definition GetRegisterClass :: "u8 \<Rightarrow> RegsNo \<Rightarrow> (RegClass \<times> u8) res" where
  "GetRegisterClass addr regs =
     assert_that (rn_globals regs < 32) (assert_that (rn_shareds regs < 32) (assert_that (rn_locals regs < 32)
      (Inr (if addr < rn_locals regs then (RC_LOCAL, addr)
       else let addr = addr - rn_locals regs in
         if addr < rn_globals regs then (RC_GLOBAL, addr)
         else let addr = addr - rn_globals regs in
           if addr < rn_shareds regs then (RC_SHARED, addr)
           else let addr = addr - rn_shareds regs in
             if addr < rn_shareds regs then (RC_DEPENDENT, addr) else (RC_RAZ, 0)))))"

text \<open>The address and whether the register is a local one.\<close>

definition TranslateRegister :: "(RegType \<Rightarrow> RegInfo) \<Rightarrow> u8 \<Rightarrow> RegType \<Rightarrow> nat \<Rightarrow> (RegAddr \<times> bool) res" where
  "TranslateRegister regs reg type n =
     assert_that (n mod 8 = 0)
      (let nRegs = n div 8 in
       if nRegs = 0 then Inr (MAKE_REGADDR type (ucast reg), False)
       else let family = ri_family (regs type); thread = ri_thread (regs type); count = fri_count family in
         res_bind (GetRegisterClass reg count) (\<lambda>(rc, r). case rc of
           RC_GLOBAL \<Rightarrow>
             if unat (rn_globals count) < unat r + nRegs then Inl IllegalInstruction
             else Inr (MAKE_REGADDR type (fri_base family + fri_size family - ucast (rn_globals count) + ucast r), False)
         | RC_SHARED \<Rightarrow>
             if unat (rn_shareds count) < unat r + nRegs then Inl IllegalInstruction
             else Inr (MAKE_REGADDR type (tri_shareds thread + ucast r), False)
         | RC_LOCAL \<Rightarrow>
             if unat (rn_locals count) < unat r + nRegs then Inl IllegalInstruction
             else Inr (MAKE_REGADDR type (tri_locals thread + ucast r), True)
         | RC_DEPENDENT \<Rightarrow>
             if unat (rn_shareds count) < unat r + nRegs then Inl IllegalInstruction
             else assert_that (tri_dependents thread \<noteq> INVALID_REG_INDEX)
               (Inr (MAKE_REGADDR type (tri_dependents thread + ucast r), False))
         | RC_RAZ \<Rightarrow> Inr (MAKE_REGADDR type INVALID_REG_INDEX, False)))"

text \<open>The index of a decoded register is converted to a byte.\<close>

definition translate :: "(RegType \<Rightarrow> RegInfo) \<Rightarrow> RegAddr \<Rightarrow> nat \<Rightarrow> (RegAddr \<times> bool) res" where
  "translate regs a n = TranslateRegister regs (of_nat (ra_index a)) (ra_type a) n"

section \<open>The stage\<close>

definition decode_start :: "FetchDecodeLatch \<Rightarrow> DecodeReadLatch \<Rightarrow> DecodeReadLatch" where
  "decode_start inp out = out\<lparr>cd_pc := cd_pc inp, cd_tid := cd_tid inp, cd_fid := cd_fid inp,
     cd_swch := cd_swch inp, cd_kill := cd_kill inp, cd_pc_dbg := cd_pc_dbg inp,
     cd_logical_index := cd_logical_index inp,
     dr_regs := fd_regs inp, dr_placeSize := fd_placeSize inp, dr_legacy := fd_legacy inp,
     dr_RaNotPending := False, dr_RaSize := 8, dr_RbSize := 8, dr_RcSize := 8\<rparr>"

definition decode_registers :: "FetchDecodeLatch \<Rightarrow> DecodeReadLatch \<Rightarrow> DecodeReadLatch res" where
  "decode_registers inp out =
     res_bind (translate (fd_regs inp) (dr_Ra out) (dr_RaSize out)) (\<lambda>(a, al).
     res_bind (translate (fd_regs inp) (dr_Rb out) (dr_RbSize out)) (\<lambda>(b, bl).
     res_bind (translate (fd_regs inp) (dr_Rc out) (dr_RcSize out)) (\<lambda>(c, _).
       Inr (out\<lparr>dr_Ra := a, dr_RaIsLocal := al, dr_Rb := b, dr_RbIsLocal := bl, dr_Rc := c\<rparr>))))"

definition DecodeStage_OnCycle :: "CyclePhase \<Rightarrow> FetchDecodeLatch \<Rightarrow> DecodeReadLatch \<Rightarrow> DecodeReadLatch res" where
  "DecodeStage_OnCycle ph inp out =
     (if ph = PHASE_COMMIT
      then decode_registers inp (DecodeInstruction (fd_instr inp) (decode_start inp out))
      else Inr out)"

section \<open>The window of registers\<close>

text \<open>The registers that a thread sees, in the order of their numbers: locals, globals, shareds and
  dependents. Other numbers read as zero.\<close>

definition window :: "RegInfo \<Rightarrow> u32 list" where
  "window ri =
     (let family = ri_family ri; thread = ri_thread ri; count = fri_count family
      in map (\<lambda>i. tri_locals thread + of_nat i) [0..<unat (rn_locals count)]
       @ map (\<lambda>i. fri_base family + fri_size family - ucast (rn_globals count) + of_nat i) [0..<unat (rn_globals count)]
       @ map (\<lambda>i. tri_shareds thread + of_nat i) [0..<unat (rn_shareds count)]
       @ map (\<lambda>i. tri_dependents thread + of_nat i) [0..<unat (rn_shareds count)])"

definition window_lookup :: "RegInfo \<Rightarrow> RegType \<Rightarrow> nat \<Rightarrow> RegAddr \<times> bool" where
  "window_lookup ri type r =
     (MAKE_REGADDR type (if r < length (window ri) then window ri ! r else INVALID_REG_INDEX),
      r < unat (rn_locals (fri_count (ri_family ri))))"

definition reg_info_wf :: "RegInfo \<Rightarrow> bool" where
  "reg_info_wf ri =
     (let count = fri_count (ri_family ri)
      in rn_globals count < 32 \<and> rn_shareds count < 32 \<and> rn_locals count < 32
        \<and> (0 < rn_shareds count \<longrightarrow> tri_dependents (ri_thread ri) \<noteq> INVALID_REG_INDEX))"

lemma byte_sub: "\<not> a < b \<Longrightarrow> unat (a - b) = unat a - unat (b :: u8)"
  by (simp add: unat_sub word_le_nat_alt word_less_nat_alt)

lemma byte_of_nat: "of_nat (unat (a :: u8)) = (ucast a :: u32)"
  by simp

lemma GetRegisterClass_cases:
  assumes "rn_globals c < 32" "rn_shareds c < 32" "rn_locals c < 32"
  shows "GetRegisterClass r c = Inr
     (let l = rn_locals c; g = rn_globals c; s = rn_shareds c in
      if unat r < unat l then (RC_LOCAL, r)
      else if unat r < unat l + unat g then (RC_GLOBAL, r - l)
      else if unat r < unat l + unat g + unat s then (RC_SHARED, r - l - g)
      else if unat r < unat l + unat g + unat s + unat s then (RC_DEPENDENT, r - l - g - s)
      else (RC_RAZ, 0))"
  using assms
  by (auto simp: GetRegisterClass_def Let_def word_less_nat_alt byte_sub not_less)

lemma byte_unat_sub: "unat b \<le> unat a \<Longrightarrow> unat (a - b :: u8) = unat a - unat b"
  by (simp add: byte_sub word_less_nat_alt)

lemma byte_diff: "unat b \<le> unat a \<Longrightarrow> (ucast (a - b :: u8) :: u32) = ucast a - ucast b"
  using byte_of_nat [of "a - b"] by (simp add: byte_unat_sub of_nat_diff)

lemma GetRegisterClass_bound:
  assumes "GetRegisterClass r c = Inr (k, r')"
  shows "(k = RC_LOCAL \<longrightarrow> r' < rn_locals c) \<and> (k = RC_GLOBAL \<longrightarrow> r' < rn_globals c)
    \<and> (k = RC_SHARED \<or> k = RC_DEPENDENT \<longrightarrow> r' < rn_shareds c)"
  using assms by (auto simp: GetRegisterClass_def Let_def split: if_splits)

lemma TranslateRegister_class:
  assumes "reg_info_wf (regs type)" "ri_family (regs type) = f" "ri_thread (regs type) = t"
  assumes "GetRegisterClass r (fri_count f) = Inr (k, r')"
  shows "TranslateRegister regs r type 8 = Inr
    (MAKE_REGADDR type (case k of RC_GLOBAL \<Rightarrow> fri_base f + fri_size f - ucast (rn_globals (fri_count f)) + ucast r'
       | RC_SHARED \<Rightarrow> tri_shareds t + ucast r' | RC_LOCAL \<Rightarrow> tri_locals t + ucast r'
       | RC_DEPENDENT \<Rightarrow> tri_dependents t + ucast r' | RC_RAZ \<Rightarrow> INVALID_REG_INDEX), k = RC_LOCAL)"
  using assms GetRegisterClass_bound [OF assms(4)]
  by (cases k) (simp_all add: TranslateRegister_def reg_info_wf_def Let_def word_less_nat_alt)

lemma window_nth:
  assumes "f = ri_family ri" "t = ri_thread ri" "c = fri_count f"
    and "l = unat (rn_locals c)" "g = unat (rn_globals c)" "s = unat (rn_shareds c)"
  shows "length (window ri) = l + g + s + s"
    and "r < l \<Longrightarrow> window ri ! r = tri_locals t + of_nat r"
    and "l \<le> r \<Longrightarrow> r < l + g \<Longrightarrow>
      window ri ! r = fri_base f + fri_size f - ucast (rn_globals c) + of_nat (r - l)"
    and "l + g \<le> r \<Longrightarrow> r < l + g + s \<Longrightarrow> window ri ! r = tri_shareds t + of_nat (r - l - g)"
    and "l + g + s \<le> r \<Longrightarrow> r < l + g + s + s \<Longrightarrow> window ri ! r = tri_dependents t + of_nat (r - l - g - s)"
  using assms by (auto simp: window_def Let_def nth_append)

lemma TranslateRegister_window:
  assumes "reg_info_wf (regs type)"
  shows "TranslateRegister regs r type 8 = Inr (window_lookup (regs type) type (unat r))"
proof -
  define f t where ft: "f = ri_family (regs type)" "t = ri_thread (regs type)"
  define c where "c = fri_count f"
  define l g s where lgs: "l = rn_locals c" "g = rn_globals c" "s = rn_shareds c"
  note nth = window_nth [OF ft c_def arg_cong [where f = unat, OF lgs(1)] arg_cong [where f = unat, OF lgs(2)]
    arg_cong [where f = unat, OF lgs(3)]]
  have wf: "rn_globals c < 32" "rn_shareds c < 32" "rn_locals c < 32"
    using assms by (simp_all add: reg_info_wf_def Let_def ft c_def)
  note gc = GetRegisterClass_cases [OF wf, of r, unfolded Let_def, folded lgs]
  note tr = TranslateRegister_class [of regs type f t r, OF assms ft [symmetric], folded c_def]
  note look = window_lookup_def [of "regs type" type "unat r", folded ft, folded c_def, folded lgs, unfolded nth(1)]
  consider "unat r < unat l" | "unat l \<le> unat r" "unat r < unat l + unat g"
    | "unat l + unat g \<le> unat r" "unat r < unat l + unat g + unat s"
    | "unat l + unat g + unat s \<le> unat r" "unat r < unat l + unat g + unat s + unat s"
    | "unat l + unat g + unat s + unat s \<le> unat r" by linarith
  then show ?thesis
  proof cases
    case 1
    then have "GetRegisterClass r c = Inr (RC_LOCAL, r)" using gc by simp
    from tr [OF this] 1 show ?thesis by (simp add: look nth(2))
  next
    case 2
    then have "GetRegisterClass r c = Inr (RC_GLOBAL, r - l)" using gc by simp
    from tr [OF this] 2 show ?thesis by (simp add: look nth(3) byte_diff)
  next
    case 3
    then have "GetRegisterClass r c = Inr (RC_SHARED, r - l - g)" using gc by simp
    from tr [OF this] 3 show ?thesis by (simp add: look nth(4) byte_diff byte_unat_sub) (simp add: algebra_simps)
  next
    case 4
    then have "GetRegisterClass r c = Inr (RC_DEPENDENT, r - l - g - s)" using gc by simp
    from tr [OF this] 4 show ?thesis by (simp add: look nth(5) byte_diff byte_unat_sub) (simp add: algebra_simps)
  next
    case 5
    then have "GetRegisterClass r c = Inr (RC_RAZ, 0)" using gc by simp
    from tr [OF this] 5 show ?thesis by (simp add: look)
  qed
qed

section \<open>Decoded instructions\<close>

lemma field_bound: "unat (field instr k A_REG_MASK) < 32"
proof -
  have "A_REG_MASK = Bit_Operations.mask 5" by (simp add: A_REG_MASK_def mask_eq_exp_minus_1)
  then have "field instr k A_REG_MASK = take_bit 5 (drop_bit k instr)" by (simp add: field_def take_bit_eq_mask)
  then show ?thesis by (simp add: unsigned_take_bit_eq take_bit_eq_mod [where 'a = nat])
qed

lemmas reg_field_bounds =
  field_bound [of _ 21, folded A_RA_def] field_bound [of _ 16, folded A_RB_def] field_bound [of _ 0, folded A_RC_def]

lemma MAKE_REGADDR_sel [simp]: "ra_index (MAKE_REGADDR type i) = unat i" "ra_type (MAKE_REGADDR type i) = type"
  by (simp_all add: MAKE_REGADDR_def)

definition decoded_reg :: "RegAddr \<Rightarrow> bool" where
  "decoded_reg a \<longleftrightarrow> a = INVALID_REG \<or> ra_index a < 32"

lemma decoded_reg_fields [simp]:
  "decoded_reg (MAKE_REGADDR type (A_RA instr))" "decoded_reg (MAKE_REGADDR type (A_RB instr))"
  "decoded_reg (MAKE_REGADDR type (A_RC instr))" "decoded_reg (MAKE_REGADDR type 31)" "decoded_reg INVALID_REG"
  by (simp_all add: decoded_reg_def reg_field_bounds)

lemma decode_memory_regs:
  "decoded_reg (dr_Ra (decode_memory instr out))"
  "decoded_reg (dr_Rb (decode_memory instr out))"
  "decoded_reg (dr_Rc (decode_memory instr out))"
  unfolding decode_memory_def Let_def by simp_all

lemma decode_memory_frame:
  "dr_RaSize (decode_memory instr out) = dr_RaSize out" "dr_RbSize (decode_memory instr out) = dr_RbSize out"
  "dr_RcSize (decode_memory instr out) = dr_RcSize out" "dr_format (decode_memory instr out) = dr_format out"
  "dr_opcode (decode_memory instr out) = dr_opcode out"
  unfolding decode_memory_def Let_def by simp_all

lemma decode_branch_regs:
  "decoded_reg (dr_Ra (decode_branch instr out))"
  "decoded_reg (dr_Rb (decode_branch instr out))"
  "decoded_reg (dr_Rc (decode_branch instr out))"
  unfolding decode_branch_def Let_def by simp_all

lemma decode_branch_frame:
  "dr_RaSize (decode_branch instr out) = dr_RaSize out" "dr_RbSize (decode_branch instr out) = dr_RbSize out"
  "dr_RcSize (decode_branch instr out) = dr_RcSize out" "dr_format (decode_branch instr out) = dr_format out"
  "dr_opcode (decode_branch instr out) = dr_opcode out"
  unfolding decode_branch_def Let_def by simp_all

lemma decode_jump_regs:
  "decoded_reg (dr_Ra (decode_jump instr out))"
  "decoded_reg (dr_Rb (decode_jump instr out))"
  "decoded_reg (dr_Rc (decode_jump instr out))"
  unfolding decode_jump_def Let_def by simp_all

lemma decode_jump_frame:
  "dr_RaSize (decode_jump instr out) = dr_RaSize out" "dr_RbSize (decode_jump instr out) = dr_RbSize out"
  "dr_RcSize (decode_jump instr out) = dr_RcSize out" "dr_format (decode_jump instr out) = dr_format out"
  "dr_opcode (decode_jump instr out) = dr_opcode out"
  unfolding decode_jump_def Let_def by simp_all

lemma decode_fpop_regs:
  "decoded_reg (dr_Ra (decode_fpop instr out))"
  "decoded_reg (dr_Rb (decode_fpop instr out))"
  "decoded_reg (dr_Rc (decode_fpop instr out))"
  unfolding decode_fpop_def Let_def by simp_all

lemma decode_fpop_frame:
  "dr_RaSize (decode_fpop instr out) = dr_RaSize out" "dr_RbSize (decode_fpop instr out) = dr_RbSize out"
  "dr_RcSize (decode_fpop instr out) = dr_RcSize out" "dr_format (decode_fpop instr out) = dr_format out"
  "dr_opcode (decode_fpop instr out) = dr_opcode out"
  unfolding decode_fpop_def Let_def by simp_all

lemma decode_op_regs:
  "decoded_reg (dr_Ra (decode_op instr out))"
  "decoded_reg (dr_Rb (decode_op instr out))"
  "decoded_reg (dr_Rc (decode_op instr out))"
  unfolding decode_op_def Let_def by simp_all

lemma decode_op_frame:
  "dr_RaSize (decode_op instr out) = dr_RaSize out" "dr_RbSize (decode_op instr out) = dr_RbSize out"
  "dr_RcSize (decode_op instr out) = dr_RcSize out" "dr_format (decode_op instr out) = dr_format out"
  "dr_opcode (decode_op instr out) = dr_opcode out"
  unfolding decode_op_def Let_def by simp_all

lemma sign_extend_16: "sint (scast (ucast (d :: u32) :: u16) :: u32) = signed_take_bit 15 (uint d)"
  by (rule bit_eqI) (auto simp: bit_simps min_def not_le)

lemma sign_extend_21: "sint (signed_drop_bit 11 (push_bit 11 (d :: u32))) = signed_take_bit 20 (uint d)"
proof (rule bit_eqI)
  fix n
  show "bit (sint (signed_drop_bit 11 (push_bit 11 d))) n = bit (signed_take_bit 20 (uint d)) n"
    by (cases "n = 20") (auto simp: bit_simps min_def not_le)
qed

lemmas decode_case_regs =
  decode_memory_regs decode_branch_regs decode_jump_regs decode_fpop_regs decode_op_regs

lemmas decode_case_frame =
  decode_memory_frame decode_branch_frame decode_jump_frame decode_fpop_frame decode_op_frame

lemma decode_regs_type:
  "decoded_reg (dr_Ra (DecodeInstruction instr out))"
  "decoded_reg (dr_Rb (DecodeInstruction instr out))"
  "decoded_reg (dr_Rc (DecodeInstruction instr out))"
  by (cases "GetInstrFormat (unat (A_OPCODE instr))";
      simp add: DecodeInstruction_def Let_def decode_case_regs)+

lemma decode_frame:
  "dr_RaSize (DecodeInstruction instr out) = dr_RaSize out"
  "dr_RbSize (DecodeInstruction instr out) = dr_RbSize out"
  "dr_RcSize (DecodeInstruction instr out) = dr_RcSize out"
  "dr_format (DecodeInstruction instr out) = GetInstrFormat (unat (A_OPCODE instr))"
  "dr_opcode (DecodeInstruction instr out) = unat (A_OPCODE instr)"
  by (cases "GetInstrFormat (unat (A_OPCODE instr))";
      simp add: DecodeInstruction_def Let_def decode_case_frame)+

lemma window_length: "reg_info_wf ri \<Longrightarrow> length (window ri) < 255"
  using window_nth(1) [OF refl refl refl refl refl refl, of ri]
  by (simp add: reg_info_wf_def Let_def word_less_nat_alt)

lemma translate_window:
  assumes "decoded_reg a" "reg_info_wf (regs (ra_type a))"
  shows "translate regs a 8 = Inr (window_lookup (regs (ra_type a)) (ra_type a) (ra_index a))"
proof (cases "a = INVALID_REG")
  case True
  then have a: "ra_index a = 0xFFFFFFFF" by (simp add: INVALID_REG_def INVALID_REG_INDEX_def unsigned_minus_1_eq_mask mask_eq_exp_minus_1)
  have c: "unat (rn_locals (fri_count (ri_family (regs (ra_type a))))) < 32"
    using assms(2) by (simp add: reg_info_wf_def Let_def word_less_nat_alt)
  have "window_lookup (regs (ra_type a)) (ra_type a) 255
      = window_lookup (regs (ra_type a)) (ra_type a) (ra_index a)"
    using window_length [OF assms(2)] c unfolding a window_lookup_def by simp
  then show ?thesis by (simp add: translate_def TranslateRegister_window [where regs = regs, OF assms(2)] a)
next
  case False
  then have "ra_index a < 32" using assms(1) by (simp add: decoded_reg_def)
  then have "unat (of_nat (ra_index a) :: u8) = ra_index a" by (simp add: unat_of_nat)
  then show ?thesis by (simp add: translate_def TranslateRegister_window [where regs = regs, OF assms(2)])
qed

definition translated :: "FetchDecodeLatch \<Rightarrow> DecodeReadLatch \<Rightarrow> DecodeReadLatch" where
  "translated inp d =
     (let lookup = (\<lambda>a. window_lookup (fd_regs inp (ra_type a)) (ra_type a) (ra_index a))
      in d\<lparr>dr_Ra := fst (lookup (dr_Ra d)), dr_RaIsLocal := snd (lookup (dr_Ra d)),
           dr_Rb := fst (lookup (dr_Rb d)), dr_RbIsLocal := snd (lookup (dr_Rb d)),
           dr_Rc := fst (lookup (dr_Rc d))\<rparr>)"

lemma decode_registers_translated:
  assumes "\<forall>type. reg_info_wf (fd_regs inp type)"
  shows "decode_registers inp (DecodeInstruction (fd_instr inp) (decode_start inp out))
    = Inr (translated inp (DecodeInstruction (fd_instr inp) (decode_start inp out)))"
proof -
  define d where "d = DecodeInstruction (fd_instr inp) (decode_start inp out)"
  have sizes: "dr_RaSize d = 8" "dr_RbSize d = 8" "dr_RcSize d = 8"
    unfolding d_def decode_frame by (simp_all add: decode_start_def)
  have wf: "reg_info_wf (fd_regs inp type)" for type using assms by simp
  note tr = translate_window [OF decode_regs_type(1) wf] translate_window [OF decode_regs_type(2) wf]
    translate_window [OF decode_regs_type(3) wf]
  show ?thesis
    unfolding d_def [symmetric] decode_registers_def sizes unfolding d_def tr
    by (simp add: translated_def Let_def split_beta)
qed


text \<open>
  C36. Decoding never fails. With less than 32 registers of each class and a valid base of the
  dependents, the decode stage accepts every instruction word: the operands of the latch after it are
  those of the decoded instruction, each looked up in the window of registers of its type. A number
  is a local register, then a global, a shared and a dependent, in this order, and a number
  outside the window, as the 31 of the architecture or the invalid register, reads as zero.
\<close>

theorem DecodeStage_translates:
  assumes "\<forall>type. reg_info_wf (fd_regs inp type)"
  shows "DecodeStage_OnCycle PHASE_COMMIT inp out
    = Inr (translated inp (DecodeInstruction (fd_instr inp) (decode_start inp out)))"
  using assms by (simp add: DecodeStage_OnCycle_def decode_registers_translated)

definition sample_window :: RegInfo where
  "sample_window = \<lparr>ri_family = \<lparr>fri_count = \<lparr>rn_globals = 2, rn_shareds = 3, rn_locals = 10\<rparr>, fri_base = 100, fri_size = 50, fri_last_shareds = 0\<rparr>,
     ri_thread = \<lparr>tri_locals = 103, tri_dependents = 120, tri_shareds = 100\<rparr>\<rparr>"

definition sample_fetch :: "u32 \<Rightarrow> FetchDecodeLatch" where
  "sample_fetch instr = \<lparr>cd_pc = 64, cd_tid = 1, cd_fid = 2, cd_swch = False, cd_kill = False, cd_pc_dbg = 64,
     cd_logical_index = 0, fd_instr = instr, fd_regs = (\<lambda>_. sample_window), fd_placeSize = 1, fd_legacy = False\<rparr>"

lemma sample_window_wf: "reg_info_wf sample_window" "length (window sample_window) = 18"
  by (simp_all add: sample_window_def reg_info_wf_def INVALID_REG_INDEX_def window_def)

definition empty_latch :: DecodeReadLatch where
  "empty_latch = \<lparr>cd_pc = 0, cd_tid = 0, cd_fid = 0, cd_swch = False, cd_kill = False, cd_pc_dbg = 0,
     cd_logical_index = 0, dr_format = IFORMAT_INVALID, dr_displacement = 0, dr_function = 0, dr_opcode = 0,
     dr_literal = 0, dr_regs = (\<lambda>_. sample_window), dr_placeSize = 0, dr_Ra = INVALID_REG, dr_Rb = INVALID_REG,
     dr_Rc = INVALID_REG, dr_RaSize = 0, dr_RbSize = 0, dr_RcSize = 0, dr_RaIsLocal = False, dr_RbIsLocal = False,
     dr_RaNotPending = False, dr_regofs = 0, dr_legacy = False\<rparr>"

text \<open>An integer store of register 10, the first global one, with base register 12, the first shared one.\<close>

definition sample_decoded :: DecodeReadLatch where
  "sample_decoded = DecodeInstruction 0xB54CFFF8 (decode_start (sample_fetch 0xB54CFFF8) empty_latch)"

lemma sample_decoded_Ra: "dr_Ra sample_decoded = MAKE_REGADDR RT_INTEGER 10"
  by (simp add: sample_decoded_def DecodeInstruction_def Let_def A_OPCODE_def A_RA_def field_def A_REG_MASK_def
      GetInstrFormat_def decode_memory_def)

theorem DecodeStage_translates_witness:
  "DecodeStage_OnCycle PHASE_COMMIT (sample_fetch 0xB54CFFF8) empty_latch
     = Inr (translated (sample_fetch 0xB54CFFF8) sample_decoded)
   \<and> ra_index (dr_Ra (translated (sample_fetch 0xB54CFFF8) sample_decoded)) = 148"
proof
  show "DecodeStage_OnCycle PHASE_COMMIT (sample_fetch 0xB54CFFF8) empty_latch
     = Inr (translated (sample_fetch 0xB54CFFF8) sample_decoded)"
    using DecodeStage_translates [of "sample_fetch 0xB54CFFF8" empty_latch]
    by (simp add: sample_decoded_def sample_fetch_def sample_window_wf)
  show "ra_index (dr_Ra (translated (sample_fetch 0xB54CFFF8) sample_decoded)) = 148"
    by (simp add: translated_def Let_def sample_decoded_Ra sample_fetch_def sample_window_def window_lookup_def window_def nth_append)
qed

lemma decode_memory_literal: "dr_literal (decode_memory instr out) = dr_literal out"
  unfolding decode_memory_def Let_def by simp

lemma decode_branch_literal: "dr_literal (decode_branch instr out) = dr_literal out"
  unfolding decode_branch_def Let_def by simp

lemma decode_jump_literal: "dr_literal (decode_jump instr out) = dr_literal out"
  unfolding decode_jump_def Let_def by simp

lemma decode_fpop_literal: "dr_literal (decode_fpop instr out) = dr_literal out"
  unfolding decode_fpop_def Let_def by simp

definition reads_zero :: "RegAddr \<Rightarrow> bool" where
  "reads_zero a \<longleftrightarrow> 31 \<le> ra_index a"

lemma reads_zero_simps [simp]: "reads_zero (MAKE_REGADDR type 31)" "reads_zero INVALID_REG"
  by (simp_all add: reads_zero_def INVALID_REG_def INVALID_REG_INDEX_def unsigned_minus_1_eq_mask mask_eq_exp_minus_1)

lemma decode_op_literal:
  assumes "dr_literal (decode_op instr out) \<noteq> 0" "dr_literal out = 0"
  shows "reads_zero (dr_Rb (decode_op instr out))"
  using assms unfolding decode_op_def Let_def by (auto split: if_splits)

lemma decode_literal:
  assumes "dr_literal (DecodeInstruction instr out) \<noteq> 0"
  shows "reads_zero (dr_Rb (DecodeInstruction instr out))"
  using assms
  by (cases "GetInstrFormat (unat (A_OPCODE instr))")
     (simp_all add: DecodeInstruction_def Let_def decode_memory_literal decode_branch_literal decode_jump_literal
        decode_fpop_literal decode_op_literal)

lemma decode_memory_store:
  assumes "dr_format out = IFORMAT_MEM_STORE"
  shows "reads_zero (dr_Rc (decode_memory instr out))"
  using assms unfolding decode_memory_def Let_def by simp

lemma decode_store:
  assumes "dr_format (DecodeInstruction instr out) = IFORMAT_MEM_STORE"
  shows "reads_zero (dr_Rc (DecodeInstruction instr out))"
  using assms unfolding decode_frame by (simp add: DecodeInstruction_def Let_def decode_memory_store)

lemma decode_memory_displacement:
  "sint (dr_displacement (decode_memory instr out)) = signed_take_bit 15 (uint (A_MEMDISP instr))"
  unfolding decode_memory_def Let_def by (simp add: sign_extend_16 del: sint_sbintrunc')

lemma decode_branch_displacement:
  "sint (dr_displacement (decode_branch instr out)) = signed_take_bit 20 (uint (A_BRADISP instr))"
  unfolding decode_branch_def Let_def by (simp add: sign_extend_21)

lemma decode_displacement:
  "dr_format (DecodeInstruction instr out) \<in> {IFORMAT_MEM_LOAD, IFORMAT_MEM_STORE, IFORMAT_MISC} \<Longrightarrow>
     sint (dr_displacement (DecodeInstruction instr out)) = signed_take_bit 15 (uint (A_MEMDISP instr))"
  "dr_format (DecodeInstruction instr out) = IFORMAT_BRA \<Longrightarrow>
     sint (dr_displacement (DecodeInstruction instr out)) = signed_take_bit 20 (uint (A_BRADISP instr))"
  unfolding decode_frame
  by (auto simp: DecodeInstruction_def Let_def decode_memory_displacement decode_branch_displacement)

lemma window_lookup_cases:
  "ra_type (fst (window_lookup ri type r)) = type"
  "r < length (window ri) \<Longrightarrow> ra_index (fst (window_lookup ri type r)) \<in> unat ` set (window ri)"
  "length (window ri) \<le> r \<Longrightarrow> ra_index (fst (window_lookup ri type r)) = unat INVALID_REG_INDEX"
  by (simp_all add: window_lookup_def)

definition operand_ok :: "(RegType \<Rightarrow> RegInfo) \<Rightarrow> RegAddr \<Rightarrow> bool" where
  "operand_ok regs a \<longleftrightarrow> ra_index a = unat INVALID_REG_INDEX \<or> ra_index a \<in> unat ` set (window (regs (ra_type a)))"

lemma window_lookup_operand: "operand_ok regs (fst (window_lookup (regs type) type r))"
  using window_lookup_cases [where ri = "regs type" and type = type and r = r]
  by (cases "r < length (window (regs type))") (simp_all add: operand_ok_def)

lemma window_lookup_zero:
  assumes "length (window ri) \<le> 31" "reads_zero a"
  shows "ra_index (fst (window_lookup ri type (ra_index a))) = unat INVALID_REG_INDEX"
  using assms by (intro window_lookup_cases(3)) (simp add: reads_zero_def)

text \<open>
  C37. The latch after the decode stage is well typed: with windows of at most 31 registers, each
  operand is a register of the window of its type or the invalid register; a store has no destination
  and an instruction with a literal has no second register; the displacement of a memory instruction is
  the 16-bit field and that of a branch the 21-bit field, as signed numbers.
\<close>

theorem DecodeStage_type:
  assumes "\<forall>type. reg_info_wf (fd_regs inp type) \<and> length (window (fd_regs inp type)) \<le> 31"
    and "DecodeStage_OnCycle PHASE_COMMIT inp out = Inr out'"
  shows "(\<forall>a \<in> {dr_Ra out', dr_Rb out', dr_Rc out'}. operand_ok (fd_regs inp) a)
    \<and> (dr_format out' = IFORMAT_MEM_STORE \<longrightarrow> ra_index (dr_Rc out') = unat INVALID_REG_INDEX)
    \<and> (dr_literal out' \<noteq> 0 \<longrightarrow> ra_index (dr_Rb out') = unat INVALID_REG_INDEX)
    \<and> (dr_format out' \<in> {IFORMAT_MEM_LOAD, IFORMAT_MEM_STORE, IFORMAT_MISC} \<longrightarrow>
         sint (dr_displacement out') = signed_take_bit 15 (uint (A_MEMDISP (fd_instr inp))))
    \<and> (dr_format out' = IFORMAT_BRA \<longrightarrow>
         sint (dr_displacement out') = signed_take_bit 20 (uint (A_BRADISP (fd_instr inp))))"
proof -
  define d where "d = DecodeInstruction (fd_instr inp) (decode_start inp out)"
  have out': "out' = translated inp d"
    using assms decode_registers_translated [of inp out] by (simp add: DecodeStage_OnCycle_def d_def)
  have zero: "ra_index (fst (window_lookup (fd_regs inp type) type (ra_index a))) = unat INVALID_REG_INDEX"
    if "reads_zero a" for a type using assms(1) that by (simp add: window_lookup_zero)
  have "dr_format d = IFORMAT_MEM_STORE \<Longrightarrow> reads_zero (dr_Rc d)" "dr_literal d \<noteq> 0 \<Longrightarrow> reads_zero (dr_Rb d)"
    unfolding d_def by (rule decode_store decode_literal; assumption)+
  then show ?thesis
    using decode_displacement [of "fd_instr inp" "decode_start inp out", folded d_def]
    by (simp add: out' translated_def Let_def window_lookup_operand zero)
qed

theorem DecodeStage_type_witness:
  "ra_index (dr_Rc (translated (sample_fetch 0xB54CFFF8) sample_decoded)) = unat INVALID_REG_INDEX
   \<and> sint (dr_displacement (translated (sample_fetch 0xB54CFFF8) sample_decoded)) = - 8"
proof -
  have "dr_format (translated (sample_fetch 0xB54CFFF8) sample_decoded) = IFORMAT_MEM_STORE"
    by (simp add: translated_def Let_def sample_decoded_def decode_frame A_OPCODE_def field_def GetInstrFormat_def)
  moreover have "uint (A_MEMDISP 0xB54CFFF8) = 0xFFF8"
    by (simp add: A_MEMDISP_def field_def)
  ultimately show ?thesis
    using DecodeStage_type [of "sample_fetch 0xB54CFFF8" empty_latch "translated (sample_fetch 0xB54CFFF8) sample_decoded"]
      decode_registers_translated [of "sample_fetch 0xB54CFFF8" empty_latch]
    by (simp add: DecodeStage_OnCycle_def sample_fetch_def sample_window_wf sample_decoded_def)
qed

end
