(* ===== verification/Pipeline_Latches.thy ===== *)
theory Pipeline_Latches
  imports Alpha_Decode Allocator_Create Core_Frame
begin

text \<open>
  The latches behind the decode stage (arch/drisc/Pipeline.h), what a stage returns to the pipeline, and the
  stages that do nothing but keep a value for a cycle. A stage is a function of its own state, its input
  latch and its output latch, in the operations on the state of the core; it returns an action, its state
  and its output latch. The flags that say whether a latch is empty belong to the pipeline.
\<close>

datatype PipeAction = PIPE_CONTINUE | PIPE_FLUSH | PIPE_STALL | PIPE_DELAY | PIPE_IDLE

datatype SuspendType = SUSPEND_NONE | SUSPEND_MEMORY_BARRIER | SUSPEND_MISSING_DATA

record ReadExecuteLatch = CommonData +
  re_format :: InstrFormat
  re_displacement :: u32
  re_function :: nat
  re_opcode :: nat
  re_placeSize :: u32
  re_regs :: "RegType \<Rightarrow> RegInfo"
  re_Rc :: RegAddr
  re_Rav :: PipeValue
  re_Rbv :: PipeValue
  re_RcSize :: nat
  re_regofs :: nat
  re_legacy :: bool
  re_Ra :: RegAddr
  re_Rb :: RegAddr

record ExecuteMemoryLatch = CommonData +
  em_suspend :: SuspendType
  em_address :: u64
  em_size :: nat
  em_sign_extend :: bool
  em_Rcv :: PipeValue
  em_Rc :: RegAddr
  em_placeSize :: u32
  em_Rrc :: RemoteMessage
  em_Ra :: RegAddr

record MemoryWritebackLatch = CommonData +
  mw_suspend :: SuspendType
  mw_Rc :: RegAddr
  mw_Rcv :: PipeValue
  mw_Rrc :: RemoteMessage

text \<open>\<open>(CommonData&)output = input\<close>.\<close>

definition copy_common :: "'a CommonData_scheme \<Rightarrow> 'b CommonData_scheme \<Rightarrow> 'b CommonData_scheme" where
  "copy_common inp out = out\<lparr>cd_pc := cd_pc inp, cd_tid := cd_tid inp, cd_fid := cd_fid inp, cd_swch := cd_swch inp,
     cd_kill := cd_kill inp, cd_pc_dbg := cd_pc_dbg inp, cd_logical_index := cd_logical_index inp\<rparr>"

text \<open>\<open>RegAddr::valid\<close>, and the size of an integer register.\<close>

definition reg_ok :: "RegAddr \<Rightarrow> bool" where
  "reg_ok a \<longleftrightarrow> ra_index a \<noteq> unat INVALID_REG_INDEX"

definition INTEGER_SIZE :: nat where
  "INTEGER_SIZE = 8"

text \<open>The bits of a value, as the type of its register says.\<close>

definition pv_get :: "RegType \<Rightarrow> PipeValue \<Rightarrow> u64 res" where
  "pv_get t v = (case t of RT_INTEGER \<Rightarrow> MultiInteger_get (pv_bits v) (pv_size v) | RT_FLOAT \<Rightarrow> MultiFloat_toint (pv_bits v) (pv_size v))"

definition pv_set :: "RegType \<Rightarrow> u64 \<Rightarrow> PipeValue \<Rightarrow> PipeValue res" where
  "pv_set t x v = res_bind (case t of RT_INTEGER \<Rightarrow> MultiInteger_set x (pv_size v) (pv_bits v)
     | RT_FLOAT \<Rightarrow> MultiFloat_fromint x (pv_size v) (pv_bits v)) (\<lambda>b. Inr (v\<lparr>pv_bits := b\<rparr>))"

section \<open>Dummy stages\<close>

definition DummyStage_OnCycle :: "MemoryWritebackLatch \<Rightarrow> MemoryWritebackLatch \<Rightarrow> (PipeAction \<times> MemoryWritebackLatch) core_op" where
  "DummyStage_OnCycle inp out = get_env (\<lambda>e. ret (PIPE_CONTINUE, COMMIT (en_phase e) (\<lambda>_. inp) out))"

end
