(* ===== verification/Stage_Fetch.thy ===== *)
theory Stage_Fetch
  imports Pipeline_Latches
begin

text \<open>
  The fetch stage (arch/drisc/FetchStage.cpp): when the last instruction switched threads, the next active
  thread is taken and its line read into the buffer of the stage; then an instruction is taken from the
  buffer, with the control bits that the first word of each control block holds for the
  instructions of the block. Breakpoints are not modelled.
\<close>

record FetchStage =
  fs_controlBlockSize :: u64
  fs_buffer :: "u8 list"
  fs_switched :: bool
  fs_pc :: u64

text \<open>The buffer is not initialised; its first content is an argument.\<close>

definition FetchStage_new :: "u64 \<Rightarrow> u64 \<Rightarrow> u8 list \<Rightarrow> FetchStage res" where
  "FetchStage_new block lineSize junk =
     (if block AND NOT (block - 1) \<noteq> block then Inl InvalidArgumentException
      else if 64 < block then Inl InvalidArgumentException
      else if lineSize < block then Inl InvalidArgumentException
      else Inr \<lparr>fs_controlBlockSize = block, fs_buffer = junk, fs_switched = True, fs_pc = 0\<rparr>)"

definition FetchStage_Clear :: "u32 \<Rightarrow> FetchDecodeLatch \<Rightarrow> FetchStage \<Rightarrow> FetchStage" where
  "FetchStage_Clear tid out st = (if cd_tid out = tid then st\<lparr>fs_switched := True\<rparr> else st)"

text \<open>The thread is named in the latch, with its registers.\<close>

definition fetch_thread :: "nat \<Rightarrow> Thread \<Rightarrow> Family \<Rightarrow> FetchDecodeLatch \<Rightarrow> FetchDecodeLatch" where
  "fetch_thread tid th fm out = out\<lparr>cd_tid := of_nat tid, cd_fid := of_nat (th_family th), fd_legacy := fm_legacy fm,
     fd_placeSize := fm_placeSize fm, cd_logical_index := th_index th,
     fd_regs := (\<lambda>t. \<lparr>ri_family = fm_regs fm t, ri_thread = th_regs th t\<rparr>)\<rparr>"

text \<open>The switch to another thread: nothing when there is none, else the program counter.\<close>

definition fetch_switch :: "FetchStage \<Rightarrow> FetchDecodeLatch \<Rightarrow> (u64 \<times> FetchStage \<times> FetchDecodeLatch) option core_op" where
  "fetch_switch st out = bnd PopActiveThread (\<lambda>tid.
     if tid = INVALID_TID then ret None
     else with_thread tid (\<lambda>th. with_family (th_family th) (\<lambda>fm. get_env (\<lambda>e. get_core (\<lambda>c.
       defined (\<not> fm_legacy fm \<longrightarrow> fs_controlBlockSize st \<noteq> 0)
       (let pc = (if \<not> fm_legacy fm \<and> th_pc th mod fs_controlBlockSize st = 0 then th_pc th + 4 else th_pc th);
            offset = pc mod ic_lineSize (co_icache c) in
        bnd (liftr (ic_Read (th_cid th) (pc - offset) (ic_lineSize (co_icache c)) (co_icache c))) (\<lambda>data.
        commit (set_thread_state tid TST_RUNNING)
        (ret (Some (pc, COMMIT (en_phase e) (\<lambda>st. st\<lparr>fs_buffer := data\<rparr>) st,
                    COMMIT (en_phase e) (fetch_thread tid th fm) out))))))))))"

text \<open>The word with a number in the buffer; reading behind it is undefined.\<close>

definition buffer_instruction :: "Target \<Rightarrow> nat \<Rightarrow> u8 list \<Rightarrow> u32 res" where
  "buffer_instruction t i buf = (if 4 * i + 4 \<le> length buf then Inr (UnserializeInstruction t (take 4 (drop (4 * i) buf)))
     else Inl UndefinedBehaviour)"

text \<open>Whether the thread of the latch is the last active one: it may be on the queue still, when it was
  taken in this cycle.\<close>

definition last_thread :: "u32 \<Rightarrow> Core \<Rightarrow> bool res" where
  "last_thread tid c = (let l = co_lists c ActiveThreads in
     if llist_Empty l then Inr True
     else res_bind (llist_Singular l) (\<lambda>one. if one then res_bind (llist_Front l) (\<lambda>t. Inr (of_nat t = tid)) else Inr False))"

text \<open>The commit phase of a fetch.\<close>

definition fetch_instruction :: "Target \<Rightarrow> u64 \<Rightarrow> u64 \<Rightarrow> FetchStage \<Rightarrow> FetchDecodeLatch \<Rightarrow> Core \<Rightarrow> (FetchStage \<times> FetchDecodeLatch) res" where
  "fetch_instruction t lineSize pc st out c =
     (let offset = pc mod lineSize; iInstr = unat offset div 4; iControl = unat (offset AND - fs_controlBlockSize st) div 4;
          next_pc = pc + 4 in
      res_bind (if \<not> fd_legacy out
                then res_bind (buffer_instruction t iControl (fs_buffer st)) (\<lambda>w. shift_right (2 * (iInstr - iControl)) w)
                else Inr 0) (\<lambda>control.
      res_bind (last_thread (cd_tid out) c) (\<lambda>lastThread.
      res_bind (buffer_instruction t iInstr (fs_buffer st)) (\<lambda>instr.
      let kill = bit control 1; mustSwitch = kill \<or> next_pc mod lineSize = 0;
          swch = mustSwitch \<or> bit control 0 \<and> \<not> lastThread in
      Inr (st\<lparr>fs_pc := next_pc, fs_switched := swch\<rparr>,
           out\<lparr>cd_kill := kill, cd_swch := swch, cd_pc := pc, fd_instr := instr, cd_pc_dbg := pc\<rparr>)))))"

definition FetchStage_OnCycle :: "Target \<Rightarrow> FetchStage \<Rightarrow> FetchDecodeLatch \<Rightarrow> (PipeAction \<times> FetchStage \<times> FetchDecodeLatch) core_op" where
  "FetchStage_OnCycle t st out =
     bnd (if fs_switched st then fetch_switch st out else ret (Some (fs_pc st, st, out))) (\<lambda>r. case r of
       None \<Rightarrow> ret (PIPE_IDLE, st, out)
     | Some (pc, st, out) \<Rightarrow> get_env (\<lambda>e. get_core (\<lambda>c.
         if en_phase e = PHASE_COMMIT
         then bnd (liftr (fetch_instruction t (ic_lineSize (co_icache c)) pc st out c)) (\<lambda>(st, out).
              ret (PIPE_CONTINUE, st, out))
         else ret (PIPE_CONTINUE, st, out))))"

end
