(* ===== verification/Stage_Read.thy ===== *)
theory Stage_Read
  imports Pipeline_Latches
begin

text \<open>
  The read stage (arch/drisc/ReadStage.cpp). An operand is read from the register file and then from the
  bypasses, the results that have not been written back yet: the results are replayed from the oldest
  to the newest over the value of the register. An operand of several registers takes a cycle for
  each; \<open>oi_offset\<close> is the register that is read next, \<open>-1\<close> when all are read and \<open>-2\<close> before
  the first. A bypass is a flag that is set when the latch is empty, an address and a value.
\<close>

record OperandInfo =
  oi_addr :: RegAddr
  oi_value :: PipeValue
  oi_offset :: int
  oi_islocal :: bool
  oi_addr_reg :: RegAddr
  oi_value_reg :: PipeValue

record ReadStage =
  rs_operand1 :: OperandInfo
  rs_operand2 :: OperandInfo
  rs_RaNotPending :: bool

type_synonym bypass = "bool \<times> RegAddr \<times> PipeValue"

text \<open>Members of unions that constructors leave open are arguments.\<close>

definition RegToPipeValue :: "PipeValue \<Rightarrow> RegType \<Rightarrow> RegValue \<Rightarrow> PipeValue res" where
  "RegToPipeValue junk t v =
     (let dest = junk\<lparr>pv_state := rv_state v, pv_size := INTEGER_SIZE\<rparr> in
      case rv_state v of
        RST_WAITING \<Rightarrow> Inr (dest\<lparr>pv_waiting := rv_waiting v, pv_memory := rv_memory v\<rparr>)
      | RST_PENDING \<Rightarrow> Inr (dest\<lparr>pv_waiting := rv_waiting v, pv_memory := rv_memory v\<rparr>)
      | RST_EMPTY \<Rightarrow> Inr (dest\<lparr>pv_waiting := rv_waiting v, pv_memory := rv_memory v\<rparr>)
      | RST_FULL \<Rightarrow> pv_set t (rv_value v) dest
      | RST_INVALID \<Rightarrow> Inl AssertionFailure)"

text \<open>The index of the register that is read next, in the arithmetic of indices.\<close>

definition operand_index :: "OperandInfo \<Rightarrow> nat" where
  "operand_index op = nat ((int (ra_index (oi_addr op)) + oi_offset op) mod 2 ^ 32)"

text \<open>\<open>ReadRegister\<close>: the start of an operand, and the read of a register.\<close>

definition operand_start :: "u32 \<Rightarrow> OperandInfo \<Rightarrow> OperandInfo res" where
  "operand_start literal op =
     (if oi_offset op \<noteq> -2 then Inr op
      else let ok = reg_ok (oi_addr op); v = (oi_value op)\<lparr>pv_state := RST_FULL\<rparr>;
               offset = (if ok then int (pv_size v div INTEGER_SIZE) - 1 else -1) in
        res_bind (pv_set (ra_type (oi_addr op)) (if ok then 0 else ucast literal) v) (\<lambda>v.
        Inr (op\<lparr>oi_value := v, oi_offset := offset\<rparr>)))"

definition operand_read :: "PipeValue \<Rightarrow> OperandInfo \<Rightarrow> OperandInfo core_op" where
  "operand_read junk op =
     (if oi_offset op < 0 then ret op
      else get_env (\<lambda>e. check (en_process e = p_Pipeline)
        (let addr = \<lparr>ra_type = ra_type (oi_addr op), ra_index = operand_index op\<rparr> in
         bnd (read_register addr) (\<lambda>v.
           let v = (if rv_state v = RST_EMPTY \<and> oi_islocal op then v\<lparr>rv_state := RST_FULL, rv_value := 0\<rparr> else v) in
           bnd (liftr (RegToPipeValue junk (ra_type addr) v)) (\<lambda>pv.
             ret (op\<lparr>oi_addr_reg := addr, oi_value_reg := pv\<rparr>))))))"

definition read_operand :: "PipeValue \<Rightarrow> u32 \<Rightarrow> OperandInfo \<Rightarrow> OperandInfo core_op" where
  "read_operand junk literal op = bnd (liftr (operand_start literal op)) (operand_read junk)"

section \<open>Bypasses\<close>

definition holds_register :: "RegType \<Rightarrow> nat \<Rightarrow> bypass \<Rightarrow> bool" where
  "holds_register t i b \<longleftrightarrow> (case b of (empty', addr, v) \<Rightarrow> \<not> empty' \<and> reg_ok addr \<and> ra_type addr = t
     \<and> ra_index addr \<le> i \<and> i < ra_index addr + pv_size v div INTEGER_SIZE)"

text \<open>A part of a value, as an integer.\<close>

definition value_part :: "RegType \<Rightarrow> nat \<Rightarrow> PipeValue \<Rightarrow> u64 res" where
  "value_part t offset v = res_bind (pv_get t v) (\<lambda>x. shift_right (offset * INTEGER_SIZE * 8) x)"

text \<open>A result is replayed.\<close>

definition replay :: "RegType \<Rightarrow> nat \<Rightarrow> bypass \<Rightarrow> RegValue \<Rightarrow> RegValue res" where
  "replay t i b value =
     (if \<not> holds_register t i b then Inr value
      else case b of (_, addr, v) \<Rightarrow>
        if pv_state v = RST_FULL
        then res_bind (value_part t (i - ra_index addr) v) (\<lambda>x. Inr (value\<lparr>rv_state := RST_FULL, rv_value := x\<rparr>))
        else if pv_state v = RST_WAITING \<and> rv_state value = RST_FULL then Inr value
        else if pv_state v = RST_PENDING \<and> rv_state value = RST_WAITING then Inr value
        else Inr (value\<lparr>rv_state := pv_state v, rv_waiting := pv_waiting v, rv_memory := pv_memory v\<rparr>))"

text \<open>The bypasses are listed from the newest to the oldest.\<close>

definition replay_bypasses :: "RegType \<Rightarrow> nat \<Rightarrow> bypass list \<Rightarrow> RegValue \<Rightarrow> RegValue res" where
  "replay_bypasses t i bs value = res_fold (replay t i) (rev bs) value"

text \<open>A register that was read is put into its place in the operand.\<close>

definition operand_insert :: "u64 \<Rightarrow> OperandInfo \<Rightarrow> OperandInfo res" where
  "operand_insert x op = (let t = ra_type (oi_addr op) in
     res_bind (pv_get t (oi_value op)) (\<lambda>old.
     res_bind (shift_left (nat (oi_offset op) * INTEGER_SIZE * 8) x) (\<lambda>x.
     res_bind (pv_set t (old OR x) (oi_value op)) (\<lambda>v.
     Inr (op\<lparr>oi_value := v, oi_offset := oi_offset op - 1\<rparr>)))))"

definition ReadBypasses :: "PipeValue \<Rightarrow> RegValue \<Rightarrow> bypass list \<Rightarrow> OperandInfo \<Rightarrow> (bool \<times> OperandInfo) res" where
  "ReadBypasses pjunk rjunk bs op =
     (if \<not> reg_ok (oi_addr op) \<or> oi_offset op < 0 then Inr (True, op)
      else let t = ra_type (oi_addr op); i = operand_index op in
        res_bind (replay_bypasses t i (bs @ [(False, oi_addr_reg op, oi_value_reg op)]) (MAKE_EMPTY_REG rjunk)) (\<lambda>value.
        if rv_state value = RST_INVALID then Inr (False, op)
        else if rv_state value \<noteq> RST_FULL
        then res_bind (RegToPipeValue pjunk t value) (\<lambda>v.
               Inr (True, op\<lparr>oi_addr := (oi_addr op)\<lparr>ra_index := i\<rparr>, oi_value := v, oi_offset := -1\<rparr>))
        else res_bind (operand_insert (rv_value value) op) (\<lambda>op. Inr (True, op))))"

section \<open>The stage\<close>

definition suspend_on :: "u32 \<Rightarrow> OperandInfo \<Rightarrow> ReadExecuteLatch \<Rightarrow> ReadExecuteLatch" where
  "suspend_on tid op out = (let v = oi_value op in
     out\<lparr>re_Rc := oi_addr op, re_Rav := v\<lparr>pv_state := RST_WAITING, pv_waiting := \<lparr>tq_head = unat tid,
        tq_tail = (if pv_state v = RST_WAITING then tq_tail (pv_waiting v) else unat tid)\<rparr>\<rparr>\<rparr>)"

definition read_output :: "DecodeReadLatch \<Rightarrow> OperandInfo \<Rightarrow> OperandInfo \<Rightarrow> ReadExecuteLatch \<Rightarrow> ReadExecuteLatch" where
  "read_output inp op1 op2 out = (copy_common inp out)\<lparr>re_format := dr_format inp, re_displacement := dr_displacement inp,
     re_function := dr_function inp, re_opcode := dr_opcode inp, re_Ra := oi_addr op1, re_Rb := oi_addr op2\<rparr>"

definition read_normal :: "DecodeReadLatch \<Rightarrow> OperandInfo \<Rightarrow> OperandInfo \<Rightarrow> ReadExecuteLatch \<Rightarrow> ReadExecuteLatch" where
  "read_normal inp op1 op2 out = out\<lparr>re_Rav := oi_value op1, re_Rbv := oi_value op2, re_regofs := dr_regofs inp,
     re_Rc := dr_Rc inp, re_RcSize := dr_RcSize inp, re_regs := dr_regs inp, re_placeSize := dr_placeSize inp,
     re_legacy := dr_legacy inp\<rparr>"

definition new_operand :: "RegAddr \<Rightarrow> nat \<Rightarrow> bool \<Rightarrow> OperandInfo \<Rightarrow> OperandInfo" where
  "new_operand addr n islocal op = op\<lparr>oi_addr := addr, oi_value := (oi_value op)\<lparr>pv_size := n\<rparr>, oi_islocal := islocal\<rparr>"

text \<open>The end of a read: both operands are complete.\<close>

definition finish_read :: "DecodeReadLatch \<Rightarrow> OperandInfo \<Rightarrow> OperandInfo \<Rightarrow> ReadStage \<Rightarrow> ReadExecuteLatch
    \<Rightarrow> (PipeAction \<times> ReadStage \<times> ReadExecuteLatch) core_op" where
  "finish_read inp op1 op2 st out = get_env (\<lambda>e.
     let st' = st\<lparr>rs_operand1 := (rs_operand1 st)\<lparr>oi_offset := -2\<rparr>, rs_operand2 := (rs_operand2 st)\<lparr>oi_offset := -2\<rparr>\<rparr>;
         op1' = (if rs_RaNotPending st \<and> pv_state (oi_value op1) = RST_EMPTY
                 then op1\<lparr>oi_value := (oi_value op1)\<lparr>pv_state := RST_FULL\<rparr>\<rparr> else op1);
         out' = (if pv_state (oi_value op1') \<noteq> RST_FULL then suspend_on (cd_tid inp) op1'
                 else if pv_state (oi_value op2) \<noteq> RST_FULL then suspend_on (cd_tid inp) op2
                 else read_normal inp op1' op2) (read_output inp op1 op2 out) in
     check (rs_RaNotPending st \<longrightarrow> pv_state (oi_value op1) \<noteq> RST_WAITING)
     (ret (PIPE_CONTINUE, COMMIT (en_phase e) (\<lambda>_. st') st, COMMIT (en_phase e) (\<lambda>_. out') out)))"

definition ReadStage_OnCycle :: "PipeValue \<Rightarrow> bypass list \<Rightarrow> DecodeReadLatch \<Rightarrow> ReadStage \<Rightarrow> ReadExecuteLatch
    \<Rightarrow> (PipeAction \<times> ReadStage \<times> ReadExecuteLatch) core_op" where
  "ReadStage_OnCycle junk bs inp st out =
     (let fresh = (oi_offset (rs_operand1 st) = -2 \<and> oi_offset (rs_operand2 st) = -2);
          op1 = (if fresh then new_operand (dr_Ra inp) (dr_RaSize inp) (dr_RaIsLocal inp) (rs_operand1 st) else rs_operand1 st);
          op2 = (if fresh then new_operand (dr_Rb inp) (dr_RbSize inp) (dr_RbIsLocal inp) (rs_operand2 st) else rs_operand2 st);
          st = (if fresh then st\<lparr>rs_RaNotPending := dr_RaNotPending inp\<rparr> else st) in
      bnd (read_operand junk 0 op1) (\<lambda>op1. bnd (read_operand junk (dr_literal inp) op2) (\<lambda>op2.
      get_env (\<lambda>e. get_core (\<lambda>c. let acquire = (en_phase e = PHASE_ACQUIRE) in
      bnd (if acquire then ret (True, op1) else liftr (ReadBypasses junk (co_junk c) bs op1)) (\<lambda>(ok1, op1).
      if \<not> ok1 then ret (PIPE_STALL, st, out)
      else bnd (if acquire then ret (True, op2) else liftr (ReadBypasses junk (co_junk c) bs op2)) (\<lambda>(ok2, op2).
      if \<not> ok2 then ret (PIPE_STALL, st, out)
      else if 0 \<le> oi_offset op1 \<or> 0 \<le> oi_offset op2
      then ret (PIPE_DELAY, COMMIT (en_phase e) (\<lambda>st. st\<lparr>rs_operand1 := op1, rs_operand2 := op2\<rparr>) st, out)
      else finish_read inp op1 op2 st out)))))))"

definition ReadStage_Clear :: "u32 \<Rightarrow> DecodeReadLatch \<Rightarrow> ReadStage \<Rightarrow> ReadStage" where
  "ReadStage_Clear tid inp st = (if cd_tid inp = tid
     then st\<lparr>rs_operand1 := (rs_operand1 st)\<lparr>oi_offset := -2\<rparr>, rs_operand2 := (rs_operand2 st)\<lparr>oi_offset := -2\<rparr>\<rparr> else st)"

end
