(* ===== verification/FPU_Unit.thy ===== *)
theory FPU_Unit
  imports Core_Frame Pipeline_Values
begin

text \<open>
  The floating-point unit that cores share (arch/FPU.h, arch/FPU.cpp): operations wait in a queue for each
  core, are executed by units with a latency, and are written back to the register file of their core.
  Doubles are their 64 bits; the arithmetic on them is done by the host of the simulator and is an
  argument, as are the operations of the clients, which work on a state of their own.
\<close>

datatype FPUOperation = FPU_OP_NONE | FPU_OP_ADD | FPU_OP_SUB | FPU_OP_MUL | FPU_OP_DIV | FPU_OP_SQRT

record fpu_operation =
  fo_op :: FPUOperation
  fo_size :: nat
  fo_Rav :: u64
  fo_Rbv :: u64
  fo_Rc :: RegAddr

record fpu_source =
  so_inputs :: "fpu_operation buffer"
  so_client :: bool
  so_last_write :: u64
  so_last_unit :: nat

record fpu_result =
  fr_address :: RegAddr
  fr_value :: u64
  fr_source :: nat
  fr_size :: nat
  fr_state :: nat
  fr_index :: nat

record fpu_unit =
  fu_latency :: nat
  fu_slots :: "fpu_result list"
  fu_pipelined :: bool

record FPU =
  fpu_active :: "bool register"
  fpu_sources :: "fpu_source list"
  fpu_units :: "fpu_unit list"
  fpu_mapping :: "FPUOperation \<Rightarrow> nat list"
  fpu_last_source :: nat

text \<open>The host: the results of additions and so on, and the bits of a double as a single.\<close>

record host_arithmetic =
  ha_add :: "u64 \<Rightarrow> u64 \<Rightarrow> u64"
  ha_sub :: "u64 \<Rightarrow> u64 \<Rightarrow> u64"
  ha_mul :: "u64 \<Rightarrow> u64 \<Rightarrow> u64"
  ha_div :: "u64 \<Rightarrow> u64 \<Rightarrow> u64"
  ha_sqrt :: "u64 \<Rightarrow> u64"
  ha_single :: "u64 \<Rightarrow> u32"

text \<open>A client: its register file, by the number of its source.\<close>

record 'a fpu_clients =
  cl_available :: "nat \<Rightarrow> RegAddr \<Rightarrow> 'a \<Rightarrow> (bool \<times> 'a) res"
  cl_write :: "nat \<Rightarrow> RegAddr \<Rightarrow> RegValue \<Rightarrow> 'a \<Rightarrow> (bool \<times> 'a) res"
  cl_junk :: RegValue

section \<open>Construction\<close>

text \<open>The units of the configuration: their operations, latency and whether they are pipelined. Operations
  are inserted in a set, so each names a unit once, in the order of the units.\<close>

definition fpu_mapping_of :: "(FPUOperation set \<times> nat \<times> bool) list \<Rightarrow> FPUOperation \<Rightarrow> nat list" where
  "fpu_mapping_of units op = filter (\<lambda>i. op \<in> fst (units ! i)) [0..<length units]"

definition FPU_new :: "(FPUOperation set \<times> nat \<times> bool) list \<Rightarrow> fpu_source list \<Rightarrow> bool register \<Rightarrow> FPU res" where
  "FPU_new units sources active =
     (if units = [] \<or> (\<exists>u\<in>set units. fst u = {}) then Inl InvalidArgumentException
      else Inr \<lparr>fpu_active = active, fpu_sources = sources,
        fpu_units = map (\<lambda>(_, latency, pipelined). \<lparr>fu_latency = latency, fu_slots = [], fu_pipelined = pipelined\<rparr>) units,
        fpu_mapping = fpu_mapping_of units, fpu_last_source = 0\<rparr>)"

text \<open>The storage traces that a source declares are not modelled.\<close>

definition RegisterSource :: "FPU \<Rightarrow> (nat \<times> FPU) res" where
  "RegisterSource f = (case find (\<lambda>i. \<not> so_client (fpu_sources f ! i)) [0..<length (fpu_sources f)] of
     None \<Rightarrow> Inl AssertionFailure
   | Some i \<Rightarrow> Inr (i, f\<lparr>fpu_sources := (fpu_sources f)[i := (fpu_sources f ! i)\<lparr>so_client := True\<rparr>]\<rparr>))"

section \<open>Operations\<close>

definition fpu_set_source :: "nat \<Rightarrow> (fpu_source \<Rightarrow> fpu_source) \<Rightarrow> FPU \<Rightarrow> FPU" where
  "fpu_set_source i g f = f\<lparr>fpu_sources := (fpu_sources f)[i := g (fpu_sources f ! i)]\<rparr>"

definition fpu_set_unit :: "nat \<Rightarrow> (fpu_unit \<Rightarrow> fpu_unit) \<Rightarrow> FPU \<Rightarrow> FPU" where
  "fpu_set_unit i g f = f\<lparr>fpu_units := (fpu_units f)[i := g (fpu_units f ! i)]\<rparr>"

definition QueueOperation :: "env \<Rightarrow> nat \<Rightarrow> FPUOperation \<Rightarrow> nat \<Rightarrow> u64 \<Rightarrow> u64 \<Rightarrow> RegAddr \<Rightarrow> FPU \<Rightarrow> (bool \<times> FPU) res" where
  "QueueOperation e source fop n rav rbv rc f =
     assert_that (source < length (fpu_sources f)) (assert_that (so_client (fpu_sources f ! source))
     (assert_that (0 < n \<and> n mod 8 = 0) (assert_that (ra_index rc \<noteq> unat INVALID_REG_INDEX)
     (res_bind (buffer_Push (en_phase e) (en_clk e) \<lparr>fo_op = fop, fo_size = n, fo_Rav = rav, fo_Rbv = rbv, fo_Rc = rc\<rparr> 1
        (so_inputs (fpu_sources f ! source))) (\<lambda>(ok, b).
      Inr (ok, fpu_set_source source (\<lambda>s. s\<lparr>so_inputs := b\<rparr>) f))))))"

definition MultiFloat_fromfloat :: "(u64 \<Rightarrow> u32) \<Rightarrow> u64 \<Rightarrow> nat \<Rightarrow> u64 res" where
  "MultiFloat_fromfloat single x n = (if n = 4 then Inr (ucast (single x)) else if n = 8 then Inr x else Inl AssertionFailure)"

definition CalculateResult :: "host_arithmetic \<Rightarrow> fpu_operation \<Rightarrow> fpu_result res" where
  "CalculateResult h op = res_bind (case fo_op op of
       FPU_OP_SQRT \<Rightarrow> Inr (ha_sqrt h (fo_Rbv op))
     | FPU_OP_ADD \<Rightarrow> Inr (ha_add h (fo_Rav op) (fo_Rbv op))
     | FPU_OP_SUB \<Rightarrow> Inr (ha_sub h (fo_Rav op) (fo_Rbv op))
     | FPU_OP_MUL \<Rightarrow> Inr (ha_mul h (fo_Rav op) (fo_Rbv op))
     | FPU_OP_DIV \<Rightarrow> Inr (ha_div h (fo_Rav op) (fo_Rbv op))
     | FPU_OP_NONE \<Rightarrow> Inl AssertionFailure)
     (\<lambda>value. res_bind (MultiFloat_fromfloat (ha_single h) value (fo_size op)) (\<lambda>v.
      Inr \<lparr>fr_address = fo_Rc op, fr_value = v, fr_source = 0, fr_size = fo_size op, fr_state = 1, fr_index = 0\<rparr>))"

text \<open>A result is written back. The cycle and the unit of the last write of a source are set in every phase.\<close>

definition OnCompletion :: "'a fpu_clients \<Rightarrow> u64 \<Rightarrow> nat \<Rightarrow> fpu_result \<Rightarrow> FPU \<times> 'a \<Rightarrow> (bool \<times> FPU \<times> 'a) res" where
  "OnCompletion cl now i res s = (case s of (f, a) \<Rightarrow>
     if \<not> (fr_source res < length (fpu_sources f) \<and> so_client (fpu_sources f ! fr_source res)) then Inl UndefinedBehaviour
     else let source = fpu_sources f ! fr_source res in
       if so_last_write source = now \<and> so_last_unit source \<noteq> i then Inr (False, f, a)
       else let f = fpu_set_source (fr_source res) (\<lambda>s. s\<lparr>so_last_write := now, so_last_unit := i\<rparr>) f;
                addr = (fr_address res)\<lparr>ra_index := (ra_index (fr_address res) + fr_index res) mod 2 ^ 32\<rparr> in
         res_bind (cl_available cl (fr_source res) addr a) (\<lambda>(ok, a).
         if \<not> ok then Inr (False, f, a)
         else res_bind (res_bind (MultiFloat_toint (fr_value res) (fr_size res)) (shift_right (8 * 8 * fr_index res))) (\<lambda>v.
           res_bind (cl_write cl (fr_source res) addr ((cl_junk cl)\<lparr>rv_state := RST_FULL, rv_value := v\<rparr>) a) (\<lambda>(ok, a).
           Inr (ok, f, a)))))"

text \<open>The counts of units that are active, that failed and that are full.\<close>

type_synonym unit_counts = "nat \<times> nat \<times> nat"

definition advance_slots :: "fpu_unit \<Rightarrow> fpu_unit" where
  "advance_slots u = u\<lparr>fu_slots := map (\<lambda>r. r\<lparr>fr_state := fr_state r + 1\<rparr>) (fu_slots u)\<rparr>"

definition unit_step :: "env \<Rightarrow> 'a fpu_clients \<Rightarrow> u64 \<Rightarrow> nat \<Rightarrow> unit_counts \<times> FPU \<times> 'a \<Rightarrow> (unit_counts \<times> FPU \<times> 'a) res" where
  "unit_step e cl now i s = (case s of ((active, failed, full), f, a) \<Rightarrow> let u = fpu_units f ! i in
     case fu_slots u of
       [] \<Rightarrow> Inr s
     | res # rest \<Rightarrow>
         if fr_state res = fu_latency u
         then res_bind (OnCompletion cl now i res (f, a)) (\<lambda>(ok, f, a).
           if \<not> ok then Inr ((active + 1, failed + 1, full + 1), f, a)
           else if fr_index res + 1 = fr_size res div 8
           then Inr ((active + 1, failed, if rest = [] then full else full + 1),
             COMMIT (en_phase e) (fpu_set_unit i (\<lambda>u. advance_slots (u\<lparr>fu_slots := rest\<rparr>))) f, a)
           else Inr ((active + 1, failed, full + 1),
             COMMIT (en_phase e) (fpu_set_unit i (\<lambda>u. u\<lparr>fu_slots := res\<lparr>fr_index := fr_index res + 1\<rparr> # rest\<rparr>)) f, a))
         else Inr ((active + 1, failed, full + 1), COMMIT (en_phase e) (fpu_set_unit i advance_slots) f, a))"

text \<open>The unit that an operation of a source goes to, and whether it can take another one.\<close>

definition unit_for :: "FPU \<Rightarrow> fpu_operation \<Rightarrow> nat \<Rightarrow> nat res" where
  "unit_for f op source = (if fo_op op = FPU_OP_NONE \<or> fpu_mapping f (fo_op op) = [] then Inl UndefinedBehaviour
     else Inr (fpu_mapping f (fo_op op) ! (source mod length (fpu_mapping f (fo_op op)))))"

definition unit_busy :: "fpu_unit \<Rightarrow> bool" where
  "unit_busy u \<longleftrightarrow> fu_slots u \<noteq> [] \<and> (\<not> fu_pipelined u \<or> fr_state (last (fu_slots u)) = 1)"

type_synonym source_counts = "nat \<times> nat \<times> nat"

definition source_step :: "env \<Rightarrow> host_arithmetic \<Rightarrow> nat \<Rightarrow> source_counts \<times> FPU \<Rightarrow> (source_counts \<times> FPU) res" where
  "source_step e h k s = (case s of ((active, failed, full), f) \<Rightarrow>
     let source = k mod length (fpu_sources f); input = so_inputs (fpu_sources f ! source) in
     if buffer_Empty input then Inr s
     else res_bind (buffer_Front input) (\<lambda>op. res_bind (unit_for f op source) (\<lambda>i.
       if \<not> i < length (fpu_units f) then Inl UndefinedBehaviour
       else if en_phase e \<noteq> PHASE_ACQUIRE \<and> unit_busy (fpu_units f ! i) then Inr ((active + 1, failed + 1, full), f)
       else res_bind (if en_phase e = PHASE_COMMIT
             then res_bind (CalculateResult h op) (\<lambda>r.
               Inr (fpu_set_unit i (\<lambda>u. u\<lparr>fu_slots := fu_slots u @ [r\<lparr>fr_source := source\<rparr>]\<rparr>) f))
             else Inr f) (\<lambda>f.
         res_bind (buffer_Pop (en_phase e) (en_clk e) input) (\<lambda>b.
         Inr ((active + 1, failed, full + 1), fpu_set_source source (\<lambda>s. s\<lparr>so_inputs := b\<rparr>) f))))))"

definition FPU_DoPipeline :: "env \<Rightarrow> host_arithmetic \<Rightarrow> 'a fpu_clients \<Rightarrow> u64 \<Rightarrow> FPU \<times> 'a \<Rightarrow> (Result \<times> FPU \<times> 'a) res" where
  "FPU_DoPipeline e h cl now s =
     res_bind (res_fold (unit_step e cl now) [0..<length (fpu_units (fst s))] ((0, 0, 0), s)) (\<lambda>((ua, uf, full), f, a).
     let n = length (fpu_sources f) in
     res_bind (res_fold (source_step e h) [fpu_last_source f..<fpu_last_source f + n] ((0, 0, full), f)) (\<lambda>((sa, sf, full), f).
     if n = 0 then Inl UndefinedBehaviour
     else let f = COMMIT (en_phase e) (\<lambda>f. f\<lparr>fpu_last_source := (fpu_last_source f + 1) mod n\<rparr>) f in
       res_bind (if 0 < full then register_Write (en_phase e) (en_clk e) True (fpu_active f)
                 else register_Clear (en_phase e) (en_clk e) (fpu_active f)) (\<lambda>r.
       Inr (if uf = ua \<and> sf = sa then FAILED else SUCCESS, f\<lparr>fpu_active := r\<rparr>, a))))"


section \<open>Order in the units\<close>

text \<open>The operations in a unit are in different stages, the oldest in front; a unit that is not
  pipelined has one at most.\<close>

definition in_order :: "fpu_unit \<Rightarrow> bool" where
  "in_order u \<longleftrightarrow> 0 < fu_latency u \<and> sorted_wrt (\<lambda>r r'. fr_state r' < fr_state r) (fu_slots u)
     \<and> (\<forall>r\<in>set (fu_slots u). 1 \<le> fr_state r \<and> fr_state r \<le> fu_latency u) \<and> (\<not> fu_pipelined u \<longrightarrow> length (fu_slots u) \<le> 1)"

definition units_ok :: "FPU \<Rightarrow> bool" where
  "units_ok f \<longleftrightarrow> (\<forall>u\<in>set (fpu_units f). in_order u)"

lemma units_ok_set_source [simp]: "units_ok (fpu_set_source i g f) = units_ok f"
  by (simp add: units_ok_def fpu_set_source_def)

lemma units_ok_set_unit:
  assumes "units_ok f" "i < length (fpu_units f) \<Longrightarrow> in_order (g (fpu_units f ! i))"
  shows "units_ok (fpu_set_unit i g f)"
  using assms set_update_subset_insert [of "fpu_units f" i "g (fpu_units f ! i)"] list_update_beyond [of "fpu_units f" i]
  by (cases "i < length (fpu_units f)") (auto simp: units_ok_def fpu_set_unit_def)

lemma advance_in_order:
  assumes "in_order (u\<lparr>fu_slots := rs\<rparr>)" "\<forall>r\<in>set rs. fr_state r < fu_latency u"
  shows "in_order (advance_slots (u\<lparr>fu_slots := rs\<rparr>))"
  using assms by (auto simp: in_order_def advance_slots_def sorted_wrt_map)

lemma OnCompletion_units:
  "OnCompletion cl now i res (f, a) = Inr (ok, f', a') \<Longrightarrow> units_ok f \<Longrightarrow> units_ok f' \<and> fpu_units f' = fpu_units f"
  by (auto simp: OnCompletion_def Let_def fpu_set_source_def units_ok_def elim!: res_bind_InrE split: if_splits)

lemma unit_step_in_order:
  assumes "unit_step e cl now i (k, f, a) = Inr (k', f', a')" "units_ok f" "i < length (fpu_units f)"
  shows "units_ok f'"
proof (cases "fu_slots (fpu_units f ! i)")
  case Nil
  then show ?thesis using assms by (auto simp: unit_step_def split: prod.splits)
next
  case (Cons r rest)
  let ?u = "fpu_units f ! i"
  have u: "in_order ?u" using assms(2,3) by (simp add: units_ok_def)
  have rest: "\<forall>r\<in>set rest. fr_state r < fu_latency ?u" "in_order (?u\<lparr>fu_slots := rest\<rparr>)"
    using u Cons by (auto simp: in_order_def intro: less_le_trans)
  have all: "\<forall>r\<in>set (fu_slots ?u). fr_state r < fu_latency ?u" if "fr_state r \<noteq> fu_latency ?u"
    using u Cons that by (auto simp: in_order_def intro: less_le_trans)
  have same: "in_order (?u\<lparr>fu_slots := r\<lparr>fr_index := x\<rparr> # rest\<rparr>)" for x
    using u Cons by (auto simp: in_order_def)
  have adv: "in_order (advance_slots ?u)" if "fr_state r \<noteq> fu_latency ?u"
    using advance_in_order [where u = ?u and rs = "fu_slots ?u"] u all [OF that] by simp
  show ?thesis
    using assms(1,2) Cons rest same adv
    by (auto simp: unit_step_def COMMIT_def elim!: res_bind_InrE dest!: OnCompletion_units
        intro!: units_ok_set_unit advance_in_order split: if_splits prod.splits)
qed

lemma unit_step_length: "unit_step e cl now i (k, f, a) = Inr (k', f', a') \<Longrightarrow> units_ok f \<Longrightarrow> length (fpu_units f') = length (fpu_units f)"
  by (cases "fu_slots (fpu_units f ! i)")
    (auto simp: unit_step_def COMMIT_def fpu_set_unit_def Let_def elim!: res_bind_InrE dest!: OnCompletion_units
      split: if_splits prod.splits)

lemma CalculateResult_state: "CalculateResult h op = Inr r \<Longrightarrow> fr_state r = 1"
  by (auto simp: CalculateResult_def elim!: res_bind_InrE)

lemma source_step_in_order:
  assumes "source_step e h k (n, f) = Inr (n', f')" "units_ok f"
  shows "units_ok f'"
proof -
  have push: "in_order (u\<lparr>fu_slots := fu_slots u @ [r\<lparr>fr_source := x\<rparr>]\<rparr>)"
    if u: "in_order u" "\<not> unit_busy u" and r: "fr_state r = 1" for u r x
  proof (cases "fu_slots u")
    case (Cons y ys)
    then have p: "fu_pipelined u" "fr_state (last (fu_slots u)) \<noteq> 1" using u(2) by (auto simp: unit_busy_def)
    have older: "1 < fr_state q" if q: "q \<in> set (fu_slots u)" for q
    proof (rule ccontr)
      assume "\<not> 1 < fr_state q"
      then have q1: "fr_state q = 1" using u(1) q by (force simp: in_order_def)
      have split: "fu_slots u = butlast (fu_slots u) @ [last (fu_slots u)]" using Cons by simp
      have "q \<in> set (butlast (fu_slots u)) \<or> q = last (fu_slots u)" using q split by (metis append_is_Nil_conv in_set_butlast_appendI list.set_intros(1) rotate1.simps(2) set_ConsD set_rotate1)
      then have "q \<in> set (butlast (fu_slots u))" using q1 p(2) by auto
      moreover have "sorted_wrt (\<lambda>r r'. fr_state r' < fr_state r) (butlast (fu_slots u) @ [last (fu_slots u)])"
        using u(1) split by (simp add: in_order_def)
      ultimately have "fr_state (last (fu_slots u)) < fr_state q" by (auto simp: sorted_wrt_append)
      moreover have "1 \<le> fr_state (last (fu_slots u))" using u(1) Cons by (auto simp: in_order_def)
      ultimately show False using q1 by simp
    qed
    then show ?thesis using u(1) p(1) r by (auto simp: in_order_def sorted_wrt_append)
  qed (use u r in \<open>auto simp: in_order_def\<close>)
  obtain active failed full where n: "n = (active, failed, full)" by (cases n)
  have nth: "in_order (fpu_units f ! i)" if "i < length (fpu_units f)" for i
    using assms(2) that by (simp add: units_ok_def)
  show ?thesis
    using assms unfolding source_step_def n
    by (auto simp: Let_def nth elim!: res_bind_InrE split: if_splits intro!: units_ok_set_unit push dest!: CalculateResult_state)
qed

text \<open>
  C6. Operations stay in order in the units of the floating-point unit. If every unit has a latency, its
  operations are in different stages, oldest first, and one that is not pipelined holds one operation at
  most, then so it is after any phase of a cycle, whatever the clients answer: an operation is
  never overtaken in its unit, and a unit holds no more operations than its latency.
\<close>

theorem units_in_order:
  assumes "FPU_DoPipeline e h cl now (f, a) = Inr (r, f', a')" "\<forall>u\<in>set (fpu_units f). in_order u"
  shows "\<forall>u\<in>set (fpu_units f'). in_order u \<and> length (fu_slots u) \<le> fu_latency u"
proof -
  have bound: "length (fu_slots u) \<le> fu_latency u" if "in_order u" for u
  proof -
    have "distinct (map fr_state (fu_slots u))"
      using that by (auto simp: in_order_def distinct_conv_nth sorted_wrt_iff_nth_less) (metis linorder_neqE_nat nat_neq_iff)
    then have "length (fu_slots u) = card (fr_state ` set (fu_slots u))" by (metis distinct_card length_map list.set_map)
    also have "\<dots> \<le> card {1..fu_latency u}" using that by (intro card_mono) (auto simp: in_order_def)
    finally show ?thesis by simp
  qed
  obtain ua uf full f1 a1 where units: "res_fold (unit_step e cl now) [0..<length (fpu_units f)] ((0, 0, 0), f, a) = Inr ((ua, uf, full), f1, a1)"
    and rest: "\<exists>sa sf full' f2 b. res_fold (source_step e h) [fpu_last_source f1..<fpu_last_source f1 + length (fpu_sources f1)] ((0, 0, full), f1)
        = Inr ((sa, sf, full'), f2) \<and> fpu_units f' = fpu_units f2"
    using assms(1) unfolding FPU_DoPipeline_def
    by (auto simp: COMMIT_def Let_def elim!: res_bind_InrE split: if_splits prod.splits)
  have "units_ok f1 \<and> length (fpu_units f1) = length (fpu_units f)"
    using res_fold_invariant [OF units, of "\<lambda>s. units_ok (fst (snd s)) \<and> length (fpu_units (fst (snd s))) = length (fpu_units f)"] assms(2)
    by (force simp: units_ok_def [symmetric] dest: unit_step_in_order unit_step_length)
  moreover obtain k f2 where sources: "res_fold (source_step e h) [fpu_last_source f1..<fpu_last_source f1 + length (fpu_sources f1)] ((0, 0, full), f1)
      = Inr (k, f2)" "fpu_units f' = fpu_units f2"
    using rest by blast
  moreover have "units_ok f2" if "units_ok f1"
    using res_fold_invariant [OF sources(1), of "\<lambda>s. units_ok (snd s)"] that by (force dest: source_step_in_order)
  ultimately show ?thesis using bound by (auto simp: units_ok_def)
qed

text \<open>A unit of three stages with an operation that has just begun, and another one in the queue.\<close>

definition fpu_env :: "CyclePhase \<Rightarrow> env" where
  "fpu_env ph = \<lparr>en_phase = ph, en_cycle = 9, en_clk = True, en_process = p_FPU\<rparr>"

definition host_example :: host_arithmetic where
  "host_example = \<lparr>ha_add = (\<lambda>x y. x), ha_sub = (\<lambda>x y. x), ha_mul = (\<lambda>x y. x), ha_div = (\<lambda>x y. x),
     ha_sqrt = (\<lambda>x. x), ha_single = ucast\<rparr>"

definition fpu_operation_example :: "nat \<Rightarrow> fpu_operation" where
  "fpu_operation_example i = \<lparr>fo_op = FPU_OP_MUL, fo_size = 8, fo_Rav = 0x3FF0000000000000, fo_Rbv = 0x4000000000000000,
     fo_Rc = \<lparr>ra_type = RT_FLOAT, ra_index = i\<rparr>\<rparr>"

definition fpu_example :: FPU where
  "fpu_example = \<lparr>fpu_active = \<lparr>r_cur = True, r_new = True, r_empty = False, r_cleared = False, r_assigned = False, r_activated = False\<rparr>,
     fpu_sources = [\<lparr>so_inputs = \<lparr>b_maxSize = 4, b_maxPushes = 1, b_data = [fpu_operation_example 3], b_new = [], b_popped = False,
       b_activated = False, b_stalls = 0, b_lastcycle = 0, b_totalsize = 0, b_maxeffsize = 0, b_cursize = 0\<rparr>, so_client = True,
       so_last_write = 0, so_last_unit = 0\<rparr>],
     fpu_units = [\<lparr>fu_latency = 3, fu_slots = [\<lparr>fr_address = \<lparr>ra_type = RT_FLOAT, ra_index = 2\<rparr>, fr_value = 0, fr_source = 0,
       fr_size = 8, fr_state = 1, fr_index = 0\<rparr>], fu_pipelined = True\<rparr>],
     fpu_mapping = (\<lambda>_. [0]), fpu_last_source = 0\<rparr>"

definition fpu_clients_example :: "unit fpu_clients" where
  "fpu_clients_example = \<lparr>cl_available = (\<lambda>_ _ a. Inr (True, a)), cl_write = (\<lambda>_ _ _ a. Inr (True, a)),
     cl_junk = \<lparr>rv_state = RST_EMPTY, rv_value = 0, rv_waiting = \<lparr>tq_head = 0, tq_tail = 0\<rparr>,
       rv_memory = \<lparr>mr_next = INVALID_REG, mr_fid = 0, mr_size = 0, mr_offset = 0, mr_sign_extend = False\<rparr>\<rparr>\<rparr>"

lemma fpu_example_run:
  "\<exists>r f. FPU_DoPipeline (fpu_env PHASE_COMMIT) host_example fpu_clients_example 9 (fpu_example, ()) = Inr (r, f, ())
     \<and> map fr_state (fu_slots (fpu_units f ! 0)) = [2, 1] \<and> fpu_units f \<noteq> []"
  by (simp add: FPU_DoPipeline_def fpu_env_def unit_step_def source_step_def fpu_example_def Let_def buffer_init_def
      buffer_Empty_def buffer_Front_def buffer_Pop_def assert_that_def unit_for_def unit_busy_def fpu_operation_example_def
      CalculateResult_def host_example_def MultiFloat_fromfloat_def fpu_set_unit_def fpu_set_source_def advance_slots_def
      COMMIT_def register_Write_def upt_rec)

theorem units_in_order_witness:
  "\<exists>r f. FPU_DoPipeline (fpu_env PHASE_COMMIT) host_example fpu_clients_example 9 (fpu_example, ()) = Inr (r, f, ())
     \<and> in_order (fpu_units f ! 0) \<and> map fr_state (fu_slots (fpu_units f ! 0)) = [2, 1]"
proof -
  obtain r f where run: "FPU_DoPipeline (fpu_env PHASE_COMMIT) host_example fpu_clients_example 9 (fpu_example, ()) = Inr (r, f, ())"
    and slots: "map fr_state (fu_slots (fpu_units f ! 0)) = [2, 1]" "fpu_units f \<noteq> []"
    using fpu_example_run by (elim exE conjE)
  have "\<forall>u\<in>set (fpu_units fpu_example). in_order u" by (simp add: fpu_example_def in_order_def)
  then have "\<forall>u\<in>set (fpu_units f). in_order u" using units_in_order [OF run] by blast
  then show ?thesis using run slots by auto
qed

end
