(* ===== verification/Stage_Execute.thy ===== *)
theory Stage_Execute
  imports Pipeline_Latches FPU_Unit Alpha_Multimedia
begin

text \<open>
  The execute stage (arch/drisc/ExecuteStage.cpp) and the instructions of the Alpha as it executes them
  (arch/drisc/ISA.mtalpha.cpp). The instructions on families and threads leave a message for the network in
  the latch. The output of the debugging instructions is not kept; a request to stop the simulator
  sets a flag and a request to end it is an exception. Breakpoints are not modelled.
\<close>

text \<open>The stage with its output latch and what it works on outside of the state of the core: the
  ancillary registers, the floating-point unit, if there is one, with the number of the source of the core,
  the number of cores, and whether a stop was requested.\<close>

record ExecuteStage =
  es_out :: ExecuteMemoryLatch
  es_flop :: u64
  es_op :: u64
  es_fpu :: "(FPU \<times> nat) option"
  es_asr :: "u64 list"
  es_apr :: "u64 list"
  es_gridSize :: u32
  es_stop :: bool

type_synonym exec_op = "ExecuteStage \<Rightarrow> (PipeAction \<times> ExecuteStage) core_op"

definition exec_done :: "PipeAction \<Rightarrow> exec_op" where
  "exec_done a st = ret (a, st)"

definition exec_commit :: "(ExecuteStage \<Rightarrow> ExecuteStage res) \<Rightarrow> exec_op \<Rightarrow> exec_op" where
  "exec_commit f k st = get_env (\<lambda>e. if en_phase e = PHASE_COMMIT then bnd (liftr (f st)) k else k st)"

definition out :: "(ExecuteMemoryLatch \<Rightarrow> ExecuteMemoryLatch) \<Rightarrow> exec_op \<Rightarrow> exec_op" where
  "out f k st = get_env (\<lambda>e. k (COMMIT (en_phase e) (\<lambda>st. st\<lparr>es_out := f (es_out st)\<rparr>) st))"

text \<open>A result, and the members of the output that are written together.\<close>

definition full_result :: "u64 \<Rightarrow> ExecuteMemoryLatch \<Rightarrow> ExecuteMemoryLatch" where
  "full_result x o' = o'\<lparr>em_Rcv := pv_full (pv_assign x (em_Rcv o'))\<rparr>"

definition pending_result :: "PipeValue \<Rightarrow> nat \<Rightarrow> ExecuteMemoryLatch \<Rightarrow> ExecuteMemoryLatch" where
  "pending_result junk n o' = o'\<lparr>em_Rcv := MAKE_PENDING_PIPEVALUE junk n\<rparr>"

definition message :: "RemoteMessage \<Rightarrow> ExecuteMemoryLatch \<Rightarrow> ExecuteMemoryLatch" where
  "message m o' = o'\<lparr>em_Rrc := m\<rparr>"

section \<open>Ancillary registers\<close>

text \<open>arch/drisc/AncillaryRegisterFile.cpp.\<close>

definition ar_ReadRegister :: "u64 \<Rightarrow> u64 list \<Rightarrow> u64 res" where
  "ar_ReadRegister i rs = (if unat i < length rs then Inr (rs ! unat i) else Inl InvalidArgumentException)"

definition ar_WriteRegister :: "u64 \<Rightarrow> u64 \<Rightarrow> u64 list \<Rightarrow> u64 list res" where
  "ar_WriteRegister i x rs = (if unat i < length rs then Inr (rs[unat i := x]) else Inl InvalidArgumentException)"

definition ASR_SYSCALL_BASE :: u64 where "ASR_SYSCALL_BASE = 3"
definition ASR_PID :: u64 where "ASR_PID = 10"

section \<open>Families and threads\<close>

text \<open>Whether the writes of the thread are done.\<close>

definition MemoryWriteBarrier :: "u32 \<Rightarrow> bool core_op" where
  "MemoryWriteBarrier tid = with_thread (unat tid) (\<lambda>th.
     if td_numPendingWrites (th_dependencies th) \<noteq> 0 then check (\<not> th_waitingForWrites th) (ret False) else ret True)"

text \<open>The thread is suspended at its instruction until its writes are done.\<close>

definition barrier :: "ReadExecuteLatch \<Rightarrow> ExecuteMemoryLatch \<Rightarrow> ExecuteMemoryLatch" where
  "barrier inp o' = o'\<lparr>cd_pc := cd_pc inp, em_suspend := SUSPEND_MEMORY_BARRIER, cd_swch := True, cd_kill := False,
     em_Rc := INVALID_REG\<rparr>"

definition ExecBundle :: "PipeValue \<Rightarrow> ReadExecuteLatch \<Rightarrow> u64 \<Rightarrow> bool \<Rightarrow> u64 \<Rightarrow> u32 \<Rightarrow> exec_op" where
  "ExecBundle junk inp addr indirect value reg st =
     bnd (liftr (if indirect then res_bind (ar_ReadRegister ASR_SYSCALL_BASE (es_asr st)) (\<lambda>b. Inr (addr + b)) else Inr addr)) (\<lambda>addr.
     bnd (QueueBundle addr value reg) (\<lambda>ok.
     if \<not> ok then exec_done PIPE_STALL st
     else if reg \<noteq> INVALID_REG_INDEX then out (pending_result junk (re_RcSize inp)) (exec_done PIPE_CONTINUE) st
     else exec_done PIPE_CONTINUE st))"

definition DEFAULT_CAPABILITY :: u64 where "DEFAULT_CAPABILITY = 0x1337"

text \<open>The place of an allocation: the place of the parent, the core itself, or the place that was given.\<close>

definition allocation_place :: "u32 \<Rightarrow> u32 \<Rightarrow> PlaceID \<Rightarrow> PlaceID res" where
  "allocation_place pid placeSize place =
     (if pl_size place = 0
      then if placeSize = 0 then Inl UndefinedBehaviour
        else Inr (place\<lparr>pl_size := placeSize, pl_pid := (pid div placeSize) * placeSize, pl_capability := DEFAULT_CAPABILITY\<rparr>)
      else if pl_size place = 1 \<and> pl_capability place = 0
      then Inr (place\<lparr>pl_pid := (if pl_pid place = 0 then pid else pl_pid place), pl_capability := DEFAULT_CAPABILITY\<rparr>)
      else Inr place)"

definition allocation_type :: "u64 \<Rightarrow> AllocationType" where
  "allocation_type flags = (if flags AND 3 = 0 then ALLOCATE_NORMAL else if flags AND 3 = 1 then ALLOCATE_EXACT
     else if flags AND 3 = 2 then ALLOCATE_BALANCED else ALLOCATE_SINGLE)"

definition ExecAllocate :: "PipeValue \<Rightarrow> ReadExecuteLatch \<Rightarrow> PlaceID \<Rightarrow> u32 \<Rightarrow> bool \<Rightarrow> bool \<Rightarrow> u64 \<Rightarrow> exec_op" where
  "ExecAllocate junk inp place reg suspend exclusive flags st = get_core (\<lambda>c.
     bnd (liftr (allocation_place (co_pid c) (re_placeSize inp) place)) (\<lambda>place.
     check (IsPowerOfTwo (pl_size place)) (check (pl_pid place mod pl_size place = 0)
     (if es_gridSize st \<le> pl_pid place then raise_error SimulationException
      else out (message (RMSG_ALLOCATE \<lparr>al_place = place, al_completion_pid = co_pid c, al_completion_reg = reg,
             al_type = (if exclusive then ALLOCATE_SINGLE else allocation_type flags), al_suspend = suspend,
             al_exclusive = exclusive, al_bundle = False, al_pc = 0, al_parameter = 0, al_index = 0\<rparr>)
           \<circ> pending_result junk (re_RcSize inp)) (exec_done PIPE_CONTINUE) st))))"

text \<open>The parameter and the index of the message are members that the code leaves as they were; they are
  read for bundles only. Here they are arbitrary values.\<close>

definition ExecCreate :: "PipeValue \<Rightarrow> ReadExecuteLatch \<Rightarrow> FID \<Rightarrow> u64 \<Rightarrow> u32 \<Rightarrow> exec_op" where
  "ExecCreate junk inp fid address completion st = bnd (MemoryWriteBarrier (cd_tid inp)) (\<lambda>ok.
     if \<not> ok then out (barrier inp) (exec_done PIPE_FLUSH) st
     else get_core (\<lambda>c. out (message (RMSG_CREATE \<lparr>cm_address = address, cm_fid = fid, cm_completion_pid = co_pid c,
         cm_completion_reg = completion, cm_bundle = False, cm_parameter = pv_bits junk, cm_index = rv_value (co_junk c)\<rparr>)
       \<circ> pending_result junk (re_RcSize inp)) (exec_done PIPE_CONTINUE) st))"

definition SetFamilyProperty :: "FID \<Rightarrow> FamilyProperty \<Rightarrow> u64 \<Rightarrow> exec_op" where
  "SetFamilyProperty fid p value = out (message (RMSG_SET_PROPERTY fid p value)) (exec_done PIPE_CONTINUE)"

definition ReadFamilyRegister :: "PipeValue \<Rightarrow> ReadExecuteLatch \<Rightarrow> RemoteRegType \<Rightarrow> RegType \<Rightarrow> FID \<Rightarrow> nat \<Rightarrow> exec_op" where
  "ReadFamilyRegister junk inp kind t fid reg =
     out (\<lambda>o'. pending_result junk (re_RcSize inp)
        (message (RMSG_FAM_READ fid kind (MAKE_REGADDR t (of_nat reg)) (of_nat (ra_index (em_Rc o')))) o'))
       (exec_done PIPE_CONTINUE)"

definition WriteFamilyRegister :: "ReadExecuteLatch \<Rightarrow> RemoteRegType \<Rightarrow> RegType \<Rightarrow> FID \<Rightarrow> nat \<Rightarrow> exec_op" where
  "WriteFamilyRegister inp kind t fid reg st = get_core (\<lambda>c.
     exec_commit (\<lambda>st. assert_that (pv_size (re_Rbv inp) = INTEGER_SIZE)
       (res_bind (PipeValueToRegValue (co_junk c) t (re_Rbv inp)) (\<lambda>v.
        Inr (st\<lparr>es_out := message (RMSG_FAM_WRITE fid kind (MAKE_REGADDR t (of_nat reg)) v) (es_out st)\<rparr>))))
     (exec_done PIPE_CONTINUE) st)"

definition null_fid :: "FID \<Rightarrow> bool" where
  "null_fid fid \<longleftrightarrow> f_pid fid = 0 \<and> f_lfid fid = 0 \<and> f_capability fid = 0"

definition ExecSync :: "PipeValue \<Rightarrow> ReadExecuteLatch \<Rightarrow> FID \<Rightarrow> exec_op" where
  "ExecSync junk inp fid st = check (ra_type (re_Rc inp) = RT_INTEGER)
     (if \<not> reg_ok (re_Rc inp) then raise_error InvalidArgumentException
      else if null_fid fid then out (full_result 0) (exec_done PIPE_CONTINUE) st
      else out (message (RMSG_SYNC fid (of_nat (ra_index (re_Rc inp)))) \<circ> pending_result junk (re_RcSize inp))
        (exec_done PIPE_CONTINUE) st)"

definition ExecDetach :: "FID \<Rightarrow> exec_op" where
  "ExecDetach fid = (if null_fid fid then exec_done PIPE_CONTINUE else out (message (RMSG_DETACH fid)) (exec_done PIPE_CONTINUE))"

definition ExecBreak :: "ReadExecuteLatch \<Rightarrow> exec_op" where
  "ExecBreak inp st = get_core (\<lambda>c. out (message (RMSG_BREAK (co_pid c) (unat (cd_fid inp)))) (exec_done PIPE_CONTINUE) st)"

section \<open>Debugging instructions\<close>

text \<open>They run in the commit phase. Bits 0 to 5 of the stream choose the action, bits 6 and 7 the command.\<close>

definition ExecStatusAction :: "nat \<Rightarrow> exec_op" where
  "ExecStatusAction command st = (if command = 0 then exec_done PIPE_CONTINUE st
     else if command = 1 then exec_done PIPE_CONTINUE (st\<lparr>es_stop := True\<rparr>)
     else raise_error SimulationException)"

definition on_memadmin :: "(virtual_memory option \<Rightarrow> virtual_memory res) \<Rightarrow> exec_op" where
  "on_memadmin f st = bnd (get_core (\<lambda>c. liftr (f (co_memadmin c)))) (\<lambda>vm.
     set_core (\<lambda>c. c\<lparr>co_memadmin := Some vm\<rparr>) (exec_done PIPE_CONTINUE st))"

definition ExecMemoryControl :: "u64 \<Rightarrow> nat \<Rightarrow> u64 \<Rightarrow> exec_op" where
  "ExecMemoryControl value command flags st =
     (let req_size = (push_bit (unat (flags AND 7) + 12) 1 :: u64) in
      if command = 0 then on_memadmin (\<lambda>m. core_MapMemory m value req_size 0) st
      else if command = 1 then on_memadmin (\<lambda>m. core_UnmapMemory m value req_size) st
      else if command = 2
      then bnd (liftr (ar_ReadRegister ASR_PID (es_asr st))) (\<lambda>pid.
        on_memadmin (\<lambda>m. core_MapMemory m value req_size (unat pid)) st)
      else if flags = 0
      then bnd (liftr (ar_WriteRegister ASR_PID value (es_asr st))) (\<lambda>rs. exec_done PIPE_CONTINUE (st\<lparr>es_asr := rs\<rparr>))
      else if flags = 1 then on_memadmin (\<lambda>m. core_UnmapAll m (unat value)) st
      else exec_done PIPE_CONTINUE st)"

definition ExecDebug :: "u64 \<Rightarrow> u64 \<Rightarrow> exec_op" where
  "ExecDebug value stream st =
     (let command = unat (drop_bit 6 stream AND 3) in
      if stream AND 0x30 = 0x10 then ExecStatusAction command st
      else if stream AND 0x38 = 0x8 then ExecMemoryControl value command (stream AND 7) st
      else exec_done PIPE_CONTINUE st)"

end
