(* ===== verification/Stage_Execute_Alpha.thy ===== *)
theory Stage_Execute_Alpha
  imports Stage_Execute
begin

text \<open>
  The instructions of the Alpha in the execute stage (\<open>ExecuteInstruction\<close> of arch/drisc/ISA.mtalpha.cpp), by
  their formats, and the cycle of the stage (arch/drisc/ExecuteStage.cpp). The shift of a displacement to the
  left is the one of two's complement, as compilers do it.
\<close>

section \<open>Branches and memory\<close>

text \<open>The address that a branch stores: the control word at the start of a line is skipped.\<close>

definition return_address :: "bool \<Rightarrow> u64 \<Rightarrow> u64 \<Rightarrow> u64" where
  "return_address legacy lineSize next = (if \<not> legacy \<and> next AND (lineSize - 1) = 0 then next + 4 else next)"

definition exec_branch :: "PipeValue \<Rightarrow> ReadExecuteLatch \<Rightarrow> u64 \<Rightarrow> exec_op" where
  "exec_branch junk inp rav st = get_core (\<lambda>c.
     let next = cd_pc inp + 4; target = next + scast (re_displacement inp) * 4 in
     if re_opcode inp = A_OP_CREATE_D
     then bnd (liftr (UnpackFID (co_bits c) rav)) (\<lambda>fid. ExecCreate junk inp fid target (of_nat (ra_index (re_Rc inp))) st)
     else bnd (liftr (BranchTaken (re_opcode inp) (re_Rav inp))) (\<lambda>taken.
       if \<not> taken then exec_done PIPE_CONTINUE st
       else out (if re_opcode inp = A_OP_BR \<or> re_opcode inp = A_OP_BSR
           then full_result (return_address (re_legacy inp) (ic_lineSize (co_icache c)) next) else (\<lambda>o'. o'))
         (out (\<lambda>o'. o'\<lparr>cd_kill := False\<rparr>)
         (if target = next then exec_done PIPE_CONTINUE
          else out (\<lambda>o'. o'\<lparr>cd_pc := target, cd_swch := True\<rparr>) (exec_done PIPE_FLUSH))) st))"

definition exec_jump :: "PipeValue \<Rightarrow> ReadExecuteLatch \<Rightarrow> u64 \<Rightarrow> u64 \<Rightarrow> exec_op" where
  "exec_jump junk inp rav rbv st = get_core (\<lambda>c.
     let next = cd_pc inp + 4; target = rbv AND - 4 in
     if re_opcode inp = A_OP_CREATE_I
     then bnd (liftr (UnpackFID (co_bits c) rav)) (\<lambda>fid. ExecCreate junk inp fid target (of_nat (ra_index (re_Rc inp))) st)
     else out (full_result (return_address (re_legacy inp) (ic_lineSize (co_icache c)) next))
       (out (\<lambda>o'. o'\<lparr>cd_pc := target, cd_swch := True, cd_kill := False\<rparr>) (exec_done PIPE_FLUSH)) st)"

definition access_size :: "nat \<Rightarrow> nat \<Rightarrow> nat" where
  "access_size opcode n = (if opcode = A_OP_STB \<or> opcode = A_OP_LDBU then 1
     else if opcode = A_OP_STW \<or> opcode = A_OP_LDWU then 2
     else if opcode \<in> {A_OP_STS, A_OP_LDS, A_OP_STF, A_OP_LDF, A_OP_STL, A_OP_LDL} then 4
     else if opcode \<in> {A_OP_STQ_U, A_OP_LDQ_U, A_OP_STT, A_OP_LDT, A_OP_STG, A_OP_LDG, A_OP_STQ, A_OP_LDQ} then 8
     else n)"

definition exec_memory :: "ReadExecuteLatch \<Rightarrow> u64 \<Rightarrow> exec_op" where
  "exec_memory inp rbv = out (\<lambda>o'.
     if re_opcode inp = A_OP_LDAH then full_result (rbv + scast (push_bit 16 (re_displacement inp))) o'
     else if re_opcode inp = A_OP_LDA then full_result (rbv + scast (re_displacement inp)) o'
     else let address = rbv + scast (re_displacement inp);
              address = (if re_opcode inp = A_OP_STQ_U \<or> re_opcode inp = A_OP_LDQ_U then address AND NOT 7 else address);
              o' = o'\<lparr>em_address := address, em_sign_extend := False, em_size := access_size (re_opcode inp) (em_size o')\<rparr> in
       if em_size o' = 0 then o'
       else if re_format inp = IFORMAT_MEM_LOAD then o'\<lparr>em_Rcv := (em_Rcv o')\<lparr>pv_state := RST_INVALID\<rparr>\<rparr>
       else o'\<lparr>em_Rcv := re_Rav inp, em_Ra := re_Ra inp\<rparr>) (exec_done PIPE_CONTINUE)"

section \<open>Microthreading\<close>

text \<open>Values of the core and of the thread: the state is set before the value, which may be undefined.\<close>

definition get_value :: "BitCounts \<Rightarrow> u32 \<Rightarrow> ReadExecuteLatch \<Rightarrow> u64 \<Rightarrow> ExecuteStage \<Rightarrow> u64 option res" where
  "get_value m pid inp rbv st = (let f = re_function inp; tls = GetTLSAddress m pid (cd_tid inp) in
     if f = A_UTHREAD_LDBP then res_bind tls (\<lambda>a. Inr (Some a))
     else if f = A_UTHREAD_LDFP then res_bind tls (\<lambda>a. res_bind (GetTLSSize m) (\<lambda>n. Inr (Some (a + n))))
     else if f = A_UTHREAD_GETFID then Inr (Some (ucast (cd_fid inp)))
     else if f = A_UTHREAD_GETTID then Inr (Some (ucast (cd_tid inp)))
     else if f = A_UTHREAD_GETCID then Inr (Some (ucast pid))
     else if f = A_UTHREAD_GETPID
     then res_bind (PackPlace m \<lparr>pl_capability = DEFAULT_CAPABILITY, pl_size = re_placeSize inp,
       pl_pid = pid AND - re_placeSize inp\<rparr>) (\<lambda>v. Inr (Some v))
     else if f = A_UTHREAD_GETASR then res_bind (ar_ReadRegister rbv (es_asr st)) (\<lambda>v. Inr (Some v))
     else if f = A_UTHREAD_GETAPR then res_bind (ar_ReadRegister rbv (es_apr st)) (\<lambda>v. Inr (Some v))
     else Inr None)"

definition exec_get :: "ReadExecuteLatch \<Rightarrow> u64 \<Rightarrow> exec_op" where
  "exec_get inp rbv st = get_core (\<lambda>c. exec_commit (\<lambda>st. res_bind (get_value (co_bits c) (co_pid c) inp rbv st) (\<lambda>v.
     Inr (st\<lparr>es_out := (case v of Some x \<Rightarrow> full_result x (es_out st)
       | None \<Rightarrow> (es_out st)\<lparr>em_Rcv := pv_full (em_Rcv (es_out st))\<rparr>)\<rparr>))) (exec_done PIPE_CONTINUE) st)"

text \<open>\<open>first\<close> and then \<open>k\<close>, for calls whose result is not used.\<close>

definition exec_then :: "exec_op \<Rightarrow> exec_op \<Rightarrow> exec_op" where
  "exec_then m k st = bnd (m st) (\<lambda>(_, st). k st)"

definition exec_control :: "ReadExecuteLatch \<Rightarrow> u64 \<Rightarrow> u64 \<Rightarrow> exec_op" where
  "exec_control inp rav rbv = out (\<lambda>o'. o'\<lparr>em_Rc := INVALID_REG\<rparr>)
     (if re_function inp = A_UTHREAD_BREAK then exec_then (ExecBreak inp) (exec_done PIPE_CONTINUE)
      else if re_function inp = A_UTHREAD_PRINT
      then (\<lambda>st. get_env (\<lambda>e. if en_phase e = PHASE_COMMIT then exec_then (ExecDebug rav rbv) (exec_done PIPE_CONTINUE) st
                              else exec_done PIPE_CONTINUE st))
      else exec_done PIPE_CONTINUE)"

definition exec_remote :: "PipeValue \<Rightarrow> ReadExecuteLatch \<Rightarrow> FID \<Rightarrow> u64 \<Rightarrow> exec_op" where
  "exec_remote junk inp fid rbv = (let f = re_function inp; i = re_regofs inp in
     if f = A_UTHREAD_SETSTART then SetFamilyProperty fid FAMPROP_START rbv
     else if f = A_UTHREAD_SETLIMIT then SetFamilyProperty fid FAMPROP_LIMIT rbv
     else if f = A_UTHREAD_SETSTEP then SetFamilyProperty fid FAMPROP_STEP rbv
     else if f = A_UTHREAD_SETBLOCK then SetFamilyProperty fid FAMPROP_BLOCK rbv
     else if f = A_UTHREAD_PUTG then WriteFamilyRegister inp RRT_GLOBAL RT_INTEGER fid i
     else if f = A_UTHREAD_PUTS then WriteFamilyRegister inp RRT_FIRST_DEPENDENT RT_INTEGER fid i
     else if f = A_UTHREAD_DETACH then ExecDetach fid
     else if f = A_UTHREAD_SYNC then ExecSync junk inp fid
     else if f = A_UTHREAD_GETG then ReadFamilyRegister junk inp RRT_GLOBAL RT_INTEGER fid i
     else if f = A_UTHREAD_GETS then ReadFamilyRegister junk inp RRT_LAST_SHARED RT_INTEGER fid i
     else exec_done PIPE_CONTINUE)"

definition exec_uthread :: "PipeValue \<Rightarrow> ReadExecuteLatch \<Rightarrow> u64 \<Rightarrow> u64 \<Rightarrow> exec_op" where
  "exec_uthread junk inp rav rbv st = (let f = re_function inp; rc = of_nat (ra_index (re_Rc inp)) in
     if f AND A_UTHREAD_DC_MASK = A_UTHREAD_DC_VALUE then exec_get inp rbv st
     else if f AND A_UTHREAD_DZ_MASK = A_UTHREAD_DZ_VALUE then exec_control inp rav rbv st
     else if f AND A_UTHREAD_REMOTE_MASK = A_UTHREAD_REMOTE_VALUE
     then get_core (\<lambda>c. bnd (liftr (UnpackFID (co_bits c) rav)) (\<lambda>fid. exec_remote junk inp fid rbv st))
     else if f AND A_UTHREAD_ALLOC_MASK = A_UTHREAD_ALLOC_VALUE
     then get_core (\<lambda>c. bnd (liftr (UnpackPlace (co_bits c) rav)) (\<lambda>place.
       ExecAllocate junk inp place rc (f AND A_UTHREAD_ALLOC_S_MASK \<noteq> 0) (f AND A_UTHREAD_ALLOC_X_MASK \<noteq> 0) rbv st))
     else if f AND A_UTHREAD_CREB_MASK = A_UTHREAD_CREB_VALUE
     then ExecBundle junk inp rav (f = A_CREATE_B_I) rbv rc st
     else exec_done PIPE_CONTINUE st)"

text \<open>The print of a float converts it and has no other effect.\<close>

definition exec_uthreadf :: "PipeValue \<Rightarrow> ReadExecuteLatch \<Rightarrow> u64 \<Rightarrow> exec_op" where
  "exec_uthreadf junk inp rav st = (let f = re_function inp; i = re_regofs inp in
     if f = A_UTHREADF_PRINT
     then exec_commit (\<lambda>st. res_bind (MultiFloat_tofloat (pv_bits (re_Rbv inp)) (pv_size (re_Rbv inp))) (\<lambda>_. Inr st))
       (exec_done PIPE_CONTINUE) st
     else get_core (\<lambda>c. bnd (liftr (UnpackFID (co_bits c) rav)) (\<lambda>fid.
       (if f = A_UTHREADF_PUTG then WriteFamilyRegister inp RRT_GLOBAL RT_FLOAT fid i
        else if f = A_UTHREADF_PUTS then WriteFamilyRegister inp RRT_FIRST_DEPENDENT RT_FLOAT fid i
        else if f = A_UTHREADF_GETG then ReadFamilyRegister junk inp RRT_GLOBAL RT_FLOAT fid i
        else if f = A_UTHREADF_GETS then ReadFamilyRegister junk inp RRT_LAST_SHARED RT_FLOAT fid i
        else exec_done PIPE_CONTINUE) st)))"

section \<open>Operations\<close>

definition exec_function :: "nat \<Rightarrow> (PipeValue \<Rightarrow> PipeValue \<Rightarrow> PipeValue \<Rightarrow> nat \<Rightarrow> (bool \<times> PipeValue) res) option" where
  "exec_function opcode = (if opcode = A_OP_INTA then Some ExecuteINTA else if opcode = A_OP_INTL then Some ExecuteINTL
     else if opcode = A_OP_INTS then Some ExecuteINTS else if opcode = A_OP_INTM then Some ExecuteINTM
     else if opcode = A_OP_FLTV then Some ExecuteFLTV else if opcode = A_OP_FLTL then Some ExecuteFLTL
     else if opcode = A_OP_FPTI then Some ExecuteFPTI else if opcode = A_OP_ITFP then Some ExecuteITFP
     else if opcode = A_OP_FLTI then Some ExecuteFLTI else None)"

text \<open>The names of the operations that the floating-point unit executes: those of singles and doubles,
  with their suffixes.\<close>

definition suffixed :: "string \<Rightarrow> string list \<Rightarrow> string list" where
  "suffixed name sufs = name # map (\<lambda>s. name @ ''_'' @ s) sufs"

definition arith_suffixes :: "string list" where
  "arith_suffixes = [''C'', ''D'', ''M'', ''SU'', ''SUC'', ''SUD'', ''SUI'', ''SUIC'', ''SUIM'', ''SUM'', ''U'', ''UC'', ''UD'', ''UM'']"

definition sqrt_names :: "string list" where
  "sqrt_names = suffixed ''SQRTS'' [''C'', ''D'', ''M'', ''SU'', ''SUC'', ''SUD'', ''SUIC'', ''SUID'', ''SUIM'', ''SUM'', ''SUU'',
       ''U'', ''UC'', ''UD'', ''UM'']
     @ suffixed ''SQRTT'' [''C'', ''D'', ''M'', ''SU'', ''SUC'', ''SUD'', ''SUI'', ''SUIC'', ''SUID'', ''SUIM'', ''SUM'',
       ''U'', ''UC'', ''UD'', ''UM'']"

definition arith_names :: "string \<Rightarrow> string list" where
  "arith_names op = suffixed (op @ ''S'') arith_suffixes @ suffixed (op @ ''T'') arith_suffixes"

definition fpu_operation_of :: "nat \<Rightarrow> nat \<Rightarrow> FPUOperation" where
  "fpu_operation_of opcode f =
     (if opcode = A_OP_ITFP then (if f \<in> set (codes_of ITFP_codes sqrt_names) then FPU_OP_SQRT else FPU_OP_NONE)
      else if opcode = A_OP_FLTI
      then if f \<in> set (codes_of FLTI_codes (arith_names ''ADD'')) then FPU_OP_ADD
        else if f \<in> set (codes_of FLTI_codes (arith_names ''SUB'')) then FPU_OP_SUB
        else if f \<in> set (codes_of FLTI_codes (arith_names ''MUL'')) then FPU_OP_MUL
        else if f \<in> set (codes_of FLTI_codes (arith_names ''DIV'')) then FPU_OP_DIV
        else FPU_OP_NONE
      else FPU_OP_NONE)"

definition exec_fpu :: "PipeValue \<Rightarrow> ReadExecuteLatch \<Rightarrow> FPUOperation \<Rightarrow> exec_op" where
  "exec_fpu junk inp fop st = check (fop \<noteq> FPU_OP_NONE) (case es_fpu st of
       None \<Rightarrow> raise_error AssertionFailure
     | Some (fpu, source) \<Rightarrow>
         bnd (liftr (MultiFloat_tofloat (pv_bits (re_Rav inp)) (pv_size (re_Rav inp)))) (\<lambda>rav.
         bnd (liftr (MultiFloat_tofloat (pv_bits (re_Rbv inp)) (pv_size (re_Rbv inp)))) (\<lambda>rbv.
         get_env (\<lambda>e. bnd (liftr (QueueOperation e source fop 8 rav rbv (re_Rc inp) fpu)) (\<lambda>(ok, fpu).
         let st = st\<lparr>es_fpu := Some (fpu, source)\<rparr> in
         if \<not> ok then exec_done PIPE_STALL st
         else exec_commit (\<lambda>st. Inr (st\<lparr>es_out := pending_result junk (pv_size (em_Rcv (es_out st))) (es_out st),
                es_flop := es_flop st + 1\<rparr>)) (exec_done PIPE_CONTINUE) st)))))"

text \<open>The value that the function is given is a new one, of the size of the result.\<close>

definition exec_operation :: "PipeValue \<Rightarrow> ReadExecuteLatch \<Rightarrow> exec_op" where
  "exec_operation junk inp st = (case exec_function (re_opcode inp) of
       None \<Rightarrow> raise_error UndefinedBehaviour
     | Some f \<Rightarrow> bnd (liftr (f (junk\<lparr>pv_state := RST_INVALID, pv_size := re_RcSize inp\<rparr>) (re_Rav inp) (re_Rbv inp) (re_function inp))) (\<lambda>(ok, rcv).
         if ok then out (\<lambda>o'. o'\<lparr>em_Rcv := rcv\<rparr>) (exec_done PIPE_CONTINUE) st
         else exec_fpu junk inp (fpu_operation_of (re_opcode inp) (re_function inp)) st))"

definition A_MISCFUNC_MB :: nat where "A_MISCFUNC_MB = 0x4000"
definition A_MISCFUNC_WMB :: nat where "A_MISCFUNC_WMB = 0x4400"
definition A_MISCFUNC_RPCC :: nat where "A_MISCFUNC_RPCC = 0xC000"

text \<open>\<open>now\<close> is the cycle counter of the clock of the core. A barrier always flushes.\<close>

definition exec_misc :: "u64 \<Rightarrow> ReadExecuteLatch \<Rightarrow> exec_op" where
  "exec_misc now inp st =
     (if re_function inp = A_MISCFUNC_MB \<or> re_function inp = A_MISCFUNC_WMB
      then bnd (MemoryWriteBarrier (cd_tid inp)) (\<lambda>ok.
        (if ok then exec_done PIPE_FLUSH else out (barrier inp) (exec_done PIPE_FLUSH)) st)
      else if re_function inp = A_MISCFUNC_RPCC then out (full_result now) (exec_done PIPE_CONTINUE) st
      else exec_done PIPE_CONTINUE st)"

definition ExecuteInstruction :: "PipeValue \<Rightarrow> u64 \<Rightarrow> ReadExecuteLatch \<Rightarrow> exec_op" where
  "ExecuteInstruction junk now inp st =
     bnd (liftr (pv_integer (re_Rav inp))) (\<lambda>rav. bnd (liftr (pv_integer (re_Rbv inp))) (\<lambda>rbv.
     (case re_format inp of
        IFORMAT_BRA \<Rightarrow> exec_branch junk inp rav
      | IFORMAT_JUMP \<Rightarrow> exec_jump junk inp rav rbv
      | IFORMAT_MEM_LOAD \<Rightarrow> exec_memory inp rbv
      | IFORMAT_MEM_STORE \<Rightarrow> exec_memory inp rbv
      | IFORMAT_OP \<Rightarrow> (if re_opcode inp = A_OP_UTHREAD then exec_uthread junk inp rav rbv
          else if re_opcode inp = A_OP_UTHREADF then exec_uthreadf junk inp rav else exec_operation junk inp)
      | IFORMAT_FPOP \<Rightarrow> (if re_opcode inp = A_OP_UTHREAD then exec_uthread junk inp rav rbv
          else if re_opcode inp = A_OP_UTHREADF then exec_uthreadf junk inp rav else exec_operation junk inp)
      | IFORMAT_MISC \<Rightarrow> exec_misc now inp
      | IFORMAT_PAL \<Rightarrow> (\<lambda>st. raise_error IllegalInstruction)
      | IFORMAT_INVALID \<Rightarrow> (\<lambda>st. raise_error IllegalInstruction)) st))"

section \<open>The stage\<close>

text \<open>The output at the start of a cycle, for an operand that is not full and for an instruction.\<close>

definition execute_start :: "ReadExecuteLatch \<Rightarrow> ExecuteMemoryLatch \<Rightarrow> ExecuteMemoryLatch" where
  "execute_start inp o' = (copy_common inp o')\<lparr>em_placeSize := re_placeSize inp, em_address := 0, em_size := 0, em_Rrc := RMSG_NONE\<rparr>"

definition suspend_output :: "ReadExecuteLatch \<Rightarrow> ExecuteMemoryLatch \<Rightarrow> ExecuteMemoryLatch" where
  "suspend_output inp o' = o'\<lparr>em_Rc := re_Rc inp, em_Rcv := re_Rav inp, cd_swch := True, cd_kill := False,
     em_suspend := SUSPEND_MISSING_DATA\<rparr>"

definition instruction_output :: "ReadExecuteLatch \<Rightarrow> ExecuteMemoryLatch \<Rightarrow> ExecuteMemoryLatch" where
  "instruction_output inp o' = o'\<lparr>cd_pc := cd_pc inp + 4, em_Rc := re_Rc inp, em_suspend := SUSPEND_NONE,
     em_Rcv := (em_Rcv o')\<lparr>pv_state := RST_INVALID, pv_size := re_RcSize inp\<rparr>\<rparr>"

definition ExecuteStage_OnCycle :: "PipeValue \<Rightarrow> u64 \<Rightarrow> ReadExecuteLatch \<Rightarrow> exec_op" where
  "ExecuteStage_OnCycle junk now inp = out (execute_start inp)
     (if pv_state (re_Rav inp) \<noteq> RST_FULL then out (suspend_output inp) (exec_done PIPE_FLUSH)
      else out (instruction_output inp) (\<lambda>st. bnd (ExecuteInstruction junk now inp st) (\<lambda>(action, st).
        if action = PIPE_STALL then exec_done PIPE_STALL st
        else exec_commit (\<lambda>st. Inr (st\<lparr>es_op := es_op st + 1,
            es_out := (if action = PIPE_FLUSH then (es_out st)\<lparr>cd_swch := True, cd_kill := False\<rparr> else es_out st)\<rparr>))
          (exec_done action) st)))"

end
