(* ===== verification/Stage_Memory.thy ===== *)
theory Stage_Memory
  imports Pipeline_Latches
begin

text \<open>
  The memory stage (arch/drisc/MemoryStage.cpp): a store or a load goes to the devices of the core if its
  address is registered there, and to the data cache otherwise. The devices and the data cache are
  arguments, operations on a state of their own and on the core. Breakpoints are not modelled.
\<close>

datatype ExtendedResult = E_FAILED | E_DELAYED | E_ACTIVE | E_SUCCESS

text \<open>What the stage calls: writes return whether they were accepted; a read also returns the bytes
  that it found, and the one of the cache the register that waited for the line before.\<close>

record 'x memory_unit =
  mu_lineSize :: u64
  mu_IsWrite :: "u64 \<Rightarrow> nat \<Rightarrow> bool"
  mu_IsRead :: "u64 \<Rightarrow> nat \<Rightarrow> bool"
  mu_IOWrite :: "u64 \<Rightarrow> u8 list \<Rightarrow> nat \<Rightarrow> nat \<Rightarrow> nat \<Rightarrow> 'x \<Rightarrow> (Result \<times> 'x) core_op"
  mu_IORead :: "u64 \<Rightarrow> nat \<Rightarrow> nat \<Rightarrow> nat \<Rightarrow> RegAddr \<Rightarrow> 'x \<Rightarrow> (Result \<times> u8 list \<times> 'x) core_op"
  mu_Write :: "u64 \<Rightarrow> u8 list \<Rightarrow> nat \<Rightarrow> nat \<Rightarrow> nat \<Rightarrow> 'x \<Rightarrow> (ExtendedResult \<times> 'x) core_op"
  mu_Read :: "u64 \<Rightarrow> nat \<Rightarrow> RegAddr \<Rightarrow> 'x \<Rightarrow> (Result \<times> u8 list \<times> RegAddr \<times> 'x) core_op"

record MemoryStage =
  ms_loads :: u64
  ms_stores :: u64
  ms_load_bytes :: u64
  ms_store_bytes :: u64

text \<open>The value that goes to the next stage and the numbers of bytes that were loaded and stored, or
  an action that ends the cycle.\<close>

datatype memory_result = Done PipeValue nat nat | Stop PipeAction

type_synonym 'x memory_op = "'x \<Rightarrow> (memory_result \<times> 'x) core_op"

definition memory_store :: "Target \<Rightarrow> 'x memory_unit \<Rightarrow> ExecuteMemoryLatch \<Rightarrow> 'x memory_op" where
  "memory_store t mu inp x =
     bnd (liftr (pv_get (ra_type (em_Rc inp)) (em_Rcv inp))) (\<lambda>value.
     let data = SerializeRegister t (ra_type (em_Rc inp)) value (em_size inp); fid = unat (cd_fid inp); tid = unat (cd_tid inp);
         stored = Done ((em_Rcv inp)\<lparr>pv_state := RST_INVALID\<rparr>) 0 (em_size inp) in
     if mu_IsWrite mu (em_address inp) (em_size inp)
     then bnd (mu_IOWrite mu (em_address inp) data (em_size inp) fid tid x) (\<lambda>(r, x).
       ret (if r = FAILED then Stop PIPE_STALL else stored, x))
     else bnd (mu_Write mu (em_address inp) data (em_size inp) fid tid x) (\<lambda>(r, x).
       if r = E_ACTIVE then ret (Stop PIPE_DELAY, x)
       else if r = E_FAILED then ret (Stop PIPE_STALL, x)
       else bnd (IncreaseThreadDependency tid THREADDEP_OUTSTANDING_WRITES) (\<lambda>ok.
         ret (if ok then stored else Stop PIPE_STALL, x))))"

text \<open>A load that waits for its data: the request is remembered in the register.\<close>

definition pending_load :: "PipeValue \<Rightarrow> ExecuteMemoryLatch \<Rightarrow> RegAddr \<Rightarrow> nat \<Rightarrow> PipeValue" where
  "pending_load junk inp next offset = (let v = MAKE_PENDING_PIPEVALUE junk (pv_size (em_Rcv inp)) in
     v\<lparr>pv_memory := \<lparr>mr_next = next, mr_fid = unat (cd_fid inp), mr_size = em_size inp, mr_offset = offset,
        mr_sign_extend = em_sign_extend inp\<rparr>\<rparr>)"

text \<open>The value of a load that found its data.\<close>

definition sign_extended :: "nat \<Rightarrow> u64 \<Rightarrow> u64" where
  "sign_extended n v = signed_drop_bit ((8 - n) * 8) (push_bit ((8 - n) * 8) v)"

definition loaded_value :: "Target \<Rightarrow> ExecuteMemoryLatch \<Rightarrow> u8 list \<Rightarrow> PipeValue res" where
  "loaded_value t inp data =
     (let v = UnserializeRegister t (ra_type (em_Rc inp)) data; v = (if em_sign_extend inp then sign_extended (em_size inp) v else v) in
      pv_set (ra_type (em_Rc inp)) v ((em_Rcv inp)\<lparr>pv_state := RST_FULL\<rparr>))"

definition delay_load :: "PipeValue \<Rightarrow> ExecuteMemoryLatch \<Rightarrow> RegAddr \<Rightarrow> nat \<Rightarrow> 'x memory_op" where
  "delay_load junk inp next offset x = bnd (OnMemoryRead (unat (cd_fid inp))) (\<lambda>ok.
     ret (if ok then Done (pending_load junk inp next offset) (em_size inp) 0 else Stop PIPE_STALL, x))"

definition memory_load :: "Target \<Rightarrow> PipeValue \<Rightarrow> 'x memory_unit \<Rightarrow> ExecuteMemoryLatch \<Rightarrow> 'x memory_op" where
  "memory_load t junk mu inp x =
     (let found = (\<lambda>data x. bnd (liftr (loaded_value t inp data)) (\<lambda>v. ret (Done v (em_size inp) 0, x))) in
      if mu_IsRead mu (em_address inp) (em_size inp)
      then bnd (mu_IORead mu (em_address inp) (em_size inp) (unat (cd_fid inp)) (unat (cd_tid inp)) (em_Rc inp) x) (\<lambda>(r, data, x).
        case r of FAILED \<Rightarrow> ret (Stop PIPE_STALL, x) | DELAYED \<Rightarrow> delay_load junk inp INVALID_REG 0 x | SUCCESS \<Rightarrow> found data x)
      else bnd (mu_Read mu (em_address inp) (em_size inp) (em_Rc inp) x) (\<lambda>(r, data, next, x).
        case r of FAILED \<Rightarrow> ret (Stop PIPE_STALL, x)
          | DELAYED \<Rightarrow> delay_load junk inp next (unat (em_address inp mod mu_lineSize mu)) x
          | SUCCESS \<Rightarrow> found data x))"

text \<open>Addresses 4 to 7 are special: they make the register empty.\<close>

definition memory_operation :: "Target \<Rightarrow> PipeValue \<Rightarrow> 'x memory_unit \<Rightarrow> ExecuteMemoryLatch \<Rightarrow> 'x memory_op" where
  "memory_operation t junk mu inp x =
     (if em_size inp = 0 then ret (Done (em_Rcv inp) 0 0, x)
      else check (em_size inp \<le> 8)
       (if pv_state (em_Rcv inp) = RST_FULL then memory_store t mu inp x
        else if \<not> reg_ok (em_Rc inp) then ret (Done (em_Rcv inp) 0 0, x)
        else if 4 \<le> em_address inp \<and> em_address inp < 8
        then ret (Done (MAKE_EMPTY_PIPEVALUE junk (pv_size (em_Rcv inp))) 0 0, x)
        else memory_load t junk mu inp x))"

definition memory_output :: "ExecuteMemoryLatch \<Rightarrow> PipeValue \<Rightarrow> MemoryWritebackLatch \<Rightarrow> MemoryWritebackLatch" where
  "memory_output inp rcv o' = (copy_common inp o')\<lparr>mw_suspend := em_suspend inp, mw_Rc := em_Rc inp, mw_Rrc := em_Rrc inp,
     mw_Rcv := rcv\<rparr>"

definition count_access :: "nat \<Rightarrow> nat \<Rightarrow> MemoryStage \<Rightarrow> MemoryStage" where
  "count_access inload instore st = st\<lparr>ms_loads := ms_loads st + of_bool (inload \<noteq> 0), ms_load_bytes := ms_load_bytes st + of_nat inload,
     ms_stores := ms_stores st + of_bool (instore \<noteq> 0), ms_store_bytes := ms_store_bytes st + of_nat instore\<rparr>"

definition MemoryStage_OnCycle :: "Target \<Rightarrow> PipeValue \<Rightarrow> 'x memory_unit \<Rightarrow> ExecuteMemoryLatch \<Rightarrow> MemoryStage
    \<Rightarrow> MemoryWritebackLatch \<Rightarrow> 'x \<Rightarrow> (PipeAction \<times> MemoryStage \<times> MemoryWritebackLatch \<times> 'x) core_op" where
  "MemoryStage_OnCycle t junk mu inp st o' x = bnd (memory_operation t junk mu inp x) (\<lambda>(r, x). case r of
       Stop a \<Rightarrow> ret (a, st, o', x)
     | Done rcv inload instore \<Rightarrow> get_env (\<lambda>e. ret (PIPE_CONTINUE, COMMIT (en_phase e) (count_access inload instore) st,
         COMMIT (en_phase e) (memory_output inp rcv) o', x)))"

end
