(* ===== verification/Stage_Writeback.thy ===== *)
theory Stage_Writeback
  imports Pipeline_Latches
begin

text \<open>
  The writeback stage (arch/drisc/WritebackStage.cpp): the message of the instruction goes to the network, its
  result to the register file, a register in each cycle, and a thread that switched is killed, suspended
  or rescheduled.
\<close>

text \<open>\<open>ws_offset\<close> is the register that is written next, \<open>-1\<close> for a new result. The write port of
  the register file that belongs to the pipeline is kept here.\<close>

record WritebackStage =
  ws_stall :: bool
  ws_offset :: int
  ws_port :: "(core_process, RegAddr) write_port"

text \<open>The value of a register of the result.\<close>

definition result_register :: "RegValue \<Rightarrow> MemoryWritebackLatch \<Rightarrow> nat \<Rightarrow> RegValue res" where
  "result_register junk inp i =
     (let v = mw_Rcv inp; value = (MAKE_EMPTY_REG junk)\<lparr>rv_state := pv_state v\<rparr> in
      case pv_state v of
        RST_FULL \<Rightarrow> res_bind (pv_get (ra_type (mw_Rc inp)) v) (\<lambda>x. res_bind (shift_right (i * 8 * INTEGER_SIZE) x) (\<lambda>x.
          Inr (value\<lparr>rv_value := x\<rparr>)))
      | RST_INVALID \<Rightarrow> Inl AssertionFailure
      | _ \<Rightarrow> Inr (if i = 0 then value\<lparr>rv_waiting := pv_waiting v, rv_memory := pv_memory v\<rparr> else value))"

text \<open>How the value is combined with the one in the register: the value that is written, or none, whether
  the thread suspends still, and whether it may be rescheduled. \<open>None\<close> is the busy register that the
  stage waits for.\<close>

definition combine :: "nat \<Rightarrow> bool \<Rightarrow> RegValue \<Rightarrow> RegValue \<Rightarrow> (RegValue option \<times> bool \<times> bool) option res" where
  "combine tid suspend old value =
     (if rv_state value = RST_WAITING
      then assert_that suspend
        (if rv_state old = RST_FULL then Inr (Some (None, False, True))
         else assert_that (tq_head (rv_waiting value) = tid)
           (assert_that (if rv_state old = RST_WAITING \<and> tq_head (rv_waiting old) \<noteq> INVALID_TID
              then tq_tail (rv_waiting value) = tq_tail (rv_waiting old) else tq_tail (rv_waiting value) = tid)
             (Inr (Some (Some value, suspend, True)))))
      else if rv_state value = RST_PENDING \<and> rv_state old = RST_WAITING
      then assert_that (mr_size (rv_memory old) = 0)
        (Inr (Some (Some (value\<lparr>rv_state := RST_WAITING, rv_waiting := rv_waiting old\<rparr>), suspend, True)))
      else if (rv_state old = RST_EMPTY \<or> rv_state old = RST_PENDING) \<and> mr_size (rv_memory old) \<noteq> 0 then Inr None
      else Inr (Some (Some value, suspend, \<not> (rv_state value = RST_FULL \<and> rv_state old = RST_WAITING))))"

text \<open>The action that ends the cycle early, or the registers written so far, and whether the thread suspends
  and may be rescheduled.\<close>

datatype writeback_result = WStop PipeAction | WDone int bool bool

type_synonym writeback_op = "WritebackStage \<Rightarrow> (writeback_result \<times> WritebackStage) core_op"

text \<open>A thread that waits for a register is put in front of the queue of the register: its link names the
  thread that was the first. The commit phase changes the link before the register is written.\<close>

definition write_combined :: "MemoryWritebackLatch \<Rightarrow> nat \<Rightarrow> bool \<Rightarrow> RegAddr \<Rightarrow> RegValue \<Rightarrow> RegValue \<Rightarrow> writeback_op" where
  "write_combined inp i suspend addr value old st =
     bnd (liftr (combine (unat (cd_tid inp)) suspend old value)) (\<lambda>r. case r of
       None \<Rightarrow> get_env (\<lambda>e. ret (WStop PIPE_DELAY, COMMIT (en_phase e) (\<lambda>st. st\<lparr>ws_stall := True\<rparr>) st))
     | Some (None, suspend, again) \<Rightarrow> ret (WDone (int i + 1) suspend again, st)
     | Some (Some v, suspend, again) \<Rightarrow> get_core (\<lambda>c.
         defined (rv_state value = RST_WAITING \<longrightarrow> unat (cd_tid inp) < length (co_threads c))
         (commit (if rv_state value = RST_WAITING then set_thread_next (unat (cd_tid inp)) (tq_head (rv_waiting old)) else (\<lambda>c. c))
         (bnd (write_register addr v False) (\<lambda>ok.
          ret (if ok then WDone (int i + 1) suspend again else WStop PIPE_STALL, st))))))"

definition write_result :: "MemoryWritebackLatch \<Rightarrow> nat \<Rightarrow> bool \<Rightarrow> writeback_op" where
  "write_result inp i suspend st = get_env (\<lambda>e. get_core (\<lambda>c.
     bnd (liftr (result_register (co_junk c) inp i)) (\<lambda>value.
     if \<not> reg_ok (mw_Rc inp) then ret (WDone (int i + 1) suspend True, st)
     else let addr = \<lparr>ra_type = ra_type (mw_Rc inp), ra_index = (ra_index (mw_Rc inp) + i) mod 2 ^ 32\<rparr> in
       bnd (liftr (DedicatedWritePort_Write (en_phase e) (en_process e) addr (ws_port st))) (\<lambda>(ok, _, port).
       let st = st\<lparr>ws_port := port\<rparr> in
       if \<not> ok then ret (WStop PIPE_STALL, st)
       else bnd (read_register addr) (\<lambda>old. write_combined inp i suspend addr value old st)))))"

definition send_result :: "MemoryWritebackLatch \<Rightarrow> bool core_op" where
  "send_result inp = (if mw_Rrc inp = RMSG_NONE then ret True else SendMessage (mw_Rrc inp))"

text \<open>A thread at a memory barrier waits when it has pending writes still.\<close>

definition check_barrier :: "MemoryWritebackLatch \<Rightarrow> bool core_op" where
  "check_barrier inp = with_thread (unat (cd_tid inp)) (\<lambda>th.
     if td_numPendingWrites (th_dependencies th) \<noteq> 0
     then commit (modify_thread (unat (cd_tid inp)) (\<lambda>th. th\<lparr>th_waitingForWrites := True\<rparr>)) (ret True)
     else ret False)"

text \<open>The end of an instruction: whether the thread could be dealt with, or the stage has to come again.\<close>

definition switch_thread :: "MemoryWritebackLatch \<Rightarrow> bool \<Rightarrow> bool \<Rightarrow> PipeAction core_op" where
  "switch_thread inp suspend again =
     (let tid = unat (cd_tid inp); done = (\<lambda>ok. ret (if ok then PIPE_CONTINUE else PIPE_STALL)) in
      if \<not> cd_swch inp then ret PIPE_CONTINUE
      else if cd_kill inp then check (\<not> suspend) (bnd (KillThread tid) done)
      else if suspend then bnd (SuspendThread tid (cd_pc inp)) done
      else if again then bnd (RescheduleThread tid (cd_pc inp)) done
      else ret PIPE_DELAY)"

definition finish_writeback :: "MemoryWritebackLatch \<Rightarrow> int \<Rightarrow> int \<Rightarrow> bool \<Rightarrow> bool \<Rightarrow> WritebackStage
    \<Rightarrow> (PipeAction \<times> WritebackStage) core_op" where
  "finish_writeback inp n offset suspend again st =
     bnd (if offset = n then switch_thread inp suspend again else ret PIPE_DELAY) (\<lambda>a.
     if a = PIPE_STALL then ret (PIPE_STALL, st)
     else get_env (\<lambda>e. let offset = (if a = PIPE_CONTINUE then -1 else offset) in
       ret (if offset = -1 then PIPE_CONTINUE else PIPE_DELAY, COMMIT (en_phase e) (\<lambda>st. st\<lparr>ws_offset := offset\<rparr>) st)))"

definition WritebackStage_OnCycle :: "MemoryWritebackLatch \<Rightarrow> WritebackStage \<Rightarrow> (PipeAction \<times> WritebackStage) core_op" where
  "WritebackStage_OnCycle inp st = get_env (\<lambda>e.
     let suspend = (mw_suspend inp \<noteq> SUSPEND_NONE) in
     if ws_stall st then ret (PIPE_STALL, if en_phase e = PHASE_ACQUIRE then st else st\<lparr>ws_stall := False\<rparr>)
     else bnd (send_result inp) (\<lambda>sent.
       if \<not> sent then ret (PIPE_STALL, st)
       else if pv_state (mw_Rcv inp) \<noteq> RST_INVALID
       then check (pv_size (mw_Rcv inp) mod INTEGER_SIZE = 0)
         (let n = int (pv_size (mw_Rcv inp) div INTEGER_SIZE); offset = (if ws_offset st = -1 then 0 else ws_offset st) in
          if offset < n
          then bnd (write_result inp (nat offset) suspend st) (\<lambda>(r, st). case r of
              WStop a \<Rightarrow> ret (a, st)
            | WDone offset suspend again \<Rightarrow> finish_writeback inp n offset suspend again st)
          else finish_writeback inp n offset suspend True st)
       else if mw_suspend inp = SUSPEND_MEMORY_BARRIER
       then bnd (check_barrier inp) (\<lambda>suspend. finish_writeback inp (-1) (ws_offset st) suspend True st)
       else finish_writeback inp (-1) (ws_offset st) suspend True st))"

end
