(* ===== verification/Pipeline_Cycle.thy ===== *)
theory Pipeline_Cycle
  imports Stage_Fetch Stage_Read Stage_Execute_Alpha Stage_Memory Stage_Writeback
begin

text \<open>
  The pipeline (arch/drisc/Pipeline.cpp): its stages are called from the last to the first, so that a stage
  finds the latch behind it free and the bypasses hold what the later stages made in the same cycle. A stage
  that stalls or needs another cycle stops those before it; one that flushes removes the instructions of
  its thread before it. The stages are numbered from the fetch stage, \<open>0\<close>, to the writeback stage, the last; the
  latch with a number is the output of the stage with that number. The latches behind the memory stage and the
  dummy stages are the list \<open>pl_mws\<close>, the one behind the execute stage is part of that stage.
\<close>

record 'x Pipeline =
  pl_fd :: FetchDecodeLatch
  pl_dr :: DecodeReadLatch
  pl_re :: ReadExecuteLatch
  pl_mws :: "MemoryWritebackLatch list"
  pl_empty :: "bool list"
  pl_mwBypass :: "bool \<times> MemoryWritebackLatch"
  pl_status :: "Result list"
  pl_fetch :: FetchStage
  pl_read :: ReadStage
  pl_execute :: ExecuteStage
  pl_memory :: MemoryStage
  pl_writeback :: WritebackStage
  pl_unit :: 'x
  pl_active :: "bool register"
  pl_runnable :: nat
  pl_run :: nat
  pl_busy :: u64
  pl_stalls :: u64

text \<open>What does not change: the byte order, members that constructors leave open, and the devices and the
  data cache of the core.\<close>

record 'x pipeline_config =
  pc_target :: Target
  pc_junk :: PipeValue
  pc_memory :: "'x memory_unit"

definition stage_count :: "'x Pipeline \<Rightarrow> nat" where
  "stage_count p = length (pl_mws p) + 5"

text \<open>The thread of the instruction in a latch.\<close>

definition latch_tid :: "nat \<Rightarrow> 'x Pipeline \<Rightarrow> u32" where
  "latch_tid j p = (if j = 0 then cd_tid (pl_fd p) else if j = 1 then cd_tid (pl_dr p) else if j = 2 then cd_tid (pl_re p)
     else if j = 3 then cd_tid (es_out (pl_execute p)) else cd_tid (pl_mws p ! (j - 4)))"

definition set_latch_empty :: "nat \<Rightarrow> bool \<Rightarrow> 'x Pipeline \<Rightarrow> 'x Pipeline" where
  "set_latch_empty j b p = p\<lparr>pl_empty := (pl_empty p)[j := b]\<rparr>"

definition set_status :: "nat \<Rightarrow> Result \<Rightarrow> 'x Pipeline \<Rightarrow> 'x Pipeline" where
  "set_status i r p = p\<lparr>pl_status := (pl_status p)[i := r]\<rparr>"

definition bypasses :: "'x Pipeline \<Rightarrow> bypass list" where
  "bypasses p = (pl_empty p ! 3, em_Rc (es_out (pl_execute p)), em_Rcv (es_out (pl_execute p)))
     # map (\<lambda>k. (pl_empty p ! (4 + k), mw_Rc (pl_mws p ! k), mw_Rcv (pl_mws p ! k))) [0..<length (pl_mws p)]
     @ [(fst (pl_mwBypass p), mw_Rc (snd (pl_mwBypass p)), mw_Rcv (snd (pl_mwBypass p)))]"

section \<open>Construction\<close>

text \<open>The pipeline with its stages, before anything runs; the latches, the stages and the register that keeps it
  active are arguments.\<close>

definition Pipeline_new :: "nat \<Rightarrow> FetchDecodeLatch \<Rightarrow> DecodeReadLatch \<Rightarrow> ReadExecuteLatch \<Rightarrow> MemoryWritebackLatch \<Rightarrow> FetchStage
    \<Rightarrow> ReadStage \<Rightarrow> ExecuteStage \<Rightarrow> MemoryStage \<Rightarrow> WritebackStage \<Rightarrow> 'x \<Rightarrow> bool register \<Rightarrow> 'x Pipeline" where
  "Pipeline_new num_dummy_stages fd dr re mw fetch read execute memory writeback u active =
     \<lparr>pl_fd = fd, pl_dr = dr, pl_re = re, pl_mws = replicate (Suc num_dummy_stages) mw,
      pl_empty = replicate (num_dummy_stages + 5) True, pl_mwBypass = (True, mw),
      pl_status = replicate (num_dummy_stages + 6) SUCCESS, pl_fetch = fetch, pl_read = ReadStage_Clear (cd_tid dr) dr read,
      pl_execute = execute, pl_memory = memory, pl_writeback = writeback, pl_unit = u, pl_active = active,
      pl_runnable = 0, pl_run = 0, pl_busy = 0, pl_stalls = 0\<rparr>"

text \<open>The floating-point unit is told of the register file.\<close>

definition pl_ConnectFPU :: "FPU \<Rightarrow> 'x Pipeline \<Rightarrow> 'x Pipeline res" where
  "pl_ConnectFPU fpu p = res_bind (RegisterSource fpu) (\<lambda>(source, fpu).
     Inr (p\<lparr>pl_execute := (pl_execute p)\<lparr>es_fpu := Some (fpu, source)\<rparr>\<rparr>))"

section \<open>Stages\<close>

definition run_stage :: "'x pipeline_config \<Rightarrow> u64 \<Rightarrow> nat \<Rightarrow> 'x Pipeline \<Rightarrow> (PipeAction \<times> 'x Pipeline) core_op" where
  "run_stage k now i p =
     (let last = length (pl_mws p) + 4 in
      if i = 0
      then bnd (FetchStage_OnCycle (pc_target k) (pl_fetch p) (pl_fd p)) (\<lambda>(a, st, o').
        ret (a, p\<lparr>pl_fetch := st, pl_fd := o'\<rparr>))
      else if i = 1
      then get_env (\<lambda>e. bnd (liftr (DecodeStage_OnCycle (en_phase e) (pl_fd p) (pl_dr p))) (\<lambda>o'.
        ret (PIPE_CONTINUE, p\<lparr>pl_dr := o'\<rparr>)))
      else if i = 2
      then bnd (ReadStage_OnCycle (pc_junk k) (bypasses p) (pl_dr p) (pl_read p) (pl_re p)) (\<lambda>(a, st, o').
        ret (a, p\<lparr>pl_read := st, pl_re := o'\<rparr>))
      else if i = 3
      then bnd (ExecuteStage_OnCycle (pc_junk k) now (pl_re p) (pl_execute p)) (\<lambda>(a, st). ret (a, p\<lparr>pl_execute := st\<rparr>))
      else if i = 4
      then bnd (MemoryStage_OnCycle (pc_target k) (pc_junk k) (pc_memory k) (es_out (pl_execute p)) (pl_memory p)
             (pl_mws p ! 0) (pl_unit p)) (\<lambda>(a, st, o', x).
        ret (a, p\<lparr>pl_memory := st, pl_mws := (pl_mws p)[0 := o'], pl_unit := x\<rparr>))
      else if i = last
      then bnd (WritebackStage_OnCycle (pl_mws p ! (last - 5)) (pl_writeback p)) (\<lambda>(a, st). ret (a, p\<lparr>pl_writeback := st\<rparr>))
      else bnd (DummyStage_OnCycle (pl_mws p ! (i - 5)) (pl_mws p ! (i - 4))) (\<lambda>(a, o').
        ret (a, p\<lparr>pl_mws := (pl_mws p)[i - 4 := o']\<rparr>)))"

text \<open>\<open>Clear\<close> of a stage.\<close>

definition clear_stage :: "nat \<Rightarrow> u32 \<Rightarrow> 'x Pipeline \<Rightarrow> 'x Pipeline" where
  "clear_stage i tid p = (if i = 0 then p\<lparr>pl_fetch := FetchStage_Clear tid (pl_fd p) (pl_fetch p)\<rparr>
     else if i = 2 then p\<lparr>pl_read := ReadStage_Clear tid (pl_dr p) (pl_read p)\<rparr> else p)"

text \<open>The stages before the one with a number are flushed, the nearest first.\<close>

definition flush_stage :: "u32 \<Rightarrow> nat \<Rightarrow> 'x Pipeline \<Rightarrow> 'x Pipeline" where
  "flush_stage tid f p = clear_stage f tid
     (if 0 < f \<and> latch_tid (f - 1) p = tid then set_status f DELAYED (set_latch_empty (f - 1) True p) else p)"

definition flush :: "nat \<Rightarrow> 'x Pipeline \<Rightarrow> 'x Pipeline" where
  "flush i p = (if i = 0 then p else fold (flush_stage (latch_tid (i - 1) p)) (rev [0..<i]) p)"

section \<open>Cycles\<close>

definition stage_done :: "nat \<Rightarrow> 'x Pipeline \<Rightarrow> 'x Pipeline" where
  "stage_done i p = (let p = (if 0 < i then set_latch_empty (i - 1) True p else p) in
     if i < length (pl_mws p) + 4 then set_latch_empty i False p else p)"

text \<open>The loop over the stages: \<open>Suc i\<close> stages are left, of which the one with number \<open>i\<close> is next.\<close>

fun run_stages :: "'x pipeline_config \<Rightarrow> u64 \<Rightarrow> nat \<Rightarrow> Result \<Rightarrow> 'x Pipeline \<Rightarrow> (Result \<times> 'x Pipeline) core_op" where
  "run_stages k now 0 result p = ret (result, p)"
| "run_stages k now (Suc i) result p =
     (if pl_status p ! i = FAILED then ret (result, p)
      else if pl_status p ! i \<noteq> SUCCESS then run_stages k now i result p
      else bnd (run_stage k now i (p\<lparr>pl_runnable := pl_runnable p + 1\<rparr>)) (\<lambda>(a, p). get_env (\<lambda>e.
        if en_phase e = PHASE_ACQUIRE then run_stages k now i SUCCESS p
        else if a = PIPE_STALL then ret (result, (set_status i FAILED p)\<lparr>pl_stalls := pl_stalls p + 1\<rparr>)
        else if a = PIPE_DELAY then ret (SUCCESS, p)
        else if a = PIPE_IDLE then run_stages k now i result (p\<lparr>pl_runnable := pl_runnable p - 1\<rparr>)
        else run_stages k now i SUCCESS
          (COMMIT (en_phase e) (stage_done i) (if a = PIPE_FLUSH then flush i p else p)))))"

definition begin_cycle :: "'x Pipeline \<Rightarrow> 'x Pipeline" where
  "begin_cycle p = p\<lparr>pl_status := map (\<lambda>i. if 0 < i \<and> pl_empty p ! (i - 1) then DELAYED else SUCCESS) [0..<stage_count p],
     pl_mwBypass := (last (pl_empty p), last (pl_mws p)), pl_busy := pl_busy p + 1\<rparr>"

definition DoPipeline :: "'x pipeline_config \<Rightarrow> u64 \<Rightarrow> 'x Pipeline \<Rightarrow> (Result \<times> 'x Pipeline) core_op" where
  "DoPipeline k now p = set_core (\<lambda>c. c\<lparr>co_pipeline_running := True\<rparr>) (get_env (\<lambda>e.
     let p = (if en_phase e = PHASE_ACQUIRE then begin_cycle p else p) in
     bnd (run_stages k now (stage_count p) FAILED (p\<lparr>pl_runnable := 0\<rparr>)) (\<lambda>(result, p).
     bnd (liftr (if pl_runnable p = 0 then register_Clear (en_phase e) (en_clk e) (pl_active p)
                 else register_Write (en_phase e) (en_clk e) True (pl_active p))) (\<lambda>active.
     let p = COMMIT (en_phase e) (\<lambda>p. p\<lparr>pl_run := pl_run p + pl_runnable p\<rparr>) (p\<lparr>pl_active := active\<rparr>) in
     set_core (\<lambda>c. c\<lparr>co_pipeline_running := False\<rparr>)
       (ret (if pl_runnable p = 0 then SUCCESS else result, p))))))"

end
