(* ===== verification/Pipeline_Bypass.thy ===== *)
theory Pipeline_Bypass
  imports Pipeline_Cycle
begin

text \<open>
  Reading through the bypasses and writing back agree: a result that is replayed over the value of a register
  gives what a reader would find after the writeback stage has written it.
\<close>

section \<open>Results that are written back\<close>

text \<open>The results are listed from the oldest to the newest, each with the flag of its latch. One that goes
  to the register is combined with its value as the writeback stage does it; a busy register, for which
  the stage would wait, gives no value.\<close>

definition bypass_of :: "bool \<times> MemoryWritebackLatch \<Rightarrow> bypass" where
  "bypass_of l = (fst l, mw_Rc (snd l), mw_Rcv (snd l))"

definition write_back :: "RegValue \<Rightarrow> RegType \<Rightarrow> nat \<Rightarrow> bool \<times> MemoryWritebackLatch \<Rightarrow> RegValue \<Rightarrow> RegValue option res" where
  "write_back junk t i l v =
     (if \<not> holds_register t i (bypass_of l) then Inr (Some v)
      else res_bind (result_register junk (snd l) (i - ra_index (mw_Rc (snd l)))) (\<lambda>x.
        res_bind (combine (unat (cd_tid (snd l))) (mw_suspend (snd l) \<noteq> SUSPEND_NONE) v x) (\<lambda>r.
        Inr (case r of None \<Rightarrow> None | Some (None, _, _) \<Rightarrow> Some v | Some (Some w, _, _) \<Rightarrow> Some w))))"

fun write_back_all :: "RegValue \<Rightarrow> RegType \<Rightarrow> nat \<Rightarrow> (bool \<times> MemoryWritebackLatch) list \<Rightarrow> RegValue \<Rightarrow> RegValue option res" where
  "write_back_all junk t i [] v = Inr (Some v)"
| "write_back_all junk t i (l # ls) v = res_bind (write_back junk t i l v) (\<lambda>r. case r of
       None \<Rightarrow> Inr None
     | Some v \<Rightarrow> write_back_all junk t i ls v)"

text \<open>What a reader sees of a value: its state, the integer if it is full, and the queue of threads if
  threads wait for it.\<close>

definition reads_same :: "RegValue \<Rightarrow> RegValue \<Rightarrow> bool" where
  "reads_same v w \<longleftrightarrow> rv_state v = rv_state w \<and> (rv_state v = RST_FULL \<longrightarrow> rv_value v = rv_value w)
     \<and> (rv_state v = RST_WAITING \<longrightarrow> rv_waiting v = rv_waiting w)"

lemma reads_same_refl [simp]: "reads_same v v"
  by (simp add: reads_same_def)

lemma holds_one_register:
  "holds_register t i (b, a, v) \<Longrightarrow> pv_size v = INTEGER_SIZE \<Longrightarrow> i = ra_index a \<and> ra_type a = t"
  by (auto simp: holds_register_def INTEGER_SIZE_def)

lemma replay_write_back:
  assumes w: "write_back junk t i l v = Inr (Some w)" and same: "reads_same v' v"
    and sz: "pv_size (mw_Rcv (snd l)) = INTEGER_SIZE"
  shows "\<exists>w'. replay t i (bypass_of l) v' = Inr w' \<and> reads_same w' w"
proof (cases "holds_register t i (bypass_of l)")
  case False
  then show ?thesis using w same by (simp add: write_back_def replay_def)
next
  case True
  let ?pv = "mw_Rcv (snd l)"
  have i: "i = ra_index (mw_Rc (snd l))" "ra_type (mw_Rc (snd l)) = t"
    using holds_one_register True sz by (auto simp: bypass_of_def)
  obtain x r where x: "result_register junk (snd l) 0 = Inr x"
    and r: "combine (unat (cd_tid (snd l))) (mw_suspend (snd l) \<noteq> SUSPEND_NONE) v x = Inr r"
    and out: "(case r of None \<Rightarrow> None | Some (None, _, _) \<Rightarrow> Some v | Some (Some w, _, _) \<Rightarrow> Some w) = Some w"
    using w True i by (auto simp: write_back_def elim!: res_bind_InrE)
  show ?thesis
  proof (cases "pv_state ?pv")
    case RST_INVALID
    then show ?thesis using x by (simp add: result_register_def Let_def)
  next
    case RST_FULL
    then obtain y where y: "value_part t 0 ?pv = Inr y" and xv: "rv_state x = RST_FULL" "rv_value x = y"
      using x i by (auto simp: result_register_def Let_def value_part_def mult.commute elim!: res_bind_InrE)
    have "w = x" using r out xv(1) by (auto simp: combine_def split: if_splits)
    then show ?thesis
      using True RST_FULL y xv i by (simp add: replay_def bypass_of_def reads_same_def)
  next
    case RST_WAITING
    then have xv: "rv_state x = RST_WAITING" "rv_waiting x = pv_waiting ?pv"
      using x by (auto simp: result_register_def Let_def)
    have "w = (if rv_state v = RST_FULL then v else x)"
      using r out xv(1) by (auto simp: combine_def assert_that_def split: if_splits)
    then show ?thesis
      using True RST_WAITING xv same by (auto simp: replay_def bypass_of_def reads_same_def)
  next
    case RST_PENDING
    then have xv: "rv_state x = RST_PENDING" using x by (auto simp: result_register_def Let_def)
    have "w = (if rv_state v = RST_WAITING then x\<lparr>rv_state := RST_WAITING, rv_waiting := rv_waiting v\<rparr> else x)"
      using r out xv by (auto simp: combine_def assert_that_def split: if_splits)
    then show ?thesis
      using True RST_PENDING xv same by (auto simp: replay_def bypass_of_def reads_same_def)
  next
    case RST_EMPTY
    then have xv: "rv_state x = RST_EMPTY" using x by (auto simp: result_register_def Let_def)
    have "w = x" using r out xv by (auto simp: combine_def split: if_splits)
    then show ?thesis using True RST_EMPTY xv by (simp add: replay_def bypass_of_def reads_same_def)
  qed
qed

text \<open>
  C3. An operand read through the bypasses is the one that would be read after all results in the pipeline
  were written back. If the results, of one register each, can be written back from the oldest to
  the newest over the value of a register, then replaying them gives a value with the state of the register
  afterwards, with its integer when it is full and with its queue of waiting threads when threads
  wait for it.
\<close>

theorem bypasses_read_as_written:
  assumes "write_back_all junk t i (rev ls) v = Inr (Some w)"
    and "\<forall>l\<in>set ls. pv_size (mw_Rcv (snd l)) = INTEGER_SIZE"
  shows "\<exists>r. replay_bypasses t i (map bypass_of ls) v = Inr r \<and> reads_same r w"
proof -
  have "\<exists>r. res_fold (replay t i) (map bypass_of ls) v' = Inr r \<and> reads_same r w"
    if "write_back_all junk t i ls v = Inr (Some w)" "reads_same v' v" "\<forall>l\<in>set ls. pv_size (mw_Rcv (snd l)) = INTEGER_SIZE"
    for ls v v'
    using that
  proof (induction ls arbitrary: v v')
    case (Cons l ls)
    then obtain v1 where v1: "write_back junk t i l v = Inr (Some v1)" "write_back_all junk t i ls v1 = Inr (Some w)"
      by (auto elim!: res_bind_InrE split: option.splits)
    then obtain v2 where "replay t i (bypass_of l) v' = Inr v2" "reads_same v2 v1"
      using replay_write_back [OF v1(1) Cons.prems(2)] Cons.prems(3) by auto
    then show ?case using Cons.IH [OF v1(2)] Cons.prems(3) by simp
  qed simp
  from this [OF assms(1) reads_same_refl] assms(2) show ?thesis
    by (simp add: replay_bypasses_def rev_map)
qed

text \<open>A register that was empty gets a pending result and, in the newer one, the value 42.\<close>

definition bypass_value :: "RegState \<Rightarrow> u64 \<Rightarrow> PipeValue" where
  "bypass_value s x = \<lparr>pv_state = s, pv_size = 8, pv_bits = x, pv_waiting = \<lparr>tq_head = INVALID_TID, tq_tail = INVALID_TID\<rparr>,
     pv_memory = \<lparr>mr_next = INVALID_REG, mr_fid = 0, mr_size = 0, mr_offset = 0, mr_sign_extend = False\<rparr>\<rparr>"

definition bypass_latch :: "RegState \<Rightarrow> u64 \<Rightarrow> MemoryWritebackLatch" where
  "bypass_latch s x = \<lparr>cd_pc = 0, cd_tid = 1, cd_fid = 0, cd_swch = False, cd_kill = False, cd_pc_dbg = 0, cd_logical_index = 0,
     mw_suspend = SUSPEND_NONE, mw_Rc = \<lparr>ra_type = RT_INTEGER, ra_index = 5\<rparr>, mw_Rcv = bypass_value s x, mw_Rrc = RMSG_NONE\<rparr>"

definition bypass_register :: RegValue where
  "bypass_register = \<lparr>rv_state = RST_EMPTY, rv_value = 0, rv_waiting = \<lparr>tq_head = INVALID_TID, tq_tail = INVALID_TID\<rparr>,
     rv_memory = \<lparr>mr_next = INVALID_REG, mr_fid = 0, mr_size = 0, mr_offset = 0, mr_sign_extend = False\<rparr>\<rparr>"

lemma bypass_example:
  "\<exists>w. write_back_all bypass_register RT_INTEGER 5 (rev [(False, bypass_latch RST_FULL 42), (False, bypass_latch RST_PENDING 0)])
     bypass_register = Inr (Some w) \<and> rv_state w = RST_FULL \<and> rv_value w = 42"
  by (simp add: write_back_def bypass_of_def holds_register_def bypass_latch_def bypass_value_def reg_ok_def INVALID_REG_INDEX_def
      INTEGER_SIZE_def result_register_def Let_def combine_def bypass_register_def MAKE_EMPTY_REG_def pv_get_def
      MultiInteger_get_def shift_right_def unsigned_minus_1_eq_mask mask_eq_exp_minus_1)

theorem bypasses_read_as_written_witness:
  "\<exists>r. replay_bypasses RT_INTEGER 5 (map bypass_of [(False, bypass_latch RST_FULL 42), (False, bypass_latch RST_PENDING 0)])
     bypass_register = Inr r \<and> rv_state r = RST_FULL \<and> rv_value r = 42"
proof -
  obtain w where w: "write_back_all bypass_register RT_INTEGER 5 (rev [(False, bypass_latch RST_FULL 42), (False, bypass_latch RST_PENDING 0)])
      bypass_register = Inr (Some w)" "rv_state w = RST_FULL" "rv_value w = 42"
    using bypass_example by blast
  have "\<forall>l\<in>set [(False, bypass_latch RST_FULL 42), (False, bypass_latch RST_PENDING 0)]. pv_size (mw_Rcv (snd l)) = INTEGER_SIZE"
    by (simp add: bypass_latch_def bypass_value_def INTEGER_SIZE_def)
  from bypasses_read_as_written [OF w(1) this] show ?thesis using w(2,3) by (auto simp: reads_same_def)
qed

section \<open>A load to a register that threads wait for\<close>

text \<open>The replay keeps the queue of the waiting threads, as it has to, but also the memory request of the
  old value, which is none. A reader that suspends on the replayed value carries that request, and when it
  is written back the register file refuses it: the load has been written and its request is another one.\<close>

lemma reader_after_load_refused:
  assumes old: "rv_state old = RST_WAITING" "mr_size (rv_memory old) = 0"
    and load: "pv_state (mw_Rcv (snd l)) = RST_PENDING" "mr_size (pv_memory (mw_Rcv (snd l))) \<noteq> 0"
      "pv_size (mw_Rcv (snd l)) = INTEGER_SIZE" "holds_register t i (bypass_of l)"
    and run: "write_back junk t i l old = Inr (Some w)" "replay t i (bypass_of l) old = Inr r"
    and reader: "rv_state x = RST_WAITING" "rv_memory x = rv_memory r"
  shows "rf_refused w x False"
proof -
  have i: "i = ra_index (mw_Rc (snd l))"
    using holds_one_register load(3,4) by (auto simp: bypass_of_def)
  have "r = old" using run(2) old load by (auto simp: replay_def bypass_of_def)
  obtain y where y: "result_register junk (snd l) 0 = Inr y" "rv_state y = RST_PENDING" "rv_memory y = pv_memory (mw_Rcv (snd l))"
    using run(1) load i by (auto simp: write_back_def result_register_def Let_def elim!: res_bind_InrE)
  have "w = y\<lparr>rv_state := RST_WAITING, rv_waiting := rv_waiting old\<rparr>"
    using run(1) y old load(4) i by (auto simp: write_back_def combine_def assert_that_def elim!: res_bind_InrE split: if_splits)
  then show ?thesis using y(3) load(2) old(2) reader \<open>r = old\<close> by (auto simp: rf_refused_def)
qed

section \<open>A message before a busy register\<close>

text \<open>When the register of a result waits for the memory, the stage comes again in a later cycle; the message
  of the instruction has been sent by then, and is sent again.\<close>

lemma busy_register_sends_again:
  assumes e: "en_phase e = PHASE_COMMIT" and st: "\<not> ws_stall st" "ws_offset st = -1"
    and sent: "mw_Rrc inp \<noteq> RMSG_NONE" "SendMessage (mw_Rrc inp) e c = Inr (True, c1)"
    and result: "pv_state (mw_Rcv inp) = RST_PENDING" "pv_size (mw_Rcv inp) = INTEGER_SIZE" "reg_ok (mw_Rc inp)"
      "ra_index (mw_Rc inp) < 2 ^ 32"
    and port: "DedicatedWritePort_Write PHASE_COMMIT (en_process e) (mw_Rc inp) (ws_port st) = Inr (True, b, ws_port st)"
    and busy: "ReadRegister (mw_Rc inp) (co_rf c1) = Inr old" "rv_state old = RST_PENDING" "mr_size (rv_memory old) \<noteq> 0"
  shows "WritebackStage_OnCycle inp st e c = Inr ((PIPE_DELAY, st\<lparr>ws_stall := True\<rparr>), c1)"
proof -
  have addr: "\<lparr>ra_type = ra_type (mw_Rc inp), ra_index = ra_index (mw_Rc inp)\<rparr> = mw_Rc inp" by simp
  show ?thesis
    using assms
    by (simp add: WritebackStage_OnCycle_def get_env_def get_core_def Let_def send_result_def bnd_def check_def assert_that_def
        INTEGER_SIZE_def write_result_def liftr_def result_register_def read_register_def write_combined_def combine_def
        ret_def COMMIT_def addr)
qed

end
