(* ===== verification/Execute_Output.thy ===== *)
theory Execute_Output
  imports Stage_Execute_Alpha
begin

text \<open>
  What the execute stage hands to the stages behind it. These assert that a killed thread is not
  suspended, that a waiting result comes with a suspension and that sizes are those of registers; the
  outputs of the execute stage satisfy these assertions.
\<close>

section \<open>Outputs of operations\<close>

text \<open>The output after an operation in the commit phase.\<close>

definition outputs_at :: "(ExecuteMemoryLatch \<Rightarrow> bool) \<Rightarrow> ExecuteStage \<Rightarrow> (PipeAction \<times> ExecuteStage) core_op \<Rightarrow> bool" where
  "outputs_at P st m \<longleftrightarrow> (\<forall>e c a st' c'. en_phase e = PHASE_COMMIT \<longrightarrow> m e c = Inr ((a, st'), c') \<longrightarrow> P (es_out st'))"

named_theorems outputs_at_rules

lemma outputs_at_bnd [outputs_at_rules]: "(\<And>x. outputs_at P st (f x)) \<Longrightarrow> outputs_at P st (bnd m f)"
  unfolding outputs_at_def by (metis bnd_InrE)

lemma outputs_at_get_core [outputs_at_rules]: "(\<And>c. outputs_at P st (f c)) \<Longrightarrow> outputs_at P st (get_core f)"
  by (auto simp: outputs_at_def get_core_def)

lemma outputs_at_check [outputs_at_rules]: "outputs_at P st m \<Longrightarrow> outputs_at P st (check b m)"
  by (auto simp: outputs_at_def check_def assert_that_def split: if_splits)

lemma outputs_at_raise [outputs_at_rules]: "outputs_at P st (raise_error x)"
  by (simp add: outputs_at_def raise_error_def)

lemma outputs_at_if [outputs_at_rules]: "outputs_at P st m \<Longrightarrow> outputs_at P st n \<Longrightarrow> outputs_at P st (if b then m else n)"
  by simp

lemma outputs_at_set_core [outputs_at_rules]: "outputs_at P st m \<Longrightarrow> outputs_at P st (set_core f m)"
  by (auto simp: outputs_at_def set_core_def)

section \<open>The contract\<close>

text \<open>Before the instruction; after it; and when the thread suspends on a register.\<close>

definition before_instruction :: "ExecuteMemoryLatch \<Rightarrow> bool" where
  "before_instruction o' \<longleftrightarrow> em_suspend o' = SUSPEND_NONE \<and> em_size o' = 0 \<and> em_Rrc o' = RMSG_NONE
     \<and> pv_state (em_Rcv o') = RST_INVALID \<and> pv_size (em_Rcv o') = INTEGER_SIZE"

definition after_instruction :: "ExecuteMemoryLatch \<Rightarrow> bool" where
  "after_instruction o' \<longleftrightarrow> em_size o' \<le> 8 \<and> pv_size (em_Rcv o') = INTEGER_SIZE
     \<and> pv_state (em_Rcv o') \<in> {RST_INVALID, RST_PENDING, RST_FULL}
     \<and> (em_suspend o' = SUSPEND_NONE \<or> em_suspend o' = SUSPEND_MEMORY_BARRIER \<and> cd_swch o' \<and> \<not> cd_kill o'
          \<and> pv_state (em_Rcv o') = RST_INVALID \<and> em_Rrc o' = RMSG_NONE \<and> em_size o' = 0)"

definition after_suspension :: "ExecuteMemoryLatch \<Rightarrow> bool" where
  "after_suspension o' \<longleftrightarrow> em_size o' = 0 \<and> pv_size (em_Rcv o') = INTEGER_SIZE \<and> em_Rrc o' = RMSG_NONE
     \<and> pv_state (em_Rcv o') = RST_WAITING \<and> tq_head (pv_waiting (em_Rcv o')) = unat (cd_tid o')
     \<and> em_suspend o' = SUSPEND_MISSING_DATA \<and> cd_swch o' \<and> \<not> cd_kill o'"

lemmas output_defs = before_instruction_def after_instruction_def full_result_def pending_result_def message_def
  MAKE_PENDING_PIPEVALUE_def INTEGER_SIZE_def barrier_def

definition instr_ok :: "ReadExecuteLatch \<Rightarrow> bool" where
  "instr_ok inp \<longleftrightarrow> re_RcSize inp = INTEGER_SIZE \<and> pv_size (re_Rav inp) = INTEGER_SIZE
     \<and> (pv_state (re_Rav inp) \<noteq> RST_FULL \<longrightarrow> pv_state (re_Rav inp) = RST_WAITING
          \<and> tq_head (pv_waiting (re_Rav inp)) = unat (cd_tid inp))"

lemma at_done: "before_instruction (es_out st) \<Longrightarrow> outputs_at after_instruction st (exec_done a st)"
  by (auto simp: outputs_at_def exec_done_def ret_def output_defs)

lemma at_out:
  assumes "before_instruction (es_out st)" "\<And>o'. before_instruction o' \<Longrightarrow> after_instruction (f o')"
  shows "outputs_at after_instruction st (out f (exec_done a) st)"
  using assms by (auto simp: outputs_at_def out_def exec_done_def get_env_def ret_def COMMIT_def)

lemma at_commit:
  assumes "before_instruction (es_out st)" "\<And>st'. f st = Inr st' \<Longrightarrow> after_instruction (es_out st')"
  shows "outputs_at after_instruction st (exec_commit f (exec_done a) st)"
  using assms by (auto simp: outputs_at_def exec_commit_def exec_done_def get_env_def ret_def bnd_def liftr_def elim!: res_bind_InrE)

lemma at_post: "after_instruction (es_out st) \<Longrightarrow> outputs_at after_instruction st (exec_done a st)"
  by (auto simp: outputs_at_def exec_done_def ret_def)

text \<open>Two changes of the output.\<close>

lemma at_out_out:
  assumes "before_instruction (es_out st)" "\<And>o'. before_instruction o' \<Longrightarrow> after_instruction (g (f o'))"
  shows "outputs_at after_instruction st (out f (out g (exec_done a)) st)"
  using assms by (auto simp: outputs_at_def out_def exec_done_def get_env_def ret_def COMMIT_def)

section \<open>Families and threads\<close>

lemma at_ExecBundle:
  "before_instruction (es_out st) \<Longrightarrow> instr_ok inp \<Longrightarrow> outputs_at after_instruction st (ExecBundle junk inp addr i value reg st)"
  unfolding ExecBundle_def by (intro outputs_at_rules at_done at_out) (auto simp: output_defs instr_ok_def)

lemma at_ExecAllocate:
  "before_instruction (es_out st) \<Longrightarrow> instr_ok inp \<Longrightarrow> outputs_at after_instruction st (ExecAllocate junk inp place reg s x flags st)"
  unfolding ExecAllocate_def by (intro outputs_at_rules at_done at_out) (auto simp: output_defs instr_ok_def)

lemma at_ExecCreate:
  "before_instruction (es_out st) \<Longrightarrow> instr_ok inp \<Longrightarrow> outputs_at after_instruction st (ExecCreate junk inp fid address r st)"
  unfolding ExecCreate_def by (intro outputs_at_rules at_done at_out) (auto simp: output_defs instr_ok_def)

lemma at_SetFamilyProperty:
  "before_instruction (es_out st) \<Longrightarrow> outputs_at after_instruction st (SetFamilyProperty fid p value st)"
  unfolding SetFamilyProperty_def by (intro at_out) (auto simp: output_defs)

lemma at_ReadFamilyRegister:
  "before_instruction (es_out st) \<Longrightarrow> instr_ok inp \<Longrightarrow> outputs_at after_instruction st (ReadFamilyRegister junk inp k t fid i st)"
  unfolding ReadFamilyRegister_def by (intro at_out) (auto simp: output_defs instr_ok_def)

lemma at_WriteFamilyRegister:
  assumes "before_instruction (es_out st)"
  shows "outputs_at after_instruction st (WriteFamilyRegister inp k t fid i st)"
  unfolding WriteFamilyRegister_def using assms
  by (intro outputs_at_rules at_commit) (auto simp: output_defs assert_that_def elim!: res_bind_InrE split: if_splits)

lemma at_ExecSync:
  "before_instruction (es_out st) \<Longrightarrow> instr_ok inp \<Longrightarrow> outputs_at after_instruction st (ExecSync junk inp fid st)"
  unfolding ExecSync_def by (intro outputs_at_rules at_out) (auto simp: output_defs instr_ok_def)

lemma at_ExecDetach: "before_instruction (es_out st) \<Longrightarrow> outputs_at after_instruction st (ExecDetach fid st)"
  unfolding ExecDetach_def by (auto intro!: at_out at_done simp: output_defs)

section \<open>Instructions\<close>

lemma at_branch:
  "before_instruction (es_out st) \<Longrightarrow> instr_ok inp \<Longrightarrow> outputs_at after_instruction st (exec_branch junk inp rav st)"
  unfolding exec_branch_def Let_def
  by (intro outputs_at_rules at_done at_ExecCreate)
    (auto simp: outputs_at_def out_def exec_done_def get_env_def ret_def COMMIT_def output_defs split: if_splits)

lemma at_jump:
  "before_instruction (es_out st) \<Longrightarrow> instr_ok inp \<Longrightarrow> outputs_at after_instruction st (exec_jump junk inp rav rbv st)"
  unfolding exec_jump_def Let_def by (intro outputs_at_rules at_out_out at_ExecCreate) (auto simp: output_defs)

lemma at_memory:
  assumes "before_instruction (es_out st)" "instr_ok inp" "pv_state (re_Rav inp) = RST_FULL"
  shows "outputs_at after_instruction st (exec_memory inp rbv st)"
  unfolding exec_memory_def Let_def
  by (rule at_out) (use assms in \<open>auto simp: output_defs access_size_def instr_ok_def\<close>)

lemma at_get:
  assumes "before_instruction (es_out st)"
  shows "outputs_at after_instruction st (exec_get inp rbv st)"
  unfolding exec_get_def using assms
  by (intro outputs_at_rules at_commit) (auto simp: output_defs elim!: res_bind_InrE split: option.splits)

lemma at_control:
  assumes "before_instruction (es_out st)"
  shows "outputs_at after_instruction st (exec_control inp rav rbv st)"
proof -
  have debug: "es_out st' = es_out st" if "ExecDebug rav rbv st e c = Inr ((a, st'), c')" for st e c a st' c'
    using that unfolding ExecDebug_def Let_def ExecStatusAction_def ExecMemoryControl_def
    by (auto simp: exec_done_def ret_def raise_error_def on_memadmin_def get_core_def set_core_def
        elim!: bnd_InrE liftr_InrE split: if_splits)
  have brk: "es_out st' = message (RMSG_BREAK (co_pid c) (unat (cd_fid inp))) (es_out st)"
    if "ExecBreak inp st e c = Inr ((a, st'), c')" "en_phase e = PHASE_COMMIT" for st e c a st' c'
    using that by (auto simp: ExecBreak_def get_core_def out_def get_env_def COMMIT_def exec_done_def ret_def)
  show ?thesis
    using assms
    by (auto simp: exec_control_def outputs_at_def out_def get_env_def exec_then_def exec_done_def ret_def COMMIT_def output_defs
        elim!: bnd_InrE dest!: debug brk split: if_splits)
qed

lemma at_remote:
  "before_instruction (es_out st) \<Longrightarrow> instr_ok inp \<Longrightarrow> outputs_at after_instruction st (exec_remote junk inp fid rbv st)"
  by (auto simp: exec_remote_def Let_def intro!: at_SetFamilyProperty at_WriteFamilyRegister at_ExecDetach at_ExecSync
      at_ReadFamilyRegister at_done)

lemma at_uthread:
  "before_instruction (es_out st) \<Longrightarrow> instr_ok inp \<Longrightarrow> outputs_at after_instruction st (exec_uthread junk inp rav rbv st)"
  unfolding exec_uthread_def Let_def
  by (intro outputs_at_rules at_get at_control at_remote at_ExecAllocate at_ExecBundle at_done)

lemma at_uthreadf:
  "before_instruction (es_out st) \<Longrightarrow> instr_ok inp \<Longrightarrow> outputs_at after_instruction st (exec_uthreadf junk inp rav st)"
  unfolding exec_uthreadf_def Let_def
  by (intro outputs_at_rules at_commit)
    (auto intro!: at_WriteFamilyRegister at_ReadFamilyRegister at_done simp: output_defs elim!: res_bind_InrE)

section \<open>Operations\<close>

lemma perr_loop_type: "perr_loop a b is v = Inr r \<Longrightarrow> pv_size r = pv_size v \<and> pv_state r = pv_state v"
proof (induction "is" arbitrary: v)
  case (Cons i "is")
  then show ?case by (fastforce simp: Let_def elim!: res_bind_InrE)
qed simp

lemma exec_function_type:
  assumes "exec_function opcode = Some f" "f v rav rbv func = Inr (ok, r)" "pv_state v = RST_INVALID"
  shows "pv_size r = pv_size v \<and> pv_state r \<in> {RST_INVALID, RST_FULL}"
proof -
  have fpti: "pv_size r = pv_size v \<and> pv_state r = pv_state v" if "FPTI_result g a b c v = Inr r" for g a b c v r
    using that by (cases g) (auto dest: perr_loop_type)
  consider "f = ExecuteINTA" | "f = ExecuteINTL" | "f = ExecuteINTS" | "f = ExecuteINTM" | "f = ExecuteFLTV"
    | "f = ExecuteFLTL" | "f = ExecuteFPTI" | "f = ExecuteITFP" | "f = ExecuteFLTI"
    using assms(1) unfolding exec_function_def by (auto split: if_splits)
  then show ?thesis
  proof cases
    case 7
    then show ?thesis
      using assms(2,3) unfolding ExecuteFPTI_def by (auto simp: Let_def elim!: res_bind_InrE dest!: fpti split: option.splits)
  next
    case 8
    then show ?thesis
      using assms(2,3) unfolding ExecuteITFP_def by (auto simp: Let_def elim!: res_bind_InrE split: if_splits)
  qed (use assms(2,3) in \<open>auto simp: ExecuteINTA_def ExecuteINTL_def ExecuteINTS_def ExecuteINTM_def ExecuteFLTV_def
      ExecuteFLTL_def ExecuteFLTI_def elim!: res_bind_InrE split: option.splits\<close>)
qed

lemma at_fpu:
  assumes "before_instruction (es_out st)" "instr_ok inp"
  shows "outputs_at after_instruction st (exec_fpu junk inp fop st)"
proof -
  have end': "outputs_at after_instruction st (exec_commit (\<lambda>st. Inr (st\<lparr>es_out := pending_result junk (pv_size (em_Rcv (es_out st))) (es_out st),
      es_flop := es_flop st + 1\<rparr>)) (exec_done PIPE_CONTINUE) (st\<lparr>es_fpu := x\<rparr>))" for x
    using assms by (auto simp: outputs_at_def exec_commit_def exec_done_def get_env_def ret_def bnd_def liftr_def output_defs)
  have stall: "outputs_at after_instruction st (exec_done a (st\<lparr>es_fpu := x\<rparr>))" for a x
    using assms by (auto simp: outputs_at_def exec_done_def ret_def output_defs)
  have env: "outputs_at P st (get_env f)" if "\<And>e. outputs_at P st (f e)" for P st f
    using that by (auto simp: outputs_at_def get_env_def)
  show ?thesis
    unfolding exec_fpu_def Let_def
    by (auto intro!: outputs_at_rules env end' stall split: option.splits prod.splits)
qed

lemma at_operation:
  assumes "before_instruction (es_out st)" "instr_ok inp"
  shows "outputs_at after_instruction st (exec_operation junk inp st)"
proof (cases "exec_function (re_opcode inp)")
  case (Some f)
  have "after_instruction (o'\<lparr>em_Rcv := r\<rparr>)"
    if "f (junk\<lparr>pv_state := RST_INVALID, pv_size := re_RcSize inp\<rparr>) (re_Rav inp) (re_Rbv inp) (re_function inp) = Inr (ok, r)"
      "before_instruction o'" for o' ok r
    using exec_function_type [OF Some that(1)] that(2) assms(2) by (auto simp: output_defs instr_ok_def)
  then show ?thesis
    using assms Some at_fpu [OF assms]
    by (auto simp: exec_operation_def outputs_at_def out_def exec_done_def get_env_def ret_def COMMIT_def elim!: bnd_InrE liftr_InrE
        split: if_splits) blast
qed (simp add: exec_operation_def outputs_at_raise)

lemma at_misc:
  "before_instruction (es_out st) \<Longrightarrow> outputs_at after_instruction st (exec_misc now inp st)"
  unfolding exec_misc_def by (auto intro!: outputs_at_rules at_out at_done simp: output_defs)

lemma at_ExecuteInstruction:
  assumes "before_instruction (es_out st)" "instr_ok inp" "pv_state (re_Rav inp) = RST_FULL"
  shows "outputs_at after_instruction st (ExecuteInstruction junk now inp st)"
  unfolding ExecuteInstruction_def using assms
  by (cases "re_format inp")
    (auto intro!: outputs_at_rules at_branch at_jump at_memory at_uthread at_uthreadf at_operation at_misc)

text \<open>
  C4. The assertions of the later stages on what they are given hold for what the execute stage makes. For an
  instruction whose operands have the size of a register, with an operand that is not full only if the
  read stage suspended the thread on it, the output after the commit phase has a memory access of at most
  eight bytes and a result of the size of a register; a thread that ends does not suspend, one that
  suspends switches, a waiting result comes with a suspension, names the thread, and neither
  accesses memory nor sends a message.
\<close>

theorem execute_output_ok:
  assumes "ExecuteStage_OnCycle junk now inp st e c = Inr ((a, st'), c')" "en_phase e = PHASE_COMMIT" "a \<noteq> PIPE_STALL"
    and "instr_ok inp"
  defines "o' \<equiv> es_out st'"
  shows "em_size o' \<le> 8 \<and> pv_size (em_Rcv o') = INTEGER_SIZE
    \<and> (cd_kill o' \<longrightarrow> em_suspend o' = SUSPEND_NONE) \<and> (em_suspend o' \<noteq> SUSPEND_NONE \<longrightarrow> cd_swch o')
    \<and> (em_suspend o' = SUSPEND_MISSING_DATA \<longleftrightarrow> pv_state (em_Rcv o') = RST_WAITING)
    \<and> (em_suspend o' = SUSPEND_MEMORY_BARRIER \<longrightarrow> pv_state (em_Rcv o') = RST_INVALID)
    \<and> (em_suspend o' \<noteq> SUSPEND_NONE \<longrightarrow> em_size o' = 0 \<and> em_Rrc o' = RMSG_NONE)
    \<and> (pv_state (em_Rcv o') = RST_WAITING \<longrightarrow> tq_head (pv_waiting (em_Rcv o')) = unat (cd_tid o'))"
proof (cases "pv_state (re_Rav inp) = RST_FULL")
  case False
  then have "after_suspension o'"
    using assms(1,2,4) unfolding o'_def
    by (auto simp: ExecuteStage_OnCycle_def out_def get_env_def exec_done_def ret_def COMMIT_def after_suspension_def
        suspend_output_def execute_start_def copy_common_def instr_ok_def)
  then show ?thesis by (auto simp: after_suspension_def)
next
  case True
  define s0 where "s0 = st\<lparr>es_out := instruction_output inp (execute_start inp (es_out st))\<rparr>"
  have before: "before_instruction (es_out s0)"
    using assms(4) by (simp add: s0_def instruction_output_def execute_start_def before_instruction_def instr_ok_def)
  obtain st1 c1 where run: "ExecuteInstruction junk now inp s0 e c = Inr ((a, st1), c1)"
    and o': "o' = (if a = PIPE_FLUSH then (es_out st1)\<lparr>cd_swch := True, cd_kill := False\<rparr> else es_out st1)"
    using assms(1-3) True unfolding o'_def
    by (auto simp: ExecuteStage_OnCycle_def out_def get_env_def COMMIT_def s0_def exec_commit_def liftr_def exec_done_def ret_def
        bnd_def elim!: res_bind_InrE split: if_splits)
  have "after_instruction (es_out st1)"
    using at_ExecuteInstruction [OF before assms(4) True] run assms(2) unfolding outputs_at_def by blast
  then have "after_instruction o'" by (auto simp: o' after_instruction_def)
  then show ?thesis by (auto simp: after_instruction_def)
qed

section \<open>A barrier at the end of a thread\<close>

text \<open>A memory barrier always flushes, also when no write is pending; the flush clears the mark of a thread that
  ends with the barrier, which then goes on behind its last instruction.\<close>

lemma barrier_clears_kill:
  assumes "en_phase e = PHASE_COMMIT" "re_format inp = IFORMAT_MISC" "re_function inp = A_MISCFUNC_MB"
    and "pv_state (re_Rav inp) = RST_FULL" "pv_integer (re_Rav inp) = Inr x" "pv_integer (re_Rbv inp) = Inr y"
    and "unat (cd_tid inp) < length (co_threads c)"
      "td_numPendingWrites (th_dependencies (co_threads c ! unat (cd_tid inp))) = 0"
  shows "\<exists>st'. ExecuteStage_OnCycle junk now inp st e c = Inr ((PIPE_FLUSH, st'), c) \<and> \<not> cd_kill (es_out st')
    \<and> cd_swch (es_out st') \<and> em_suspend (es_out st') = SUSPEND_NONE \<and> cd_pc (es_out st') = cd_pc inp + 4"
  using assms
  by (simp add: ExecuteStage_OnCycle_def out_def get_env_def ExecuteInstruction_def liftr_def bnd_def exec_misc_def
      MemoryWriteBarrier_def with_thread_def get_core_def defined_def ret_def exec_done_def exec_commit_def COMMIT_def
      instruction_output_def)

text \<open>A store of eight bytes, sixteen bytes behind an address.\<close>

definition example_operand :: "u64 \<Rightarrow> PipeValue" where
  "example_operand x = \<lparr>pv_state = RST_FULL, pv_size = 8, pv_bits = x, pv_waiting = \<lparr>tq_head = 0, tq_tail = 0\<rparr>,
     pv_memory = \<lparr>mr_next = INVALID_REG, mr_fid = 0, mr_size = 0, mr_offset = 0, mr_sign_extend = False\<rparr>\<rparr>"

definition store_example :: ReadExecuteLatch where
  "store_example = \<lparr>cd_pc = 0x1004, cd_tid = 1, cd_fid = 0, cd_swch = True, cd_kill = True, cd_pc_dbg = 0x1004, cd_logical_index = 0,
     re_format = IFORMAT_MEM_STORE, re_displacement = 16, re_function = 0, re_opcode = A_OP_STQ, re_placeSize = 1,
     re_regs = (\<lambda>_. \<lparr>ri_family = \<lparr>fri_count = \<lparr>rn_globals = 0, rn_shareds = 0, rn_locals = 0\<rparr>, fri_base = 0, fri_size = 0,
       fri_last_shareds = 0\<rparr>, ri_thread = \<lparr>tri_locals = 0, tri_dependents = 0, tri_shareds = 0\<rparr>\<rparr>),
     re_Rc = INVALID_REG, re_Rav = example_operand 42, re_Rbv = example_operand 0x2000, re_RcSize = 8, re_regofs = 0,
     re_legacy = False, re_Ra = INVALID_REG, re_Rb = INVALID_REG\<rparr>"

definition execute_latch_example :: ExecuteMemoryLatch where
  "execute_latch_example = \<lparr>cd_pc = 0, cd_tid = 0, cd_fid = 0, cd_swch = False, cd_kill = False, cd_pc_dbg = 0, cd_logical_index = 0,
     em_suspend = SUSPEND_NONE, em_address = 0, em_size = 0, em_sign_extend = False, em_Rcv = example_operand 0, em_Rc = INVALID_REG,
     em_placeSize = 1, em_Rrc = RMSG_NONE, em_Ra = INVALID_REG\<rparr>"

definition execute_example :: ExecuteStage where
  "execute_example = \<lparr>es_out = execute_latch_example, es_flop = 0, es_op = 0, es_fpu = None, es_asr = [], es_apr = [],
     es_gridSize = 1, es_stop = False\<rparr>"

lemma store_example_run:
  "\<exists>st'. ExecuteStage_OnCycle (example_operand 0) 9 store_example execute_example (fpu_env PHASE_COMMIT) c = Inr ((PIPE_CONTINUE, st'), c)
     \<and> em_size (es_out st') = 8 \<and> em_address (es_out st') = 0x2010"
  by (simp add: ExecuteStage_OnCycle_def out_def get_env_def fpu_env_def store_example_def execute_example_def example_operand_def
      execute_latch_example_def ExecuteInstruction_def pv_integer_def MultiInteger_get_def liftr_def bnd_def exec_memory_def
      execute_start_def instruction_output_def copy_common_def exec_done_def ret_def COMMIT_def access_size_def Let_def
      exec_commit_def A_OP_STQ_def A_OP_LDAH_def A_OP_LDA_def A_OP_STQ_U_def A_OP_LDQ_U_def A_OP_STB_def A_OP_LDBU_def
      A_OP_STW_def A_OP_LDWU_def A_OP_STS_def A_OP_LDS_def A_OP_STF_def A_OP_LDF_def A_OP_STL_def A_OP_LDL_def)

theorem execute_output_ok_witness:
  "\<forall>c. \<exists>st'. ExecuteStage_OnCycle (example_operand 0) 9 store_example execute_example (fpu_env PHASE_COMMIT) c = Inr ((PIPE_CONTINUE, st'), c)
     \<and> em_size (es_out st') = 8 \<and> (cd_kill (es_out st') \<longrightarrow> em_suspend (es_out st') = SUSPEND_NONE)"
proof
  fix c
  obtain st' where run: "ExecuteStage_OnCycle (example_operand 0) 9 store_example execute_example (fpu_env PHASE_COMMIT) c = Inr ((PIPE_CONTINUE, st'), c)"
    "em_size (es_out st') = 8"
    using store_example_run by blast
  have "instr_ok store_example" "en_phase (fpu_env PHASE_COMMIT) = PHASE_COMMIT"
    by (simp_all add: instr_ok_def store_example_def example_operand_def INTEGER_SIZE_def fpu_env_def)
  then show "\<exists>st'. ExecuteStage_OnCycle (example_operand 0) 9 store_example execute_example (fpu_env PHASE_COMMIT) c = Inr ((PIPE_CONTINUE, st'), c)
     \<and> em_size (es_out st') = 8 \<and> (cd_kill (es_out st') \<longrightarrow> em_suspend (es_out st') = SUSPEND_NONE)"
    using execute_output_ok [OF run(1)] run by auto
qed

end
