(* ===== verification/Pipeline_Flush.thy ===== *)
theory Pipeline_Flush
  imports Pipeline_Cycle Execute_Output Core_Initialization
begin

text \<open>
  What a flush of the pipeline removes: a stage that ends the run of a thread, by a branch or a
  suspension, takes back the instructions of the thread that were fetched after it.
\<close>

section \<open>Flushing\<close>

lemma set_status_parts [simp]:
  "pl_fd (set_status i r p) = pl_fd p" "pl_dr (set_status i r p) = pl_dr p" "pl_re (set_status i r p) = pl_re p" "pl_mws (set_status i r p) = pl_mws p" "pl_execute (set_status i r p) = pl_execute p" "pl_empty (set_status i r p) = pl_empty p" "pl_fetch (set_status i r p) = pl_fetch p" "latch_tid j (set_status i r p) = latch_tid j p"
  "pl_status (set_status i r p) = (pl_status p)[i := r]"
  by (simp_all add: set_status_def latch_tid_def)

lemma set_latch_empty_parts [simp]:
  "pl_fd (set_latch_empty i b p) = pl_fd p" "pl_dr (set_latch_empty i b p) = pl_dr p" "pl_re (set_latch_empty i b p) = pl_re p" "pl_mws (set_latch_empty i b p) = pl_mws p" "pl_execute (set_latch_empty i b p) = pl_execute p" "pl_status (set_latch_empty i b p) = pl_status p" "pl_fetch (set_latch_empty i b p) = pl_fetch p" "latch_tid j (set_latch_empty i b p) = latch_tid j p"
  "pl_empty (set_latch_empty i b p) = (pl_empty p)[i := b]"
  by (simp_all add: set_latch_empty_def latch_tid_def)

lemma clear_stage_parts [simp]:
  "pl_fd (clear_stage i tid p) = pl_fd p" "pl_dr (clear_stage i tid p) = pl_dr p" "pl_re (clear_stage i tid p) = pl_re p" "pl_mws (clear_stage i tid p) = pl_mws p" "pl_execute (clear_stage i tid p) = pl_execute p" "pl_status (clear_stage i tid p) = pl_status p" "pl_empty (clear_stage i tid p) = pl_empty p" "latch_tid j (clear_stage i tid p) = latch_tid j p"
  by (simp_all add: clear_stage_def latch_tid_def)

lemma flush_stage_parts [simp]:
  "pl_fd (flush_stage tid f p) = pl_fd p" "pl_dr (flush_stage tid f p) = pl_dr p" "pl_re (flush_stage tid f p) = pl_re p"
  "pl_mws (flush_stage tid f p) = pl_mws p" "pl_execute (flush_stage tid f p) = pl_execute p"
  "length (pl_empty (flush_stage tid f p)) = length (pl_empty p)" "length (pl_status (flush_stage tid f p)) = length (pl_status p)"
  "latch_tid j (flush_stage tid f p) = latch_tid j p"
  by (simp_all add: flush_stage_def)

lemma nth_update: "j < length xs \<Longrightarrow> xs[i := v] ! j = (if i = j then v else xs ! j)"
  by (simp add: nth_list_update)

lemma flush_stage_empty:
  "j < length (pl_empty p) \<Longrightarrow> pl_empty (flush_stage tid f p) ! j = (pl_empty p ! j \<or> Suc j = f \<and> latch_tid j p = tid)"
  by (cases f) (auto simp add: flush_stage_def nth_update)

lemma flush_stage_status:
  "j < length (pl_status p) \<Longrightarrow>
    pl_status (flush_stage tid f p) ! j = (if j = f \<and> 0 < f \<and> latch_tid (f - 1) p = tid then DELAYED else pl_status p ! j)"
  by (cases f) (auto simp add: flush_stage_def nth_update)

lemma flush_stage_switched:
  "fs_switched (pl_fetch (flush_stage tid f p)) = (fs_switched (pl_fetch p) \<or> f = 0 \<and> cd_tid (pl_fd p) = tid)"
  by (auto simp: flush_stage_def clear_stage_def FetchStage_Clear_def set_status_def set_latch_empty_def)

lemma flush_fold:
  defines "q \<equiv> \<lambda>n p tid. fold (flush_stage tid) (rev [0..<n]) p"
  shows "pl_fd (q n p tid) = pl_fd p \<and> pl_dr (q n p tid) = pl_dr p \<and> pl_re (q n p tid) = pl_re p \<and> pl_mws (q n p tid) = pl_mws p
      \<and> pl_execute (q n p tid) = pl_execute p \<and> length (pl_empty (q n p tid)) = length (pl_empty p)
      \<and> length (pl_status (q n p tid)) = length (pl_status p)"
    and "j < length (pl_empty p) \<Longrightarrow> pl_empty (q n p tid) ! j = (pl_empty p ! j \<or> Suc j < n \<and> latch_tid j p = tid)"
    and "j < length (pl_status p) \<Longrightarrow>
      pl_status (q n p tid) ! j = (if j < n \<and> 0 < j \<and> latch_tid (j - 1) p = tid then DELAYED else pl_status p ! j)"
    and "fs_switched (pl_fetch (q n p tid)) = (fs_switched (pl_fetch p) \<or> 0 < n \<and> cd_tid (pl_fd p) = tid)"
  unfolding q_def
  by (induction n arbitrary: p)
    (auto simp: flush_stage_empty flush_stage_status flush_stage_switched less_Suc_eq)

text \<open>
  C5. A stage that flushes removes the instructions of its thread from the stages before it, and only these. In a
  pipeline with at least one stage before it: a latch before its input is empty afterwards if it was or
  holds an instruction of the thread; the stages with such a latch do not run in the cycle; the
  fetch stage takes another thread if it was fetching this one; other latches and stages keep what they have.
\<close>

theorem flush_removes_thread:
  fixes p :: "'x Pipeline" and i :: nat
  defines "tid \<equiv> latch_tid (i - 1) p" and "q \<equiv> flush i p"
  assumes "0 < i"
  shows "length (pl_empty q) = length (pl_empty p)
    \<and> (\<forall>j. j < length (pl_empty p) \<longrightarrow> pl_empty q ! j = (pl_empty p ! j \<or> j < i - 1 \<and> latch_tid j p = tid))
    \<and> (\<forall>f. f < length (pl_status p) \<longrightarrow>
         pl_status q ! f = (if 0 < f \<and> f < i \<and> latch_tid (f - 1) p = tid then DELAYED else pl_status p ! f))
    \<and> fs_switched (pl_fetch q) = (fs_switched (pl_fetch p) \<or> cd_tid (pl_fd p) = tid)
    \<and> pl_fd q = pl_fd p \<and> pl_dr q = pl_dr p \<and> pl_re q = pl_re p \<and> pl_mws q = pl_mws p \<and> pl_execute q = pl_execute p"
  using assms(3) flush_fold [where p = p and n = i and tid = tid]
  unfolding q_def flush_def tid_def by (auto simp: less_diff_conv)

text \<open>A thread with the number 1 in all latches but the one behind the decode stage.\<close>

definition pipeline_example :: "unit Pipeline" where
  "pipeline_example = \<lparr>pl_fd = (sample_fetch 0xB54CFFF8)\<lparr>cd_tid := 1\<rparr>, pl_dr = empty_latch\<lparr>cd_tid := 2\<rparr>, pl_re = store_example,
     pl_mws = [\<lparr>cd_pc = 0, cd_tid = 1, cd_fid = 0, cd_swch = False, cd_kill = False, cd_pc_dbg = 0, cd_logical_index = 0,
       mw_suspend = SUSPEND_NONE, mw_Rc = INVALID_REG, mw_Rcv = example_operand 0, mw_Rrc = RMSG_NONE\<rparr>],
     pl_empty = [False, False, False, True, True],
     pl_mwBypass = (True, \<lparr>cd_pc = 0, cd_tid = 1, cd_fid = 0, cd_swch = False, cd_kill = False, cd_pc_dbg = 0, cd_logical_index = 0,
       mw_suspend = SUSPEND_NONE, mw_Rc = INVALID_REG, mw_Rcv = example_operand 0, mw_Rrc = RMSG_NONE\<rparr>),
     pl_status = [SUCCESS, SUCCESS, SUCCESS, SUCCESS, DELAYED, DELAYED],
     pl_fetch = \<lparr>fs_controlBlockSize = 64, fs_buffer = replicate 64 0, fs_switched = False, fs_pc = 0x1010\<rparr>,
     pl_read = (let op = \<lparr>oi_addr = INVALID_REG, oi_value = example_operand 0, oi_offset = -2, oi_islocal = False,
         oi_addr_reg = INVALID_REG, oi_value_reg = example_operand 0\<rparr>
       in \<lparr>rs_operand1 = op, rs_operand2 = op, rs_RaNotPending = False\<rparr>),
     pl_execute = execute_example, pl_memory = \<lparr>ms_loads = 0, ms_stores = 0, ms_load_bytes = 0, ms_store_bytes = 0\<rparr>,
     pl_writeback = \<lparr>ws_stall = False, ws_offset = -1, ws_port = write_port_init\<rparr>, pl_unit = (), pl_active = register_init True,
     pl_runnable = 0, pl_run = 0, pl_busy = 0, pl_stalls = 0\<rparr>"

theorem flush_removes_thread_witness:
  "pl_empty (flush 3 pipeline_example) ! 0 \<and> \<not> pl_empty (flush 3 pipeline_example) ! 1
     \<and> pl_status (flush 3 pipeline_example) ! 1 = DELAYED \<and> fs_switched (pl_fetch (flush 3 pipeline_example))"
proof -
  have p: "latch_tid 0 pipeline_example = 1" "latch_tid 1 pipeline_example = 2" "latch_tid 2 pipeline_example = 1"
    "pl_empty pipeline_example = [False, False, False, True, True]" "length (pl_status pipeline_example) = 6"
    "cd_tid (pl_fd pipeline_example) = 1"
    by (simp_all add: pipeline_example_def latch_tid_def store_example_def)
  show ?thesis using flush_removes_thread [where i = 3 and p = pipeline_example] p by (auto simp: less_Suc_eq)
qed

end
