(* ===== verification/Spec2Isabelle.thy ===== *)
theory Spec2Isabelle
  imports Simulation_Kernel TLB_Refill Allocator_Distribution Allocator_Windows Pipeline_Bypass
    Pipeline_Flush
begin

text \<open>
  MGSim is a discrete-event simulator of many-core systems of DRISC processors. A program is run by
  families of threads: a core has tables of families and threads, a register file that is
  divided among them, a pipeline of six stages, caches and a network to the other cores. The
  simulation itself (src/sim) is a kernel that calls processes on the ticks of clocks, with storages that
  connect the processes and ports that arbitrate between them. This library models parts of
  both, as they are built for the Alpha instruction set (TARGET\_MTALPHA).

  \<^bold>\<open>How a cycle is modelled.\<close> The kernel calls a process up to three times in a cycle: to acquire its
  ports, to check what it will do, and to commit. The code guards the changes of a call by the macro
  COMMIT, which lets them happen in the last phase only. The phase is an argument of the definitions, and
  COMMIT a function of it (Prelude). Changes of storages are collected and become visible in the update
  at the end of the cycle, so that each storage has an operation for its update, whose notifications of
  the kernel are returned as a list. The processes of a core are functions of what they see of the kernel
  (the record \<open>env\<close>: phase, cycle, active process) and of the state of the core, in the combinators of
  Core\_State; what the code changes outside COMMIT is changed in every phase.

  \<^bold>\<open>Errors.\<close> Operations that may fail return a value of a sum type: failed assertions and code that is
  marked unreachable, the exceptions of the simulator, and undefined behaviour of C++ (an access out of
  bounds, an overflow of signed integers, a shift by the width) are different errors, and the properties show
  which of them occur and when. Integers have the width of the code, but for the numbers of cycles in the
  kernel (where \<open>next_tick_u64\<close> is the calculation of the code, with its wrap), the capacity of a buffer, the
  registers and their counts in the register allocator (with the remainders written out) and the positions in the
  units of the floating-point unit, which are natural numbers. Loops that may not end are partial
  functions with values in an option type and are shown to return where they are used. The one bound on a
  loop is that of \<open>mark_chain\<close>, which follows the links of a queue of threads for at most as many steps as
  the thread table has entries: a chain without repetition is not longer, and a longer one never ends.

  \<^bold>\<open>The simulation kernel\<close> (src/sim).
  \<^item> Prelude: results, phases (kernel.h), and lemmas about lists, words and the results.
  \<^item> Storages: buffers, registers and flags (buffer.hpp, register.hpp, flag.hpp, flag.cpp), with a locale
    for storages that behave as a queue. \<open>buffer_run_fifo\<close>, \<open>register_run_update\<close> and \<open>flag_run_update\<close>
    relate any run of operations to a queue, to a register that is written or cleared, and to a flag.
  \<^item> Linked\_List: the queue of items that are linked in a table (linkedlist.hpp) and its iterator;
    \<open>llist_cycle_refines_queue\<close>.
  \<^item> Arbitration: ports with priorities, cyclic priorities and both, and the structures with read
    and write ports (ports.h, ports.cpp, arbitrator.cpp). The locale for arbitrated ports
    is interpreted for each policy; \<open>cyclic_port_no_starvation\<close>, \<open>write_ports_exclusive\<close> and others.
  \<^item> Simulation\_Kernel: clocks, processes, activation and the main loop (kernel.cpp, clock.h, process.cpp).
    The handlers of processes are a parameter; \<open>Step_returns\<close> shows that a step returns when they only
    activate processes, the others that clocks and processes are queued where they should be.

  \<^bold>\<open>The memories of a core\<close> (src/arch/drisc).
  \<^item> Context\_Pool, Family\_Table, Thread\_Table: the free lists and counters of contexts (FamilyTable.cpp,
    ThreadTable.cpp), in one locale for tables of contexts; \<open>thread_table_pool\<close>, \<open>family_table_pool\<close>.
  \<^item> Register\_Allocator (RAUnit.cpp): the search for free registers and the counters; \<open>ra_Alloc_correct\<close>.
  \<^item> Register\_File (RegisterFile.cpp): the guards of writes, the update and the wakeup of threads;
    \<open>rf_cycle_applies_writes\<close>, \<open>pending_load_protected\<close>.
  \<^item> DRISC\_Identifiers (DRISC.cpp): places and families as integers, thread-local storage.
  \<^item> Address (Address.cpp): numbers with a width; MMU\_Table (mmu/Table.cpp): the tables of translations and
    their eviction, with MMU\_LRU that relates their linked list to the order of use. TLB (mmu/TLB.cpp,
    manager/MgtMsg.h): lookups, misses and the messages of the manager; TLB\_Refill joins a miss to its answer.
  \<^item> ICache (ICache.cpp): the instruction cache; ICache\_Holds follows the references to its lines.

  \<^bold>\<open>The pipeline\<close> (src/arch/drisc).
  \<^item> Pipeline\_Values (Pipeline.h): the values in the latches.
  \<^item> Alpha\_Decode (DecodeStage.cpp, ISA.mtalpha.cpp): latches, instruction formats, decoding and the
    translation of register numbers; \<open>DecodeStage_translates\<close>, \<open>DecodeStage_type\<close>.
  \<^item> Alpha\_Integer, Alpha\_Multimedia, Alpha\_Float (ISA.mtalpha.cpp, ISA.mtalpha.h): the functions of the
    execute stage, on IEEE\_Doubles, which describes the conversions and comparisons of doubles that the
    host does.
  \<^item> Pipeline\_Latches (Pipeline.h, DummyStage.cpp): the latches behind the decode stage. Stage\_Fetch,
    Stage\_Read, Stage\_Execute (ExecuteStage.cpp), Stage\_Execute\_Alpha (ISA.mtalpha.cpp), Stage\_Memory and
    Stage\_Writeback: the other stages, each a function of its own state and its latches in the operations
    on the core. The devices and the data cache that the memory stage calls are an argument.
  \<^item> Pipeline\_Cycle (Pipeline.cpp): the order of the stages, stalls, flushes and bypasses.
    Pipeline\_Bypass: an operand read through the bypasses is the one that the register file will hold
    (\<open>bypasses_read_as_written\<close>), with two cases in which a later write is refused or a message is sent
    again. Execute\_Output: what the execute stage makes meets the assertions of the stages behind it
    (\<open>execute_output_ok\<close>). Pipeline\_Flush: what a flush removes (\<open>flush_removes_thread\<close>).
  \<^item> FPU\_Unit (FPU.cpp): the queues and units of the floating-point unit, with the operations of
    the host on doubles as an argument; \<open>units_in_order\<close>.
  \<^bold>\<open>Families, threads and the network\<close> (src/arch/drisc).
  \<^item> Core\_Base (simtypes.h, Network.p.h): the messages between cores and what a process sees of the kernel.
    Core\_State (FamilyTable.h, ThreadTable.h, Allocator.p.h, Network.p.h): the state of a core.
  \<^item> Allocator\_Threads, Allocator\_Families, Allocator\_Create (Allocator.cpp): the queues of threads and the
    dependencies of threads and families; the allocation of threads, registers and contexts; requests,
    the state machine that creates a family, the activation of threads, bundles and the first family.
    Allocator\_Distribution shows that the cores of a place share the threads of a family
    (\<open>family_distributed\<close>).
    Core\_Frame has rules for the parts of the state an operation keeps and for runs that return;
    Allocator\_Windows shows that the register windows of the threads of a family never clash
    (\<open>register_windows\<close>).
  \<^item> Core\_Network (Network.cpp): the messages from the delegation network, from the link and back, and
    the transfers between cores. Core\_Initialization (DRISC.cpp): how a core starts; Core\_Example: a
    small core, at which properties are applied.

  \<^bold>\<open>The system around the cores\<close> (src/arch).
  \<^item> Log2 (src/sim/log2.h), Bank\_Selector (BankSelector.cpp): the strategies that distribute addresses over
    banks.
  \<^item> Ordered\_Map, Virtual\_Memory, Memory\_Blocks (VirtualMemory.cpp): reserved ranges, permissions, and
    reading and writing in blocks. Ordered\_Map models the part of std::map that is used.
  \<^item> Marshalling (simtypes.cpp, RegisterFile.cpp): bytes of a cache line to registers and back.

  \<^bold>\<open>Not modelled.\<close> The data cache and the caches and memories of the system are not part of the
  library, nor are the instruction sets MTSPARC, MIPS and OR1K. Devices, the input and output of a core, configuration, sampling, monitoring,
  serialization, the command line and the construction of the system are input and output or glue.
  Messages for debugging and the numbers that are only printed are left out everywhere.
\<close>

end
